(* ===== verification/Prelude.thy ===== *)
theory Prelude
  imports Complex_Main "HOL-Library.AList" "HOL-Library.Char_ord" "HOL-Library.List_Lexorder"
    "HOL-Library.Multiset"
begin

text \<open>
  What every component of the model shares: JSON-shaped Python values, Python's truth
  test and equality on them, dictionaries as insertion-ordered association lists, the
  string methods the code calls, results of fallible code, and generic list lemmas.

  Strings are lists of \<open>char\<close>, read as the code points U+0000 to U+00FF; whitespace and
  lower-casing follow Python's \<open>str.strip\<close> and \<open>str.lower\<close> on that range.
\<close>

named_theorems py_simps \<open>evaluation of the Python primitives\<close>
named_theorems res_iff \<open>when a fallible operation returns, and what\<close>

section \<open>Values\<close>

datatype pyval =
    PNone
  | PBool bool
  | PInt int
  | PFloat rat
  | PStr string
  | PList "pyval list"
  | PDict "(string \<times> pyval) list"

type_synonym pydict = "(string \<times> pyval) list"

text \<open>Python numbers: \<open>bool\<close> is a subclass of \<open>int\<close>, so \<open>isinstance(x, (int, float))\<close>
  holds of booleans too.\<close>

fun num_of :: "pyval \<Rightarrow> rat option" where
  "num_of (PBool b) = Some (if b then 1 else 0)"
| "num_of (PInt i) = Some (of_int i)"
| "num_of (PFloat r) = Some r"
| "num_of _ = None"

fun truthy :: "pyval \<Rightarrow> bool" where
  "truthy PNone = False"
| "truthy (PBool b) = b"
| "truthy (PInt i) = (i \<noteq> 0)"
| "truthy (PFloat r) = (r \<noteq> 0)"
| "truthy (PStr s) = (s \<noteq> [])"
| "truthy (PList xs) = (xs \<noteq> [])"
| "truthy (PDict d) = (d \<noteq> [])"

text \<open>Python's \<open>==\<close>: numbers by value across types, lists elementwise, dictionaries by
  content whatever their order.\<close>

fun py_eq :: "pyval \<Rightarrow> pyval \<Rightarrow> bool"
  and py_eq_list :: "pyval list \<Rightarrow> pyval list \<Rightarrow> bool"
  and py_eq_items :: "pydict \<Rightarrow> pydict \<Rightarrow> bool" where
  "py_eq PNone w = (w = PNone)"
| "py_eq (PBool b) w = (num_of w = Some (if b then 1 else 0))"
| "py_eq (PInt i) w = (num_of w = Some (of_int i))"
| "py_eq (PFloat r) w = (num_of w = Some r)"
| "py_eq (PStr s) w = (w = PStr s)"
| "py_eq (PList xs) w = (case w of PList ys \<Rightarrow> py_eq_list xs ys | _ \<Rightarrow> False)"
| "py_eq (PDict d) w =
     (case w of PDict e \<Rightarrow> length d = length e \<and> py_eq_items d e | _ \<Rightarrow> False)"
| "py_eq_list [] ys = (ys = [])"
| "py_eq_list (x # xs) ys =
     (case ys of [] \<Rightarrow> False | y # ys' \<Rightarrow> py_eq x y \<and> py_eq_list xs ys')"
| "py_eq_items [] e = True"
| "py_eq_items ((k, v) # d) e =
     ((case map_of e k of None \<Rightarrow> False | Some w \<Rightarrow> py_eq v w) \<and> py_eq_items d e)"

lemma py_eq_PStr [simp]: "py_eq (PStr s) (PStr t) \<longleftrightarrow> s = t"
  by auto

section \<open>Dictionaries\<close>

text \<open>A dictionary keeps its insertion order; storing under a present key keeps its place.
  This is the library's \<open>AList.update\<close>; \<open>{**a, **b}\<close> stores the items of \<open>b\<close> one by one.\<close>

definition dmerge :: "('k \<times> 'v) list \<Rightarrow> ('k \<times> 'v) list \<Rightarrow> ('k \<times> 'v) list" where
  "dmerge a b = fold (\<lambda>(k, v). AList.update k v) b a"

definition dget :: "pydict \<Rightarrow> string \<Rightarrow> pyval" where
  "dget d k = (case map_of d k of None \<Rightarrow> PNone | Some v \<Rightarrow> v)"

definition dget_or :: "pydict \<Rightarrow> string \<Rightarrow> pyval \<Rightarrow> pyval" where
  "dget_or d k dflt = (case map_of d k of None \<Rightarrow> dflt | Some v \<Rightarrow> v)"

lemma dmerge_Nil [simp]: "dmerge a [] = a"
  by (simp add: dmerge_def)

lemma dmerge_Cons: "dmerge a ((k, v) # b) = dmerge (AList.update k v a) b"
  by (simp add: dmerge_def)

lemma map_of_dmerge:
  "distinct (map fst b) \<Longrightarrow> map_of (dmerge a b) = map_of a ++ map_of b"
proof (induction b arbitrary: a)
  case Nil
  then show ?case by simp
next
  case (Cons p b)
  obtain k v where p: "p = (k, v)" by (cases p)
  from Cons.prems p have k: "map_of b k = None" and d: "distinct (map fst b)"
    by (simp_all add: map_of_eq_None_iff)
  have "map_of (dmerge a (p # b)) = map_of (AList.update k v a) ++ map_of b"
    using Cons.IH [OF d] by (simp add: p dmerge_Cons)
  also have "\<dots> = map_of a ++ map_of (p # b)"
    using k by (auto simp: p update_conv' map_add_def fun_eq_iff split: option.splits)
  finally show ?case .
qed

lemma distinct_dmerge:
  "distinct (map fst a) \<Longrightarrow> distinct (map fst (dmerge a b))"
proof (induction b arbitrary: a)
  case Nil
  then show ?case by simp
next
  case (Cons p b)
  obtain k v where p: "p = (k, v)" by (cases p)
  have "distinct (map fst (AList.update k v a))"
    using Cons.prems by (rule distinct_update)
  with Cons.IH show ?case by (simp add: p dmerge_Cons)
qed

section \<open>Strings\<close>

definition char_nat :: "char \<Rightarrow> nat" where
  "char_nat c = of_char c"

definition is_space :: "char \<Rightarrow> bool" where
  "is_space c = (let n = char_nat c in
     (9 \<le> n \<and> n \<le> 13) \<or> (28 \<le> n \<and> n \<le> 32) \<or> n = 133 \<or> n = 160)"

definition lower_char :: "char \<Rightarrow> char" where
  "lower_char c = (let n = char_nat c in
     if (65 \<le> n \<and> n \<le> 90) \<or> (192 \<le> n \<and> n \<le> 222 \<and> n \<noteq> 215) then char_of (n + 32) else c)"

definition lower :: "string \<Rightarrow> string" where
  "lower s = map lower_char s"

definition lstrip :: "string \<Rightarrow> string" where
  "lstrip s = dropWhile is_space s"

definition strip :: "string \<Rightarrow> string" where
  "strip s = rev (dropWhile is_space (rev (lstrip s)))"

definition starts_with :: "string \<Rightarrow> string \<Rightarrow> bool" where
  "starts_with p s = (take (length p) s = p)"

definition ends_with :: "string \<Rightarrow> string \<Rightarrow> bool" where
  "ends_with p s = starts_with (rev p) (rev s)"

fun contains :: "string \<Rightarrow> string \<Rightarrow> bool" where
  "contains p [] = (p = [])"
| "contains p (c # s) = (starts_with p (c # s) \<or> contains p s)"

fun join :: "string \<Rightarrow> string list \<Rightarrow> string" where
  "join sep [] = []"
| "join sep [x] = x"
| "join sep (x # y # ys) = x @ sep @ join sep (y # ys)"

text \<open>\<open>s.split(",")\<close> and \<open>s.partition(":")\<close> for a one-character separator.\<close>

fun split_on :: "char \<Rightarrow> string \<Rightarrow> string list" where
  "split_on c [] = [[]]"
| "split_on c (x # xs) =
     (if x = c then [] # split_on c xs
      else (case split_on c xs of [] \<Rightarrow> [[x]] | y # ys \<Rightarrow> (x # y) # ys))"

lemma split_on_plain: "c \<notin> set a \<Longrightarrow> split_on c a = [a]"
  by (induction a) auto

lemma split_on_segment:
  "c \<notin> set a \<Longrightarrow> split_on c (a @ c # b) = a # split_on c b"
  by (induction a) auto

definition partition_on :: "char \<Rightarrow> string \<Rightarrow> string \<times> string \<times> string" where
  "partition_on c s =
     (case dropWhile (\<lambda>x. x \<noteq> c) s of
        [] \<Rightarrow> (s, [], [])
      | x # rest \<Rightarrow> (takeWhile (\<lambda>x. x \<noteq> c) s, [x], rest))"

text \<open>\<open>s.removeprefix(p)\<close>.\<close>

definition remove_prefix :: "string \<Rightarrow> string \<Rightarrow> string" where
  "remove_prefix p s = (if starts_with p s then drop (length p) s else s)"

fun nat_digits :: "nat \<Rightarrow> string" where
  "nat_digits n =
     (if n < 10 then [char_of (48 + n)] else nat_digits (n div 10) @ [char_of (48 + n mod 10)])"

declare nat_digits.simps [simp del]

definition str_int :: "int \<Rightarrow> string" where
  "str_int i = (if i < 0 then ''-'' @ nat_digits (nat (- i)) else nat_digits (nat i))"

lemma starts_with_iff: "starts_with p s \<longleftrightarrow> (\<exists>t. s = p @ t)"
  unfolding starts_with_def by (metis append_eq_conv_conj append_take_drop_id)

lemma starts_with_append [simp]: "starts_with p (p @ s)"
  by (auto simp: starts_with_iff)

lemma ends_with_iff: "ends_with p s \<longleftrightarrow> (\<exists>t. s = t @ p)"
  unfolding ends_with_def starts_with_iff
  by (metis rev_append rev_rev_ident)

lemma contains_iff: "contains p s \<longleftrightarrow> (\<exists>u v. s = u @ p @ v)"
proof (induction s)
  case Nil
  then show ?case by auto
next
  case (Cons c s)
  show ?case
  proof
    assume "contains p (c # s)"
    then consider "starts_with p (c # s)" | "contains p s" by auto
    then show "\<exists>u v. c # s = u @ p @ v"
    proof cases
      case 1
      then show ?thesis unfolding starts_with_iff by (metis append_Nil)
    next
      case 2
      then show ?thesis using Cons.IH by (metis append_Cons)
    qed
  next
    assume "\<exists>u v. c # s = u @ p @ v"
    then obtain u v where uv: "c # s = u @ p @ v" by blast
    show "contains p (c # s)"
    proof (cases u)
      case Nil
      with uv have "starts_with p (c # s)" by (auto simp: starts_with_iff)
      then show ?thesis by simp
    next
      case (Cons d u')
      with uv have "s = u' @ p @ v" by simp
      with \<open>contains p s \<longleftrightarrow> _\<close> show ?thesis by auto
    qed
  qed
qed

text \<open>Numbers written in different ways are different.\<close>

fun digits_value :: "string \<Rightarrow> nat" where
  "digits_value s = foldl (\<lambda>n c. n * 10 + (char_nat c - 48)) 0 s"

lemma digits_value_append: "digits_value (s @ [c]) = digits_value s * 10 + (char_nat c - 48)"
  by simp

lemma digits_value_nat_digits: "digits_value (nat_digits n) = n"
proof (induction n rule: nat_digits.induct)
  case (1 n)
  show ?case
  proof (cases "n < 10")
    case True
    then show ?thesis by (simp add: nat_digits.simps [of n] char_nat_def)
  next
    case False
    have "char_nat (char_of (48 + n mod 10)) = 48 + n mod 10"
      using mod_less_divisor [of 10 n] by (simp add: char_nat_def)
    then have "digits_value (nat_digits n) = (n div 10) * 10 + n mod 10"
      using False 1 by (simp add: nat_digits.simps [of n] digits_value_append del: digits_value.simps)
    then show ?thesis by simp
  qed
qed

lemma nat_digits_inj [simp]: "nat_digits m = nat_digits n \<longleftrightarrow> m = n"
  by (metis digits_value_nat_digits)

section \<open>Lists\<close>

text \<open>Slicing \<open>xs[i:i+n] for i in range(0, len(xs), n)\<close>.\<close>

function chunks_of :: "nat \<Rightarrow> 'a list \<Rightarrow> 'a list list" where
  "chunks_of n xs = (if xs = [] \<or> n = 0 then [] else take n xs # chunks_of n (drop n xs))"
  by pat_completeness auto
termination
  by (relation "measure (\<lambda>(n, xs). length xs)") auto

declare chunks_of.simps [simp del]

lemma concat_chunks_of: "0 < n \<Longrightarrow> concat (chunks_of n xs) = xs"
proof (induction n xs rule: chunks_of.induct)
  case (1 n xs)
  show ?case
  proof (cases "xs = []")
    case True
    then show ?thesis by (simp add: chunks_of.simps [of n "[]"])
  next
    case False
    with 1 show ?thesis by (simp add: chunks_of.simps [of n xs])
  qed
qed

lemma chunks_of_size: "c \<in> set (chunks_of n xs) \<Longrightarrow> length c \<le> n \<and> c \<noteq> []"
proof (induction n xs rule: chunks_of.induct)
  case (1 n xs)
  then show ?case by (cases "xs = [] \<or> n = 0") (auto simp: chunks_of.simps [of n xs])
qed

text \<open>Updating the rows of a table that satisfy a test, in place.\<close>

definition map_if :: "('a \<Rightarrow> bool) \<Rightarrow> ('a \<Rightarrow> 'a) \<Rightarrow> 'a list \<Rightarrow> 'a list" where
  "map_if p f xs = map (\<lambda>x. if p x then f x else x) xs"

lemma map_if_simps [simp]:
  "map_if p f [] = []"
  "map_if p f (x # xs) = (if p x then f x else x) # map_if p f xs"
  "map_if p f (xs @ ys) = map_if p f xs @ map_if p f ys"
  "length (map_if p f xs) = length xs"
  by (simp_all add: map_if_def)

lemma set_map_if: "set (map_if p f xs) = (\<lambda>x. if p x then f x else x) ` set xs"
  by (simp add: map_if_def)

lemma map_map_if:
  assumes "\<And>x. p x \<Longrightarrow> g (f x) = g x"
  shows "map g (map_if p f xs) = map g xs"
  using assms by (induction xs) auto

lemma filter_map_if:
  assumes "\<And>x. p x \<Longrightarrow> q (f x) = q x"
  shows "filter q (map_if p f xs) = map_if p f (filter q xs)"
  using assms by (induction xs) auto

lemma find_Some_iff':
  "List.find p xs = Some x \<Longrightarrow> x \<in> set xs \<and> p x"
  by (auto simp: find_Some_iff)

lemma find_map_if:
  assumes "\<And>x. p x \<Longrightarrow> q (f x) = q x"
  shows "List.find q (map_if p f xs) = map_option (\<lambda>x. if p x then f x else x) (List.find q xs)"
  using assms by (induction xs) auto

lemma find_append:
  "List.find p (xs @ ys) = (case List.find p xs of None \<Rightarrow> List.find p ys | Some x \<Rightarrow> Some x)"
  by (induction xs) auto

lemma distinct_map_unique:
  "distinct (map g xs) \<Longrightarrow> x \<in> set xs \<Longrightarrow> y \<in> set xs \<Longrightarrow> g x = g y \<Longrightarrow> x = y"
  by (meson distinct_map inj_onD)

lemma find_unique:
  "distinct (map g xs) \<Longrightarrow> x \<in> set xs \<Longrightarrow> List.find (\<lambda>y. g y = g x) xs = Some x"
  by (induction xs) (auto simp: image_iff)

section \<open>Inductive invariants\<close>

text \<open>
  The interface of every state machine of the model: an initial state, a step relation and a
  property that holds at the start and that each step keeps. It then holds in every state a
  run reaches, and of every state along a run.
\<close>

locale inductive_invariant =
  fixes start :: "'s \<Rightarrow> bool"
    and step :: "'s \<Rightarrow> 's \<Rightarrow> bool"
    and inv :: "'s \<Rightarrow> bool"
  assumes inv_start: "start s \<Longrightarrow> inv s"
    and inv_step: "inv s \<Longrightarrow> step s t \<Longrightarrow> inv t"
begin

lemma inv_run: "step\<^sup>*\<^sup>* s t \<Longrightarrow> inv s \<Longrightarrow> inv t"
  by (induction rule: rtranclp_induct) (auto intro: inv_step)

lemma inv_reachable: "start s \<Longrightarrow> step\<^sup>*\<^sup>* s t \<Longrightarrow> inv t"
  using inv_run inv_start by blast

end

end
