(* ===== verification/Clock.thy ===== *)
theory Clock
  imports Prelude
begin

text \<open>
  The code keeps instants as the texts of \<open>datetime.now(timezone.utc).isoformat()\<close> and lets
  SQL, and Python, compare those texts (a lease has expired when its text is smaller than
  that of now). \<open>isoformat\<close> leaves the fraction out when the microseconds are zero, so texts
  differ in length. They still compare as the instants do, which is why the rest of the model
  can keep instants as numbers.
\<close>

record utc_time =
  t_year :: nat
  t_month :: nat
  t_day :: nat
  t_hour :: nat
  t_minute :: nat
  t_second :: nat
  t_micro :: nat

definition valid_time :: "utc_time \<Rightarrow> bool" where
  "valid_time t \<longleftrightarrow> t_year t < 10 ^ 4 \<and> t_month t < 10 ^ 2 \<and> t_day t < 10 ^ 2 \<and>
     t_hour t < 10 ^ 2 \<and> t_minute t < 10 ^ 2 \<and> t_second t < 10 ^ 2 \<and> t_micro t < 10 ^ 6"

text \<open>Chronological order of two instants in the same zone: field by field from the year.\<close>

definition time_key :: "utc_time \<Rightarrow> nat list" where
  "time_key t = [t_year t, t_month t, t_day t, t_hour t, t_minute t, t_second t, t_micro t]"

fun pad :: "nat \<Rightarrow> nat \<Rightarrow> string" where
  "pad 0 n = []"
| "pad (Suc w) n = pad w (n div 10) @ [char_of (48 + n mod 10)]"

definition now_iso :: "utc_time \<Rightarrow> string" where
  "now_iso t =
     pad 4 (t_year t) @ ''-'' @ pad 2 (t_month t) @ ''-'' @ pad 2 (t_day t) @ ''T'' @
     pad 2 (t_hour t) @ '':'' @ pad 2 (t_minute t) @ '':'' @ pad 2 (t_second t) @
     (if t_micro t = 0 then [] else ''.'' @ pad 6 (t_micro t)) @ ''+00:00''"

lemma length_pad [simp]: "length (pad w n) = w"
  by (induction w arbitrary: n) auto

lemma append_less_append:
  fixes u v x y :: "'a :: linorder list"
  assumes "length u = length v"
  shows "u @ x < v @ y \<longleftrightarrow> u < v \<or> (u = v \<and> x < y)"
  using assms by (induction u v rule: list_induct2) auto

lemma digit_less:
  "a < 10 \<Longrightarrow> b < 10 \<Longrightarrow> (char_of (48 + a :: nat) :: char) < char_of (48 + b) \<longleftrightarrow> a < b"
  by (simp add: less_char_def)

lemma digit_eq:
  "a < 10 \<Longrightarrow> b < 10 \<Longrightarrow> (char_of (48 + a :: nat) :: char) = char_of (48 + b) \<longleftrightarrow> a = b"
  using digit_less [of a b] digit_less [of b a] by (metis nat_neq_iff order_less_irrefl)

lemma split10:
  fixes a b c d m n :: nat
  assumes "m = a * 10 + b" "n = c * 10 + d" "b < 10" "d < 10"
  shows "m < n \<longleftrightarrow> a < c \<or> a = c \<and> b < d" and "m = n \<longleftrightarrow> a = c \<and> b = d"
proof -
  consider "a < c" | "a = c" | "c < a" by linarith
  then have "(m < n \<longleftrightarrow> a < c \<or> a = c \<and> b < d) \<and> (m = n \<longleftrightarrow> a = c \<and> b = d)"
  proof cases
    case 1
    with assms have "m < n" by linarith
    with 1 show ?thesis by auto
  next
    case 2
    with assms show ?thesis by auto
  next
    case 3
    with assms have "n < m" by linarith
    with 3 show ?thesis by auto
  qed
  then show "m < n \<longleftrightarrow> a < c \<or> a = c \<and> b < d" and "m = n \<longleftrightarrow> a = c \<and> b = d"
    by blast+
qed

lemmas div_mod_10 =
  split10 [OF div_mult_mod_eq [symmetric] div_mult_mod_eq [symmetric] mod_less_divisor mod_less_divisor]

lemma pad_eq: "m < 10 ^ w \<Longrightarrow> n < 10 ^ w \<Longrightarrow> pad w m = pad w n \<longleftrightarrow> m = n"
proof (induction w arbitrary: m n)
  case 0
  then show ?case by simp
next
  case (Suc w)
  then have "pad w (m div 10) = pad w (n div 10) \<longleftrightarrow> m div 10 = n div 10" by simp
  moreover have "(char_of (48 + m mod 10 :: nat) :: char) = char_of (48 + n mod 10) \<longleftrightarrow>
      m mod 10 = n mod 10" by (rule digit_eq) simp_all
  moreover have "m = n \<longleftrightarrow> m div 10 = n div 10 \<and> m mod 10 = n mod 10"
    by (rule div_mod_10) simp_all
  ultimately show ?case by simp
qed

lemma pad_less: "m < 10 ^ w \<Longrightarrow> n < 10 ^ w \<Longrightarrow> pad w m < pad w n \<longleftrightarrow> m < n"
proof (induction w arbitrary: m n)
  case 0
  then show ?case by simp
next
  case (Suc w)
  then have "pad w (m div 10) < pad w (n div 10) \<longleftrightarrow> m div 10 < n div 10"
    and "pad w (m div 10) = pad w (n div 10) \<longleftrightarrow> m div 10 = n div 10"
    using pad_eq [of "m div 10" w "n div 10"] by simp_all
  moreover have "(char_of (48 + m mod 10 :: nat) :: char) < char_of (48 + n mod 10) \<longleftrightarrow>
      m mod 10 < n mod 10" by (rule digit_less) simp_all
  moreover have "m < n \<longleftrightarrow> m div 10 < n div 10 \<or> m div 10 = n div 10 \<and> m mod 10 < n mod 10"
    by (rule div_mod_10) simp_all
  ultimately show ?case by (simp add: append_less_append)
qed

text \<open>One field followed by more text; the separator is the same on both sides.\<close>

lemma field_less:
  assumes "m < 10 ^ w" "n < 10 ^ w"
  shows "pad w m @ x < pad w n @ y \<longleftrightarrow> m < n \<or> (m = n \<and> x < y)"
  by (simp add: append_less_append pad_less [OF assms] pad_eq [OF assms])

text \<open>The plus sign of the zone comes before the point of the fraction in ASCII.\<close>

lemma micro_less:
  assumes "m < 10 ^ 6" "n < 10 ^ 6"
  shows "(if m = 0 then [] else ''.'' @ pad 6 m) @ ''+00:00'' <
         (if n = 0 then [] else ''.'' @ pad 6 n) @ ''+00:00'' \<longleftrightarrow> m < n"
proof -
  have plus_dot: "CHR ''+'' < CHR ''.''" by (simp add: less_char_def)
  show ?thesis
    using field_less [OF assms, of "''+00:00''" "''+00:00''"] plus_dot
    by (cases "m = 0"; cases "n = 0") (auto simp: order_less_not_sym)
qed

text \<open>The ISO-8601 texts that the code stores compare, as texts, exactly as the instants they
  stand for compare in time, whether or not the fraction of the second is written.\<close>

theorem now_iso_less:
  assumes "valid_time a" "valid_time b"
  shows "now_iso a < now_iso b \<longleftrightarrow> time_key a < time_key b"
proof -
  from assms have
    v: "t_year a < 10 ^ 4" "t_year b < 10 ^ 4" "t_month a < 10 ^ 2" "t_month b < 10 ^ 2"
      "t_day a < 10 ^ 2" "t_day b < 10 ^ 2" "t_hour a < 10 ^ 2" "t_hour b < 10 ^ 2"
      "t_minute a < 10 ^ 2" "t_minute b < 10 ^ 2" "t_second a < 10 ^ 2" "t_second b < 10 ^ 2"
    and u: "t_micro a < 10 ^ 6" "t_micro b < 10 ^ 6"
    by (simp_all add: valid_time_def)
  show ?thesis
    unfolding now_iso_def time_key_def
    by (simp only: field_less [OF v(1,2)] field_less [OF v(3,4)] field_less [OF v(5,6)]
        field_less [OF v(7,8)] field_less [OF v(9,10)] field_less [OF v(11,12)]
        micro_less [OF u, unfolded append_Cons append_Nil] order_less_irrefl append_Cons append_Nil Cons_less_Cons Nil_less_Cons less_list_code
        refl simp_thms)
qed

definition demo_time :: "nat \<Rightarrow> nat \<Rightarrow> utc_time" where
  "demo_time s u = \<lparr>t_year = 2025, t_month = 3, t_day = 1, t_hour = 9, t_minute = 5,
     t_second = s, t_micro = u\<rparr>"

lemma now_iso_less_witness:
  "now_iso (demo_time 7 0) < now_iso (demo_time 7 250) \<and>
   \<not> now_iso (demo_time 8 0) < now_iso (demo_time 7 250)"
proof -
  have v: "valid_time (demo_time 7 0)" "valid_time (demo_time 8 0)" "valid_time (demo_time 7 250)"
    by (simp_all add: valid_time_def demo_time_def)
  have "time_key (demo_time 7 0) < time_key (demo_time 7 250)"
    "\<not> time_key (demo_time 8 0) < time_key (demo_time 7 250)"
    by (simp_all add: time_key_def demo_time_def)
  then show ?thesis using now_iso_less [OF v(1,3)] now_iso_less [OF v(2,3)] by simp
qed

end
