(* ===== verification/Job_Store.thy ===== *)
theory Job_Store
  imports Py_Text
begin

text \<open>
  The controller's job database (\<open>core/persistence/models/orchestration.py\<close>) and the
  operations of \<open>OrchestrationRepo\<close> on it (\<open>core/orchestration/repo.py\<close>).

  A table is the list of its rows in insertion order. Keys that the code draws from
  \<open>uuid4()\<close> are drawn here from \<open>next_id\<close>, so that they are fresh by construction. A
  transaction (\<open>with self.store.tx()\<close>) that raises is rolled back: an operation returns
  \<open>Inl error\<close>, and the caller keeps the database it had. The constraints the schema
  declares (foreign keys, the unique pair of job and attempt number) are checked where the
  row is written, and their violation is \<open>IntegrityError\<close>.

  Instants are microseconds since the epoch, in \<open>int\<close>. The code stores and compares their
  ISO-8601 texts; \<^theory_text>\<open>Clock\<close> shows that these texts compare as the instants do. Every
  operation takes the instant \<open>now\<close> at which it runs; nothing is assumed of the clock.
\<close>

section \<open>Rows\<close>

datatype job_status =
  Queued | Assigned | Running | CancelRequested | Completed | Failed | TimedOut | Canceled

datatype attempt_status = AAssigned | ARunning | ACompleted | AFailed | AExpired

type_synonym instant = int

record job =
  j_id :: nat
  j_type :: string
  j_payload :: pydict
  j_requested_by :: "string option"
  j_priority :: int
  j_status :: job_status
  j_target :: string
  j_created :: instant
  j_updated :: instant
  j_completed :: "instant option"
  j_result :: "pydict option"
  j_error_code :: "string option"
  j_error_detail :: "string option"

record attempt =
  a_id :: nat
  a_job :: nat
  a_number :: nat
  a_node :: string
  a_lease :: instant
  a_started :: instant
  a_ended :: "instant option"
  a_status :: attempt_status
  a_reason :: "string option"

record node_lease =
  n_name :: string
  n_heartbeat :: instant
  n_capacity :: "pydict option"
  n_labels :: "pydict option"
  n_status :: string
  n_updated :: instant

record job_event =
  e_id :: nat
  e_job :: nat
  e_attempt :: "nat option"
  e_type :: string
  e_json :: pydict
  e_created :: instant

record artifact =
  r_id :: nat
  r_job :: nat
  r_attempt :: "nat option"
  r_kind :: string
  r_uri :: string
  r_meta :: "pydict option"
  r_created :: instant

record leader_lease =
  l_name :: string
  l_holder :: string
  l_expires :: instant
  l_updated :: instant

record orch_db =
  jobs :: "job list"
  attempts :: "attempt list"
  node_leases :: "node_lease list"
  events :: "job_event list"
  artifacts :: "artifact list"
  leader_leases :: "leader_lease list"
  next_id :: nat

definition empty_db :: orch_db where
  "empty_db = \<lparr>jobs = [], attempts = [], node_leases = [], events = [], artifacts = [],
     leader_leases = [], next_id = 0\<rparr>"

datatype orch_error =
    UnknownJob nat
  | UnknownAttempt nat
  | AttemptOwnerMismatch
  | JobCancellationRequested
  | IntegrityError

section \<open>Lookups\<close>

definition find_job :: "orch_db \<Rightarrow> nat \<Rightarrow> job option" where
  "find_job db jid = List.find (\<lambda>j. j_id j = jid) (jobs db)"

definition find_attempt :: "orch_db \<Rightarrow> nat \<Rightarrow> attempt option" where
  "find_attempt db aid = List.find (\<lambda>a. a_id a = aid) (attempts db)"

definition attempts_of :: "orch_db \<Rightarrow> nat \<Rightarrow> attempt list" where
  "attempts_of db jid = filter (\<lambda>a. a_job a = jid) (attempts db)"

definition count_attempts :: "orch_db \<Rightarrow> nat \<Rightarrow> nat" where
  "count_attempts db jid = length (attempts_of db jid)"

text \<open>\<open>LIMIT n\<close> of SQLite: a negative limit is none.\<close>

definition sql_limit :: "int \<Rightarrow> 'a list \<Rightarrow> 'a list" where
  "sql_limit n xs = (if n < 0 then xs else take (nat n) xs)"

definition list_artifacts :: "orch_db \<Rightarrow> nat \<Rightarrow> artifact list" where
  "list_artifacts db jid = sort_key r_created (filter (\<lambda>r. r_job r = jid) (artifacts db))"

record job_view =
  v_job :: job
  v_cancellation_requested :: bool
  v_artifacts :: "artifact list"

definition job_row_to_dict :: "job \<Rightarrow> job_view" where
  "job_row_to_dict j =
     \<lparr>v_job = j, v_cancellation_requested = (j_status j = CancelRequested), v_artifacts = []\<rparr>"

definition get_job :: "orch_db \<Rightarrow> nat \<Rightarrow> orch_error + job_view" where
  "get_job db jid =
     (case find_job db jid of
        None \<Rightarrow> Inl (UnknownJob jid)
      | Some j \<Rightarrow> Inr ((job_row_to_dict j)\<lparr>v_artifacts := list_artifacts db jid\<rparr>))"

definition list_jobs :: "orch_db \<Rightarrow> job_status option \<Rightarrow> int \<Rightarrow> job_view list" where
  "list_jobs db st limit =
     map job_row_to_dict (sql_limit limit (sort_key (\<lambda>j. - j_created j)
       (case st of None \<Rightarrow> jobs db | Some s \<Rightarrow> filter (\<lambda>j. j_status j = s) (jobs db))))"

definition list_job_events :: "orch_db \<Rightarrow> nat \<Rightarrow> int \<Rightarrow> job_event list" where
  "list_job_events db jid limit =
     sql_limit limit (sort_key e_created (filter (\<lambda>e. e_job e = jid) (events db)))"

section \<open>Writes\<close>

definition has_job :: "orch_db \<Rightarrow> nat \<Rightarrow> bool" where
  "has_job db jid \<longleftrightarrow> jid \<in> j_id ` set (jobs db)"

definition has_attempt :: "orch_db \<Rightarrow> nat \<Rightarrow> bool" where
  "has_attempt db aid \<longleftrightarrow> aid \<in> a_id ` set (attempts db)"

definition attempt_ref_ok :: "orch_db \<Rightarrow> nat option \<Rightarrow> bool" where
  "attempt_ref_ok db r = (case r of None \<Rightarrow> True | Some aid \<Rightarrow> has_attempt db aid)"

definition insert_event ::
  "instant \<Rightarrow> nat \<Rightarrow> nat option \<Rightarrow> string \<Rightarrow> pydict \<Rightarrow> orch_db \<Rightarrow> orch_error + orch_db" where
  "insert_event now jid aid ty payload db =
     (if has_job db jid \<and> attempt_ref_ok db aid
      then Inr (db\<lparr>events := events db @ [\<lparr>e_id = next_id db, e_job = jid, e_attempt = aid,
             e_type = ty, e_json = payload, e_created = now\<rparr>], next_id := Suc (next_id db)\<rparr>)
      else Inl IntegrityError)"

definition insert_artifact ::
  "instant \<Rightarrow> nat \<Rightarrow> nat option \<Rightarrow> string \<Rightarrow> string \<Rightarrow> pydict option \<Rightarrow> orch_db
     \<Rightarrow> orch_error + orch_db" where
  "insert_artifact now jid aid kind uri meta db =
     (if has_job db jid \<and> attempt_ref_ok db aid
      then Inr (db\<lparr>artifacts := artifacts db @ [\<lparr>r_id = next_id db, r_job = jid, r_attempt = aid,
             r_kind = kind, r_uri = uri,
             r_meta = (case meta of None \<Rightarrow> None | Some m \<Rightarrow> if m = [] then None else Some m),
             r_created = now\<rparr>], next_id := Suc (next_id db)\<rparr>)
      else Inl IntegrityError)"

definition set_attempt_status ::
  "nat \<Rightarrow> attempt_status \<Rightarrow> instant option \<Rightarrow> instant option \<Rightarrow> string option \<Rightarrow> orch_db
     \<Rightarrow> orch_error + orch_db" where
  "set_attempt_status aid st lease ended reason db =
     (if has_attempt db aid
      then Inr (db\<lparr>attempts := map_if (\<lambda>a. a_id a = aid)
             (\<lambda>a. a\<lparr>a_status := st,
                    a_lease := (case lease of None \<Rightarrow> a_lease a | Some l \<Rightarrow> l),
                    a_ended := (case ended of None \<Rightarrow> a_ended a | Some t \<Rightarrow> Some t),
                    a_reason := (case reason of None \<Rightarrow> a_reason a | Some r \<Rightarrow> Some r)\<rparr>)
             (attempts db)\<rparr>)
      else Inl (UnknownAttempt aid))"

definition set_job_status ::
  "nat \<Rightarrow> job_status \<Rightarrow> instant \<Rightarrow> instant option \<Rightarrow> pydict option \<Rightarrow> string option
     \<Rightarrow> string option \<Rightarrow> orch_db \<Rightarrow> orch_error + orch_db" where
  "set_job_status jid st now completed result code detail db =
     (if has_job db jid
      then Inr (db\<lparr>jobs := map_if (\<lambda>j. j_id j = jid)
             (\<lambda>j. j\<lparr>j_status := st, j_updated := now,
                    j_completed := (case completed of None \<Rightarrow> j_completed j | Some t \<Rightarrow> Some t),
                    j_result := (case result of None \<Rightarrow> j_result j | Some r \<Rightarrow> Some r),
                    j_error_code := code, j_error_detail := detail\<rparr>)
             (jobs db)\<rparr>)
      else Inl (UnknownJob jid))"

definition get_owned_attempt :: "orch_db \<Rightarrow> nat \<Rightarrow> string \<Rightarrow> orch_error + attempt" where
  "get_owned_attempt db aid node =
     (case find_attempt db aid of
        None \<Rightarrow> Inl (UnknownAttempt aid)
      | Some a \<Rightarrow> if a_node a \<noteq> node then Inl AttemptOwnerMismatch else Inr a)"

section \<open>Creating and cancelling jobs\<close>

definition create_job ::
  "instant \<Rightarrow> string \<Rightarrow> pydict \<Rightarrow> int \<Rightarrow> string \<Rightarrow> string option \<Rightarrow> orch_db
     \<Rightarrow> orch_error + (job_view \<times> orch_db)" where
  "create_job now ty payload prio target requested_by db =
     (let jid = next_id db;
          j = \<lparr>j_id = jid, j_type = ty, j_payload = payload, j_requested_by = requested_by,
               j_priority = prio, j_status = Queued, j_target = target, j_created = now,
               j_updated = now, j_completed = None, j_result = None, j_error_code = None,
               j_error_detail = None\<rparr>
      in bindE (insert_event now jid None ''job_created'' [(''type'', PStr ty)]
                 (db\<lparr>jobs := jobs db @ [j], next_id := Suc jid\<rparr>))
           (\<lambda>db'. bindE (get_job db' jid) (\<lambda>v. Inr (v, db'))))"

text \<open>A cancel request on a job that is queued ends it; on a job that a node has claimed it is
  recorded for the node to see; on a finished job it changes nothing.\<close>

definition cancel_job :: "instant \<Rightarrow> nat \<Rightarrow> orch_db \<Rightarrow> orch_error + (job_view \<times> orch_db)" where
  "cancel_job now jid db =
     (case find_job db jid of
        None \<Rightarrow> Inl (UnknownJob jid)
      | Some j \<Rightarrow>
          if j_status j \<notin> {Queued, Assigned, Running, CancelRequested}
          then bindE (get_job db jid) (\<lambda>v. Inr (v, db))
          else bindE
            (if j_status j = Queued
             then insert_event now jid None ''job_canceled'' []
                    (db\<lparr>jobs := map_if (\<lambda>j. j_id j = jid)
                       (\<lambda>j. j\<lparr>j_status := Canceled, j_updated := now, j_completed := Some now\<rparr>)
                       (jobs db)\<rparr>)
             else insert_event now jid None ''cancel_requested'' []
                    (db\<lparr>jobs := map_if (\<lambda>j. j_id j = jid)
                       (\<lambda>j. j\<lparr>j_status := CancelRequested, j_updated := now\<rparr>) (jobs db)\<rparr>))
            (\<lambda>db'. bindE (get_job db' jid) (\<lambda>v. Inr (v, db'))))"

section \<open>Matching a job to a node\<close>

definition label_ok :: "pydict \<Rightarrow> string \<times> pyval \<Rightarrow> bool" where
  "label_ok node_labels = (\<lambda>(key, expected). py_eq (dget node_labels key) expected)"

text \<open>A required number is a lower bound; any other required value must be equal.\<close>

definition capacity_ok :: "pydict \<Rightarrow> string \<times> pyval \<Rightarrow> bool" where
  "capacity_ok node_capacity = (\<lambda>(key, min_value).
     let node_value = dget node_capacity key in
     case num_of min_value of
       None \<Rightarrow> py_eq node_value min_value
     | Some m \<Rightarrow> (case num_of node_value of None \<Rightarrow> False | Some v \<Rightarrow> \<not> v < m))"

definition target_ok :: "string \<Rightarrow> string \<Rightarrow> bool" where
  "target_ok target_selector node =
     (let target = (if target_selector = [] then ''auto'' else target_selector) in
      starts_with ''node:'' target \<longrightarrow>
        (let target_node = strip (drop 5 target) in target_node = [] \<or> target_node = node))"

definition requirements_ok :: "pyval \<Rightarrow> pydict \<Rightarrow> pydict \<Rightarrow> bool" where
  "requirements_ok requirements capacity labels =
     (case requirements of
        PDict reqs \<Rightarrow>
          (case dget_or reqs ''labels'' (PDict []) of
             PDict required \<Rightarrow> list_all (label_ok labels) required | _ \<Rightarrow> True) \<and>
          (case dget_or reqs ''capacity'' (PDict []) of
             PDict required \<Rightarrow> list_all (capacity_ok capacity) required | _ \<Rightarrow> True)
      | _ \<Rightarrow> True)"

definition job_matches_node :: "job \<Rightarrow> string \<Rightarrow> pydict option \<Rightarrow> pydict option \<Rightarrow> bool" where
  "job_matches_node j node capacity labels =
     (target_ok (j_target j) node \<and>
      requirements_ok (dget (j_payload j) ''requirements'')
        (case capacity of None \<Rightarrow> [] | Some c \<Rightarrow> c) (case labels of None \<Rightarrow> [] | Some l \<Rightarrow> l))"

end
