(* ===== verification/Job_Lifecycle.thy ===== *)
theory Job_Lifecycle
  imports Job_Store
begin

text \<open>
  \<open>OrchestrationLifecycle\<close> (\<open>core/orchestration/lifecycle.py\<close>): nodes claim queued jobs,
  report progress on the attempts they own, complete or fail them, and the sweeper expires
  attempts whose lease has run out. Every function is one transaction of the code, with its
  guards and its writes in the code's order.
\<close>

section \<open>Claiming\<close>

record claim =
  c_job :: job_view
  c_attempt :: nat
  c_lease_expires :: instant

definition opt_dict :: "pydict option \<Rightarrow> pydict option" where
  "opt_dict d = (case d of None \<Rightarrow> None | Some m \<Rightarrow> if m = [] then None else Some m)"

definition dict_or_empty :: "pydict option \<Rightarrow> pydict" where
  "dict_or_empty d = (case d of None \<Rightarrow> [] | Some m \<Rightarrow> m)"

definition touch_node_lease ::
  "instant \<Rightarrow> string \<Rightarrow> pydict option \<Rightarrow> pydict option \<Rightarrow> orch_db \<Rightarrow> orch_db" where
  "touch_node_lease now node capacity labels db =
     (if node \<in> n_name ` set (node_leases db)
      then db\<lparr>node_leases := map_if (\<lambda>l. n_name l = node)
             (\<lambda>l. l\<lparr>n_heartbeat := now, n_capacity := opt_dict capacity,
                    n_labels := opt_dict labels, n_status := ''online'', n_updated := now\<rparr>)
             (node_leases db)\<rparr>
      else db\<lparr>node_leases := node_leases db @ [\<lparr>n_name = node, n_heartbeat = now,
             n_capacity = opt_dict capacity, n_labels = opt_dict labels,
             n_status = ''online'', n_updated = now\<rparr>]\<rparr>)"

text \<open>The queued jobs, highest priority first, oldest first among equals.\<close>

definition claim_order :: "job list \<Rightarrow> job list" where
  "claim_order js = sort_key (\<lambda>j. - j_priority j) (sort_key j_created js)"

definition queued_rows :: "orch_db \<Rightarrow> job list" where
  "queued_rows db = claim_order (filter (\<lambda>j. j_status j = Queued) (jobs db))"

text \<open>The row the loop writes for one job: a new attempt, numbered after the attempts the job
  already has. \<open>session.flush()\<close> checks the unique pair of job and attempt number.\<close>

definition insert_attempt ::
  "instant \<Rightarrow> instant \<Rightarrow> string \<Rightarrow> nat \<Rightarrow> orch_db \<Rightarrow> orch_error + (nat \<times> orch_db)" where
  "insert_attempt now lease_exp node jid db =
     (let aid = next_id db; number = count_attempts db jid + 1 in
      if has_job db jid \<and> number \<notin> a_number ` set (attempts_of db jid)
      then Inr (aid, db\<lparr>attempts := attempts db @ [\<lparr>a_id = aid, a_job = jid, a_number = number,
             a_node = node, a_lease = lease_exp, a_started = now, a_ended = None,
             a_status = AAssigned, a_reason = None\<rparr>], next_id := Suc aid\<rparr>)
      else Inl IntegrityError)"

definition claim_one ::
  "instant \<Rightarrow> instant \<Rightarrow> string \<Rightarrow> pydict option \<Rightarrow> pydict option \<Rightarrow> job \<Rightarrow> orch_db
     \<Rightarrow> orch_error + (claim \<times> orch_db)" where
  "claim_one now lease_exp node capacity labels row db =
     bindE (insert_attempt now lease_exp node (j_id row) db) (\<lambda>(aid, db1).
     bindE (set_job_status (j_id row) Assigned now None None None None db1) (\<lambda>db2.
     bindE (insert_event now (j_id row) (Some aid) ''job_assigned''
              [(''node'', PStr node), (''labels'', PDict (dict_or_empty labels)),
               (''capacity'', PDict (dict_or_empty capacity))] db2) (\<lambda>db3.
     Inr (\<lparr>c_job = (job_row_to_dict (row\<lparr>j_status := Assigned, j_updated := now,
                        j_error_code := None, j_error_detail := None\<rparr>)),
           c_attempt = aid, c_lease_expires = lease_exp\<rparr>, db3))))"

fun claim_loop ::
  "instant \<Rightarrow> instant \<Rightarrow> string \<Rightarrow> int \<Rightarrow> pydict option \<Rightarrow> pydict option \<Rightarrow> job list
     \<Rightarrow> claim list \<Rightarrow> orch_db \<Rightarrow> orch_error + (claim list \<times> orch_db)" where
  "claim_loop now lease_exp node max_jobs capacity labels [] claimed db = Inr (claimed, db)"
| "claim_loop now lease_exp node max_jobs capacity labels (row # rows) claimed db =
     (if int (length claimed) \<ge> max_jobs then Inr (claimed, db)
      else if \<not> job_matches_node row node capacity labels
      then claim_loop now lease_exp node max_jobs capacity labels rows claimed db
      else bindE (claim_one now lease_exp node capacity labels row db) (\<lambda>(c, db').
             claim_loop now lease_exp node max_jobs capacity labels rows (claimed @ [c]) db'))"

definition seconds :: "int \<Rightarrow> int" where
  "seconds s = s * 1000000"

definition claim_jobs ::
  "instant \<Rightarrow> string \<Rightarrow> int \<Rightarrow> int \<Rightarrow> pydict option \<Rightarrow> pydict option \<Rightarrow> orch_db
     \<Rightarrow> orch_error + (claim list \<times> orch_db)" where
  "claim_jobs now node max_jobs lease_seconds capacity labels db =
     (let db1 = touch_node_lease now node capacity labels db in
      claim_loop now (now + seconds lease_seconds) node max_jobs capacity labels
        (queued_rows db1) [] db1)"

section \<open>The attempts a node works on\<close>

definition job_cancel_requested :: "orch_db \<Rightarrow> nat \<Rightarrow> bool" where
  "job_cancel_requested db jid =
     (case find_job db jid of None \<Rightarrow> False | Some j \<Rightarrow> j_status j = CancelRequested)"

definition attempt_progress ::
  "instant \<Rightarrow> string \<Rightarrow> nat \<Rightarrow> pydict \<Rightarrow> int \<Rightarrow> orch_db \<Rightarrow> orch_error + orch_db" where
  "attempt_progress now node aid progress lease_seconds db =
     bindE (get_owned_attempt db aid node) (\<lambda>row.
     if job_cancel_requested db (a_job row) then Inl JobCancellationRequested
     else bindE (set_attempt_status aid ARunning (Some (now + seconds lease_seconds)) None None db)
            (\<lambda>db1. bindE (set_job_status (a_job row) Running now None None None None db1)
            (\<lambda>db2. insert_event now (a_job row) (Some aid) ''progress'' progress db2)))"

text \<open>\<open>str(artifact.get("kind", "unknown"))\<close>, \<open>str(artifact.get("uri", ""))\<close>, and the \<open>meta\<close>
  of an artifact when it is an object.\<close>

definition complete_artifact ::
  "instant \<Rightarrow> nat \<Rightarrow> nat \<Rightarrow> pydict \<Rightarrow> orch_db \<Rightarrow> orch_error + orch_db" where
  "complete_artifact now jid aid a db =
     insert_artifact now jid (Some aid) (py_str (dget_or a ''kind'' (PStr ''unknown'')))
       (py_str (dget_or a ''uri'' (PStr [])))
       (case dget a ''meta'' of PDict m \<Rightarrow> Some m | _ \<Rightarrow> None) db"

definition complete_attempt ::
  "instant \<Rightarrow> string \<Rightarrow> nat \<Rightarrow> pydict \<Rightarrow> pydict list \<Rightarrow> orch_db
     \<Rightarrow> orch_error + (job_view \<times> orch_db)" where
  "complete_attempt now node aid result arts db =
     bindE (get_owned_attempt db aid node) (\<lambda>row.
     let jid = a_job row in
     bindE
       (if job_cancel_requested db jid
        then bindE (set_attempt_status aid AFailed None (Some now) (Some ''CANCELED'') db) (\<lambda>db1.
             bindE (set_job_status jid Canceled now (Some now) None (Some ''CANCELED'')
                      (Some ''Job canceled'') db1) (\<lambda>db2.
             insert_event now jid (Some aid) ''job_canceled'' [(''node'', PStr node)] db2))
        else bindE (set_attempt_status aid ACompleted None (Some now) None db) (\<lambda>db1.
             bindE (set_job_status jid Completed now (Some now) (Some result) None None db1) (\<lambda>db2.
             bindE (foldE (complete_artifact now jid aid) arts db2) (\<lambda>db3.
             bindE (insert_event now jid (Some aid) ''attempt_completed'' result db3) (\<lambda>db4.
             insert_event now jid (Some aid) ''job_completed'' [] db4)))))
       (\<lambda>db'. bindE (get_job db' jid) (\<lambda>v. Inr (v, db'))))"

definition opt_str :: "string option \<Rightarrow> pyval" where
  "opt_str s = (case s of None \<Rightarrow> PNone | Some t \<Rightarrow> PStr t)"

text \<open>\<open>error_detail or error_code\<close>: an empty detail is falsy.\<close>

definition detail_or_code :: "string option \<Rightarrow> string \<Rightarrow> string" where
  "detail_or_code detail code =
     (case detail of None \<Rightarrow> code | Some d \<Rightarrow> if d = [] then code else d)"

definition fail_attempt ::
  "instant \<Rightarrow> string \<Rightarrow> nat \<Rightarrow> string \<Rightarrow> string option \<Rightarrow> bool \<Rightarrow> int \<Rightarrow> orch_db
     \<Rightarrow> orch_error + (job_view \<times> orch_db)" where
  "fail_attempt now node aid code detail retryable max_attempts db =
     bindE (get_owned_attempt db aid node) (\<lambda>row.
     let jid = a_job row in
     bindE (set_attempt_status aid AFailed None (Some now) (Some (detail_or_code detail code)) db)
     (\<lambda>db1. let attempts_n = int (count_attempts db1 jid) in
     bindE (insert_event now jid (Some aid) ''attempt_failed''
              [(''error_code'', PStr code), (''error_detail'', opt_str detail)] db1) (\<lambda>db2.
     bindE
       (if job_cancel_requested db2 jid
        then bindE (set_job_status jid Canceled now (Some now) None (Some code) detail db2) (\<lambda>db3.
             insert_event now jid (Some aid) ''job_canceled'' [(''error_code'', PStr code)] db3)
        else if retryable \<and> attempts_n < max_attempts
        then bindE (set_job_status jid Queued now None None None None db2) (\<lambda>db3.
             insert_event now jid (Some aid) ''retry_scheduled''
               [(''next_attempt'', PInt (attempts_n + 1))] db3)
        else bindE (set_job_status jid Failed now (Some now) None (Some code) detail db2) (\<lambda>db3.
             insert_event now jid (Some aid) ''job_failed'' [(''error_code'', PStr code)] db3))
     (\<lambda>db'. bindE (get_job db' jid) (\<lambda>v. Inr (v, db'))))))"

section \<open>The sweeper\<close>

record sweep_stats =
  s_expired :: nat
  s_requeued :: nat
  s_timed_out :: nat

definition sweep_one ::
  "instant \<Rightarrow> int \<Rightarrow> attempt \<Rightarrow> sweep_stats \<times> orch_db
     \<Rightarrow> orch_error + (sweep_stats \<times> orch_db)" where
  "sweep_one now max_attempts att = (\<lambda>(st, db).
     let jid = a_job att; aid = a_id att in
     bindE (set_attempt_status aid AExpired None (Some now) None db) (\<lambda>db1.
     bindE (insert_event now jid (Some aid) ''lease_expired'' [(''node'', PStr (a_node att))] db1)
     (\<lambda>db2. let attempts_n = int (count_attempts db2 jid) in
     if attempts_n < max_attempts
     then bindE (set_job_status jid Queued now None None None None db2) (\<lambda>db3.
          bindE (insert_event now jid (Some aid) ''retry_scheduled''
                   [(''reason'', PStr ''lease_expired''), (''next_attempt'', PInt (attempts_n + 1))] db3)
          (\<lambda>db4. Inr (st\<lparr>s_expired := Suc (s_expired st), s_requeued := Suc (s_requeued st)\<rparr>, db4)))
     else bindE (set_job_status jid TimedOut now (Some now) None (Some ''LEASE_EXPIRED'')
                   (Some ''Lease expired and max attempts reached'') db2) (\<lambda>db3.
          bindE (insert_event now jid (Some aid) ''job_failed''
                   [(''error_code'', PStr ''LEASE_EXPIRED'')] db3)
          (\<lambda>db4. Inr (st\<lparr>s_expired := Suc (s_expired st), s_timed_out := Suc (s_timed_out st)\<rparr>, db4))))))"

definition expired_rows :: "instant \<Rightarrow> orch_db \<Rightarrow> attempt list" where
  "expired_rows now db =
     filter (\<lambda>a. a_status a \<in> {AAssigned, ARunning} \<and> a_lease a < now) (attempts db)"

definition sweep_expired_attempts ::
  "instant \<Rightarrow> int \<Rightarrow> orch_db \<Rightarrow> orch_error + (sweep_stats \<times> orch_db)" where
  "sweep_expired_attempts now max_attempts db =
     foldE (sweep_one now max_attempts) (expired_rows now db)
       (\<lparr>s_expired = 0, s_requeued = 0, s_timed_out = 0\<rparr>, db)"

end
