(* ===== verification/Job_Orchestrator.thy ===== *)
theory Job_Orchestrator
  imports Job_Lifecycle
begin

text \<open>
  \<open>OrchestrationRetentionQueries\<close> (\<open>core/orchestration/retention.py\<close>), \<open>Orchestrator\<close>
  (\<open>core/orchestration/orchestrator.py\<close>), the tick of the controller's sweeper loop in
  \<open>main.py\<close>, and the event stream of a job (\<open>core/orchestration/event_stream.py\<close>).
\<close>

section \<open>Retention\<close>

definition terminal_statuses :: "job_status list" where
  "terminal_statuses = [Completed, Failed, Canceled, TimedOut]"

definition days :: "int \<Rightarrow> int" where
  "days d = d * 86400000000"

definition prunable :: "instant \<Rightarrow> job \<Rightarrow> bool" where
  "prunable cutoff j =
     (j_status j \<in> set terminal_statuses \<and>
      (case j_completed j of None \<Rightarrow> False | Some t \<Rightarrow> t < cutoff))"

record prune_stats =
  p_jobs :: nat
  p_attempts :: nat
  p_events :: nat

text \<open>The deletes of one chunk. SQLite refuses a delete that leaves a dangling reference.\<close>

definition delete_events_of_attempts :: "nat list \<Rightarrow> orch_db \<Rightarrow> nat \<times> orch_db" where
  "delete_events_of_attempts chunk db =
     (let aids = map a_id (filter (\<lambda>a. a_job a \<in> set chunk) (attempts db));
          hit = (\<lambda>e. case e_attempt e of None \<Rightarrow> False | Some aid \<Rightarrow> aid \<in> set aids)
      in (length (filter hit (events db)),
          db\<lparr>events := filter (\<lambda>e. \<not> hit e) (events db)\<rparr>))"

definition delete_events_of_jobs :: "nat list \<Rightarrow> orch_db \<Rightarrow> nat \<times> orch_db" where
  "delete_events_of_jobs chunk db =
     (length (filter (\<lambda>e. e_job e \<in> set chunk) (events db)),
      db\<lparr>events := filter (\<lambda>e. e_job e \<notin> set chunk) (events db)\<rparr>)"

definition delete_artifacts_of_jobs :: "nat list \<Rightarrow> orch_db \<Rightarrow> orch_db" where
  "delete_artifacts_of_jobs chunk db =
     db\<lparr>artifacts := filter (\<lambda>r. r_job r \<notin> set chunk) (artifacts db)\<rparr>"

definition delete_attempts_of_jobs :: "nat list \<Rightarrow> orch_db \<Rightarrow> orch_error + (nat \<times> orch_db)" where
  "delete_attempts_of_jobs chunk db =
     (let gone = filter (\<lambda>a. a_job a \<in> set chunk) (attempts db);
          refs = (\<lambda>r. case r of None \<Rightarrow> False | Some aid \<Rightarrow> aid \<in> a_id ` set gone)
      in if list_ex (\<lambda>e. refs (e_attempt e)) (events db) \<or>
            list_ex (\<lambda>r. refs (r_attempt r)) (artifacts db)
         then Inl IntegrityError
         else Inr (length gone,
                   db\<lparr>attempts := filter (\<lambda>a. a_job a \<notin> set chunk) (attempts db)\<rparr>))"

definition delete_jobs :: "nat list \<Rightarrow> orch_db \<Rightarrow> orch_error + (nat \<times> orch_db)" where
  "delete_jobs chunk db =
     (if list_ex (\<lambda>a. a_job a \<in> set chunk) (attempts db) \<or>
         list_ex (\<lambda>e. e_job e \<in> set chunk) (events db) \<or>
         list_ex (\<lambda>r. r_job r \<in> set chunk) (artifacts db)
      then Inl IntegrityError
      else Inr (length (filter (\<lambda>j. j_id j \<in> set chunk) (jobs db)),
                db\<lparr>jobs := filter (\<lambda>j. j_id j \<notin> set chunk) (jobs db)\<rparr>))"

definition prune_chunk ::
  "nat list \<Rightarrow> prune_stats \<times> orch_db \<Rightarrow> orch_error + (prune_stats \<times> orch_db)" where
  "prune_chunk chunk = (\<lambda>(st, db).
     let (n1, db1) = delete_events_of_attempts chunk db;
         (n2, db2) = delete_events_of_jobs chunk db1;
         db3 = delete_artifacts_of_jobs chunk db2
     in bindE (delete_attempts_of_jobs chunk db3) (\<lambda>(na, db4).
        bindE (delete_jobs chunk db4) (\<lambda>(nj, db5).
        Inr (\<lparr>p_jobs = p_jobs st + nj, p_attempts = p_attempts st + na,
              p_events = p_events st + n1 + n2\<rparr>, db5))))"

definition prune_history ::
  "instant \<Rightarrow> int \<Rightarrow> orch_db \<Rightarrow> orch_error + (prune_stats \<times> orch_db)" where
  "prune_history now retention_days db =
     (let cutoff = now - days retention_days;
          job_ids = map j_id (filter (prunable cutoff) (jobs db))
      in foldE prune_chunk (chunks_of 500 job_ids)
           (\<lparr>p_jobs = 0, p_attempts = 0, p_events = 0\<rparr>, db))"

definition list_terminal_jobs_before :: "orch_db \<Rightarrow> instant \<Rightarrow> int \<Rightarrow> job_view list" where
  "list_terminal_jobs_before db cutoff limit =
     map (\<lambda>j. (job_row_to_dict j)\<lparr>v_artifacts := list_artifacts db (j_id j)\<rparr>)
       (sql_limit limit (sort_key (\<lambda>j. case j_completed j of None \<Rightarrow> 0 | Some t \<Rightarrow> t)
          (filter (prunable cutoff) (jobs db))))"

definition job_counts_by_status :: "orch_db \<Rightarrow> job_status \<Rightarrow> nat" where
  "job_counts_by_status db st = length (filter (\<lambda>j. j_status j = st) (jobs db))"

section \<open>The orchestrator\<close>

record orchestrator =
  o_lease_timeout_seconds :: int
  o_max_attempts :: int
  o_retention_days :: int
  o_archive_retention_days :: int
  o_controller_instance_id :: string
  o_leader_lease_seconds :: int

definition orch_claim_jobs ::
  "orchestrator \<Rightarrow> instant \<Rightarrow> string \<Rightarrow> int \<Rightarrow> pydict option \<Rightarrow> pydict option \<Rightarrow> orch_db
     \<Rightarrow> orch_error + (claim list \<times> orch_db)" where
  "orch_claim_jobs cfg now node max_jobs capacity labels db =
     claim_jobs now node max_jobs (o_lease_timeout_seconds cfg) capacity labels db"

definition orch_progress ::
  "orchestrator \<Rightarrow> instant \<Rightarrow> string \<Rightarrow> nat \<Rightarrow> pydict \<Rightarrow> orch_db \<Rightarrow> orch_error + orch_db" where
  "orch_progress cfg now node aid progress db =
     attempt_progress now node aid progress (o_lease_timeout_seconds cfg) db"

definition orch_fail ::
  "orchestrator \<Rightarrow> instant \<Rightarrow> string \<Rightarrow> nat \<Rightarrow> string \<Rightarrow> string option \<Rightarrow> bool \<Rightarrow> orch_db
     \<Rightarrow> orch_error + (job_view \<times> orch_db)" where
  "orch_fail cfg now node aid code detail retryable db =
     fail_attempt now node aid code detail retryable (o_max_attempts cfg) db"

text \<open>Two transactions: the sweep is committed before the pruning runs, and stays committed when
  the pruning raises.\<close>

definition sweep_expired_leases ::
  "orchestrator \<Rightarrow> instant \<Rightarrow> orch_db \<Rightarrow> (orch_error + (sweep_stats \<times> prune_stats)) \<times> orch_db"
where
  "sweep_expired_leases cfg now db =
     (case sweep_expired_attempts now (o_max_attempts cfg) db of
        Inl e \<Rightarrow> (Inl e, db)
      | Inr (sw, db1) \<Rightarrow>
          (case prune_history now (o_retention_days cfg) db1 of
             Inl e \<Rightarrow> (Inl e, db1)
           | Inr (pr, db2) \<Rightarrow> (Inr (sw, pr), db2)))"

text \<open>What \<open>archive_snapshot\<close> writes, one record a line: the job and its events.\<close>

definition archive_records ::
  "orchestrator \<Rightarrow> instant \<Rightarrow> int option \<Rightarrow> int \<Rightarrow> orch_db \<Rightarrow> (job_view \<times> job_event list) list"
where
  "archive_records cfg now retention_days limit db =
     (let d = (case retention_days of None \<Rightarrow> o_archive_retention_days cfg | Some n \<Rightarrow> n) in
      map (\<lambda>v. (v, list_job_events db (j_id (v_job v)) 5000))
        (list_terminal_jobs_before db (now - days d) limit))"

definition try_acquire_leader_lease ::
  "orchestrator \<Rightarrow> instant \<Rightarrow> string \<Rightarrow> orch_db \<Rightarrow> bool \<times> orch_db" where
  "try_acquire_leader_lease cfg now lease_name db =
     (let ex = now + seconds (o_leader_lease_seconds cfg); me = o_controller_instance_id cfg in
      case List.find (\<lambda>l. l_name l = lease_name) (leader_leases db) of
        None \<Rightarrow> (True, db\<lparr>leader_leases := leader_leases db @
                 [\<lparr>l_name = lease_name, l_holder = me, l_expires = ex, l_updated = now\<rparr>]\<rparr>)
      | Some row \<Rightarrow>
          if l_holder row = me \<or> l_expires row < now
          then (True, db\<lparr>leader_leases := map_if (\<lambda>l. l_name l = lease_name)
                 (\<lambda>l. l\<lparr>l_holder := me, l_expires := ex, l_updated := now\<rparr>) (leader_leases db)\<rparr>)
          else (False, db))"

text \<open>One turn of the loop in \<open>main.py\<close>: only the holder of the lease sweeps.\<close>

definition sweeper_tick :: "orchestrator \<Rightarrow> instant \<Rightarrow> instant \<Rightarrow> orch_db \<Rightarrow> orch_db" where
  "sweeper_tick cfg now now' db =
     (let (leader, db1) = try_acquire_leader_lease cfg now ''controller_sweeper'' db in
      if leader then snd (sweep_expired_leases cfg now' db1) else db1)"

section \<open>Streaming the events of a job\<close>

text \<open>
  A turn of the generator reads the events from one snapshot of the database and then the job
  from another, later one: other transactions may commit in between. It yields the events it
  has not seen, and ends when the job it read is terminal.
\<close>

fun unseen :: "nat set \<Rightarrow> job_event list \<Rightarrow> job_event list \<times> nat set" where
  "unseen seen [] = ([], seen)"
| "unseen seen (e # es) =
     (if e_id e \<in> seen then unseen seen es
      else (let (out, seen') = unseen (insert (e_id e) seen) es in (e # out, seen')))"

fun stream_job_events ::
  "nat \<Rightarrow> nat set \<Rightarrow> (orch_db \<times> orch_db) list \<Rightarrow> orch_error + (job_event list \<times> bool)" where
  "stream_job_events jid seen [] = Inr ([], False)"
| "stream_job_events jid seen ((db1, db2) # rest) =
     (let (out, seen') = unseen seen (list_job_events db1 jid 1000) in
      bindE (get_job db2 jid) (\<lambda>v.
      if j_status (v_job v) \<in> set terminal_statuses then Inr (out, True)
      else bindE (stream_job_events jid seen' rest) (\<lambda>(out', fin). Inr (out @ out', fin))))"

end
