(* ===== verification/Job_Invariants.thy ===== *)
theory Job_Invariants
  imports Job_Orchestrator
begin

text \<open>
  What the orchestration database keeps true over every sequence of transactions: keys are
  unique and fresh, references resolve, an event or artifact that names an attempt names one
  of its own job, the attempts of a job are numbered 1, 2, 3 and so on without a gap, and no
  job is attempted more than \<open>max_attempts\<close> times.
\<close>

section \<open>The invariant\<close>

definition akey :: "attempt \<Rightarrow> nat \<times> nat \<times> nat" where
  "akey a = (a_id a, a_job a, a_number a)"

definition owns :: "orch_db \<Rightarrow> nat \<Rightarrow> nat \<Rightarrow> bool" where
  "owns db aid jid \<longleftrightarrow> (\<exists>a \<in> set (attempts db). a_id a = aid \<and> a_job a = jid)"

definition ref_ok :: "orch_db \<Rightarrow> nat \<Rightarrow> nat option \<Rightarrow> bool" where
  "ref_ok db jid r = (has_job db jid \<and> (case r of None \<Rightarrow> True | Some aid \<Rightarrow> owns db aid jid))"

definition keys_ok :: "orch_db \<Rightarrow> bool" where
  "keys_ok db \<longleftrightarrow>
     distinct (map j_id (jobs db)) \<and> distinct (map a_id (attempts db)) \<and>
     distinct (map e_id (events db)) \<and>
     (\<forall>j \<in> set (jobs db). j_id j < next_id db) \<and>
     (\<forall>a \<in> set (attempts db). a_id a < next_id db) \<and>
     (\<forall>e \<in> set (events db). e_id e < next_id db)"

definition refs_ok :: "orch_db \<Rightarrow> bool" where
  "refs_ok db \<longleftrightarrow>
     (\<forall>a \<in> set (attempts db). has_job db (a_job a)) \<and>
     (\<forall>e \<in> set (events db). ref_ok db (e_job e) (e_attempt e)) \<and>
     (\<forall>r \<in> set (artifacts db). ref_ok db (r_job r) (r_attempt r))"

definition numbers_ok :: "orch_db \<Rightarrow> bool" where
  "numbers_ok db \<longleftrightarrow>
     (\<forall>jid. map a_number (attempts_of db jid) = [1..<Suc (count_attempts db jid)])"

definition wf_db :: "orch_db \<Rightarrow> bool" where
  "wf_db db \<longleftrightarrow> keys_ok db \<and> refs_ok db \<and> numbers_ok db"

definition bounded :: "int \<Rightarrow> orch_db \<Rightarrow> bool" where
  "bounded M db \<longleftrightarrow> (\<forall>j \<in> set (jobs db).
     int (count_attempts db (j_id j)) \<le> M \<and>
     (j_status j = Queued \<longrightarrow> int (count_attempts db (j_id j)) < M))"

lemmas wf_defs = wf_db_def keys_ok_def refs_ok_def numbers_ok_def

section \<open>The writes that keep the keys of jobs and attempts\<close>

text \<open>Between two databases of one transaction the keys of jobs and attempts stay, and the
  invariants are carried over.\<close>

definition evolves :: "int \<Rightarrow> orch_db \<Rightarrow> orch_db \<Rightarrow> bool" where
  "evolves M db db' \<longleftrightarrow>
     map j_id (jobs db') = map j_id (jobs db) \<and>
     map akey (attempts db') = map akey (attempts db) \<and>
     (wf_db db \<longrightarrow> wf_db db') \<and> (bounded M db \<longrightarrow> bounded M db')"

lemma evolves_refl: "evolves M db db"
  by (simp add: evolves_def)

lemma evolves_trans: "evolves M a b \<Longrightarrow> evolves M b c \<Longrightarrow> evolves M a c"
  by (auto simp: evolves_def)

lemma owns_akey: "owns db aid jid \<longleftrightarrow> (\<exists>n. (aid, jid, n) \<in> set (map akey (attempts db)))"
  by (auto simp: owns_def akey_def image_iff)

lemma attempts_of_akey:
  "map akey (attempts_of db jid) = filter (\<lambda>(_, j, _). j = jid) (map akey (attempts db))"
  by (simp add: attempts_of_def filter_map comp_def akey_def)

lemma akey_eq_counts:
  assumes "map akey (attempts db') = map akey (attempts db)"
  shows "map akey (attempts_of db' jid) = map akey (attempts_of db jid)"
    and "count_attempts db' jid = count_attempts db jid"
    and "map a_number (attempts_of db' jid) = map a_number (attempts_of db jid)"
    and "owns db' aid jid = owns db aid jid"
    and "map a_id (attempts db') = map a_id (attempts db)"
    and "map a_job (attempts db') = map a_job (attempts db)"
    and "has_attempt db' aid = has_attempt db aid"
proof -
  show *: "map akey (attempts_of db' jid) = map akey (attempts_of db jid)"
    by (simp only: attempts_of_akey assms)
  show "count_attempts db' jid = count_attempts db jid"
    using arg_cong [OF *, of length] by (simp add: count_attempts_def)
  have "map (snd \<circ> snd) (map akey (attempts_of db' jid)) =
        map (snd \<circ> snd) (map akey (attempts_of db jid))"
    by (simp only: *)
  then show "map a_number (attempts_of db' jid) = map a_number (attempts_of db jid)"
    by (simp add: comp_def akey_def)
  show "owns db' aid jid = owns db aid jid"
    by (simp only: owns_akey assms)
  have "map fst (map akey (attempts db')) = map fst (map akey (attempts db))"
    by (simp only: assms)
  then show ids: "map a_id (attempts db') = map a_id (attempts db)"
    by (simp add: comp_def akey_def)
  have "map (fst \<circ> snd) (map akey (attempts db')) = map (fst \<circ> snd) (map akey (attempts db))"
    by (simp only: assms)
  then show "map a_job (attempts db') = map a_job (attempts db)"
    by (simp add: comp_def akey_def)
  show "has_attempt db' aid = has_attempt db aid"
    using arg_cong [OF ids, of set] by (simp add: has_attempt_def)
qed

lemma evolves_has_job: "evolves M db db' \<Longrightarrow> has_job db' jid = has_job db jid"
  unfolding evolves_def has_job_def by (metis list.set_map)

lemma evolves_akey: "evolves M db db' \<Longrightarrow> map akey (attempts db') = map akey (attempts db)"
  by (simp add: evolves_def)

lemmas evolves_counts = evolves_akey [THEN akey_eq_counts(2)]
lemmas evolves_owns = evolves_akey [THEN akey_eq_counts(4)]

lemma ball_map_eq: "map f xs = map f ys \<Longrightarrow> (\<forall>x \<in> set xs. P (f x)) = (\<forall>y \<in> set ys. P (f y))"
  by (metis (mono_tags, lifting) imageE imageI list.set_map)

lemma wf_db_same_keys:
  assumes wf: "wf_db db"
    and j: "map j_id (jobs db') = map j_id (jobs db)"
    and a: "map akey (attempts db') = map akey (attempts db)"
    and n: "next_id db \<le> next_id db'"
    and e: "distinct (map e_id (events db'))" "\<forall>e \<in> set (events db'). e_id e < next_id db'"
      "\<forall>e \<in> set (events db'). ref_ok db' (e_job e) (e_attempt e)"
      "\<forall>r \<in> set (artifacts db'). ref_ok db' (r_job r) (r_attempt r)"
  shows "wf_db db'"
proof -
  note c = akey_eq_counts [OF a]
  have hj: "has_job db' = has_job db"
    using arg_cong [OF j, of set] by (auto simp: has_job_def fun_eq_iff)
  have "keys_ok db'"
    using wf n e(1,2) j c(5) ball_map_eq [OF j, of "\<lambda>i. i < next_id db'"]
      ball_map_eq [OF c(5), of "\<lambda>i. i < next_id db'"]
    by (auto simp: wf_db_def keys_ok_def)
  moreover have "refs_ok db'"
    using wf e(3,4) ball_map_eq [OF c(6), of "has_job db"]
    by (auto simp: wf_db_def refs_ok_def hj)
  moreover have "numbers_ok db'"
    using wf c(2,3) by (simp add: wf_db_def numbers_ok_def)
  ultimately show ?thesis by (simp add: wf_db_def)
qed

lemma ref_ok_same_keys:
  assumes "map j_id (jobs db') = map j_id (jobs db)" "map akey (attempts db') = map akey (attempts db)"
  shows "ref_ok db' jid r = ref_ok db jid r"
proof -
  have "has_job db' jid = has_job db jid"
    using arg_cong [OF assms(1), of set] by (simp add: has_job_def)
  then show ?thesis using akey_eq_counts(4) [OF assms(2)]
    by (simp add: ref_ok_def split: option.split)
qed

lemma bounded_same_jobs:
  assumes "jobs db' = jobs db" "map akey (attempts db') = map akey (attempts db)"
  shows "bounded M db' = bounded M db"
  using akey_eq_counts(2) [OF assms(2)] by (simp add: bounded_def assms(1))

lemma set_attempt_status_Inr [res_iff]:
  "set_attempt_status aid st lease ended reason db = Inr db' \<longleftrightarrow>
     has_attempt db aid \<and> db' = db\<lparr>attempts := map_if (\<lambda>a. a_id a = aid)
             (\<lambda>a. a\<lparr>a_status := st,
                    a_lease := (case lease of None \<Rightarrow> a_lease a | Some l \<Rightarrow> l),
                    a_ended := (case ended of None \<Rightarrow> a_ended a | Some t \<Rightarrow> Some t),
                    a_reason := (case reason of None \<Rightarrow> a_reason a | Some r \<Rightarrow> Some r)\<rparr>)
             (attempts db)\<rparr>"
  by (auto simp: set_attempt_status_def)

lemma evolves_set_attempt_status:
  assumes "set_attempt_status aid st lease ended reason db = Inr db'"
  shows "evolves M db db'"
proof -
  from assms have a: "map akey (attempts db') = map akey (attempts db)"
    and j: "jobs db' = jobs db" and r: "events db' = events db" "artifacts db' = artifacts db"
      "next_id db' = next_id db"
    by (auto simp: res_iff akey_def intro: map_map_if)
  have "wf_db db \<Longrightarrow> wf_db db'"
    by (rule wf_db_same_keys [of db]) (auto simp: a j r ref_ok_same_keys [of db' db] wf_defs)
  then show ?thesis by (auto simp: evolves_def a j bounded_same_jobs [OF j a])
qed

lemma insert_event_Inr [res_iff]:
  "insert_event now jid aid ty payload db = Inr db' \<longleftrightarrow>
     has_job db jid \<and> attempt_ref_ok db aid \<and>
     db' = db\<lparr>events := events db @ [\<lparr>e_id = next_id db, e_job = jid, e_attempt = aid,
             e_type = ty, e_json = payload, e_created = now\<rparr>], next_id := Suc (next_id db)\<rparr>"
  by (auto simp: insert_event_def)

lemma evolves_insert_event:
  assumes ins: "insert_event now jid aid ty payload db = Inr db'"
    and own: "ref_ok db jid aid"
  shows "evolves M db db'"
proof -
  from ins have a: "map akey (attempts db') = map akey (attempts db)" and j: "jobs db' = jobs db"
    by (auto simp: res_iff)
  have ref: "ref_ok db' i r = ref_ok db i r" for i r
    by (rule ref_ok_same_keys) (simp_all add: a j)
  obtain e where e: "events db' = events db @ [e]" "e_id e = next_id db" "e_job e = jid"
      "e_attempt e = aid" and n: "next_id db' = Suc (next_id db)"
      "artifacts db' = artifacts db"
    using ins by (auto simp: res_iff)
  have "wf_db db \<Longrightarrow> wf_db db'"
    by (rule wf_db_same_keys [of db]) (use own in \<open>auto simp: a j e n ref wf_defs less_Suc_eq\<close>)
  then show ?thesis by (auto simp: evolves_def a j bounded_same_jobs [OF j a])
qed

lemma insert_artifact_Inr [res_iff]:
  "insert_artifact now jid aid kind uri meta db = Inr db' \<longleftrightarrow>
     has_job db jid \<and> attempt_ref_ok db aid \<and>
     db' = db\<lparr>artifacts := artifacts db @ [\<lparr>r_id = next_id db, r_job = jid, r_attempt = aid,
             r_kind = kind, r_uri = uri,
             r_meta = (case meta of None \<Rightarrow> None | Some m \<Rightarrow> if m = [] then None else Some m),
             r_created = now\<rparr>], next_id := Suc (next_id db)\<rparr>"
  by (auto simp: insert_artifact_def)

lemma evolves_insert_artifact:
  assumes ins: "insert_artifact now jid aid kind uri meta db = Inr db'"
    and own: "ref_ok db jid aid"
  shows "evolves M db db'"
proof -
  from ins have a: "map akey (attempts db') = map akey (attempts db)" and j: "jobs db' = jobs db"
    by (auto simp: res_iff)
  have ref: "ref_ok db' i r = ref_ok db i r" for i r
    by (rule ref_ok_same_keys) (simp_all add: a j)
  obtain r where r: "artifacts db' = artifacts db @ [r]" "r_job r = jid" "r_attempt r = aid"
      and n: "next_id db' = Suc (next_id db)" "events db' = events db"
    using ins by (auto simp: res_iff)
  have "wf_db db \<Longrightarrow> wf_db db'"
    by (rule wf_db_same_keys [of db]) (use own in \<open>auto simp: a j r n ref wf_defs less_Suc_eq\<close>)
  then show ?thesis by (auto simp: evolves_def a j bounded_same_jobs [OF j a])
qed

lemma set_job_status_Inr [res_iff]:
  "set_job_status jid st now completed result code detail db = Inr db' \<longleftrightarrow>
     has_job db jid \<and> db' = db\<lparr>jobs := map_if (\<lambda>j. j_id j = jid)
             (\<lambda>j. j\<lparr>j_status := st, j_updated := now,
                    j_completed := (case completed of None \<Rightarrow> j_completed j | Some t \<Rightarrow> Some t),
                    j_result := (case result of None \<Rightarrow> j_result j | Some r \<Rightarrow> Some r),
                    j_error_code := code, j_error_detail := detail\<rparr>)
             (jobs db)\<rparr>"
  by (auto simp: set_job_status_def)

text \<open>A job may be queued again only while it has an attempt left.\<close>

lemma evolves_set_job_status:
  assumes set: "set_job_status jid st now completed result code detail db = Inr db'"
    and q: "st = Queued \<longrightarrow> int (count_attempts db jid) < M"
  shows "evolves M db db'"
proof -
  from set have a: "attempts db' = attempts db" and j: "map j_id (jobs db') = map j_id (jobs db)"
    and r: "events db' = events db" "artifacts db' = artifacts db" "next_id db' = next_id db"
    by (auto simp: res_iff intro: map_map_if)
  have "wf_db db \<Longrightarrow> wf_db db'"
    by (rule wf_db_same_keys [of db]) (auto simp: a j r ref_ok_same_keys [of db' db] wf_defs)
  moreover have "bounded M db \<Longrightarrow> bounded M db'"
    using set q by (auto simp: bounded_def res_iff set_map_if count_attempts_def attempts_of_def)
  ultimately show ?thesis by (auto simp: evolves_def a j)
qed

lemma evolves_insert_event_owned:
  "insert_event now jid (Some aid) ty payload db = Inr db' \<Longrightarrow> owns db aid jid \<Longrightarrow> evolves M db db'"
  by (rule evolves_insert_event) (auto simp: ref_ok_def res_iff)

lemma evolves_insert_event_job:
  "insert_event now jid None ty payload db = Inr db' \<Longrightarrow> evolves M db db'"
  by (rule evolves_insert_event) (auto simp: ref_ok_def res_iff)

lemma evolves_insert_artifact_owned:
  "insert_artifact now jid (Some aid) kind uri meta db = Inr db' \<Longrightarrow> owns db aid jid
     \<Longrightarrow> evolves M db db'"
  by (rule evolves_insert_artifact) (auto simp: ref_ok_def res_iff)

lemma get_owned_attempt_Inr:
  "get_owned_attempt db aid node = Inr row \<Longrightarrow>
     row \<in> set (attempts db) \<and> a_id row = aid \<and> a_node row = node \<and> owns db aid (a_job row)"
  by (auto simp: get_owned_attempt_def find_attempt_def owns_def
      split: option.splits if_splits dest: find_Some_iff')

section \<open>Every operation evolves the database\<close>

lemma attempt_progress_evolves:
  assumes "attempt_progress now node aid progress ls db = Inr db'"
  shows "evolves M db db'"
proof -
  from assms obtain row db1 db2 where
    row: "get_owned_attempt db aid node = Inr row"
    and 1: "set_attempt_status aid ARunning (Some (now + seconds ls)) None None db = Inr db1"
    and 2: "set_job_status (a_job row) Running now None None None None db1 = Inr db2"
    and 3: "insert_event now (a_job row) (Some aid) ''progress'' progress db2 = Inr db'"
    by (auto simp: attempt_progress_def bindE_Inr split: if_splits)
  have e1: "evolves M db db1" using 1 by (rule evolves_set_attempt_status)
  have e2: "evolves M db1 db2" using 2 by (rule evolves_set_job_status) simp
  have "owns db2 aid (a_job row)"
    using get_owned_attempt_Inr [OF row] evolves_owns [OF e1] evolves_owns [OF e2] by simp
  with 3 have "evolves M db2 db'" by (rule evolves_insert_event_owned)
  with e1 e2 show ?thesis by (blast intro: evolves_trans)
qed

lemma foldE_complete_artifact_evolves:
  assumes "foldE (complete_artifact now jid aid) arts db = Inr db'" "owns db aid jid"
  shows "evolves M db db'"
proof -
  have "evolves M db db' \<and> owns db' aid jid"
    using assms(1)
  proof (rule foldE_invariant [where I = "\<lambda>d. evolves M db d \<and> owns d aid jid"])
    show "evolves M db db \<and> owns db aid jid" using assms(2) by (simp add: evolves_refl)
  next
    fix a s t
    assume i: "evolves M db s \<and> owns s aid jid" and c: "complete_artifact now jid aid a s = Inr t"
    have "evolves M s t"
      using c i by (auto simp: complete_artifact_def intro: evolves_insert_artifact_owned)
    with i show "evolves M db t \<and> owns t aid jid"
      by (auto intro: evolves_trans simp: evolves_owns)
  qed
  then show ?thesis ..
qed

lemma complete_attempt_evolves:
  assumes "complete_attempt now node aid result arts db = Inr (v, db')"
  shows "evolves M db db'"
proof -
  from assms obtain row where row: "get_owned_attempt db aid node = Inr row"
    by (auto simp: complete_attempt_def bindE_Inr)
  define jid where "jid = a_job row"
  have own: "owns db aid jid" using get_owned_attempt_Inr [OF row] by (simp add: jid_def)
  show ?thesis
  proof (cases "job_cancel_requested db jid")
    case True
    with assms row obtain db1 db2 where
      1: "set_attempt_status aid AFailed None (Some now) (Some ''CANCELED'') db = Inr db1"
      and 2: "set_job_status jid Canceled now (Some now) None (Some ''CANCELED'')
                (Some ''Job canceled'') db1 = Inr db2"
      and 3: "insert_event now jid (Some aid) ''job_canceled'' [(''node'', PStr node)] db2 = Inr db'"
      by (auto simp: complete_attempt_def bindE_Inr Let_def jid_def)
    have e1: "evolves M db db1" using 1 by (rule evolves_set_attempt_status)
    have e2: "evolves M db1 db2" using 2 by (rule evolves_set_job_status) simp
    have "evolves M db2 db'"
      using 3 own by (auto intro!: evolves_insert_event_owned simp: evolves_owns [OF e1] evolves_owns [OF e2])
    with e1 e2 show ?thesis by (blast intro: evolves_trans)
  next
    case False
    with assms row obtain db1 db2 db3 db4 where
      1: "set_attempt_status aid ACompleted None (Some now) None db = Inr db1"
      and 2: "set_job_status jid Completed now (Some now) (Some result) None None db1 = Inr db2"
      and 3: "foldE (complete_artifact now jid aid) arts db2 = Inr db3"
      and 4: "insert_event now jid (Some aid) ''attempt_completed'' result db3 = Inr db4"
      and 5: "insert_event now jid (Some aid) ''job_completed'' [] db4 = Inr db'"
      by (auto simp: complete_attempt_def bindE_Inr Let_def jid_def)
    have e1: "evolves M db db1" using 1 by (rule evolves_set_attempt_status)
    have e2: "evolves M db1 db2" using 2 by (rule evolves_set_job_status) simp
    have o2: "owns db2 aid jid" using own by (simp add: evolves_owns [OF e1] evolves_owns [OF e2])
    have e3: "evolves M db2 db3" using 3 o2 by (rule foldE_complete_artifact_evolves)
    have o3: "owns db3 aid jid" using o2 by (simp add: evolves_owns [OF e3])
    have e4: "evolves M db3 db4" using 4 o3 by (rule evolves_insert_event_owned)
    have o4: "owns db4 aid jid" using o3 by (simp add: evolves_owns [OF e4])
    have e5: "evolves M db4 db'" using 5 o4 by (rule evolves_insert_event_owned)
    from e1 e2 e3 e4 e5 show ?thesis by (blast intro: evolves_trans)
  qed
qed

lemma fail_attempt_evolves:
  assumes "fail_attempt now node aid code detail retryable M db = Inr (v, db')"
  shows "evolves M db db'"
proof -
  from assms obtain row db1 db2 where
    row: "get_owned_attempt db aid node = Inr row"
    and 1: "set_attempt_status aid AFailed None (Some now) (Some (detail_or_code detail code)) db
              = Inr db1"
    and 2: "insert_event now (a_job row) (Some aid) ''attempt_failed''
              [(''error_code'', PStr code), (''error_detail'', opt_str detail)] db1 = Inr db2"
    by (auto simp: fail_attempt_def bindE_Inr Let_def)
  define jid where "jid = a_job row"
  have e1: "evolves M db db1" using 1 by (rule evolves_set_attempt_status)
  have o1: "owns db1 aid jid"
    using get_owned_attempt_Inr [OF row] by (simp add: jid_def evolves_owns [OF e1])
  have e2: "evolves M db1 db2" using 2 o1 by (auto simp: jid_def intro: evolves_insert_event_owned)
  have o2: "owns db2 aid jid" using o1 by (simp add: evolves_owns [OF e2])
  obtain st co c d ty p db3 where
    3: "set_job_status jid st now co None c d db2 = Inr db3"
    and 4: "insert_event now jid (Some aid) ty p db3 = Inr db'"
    and q: "st = Queued \<longrightarrow> int (count_attempts db1 jid) < M"
    using assms row 1 2
    by (auto simp: fail_attempt_def bindE_Inr Let_def jid_def split: if_splits)
  have e3: "evolves M db2 db3"
    using 3 by (rule evolves_set_job_status) (use q in \<open>simp add: evolves_counts [OF e2]\<close>)
  have o3: "owns db3 aid jid" using o2 by (simp add: evolves_owns [OF e3])
  have "evolves M db3 db'" using 4 o3 by (rule evolves_insert_event_owned)
  with e1 e2 e3 show ?thesis by (blast intro: evolves_trans)
qed

lemma sweep_one_evolves:
  assumes "sweep_one now M att (st, db) = Inr (st', db')" "owns db (a_id att) (a_job att)"
  shows "evolves M db db'"
proof -
  from assms obtain db1 db2 s co c d db3 ty p where
    1: "set_attempt_status (a_id att) AExpired None (Some now) None db = Inr db1"
    and 2: "insert_event now (a_job att) (Some (a_id att)) ''lease_expired''
              [(''node'', PStr (a_node att))] db1 = Inr db2"
    and 3: "set_job_status (a_job att) s now co None c d db2 = Inr db3"
    and 4: "insert_event now (a_job att) (Some (a_id att)) ty p db3 = Inr db'"
    and q: "s = Queued \<longrightarrow> int (count_attempts db2 (a_job att)) < M"
    by (auto simp: sweep_one_def bindE_Inr Let_def split: if_splits)
  have e1: "evolves M db db1" using 1 by (rule evolves_set_attempt_status)
  have o1: "owns db1 (a_id att) (a_job att)" using assms(2) by (simp add: evolves_owns [OF e1])
  have e2: "evolves M db1 db2" using 2 o1 by (rule evolves_insert_event_owned)
  have o2: "owns db2 (a_id att) (a_job att)" using o1 by (simp add: evolves_owns [OF e2])
  have e3: "evolves M db2 db3" using 3 q by (rule evolves_set_job_status)
  have o3: "owns db3 (a_id att) (a_job att)" using o2 by (simp add: evolves_owns [OF e3])
  have "evolves M db3 db'" using 4 o3 by (rule evolves_insert_event_owned)
  with e1 e2 e3 show ?thesis by (blast intro: evolves_trans)
qed

lemma sweep_expired_attempts_evolves:
  assumes "sweep_expired_attempts now M db = Inr (st, db')"
  shows "evolves M db db'"
proof -
  have "case (st, db') of (_, d) \<Rightarrow> evolves M db d"
    using assms unfolding sweep_expired_attempts_def
  proof (rule foldE_invariant)
    show "case (\<lparr>s_expired = 0, s_requeued = 0, s_timed_out = 0\<rparr>, db) of (_, d) \<Rightarrow> evolves M db d"
      by (simp add: evolves_refl)
  next
    fix att s t
    assume att: "att \<in> set (expired_rows now db)" and i: "case s of (_, d) \<Rightarrow> evolves M db d"
      and sw: "sweep_one now M att s = Inr t"
    obtain st1 db1 st2 db2 where st: "s = (st1, db1)" "t = (st2, db2)" by (cases s, cases t)
    from att have "owns db (a_id att) (a_job att)"
      by (auto simp: expired_rows_def owns_def)
    with i st have "owns db1 (a_id att) (a_job att)" by (simp add: evolves_owns)
    with sw st have "evolves M db1 db2" by (auto intro: sweep_one_evolves)
    with i st show "case t of (_, d) \<Rightarrow> evolves M db d" by (auto intro: evolves_trans)
  qed
  then show ?thesis by simp
qed

end
