(* ===== verification/Job_Safety.thy ===== *)
theory Job_Safety
  imports Job_Invariants
begin

text \<open>
  Creating, cancelling, claiming and pruning keep the invariant, the step relation of all
  transactions of the controller, and its reachable databases.
\<close>

section \<open>Creating and cancelling\<close>

lemma create_job_keeps:
  assumes "create_job now ty payload prio target rb db = Inr (v, db')"
    and "wf_db db" "bounded M db" "1 \<le> M"
  shows "wf_db db' \<and> bounded M db'"
proof -
  define j where "j = \<lparr>j_id = next_id db, j_type = ty, j_payload = payload, j_requested_by = rb,
    j_priority = prio, j_status = Queued, j_target = target, j_created = now, j_updated = now,
    j_completed = None, j_result = None, j_error_code = None, j_error_detail = None\<rparr>"
  define db1 where "db1 = db\<lparr>jobs := jobs db @ [j], next_id := Suc (next_id db)\<rparr>"
  have ins: "insert_event now (next_id db) None ''job_created'' [(''type'', PStr ty)] db1 = Inr db'"
    using assms(1) by (auto simp: create_job_def bindE_Inr Let_def j_def db1_def)
  have c: "count_attempts db1 i = count_attempts db i" "attempts_of db1 i = attempts_of db i" for i
    by (simp_all add: count_attempts_def attempts_of_def db1_def)
  have f1: "\<not> has_job db (next_id db)"
    using assms(2) by (auto simp: wf_db_def keys_ok_def has_job_def)
  have f2: "next_id db \<notin> a_job ` set (attempts db)"
    using assms(2) f1 unfolding wf_db_def refs_ok_def by (metis imageE)
  then have c0: "count_attempts db (next_id db) = 0"
    by (force simp: count_attempts_def attempts_of_def filter_empty_conv)
  have ref: "ref_ok db i r \<Longrightarrow> ref_ok db1 i r" for i r
    by (auto simp: ref_ok_def has_job_def owns_def db1_def split: option.splits)
  have "keys_ok db1"
    using assms(2) f1 by (auto simp: wf_db_def keys_ok_def db1_def j_def has_job_def less_Suc_eq)
  moreover have "refs_ok db1"
    using assms(2) ref by (auto simp: wf_db_def refs_ok_def) (auto simp: db1_def has_job_def)
  moreover have "numbers_ok db1"
    using assms(2) by (simp add: wf_db_def numbers_ok_def c del: upt_Suc)
  ultimately have "wf_db db1" by (simp add: wf_db_def)
  moreover have "bounded M db1"
    unfolding bounded_def c using assms(3,4) c0 by (simp add: db1_def j_def bounded_def)
  ultimately show ?thesis using evolves_insert_event_job [OF ins, of M] by (simp add: evolves_def)
qed

lemma cancel_job_keeps:
  assumes "cancel_job now jid db = Inr (v, db')" and "wf_db db" "bounded M db"
  shows "wf_db db' \<and> bounded M db'"
proof (cases "db' = db")
  case False
  with assms(1) obtain f ty where
    ins: "insert_event now jid None ty [] (db\<lparr>jobs := map_if (\<lambda>j. j_id j = jid) f (jobs db)\<rparr>) = Inr db'"
    and f: "\<And>j. j_id (f j) = j_id j" "\<And>j. j_status (f j) \<noteq> Queued"
    by (auto simp: cancel_job_def bindE_Inr split: option.splits if_splits)
  define db1 where "db1 = db\<lparr>jobs := map_if (\<lambda>j. j_id j = jid) f (jobs db)\<rparr>"
  have ids: "map j_id (jobs db1) = map j_id (jobs db)"
    by (simp add: db1_def map_map_if f)
  have rest: "attempts db1 = attempts db" "events db1 = events db" "artifacts db1 = artifacts db"
      "next_id db1 = next_id db"
    by (simp_all add: db1_def)
  have ref: "ref_ok db1 i r = ref_ok db i r" for i r
    by (rule ref_ok_same_keys [OF ids]) (simp add: rest)
  have "wf_db db1"
    by (rule wf_db_same_keys [OF assms(2) ids])
      (use assms(2) in \<open>auto simp: rest ref wf_db_def keys_ok_def refs_ok_def\<close>)
  moreover have "bounded M db1"
    using assms(3) f by (auto simp: bounded_def db1_def set_map_if count_attempts_def attempts_of_def)
  ultimately show ?thesis
    using evolves_insert_event_job [OF ins, of M] by (simp add: evolves_def db1_def)
qed (use assms in simp)

section \<open>Claiming\<close>

definition queued_job :: "orch_db \<Rightarrow> nat \<Rightarrow> bool" where
  "queued_job db jid \<longleftrightarrow> (\<exists>j \<in> set (jobs db). j_id j = jid \<and> j_status j = Queued)"

lemma insert_attempt_keeps:
  assumes ins: "insert_attempt now le node jid db = Inr (aid, db')" and wf: "wf_db db"
  shows "wf_db db'" "owns db' aid jid" "jobs db' = jobs db"
    "count_attempts db' i = (if i = jid then Suc (count_attempts db i) else count_attempts db i)"
proof -
  obtain a where
    aid: "aid = next_id db" and hj: "has_job db jid"
    and a: "a_id a = next_id db" "a_job a = jid" "a_number a = Suc (count_attempts db jid)"
    and db': "db' = db\<lparr>attempts := attempts db @ [a], next_id := Suc (next_id db)\<rparr>"
    using ins by (intro that [of "\<lparr>a_id = next_id db, a_job = jid,
      a_number = Suc (count_attempts db jid), a_node = node, a_lease = le, a_started = now,
      a_ended = None, a_status = AAssigned, a_reason = None\<rparr>"])
      (auto simp: insert_attempt_def Let_def split: if_splits)
  show own: "owns db' aid jid" and "jobs db' = jobs db" by (auto simp: db' owns_def a aid)
  have at: "attempts_of db' i = attempts_of db i @ (if i = jid then [a] else [])" for i
    by (simp add: attempts_of_def db' a)
  show c: "count_attempts db' i = (if i = jid then Suc (count_attempts db i) else count_attempts db i)"
    for i by (simp add: count_attempts_def at)
  have ref: "ref_ok db i r \<Longrightarrow> ref_ok db' i r" for i r
    by (auto simp: ref_ok_def has_job_def owns_def db' split: option.splits)
  have "keys_ok db'" using wf by (auto simp: wf_db_def keys_ok_def db' a less_Suc_eq)
  moreover have "refs_ok db'"
  proof -
    have "has_job db' i = has_job db i" for i by (simp add: has_job_def db')
    with wf hj ref a show ?thesis by (simp add: wf_db_def refs_ok_def db')
  qed
  moreover have "numbers_ok db'"
    using wf by (simp add: wf_db_def numbers_ok_def at c a)
  ultimately show "wf_db db'" by (simp add: wf_db_def)
qed

text \<open>Under the invariant the number of the new attempt is free.\<close>

lemma insert_attempt_total:
  assumes "wf_db db" "has_job db jid"
  shows "\<exists>aid db'. insert_attempt now le node jid db = Inr (aid, db')"
proof -
  have "a_number ` set (attempts_of db jid) = {1..<Suc (count_attempts db jid)}"
    using assms(1) unfolding wf_db_def numbers_ok_def by (metis list.set_map set_upt)
  then have "count_attempts db jid + 1 \<notin> a_number ` set (attempts_of db jid)" by simp
  with assms(2) show ?thesis by (simp add: insert_attempt_def Let_def)
qed

lemma owns_has_attempt: "owns db aid jid \<Longrightarrow> has_attempt db aid"
  by (auto simp: owns_def has_attempt_def)

lemma claim_one_result:
  assumes wf: "wf_db db" and hj: "has_job db (j_id row)"
  obtains c db' where "claim_one now le node cap lab row db = Inr (c, db')"
    and "wf_db db'" "j_id (v_job (c_job c)) = j_id row" "c_lease_expires c = le"
    and "jobs db' = map_if (\<lambda>j. j_id j = j_id row)
       (\<lambda>j. j\<lparr>j_status := Assigned, j_updated := now, j_error_code := None, j_error_detail := None\<rparr>)
       (jobs db)"
    and "\<And>i. count_attempts db' i =
           (if i = j_id row then Suc (count_attempts db i) else count_attempts db i)"
    and "\<exists>a \<in> set (attempts db'). a_id a = c_attempt c \<and> a_job a = j_id row \<and> a_node a = node \<and>
           a_status a = AAssigned \<and> a_lease a = le"
proof -
  obtain aid db1 where 1: "insert_attempt now le node (j_id row) db = Inr (aid, db1)"
    using insert_attempt_total [OF wf hj] by blast
  note k = insert_attempt_keeps [OF 1 wf]
  have hj1: "has_job db1 (j_id row)" using hj k(3) by (simp add: has_job_def)
  then obtain db2 where 2: "set_job_status (j_id row) Assigned now None None None None db1 = Inr db2"
    by (simp add: set_job_status_def)
  have e2: "evolves M db1 db2" for M using 2 by (rule evolves_set_job_status) simp
  have o2: "owns db2 aid (j_id row)" using k(2) by (simp add: evolves_owns [OF e2])
  let ?p = "[(''node'', PStr node), (''labels'', PDict (dict_or_empty lab)),
               (''capacity'', PDict (dict_or_empty cap))]"
  obtain db3 where 3: "insert_event now (j_id row) (Some aid) ''job_assigned'' ?p db2 = Inr db3"
    using hj1 owns_has_attempt [OF o2]
    by (simp add: insert_event_def attempt_ref_ok_def evolves_has_job [OF e2])
  have e3: "evolves M db2 db3" for M using 3 o2 by (rule evolves_insert_event_owned)
  have wf3: "wf_db db3" using e2 e3 k(1) by (simp add: evolves_def)
  have jobs3: "jobs db3 = map_if (\<lambda>j. j_id j = j_id row)
       (\<lambda>j. j\<lparr>j_status := Assigned, j_updated := now, j_error_code := None, j_error_detail := None\<rparr>)
       (jobs db)"
    using 2 3 k(3) by (auto simp: set_job_status_Inr insert_event_Inr)
  have at: "attempts db3 = attempts db1"
    using 2 3 by (auto simp: set_job_status_Inr insert_event_Inr)
  have "\<exists>a \<in> set (attempts db3). a_id a = aid \<and> a_job a = j_id row \<and> a_node a = node \<and>
           a_status a = AAssigned \<and> a_lease a = le"
    using 1 unfolding at by (auto simp: insert_attempt_def Let_def split: if_splits)
  moreover have "count_attempts db3 i =
      (if i = j_id row then Suc (count_attempts db i) else count_attempts db i)" for i
    using k(4) [of i] evolves_counts [OF e2, of i] evolves_counts [OF e3, of i] by simp
  ultimately show ?thesis
    using 1 2 3 wf3 jobs3
    by (intro that) (auto simp: claim_one_def job_row_to_dict_def)
qed

lemma claim_loop_spec:
  assumes "wf_db db" "bounded M db" "distinct (map j_id rows)"
    and "\<And>r. r \<in> set rows \<Longrightarrow> queued_job db (j_id r)"
  shows "\<exists>cs db'. claim_loop now le node n cap lab rows claimed db = Inr (claimed @ cs, db') \<and>
           wf_db db' \<and> bounded M db' \<and>
           map (\<lambda>c. j_id (v_job (c_job c))) cs =
             map j_id (take (nat (n - int (length claimed)))
               (filter (\<lambda>r. job_matches_node r node cap lab) rows))"
  using assms
proof (induction rows arbitrary: claimed db)
  case Nil
  then show ?case by auto
next
  case (Cons row rows)
  show ?case
  proof (cases "n \<le> int (length claimed)")
    case True
    with Cons.prems show ?thesis by auto
  next
    case more: False
    show ?thesis
    proof (cases "job_matches_node row node cap lab")
      case False
      have "\<And>r. r \<in> set rows \<Longrightarrow> queued_job db (j_id r)" using Cons.prems(4) by simp
      with Cons.IH [OF Cons.prems(1,2)] Cons.prems(3) False more show ?thesis by simp
    next
      case True
      have q: "queued_job db (j_id row)" using Cons.prems(4) by simp
      then have hj: "has_job db (j_id row)" unfolding queued_job_def has_job_def by (metis imageI)
      obtain c db1 where
        c: "claim_one now le node cap lab row db = Inr (c, db1)" "wf_db db1"
          "j_id (v_job (c_job c)) = j_id row"
        and j: "jobs db1 = map_if (\<lambda>j. j_id j = j_id row)
          (\<lambda>j. j\<lparr>j_status := Assigned, j_updated := now, j_error_code := None, j_error_detail := None\<rparr>)
          (jobs db)"
        and cnt: "\<And>i. count_attempts db1 i =
          (if i = j_id row then Suc (count_attempts db i) else count_attempts db i)"
        using claim_one_result [OF Cons.prems(1) hj] by metis
      have b1: "bounded M db1"
        using Cons.prems(2) q by (auto simp: bounded_def j set_map_if cnt queued_job_def)
      have q1: "queued_job db1 (j_id r)" if "r \<in> set rows" for r
      proof -
        have "j_id r \<noteq> j_id row" using Cons.prems(3) that by (auto simp: image_iff)
        moreover have "queued_job db (j_id r)" using Cons.prems(4) that by simp
        ultimately show ?thesis by (force simp: queued_job_def j set_map_if)
      qed
      obtain cs db' where r: "claim_loop now le node n cap lab rows (claimed @ [c]) db1 =
          Inr ((claimed @ [c]) @ cs, db')" "wf_db db'" "bounded M db'"
        "map (\<lambda>c. j_id (v_job (c_job c))) cs =
             map j_id (take (nat (n - int (length (claimed @ [c]))))
               (filter (\<lambda>r. job_matches_node r node cap lab) rows))"
        using Cons.IH [OF c(2) b1 _ q1, of "claimed @ [c]"] Cons.prems(3) by auto
      have len: "nat (n - int (length claimed)) = Suc (nat (n - int (length (claimed @ [c]))))"
        using more by simp
      have "claim_loop now le node n cap lab (row # rows) claimed db =
          Inr (claimed @ c # cs, db')"
        using more True c(1) r(1) by simp
      moreover have "map (\<lambda>c. j_id (v_job (c_job c))) (c # cs) =
          map j_id (take (nat (n - int (length claimed)))
            (filter (\<lambda>r. job_matches_node r node cap lab) (row # rows)))"
        using True r(4) c(3) by (simp add: len)
      ultimately show ?thesis using r(2,3) by blast
    qed
  qed
qed

lemma claim_order_set [simp]: "set (claim_order js) = set js"
  by (simp add: claim_order_def)

lemma claim_order_distinct: "distinct (map j_id (claim_order js)) = distinct (map j_id js)"
proof -
  have "mset (map j_id (claim_order js)) = mset (map j_id js)"
    by (simp add: claim_order_def)
  then show ?thesis by (metis mset_eq_imp_distinct_iff)
qed

lemma touch_node_lease_frame:
  "jobs (touch_node_lease now node cap lab db) = jobs db"
  "attempts (touch_node_lease now node cap lab db) = attempts db"
  "events (touch_node_lease now node cap lab db) = events db"
  "artifacts (touch_node_lease now node cap lab db) = artifacts db"
  "next_id (touch_node_lease now node cap lab db) = next_id db"
  by (simp_all add: touch_node_lease_def)

lemma wf_db_frame:
  assumes "jobs db' = jobs db" "attempts db' = attempts db" "events db' = events db"
    "artifacts db' = artifacts db" "next_id db' = next_id db"
  shows "wf_db db' = wf_db db" "bounded M db' = bounded M db"
proof -
  have c: "attempts_of db' = attempts_of db" "count_attempts db' = count_attempts db"
    "ref_ok db' = ref_ok db" "has_job db' = has_job db"
    by (simp_all add: fun_eq_iff attempts_of_def count_attempts_def ref_ok_def has_job_def owns_def
        assms split: option.split)
  show "wf_db db' = wf_db db" "bounded M db' = bounded M db"
    by (simp_all add: wf_defs bounded_def c assms del: upt_Suc)
qed

lemmas touch_keeps = wf_db_frame [OF touch_node_lease_frame]

lemma claim_jobs_spec:
  assumes wf: "wf_db db" and b: "bounded M db"
  shows "\<exists>cs db'. claim_jobs now node n ls cap lab db = Inr (cs, db') \<and>
           wf_db db' \<and> bounded M db' \<and>
           map (\<lambda>c. j_id (v_job (c_job c))) cs =
             map j_id (take (nat n) (filter (\<lambda>r. job_matches_node r node cap lab) (queued_rows db)))"
proof -
  let ?db1 = "touch_node_lease now node cap lab db"
  have q: "queued_rows ?db1 = queued_rows db" by (simp add: queued_rows_def touch_node_lease_frame)
  have d: "distinct (map j_id (queued_rows db))"
    using wf by (simp add: queued_rows_def claim_order_distinct wf_defs distinct_map_filter)
  have "\<And>r. r \<in> set (queued_rows db) \<Longrightarrow> queued_job ?db1 (j_id r)"
    by (auto simp: queued_rows_def queued_job_def touch_node_lease_frame)
  with claim_loop_spec [of ?db1 M "queued_rows db" now "now + seconds ls" node n cap lab "[]"]
  show ?thesis using wf b d by (simp add: claim_jobs_def q touch_keeps)
qed

section \<open>Pruning\<close>

text \<open>What pruning amounts to: the jobs go, with every row that names them.\<close>

definition purge :: "nat set \<Rightarrow> orch_db \<Rightarrow> orch_db" where
  "purge X db = db\<lparr>jobs := filter (\<lambda>j. j_id j \<notin> X) (jobs db),
     attempts := filter (\<lambda>a. a_job a \<notin> X) (attempts db),
     events := filter (\<lambda>e. e_job e \<notin> X) (events db),
     artifacts := filter (\<lambda>r. r_job r \<notin> X) (artifacts db)\<rparr>"

lemma purge_purge: "purge X (purge Y db) = purge (X \<union> Y) db"
  by (simp add: purge_def conj_commute)

lemma purge_empty [simp]: "purge {} db = db"
  by (simp add: purge_def)

lemma attempts_of_purge:
  "attempts_of (purge X db) i = (if i \<in> X then [] else attempts_of db i)"
  by (auto simp: attempts_of_def purge_def filter_empty_conv intro: filter_cong)

lemma count_attempts_purge:
  "count_attempts (purge X db) i = (if i \<in> X then 0 else count_attempts db i)"
  by (simp add: count_attempts_def attempts_of_purge)

lemma wf_purge:
  assumes wf: "wf_db db"
  shows "wf_db (purge X db)"
proof -
  have ref: "ref_ok db i r \<Longrightarrow> i \<notin> X \<Longrightarrow> ref_ok (purge X db) i r" for i r
    by (auto simp: ref_ok_def has_job_def owns_def purge_def split: option.splits)
  have "keys_ok (purge X db)"
    using wf by (auto simp: wf_db_def keys_ok_def purge_def distinct_map_filter)
  moreover have "has_job db i \<Longrightarrow> i \<notin> X \<Longrightarrow> has_job (purge X db) i" for i
    by (auto simp: has_job_def purge_def)
  then have "refs_ok (purge X db)"
    using wf ref by (auto simp: wf_db_def refs_ok_def) (auto simp: purge_def)
  moreover have "numbers_ok (purge X db)"
    using wf by (simp add: wf_db_def numbers_ok_def attempts_of_purge count_attempts_purge
        del: upt_Suc)
  ultimately show ?thesis by (simp add: wf_db_def)
qed

lemma bounded_purge: "bounded M db \<Longrightarrow> bounded M (purge X db)"
  by (auto simp: bounded_def count_attempts_purge) (auto simp: purge_def)

text \<open>The events that name an attempt of a job also name the job.\<close>

lemma owns_unique:
  "wf_db db \<Longrightarrow> owns db aid i \<Longrightarrow> owns db aid k \<Longrightarrow> i = k"
  by (auto simp: owns_def wf_db_def keys_ok_def dest: distinct_map_unique)

lemma prune_chunk_spec:
  assumes wf: "wf_db db"
  shows "prune_chunk ids (st, db) =
    Inr (\<lparr>p_jobs = p_jobs st + length (filter (\<lambda>j. j_id j \<in> set ids) (jobs db)),
          p_attempts = p_attempts st + length (filter (\<lambda>a. a_job a \<in> set ids) (attempts db)),
          p_events = p_events st + length (filter (\<lambda>e. e_job e \<in> set ids) (events db))\<rparr>,
         purge (set ids) db)"
proof -
  define hit where "hit = (\<lambda>e :: job_event. case e_attempt e of None \<Rightarrow> False
    | Some aid \<Rightarrow> aid \<in> set (map a_id (filter (\<lambda>a. a_job a \<in> set ids) (attempts db))))"
  have sub: "e_job e \<in> set ids" if "e \<in> set (events db)" "hit e" for e
  proof -
    from that obtain aid a where a: "e_attempt e = Some aid" "a \<in> set (attempts db)" "a_id a = aid"
        "a_job a \<in> set ids"
      by (auto simp: hit_def split: option.splits)
    have "owns db aid (e_job e)"
      using wf that(1) a(1) by (auto simp: wf_db_def refs_ok_def ref_ok_def split: option.splits)
    moreover have "owns db aid (a_job a)" using a by (auto simp: owns_def)
    ultimately have "e_job e = a_job a" by (rule owns_unique [OF wf])
    with a(4) show ?thesis by simp
  qed
  have rsub: "r_job r \<in> set ids"
    if "r \<in> set (artifacts db)" "r_attempt r = Some (a_id a)" "a \<in> set (attempts db)"
      "a_job a \<in> set ids" for r a
  proof -
    have "owns db (a_id a) (r_job r)"
      using wf that(1,2) by (auto simp: wf_db_def refs_ok_def ref_ok_def split: option.splits)
    moreover have "owns db (a_id a) (a_job a)" using that by (auto simp: owns_def)
    ultimately have "r_job r = a_job a" by (rule owns_unique [OF wf])
    with that(4) show ?thesis by simp
  qed
  have esub: "e_job e \<in> set ids"
    if "e \<in> set (events db)" "e_attempt e = Some (a_id a)" "a \<in> set (attempts db)"
      "a_job a \<in> set ids" for e a
    using sub [OF that(1)] that by (auto simp: hit_def)
  have e1: "filter (\<lambda>e. e_job e \<notin> set ids) (filter (\<lambda>e. \<not> hit e) (events db)) =
      filter (\<lambda>e. e_job e \<notin> set ids) (events db)"
    using sub by (auto intro: filter_cong)
  have "length (filter hit (events db)) +
      length (filter (\<lambda>e. e_job e \<in> set ids) (filter (\<lambda>e. \<not> hit e) (events db))) =
      length (filter (\<lambda>e. e_job e \<in> set ids) (events db))"
  proof -
    have "filter hit (filter (\<lambda>e. e_job e \<in> set ids) (events db)) = filter hit (events db)"
      using sub by (auto intro: filter_cong)
    then show ?thesis
      using sum_length_filter_compl [of hit "filter (\<lambda>e. e_job e \<in> set ids) (events db)"]
      by (simp add: conj_commute)
  qed
  note len = this
  have d1: "delete_events_of_attempts ids db =
      (length (filter hit (events db)), db\<lparr>events := filter (\<lambda>e. \<not> hit e) (events db)\<rparr>)"
    by (simp add: delete_events_of_attempts_def Let_def hit_def)
  define db3 where "db3 = db\<lparr>events := filter (\<lambda>e. e_job e \<notin> set ids) (events db),
    artifacts := filter (\<lambda>r. r_job r \<notin> set ids) (artifacts db)\<rparr>"
  have d3: "delete_artifacts_of_jobs ids (snd (delete_events_of_jobs ids
      (db\<lparr>events := filter (\<lambda>e. \<not> hit e) (events db)\<rparr>))) = db3"
    using e1 by (simp add: delete_artifacts_of_jobs_def delete_events_of_jobs_def db3_def)
  have d4: "delete_attempts_of_jobs ids db3 =
      Inr (length (filter (\<lambda>a. a_job a \<in> set ids) (attempts db)),
           db3\<lparr>attempts := filter (\<lambda>a. a_job a \<notin> set ids) (attempts db)\<rparr>)"
    using esub rsub
    by (fastforce simp: delete_attempts_of_jobs_def Let_def db3_def list_ex_iff split: option.splits)
  have d5: "delete_jobs ids (db3\<lparr>attempts := filter (\<lambda>a. a_job a \<notin> set ids) (attempts db)\<rparr>) =
      Inr (length (filter (\<lambda>j. j_id j \<in> set ids) (jobs db)), purge (set ids) db)"
    by (auto simp: delete_jobs_def db3_def list_ex_iff purge_def)
  have n2: "fst (delete_events_of_jobs ids (db\<lparr>events := filter (\<lambda>e. \<not> hit e) (events db)\<rparr>)) =
      length (filter (\<lambda>e. e_job e \<in> set ids) (filter (\<lambda>e. \<not> hit e) (events db)))"
    by (simp add: delete_events_of_jobs_def)
  from d3 n2 d4 d5 len show ?thesis
    by (simp add: prune_chunk_def d1 Let_def split_beta add.assoc)
qed

text \<open>Chunking does not show: pruning in chunks removes what one pass would.\<close>

lemma prune_chunks_spec:
  assumes "wf_db db"
  shows "\<exists>st'. foldE prune_chunk css (st, db) = Inr (st', purge (set (concat css)) db)"
  using assms
proof (induction css arbitrary: st db)
  case Nil
  then show ?case by simp
next
  case (Cons c css)
  obtain st1 where 1: "prune_chunk c (st, db) = Inr (st1, purge (set c) db)"
    using prune_chunk_spec [OF Cons.prems] by blast
  obtain st' where "foldE prune_chunk css (st1, purge (set c) db) =
      Inr (st', purge (set (concat css)) (purge (set c) db))"
    using Cons.IH [OF wf_purge [OF Cons.prems]] by blast
  with 1 show ?case by (simp add: purge_purge Un_commute)
qed

lemma prune_history_spec:
  assumes "wf_db db"
  shows "\<exists>st. prune_history now d db =
    Inr (st, purge (set (map j_id (filter (prunable (now - days d)) (jobs db)))) db)"
  using prune_chunks_spec [OF assms, of "chunks_of 500 (map j_id (filter (prunable (now - days d)) (jobs db)))"]
  by (simp add: prune_history_def Let_def concat_chunks_of)

section \<open>All transactions\<close>

lemma leader_lease_keeps:
  assumes "try_acquire_leader_lease cfg now name db = (b, db')"
  shows "wf_db db' = wf_db db" "bounded M db' = bounded M db"
proof -
  have "jobs db' = jobs db" "attempts db' = attempts db" "events db' = events db"
    "artifacts db' = artifacts db" "next_id db' = next_id db"
    using assms by (auto simp: try_acquire_leader_lease_def Let_def split: option.splits if_splits)
  from wf_db_frame [OF this] show "wf_db db' = wf_db db" "bounded M db' = bounded M db" by auto
qed

text \<open>A step of the controller is any transaction, by any caller, at any instant, with the
  \<open>max_attempts\<close> of the orchestrator.\<close>

inductive orch_step :: "int \<Rightarrow> orch_db \<Rightarrow> orch_db \<Rightarrow> bool" for M where
  create: "create_job now ty payload prio target rb db = Inr (v, db') \<Longrightarrow> orch_step M db db'"
| cancel: "cancel_job now jid db = Inr (v, db') \<Longrightarrow> orch_step M db db'"
| claim: "claim_jobs now node n ls cap lab db = Inr (cs, db') \<Longrightarrow> orch_step M db db'"
| progress: "attempt_progress now node aid pr ls db = Inr db' \<Longrightarrow> orch_step M db db'"
| complete: "complete_attempt now node aid res arts db = Inr (v, db') \<Longrightarrow> orch_step M db db'"
| fail: "fail_attempt now node aid code detail retryable M db = Inr (v, db') \<Longrightarrow> orch_step M db db'"
| sweep: "sweep_expired_attempts now M db = Inr (st, db') \<Longrightarrow> orch_step M db db'"
| prune: "prune_history now d db = Inr (ps, db') \<Longrightarrow> orch_step M db db'"
| lead: "try_acquire_leader_lease cfg now name db = (b, db') \<Longrightarrow> orch_step M db db'"

definition orch_inv :: "int \<Rightarrow> orch_db \<Rightarrow> bool" where
  "orch_inv M db \<longleftrightarrow> 1 \<le> M \<and> wf_db db \<and> bounded M db"

lemma evolves_inv: "evolves M db db' \<Longrightarrow> orch_inv M db \<Longrightarrow> orch_inv M db'"
  by (auto simp: evolves_def orch_inv_def)

lemma claim_jobs_keeps:
  "claim_jobs now node n ls cap lab db = Inr (cs, db') \<Longrightarrow> orch_inv M db \<Longrightarrow> orch_inv M db'"
  using claim_jobs_spec [of db M now node n ls cap lab] by (auto simp: orch_inv_def)

lemma prune_history_keeps:
  "prune_history now d db = Inr (ps, db') \<Longrightarrow> orch_inv M db \<Longrightarrow> orch_inv M db'"
  using prune_history_spec [of db now d] by (auto simp: orch_inv_def wf_purge bounded_purge)

lemma orch_inv_step: "orch_step M db db' \<Longrightarrow> orch_inv M db \<Longrightarrow> orch_inv M db'"
proof (induction rule: orch_step.induct)
  case create then show ?case unfolding orch_inv_def using create_job_keeps by blast
next
  case cancel then show ?case unfolding orch_inv_def using cancel_job_keeps by blast
next
  case claim then show ?case by (rule claim_jobs_keeps)
next
  case progress then show ?case by (blast intro: evolves_inv attempt_progress_evolves)
next
  case complete then show ?case by (blast intro: evolves_inv complete_attempt_evolves)
next
  case fail then show ?case by (blast intro: evolves_inv fail_attempt_evolves)
next
  case sweep then show ?case by (blast intro: evolves_inv sweep_expired_attempts_evolves)
next
  case prune then show ?case by (rule prune_history_keeps)
next
  case lead then show ?case using leader_lease_keeps by (simp add: orch_inv_def)
qed

lemma orch_inv_empty: "1 \<le> M \<Longrightarrow> orch_inv M empty_db"
  by (auto simp: orch_inv_def wf_defs bounded_def empty_db_def attempts_of_def count_attempts_def)

interpretation orch: inductive_invariant "\<lambda>db. db = empty_db \<and> 1 \<le> M" "orch_step M" "orch_inv M" for M
  by unfold_locales (auto intro: orch_inv_empty orch_inv_step)

definition orch_reachable :: "int \<Rightarrow> orch_db \<Rightarrow> bool" where
  "orch_reachable M db \<longleftrightarrow> (orch_step M)\<^sup>*\<^sup>* empty_db db"

lemma reachable_inv: "orch_reachable M db \<Longrightarrow> 1 \<le> M \<Longrightarrow> orch_inv M db"
  unfolding orch_reachable_def using orch.inv_reachable by blast

end
