(* ===== verification/Job_Discipline.thy ===== *)
theory Job_Discipline
  imports Job_Safety
begin

text \<open>
  One worker at a time. When nodes only report on attempts that are still active (assigned or
  running), a job has exactly one active attempt while it is assigned, running or being
  cancelled, and none otherwise. The code itself does not check that the reporting attempt is
  active; the last section of \<^theory_text>\<open>Job_Runs\<close> shows what a late report can do.
\<close>

section \<open>Active attempts and job statuses\<close>

definition active :: "attempt \<Rightarrow> bool" where
  "active a \<longleftrightarrow> a_status a \<in> {AAssigned, ARunning}"

definition busy :: "job_status \<Rightarrow> bool" where
  "busy s \<longleftrightarrow> s \<in> {Assigned, Running, CancelRequested}"

definition act :: "orch_db \<Rightarrow> nat \<Rightarrow> nat" where
  "act db i = length (filter (\<lambda>a. a_job a = i \<and> active a) (attempts db))"

definition jstat :: "orch_db \<Rightarrow> (nat \<times> job_status) list" where
  "jstat db = map (\<lambda>j. (j_id j, j_status j)) (jobs db)"

definition one_active :: "orch_db \<Rightarrow> bool" where
  "one_active db \<longleftrightarrow> (\<forall>(i, s) \<in> set (jstat db). act db i = (if busy s then 1 else 0))"

definition live :: "orch_db \<Rightarrow> nat \<Rightarrow> bool" where
  "live db aid \<longleftrightarrow> (\<exists>a \<in> set (attempts db). a_id a = aid \<and> active a)"

definition set_stat :: "nat \<Rightarrow> job_status \<Rightarrow> (nat \<times> job_status) list \<Rightarrow> (nat \<times> job_status) list" where
  "set_stat i st = map (\<lambda>(k, s). (k, if k = i then st else s))"

lemma set_stat_twice: "set_stat i st (set_stat i st' xs) = set_stat i st xs"
  by (auto simp: set_stat_def)

section \<open>What the writes do to them\<close>

lemma insert_event_act:
  "insert_event now jid r ty p db = Inr db' \<Longrightarrow> attempts db' = attempts db \<and> jobs db' = jobs db"
  by (auto simp: insert_event_Inr)

lemma complete_artifact_act:
  "foldE (complete_artifact now jid aid) arts db = Inr db' \<Longrightarrow>
     attempts db' = attempts db \<and> jobs db' = jobs db"
  by (erule foldE_invariant) (auto simp: complete_artifact_def insert_artifact_Inr)

lemma set_job_status_act:
  assumes "set_job_status jid st now co res c d db = Inr db'"
  shows "attempts db' = attempts db" "jstat db' = set_stat jid st (jstat db)"
proof -
  show "attempts db' = attempts db" using assms by (auto simp: set_job_status_Inr)
  show "jstat db' = set_stat jid st (jstat db)"
    using assms by (auto simp: set_job_status_Inr jstat_def set_stat_def map_if_def)
qed

lemma count_deactivate:
  assumes "distinct (map a_id xs)" "a0 \<in> set xs" "active a0"
    and "\<And>a. a_job (f a) = a_job a" "\<And>a. \<not> active (f a)"
  shows "length (filter (\<lambda>a. a_job a = i \<and> active a) (map_if (\<lambda>a. a_id a = a_id a0) f xs)) +
           (if a_job a0 = i then 1 else 0) = length (filter (\<lambda>a. a_job a = i \<and> active a) xs)"
  using assms(1,2)
proof (induction xs)
  case Nil
  then show ?case by simp
next
  case (Cons x xs)
  show ?case
  proof (cases "x = a0")
    case True
    with Cons.prems have "map_if (\<lambda>a. a_id a = a_id a0) f xs = xs"
      unfolding map_if_def by (intro map_idI) (auto simp: image_iff)
    with True assms(3-5) show ?thesis by simp
  next
    case False
    with Cons.prems have "a0 \<in> set xs" "a_id x \<noteq> a_id a0" by (auto simp: image_iff)
    with Cons show ?thesis by (auto split: if_splits)
  qed
qed

lemma count_still_active:
  assumes "\<And>a. a_job (f a) = a_job a" "\<And>a. a \<in> set xs \<Longrightarrow> p a \<Longrightarrow> active (f a) = active a"
  shows "length (filter (\<lambda>a. a_job a = i \<and> active a) (map_if p f xs)) =
         length (filter (\<lambda>a. a_job a = i \<and> active a) xs)"
  using assms(2) by (induction xs) (auto simp: assms(1))

lemma set_attempt_status_jobs:
  "set_attempt_status aid st l e r db = Inr db' \<Longrightarrow> jobs db' = jobs db"
  by (auto simp: set_attempt_status_Inr)

lemma deactivate_act:
  assumes "set_attempt_status aid st l e r db = Inr db'" "st \<notin> {AAssigned, ARunning}"
    and "wf_db db" "live db aid" "owns db aid jid"
  shows "act db' i + (if jid = i then 1 else 0) = act db i"
proof -
  obtain a0 where a0: "a0 \<in> set (attempts db)" "a_id a0 = aid" "active a0"
    using assms(4) by (auto simp: live_def)
  have "owns db aid (a_job a0)" using a0 by (auto simp: owns_def)
  then have "a_job a0 = jid" using owns_unique [OF assms(3)] assms(5) by blast
  moreover have d: "distinct (map a_id (attempts db))"
    using assms(3) by (simp add: wf_db_def keys_ok_def)
  moreover obtain f where "attempts db' = map_if (\<lambda>a. a_id a = a_id a0) f (attempts db)"
      "\<And>a. a_job (f a) = a_job a" "\<And>a. \<not> active (f a)"
    using assms(1,2) a0(2) by (auto simp: set_attempt_status_Inr active_def intro!: that)
  ultimately show ?thesis
    using count_deactivate [OF d a0(1,3)] by (simp add: act_def)
qed

lemma reactivate_act:
  assumes "set_attempt_status aid ARunning l e r db = Inr db'" "wf_db db" "live db aid"
  shows "act db' i = act db i"
proof -
  have d: "distinct (map a_id (attempts db))" using assms(2) by (simp add: wf_db_def keys_ok_def)
  obtain f where f: "attempts db' = map_if (\<lambda>a. a_id a = aid) f (attempts db)"
      "\<And>a. a_job (f a) = a_job a" "\<And>a. active (f a)"
  proof (rule that)
    let ?f = "\<lambda>a. a\<lparr>a_status := ARunning,
                    a_lease := (case l of None \<Rightarrow> a_lease a | Some l \<Rightarrow> l),
                    a_ended := (case e of None \<Rightarrow> a_ended a | Some t \<Rightarrow> Some t),
                    a_reason := (case r of None \<Rightarrow> a_reason a | Some r \<Rightarrow> Some r)\<rparr>"
    show "attempts db' = map_if (\<lambda>a. a_id a = aid) ?f (attempts db)"
      using assms(1) by (simp add: set_attempt_status_Inr)
    show "a_job (?f a) = a_job a" "active (?f a)" for a by (simp_all add: active_def)
  qed
  have "active a" if "a \<in> set (attempts db)" "a_id a = aid" for a
  proof -
    obtain a1 where a1: "a1 \<in> set (attempts db)" "a_id a1 = aid" "active a1"
      using assms(3) by (auto simp: live_def)
    have "a = a1" using that a1(2) by (intro distinct_map_unique [OF d that(1) a1(1)]) simp
    with a1(3) show ?thesis by simp
  qed
  with f show ?thesis by (simp add: act_def count_still_active)
qed

section \<open>Settling an attempt\<close>

text \<open>One active attempt of the job ends, and the job moves to a status without a worker.\<close>

lemma settle_one_active:
  assumes inv: "one_active db" and st: "\<not> busy st"
    and a: "\<And>i. act db' i + (if jid = i then 1 else 0) = act db i"
    and j: "jstat db' = set_stat jid st (jstat db)"
  shows "one_active db'"
  unfolding one_active_def
proof (clarify)
  fix i s
  assume "(i, s) \<in> set (jstat db')"
  then obtain s0 where s0: "(i, s0) \<in> set (jstat db)" "s = (if i = jid then st else s0)"
    by (auto simp: j set_stat_def)
  have "act db i = (if busy s0 then 1 else 0)" using inv s0(1) by (auto simp: one_active_def)
  then show "act db' i = (if busy s then 1 else 0)"
    using a [of i] s0(2) st by (auto split: if_splits)
qed

definition settles :: "orch_db \<Rightarrow> nat \<Rightarrow> orch_db \<Rightarrow> bool" where
  "settles db aid db' \<longleftrightarrow> (\<exists>jid st. owns db aid jid \<and> \<not> busy st \<and>
     (\<forall>i. act db' i + (if jid = i then 1 else 0) = act db i) \<and>
     jstat db' = set_stat jid st (jstat db))"

lemma settlesI:
  assumes "owns db aid jid" "\<not> busy st" "jstat db' = set_stat jid st (jstat db)"
    and "\<And>i. act db' i + (if jid = i then 1 else 0) = act db i"
  shows "settles db aid db'"
  unfolding settles_def using assms by blast

lemma settles_one_active: "settles db aid db' \<Longrightarrow> one_active db \<Longrightarrow> one_active db'"
  unfolding settles_def using settle_one_active by blast

lemma same_one_active:
  assumes "\<And>i. act db' i = act db i" "jstat db' = jstat db"
  shows "one_active db' = one_active db"
  by (simp add: one_active_def assms)

lemma act_same: "attempts db' = attempts db \<Longrightarrow> act db' i = act db i"
  by (simp add: act_def)

lemma jstat_same: "jobs db' = jobs db \<Longrightarrow> jstat db' = jstat db"
  by (simp add: jstat_def)

lemma complete_settles:
  assumes "complete_attempt now node aid result arts db = Inr (v, db')"
    and "wf_db db" "live db aid"
  shows "settles db aid db'"
proof -
  from assms(1) obtain row where row: "get_owned_attempt db aid node = Inr row"
    by (auto simp: complete_attempt_def bindE_Inr)
  have own: "owns db aid (a_job row)" using get_owned_attempt_Inr [OF row] by simp
  obtain s r st co res c d db1 db2 where
    1: "set_attempt_status aid s None (Some now) r db = Inr db1" "s \<notin> {AAssigned, ARunning}"
    and 2: "set_job_status (a_job row) st now co res c d db1 = Inr db2" "\<not> busy st"
    and 3: "attempts db' = attempts db2 \<and> jobs db' = jobs db2"
    using assms(1) row
    by (cases "job_cancel_requested db (a_job row)")
      (fastforce simp: complete_attempt_def bindE_Inr Let_def busy_def
         dest!: insert_event_act complete_artifact_act)+
  show ?thesis
  proof (rule settlesI [OF own 2(2)])
    show "jstat db' = set_stat (a_job row) st (jstat db)"
      using set_job_status_act(2) [OF 2(1)] set_attempt_status_jobs [OF 1(1)] 3
      by (simp add: jstat_def)
    show "act db' i + (if a_job row = i then 1 else 0) = act db i" for i
      using deactivate_act [OF 1 assms(2,3) own, of i] set_job_status_act(1) [OF 2(1)] 3
      by (simp add: act_def)
  qed
qed

lemma fail_settles:
  assumes "fail_attempt now node aid code detail retryable M db = Inr (v, db')"
    and "wf_db db" "live db aid"
  shows "settles db aid db'"
proof -
  from assms(1) obtain row db1 db2 where
    row: "get_owned_attempt db aid node = Inr row"
    and 1: "set_attempt_status aid AFailed None (Some now) (Some (detail_or_code detail code)) db
              = Inr db1"
    and 2: "insert_event now (a_job row) (Some aid) ''attempt_failed''
              [(''error_code'', PStr code), (''error_detail'', opt_str detail)] db1 = Inr db2"
    by (auto simp: fail_attempt_def bindE_Inr Let_def)
  have own: "owns db aid (a_job row)" using get_owned_attempt_Inr [OF row] by simp
  obtain st co c d ty p db3 where
    3: "set_job_status (a_job row) st now co None c d db2 = Inr db3" "\<not> busy st"
    and 4: "insert_event now (a_job row) (Some aid) ty p db3 = Inr db'"
    using assms(1) row 1 2
    by (auto simp: fail_attempt_def bindE_Inr Let_def busy_def split: if_splits)
  note e2 = insert_event_act [OF 2] and e4 = insert_event_act [OF 4]
  show ?thesis
  proof (rule settlesI [OF own 3(2)])
    show "jstat db' = set_stat (a_job row) st (jstat db)"
      using set_job_status_act(2) [OF 3(1)] set_attempt_status_jobs [OF 1] e2 e4
      by (simp add: jstat_def)
    show "act db' i + (if a_job row = i then 1 else 0) = act db i" for i
      using deactivate_act [OF 1 _ assms(2,3) own, of i] set_job_status_act(1) [OF 3(1)] e2 e4
      by (simp add: act_def)
  qed
qed

text \<open>Progress keeps the attempt active; it is refused once cancellation is requested, and of
  the other two busy statuses the job moves to running.\<close>

lemma act_pos_live:
  assumes "live db aid" "owns db aid jid" "wf_db db"
  shows "0 < act db jid"
proof -
  obtain a0 where a0: "a0 \<in> set (attempts db)" "a_id a0 = aid" "active a0"
    using assms(1) by (auto simp: live_def)
  have "owns db aid (a_job a0)" using a0 by (auto simp: owns_def)
  then have "a_job a0 = jid" using owns_unique [OF assms(3)] assms(2) by blast
  with a0 show ?thesis by (auto simp: act_def filter_empty_conv)
qed

lemma progress_one_active:
  assumes "attempt_progress now node aid pr ls db = Inr db'"
    and "wf_db db" "one_active db" "live db aid"
  shows "one_active db'"
proof -
  from assms(1) obtain row db1 db2 where
    row: "get_owned_attempt db aid node = Inr row"
    and 1: "set_attempt_status aid ARunning (Some (now + seconds ls)) None None db = Inr db1"
    and 2: "set_job_status (a_job row) Running now None None None None db1 = Inr db2"
    and 3: "insert_event now (a_job row) (Some aid) ''progress'' pr db2 = Inr db'"
    by (auto simp: attempt_progress_def bindE_Inr split: if_splits)
  have own: "owns db aid (a_job row)" using get_owned_attempt_Inr [OF row] by simp
  note pos = act_pos_live [OF assms(4) own assms(2)]
  have a: "act db' i = act db i" for i
    using reactivate_act [OF 1 assms(2,4), of i] set_job_status_act(1) [OF 2] insert_event_act [OF 3]
    by (simp add: act_def)
  have j: "jstat db' = set_stat (a_job row) Running (jstat db)"
    using set_job_status_act(2) [OF 2] set_attempt_status_jobs [OF 1] insert_event_act [OF 3]
    by (simp add: jstat_def)
  show ?thesis
    using assms(3) pos by (fastforce simp: one_active_def a j set_stat_def busy_def split: if_splits)
qed

section \<open>Sweeping, claiming, creating, cancelling\<close>

lemma sweep_one_effect:
  assumes "sweep_one now M att (st, db) = Inr (st', db')" "wf_db db"
    and "owns db (a_id att) (a_job att)" "live db (a_id att)"
  shows "settles db (a_id att) db'" "\<And>aid. aid \<noteq> a_id att \<Longrightarrow> live db' aid = live db aid"
proof -
  from assms(1) obtain db1 db2 s co c d db3 ty p where
    1: "set_attempt_status (a_id att) AExpired None (Some now) None db = Inr db1"
    and 2: "insert_event now (a_job att) (Some (a_id att)) ''lease_expired''
              [(''node'', PStr (a_node att))] db1 = Inr db2"
    and 3: "set_job_status (a_job att) s now co None c d db2 = Inr db3" "\<not> busy s"
    and 4: "insert_event now (a_job att) (Some (a_id att)) ty p db3 = Inr db'"
    by (auto simp: sweep_one_def bindE_Inr Let_def busy_def split: if_splits)
  note e2 = insert_event_act [OF 2] and e4 = insert_event_act [OF 4]
  show "settles db (a_id att) db'"
  proof (rule settlesI [OF assms(3) 3(2)])
    show "jstat db' = set_stat (a_job att) s (jstat db)"
      using set_job_status_act(2) [OF 3(1)] set_attempt_status_jobs [OF 1] e2 e4
      by (simp add: jstat_def)
    show "act db' i + (if a_job att = i then 1 else 0) = act db i" for i
      using deactivate_act [OF 1 _ assms(2,4,3), of i] set_job_status_act(1) [OF 3(1)] e2 e4
      by (simp add: act_def)
  qed
  have "attempts db' = attempts db1" using e2 e4 set_job_status_act(1) [OF 3(1)] by simp
  then show "live db' aid = live db aid" if "aid \<noteq> a_id att" for aid
    using 1 that by (auto simp: live_def set_attempt_status_Inr set_map_if)
qed

lemma sweep_one_active:
  assumes "foldE (sweep_one now M) rows (st, db) = Inr (st', db')"
    and "orch_inv M db" "one_active db" "distinct (map a_id rows)"
    and "\<And>att. att \<in> set rows \<Longrightarrow> owns db (a_id att) (a_job att) \<and> live db (a_id att)"
  shows "one_active db'"
  using assms
proof (induction rows arbitrary: st db)
  case Nil
  then show ?case by simp
next
  case (Cons att rows)
  from Cons.prems(1) obtain st1 db1 where
    1: "sweep_one now M att (st, db) = Inr (st1, db1)"
    and r: "foldE (sweep_one now M) rows (st1, db1) = Inr (st', db')"
    by (auto simp: bindE_Inr)
  have o: "owns db (a_id att) (a_job att)" "live db (a_id att)" using Cons.prems(5) by auto
  have wf: "wf_db db" using Cons.prems(2) by (simp add: orch_inv_def)
  have ev: "evolves M db db1" using 1 o(1) by (rule sweep_one_evolves)
  note eff = sweep_one_effect [OF 1 wf o]
  show ?case
  proof (rule Cons.IH [OF r evolves_inv [OF ev Cons.prems(2)] settles_one_active [OF eff(1) Cons.prems(3)]])
    show "distinct (map a_id rows)" using Cons.prems(4) by simp
    show "owns db1 (a_id a) (a_job a) \<and> live db1 (a_id a)" if "a \<in> set rows" for a
      using Cons.prems(4,5) that eff(2) [of "a_id a"] evolves_owns [OF ev] by (auto simp: image_iff)
  qed
qed

lemma claim_one_one_active:
  assumes "claim_one now le node cap lab row db = Inr (c, db')" "wf_db db"
    and "one_active db" "queued_job db (j_id row)"
  shows "one_active db'"
proof -
  from assms(1) obtain aid db1 db2 p where
    1: "insert_attempt now le node (j_id row) db = Inr (aid, db1)"
    and 2: "set_job_status (j_id row) Assigned now None None None None db1 = Inr db2"
    and 3: "insert_event now (j_id row) (Some aid) ''job_assigned'' p db2 = Inr db'"
    by (auto simp: claim_one_def bindE_Inr)
  have a: "act db' i = act db i + (if i = j_id row then 1 else 0)" for i
    using 1 set_job_status_act(1) [OF 2] insert_event_act [OF 3]
    by (auto simp: insert_attempt_def Let_def act_def active_def split: if_splits)
  have j: "jstat db' = set_stat (j_id row) Assigned (jstat db)"
    using set_job_status_act(2) [OF 2] insert_attempt_keeps(3) [OF 1 assms(2)] insert_event_act [OF 3]
    by (simp add: jstat_def)
  have "act db (j_id row) = 0"
    using assms(3,4) by (force simp: one_active_def queued_job_def jstat_def busy_def)
  then show ?thesis
    using assms(3) by (fastforce simp: one_active_def a j set_stat_def busy_def split: if_splits)
qed

lemma claim_loop_one_active:
  assumes "claim_loop now le node n cap lab rows claimed db = Inr (cs, db')"
    and "wf_db db" "one_active db" "distinct (map j_id rows)"
    and "\<And>r. r \<in> set rows \<Longrightarrow> queued_job db (j_id r)"
  shows "one_active db'"
  using assms
proof (induction rows arbitrary: claimed db)
  case Nil
  then show ?case by simp
next
  case (Cons row rows)
  show ?case
  proof (cases "n \<le> int (length claimed) \<or> \<not> job_matches_node row node cap lab")
    case True
    with Cons.prems Cons.IH [of claimed db] show ?thesis by (auto split: if_splits)
  next
    case False
    with Cons.prems(1) obtain c db1 where
      1: "claim_one now le node cap lab row db = Inr (c, db1)"
      and r: "claim_loop now le node n cap lab rows (claimed @ [c]) db1 = Inr (cs, db')"
      by (auto simp: bindE_Inr)
    have q: "queued_job db (j_id row)" using Cons.prems(5) by simp
    then have hj: "has_job db (j_id row)" unfolding queued_job_def has_job_def by (metis imageI)
    obtain c' db1' where c': "claim_one now le node cap lab row db = Inr (c', db1')" "wf_db db1'"
      and j: "jobs db1' = map_if (\<lambda>j. j_id j = j_id row)
          (\<lambda>j. j\<lparr>j_status := Assigned, j_updated := now, j_error_code := None, j_error_detail := None\<rparr>)
          (jobs db)"
      using claim_one_result [OF Cons.prems(2) hj] by metis
    have db1: "db1' = db1" using 1 c'(1) by simp
    have "queued_job db1 (j_id r)" if "r \<in> set rows" for r
    proof -
      have "j_id r \<noteq> j_id row" using Cons.prems(4) that by (auto simp: image_iff)
      moreover have "queued_job db (j_id r)" using Cons.prems(5) that by simp
      ultimately show ?thesis using j unfolding db1 by (force simp: queued_job_def set_map_if)
    qed
    with Cons.IH [OF r] c'(2) claim_one_one_active [OF 1 Cons.prems(2,3) q] Cons.prems(4) db1
    show ?thesis by simp
  qed
qed

lemma claim_jobs_one_active:
  assumes "claim_jobs now node n ls cap lab db = Inr (cs, db')" "wf_db db" "one_active db"
  shows "one_active db'"
proof -
  let ?db1 = "touch_node_lease now node cap lab db"
  have d: "distinct (map j_id (queued_rows ?db1))"
    using assms(2)
    by (simp add: queued_rows_def claim_order_distinct touch_node_lease_frame wf_db_def keys_ok_def
        distinct_map_filter)
  have "one_active ?db1 = one_active db"
    by (rule same_one_active) (simp_all add: act_def jstat_def touch_node_lease_frame)
  then show ?thesis
    using assms d
    by (intro claim_loop_one_active [of now "now + seconds ls" node n cap lab "queued_rows ?db1"
          "[]" ?db1 cs db'])
      (auto simp: claim_jobs_def Let_def touch_keeps queued_rows_def queued_job_def)
qed

lemma create_one_active:
  assumes "create_job now ty payload prio target rb db = Inr (v, db')" "wf_db db" "one_active db"
  shows "one_active db'"
proof -
  have f1: "\<not> has_job db (next_id db)"
    using assms(2) by (auto simp: wf_db_def keys_ok_def has_job_def)
  have f2: "next_id db \<notin> a_job ` set (attempts db)"
    using assms(2) f1 unfolding wf_db_def refs_ok_def by (metis imageE)
  have "act db (next_id db) = 0" using f2 by (force simp: act_def filter_empty_conv)
  moreover obtain d where
    d: "insert_event now (next_id db) None ''job_created'' [(''type'', PStr ty)] d = Inr db'"
      "attempts d = attempts db" "jstat d = jstat db @ [(next_id db, Queued)]"
    using assms(1) by (auto simp: create_job_def bindE_Inr Let_def jstat_def intro!: that)
  have "attempts db' = attempts db" "jstat db' = jstat db @ [(next_id db, Queued)]"
    using insert_event_act [OF d(1)] d(2,3) by (simp_all add: jstat_def)
  ultimately show ?thesis
    using assms(3) act_same [of db' db] by (simp add: one_active_def busy_def)
qed

lemma cancel_one_active:
  assumes "cancel_job now jid db = Inr (v, db')" "wf_db db" "one_active db"
  shows "one_active db'"
proof (cases "db' = db")
  case False
  with assms(1) obtain j where j: "find_job db jid = Some j"
    by (auto simp: cancel_job_def bindE_Inr split: option.splits)
  define st where "st = (if j_status j = Queued then Canceled else CancelRequested)"
  from j False assms(1) obtain f ty where
    f: "insert_event now jid None ty [] (db\<lparr>jobs := map_if (\<lambda>j. j_id j = jid) f (jobs db)\<rparr>) = Inr db'"
      "\<And>j. j_id (f j) = j_id j" "\<And>j. j_status (f j) = st" "busy (j_status j) = busy st"
    by (cases "j_status j") (auto simp: cancel_job_def bindE_Inr st_def busy_def intro!: that)
  have st: "attempts db' = attempts db" "jstat db' = set_stat jid st (jstat db)"
    using insert_event_act [OF f(1)] f(2,3) by (simp_all add: jstat_def set_stat_def map_if_def)
  have jm: "j \<in> set (jobs db)" "j_id j = jid"
    using find_Some_iff' [OF j [unfolded find_job_def]] by auto
  have "distinct (map fst (jstat db))"
    using assms(2) by (simp add: wf_db_def keys_ok_def jstat_def comp_def)
  moreover have "(jid, j_status j) \<in> set (jstat db)" using jm by (auto simp: jstat_def)
  ultimately have u: "\<And>s. (jid, s) \<in> set (jstat db) \<Longrightarrow> s = j_status j"
    by (metis eq_key_imp_eq_value)
  then show ?thesis
    using assms(3) f(4) by (fastforce simp: one_active_def st act_same [OF st(1)] set_stat_def
        split: if_splits)
qed (use assms in simp)

lemma purge_one_active: "one_active db \<Longrightarrow> one_active (purge X db)"
proof -
  assume a: "one_active db"
  have "act (purge X db) i = act db i" if "i \<notin> X" for i
    using that by (auto simp: act_def purge_def intro!: arg_cong [where f = length] filter_cong)
  moreover have "jstat (purge X db) = filter (\<lambda>(i, s). i \<notin> X) (jstat db)"
    by (simp add: jstat_def purge_def filter_map comp_def)
  ultimately show ?thesis using a by (auto simp: one_active_def)
qed

section \<open>Runs in which only live attempts report\<close>

inductive live_step :: "int \<Rightarrow> orch_db \<Rightarrow> orch_db \<Rightarrow> bool" for M where
  "create_job now ty payload prio target rb db = Inr (v, db') \<Longrightarrow> live_step M db db'"
| "cancel_job now jid db = Inr (v, db') \<Longrightarrow> live_step M db db'"
| "claim_jobs now node n ls cap lab db = Inr (cs, db') \<Longrightarrow> live_step M db db'"
| "attempt_progress now node aid pr ls db = Inr db' \<Longrightarrow> live db aid \<Longrightarrow> live_step M db db'"
| "complete_attempt now node aid res arts db = Inr (v, db') \<Longrightarrow> live db aid \<Longrightarrow> live_step M db db'"
| "fail_attempt now node aid code detail retryable M db = Inr (v, db') \<Longrightarrow> live db aid
     \<Longrightarrow> live_step M db db'"
| "sweep_expired_attempts now M db = Inr (st, db') \<Longrightarrow> live_step M db db'"
| "prune_history now d db = Inr (ps, db') \<Longrightarrow> live_step M db db'"
| "try_acquire_leader_lease cfg now name db = (b, db') \<Longrightarrow> live_step M db db'"

lemma live_step_orch: "live_step M db db' \<Longrightarrow> orch_step M db db'"
  by (induction rule: live_step.induct) (auto intro: orch_step.intros)

definition live_inv :: "int \<Rightarrow> orch_db \<Rightarrow> bool" where
  "live_inv M db \<longleftrightarrow> orch_inv M db \<and> one_active db"

lemma sweep_all_one_active:
  assumes "sweep_expired_attempts now M db = Inr (st, db')" "orch_inv M db" "one_active db"
  shows "one_active db'"
proof (rule sweep_one_active [OF assms(1) [unfolded sweep_expired_attempts_def] assms(2,3)])
  show "distinct (map a_id (expired_rows now db))"
    using assms(2) by (simp add: orch_inv_def wf_db_def keys_ok_def expired_rows_def distinct_map_filter)
  show "owns db (a_id a) (a_job a) \<and> live db (a_id a)" if "a \<in> set (expired_rows now db)" for a
    using that by (auto simp: expired_rows_def owns_def live_def active_def)
qed

lemma live_inv_step:
  assumes "live_step M db db'" "live_inv M db"
  shows "live_inv M db'"
proof -
  have inv: "orch_inv M db" and wf: "wf_db db" and one: "one_active db"
    using assms(2) by (auto simp: live_inv_def orch_inv_def)
  have "one_active db'"
    using assms(1) wf one inv
  proof (induction rule: live_step.induct)
    case (8 now d db ps db')
    then show ?case using prune_history_spec [OF 8(2), of now d] by (auto intro: purge_one_active)
  next
    case (9 cfg now name db b db')
    have "attempts db' = attempts db" "jobs db' = jobs db"
      using 9(1) by (auto simp: try_acquire_leader_lease_def Let_def split: option.splits if_splits)
    then show ?case using 9(3) by (simp add: one_active_def act_def jstat_def)
  qed (auto intro: create_one_active cancel_one_active claim_jobs_one_active progress_one_active
        complete_settles fail_settles settles_one_active sweep_all_one_active)
  then show ?thesis using orch_inv_step [OF live_step_orch [OF assms(1)] inv] by (simp add: live_inv_def)
qed

lemma live_inv_empty: "1 \<le> M \<Longrightarrow> live_inv M empty_db"
  by (simp add: live_inv_def orch_inv_empty) (simp add: one_active_def jstat_def empty_db_def)

interpretation live: inductive_invariant "\<lambda>db. db = empty_db \<and> 1 \<le> M" "live_step M" "live_inv M" for M
  by unfold_locales (auto intro: live_inv_empty live_inv_step)

end
