(* ===== verification/Job_Demo.thy ===== *)
theory Job_Demo
  imports Job_Discipline
begin

text \<open>
  A concrete run of the controller: a job is created, a node claims it and goes silent, the
  sweeper gives the job back, a second node claims it. The databases along the run are
  reachable; the properties of the job orchestration are applied to them, and the late report
  of the first node is the counterexample of the last section.
\<close>

definition result_db :: "orch_error + ('a \<times> orch_db) \<Rightarrow> orch_db" where
  "result_db r = (case r of Inl e \<Rightarrow> empty_db | Inr (v, db) \<Rightarrow> db)"

lemma result_dbI: "\<not> isl r \<Longrightarrow> r = Inr (fst (projr r), result_db r)"
  by (cases r) (auto simp: result_db_def)

lemma reach_step: "orch_reachable M db \<Longrightarrow> orch_step M db db' \<Longrightarrow> orch_reachable M db'"
  unfolding orch_reachable_def by (rule rtranclp.rtrancl_into_rtrancl)

lemma reach_empty: "orch_reachable M empty_db"
  by (simp add: orch_reachable_def)

definition demo_new :: orch_db where
  "demo_new = result_db (create_job 1 ''ping'' [] 5 ''auto'' None empty_db)"

definition demo_claimed :: orch_db where
  "demo_claimed = result_db (claim_jobs 2 ''n1'' 1 60 None None demo_new)"

definition demo_swept :: orch_db where
  "demo_swept = result_db (sweep_expired_attempts 70000000 3 demo_claimed)"

definition demo_again :: orch_db where
  "demo_again = result_db (claim_jobs 70000001 ''n2'' 1 60 None None demo_swept)"

definition demo_late :: orch_db where
  "demo_late = (case attempt_progress 70000002 ''n1'' 2 [] 60 demo_again of Inl e \<Rightarrow> empty_db | Inr db \<Rightarrow> db)"

definition demo_done :: orch_db where
  "demo_done = result_db (complete_attempt 70000003 ''n2'' 6 [] [] demo_again)"

definition demo_undone :: orch_db where
  "demo_undone = result_db (fail_attempt 70000004 ''n1'' 2 ''E'' None True 3 demo_done)"

definition demo_cancel :: orch_db where
  "demo_cancel = result_db (cancel_job 3 0 demo_claimed)"

definition demo_cancel_lost :: orch_db where
  "demo_cancel_lost = result_db (sweep_expired_attempts 70000000 3 demo_cancel)"

lemmas demo_defs = demo_new_def demo_claimed_def demo_swept_def demo_again_def demo_late_def
  demo_done_def demo_undone_def demo_cancel_def demo_cancel_lost_def

lemmas demo_steps = result_dbI [THEN orch_step.create] result_dbI [THEN orch_step.cancel]
  result_dbI [THEN orch_step.claim] result_dbI [THEN orch_step.sweep]
  result_dbI [THEN orch_step.complete] result_dbI [THEN orch_step.fail]

lemma demo_runs:
  "\<not> isl (create_job 1 ''ping'' [] 5 ''auto'' None empty_db)"
  "\<not> isl (claim_jobs 2 ''n1'' 1 60 None None demo_new)"
  "\<not> isl (sweep_expired_attempts 70000000 3 demo_claimed)"
  "\<not> isl (claim_jobs 70000001 ''n2'' 1 60 None None demo_swept)"
  "\<not> isl (complete_attempt 70000003 ''n2'' 6 [] [] demo_again)"
  "\<not> isl (fail_attempt 70000004 ''n1'' 2 ''E'' None True 3 demo_done)"
  "\<not> isl (cancel_job 3 0 demo_claimed)"
  "\<not> isl (sweep_expired_attempts 70000000 3 demo_cancel)"
  by code_simp+

lemma demo_late_run: "attempt_progress 70000002 ''n1'' 2 [] 60 demo_again = Inr demo_late"
proof -
  have "\<not> isl (attempt_progress 70000002 ''n1'' 2 [] 60 demo_again)" by code_simp
  then show ?thesis by (cases "attempt_progress 70000002 ''n1'' 2 [] 60 demo_again")
      (simp_all add: demo_late_def)
qed

lemma demo_reachable:
  shows "orch_reachable 3 demo_new" "orch_reachable 3 demo_claimed" "orch_reachable 3 demo_swept"
    "orch_reachable 3 demo_again" "orch_reachable 3 demo_late" "orch_reachable 3 demo_done"
    "orch_reachable 3 demo_undone" "orch_reachable 3 demo_cancel" "orch_reachable 3 demo_cancel_lost"
proof -
  note [intro] = reach_step demo_steps
  show 1: "orch_reachable 3 demo_new"
    unfolding demo_new_def using demo_runs(1) reach_empty by blast
  show 2: "orch_reachable 3 demo_claimed"
    unfolding demo_claimed_def using demo_runs(2) 1 by blast
  show 3: "orch_reachable 3 demo_swept"
    unfolding demo_swept_def using demo_runs(3) 2 by blast
  show 4: "orch_reachable 3 demo_again"
    unfolding demo_again_def using demo_runs(4) 3 by blast
  show "orch_reachable 3 demo_late"
    using orch_step.progress [OF demo_late_run] 4 by blast
  show 5: "orch_reachable 3 demo_done"
    unfolding demo_done_def using demo_runs(5) 4 by blast
  show "orch_reachable 3 demo_undone"
    unfolding demo_undone_def using demo_runs(6) 5 by blast
  show 6: "orch_reachable 3 demo_cancel"
    unfolding demo_cancel_def using demo_runs(7) 2 by blast
  show "orch_reachable 3 demo_cancel_lost"
    unfolding demo_cancel_lost_def using demo_runs(8) 6 by blast
qed

definition live_reachable :: "int \<Rightarrow> orch_db \<Rightarrow> bool" where
  "live_reachable M db \<longleftrightarrow> (live_step M)\<^sup>*\<^sup>* empty_db db"

lemma live_reachable_inv: "live_reachable M db \<Longrightarrow> 1 \<le> M \<Longrightarrow> live_inv M db"
  unfolding live_reachable_def using live.inv_reachable by blast

lemma live_reach_empty: "live_reachable M empty_db"
  by (simp add: live_reachable_def)

lemma live_reach_step: "live_reachable M db \<Longrightarrow> live_step M db db' \<Longrightarrow> live_reachable M db'"
  unfolding live_reachable_def by (rule rtranclp.rtrancl_into_rtrancl)

lemma demo_live: "live_reachable 3 demo_claimed" "live_reachable 3 demo_again"
proof -
  have 1: "live_step 3 empty_db demo_new"
    unfolding demo_new_def by (rule live_step.intros(1) [OF result_dbI [OF demo_runs(1)]])
  have 2: "live_step 3 demo_new demo_claimed"
    unfolding demo_claimed_def by (rule live_step.intros(3) [OF result_dbI [OF demo_runs(2)]])
  have 3: "live_step 3 demo_claimed demo_swept"
    unfolding demo_swept_def by (rule live_step.intros(7) [OF result_dbI [OF demo_runs(3)]])
  have 4: "live_step 3 demo_swept demo_again"
    unfolding demo_again_def by (rule live_step.intros(3) [OF result_dbI [OF demo_runs(4)]])
  note l1 = live_reach_step [OF live_reach_empty 1]
  show l2: "live_reachable 3 demo_claimed" by (rule live_reach_step [OF l1 2])
  show "live_reachable 3 demo_again" by (rule live_reach_step [OF live_reach_step [OF l2 3] 4])
qed

end
