(* ===== verification/Job_Properties.thy ===== *)
theory Job_Properties
  imports Job_Demo Clock
begin

text \<open>
  The properties of the job orchestration: what holds in every database the controller can
  reach, what each operation does on every branch, and the runs on which the code does not do
  what it means to.
\<close>

section \<open>Sorting by priority\<close>

lemma sorted_wrt_insort:
  fixes f g :: "'a \<Rightarrow> 'b :: linorder"
  assumes "sorted_wrt (\<lambda>x y. f x < f y \<or> f x = f y \<and> g x \<le> g y) xs"
    and "\<And>y. y \<in> set xs \<Longrightarrow> g x \<le> g y"
  shows "sorted_wrt (\<lambda>x y. f x < f y \<or> f x = f y \<and> g x \<le> g y) (insort_key f x xs)"
  using assms
proof (induction xs)
  case Nil
  then show ?case by simp
next
  case (Cons y ys)
  show ?case
  proof (cases "f x \<le> f y")
    case True
    with Cons.prems show ?thesis by (fastforce simp: order_le_less)
  next
    case False
    with Cons show ?thesis by (auto simp: set_insort_key)
  qed
qed

lemma sorted_wrt_sort_key:
  fixes f g :: "'a \<Rightarrow> 'b :: linorder"
  shows "sorted (map g xs) \<Longrightarrow>
     sorted_wrt (\<lambda>x y. f x < f y \<or> f x = f y \<and> g x \<le> g y) (sort_key f xs)"
  by (induction xs) (auto intro!: sorted_wrt_insort)

lemma claim_order_sorted:
  "sorted_wrt (\<lambda>r s. - j_priority r < - j_priority s \<or>
     - j_priority r = - j_priority s \<and> j_created r \<le> j_created s) (claim_order js)"
  unfolding claim_order_def by (rule sorted_wrt_sort_key) simp

lemma sorted_wrt_take:
  assumes "sorted_wrt P xs" "r \<in> set (take n xs)" "s \<in> set xs" "s \<notin> set (take n xs)"
  shows "P r s"
proof -
  have "s \<in> set (drop n xs)"
    using assms(3,4) by (metis Un_iff append_take_drop_id set_append)
  moreover have "sorted_wrt P (take n xs @ drop n xs)" using assms(1) by simp
  ultimately show ?thesis using assms(2) unfolding sorted_wrt_append by blast
qed

section \<open>Invariants of reachable databases\<close>

text \<open>No job is ever attempted more than \<open>max_attempts\<close> times, whatever the order of the
  transactions, the clock and the callers; and a queued job always has an attempt left.\<close>

theorem attempts_bounded:
  assumes "orch_reachable M db" "1 \<le> M" "j \<in> set (jobs db)"
  shows "int (count_attempts db (j_id j)) \<le> M \<and>
    (j_status j = Queued \<longrightarrow> int (count_attempts db (j_id j)) < M)"
  using reachable_inv [OF assms(1,2)] assms(3) by (auto simp: orch_inv_def bounded_def)

lemma attempts_bounded_witness:
  "int (count_attempts demo_again 0) \<le> 3"
proof -
  have j: "hd (jobs demo_again) \<in> set (jobs demo_again)" "j_id (hd (jobs demo_again)) = 0"
    by code_simp+
  show ?thesis using attempts_bounded [OF demo_reachable(4) _ j(1)] by (simp add: j(2))
qed

text \<open>C8. Referential integrity of every reachable database: ids are unique, every attempt,
  event and artifact names a job that exists, an attempt that an event or artifact names
  belongs to the same job, and the attempts of a job are numbered 1, 2, 3 and so on without
  gap or repetition.\<close>

theorem reachable_integrity:
  assumes "orch_reachable M db" "1 \<le> M"
  shows "distinct (map j_id (jobs db)) \<and> distinct (map a_id (attempts db)) \<and>
    distinct (map e_id (events db)) \<and>
    (\<forall>a \<in> set (attempts db). has_job db (a_job a)) \<and>
    (\<forall>e \<in> set (events db). ref_ok db (e_job e) (e_attempt e)) \<and>
    (\<forall>r \<in> set (artifacts db). ref_ok db (r_job r) (r_attempt r)) \<and>
    (\<forall>jid. map a_number (attempts_of db jid) = [1..<Suc (count_attempts db jid)])"
  using reachable_inv [OF assms] by (auto simp: orch_inv_def wf_defs simp del: upt_Suc)

lemma reachable_integrity_witness:
  "map a_number (attempts_of demo_again 0) = [1..<Suc (count_attempts demo_again 0)]"
  using reachable_integrity [OF demo_reachable(4)] by simp

text \<open>C1. Mutual exclusion of workers. In a run in which nodes report only on attempts that are
  still active, a job that is assigned, running or being cancelled has exactly one active
  attempt, and a job in any other status has none.\<close>

theorem one_worker:
  assumes "live_reachable M db" "1 \<le> M" "j \<in> set (jobs db)"
  shows "length (filter active (attempts_of db (j_id j))) = (if busy (j_status j) then 1 else 0)"
proof -
  have "one_active db" using live_reachable_inv [OF assms(1,2)] by (simp add: live_inv_def)
  moreover have "filter active (attempts_of db i) = filter (\<lambda>a. a_job a = i \<and> active a) (attempts db)"
    for i by (simp add: attempts_of_def conj_commute)
  ultimately show ?thesis using assms(3) by (auto simp: one_active_def act_def jstat_def)
qed

lemma one_worker_witness:
  "length (filter active (attempts_of demo_again 0)) = 1"
proof -
  have j: "hd (jobs demo_again) \<in> set (jobs demo_again)" "j_id (hd (jobs demo_again)) = 0"
    "busy (j_status (hd (jobs demo_again)))"
    by code_simp+
  show ?thesis using one_worker [OF demo_live(2) _ j(1)] j(2,3) by simp
qed

section \<open>Claiming\<close>

text \<open>C7. Claiming never fails on a reachable database, and hands out the best matching jobs:
  as many as were asked for and exist, each queued and matching the node, none twice, and no
  matching queued job that was left is of higher priority, or older at equal priority, than
  one that was handed out.\<close>

theorem claim_jobs_best:
  assumes "orch_reachable M db" "1 \<le> M"
  shows "\<exists>cs db' rows. claim_jobs now node n ls cap lab db = Inr (cs, db') \<and>
    map (\<lambda>c. j_id (v_job (c_job c))) cs = map j_id rows \<and> distinct (map j_id rows) \<and>
    set rows \<subseteq> {j \<in> set (jobs db). j_status j = Queued \<and> job_matches_node j node cap lab} \<and>
    length rows = min (nat n) (length (filter (\<lambda>j. j_status j = Queued \<and>
      job_matches_node j node cap lab) (jobs db))) \<and>
    (\<forall>r \<in> set rows. \<forall>s \<in> set (jobs db). j_status s = Queued \<and> job_matches_node s node cap lab \<and>
      s \<notin> set rows \<longrightarrow>
      j_priority s < j_priority r \<or> j_priority s = j_priority r \<and> j_created r \<le> j_created s)"
proof -
  let ?q = "filter (\<lambda>r. job_matches_node r node cap lab) (queued_rows db)"
  have inv: "wf_db db" "bounded M db" using reachable_inv [OF assms] by (auto simp: orch_inv_def)
  obtain cs db' where c: "claim_jobs now node n ls cap lab db = Inr (cs, db')"
    "map (\<lambda>c. j_id (v_job (c_job c))) cs = map j_id (take (nat n) ?q)"
    using claim_jobs_spec [OF inv] by blast
  have q: "set ?q = {j \<in> set (jobs db). j_status j = Queued \<and> job_matches_node j node cap lab}"
    by (auto simp: queued_rows_def)
  have "distinct (map j_id (queued_rows db))"
    using inv(1) by (simp add: queued_rows_def claim_order_distinct wf_defs distinct_map_filter)
  then have d: "distinct (map j_id (take (nat n) ?q))"
    by (metis distinct_map_filter distinct_take take_map)
  have m: "mset (queued_rows db) = mset (filter (\<lambda>j. j_status j = Queued) (jobs db))"
    by (simp add: queued_rows_def claim_order_def)
  have "mset ?q = mset (filter (\<lambda>j. job_matches_node j node cap lab)
      (filter (\<lambda>j. j_status j = Queued) (jobs db)))"
    by (simp only: mset_filter m)
  then have l: "length ?q = length (filter (\<lambda>j. j_status j = Queued \<and>
      job_matches_node j node cap lab) (jobs db))"
    using mset_eq_length by (fastforce simp: conj_commute)
  have s: "sorted_wrt (\<lambda>r s. - j_priority r < - j_priority s \<or>
     - j_priority r = - j_priority s \<and> j_created r \<le> j_created s) ?q"
    unfolding queued_rows_def by (rule sorted_wrt_filter [OF claim_order_sorted])
  show ?thesis
  proof (intro exI conjI ballI impI)
    show "set (take (nat n) ?q) \<subseteq> {j \<in> set (jobs db). j_status j = Queued \<and> job_matches_node j node cap lab}"
      using q set_take_subset by fastforce
  next
    fix r s
    assume r: "r \<in> set (take (nat n) ?q)" and "s \<in> set (jobs db)"
      and "j_status s = Queued \<and> job_matches_node s node cap lab \<and> s \<notin> set (take (nat n) ?q)"
    then have "s \<in> set ?q" "s \<notin> set (take (nat n) ?q)" unfolding q by simp_all
    from sorted_wrt_take [OF s r this]
    show "j_priority s < j_priority r \<or> j_priority s = j_priority r \<and> j_created r \<le> j_created s"
      by linarith
  qed (use c d l in auto)
qed

lemma claim_jobs_best_witness:
  "\<exists>cs db'. claim_jobs 9 ''n2'' 2 60 None None demo_swept = Inr (cs, db')"
  using claim_jobs_best [OF demo_reachable(3), of 9 "''n2''" 2 60 None None] by auto

section \<open>Sweeping\<close>

definition expire :: "instant \<Rightarrow> attempt \<Rightarrow> attempt" where
  "expire now a = a\<lparr>a_status := AExpired, a_ended := Some now\<rparr>"

lemma filter_map_if_other:
  assumes "\<And>x. p x \<Longrightarrow> \<not> q x \<and> \<not> q (f x)"
  shows "filter q (map_if p f xs) = filter q xs"
  using assms by (induction xs) auto

definition swept_status :: "int \<Rightarrow> orch_db \<Rightarrow> nat \<Rightarrow> job_status" where
  "swept_status M db i = (if int (count_attempts db i) < M then Queued else TimedOut)"

lemma sweep_one_result:
  assumes wf: "wf_db db" and own: "owns db (a_id att) (a_job att)"
  obtains st' db' f where "sweep_one now M att (st, db) = Inr (st', db')"
    and "attempts db' = map_if (\<lambda>a. a_id a = a_id att) (expire now) (attempts db)"
    and "jobs db' = map_if (\<lambda>j. j_id j = a_job att) f (jobs db)"
    and "\<And>j. j_id (f j) = j_id j" "\<And>j. j_status (f j) = swept_status M db (a_job att)"
    and "s_expired st' = Suc (s_expired st)"
    and "s_requeued st' + s_timed_out st' = Suc (s_requeued st + s_timed_out st)"
proof -
  let ?jid = "a_job att" and ?aid = "a_id att"
  have hj: "has_job db ?jid"
    using wf own by (auto simp: wf_db_def refs_ok_def owns_def)
  obtain db1 where 1: "set_attempt_status ?aid AExpired None (Some now) None db = Inr db1"
    using owns_has_attempt [OF own] by (simp add: set_attempt_status_def)
  have e1: "evolves M db db1" using 1 by (rule evolves_set_attempt_status)
  have o1: "owns db1 ?aid ?jid" using own by (simp add: evolves_owns [OF e1])
  obtain db2 where 2: "insert_event now ?jid (Some ?aid) ''lease_expired''
      [(''node'', PStr (a_node att))] db1 = Inr db2"
    using hj owns_has_attempt [OF o1]
    by (simp add: insert_event_def attempt_ref_ok_def evolves_has_job [OF e1])
  have e2: "evolves M db1 db2" using 2 o1 by (rule evolves_insert_event_owned)
  have o2: "owns db2 ?aid ?jid" using o1 by (simp add: evolves_owns [OF e2])
  have hj2: "has_job db2 ?jid" using hj by (simp add: evolves_has_job [OF e1] evolves_has_job [OF e2])
  have n: "count_attempts db2 ?jid = count_attempts db ?jid"
    by (simp add: evolves_counts [OF e1] evolves_counts [OF e2])
  let ?q = "int (count_attempts db ?jid) < M"
  define st3 where "st3 = (if ?q then Queued else TimedOut)"
  obtain co c d where cod: "co = (if ?q then None else Some now)"
    "c = (if ?q then None else Some ''LEASE_EXPIRED'')"
    "d = (if ?q then None else Some ''Lease expired and max attempts reached'')" by blast
  obtain db3 where 3: "set_job_status ?jid st3 now co None c d db2 = Inr db3"
    using hj2 by (simp add: set_job_status_def)
  have e3: "evolves M db2 db3"
    using 3 by (rule evolves_set_job_status) (simp add: st3_def n)
  define ty where "ty = (if ?q then ''retry_scheduled'' else ''job_failed'')"
  define p where "p = (if ?q then [(''reason'', PStr ''lease_expired''),
      (''next_attempt'', PInt (int (count_attempts db ?jid) + 1))]
      else [(''error_code'', PStr ''LEASE_EXPIRED'')])"
  obtain db4 where 4: "insert_event now ?jid (Some ?aid) ty p db3 = Inr db4"
    using hj2 owns_has_attempt [of db3 ?aid ?jid] o2
    by (simp add: insert_event_def attempt_ref_ok_def evolves_has_job [OF e3] evolves_owns [OF e3])
  define st' where "st' = (if ?q
      then st\<lparr>s_expired := Suc (s_expired st), s_requeued := Suc (s_requeued st)\<rparr>
      else st\<lparr>s_expired := Suc (s_expired st), s_timed_out := Suc (s_timed_out st)\<rparr>)"
  have r: "sweep_one now M att (st, db) = Inr (st', db4)"
    using 1 2 3 4 by (simp add: sweep_one_def n st3_def cod ty_def p_def st'_def split: if_splits)
  have "attempts db4 = map_if (\<lambda>a. a_id a = ?aid) (expire now) (attempts db)"
    using 1 2 3 4
    by (auto simp: insert_event_Inr set_job_status_Inr set_attempt_status_Inr expire_def map_if_def)
  moreover obtain f where "jobs db4 = map_if (\<lambda>j. j_id j = ?jid) f (jobs db)"
    "\<And>j. j_id (f j) = j_id j" "\<And>j. j_status (f j) = swept_status M db ?jid"
    using 1 2 3 4
    by (auto simp: insert_event_Inr set_job_status_Inr set_attempt_status_Inr st3_def swept_status_def
        intro!: that)
  ultimately show ?thesis
    using r by (intro that [of st' db4 f]) (auto simp: st'_def)
qed

lemma sweep_rows_result:
  assumes "wf_db db" "\<And>a. a \<in> set rows \<Longrightarrow> owns db (a_id a) (a_job a)"
  shows "\<exists>st' db'. foldE (sweep_one now M) rows (st, db) = Inr (st', db') \<and>
    attempts db' = map_if (\<lambda>a. a_id a \<in> a_id ` set rows) (expire now) (attempts db) \<and>
    filter (\<lambda>j. j_id j \<notin> a_job ` set rows) (jobs db') =
      filter (\<lambda>j. j_id j \<notin> a_job ` set rows) (jobs db) \<and>
    (\<forall>j \<in> set (jobs db'). j_id j \<in> a_job ` set rows \<longrightarrow> j_status j = swept_status M db (j_id j)) \<and>
    s_expired st' = s_expired st + length rows \<and>
    s_requeued st' + s_timed_out st' + s_expired st =
      s_requeued st + s_timed_out st + s_expired st'"
  using assms
proof (induction rows arbitrary: st db)
  case Nil
  then show ?case by (simp add: map_if_def)
next
  case (Cons att rows)
  have own: "owns db (a_id att) (a_job att)" using Cons.prems(2) by simp
  obtain st1 db1 f where
    1: "sweep_one now M att (st, db) = Inr (st1, db1)"
    and at: "attempts db1 = map_if (\<lambda>a. a_id a = a_id att) (expire now) (attempts db)"
    and j: "jobs db1 = map_if (\<lambda>j. j_id j = a_job att) f (jobs db)"
    and f: "\<And>j. j_id (f j) = j_id j" "\<And>j. j_status (f j) = swept_status M db (a_job att)"
    and s: "s_expired st1 = Suc (s_expired st)"
      "s_requeued st1 + s_timed_out st1 = Suc (s_requeued st + s_timed_out st)"
    by (rule sweep_one_result [OF Cons.prems(1) own, of now M st]) (rule that; assumption)
  have ev: "evolves M db db1" using 1 own by (rule sweep_one_evolves)
  have wf1: "wf_db db1" using ev Cons.prems(1) by (simp add: evolves_def)
  have sw: "swept_status M db1 i = swept_status M db i" for i
    by (simp add: swept_status_def evolves_counts [OF ev])
  obtain st' db' where ih: "foldE (sweep_one now M) rows (st1, db1) = Inr (st', db')"
    "attempts db' = map_if (\<lambda>a. a_id a \<in> a_id ` set rows) (expire now) (attempts db1)"
    "filter (\<lambda>j. j_id j \<notin> a_job ` set rows) (jobs db') =
      filter (\<lambda>j. j_id j \<notin> a_job ` set rows) (jobs db1)"
    "\<And>j. j \<in> set (jobs db') \<Longrightarrow> j_id j \<in> a_job ` set rows \<Longrightarrow> j_status j = swept_status M db (j_id j)"
    "s_expired st' = s_expired st1 + length rows"
    "s_requeued st' + s_timed_out st' + s_expired st1 =
      s_requeued st1 + s_timed_out st1 + s_expired st'"
    using Cons.IH [OF wf1, of st1] Cons.prems(2) by (auto simp: sw evolves_owns [OF ev])
  have A: "attempts db' = map_if (\<lambda>a. a_id a \<in> a_id ` set (att # rows)) (expire now) (attempts db)"
    unfolding ih(2) at by (auto simp: map_if_def expire_def)
  have J: "filter (\<lambda>j. j_id j \<notin> a_job ` set (att # rows)) (jobs db') =
      filter (\<lambda>j. j_id j \<notin> a_job ` set (att # rows)) (jobs db)"
  proof -
    have "filter (\<lambda>j. j_id j \<notin> a_job ` set (att # rows)) (jobs db') =
        filter (\<lambda>j. j_id j \<noteq> a_job att) (filter (\<lambda>j. j_id j \<notin> a_job ` set rows) (jobs db'))"
      by (simp add: conj_commute)
    also have "\<dots> = filter (\<lambda>j. j_id j \<notin> a_job ` set rows)
        (filter (\<lambda>j. j_id j \<noteq> a_job att) (jobs db1))"
      by (simp add: ih(3) conj_commute)
    also have "filter (\<lambda>j. j_id j \<noteq> a_job att) (jobs db1) = filter (\<lambda>j. j_id j \<noteq> a_job att) (jobs db)"
      unfolding j by (rule filter_map_if_other) (simp add: f)
    finally show ?thesis by simp
  qed
  have S: "j_status x = swept_status M db (j_id x)"
    if x: "x \<in> set (jobs db')" "j_id x \<in> a_job ` set (att # rows)" for x
  proof (cases "j_id x \<in> a_job ` set rows")
    case True
    then show ?thesis using ih(4) x(1) by blast
  next
    case False
    with x have "j_id x = a_job att" by simp
    moreover have "x \<in> set (filter (\<lambda>j. j_id j \<notin> a_job ` set rows) (jobs db1))"
      unfolding ih(3) [symmetric] using x(1) False by simp
    ultimately show ?thesis using f by (auto simp: j set_map_if)
  qed
  show ?case
    using 1 ih(1) A J S ih(5,6) s by (intro exI [of _ st'] exI [of _ db']) simp
qed

lemma expired_own: "a \<in> set (expired_rows now db) \<Longrightarrow> owns db (a_id a) (a_job a)"
  by (auto simp: expired_rows_def owns_def)

text \<open>C9. The sweep never fails on a reachable database. It expires exactly the assigned and
  running attempts whose lease has run out, and leaves the other attempts as they are; each of
  their jobs is queued again if it has an attempt left and is timed out otherwise; no other job
  changes; and what it reports adds up.\<close>

theorem sweep_exact:
  assumes "orch_reachable M db" "1 \<le> M"
  shows "\<exists>st db'. sweep_expired_attempts now M db = Inr (st, db') \<and>
    attempts db' = map_if (\<lambda>a. active a \<and> a_lease a < now)
      (\<lambda>a. a\<lparr>a_status := AExpired, a_ended := Some now\<rparr>) (attempts db) \<and>
    filter (\<lambda>j. j_id j \<notin> a_job ` set (expired_rows now db)) (jobs db') =
      filter (\<lambda>j. j_id j \<notin> a_job ` set (expired_rows now db)) (jobs db) \<and>
    (\<forall>j \<in> set (jobs db'). j_id j \<in> a_job ` set (expired_rows now db) \<longrightarrow>
      j_status j = (if int (count_attempts db (j_id j)) < M then Queued else TimedOut)) \<and>
    s_expired st = length (expired_rows now db) \<and>
    s_requeued st + s_timed_out st = s_expired st"
proof -
  have wf: "wf_db db" using reachable_inv [OF assms] by (simp add: orch_inv_def)
  have d: "distinct (map a_id (attempts db))" using wf by (simp add: wf_db_def keys_ok_def)
  have "active a \<and> a_lease a < now \<longleftrightarrow> a_id a \<in> a_id ` set (expired_rows now db)"
    if "a \<in> set (attempts db)" for a
  proof
    assume "a_id a \<in> a_id ` set (expired_rows now db)"
    then obtain b where b: "b \<in> set (expired_rows now db)" "a_id a = a_id b" by blast
    then have "a = b" using that by (intro distinct_map_unique [OF d]) (auto simp: expired_rows_def)
    with b show "active a \<and> a_lease a < now" by (auto simp: expired_rows_def active_def)
  qed (use that in \<open>auto simp: expired_rows_def active_def\<close>)
  then have "map_if (\<lambda>a. a_id a \<in> a_id ` set (expired_rows now db)) (expire now) (attempts db) =
      map_if (\<lambda>a. active a \<and> a_lease a < now)
      (\<lambda>a. a\<lparr>a_status := AExpired, a_ended := Some now\<rparr>) (attempts db)"
    by (simp add: map_if_def expire_def)
  then show ?thesis
    using sweep_rows_result [where rows = "expired_rows now db" and now = now and M = M
        and st = "\<lparr>s_expired = 0, s_requeued = 0, s_timed_out = 0\<rparr>", OF wf expired_own]
    by (simp add: sweep_expired_attempts_def swept_status_def split del: if_split)
qed

lemma sweep_exact_witness:
  "\<exists>st db'. sweep_expired_attempts 70000000 3 demo_claimed = Inr (st, db') \<and> s_expired st = 1"
proof -
  have "length (expired_rows 70000000 demo_claimed) = 1" by code_simp
  then show ?thesis using sweep_exact [OF demo_reachable(2), of 70000000] by auto
qed

end
