(* ===== verification/Job_Outcomes.thy ===== *)
theory Job_Outcomes
  imports Job_Properties
begin

text \<open>
  What an operation of the orchestration does to the database on every branch: cancelling,
  failing and completing, pruning, and that a finished job stays as it is.
\<close>

section \<open>Pruning\<close>

text \<open>Pruning never fails on a reachable database, although the jobs are deleted in chunks
  under foreign keys. It removes exactly the finished jobs that completed before the cutoff,
  together with their attempts, events and artifacts, and keeps every row of every other job in
  place.\<close>

theorem prune_exact:
  assumes "orch_reachable M db" "1 \<le> M"
  shows "\<exists>st db'. prune_history now d db = Inr (st, db') \<and>
    jobs db' = filter (\<lambda>j. \<not> prunable (now - days d) j) (jobs db) \<and>
    attempts db' = filter (\<lambda>a. has_job db' (a_job a)) (attempts db) \<and>
    events db' = filter (\<lambda>e. has_job db' (e_job e)) (events db) \<and>
    artifacts db' = filter (\<lambda>r. has_job db' (r_job r)) (artifacts db)"
proof -
  have wf: "wf_db db" using reachable_inv [OF assms] by (simp add: orch_inv_def)
  then have d: "distinct (map j_id (jobs db))" by (simp add: wf_db_def keys_ok_def)
  define X where "X = set (map j_id (filter (prunable (now - days d)) (jobs db)))"
  have X: "j_id j \<in> X \<longleftrightarrow> prunable (now - days d) j" if "j \<in> set (jobs db)" for j
    using that distinct_map_unique [OF d that] by (auto simp: X_def)
  have h: "has_job (purge X db) i \<longleftrightarrow> i \<notin> X" if "has_job db i" for i
    using that by (auto simp: has_job_def purge_def)
  obtain st where r: "prune_history now d db = Inr (st, purge X db)"
    using prune_history_spec [OF wf] unfolding X_def by blast
  have refs: "\<And>a. a \<in> set (attempts db) \<Longrightarrow> has_job db (a_job a)"
    "\<And>e. e \<in> set (events db) \<Longrightarrow> has_job db (e_job e)"
    "\<And>a. a \<in> set (artifacts db) \<Longrightarrow> has_job db (r_job a)"
    using wf by (auto simp: wf_db_def refs_ok_def ref_ok_def)
  have "jobs (purge X db) = filter (\<lambda>j. \<not> prunable (now - days d) j) (jobs db)"
    using X by (auto simp: purge_def intro: filter_cong)
  moreover have "attempts (purge X db) = filter (\<lambda>a. has_job (purge X db) (a_job a)) (attempts db)"
    using h refs(1) by (auto simp: purge_def [of X db] cong: filter_cong)
  moreover have "events (purge X db) = filter (\<lambda>e. has_job (purge X db) (e_job e)) (events db)"
    using h refs(2) by (auto simp: purge_def [of X db] cong: filter_cong)
  moreover have "artifacts (purge X db) = filter (\<lambda>r. has_job (purge X db) (r_job r)) (artifacts db)"
    using h refs(3) by (auto simp: purge_def [of X db] cong: filter_cong)
  ultimately show ?thesis using r by blast
qed

lemma prune_exact_witness:
  "\<exists>st db'. prune_history 9999999999999 30 demo_done = Inr (st, db') \<and> jobs db' = []"
proof -
  have "filter (\<lambda>j. \<not> prunable (9999999999999 - days 30) j) (jobs demo_done) = []" by code_simp
  then show ?thesis using prune_exact [OF demo_reachable(6), of 9999999999999 30] by auto
qed

section \<open>Reports of a node\<close>

lemma find_attempt_wf:
  "wf_db db \<Longrightarrow> a \<in> set (attempts db) \<Longrightarrow> find_attempt db (a_id a) = Some a"
  by (simp add: find_attempt_def wf_db_def keys_ok_def find_unique)

lemma get_job_total:
  "has_job db i \<Longrightarrow> \<exists>v. get_job db i = Inr v \<and> v_job v \<in> set (jobs db) \<and> j_id (v_job v) = i"
  by (cases "find_job db i")
    (auto simp: get_job_def job_row_to_dict_def find_job_def has_job_def find_None_iff
      dest: find_Some_iff')

lemma set_job_status_total:
  "has_job db i \<Longrightarrow> \<exists>db'. set_job_status i st now co res c d db = Inr db'"
  by (simp add: set_job_status_def)

lemma insert_event_total:
  "has_job db i \<Longrightarrow> has_attempt db aid \<Longrightarrow> \<exists>db'. insert_event now i (Some aid) ty p db = Inr db'"
  by (simp add: insert_event_def attempt_ref_ok_def)

lemma set_attempt_status_total:
  "has_attempt db aid \<Longrightarrow> \<exists>db'. set_attempt_status aid st l e r db = Inr db'"
  by (simp add: set_attempt_status_def)

lemma same_has:
  "jobs db' = jobs db \<Longrightarrow> has_job db' i = has_job db i"
  "attempts db' = attempts db \<Longrightarrow> has_attempt db' aid = has_attempt db aid"
  "jobs db' = jobs db \<Longrightarrow> job_cancel_requested db' i = job_cancel_requested db i"
  "attempts db' = attempts db \<Longrightarrow> count_attempts db' i = count_attempts db i"
  by (simp_all add: has_job_def has_attempt_def job_cancel_requested_def find_job_def
      count_attempts_def attempts_of_def)

lemma set_attempt_keeps_ids:
  assumes "set_attempt_status aid st l e r db = Inr db'"
  shows "has_attempt db' i = has_attempt db i" "count_attempts db' k = count_attempts db k"
  using akey_eq_counts(2,7) [OF evolves_akey [OF evolves_set_attempt_status [OF assms]]] by simp_all

lemma set_attempt_failed:
  assumes "set_attempt_status aid AFailed None (Some now) (Some r) db = Inr db'"
  shows "attempts db' = map_if (\<lambda>b. a_id b = aid)
    (\<lambda>b. b\<lparr>a_status := AFailed, a_ended := Some now, a_reason := Some r\<rparr>) (attempts db)"
proof -
  have "(\<lambda>a :: attempt. a\<lparr>a_status := AFailed, a_lease := a_lease a, a_ended := Some now,
      a_reason := Some r\<rparr>) = (\<lambda>b. b\<lparr>a_status := AFailed, a_ended := Some now, a_reason := Some r\<rparr>)"
    by (rule ext) simp
  with assms show ?thesis by (simp only: set_attempt_status_Inr option.case) simp
qed

text \<open>The end of a report: a job status, an event, and the view that is returned.\<close>

lemma finish_report:
  assumes "has_job db i" "has_attempt db aid"
  obtains db1 db2 v where "set_job_status i st now co res c d db = Inr db1"
    and "insert_event now i (Some aid) ty p db1 = Inr db2" "get_job db2 i = Inr v"
    and "j_status (v_job v) = st" "j_id (v_job v) = i" "attempts db2 = attempts db"
    "has_job db1 i" "has_attempt db1 aid" "attempts db1 = attempts db"
    "artifacts db2 = artifacts db"
    "\<And>r. res = Some r \<Longrightarrow> j_result (v_job v) = Some r"
proof -
  obtain db1 where 1: "set_job_status i st now co res c d db = Inr db1"
    using set_job_status_total [OF assms(1)] by blast
  have "map j_id (jobs db1) = map j_id (jobs db)"
    using 1 by (auto simp: set_job_status_Inr intro: map_map_if)
  then have "has_job db1 i" using assms(1) unfolding has_job_def by (metis list.set_map)
  moreover have "has_attempt db1 aid"
    using assms(2) same_has(2) [OF set_job_status_act(1) [OF 1]] by simp
  ultimately have h1: "has_job db1 i" "has_attempt db1 aid" by blast+
  obtain db2 where 2: "insert_event now i (Some aid) ty p db1 = Inr db2"
    using insert_event_total [OF h1] by blast
  have j2: "jobs db2 = jobs db1" "attempts db2 = attempts db1" "artifacts db2 = artifacts db1"
    using 2 by (auto simp: insert_event_Inr)
  then obtain v where v: "get_job db2 i = Inr v" "v_job v \<in> set (jobs db1)" "j_id (v_job v) = i"
    using get_job_total [of db2 i] h1(1) same_has(1) [OF j2(1)] j2(1) by auto
  have "jobs db1 = map_if (\<lambda>j. j_id j = i)
             (\<lambda>j. j\<lparr>j_status := st, j_updated := now,
                    j_completed := (case co of None \<Rightarrow> j_completed j | Some t \<Rightarrow> Some t),
                    j_result := (case res of None \<Rightarrow> j_result j | Some r \<Rightarrow> Some r),
                    j_error_code := c, j_error_detail := d\<rparr>) (jobs db)"
    using 1 by (simp add: set_job_status_Inr)
  with v(2,3) obtain j where "v_job v = j\<lparr>j_status := st, j_updated := now,
                    j_completed := (case co of None \<Rightarrow> j_completed j | Some t \<Rightarrow> Some t),
                    j_result := (case res of None \<Rightarrow> j_result j | Some r \<Rightarrow> Some r),
                    j_error_code := c, j_error_detail := d\<rparr>"
    by (auto simp only: set_map_if image_iff split: if_splits)
  then have st: "j_status (v_job v) = st" and re: "\<And>r. res = Some r \<Longrightarrow> j_result (v_job v) = Some r"
    by simp_all
  have a1: "attempts db1 = attempts db" "artifacts db1 = artifacts db"
    using 1 by (auto simp: set_job_status_Inr)
  show ?thesis
    by (rule that [OF 1 2 v(1) st v(3) _ h1 _ _ re]) (simp_all add: a1 j2)
qed

text \<open>C10. A node's report of a failure is always accepted for an attempt of its own. The attempt
  is marked failed; the job is canceled if a cancellation was pending, queued again if the
  failure is retryable and it has been attempted fewer than \<open>max_attempts\<close> times, and failed
  otherwise.\<close>

theorem fail_outcome:
  assumes "orch_reachable M db" "1 \<le> M" "a \<in> set (attempts db)"
  shows "\<exists>v db'. fail_attempt now (a_node a) (a_id a) code detail retryable M db = Inr (v, db') \<and>
    j_id (v_job v) = a_job a \<and>
    j_status (v_job v) =
      (if job_cancel_requested db (a_job a) then Canceled
       else if retryable \<and> int (count_attempts db (a_job a)) < M then Queued else Failed) \<and>
    attempts db' = map_if (\<lambda>b. a_id b = a_id a) (\<lambda>b. b\<lparr>a_status := AFailed, a_ended := Some now,
      a_reason := Some (detail_or_code detail code)\<rparr>) (attempts db)"
proof -
  have wf: "wf_db db" using reachable_inv [OF assms(1,2)] by (simp add: orch_inv_def)
  have g: "get_owned_attempt db (a_id a) (a_node a) = Inr a"
    using find_attempt_wf [OF wf assms(3)] by (simp add: get_owned_attempt_def)
  have ha: "has_attempt db (a_id a)" using assms(3) by (simp add: has_attempt_def)
  have hj: "has_job db (a_job a)" using wf assms(3) by (simp add: wf_db_def refs_ok_def)
  obtain db1 where 1: "set_attempt_status (a_id a) AFailed None (Some now)
      (Some (detail_or_code detail code)) db = Inr db1"
    using set_attempt_status_total [OF ha] by blast
  note k1 = set_attempt_keeps_ids [OF 1] and j1 = set_attempt_status_jobs [OF 1]
  have h1: "has_job db1 (a_job a)" "has_attempt db1 (a_id a)"
    using hj ha k1(1) same_has(1) [OF j1] by simp_all
  obtain db2 where 2: "insert_event now (a_job a) (Some (a_id a)) ''attempt_failed''
      [(''error_code'', PStr code), (''error_detail'', opt_str detail)] db1 = Inr db2"
    using insert_event_total [OF h1] by blast
  have e2: "attempts db2 = attempts db1" "jobs db2 = jobs db1" using insert_event_act [OF 2] by simp_all
  have h2: "has_job db2 (a_job a)" "has_attempt db2 (a_id a)"
    using h1 same_has(1) [OF e2(2)] same_has(2) [OF e2(1)] by simp_all
  have cr: "job_cancel_requested db2 (a_job a) = job_cancel_requested db (a_job a)"
    using same_has(3) [OF e2(2)] same_has(3) [OF j1] by simp
  have cn: "count_attempts db1 (a_job a) = count_attempts db (a_job a)" using k1 by simp
  note frame = fail_attempt_def g 1 2 cr cn bindE_def
  have at: "attempts db2 = map_if (\<lambda>b. a_id b = a_id a) (\<lambda>b. b\<lparr>a_status := AFailed,
      a_ended := Some now, a_reason := Some (detail_or_code detail code)\<rparr>) (attempts db)"
    using set_attempt_failed [OF 1] e2 by simp
  consider (c) "job_cancel_requested db (a_job a)"
    | (q) "\<not> job_cancel_requested db (a_job a)" "retryable \<and> int (count_attempts db (a_job a)) < M"
    | (f) "\<not> job_cancel_requested db (a_job a)" "\<not> (retryable \<and> int (count_attempts db (a_job a)) < M)"
    by blast
  then show ?thesis
  proof cases
    case c
    obtain db3 db4 v where "set_job_status (a_job a) Canceled now (Some now) None (Some code) detail db2 = Inr db3"
      "insert_event now (a_job a) (Some (a_id a)) ''job_canceled'' [(''error_code'', PStr code)] db3 = Inr db4"
      "get_job db4 (a_job a) = Inr v" "j_status (v_job v) = Canceled" "j_id (v_job v) = a_job a"
      "attempts db4 = attempts db2"
      by (rule finish_report [OF h2])
    with c at show ?thesis by (simp add: frame)
  next
    case q
    obtain db3 db4 v where "set_job_status (a_job a) Queued now None None None None db2 = Inr db3"
      "insert_event now (a_job a) (Some (a_id a)) ''retry_scheduled''
         [(''next_attempt'', PInt (int (count_attempts db (a_job a)) + 1))] db3 = Inr db4"
      "get_job db4 (a_job a) = Inr v" "j_status (v_job v) = Queued" "j_id (v_job v) = a_job a"
      "attempts db4 = attempts db2"
      by (rule finish_report [OF h2])
    with q at show ?thesis by (simp add: frame)
  next
    case f
    obtain db3 db4 v where "set_job_status (a_job a) Failed now (Some now) None (Some code) detail db2 = Inr db3"
      "insert_event now (a_job a) (Some (a_id a)) ''job_failed'' [(''error_code'', PStr code)] db3 = Inr db4"
      "get_job db4 (a_job a) = Inr v" "j_status (v_job v) = Failed" "j_id (v_job v) = a_job a"
      "attempts db4 = attempts db2"
      by (rule finish_report [OF h2])
    with f at show ?thesis by (auto simp add: frame)
  qed
qed

lemma fail_outcome_witness:
  "\<exists>v db'. fail_attempt 9 ''n1'' 2 ''E'' None True 3 demo_claimed = Inr (v, db') \<and>
     j_status (v_job v) = Queued"
proof -
  have a: "hd (attempts demo_claimed) \<in> set (attempts demo_claimed)"
    "a_node (hd (attempts demo_claimed)) = ''n1''" "a_id (hd (attempts demo_claimed)) = 2"
    "\<not> job_cancel_requested demo_claimed (a_job (hd (attempts demo_claimed)))"
    "int (count_attempts demo_claimed (a_job (hd (attempts demo_claimed)))) < 3"
    by code_simp+
  show ?thesis
    using fail_outcome [OF demo_reachable(2) _ a(1), of 9 "''E''" None True] a(2-5) by auto
qed

definition artifact_key :: "artifact \<Rightarrow> nat \<times> nat option \<times> string \<times> string" where
  "artifact_key r = (r_job r, r_attempt r, r_kind r, r_uri r)"

lemma complete_artifacts_total:
  assumes "has_job db i" "has_attempt db aid"
  shows "\<exists>db'. foldE (complete_artifact now i aid) arts db = Inr db' \<and>
    jobs db' = jobs db \<and> attempts db' = attempts db \<and>
    map artifact_key (artifacts db') = map artifact_key (artifacts db) @
      map (\<lambda>d. (i, Some aid, py_str (dget_or d ''kind'' (PStr ''unknown'')),
        py_str (dget_or d ''uri'' (PStr [])))) arts"
  using assms
proof (induction arts arbitrary: db)
  case Nil
  then show ?case by simp
next
  case (Cons d arts)
  obtain db1 where 1: "complete_artifact now i aid d db = Inr db1"
    using Cons.prems by (simp add: complete_artifact_def insert_artifact_def attempt_ref_ok_def)
  have k: "jobs db1 = jobs db" "attempts db1 = attempts db"
    "map artifact_key (artifacts db1) = map artifact_key (artifacts db) @
      [(i, Some aid, py_str (dget_or d ''kind'' (PStr ''unknown'')), py_str (dget_or d ''uri'' (PStr [])))]"
    using 1 by (auto simp: complete_artifact_def insert_artifact_Inr artifact_key_def)
  have "has_job db1 i" "has_attempt db1 aid"
    using Cons.prems same_has(1) [OF k(1)] same_has(2) [OF k(2)] by simp_all
  from Cons.IH [OF this] 1 k show ?case by (auto simp: bindE_def)
qed



section \<open>Cancelling\<close>

text \<open>Cancelling any job of a reachable database succeeds. A queued job is canceled at once;
  a job that a node has is marked for cancellation; a finished job keeps its status. Attempts
  and the other jobs are untouched, and exactly one event is recorded when the status could
  change.\<close>

theorem cancel_outcome:
  assumes "orch_reachable M db" "1 \<le> M" "j \<in> set (jobs db)"
  shows "\<exists>v db'. cancel_job now (j_id j) db = Inr (v, db') \<and>
    jstat db' = set_stat (j_id j)
      (if j_status j = Queued then Canceled else if busy (j_status j) then CancelRequested
       else j_status j) (jstat db) \<and>
    attempts db' = attempts db \<and>
    length (events db') = length (events db) +
      (if j_status j = Queued \<or> busy (j_status j) then 1 else 0)"
proof -
  have wf: "wf_db db" using reachable_inv [OF assms(1,2)] by (simp add: orch_inv_def)
  then have d: "distinct (map j_id (jobs db))" by (simp add: wf_db_def keys_ok_def)
  have f: "find_job db (j_id j) = Some j"
    using find_unique [OF d assms(3)] by (simp add: find_job_def)
  have hj: "has_job db (j_id j)" using assms(3) by (simp add: has_job_def)
  have upd: "\<exists>v db'. bindE (insert_event now (j_id j) None ty []
        (db\<lparr>jobs := map_if (\<lambda>x. j_id x = j_id j) g (jobs db)\<rparr>))
        (\<lambda>db'. bindE (get_job db' (j_id j)) (\<lambda>v. Inr (v, db'))) = Inr (v, db') \<and>
      jstat db' = set_stat (j_id j) st (jstat db) \<and> attempts db' = attempts db \<and>
      length (events db') = Suc (length (events db))"
    if g: "\<And>x. j_id (g x) = j_id x" "\<And>x. j_status (g x) = st" for g st ty
  proof -
    let ?db1 = "db\<lparr>jobs := map_if (\<lambda>x. j_id x = j_id j) g (jobs db)\<rparr>"
    have "map j_id (jobs ?db1) = map j_id (jobs db)" by (simp add: map_map_if g)
    then have h1: "has_job ?db1 (j_id j)" using hj unfolding has_job_def by (metis list.set_map)
    then obtain db2 where 2: "insert_event now (j_id j) None ty [] ?db1 = Inr db2"
      by (simp add: insert_event_def attempt_ref_ok_def)
    have k: "jobs db2 = jobs ?db1" "attempts db2 = attempts db"
      "length (events db2) = Suc (length (events db))"
      using 2 by (auto simp: insert_event_Inr)
    have "has_job db2 (j_id j)" using h1 same_has(1) [OF k(1)] by simp
    then obtain v where "get_job db2 (j_id j) = Inr v" using get_job_total by blast
    moreover have "jstat db2 = set_stat (j_id j) st (jstat db)"
      by (simp add: jstat_def k(1) set_stat_def map_if_def g)
    ultimately show ?thesis using 2 k by (simp add: bindE_def)
  qed
  have same: "set_stat (j_id j) (j_status j) (jstat db) = jstat db"
    using distinct_map_unique [OF d assms(3)] by (auto simp: set_stat_def jstat_def) metis
  obtain v where v: "get_job db (j_id j) = Inr v" using get_job_total [OF hj] by blast
  consider "j_status j = Queued" | "busy (j_status j)" | "j_status j \<notin> {Queued, Assigned, Running, CancelRequested}"
    by (auto simp: busy_def)
  then show ?thesis
  proof cases
    case 1
    show ?thesis
      using upd [of "\<lambda>j. j\<lparr>j_status := Canceled, j_updated := now, j_completed := Some now\<rparr>" Canceled "''job_canceled''"] 1
      by (simp add: cancel_job_def f)
  next
    case 2
    then have "j_status j \<noteq> Queued" "j_status j \<in> {Queued, Assigned, Running, CancelRequested}"
      by (auto simp: busy_def)
    then show ?thesis
      using upd [of "\<lambda>j. j\<lparr>j_status := CancelRequested, j_updated := now\<rparr>" CancelRequested "''cancel_requested''"] 2
      by (simp add: cancel_job_def f)
  next
    case 3
    then show ?thesis by (auto simp: cancel_job_def f v same busy_def bindE_def)
  qed
qed

lemma cancel_outcome_witness:
  "\<exists>v db'. cancel_job 9 0 demo_claimed = Inr (v, db') \<and> jstat db' = [(0, CancelRequested)]"
proof -
  have j: "hd (jobs demo_claimed) \<in> set (jobs demo_claimed)" "j_id (hd (jobs demo_claimed)) = 0"
    "j_status (hd (jobs demo_claimed)) = Assigned" "jstat demo_claimed = [(0, Assigned)]"
    by code_simp+
  show ?thesis
    using cancel_outcome [OF demo_reachable(2) _ j(1), of 9] j(2-4) by (auto simp: busy_def set_stat_def)
qed

end
