(* ===== verification/Job_Runs.thy ===== *)
theory Job_Runs
  imports Job_Outcomes
begin

text \<open>
  Properties of runs: finished jobs stay finished, one leader at a time, what the event stream
  of a job delivers; and the runs on which the code does not do what it means to, each a
  reachable database.
\<close>

section \<open>Finished jobs\<close>

definition finished :: "job_status \<Rightarrow> bool" where
  "finished s \<longleftrightarrow> s \<in> set terminal_statuses"

definition keeps_finished :: "orch_db \<Rightarrow> orch_db \<Rightarrow> bool" where
  "keeps_finished db db' \<longleftrightarrow> (\<forall>(i, s) \<in> set (jstat db). finished s \<longrightarrow> (i, s) \<in> set (jstat db'))"

lemma keeps_finished_trans:
  "keeps_finished a b \<Longrightarrow> keeps_finished b c \<Longrightarrow> keeps_finished a c"
  unfolding keeps_finished_def by blast

lemma keeps_finished_same: "jstat db' = jstat db \<Longrightarrow> keeps_finished db db'"
  by (auto simp: keeps_finished_def)

lemma set_stat_keeps:
  assumes "jstat db' = set_stat i st (jstat db)"
    and "\<And>s. (i, s) \<in> set (jstat db) \<Longrightarrow> \<not> finished s"
  shows "keeps_finished db db'"
  unfolding keeps_finished_def
proof (clarify)
  fix k s
  assume ks: "(k, s) \<in> set (jstat db)" "finished s"
  with assms(2) have "k \<noteq> i" by blast
  with ks(1) have "(k, s) \<in> set (set_stat i st (jstat db))" by (force simp: set_stat_def)
  then show "(k, s) \<in> set (jstat db')" by (simp add: assms(1))
qed

lemma act_pos_busy:
  "one_active db \<Longrightarrow> 0 < act db i \<Longrightarrow> (i, s) \<in> set (jstat db) \<Longrightarrow> \<not> finished s"
  by (fastforce simp: one_active_def finished_def terminal_statuses_def busy_def split: if_splits)

lemma settles_keeps:
  assumes "settles db aid db'" "one_active db"
  shows "keeps_finished db db'"
proof -
  obtain jid st where s: "jstat db' = set_stat jid st (jstat db)"
    and a: "act db' jid + 1 = act db jid"
    using assms(1) unfolding settles_def by (metis (full_types))
  from a have "0 < act db jid" by simp
  with act_pos_busy [OF assms(2)] show ?thesis by (blast intro: set_stat_keeps [OF s])
qed

lemma jstat_unique:
  "wf_db db \<Longrightarrow> (i, s) \<in> set (jstat db) \<Longrightarrow> (i, s') \<in> set (jstat db) \<Longrightarrow> s = s'"
  by (auto simp: jstat_def wf_db_def keys_ok_def dest: distinct_map_unique)

lemma queued_not_finished:
  assumes "wf_db db" "queued_job db i" "(i, s) \<in> set (jstat db)"
  shows "\<not> finished s"
proof -
  have "(i, Queued) \<in> set (jstat db)" using assms(2) by (force simp: queued_job_def jstat_def)
  then have "s = Queued" using jstat_unique [OF assms(1,3)] by blast
  then show ?thesis by (simp add: finished_def terminal_statuses_def)
qed

lemma claim_loop_keeps_finished:
  assumes "claim_loop now le node n cap lab rows claimed db = Inr (cs, db')"
    and "wf_db db" "distinct (map j_id rows)"
    and "\<And>r. r \<in> set rows \<Longrightarrow> queued_job db (j_id r)"
  shows "keeps_finished db db'"
  using assms
proof (induction rows arbitrary: claimed db)
  case Nil
  then show ?case by (simp add: keeps_finished_same)
next
  case (Cons row rows)
  show ?case
  proof (cases "n \<le> int (length claimed) \<or> \<not> job_matches_node row node cap lab")
    case True
    with Cons.prems Cons.IH [of claimed db] show ?thesis
      by (auto split: if_splits intro: keeps_finished_same)
  next
    case False
    with Cons.prems(1) obtain c db1 where
      1: "claim_one now le node cap lab row db = Inr (c, db1)"
      and r: "claim_loop now le node n cap lab rows (claimed @ [c]) db1 = Inr (cs, db')"
      by (auto simp: bindE_Inr)
    have q: "queued_job db (j_id row)" using Cons.prems(4) by simp
    then have hj: "has_job db (j_id row)" unfolding queued_job_def has_job_def by (metis imageI)
    obtain c' db1' where c': "claim_one now le node cap lab row db = Inr (c', db1')" "wf_db db1'"
      and j: "jobs db1' = map_if (\<lambda>j. j_id j = j_id row)
          (\<lambda>j. j\<lparr>j_status := Assigned, j_updated := now, j_error_code := None, j_error_detail := None\<rparr>)
          (jobs db)"
      using claim_one_result [OF Cons.prems(2) hj] by metis
    have db1: "db1' = db1" using 1 c'(1) by simp
    have js: "jstat db1 = set_stat (j_id row) Assigned (jstat db)"
      using j unfolding db1 by (simp add: jstat_def set_stat_def map_if_def)
    have k: "keeps_finished db db1"
      using queued_not_finished [OF Cons.prems(2) q] by (blast intro: set_stat_keeps [OF js])
    have "queued_job db1 (j_id r)" if "r \<in> set rows" for r
    proof -
      have "j_id r \<noteq> j_id row" using Cons.prems(3) that by (auto simp: image_iff)
      moreover have "queued_job db (j_id r)" using Cons.prems(4) that by simp
      ultimately show ?thesis using j unfolding db1 by (force simp: queued_job_def set_map_if)
    qed
    with Cons.IH [OF r] c'(2) Cons.prems(3) db1 k show ?thesis
      by (auto intro: keeps_finished_trans)
  qed
qed

lemma claim_jobs_keeps_finished:
  assumes "claim_jobs now node n ls cap lab db = Inr (cs, db')" "wf_db db"
  shows "keeps_finished db db'"
proof -
  let ?db1 = "touch_node_lease now node cap lab db"
  have d: "distinct (map j_id (queued_rows ?db1))"
    using assms(2)
    by (simp add: queued_rows_def claim_order_distinct touch_node_lease_frame wf_db_def keys_ok_def
        distinct_map_filter)
  have "keeps_finished ?db1 db'"
  proof (rule claim_loop_keeps_finished [OF _ _ d])
    show "claim_loop now (now + seconds ls) node n cap lab (queued_rows ?db1) [] ?db1 = Inr (cs, db')"
      using assms(1) by (simp add: claim_jobs_def Let_def)
    show "wf_db ?db1" using assms(2) by (simp add: touch_keeps)
  qed (auto simp: queued_rows_def queued_job_def)
  then show ?thesis by (simp add: keeps_finished_def jstat_def touch_node_lease_frame)
qed

lemma sweep_keeps_finished:
  assumes "sweep_expired_attempts now M db = Inr (st, db')" "wf_db db" "one_active db"
  shows "keeps_finished db db'"
proof -
  have "filter (\<lambda>j. j_id j \<notin> a_job ` set (expired_rows now db)) (jobs db') =
      filter (\<lambda>j. j_id j \<notin> a_job ` set (expired_rows now db)) (jobs db)"
    using sweep_rows_result [where rows = "expired_rows now db" and now = now and M = M
        and st = "\<lparr>s_expired = 0, s_requeued = 0, s_timed_out = 0\<rparr>", OF assms(2) expired_own] assms(1)
    by (auto simp: sweep_expired_attempts_def)
  then have same: "j \<in> set (jobs db')"
    if "j \<in> set (jobs db)" "j_id j \<notin> a_job ` set (expired_rows now db)" for j
    using that by (metis (mono_tags, lifting) filter_set set_filter mem_Collect_eq)
  have "j_id j \<notin> a_job ` set (expired_rows now db)"
    if j: "j \<in> set (jobs db)" "finished (j_status j)" for j
  proof
    assume "j_id j \<in> a_job ` set (expired_rows now db)"
    then obtain a where a: "a \<in> set (attempts db)" "active a" "a_job a = j_id j"
      by (auto simp: expired_rows_def active_def)
    then have "0 < act db (j_id j)" by (auto simp: act_def filter_empty_conv)
    moreover have "(j_id j, j_status j) \<in> set (jstat db)" using j(1) by (auto simp: jstat_def)
    ultimately show False using act_pos_busy [OF assms(3)] j(2) by blast
  qed
  with same show ?thesis by (force simp: keeps_finished_def jstat_def)
qed

lemma progress_keeps_finished:
  assumes "attempt_progress now node aid pr ls db = Inr db'"
    and "wf_db db" "one_active db" "live db aid"
  shows "keeps_finished db db'"
proof -
  from assms(1) obtain row db1 db2 where
    row: "get_owned_attempt db aid node = Inr row"
    and 1: "set_attempt_status aid ARunning (Some (now + seconds ls)) None None db = Inr db1"
    and 2: "set_job_status (a_job row) Running now None None None None db1 = Inr db2"
    and 3: "insert_event now (a_job row) (Some aid) ''progress'' pr db2 = Inr db'"
    by (auto simp: attempt_progress_def bindE_Inr split: if_splits)
  have own: "owns db aid (a_job row)" using get_owned_attempt_Inr [OF row] by simp
  have j: "jstat db' = set_stat (a_job row) Running (jstat db)"
    using set_job_status_act(2) [OF 2] set_attempt_status_jobs [OF 1] insert_event_act [OF 3]
    by (simp add: jstat_def)
  show ?thesis
    using act_pos_busy [OF assms(3) act_pos_live [OF assms(4) own assms(2)]]
    by (blast intro: set_stat_keeps [OF j])
qed

lemma create_keeps_finished:
  assumes "create_job now ty payload prio target rb db = Inr (v, db')"
  shows "keeps_finished db db'"
proof -
  obtain d where
    d: "insert_event now (next_id db) None ''job_created'' [(''type'', PStr ty)] d = Inr db'"
      "jstat d = jstat db @ [(next_id db, Queued)]"
    using assms by (auto simp: create_job_def bindE_Inr Let_def jstat_def intro!: that)
  have "jstat db' = jstat d" using insert_event_act [OF d(1)] by (simp add: jstat_def)
  then show ?thesis using d(2) by (auto simp: keeps_finished_def)
qed

lemma cancel_keeps_finished:
  assumes "cancel_job now jid db = Inr (v, db')" "wf_db db"
  shows "keeps_finished db db'"
proof (cases "db' = db")
  case True
  then show ?thesis by (simp add: keeps_finished_same)
next
  case False
  with assms(1) obtain j where j: "find_job db jid = Some j"
    by (auto simp: cancel_job_def bindE_Inr split: option.splits)
  define st where "st = (if j_status j = Queued then Canceled else CancelRequested)"
  from j False assms(1) obtain f ty where
    f: "insert_event now jid None ty [] (db\<lparr>jobs := map_if (\<lambda>j. j_id j = jid) f (jobs db)\<rparr>) = Inr db'"
      "\<And>j. j_id (f j) = j_id j" "\<And>j. j_status (f j) = st" "\<not> finished (j_status j)"
    by (cases "j_status j") (auto simp: cancel_job_def bindE_Inr st_def finished_def
        terminal_statuses_def intro!: that)
  have js: "jstat db' = set_stat jid st (jstat db)"
    using insert_event_act [OF f(1)] f(2,3) by (simp add: jstat_def set_stat_def map_if_def)
  have "(jid, j_status j) \<in> set (jstat db)"
    using find_Some_iff' [OF j [unfolded find_job_def]] by (auto simp: jstat_def)
  then have "\<And>s. (jid, s) \<in> set (jstat db) \<Longrightarrow> \<not> finished s"
    using jstat_unique [OF assms(2)] f(4) by blast
  then show ?thesis by (blast intro: set_stat_keeps [OF js])
qed

lemma live_step_keeps_finished:
  assumes "live_step M db db'" "live_inv M db"
  shows "keeps_finished db db' \<or> (\<exists>X. db' = purge X db)"
  using assms
proof (induction rule: live_step.induct)
  case (8 now d db ps db')
  then have "wf_db db" by (simp add: live_inv_def orch_inv_def)
  with 8(1) prune_history_spec [of db now d] show ?case by auto
next
  case (9 cfg now name db b db')
  have "jobs db' = jobs db"
    using 9(1) by (auto simp: try_acquire_leader_lease_def Let_def split: option.splits if_splits)
  then show ?case by (auto simp: jstat_def intro: keeps_finished_same)
qed (auto simp: live_inv_def orch_inv_def intro: create_keeps_finished cancel_keeps_finished
      claim_jobs_keeps_finished progress_keeps_finished complete_settles fail_settles
      settles_keeps sweep_keeps_finished)

text \<open>C2. A finished job is final. When nodes report only on active attempts, no transaction
  moves a completed, failed, canceled or timed out job to another status; pruning removes it or
  leaves it as it is.\<close>

theorem finished_is_final:
  assumes "live_reachable M db" "1 \<le> M" "live_step M db db'"
    and "j \<in> set (jobs db)" "j_status j \<in> set terminal_statuses"
  shows "(\<exists>j' \<in> set (jobs db'). j_id j' = j_id j \<and> j_status j' = j_status j) \<or> \<not> has_job db' (j_id j)"
proof -
  have inv: "live_inv M db" by (rule live_reachable_inv [OF assms(1,2)])
  consider "keeps_finished db db'" | X where "db' = purge X db"
    using live_step_keeps_finished [OF assms(3) inv] by blast
  then show ?thesis
  proof cases
    case 1
    then have "(j_id j, j_status j) \<in> set (jstat db')"
      using assms(4,5) by (force simp: keeps_finished_def finished_def jstat_def)
    then show ?thesis by (force simp: jstat_def)
  next
    case 2
    then show ?thesis using assms(4) by (auto simp: purge_def has_job_def)
  qed
qed

lemma demo_done_live: "live_step 3 demo_again demo_done"
proof -
  have "live demo_again 6" unfolding live_def active_def by code_simp
  then show ?thesis
    unfolding demo_done_def by (rule live_step.intros(5) [OF result_dbI [OF demo_runs(5)]])
qed

lemma finished_is_final_witness:
  "\<exists>j' \<in> set (jobs (result_db (cancel_job 80000000 0 demo_done))).
     j_id j' = 0 \<and> j_status j' = Completed"
proof -
  have j: "hd (jobs demo_done) \<in> set (jobs demo_done)" "j_id (hd (jobs demo_done)) = 0"
    "j_status (hd (jobs demo_done)) = Completed" "\<not> isl (cancel_job 80000000 0 demo_done)"
    "has_job (result_db (cancel_job 80000000 0 demo_done)) 0"
    by code_simp+
  obtain v where "cancel_job 80000000 0 demo_done = Inr (v, result_db (cancel_job 80000000 0 demo_done))"
    using result_dbI [OF j(4)] by auto
  then have s: "live_step 3 demo_done (result_db (cancel_job 80000000 0 demo_done))"
    by (rule live_step.intros)
  show ?thesis
    using finished_is_final [OF live_reach_step [OF demo_live(2) demo_done_live] _ s j(1)] j(2,3,5)
    by (simp add: terminal_statuses_def)
qed

section \<open>One leader at a time\<close>

text \<open>A sequence of attempts to take the lease, each by a controller at an instant, and the
  attempts that succeed.\<close>

fun lease_run :: "string \<Rightarrow> (orchestrator \<times> instant) list \<Rightarrow> orch_db \<Rightarrow> (string \<times> instant) list" where
  "lease_run name [] db = []"
| "lease_run name ((cfg, now) # calls) db =
     (let (ok, db') = try_acquire_leader_lease cfg now name db in
      (if ok then [(o_controller_instance_id cfg, now)] else []) @ lease_run name calls db')"

definition lease_row :: "string \<Rightarrow> orch_db \<Rightarrow> leader_lease option" where
  "lease_row name db = List.find (\<lambda>l. l_name l = name) (leader_leases db)"

lemma acquire_cases:
  assumes "try_acquire_leader_lease cfg now name db = (ok, db')"
  obtains (won) l where "ok" "lease_row name db' = Some l" "l_holder l = o_controller_instance_id cfg"
      "l_expires l = now + seconds (o_leader_lease_seconds cfg)"
      "\<And>k. lease_row name db = Some k \<Longrightarrow> l_holder k = o_controller_instance_id cfg \<or> l_expires k < now"
    | (lost) k where "\<not> ok" "db' = db" "lease_row name db = Some k"
      "l_holder k \<noteq> o_controller_instance_id cfg" "now \<le> l_expires k"
proof (cases "lease_row name db")
  case None
  then have f: "List.find (\<lambda>l. l_name l = name) (leader_leases db) = None" by (simp add: lease_row_def)
  show ?thesis
    by (rule won) (use assms f None in \<open>auto simp: try_acquire_leader_lease_def Let_def lease_row_def find_append\<close>)
next
  case (Some k)
  then have f: "List.find (\<lambda>l. l_name l = name) (leader_leases db) = Some k" by (simp add: lease_row_def)
  have n: "l_name k = name" using find_Some_iff' [OF f] by simp
  show ?thesis
  proof (cases "l_holder k = o_controller_instance_id cfg \<or> l_expires k < now")
    case True
    let ?u = "\<lambda>l. l\<lparr>l_holder := o_controller_instance_id cfg,
      l_expires := now + seconds (o_leader_lease_seconds cfg), l_updated := now\<rparr>"
    have db': "ok" "leader_leases db' = map_if (\<lambda>l. l_name l = name) ?u (leader_leases db)"
      using assms f True by (auto simp: try_acquire_leader_lease_def Let_def)
    have "lease_row name db' = Some (?u k)"
      unfolding lease_row_def db'(2) by (subst find_map_if) (simp_all add: f n)
    with True db'(1) Some show ?thesis by (intro won [of "?u k"]) auto
  next
    case False
    with assms f Some show ?thesis
      by (intro lost [of k]) (auto simp: try_acquire_leader_lease_def Let_def)
  qed
qed

lemma lease_run_times:
  "(h, t) \<in> set (lease_run name calls db) \<Longrightarrow> \<exists>c \<in> set calls. snd c = t"
proof (induction calls arbitrary: db)
  case (Cons c calls)
  obtain cfg now where c: "c = (cfg, now)" by (cases c)
  obtain ok db' where r: "try_acquire_leader_lease cfg now name db = (ok, db')"
    by (cases "try_acquire_leader_lease cfg now name db")
  from Cons.prems have "t = now \<or> (h, t) \<in> set (lease_run name calls db')"
    by (auto simp: c r split: if_splits)
  with Cons.IH show ?case by (auto simp: c)
qed simp

lemma lease_run_later:
  assumes "sorted (map snd calls)" "(h, t) \<in> set (lease_run name calls db)"
    and "\<And>c. c \<in> set calls \<Longrightarrow> o_leader_lease_seconds (fst c) = L" "0 \<le> L"
    and "lease_row name db = Some k" "l_holder k \<noteq> h"
    and "\<And>c. c \<in> set calls \<Longrightarrow> l_expires k - seconds L \<le> snd c"
  shows "l_expires k < t"
  using assms
proof (induction calls arbitrary: db k)
  case Nil
  then show ?case by simp
next
  case (Cons c calls)
  obtain cfg now where c: "c = (cfg, now)" by (cases c)
  obtain ok db' where r: "try_acquire_leader_lease cfg now name db = (ok, db')"
    by (cases "try_acquire_leader_lease cfg now name db")
  have L: "o_leader_lease_seconds cfg = L" and now: "l_expires k - seconds L \<le> now"
    using Cons.prems(3) [of c] Cons.prems(7) [of c] by (simp_all add: c)
  have tl: "sorted (map snd calls)" "\<And>c. c \<in> set calls \<Longrightarrow> o_leader_lease_seconds (fst c) = L"
    "\<And>c. c \<in> set calls \<Longrightarrow> now \<le> snd c"
    using Cons.prems(1,3) by (auto simp: c)
  from r show ?case
  proof (cases rule: acquire_cases)
    case (won l)
    show ?thesis
    proof (cases "(h, t) \<in> set (lease_run name calls db')")
      case True
      show ?thesis
      proof (cases "l_holder l = h")
        case True
        with won Cons.prems(5,6) have "l_expires k < now" by auto
        moreover have "now \<le> t"
          using lease_run_times [OF \<open>(h, t) \<in> set (lease_run name calls db')\<close>] tl(3) by blast
        ultimately show ?thesis by simp
      next
        case other: False
        have "l_expires l < t"
          by (rule Cons.IH [OF tl(1) True tl(2) Cons.prems(4) won(2) other]) (use won(4) L tl(3) in auto)
        with won(4) L now show ?thesis by simp
      qed
    next
      case False
      with Cons.prems(2) won(1) have "h = o_controller_instance_id cfg" "t = now"
        by (auto simp: c r)
      with won Cons.prems(5,6) show ?thesis by auto
    qed
  next
    case (lost k')
    with Cons.prems(2) have "(h, t) \<in> set (lease_run name calls db)" by (auto simp: c r)
    from Cons.IH [OF tl(1) this tl(2) Cons.prems(4-6)] Cons.prems(7) show ?thesis by simp
  qed
qed


definition demo_cfg :: "string \<Rightarrow> orchestrator" where
  "demo_cfg me = \<lparr>o_lease_timeout_seconds = 60, o_max_attempts = 3, o_retention_days = 30,
     o_archive_retention_days = 30, o_controller_instance_id = me, o_leader_lease_seconds = 30\<rparr>"


section \<open>The event stream of a job\<close>

lemma unseen_Cons:
  "unseen seen (e # es) =
     (if e_id e \<in> seen then unseen seen es
      else (e # fst (unseen (insert (e_id e) seen) es), snd (unseen (insert (e_id e) seen) es)))"
  by (simp add: split_beta)

lemma unseen_ids: "e_id ` set (fst (unseen seen es)) = e_id ` set es - seen"
  by (induction es arbitrary: seen) (auto simp: unseen_Cons simp del: unseen.simps(2))

lemma unseen_distinct: "distinct (map e_id (fst (unseen seen es)))"
proof (induction es arbitrary: seen)
  case (Cons e es)
  then show ?case
    using unseen_ids [of "insert (e_id e) seen" es]
    by (auto simp: unseen_Cons simp del: unseen.simps(2))
qed simp

lemma unseen_seen: "snd (unseen seen es) = seen \<union> e_id ` set es"
  by (induction es arbitrary: seen) (auto simp: unseen_Cons simp del: unseen.simps(2))

lemma stream_fresh:
  assumes "stream_job_events jid seen snaps = Inr (out, fin)"
  shows "distinct (map e_id out) \<and> e_id ` set out \<inter> seen = {}"
  using assms
proof (induction snaps arbitrary: seen out fin)
  case Nil
  then show ?case by simp
next
  case (Cons s snaps)
  obtain db1 db2 where s: "s = (db1, db2)" by (cases s)
  obtain o1 seen' where u: "unseen seen (list_job_events db1 jid 1000) = (o1, seen')"
    by (cases "unseen seen (list_job_events db1 jid 1000)")
  have us: "distinct (map e_id o1)" "e_id ` set o1 = e_id ` set (list_job_events db1 jid 1000) - seen"
    "seen' = seen \<union> e_id ` set (list_job_events db1 jid 1000)"
    using unseen_distinct [of seen "list_job_events db1 jid 1000"]
      unseen_ids [of seen "list_job_events db1 jid 1000"]
      unseen_seen [of seen "list_job_events db1 jid 1000"] u by simp_all
  from Cons.prems obtain v where v: "get_job db2 jid = Inr v"
    by (auto simp: s u bindE_Inr)
  show ?case
  proof (cases "j_status (v_job v) \<in> set terminal_statuses")
    case True
    with Cons.prems have "out = o1" by (simp add: s u v)
    with us(1,2) show ?thesis by auto
  next
    case False
    with Cons.prems obtain o2 where r: "stream_job_events jid seen' snaps = Inr (o2, fin)"
      and o: "out = o1 @ o2"
      by (auto simp: s u v bindE_Inr)
    from Cons.IH [OF r] us(1,2) show ?thesis unfolding o us(3) by auto
  qed
qed

text \<open>However transactions commit between its reads, the stream delivers no event twice.\<close>

theorem stream_once:
  assumes "stream_job_events jid {} snaps = Inr (out, fin)"
  shows "distinct (map e_id out)"
  using stream_fresh [OF assms] by simp

lemma stream_once_witness:
  "distinct (map e_id (fst (projr (stream_job_events 0 {}
     [(demo_claimed, demo_claimed), (demo_done, demo_done)]))))"
proof -
  have "\<not> isl (stream_job_events 0 {} [(demo_claimed, demo_claimed), (demo_done, demo_done)])"
    by code_simp
  then obtain out fin where r: "stream_job_events 0 {} [(demo_claimed, demo_claimed), (demo_done, demo_done)]
      = Inr (out, fin)" by (metis isl_def prod.exhaust sum.exhaust)
  from stream_once [OF r] show ?thesis by (simp only: r sum.sel fst_conv)
qed

lemma unseen_all: "distinct (map e_id es) \<Longrightarrow> e_id ` set es \<inter> seen = {} \<Longrightarrow> fst (unseen seen es) = es"
  by (induction es arbitrary: seen) (auto split: prod.splits simp: prod_eq_iff)

text \<open>When nothing commits while the stream of a finished job is read, the stream delivers
  exactly the first thousand events of the job in order of time, and ends. Events beyond the
  thousandth are never delivered.\<close>

theorem stream_quiet:
  assumes "orch_reachable M db" "1 \<le> M" "j \<in> set (jobs db)" "j_status j \<in> set terminal_statuses"
  shows "stream_job_events (j_id j) {} [(db, db)] =
    Inr (take 1000 (sort_key e_created (filter (\<lambda>e. e_job e = j_id j) (events db))), True)"
proof -
  have wf: "wf_db db" using reachable_inv [OF assms(1,2)] by (simp add: orch_inv_def)
  then have d: "distinct (map j_id (jobs db))" "distinct (map e_id (events db))"
    by (simp_all add: wf_db_def keys_ok_def)
  have "mset (map e_id (sort_key e_created (filter (\<lambda>e. e_job e = j_id j) (events db)))) =
      mset (map e_id (filter (\<lambda>e. e_job e = j_id j) (events db)))" by simp
  then have "distinct (map e_id (sort_key e_created (filter (\<lambda>e. e_job e = j_id j) (events db))))"
    using d(2) by (metis distinct_map_filter mset_eq_imp_distinct_iff)
  then have "distinct (map e_id (list_job_events db (j_id j) 1000))"
    by (simp add: list_job_events_def sql_limit_def take_map [symmetric])
  then have u: "fst (unseen {} (list_job_events db (j_id j) 1000)) = list_job_events db (j_id j) 1000"
    by (simp add: unseen_all)
  have f: "get_job db (j_id j) = Inr ((job_row_to_dict j)\<lparr>v_artifacts := list_artifacts db (j_id j)\<rparr>)"
    using find_unique [OF d(1) assms(3)] by (simp add: get_job_def find_job_def)
  show ?thesis
    using u assms(4)
    by (auto simp: f job_row_to_dict_def list_job_events_def sql_limit_def split: prod.splits)
qed

lemma stream_quiet_witness:
  "\<exists>out. stream_job_events 0 {} [(demo_done, demo_done)] = Inr (out, True) \<and> length out = 7"
proof -
  have j: "hd (jobs demo_done) \<in> set (jobs demo_done)" "j_id (hd (jobs demo_done)) = 0"
    "j_status (hd (jobs demo_done)) \<in> set terminal_statuses"
    "length (filter (\<lambda>e. e_job e = 0) (events demo_done)) = 7"
    by code_simp+
  show ?thesis using stream_quiet [OF demo_reachable(6) _ j(1,3)] j(2,4) by simp
qed

section \<open>Where the code does not do what it means to\<close>

text \<open>The stream of a job can end without its last events. The generator reads the events
  before the status: when the job completes in between, the status it reads is final and it
  stops, and the completion event, committed in the same transaction as the status, is never
  sent.\<close>

theorem stream_misses_completion:
  "orch_reachable 3 demo_again \<and> orch_step 3 demo_again demo_done \<and>
   (\<exists>out. stream_job_events 0 {} [(demo_again, demo_done)] = Inr (out, True) \<and>
     ''job_completed'' \<in> e_type ` set (events demo_done) \<and>
     ''job_completed'' \<notin> e_type ` set out)"
proof (intro conjI)
  show "orch_reachable 3 demo_again" by (rule demo_reachable)
  show "orch_step 3 demo_again demo_done" by (rule live_step_orch [OF demo_done_live])
  have "case stream_job_events 0 {} [(demo_again, demo_done)] of Inl _ \<Rightarrow> False
    | Inr (out, fin) \<Rightarrow> fin \<and> ''job_completed'' \<in> e_type ` set (events demo_done) \<and>
       ''job_completed'' \<notin> e_type ` set out"
    by code_simp
  then show "\<exists>out. stream_job_events 0 {} [(demo_again, demo_done)] = Inr (out, True) \<and>
     ''job_completed'' \<in> e_type ` set (events demo_done) \<and> ''job_completed'' \<notin> e_type ` set out"
    by (auto split: sum.splits prod.splits)
qed

text \<open>A late report undoes the discipline. The code checks that the node owns the attempt it
  reports on, and not that the attempt is still active. After the sweeper has expired an attempt
  and another node has claimed the job, a progress report of the first node revives its
  attempt, so that two nodes work on the job; and after the second node has completed the job,
  a retryable failure report of the first queues the completed job again.\<close>

theorem late_report_breaks_discipline:
  "orch_reachable 3 demo_late \<and> length (filter active (attempts_of demo_late 0)) = 2 \<and>
   orch_reachable 3 demo_done \<and> map j_status (jobs demo_done) = [Completed] \<and>
   orch_step 3 demo_done demo_undone \<and> map j_status (jobs demo_undone) = [Queued]"
proof (intro conjI)
  show "orch_reachable 3 demo_late" "orch_reachable 3 demo_done" by (rule demo_reachable)+
  show "orch_step 3 demo_done demo_undone"
    unfolding demo_undone_def by (rule demo_steps(6) [OF demo_runs(6)])
qed (unfold active_def, code_simp+)

text \<open>The sweeper forgets a cancellation. When a node that holds a job marked for
  cancellation goes silent, the sweep of its lease queues the job again instead of canceling
  it, and nothing of the cancel request is left: a node can claim the job and run it.\<close>

theorem sweep_forgets_cancellation:
  "orch_reachable 3 demo_cancel \<and> map j_status (jobs demo_cancel) = [CancelRequested] \<and>
   orch_step 3 demo_cancel demo_cancel_lost \<and> map j_status (jobs demo_cancel_lost) = [Queued] \<and>
   (\<exists>cs db'. claim_jobs 70000001 ''n2'' 1 60 None None demo_cancel_lost = Inr (cs, db') \<and>
      map (\<lambda>c. j_id (v_job (c_job c))) cs = [0])"
proof (intro conjI)
  show "orch_reachable 3 demo_cancel" by (rule demo_reachable)
  show "orch_step 3 demo_cancel demo_cancel_lost"
    unfolding demo_cancel_lost_def by (rule demo_steps(4) [OF demo_runs(8)])
  have "case claim_jobs 70000001 ''n2'' 1 60 None None demo_cancel_lost of Inl _ \<Rightarrow> False
    | Inr (cs, db') \<Rightarrow> map (\<lambda>c. j_id (v_job (c_job c))) cs = [0]" by code_simp
  then show "\<exists>cs db'. claim_jobs 70000001 ''n2'' 1 60 None None demo_cancel_lost = Inr (cs, db') \<and>
      map (\<lambda>c. j_id (v_job (c_job c))) cs = [0]"
    by (auto split: sum.splits)
qed code_simp+

end
