(* ===== verification/Routing.thy ===== *)
theory Routing
  imports Py_Text "HOL-Library.Product_Lexorder"
begin

text \<open>
  The routing policy of threads (\<open>core/threads/routing.py\<close>): which node and model answer a
  message.

  The probes (is a model running on a node, is it available, which artifact is there, may the
  node start it) ask other machines, and the plugin is configured code: they are fields of the
  policy record. A probe answers or raises, and its answer to one question does not change while
  one route is chosen. A candidate is the dictionary of the code, with one field for each key;
  a key that was not set is \<open>None\<close>.
\<close>

section \<open>Data\<close>

record request_type_config =
  rt_model :: string
  rt_priority :: int

record node_config =
  nc_url :: string
  nc_api_key :: "string option"
  nc_verify_tls :: bool
  nc_default_model :: "string option"
  nc_request_types :: "(string \<times> request_type_config) list"
  nc_max_running :: "int option"

record candidate =
  cd_node :: string
  cd_model :: string
  cd_source :: string
  cd_priority :: "int option"
  cd_running :: "bool option"
  cd_available :: "bool option"
  cd_artifact :: "string option option"
  cd_errors :: "(string \<times> exn) list"

record classifier_hint =
  h_request_type :: "string option"
  h_confidence :: rat
  h_constraints :: pydict

datatype route_decision = RouteDecision
  (rd_node: string) (rd_model: string) (rd_strategy: string) (rd_reason: string)
  (rd_candidates: "candidate list") (rd_fanout: "route_decision list")
  (rd_hint: "classifier_hint option") (rd_startup_needed: bool)
  (rd_startup_decision: "string option")

type_synonym 'a probe = "string \<Rightarrow> string \<Rightarrow> exn + 'a"

type_synonym routing_plugin =
  "string \<Rightarrow> string option \<Rightarrow> string \<Rightarrow> pydict option \<Rightarrow> classifier_hint option
     \<Rightarrow> exn + route_decision option"

record routing_policy =
  pl_mode :: string
  pl_models :: "string list"
  pl_nodes :: "(string \<times> node_config) list"
  pl_fanout_enabled :: bool
  pl_fanout_max :: int
  pl_model_running :: "bool probe"
  pl_model_available :: "bool probe"
  pl_artifact_presence :: "string option probe option"
  pl_startup_allowed :: "bool probe option"
  pl_plugin :: "routing_plugin option"

definition new_candidate :: "string \<Rightarrow> string \<Rightarrow> string \<Rightarrow> int option \<Rightarrow> candidate" where
  "new_candidate node model source prio =
     \<lparr>cd_node = node, cd_model = model, cd_source = source, cd_priority = prio, cd_running = None,
      cd_available = None, cd_artifact = None, cd_errors = []\<rparr>"

definition plain_decision :: "string \<Rightarrow> string \<Rightarrow> string \<Rightarrow> string \<Rightarrow> candidate list \<Rightarrow> route_decision" where
  "plain_decision node model strategy reason cands =
     RouteDecision node model strategy reason cands [] None False None"

text \<open>\<open>a or b\<close> on optional strings.\<close>

definition or_str :: "string option \<Rightarrow> string option \<Rightarrow> string option" where
  "or_str a b = (case a of Some s \<Rightarrow> if s = [] then b else a | None \<Rightarrow> b)"

section \<open>Probing a candidate\<close>

definition record_error :: "string \<Rightarrow> exn \<Rightarrow> candidate \<Rightarrow> candidate" where
  "record_error check e c = c\<lparr>cd_errors := cd_errors c @ [(check, e)]\<rparr>"

definition candidate_running :: "routing_policy \<Rightarrow> candidate \<Rightarrow> bool \<times> candidate" where
  "candidate_running pl c =
     (case pl_model_running pl (cd_node c) (cd_model c) of
        Inl e \<Rightarrow> (False, record_error ''model_running'' e c)
      | Inr b \<Rightarrow> (b, c))"

definition candidate_available :: "routing_policy \<Rightarrow> candidate \<Rightarrow> bool \<times> candidate" where
  "candidate_available pl c =
     (case pl_model_available pl (cd_node c) (cd_model c) of
        Inl e \<Rightarrow> (False, record_error ''model_available'' e c)
      | Inr b \<Rightarrow> (b, c))"

definition candidate_presence :: "string option probe \<Rightarrow> candidate \<Rightarrow> string option \<times> candidate" where
  "candidate_presence presence c =
     (case presence (cd_node c) (cd_model c) of
        Inl e \<Rightarrow> (None, record_error ''artifact_presence'' e c)
      | Inr s \<Rightarrow> (s, c))"

definition candidate_startup :: "routing_policy \<Rightarrow> candidate \<Rightarrow> bool \<times> candidate" where
  "candidate_startup pl c =
     (case pl_startup_allowed pl of
        None \<Rightarrow> (True, c)
      | Some allowed \<Rightarrow>
          (case allowed (cd_node c) (cd_model c) of
             Inl e \<Rightarrow> (True, record_error ''startup_allowed'' e c)
           | Inr b \<Rightarrow> (b, c)))"

definition startup_text :: "bool \<Rightarrow> string" where
  "startup_text ok = (if ok then ''start_now'' else ''defer'')"

section \<open>The availability pass\<close>

fun artifact_states :: "string option probe \<Rightarrow> candidate list \<Rightarrow> candidate list" where
  "artifact_states presence [] = []"
| "artifact_states presence (c # cs) =
     (let (s, c1) = candidate_presence presence c
      in c1\<lparr>cd_artifact := Some s\<rparr> # artifact_states presence cs)"

text \<open>The position of the first candidate in a state.\<close>

fun position :: "('a \<Rightarrow> bool) \<Rightarrow> 'a list \<Rightarrow> nat option" where
  "position p [] = None"
| "position p (x # xs) = (if p x then Some 0 else map_option Suc (position p xs))"

definition in_state :: "string \<Rightarrow> candidate \<Rightarrow> bool" where
  "in_state s c = (cd_artifact c = Some (Some s))"

fun available_scan :: "routing_policy \<Rightarrow> candidate list \<Rightarrow> candidate list \<times> (candidate \<times> bool) option" where
  "available_scan pl [] = ([], None)"
| "available_scan pl (c # cs) =
     (let (ok, c1) = candidate_available pl c in
      if ok
      then (let (start, c2) = candidate_startup pl (c1\<lparr>cd_available := Some True\<rparr>)
            in (c2 # cs, Some (c2, start)))
      else (let (cs', r) = available_scan pl cs in (c1\<lparr>cd_available := Some False\<rparr> # cs', r)))"

definition choose_available ::
  "routing_policy \<Rightarrow> candidate list \<Rightarrow> string \<Rightarrow> route_decision option" where
  "choose_available pl cands prefix =
     (case pl_artifact_presence pl of
        Some presence \<Rightarrow>
          (let cs = artifact_states presence cands in
           case (case position (in_state ''registered'') cs of
                   Some i \<Rightarrow> Some i | None \<Rightarrow> position (in_state ''gguf_present'') cs) of
             None \<Rightarrow> None
           | Some i \<Rightarrow>
               (let (start, c) = candidate_startup pl (cs ! i) in
                Some (RouteDecision (cd_node c) (cd_model c) ''deterministic''
                  (prefix @ ''_artifact_'' @
                    (case cd_artifact c of Some (Some s) \<Rightarrow> s | _ \<Rightarrow> ''None''))
                  (cs[i := c]) [] None True (Some (startup_text start)))))
      | None \<Rightarrow>
          (case available_scan pl cands of
             (cs, None) \<Rightarrow> None
           | (cs, Some (c, start)) \<Rightarrow>
               Some (RouteDecision (cd_node c) (cd_model c) ''deterministic''
                 (prefix @ ''_model_available'') cs [] None True (Some (startup_text start)))))"

section \<open>The strategies\<close>

definition previous_route_model :: "pydict option \<Rightarrow> string option" where
  "previous_route_model prev =
     (case prev of None \<Rightarrow> None
      | Some d \<Rightarrow> (case dget d ''model'' of PStr m \<Rightarrow> if m = [] then None else Some m | _ \<Rightarrow> None))"

definition single_local_model :: "routing_policy \<Rightarrow> string option" where
  "single_local_model pl = (case pl_models pl of [m] \<Rightarrow> Some m | _ \<Rightarrow> None)"

definition no_eligible :: string where
  "no_eligible = ''No eligible running model found''"

definition choose_local_agent ::
  "routing_policy \<Rightarrow> string option \<Rightarrow> pydict option \<Rightarrow> string + route_decision" where
  "choose_local_agent pl requested prev =
     (case or_str requested (or_str (previous_route_model prev) (single_local_model pl)) of
        None \<Rightarrow> Inl no_eligible
      | Some model \<Rightarrow>
          (let (ok, c) = candidate_running pl (new_candidate ''local'' model ''local'' None) in
           if ok then Inr (plain_decision ''local'' model ''deterministic'' ''local_agent''
                              [c\<lparr>cd_running := Some True\<rparr>])
           else Inl no_eligible))"

definition choose_explicit_node ::
  "routing_policy \<Rightarrow> string \<Rightarrow> string option \<Rightarrow> string + route_decision" where
  "choose_explicit_node pl node requested =
     (case map_of (pl_nodes pl) node of
        None \<Rightarrow> Inl (''Unknown node target: '' @ node)
      | Some nc \<Rightarrow>
          (case or_str requested (nc_default_model nc) of
             None \<Rightarrow> Inl (''No model specified for node target: '' @ node)
           | Some model \<Rightarrow>
               (let (ok, c) = candidate_running pl (new_candidate node model ''explicit'' None) in
                if ok then Inr (plain_decision node model ''explicit'' ''explicit_target'' [c])
                else (case choose_available pl [c] ''explicit_target'' of
                        Some (RouteDecision n m st re cs fo hi sn sd) \<Rightarrow>
                          Inr (RouteDecision n m ''explicit'' re cs fo hi sn sd)
                      | None \<Rightarrow> Inl (''No eligible running model found for node target: '' @ node)))))"

definition choose_thread_affinity :: "routing_policy \<Rightarrow> pydict option \<Rightarrow> route_decision option" where
  "choose_thread_affinity pl prev =
     (case prev of None \<Rightarrow> None
      | Some d \<Rightarrow>
          (case (dget d ''node'', dget d ''model'') of
             (PStr node, PStr model) \<Rightarrow>
               if map_of (pl_nodes pl) node = None then None
               else (let (ok, c) = candidate_running pl (new_candidate node model ''previous_route'' None) in
                     if ok then Some (plain_decision node model ''deterministic'' ''thread_affinity'' [c])
                     else None)
           | _ \<Rightarrow> None))"

definition request_type_candidates :: "routing_policy \<Rightarrow> string \<Rightarrow> candidate list" where
  "request_type_candidates pl ty =
     sort_key (\<lambda>c. (case cd_priority c of None \<Rightarrow> 0 | Some p \<Rightarrow> p, cd_node c))
       (concat (map (\<lambda>(name, nc). case map_of (nc_request_types nc) ty of
            None \<Rightarrow> []
          | Some r \<Rightarrow> [new_candidate name (rt_model r) ''request_type'' (Some (rt_priority r))])
        (pl_nodes pl)))"

fun running_scan :: "routing_policy \<Rightarrow> candidate list \<Rightarrow> candidate list \<times> candidate option" where
  "running_scan pl [] = ([], None)"
| "running_scan pl (c # cs) =
     (let (ok, c1) = candidate_running pl c in
      if ok then (c1\<lparr>cd_running := Some True\<rparr> # cs, Some c1)
      else (let (cs', r) = running_scan pl cs in (c1\<lparr>cd_running := Some False\<rparr> # cs', r)))"

definition choose_request_type :: "routing_policy \<Rightarrow> string \<Rightarrow> route_decision option" where
  "choose_request_type pl ty =
     (case running_scan pl (request_type_candidates pl ty) of
        (cs, Some c) \<Rightarrow>
          Some (plain_decision (cd_node c) (cd_model c) ''deterministic'' ''request_type'' cs)
      | (cs, None) \<Rightarrow> choose_available pl cs ''request_type'')"

text \<open>The nodes in order of name. A node without a model for the request is passed over; the
  list of candidates ends with the one that is running.\<close>

fun fallback_scan ::
  "routing_policy \<Rightarrow> string option \<Rightarrow> string list \<Rightarrow> candidate list \<times> candidate option" where
  "fallback_scan pl requested [] = ([], None)"
| "fallback_scan pl requested (name # names) =
     (case or_str requested (case map_of (pl_nodes pl) name of None \<Rightarrow> None
                             | Some nc \<Rightarrow> nc_default_model nc) of
        None \<Rightarrow> fallback_scan pl requested names
      | Some model \<Rightarrow>
          (let (ok, c) = candidate_running pl (new_candidate name model ''fallback'' None) in
           if ok then ([c\<lparr>cd_running := Some True\<rparr>], Some c)
           else (let (cs, r) = fallback_scan pl requested names
                 in (c\<lparr>cd_running := Some False\<rparr> # cs, r))))"

definition choose_fallback :: "routing_policy \<Rightarrow> string option \<Rightarrow> route_decision option" where
  "choose_fallback pl requested =
     (case fallback_scan pl requested (sort (map fst (pl_nodes pl))) of
        (cs, Some c) \<Rightarrow>
          Some (plain_decision (cd_node c) (cd_model c) ''deterministic'' ''fallback'' cs)
      | (cs, None) \<Rightarrow> choose_available pl cs ''fallback'')"

section \<open>Fan-out\<close>

fun fanout_scan :: "routing_policy \<Rightarrow> string \<Rightarrow> nat \<Rightarrow> candidate list \<Rightarrow> route_decision list" where
  "fanout_scan pl primary slots [] = []"
| "fanout_scan pl primary slots (c # cs) =
     (if slots = 0 then []
      else if cd_node c = primary then fanout_scan pl primary slots cs
      else (let (ok, c1) = candidate_running pl c in
            if ok then plain_decision (cd_node c) (cd_model c) ''deterministic'' ''fanout'' [c1]
                       # fanout_scan pl primary (slots - 1) cs
            else fanout_scan pl primary slots cs))"

definition collect_fanout_targets :: "routing_policy \<Rightarrow> route_decision \<Rightarrow> string \<Rightarrow> route_decision list" where
  "collect_fanout_targets pl primary ty =
     (if pl_fanout_max pl - 1 \<le> 0 then []
      else fanout_scan pl (rd_node primary) (nat (pl_fanout_max pl - 1)) (request_type_candidates pl ty))"

section \<open>Choosing\<close>

definition choose_deterministic ::
  "routing_policy \<Rightarrow> string \<Rightarrow> string option \<Rightarrow> string \<Rightarrow> pydict option \<Rightarrow> string + route_decision"
where
  "choose_deterministic pl ty requested target prev =
     (if pl_mode pl \<noteq> ''controller'' then choose_local_agent pl requested prev
      else if starts_with ''node:'' target
      then choose_explicit_node pl (remove_prefix ''node:'' target) requested
      else if target \<notin> {[], ''auto''} then Inl (''Unsupported explicit target: '' @ target)
      else (case choose_thread_affinity pl prev of
        Some d \<Rightarrow> Inr d
      | None \<Rightarrow>
     (case (if (case requested of None \<Rightarrow> False | Some m \<Rightarrow> CHR '':'' \<in> set m)
            then choose_fallback pl requested else None) of
        Some d \<Rightarrow> Inr d
      | None \<Rightarrow>
     (case choose_request_type pl ty of
        Some d \<Rightarrow>
          if pl_fanout_enabled pl
          then Inr (RouteDecision (rd_node d) (rd_model d) (rd_strategy d) (rd_reason d)
                 (rd_candidates d) (collect_fanout_targets pl d ty) None False None)
          else Inr d
      | None \<Rightarrow>
     (case choose_fallback pl requested of Some d \<Rightarrow> Inr d | None \<Rightarrow> Inl no_eligible)))))"

definition annotate_decision ::
  "classifier_hint option \<Rightarrow> string option \<Rightarrow> route_decision \<Rightarrow> route_decision" where
  "annotate_decision hint fallback d =
     (if hint = None \<and> fallback = None then d
      else (case d of RouteDecision n m st re cs fo hi sn sd \<Rightarrow>
        RouteDecision n m st (case fallback of None \<Rightarrow> re | Some f \<Rightarrow> re @ '' ('' @ f @ '')'')
          cs fo hint sn sd))"

definition effective_request_type :: "classifier_hint option \<Rightarrow> string \<Rightarrow> string" where
  "effective_request_type hint ty =
     (case hint of None \<Rightarrow> ty
      | Some h \<Rightarrow> (case h_request_type h of None \<Rightarrow> ty | Some t \<Rightarrow> if t = [] then ty else t))"

definition choose_route ::
  "routing_policy \<Rightarrow> string \<Rightarrow> string option \<Rightarrow> string \<Rightarrow> pydict option \<Rightarrow> classifier_hint option
     \<Rightarrow> string + route_decision" where
  "choose_route pl ty requested target prev hint =
     (let ety = effective_request_type hint ty;
          rest = (\<lambda>fb. map_sum id (annotate_decision hint fb)
                    (choose_deterministic pl ety requested target prev))
      in case pl_plugin pl of
           None \<Rightarrow> rest None
         | Some plugin \<Rightarrow>
             (case plugin ety requested target prev hint of
                Inr (Some d) \<Rightarrow> Inr d
              | Inr None \<Rightarrow> rest (Some ''plugin_returned_none'')
              | Inl e \<Rightarrow> rest (Some (''plugin_error:'' @ exn_type e))))"
section \<open>What a choice guarantees\<close>

definition running_on :: "routing_policy \<Rightarrow> string \<Rightarrow> string \<Rightarrow> bool" where
  "running_on pl n m \<longleftrightarrow> pl_model_running pl n m = Inr True"

definition present_on :: "routing_policy \<Rightarrow> string \<Rightarrow> string \<Rightarrow> bool" where
  "present_on pl n m =
     (case pl_artifact_presence pl of
        Some f \<Rightarrow> f n m = Inr (Some ''registered'') \<or> f n m = Inr (Some ''gguf_present'')
      | None \<Rightarrow> pl_model_available pl n m = Inr True)"

text \<open>A node that cannot be asked whether it may start a model is taken to allow it.\<close>

definition may_start :: "routing_policy \<Rightarrow> string \<Rightarrow> string \<Rightarrow> bool" where
  "may_start pl n m =
     (case pl_startup_allowed pl of None \<Rightarrow> True | Some f \<Rightarrow> f n m \<noteq> Inr False)"

text \<open>A decision is sound when its model is running on its node, or when the decision says that
  the model must be started first, the node has it, and the advice to start it now or later is
  what the node allows.\<close>

definition sound_decision :: "routing_policy \<Rightarrow> route_decision \<Rightarrow> bool" where
  "sound_decision pl d \<longleftrightarrow>
     (if rd_startup_needed d
      then present_on pl (rd_node d) (rd_model d) \<and>
        rd_startup_decision d = Some (startup_text (may_start pl (rd_node d) (rd_model d)))
      else running_on pl (rd_node d) (rd_model d))"

lemma candidate_running_iff:
  "fst (candidate_running pl c) \<longleftrightarrow> running_on pl (cd_node c) (cd_model c)"
  "cd_node (snd (candidate_running pl c)) = cd_node c"
  "cd_model (snd (candidate_running pl c)) = cd_model c"
  "cd_priority (snd (candidate_running pl c)) = cd_priority c"
  by (auto simp: candidate_running_def running_on_def record_error_def split: sum.splits)

lemma candidate_startup_iff:
  "fst (candidate_startup pl c) \<longleftrightarrow> may_start pl (cd_node c) (cd_model c)"
  "cd_node (snd (candidate_startup pl c)) = cd_node c"
  "cd_model (snd (candidate_startup pl c)) = cd_model c"
  "cd_artifact (snd (candidate_startup pl c)) = cd_artifact c"
  by (auto simp: candidate_startup_def may_start_def record_error_def split: sum.splits option.splits)

lemma candidate_available_iff:
  "fst (candidate_available pl c) \<longleftrightarrow> pl_model_available pl (cd_node c) (cd_model c) = Inr True"
  "cd_node (snd (candidate_available pl c)) = cd_node c"
  "cd_model (snd (candidate_available pl c)) = cd_model c"
  by (auto simp: candidate_available_def record_error_def split: sum.splits)

definition ckey :: "candidate \<Rightarrow> string \<times> string" where
  "ckey c = (cd_node c, cd_model c)"

definition state_of :: "string option probe \<Rightarrow> candidate \<Rightarrow> string option" where
  "state_of f c = (case f (cd_node c) (cd_model c) of Inl _ \<Rightarrow> None | Inr s \<Rightarrow> s)"

lemma artifact_states_map:
  "map (\<lambda>c. (ckey c, cd_artifact c)) (artifact_states f cs) =
     map (\<lambda>c. (ckey c, Some (state_of f c))) cs"
  by (induction cs) (auto simp: candidate_presence_def ckey_def state_of_def record_error_def
      split: sum.splits)

lemma artifact_states_nth:
  "i < length cs \<Longrightarrow> ckey (artifact_states f cs ! i) = ckey (cs ! i) \<and>
     cd_artifact (artifact_states f cs ! i) = Some (state_of f (cs ! i))"
  using arg_cong [OF artifact_states_map [of f cs], of "\<lambda>xs. xs ! i"]
    arg_cong [OF artifact_states_map [of f cs], of length]
  by simp

lemma length_artifact_states [simp]: "length (artifact_states f cs) = length cs"
  using arg_cong [OF artifact_states_map [of f cs], of length] by simp

lemma position_Some:
  "position p xs = Some i \<longleftrightarrow> i < length xs \<and> p (xs ! i) \<and> (\<forall>k < i. \<not> p (xs ! k))"
proof (induction xs arbitrary: i)
  case Nil
  then show ?case by simp
next
  case (Cons x xs)
  then show ?case by (cases i) (auto simp: All_less_Suc2)
qed

lemma position_None: "position p xs = None \<longleftrightarrow> (\<forall>x \<in> set xs. \<not> p x)"
  by (induction xs) auto

lemma available_scan_Some:
  assumes "available_scan pl cs = (cs', Some (c, start))"
  shows "\<exists>c0 \<in> set cs. ckey c = ckey c0 \<and> pl_model_available pl (cd_node c) (cd_model c) = Inr True \<and>
    start = may_start pl (cd_node c) (cd_model c)"
  using assms
proof (induction cs arbitrary: cs')
  case Nil
  then show ?case by simp
next
  case (Cons x xs)
  obtain ok c1 where a: "candidate_available pl x = (ok, c1)" by (cases "candidate_available pl x")
  note ai = candidate_available_iff [of pl x, unfolded a]
  show ?case
  proof (cases ok)
    case True
    obtain s c2 where st: "candidate_startup pl (c1\<lparr>cd_available := Some True\<rparr>) = (s, c2)"
      by (cases "candidate_startup pl (c1\<lparr>cd_available := Some True\<rparr>)")
    with Cons.prems True have "c = c2" "start = s" by (auto simp: a)
    with candidate_startup_iff [of pl "c1\<lparr>cd_available := Some True\<rparr>", unfolded st] ai True
    show ?thesis by (auto simp: ckey_def)
  next
    case False
    then obtain ys where "available_scan pl xs = (ys, Some (c, start))"
      using Cons.prems by (auto simp: a split: prod.splits)
    with Cons.IH show ?thesis by auto
  qed
qed

lemma choose_available_sound:
  assumes "choose_available pl cs prefix = Some d"
  shows "rd_startup_needed d \<and> sound_decision pl d \<and> (\<exists>c \<in> set cs. ckey c = (rd_node d, rd_model d)) \<and>
    rd_fanout d = []"
proof (cases "pl_artifact_presence pl")
  case None
  with assms obtain cs' c start where s: "available_scan pl cs = (cs', Some (c, start))"
    and d: "d = RouteDecision (cd_node c) (cd_model c) ''deterministic'' (prefix @ ''_model_available'')
      cs' [] None True (Some (startup_text start))"
    by (auto simp: choose_available_def split: prod.splits option.splits)
  with available_scan_Some [OF s] None show ?thesis
    by (auto simp: sound_decision_def present_on_def ckey_def)
next
  case (Some f)
  let ?cs = "artifact_states f cs"
  from assms Some obtain i where i: "(case position (in_state ''registered'') ?cs of
      Some i \<Rightarrow> Some i | None \<Rightarrow> position (in_state ''gguf_present'') ?cs) = Some i"
    by (auto simp: choose_available_def Let_def split: option.splits)
  then have len: "i < length cs" and st: "in_state ''registered'' (?cs ! i) \<or> in_state ''gguf_present'' (?cs ! i)"
    by (auto simp: position_Some split: option.splits)
  obtain start c where c: "candidate_startup pl (?cs ! i) = (start, c)"
    by (cases "candidate_startup pl (?cs ! i)")
  have d: "d = RouteDecision (cd_node c) (cd_model c) ''deterministic''
      (prefix @ ''_artifact_'' @ (case cd_artifact c of Some (Some s) \<Rightarrow> s | _ \<Rightarrow> ''None''))
      (?cs[i := c]) [] None True (Some (startup_text start))"
    using assms Some i c by (simp add: choose_available_def)
  note ci = candidate_startup_iff [of pl "?cs ! i", unfolded c]
  have k: "ckey c = ckey (cs ! i)"
    using ci artifact_states_nth [OF len, of f] by (simp add: ckey_def)
  have "state_of f (cs ! i) = Some ''registered'' \<or> state_of f (cs ! i) = Some ''gguf_present''"
    using st artifact_states_nth [OF len, of f] by (auto simp: in_state_def)
  then have "present_on pl (cd_node c) (cd_model c)"
    using k by (auto simp: present_on_def Some state_of_def ckey_def split: sum.splits)
  with d ci k len show ?thesis by (auto simp: sound_decision_def ckey_def intro!: bexI [of _ "cs ! i"])
qed

lemma running_scan_spec:
  assumes "running_scan pl cs = (cs', r)"
  shows "map ckey cs' = map ckey cs"
    "(case r of None \<Rightarrow> \<forall>c \<in> set cs. \<not> running_on pl (cd_node c) (cd_model c)
      | Some c \<Rightarrow> \<exists>i < length cs. ckey c = ckey (cs ! i) \<and> running_on pl (cd_node c) (cd_model c) \<and>
          (\<forall>k < i. \<not> running_on pl (cd_node (cs ! k)) (cd_model (cs ! k))))"
  using assms
proof (induction cs arbitrary: cs')
  case Nil
  { case 1 then show ?case by simp }
  { case 2 then show ?case by simp }
next
  case (Cons x xs)
  obtain ok c1 where a: "candidate_running pl x = (ok, c1)" by (cases "candidate_running pl x")
  note ai = candidate_running_iff [of pl x, unfolded a]
  obtain ys r' where ys: "running_scan pl xs = (ys, r')" by (cases "running_scan pl xs")
  { case 1
    then show ?case using ai Cons.IH(1) by (auto simp: a ckey_def split: if_splits prod.splits) }
  { case 2
    show ?case
    proof (cases ok)
      case True
      with 2 have "r = Some c1" by (simp add: a)
      with True ai show ?thesis by (auto simp: ckey_def intro!: exI [of _ 0])
    next
      case False
      with 2 ys have r: "r = r'" by (simp add: a)
      have n: "\<not> running_on pl (cd_node x) (cd_model x)" using False ai by simp
      show ?thesis
      proof (cases r)
        case None
        with Cons.IH(2) [OF ys [folded r]] n show ?thesis by simp
      next
        case (Some c)
        with Cons.IH(2) [OF ys [folded r]] obtain i where "i < length xs" "ckey c = ckey (xs ! i)"
          "running_on pl (cd_node c) (cd_model c)"
          "\<forall>k < i. \<not> running_on pl (cd_node (xs ! k)) (cd_model (xs ! k))" by auto
        moreover from this n have "\<forall>k < Suc i. \<not> running_on pl (cd_node ((x # xs) ! k)) (cd_model ((x # xs) ! k))"
          by (simp add: All_less_Suc2)
        ultimately show ?thesis using Some by (force intro: exI [of _ "Suc i"])
      qed
    qed }
qed

lemma running_scan_Some:
  "running_scan pl cs = (cs', Some c) \<Longrightarrow> \<exists>i < length cs. ckey c = ckey (cs ! i) \<and>
     running_on pl (cd_node c) (cd_model c) \<and>
     (\<forall>k < i. \<not> running_on pl (cd_node (cs ! k)) (cd_model (cs ! k)))"
  using running_scan_spec(2) by fastforce

lemma choose_request_type_sound:
  assumes "choose_request_type pl ty = Some d"
  shows "sound_decision pl d \<and>
    (\<exists>c \<in> set (request_type_candidates pl ty). ckey c = (rd_node d, rd_model d)) \<and> rd_fanout d = []"
proof -
  let ?cs = "request_type_candidates pl ty"
  obtain cs r where s: "running_scan pl ?cs = (cs, r)" by (cases "running_scan pl ?cs")
  show ?thesis
  proof (cases r)
    case None
    with assms s have "choose_available pl cs ''request_type'' = Some d"
      by (simp add: choose_request_type_def)
    from choose_available_sound [OF this] obtain c where
      d: "sound_decision pl d" "c \<in> set cs" "ckey c = (rd_node d, rd_model d)" "rd_fanout d = []" by blast
    have "ckey c \<in> ckey ` set ?cs"
      using d(2) running_scan_spec(1) [OF s] by (metis imageI list.set_map)
    with d show ?thesis by auto
  next
    case (Some c)
    with assms s have "d = plain_decision (cd_node c) (cd_model c) ''deterministic'' ''request_type'' cs"
      by (simp add: choose_request_type_def)
    with running_scan_Some [OF s [unfolded Some]] show ?thesis
      by (auto simp: sound_decision_def plain_decision_def ckey_def dest: nth_mem)
  qed
qed

lemma fallback_scan_Some:
  "fallback_scan pl req names = (cs, Some c) \<Longrightarrow>
     running_on pl (cd_node c) (cd_model c) \<and> cd_node c \<in> set names"
proof (induction names arbitrary: cs)
  case (Cons n names)
  show ?case
  proof (cases "or_str req (case map_of (pl_nodes pl) n of None \<Rightarrow> None | Some nc \<Rightarrow> nc_default_model nc)")
    case None
    with Cons show ?thesis by auto
  next
    case (Some m)
    let ?c = "new_candidate n m ''fallback'' None"
    obtain ok c1 where a: "candidate_running pl ?c = (ok, c1)" by (cases "candidate_running pl ?c")
    note ai = candidate_running_iff [of pl ?c, unfolded a]
    from Cons Some a ai show ?thesis
      by (cases ok) (auto simp: new_candidate_def split: prod.splits)
  qed
qed simp

lemma fallback_scan_nodes:
  "fst (fallback_scan pl req names) = cs \<Longrightarrow> c \<in> set cs \<Longrightarrow> cd_node c \<in> set names"
proof (induction names arbitrary: cs)
  case (Cons n names)
  show ?case
  proof (cases "or_str req (case map_of (pl_nodes pl) n of None \<Rightarrow> None | Some nc \<Rightarrow> nc_default_model nc)")
    case None
    with Cons show ?thesis by auto
  next
    case (Some m)
    let ?c = "new_candidate n m ''fallback'' None"
    obtain ok c1 where a: "candidate_running pl ?c = (ok, c1)" by (cases "candidate_running pl ?c")
    note ai = candidate_running_iff [of pl ?c, unfolded a]
    obtain ys r where "fallback_scan pl req names = (ys, r)" by (cases "fallback_scan pl req names")
    with Cons Some a ai show ?thesis
      by (cases ok) (auto simp: new_candidate_def)
  qed
qed simp

lemma choose_fallback_sound:
  assumes "choose_fallback pl req = Some d"
  shows "sound_decision pl d \<and> rd_node d \<in> fst ` set (pl_nodes pl) \<and> rd_fanout d = []"
proof -
  let ?ns = "sort (map fst (pl_nodes pl))"
  obtain cs r where s: "fallback_scan pl req ?ns = (cs, r)" by (cases "fallback_scan pl req ?ns")
  show ?thesis
  proof (cases r)
    case None
    with assms s have "choose_available pl cs ''fallback'' = Some d" by (simp add: choose_fallback_def)
    from choose_available_sound [OF this] obtain c where
      d: "sound_decision pl d" "c \<in> set cs" "ckey c = (rd_node d, rd_model d)" "rd_fanout d = []" by blast
    with fallback_scan_nodes [of pl req ?ns cs c] s show ?thesis by (auto simp: ckey_def)
  next
    case (Some c)
    with assms s have "d = plain_decision (cd_node c) (cd_model c) ''deterministic'' ''fallback'' cs"
      by (simp add: choose_fallback_def)
    with fallback_scan_Some [OF s [unfolded Some]] show ?thesis
      by (auto simp: sound_decision_def plain_decision_def)
  qed
qed
lemma choose_explicit_sound:
  assumes "choose_explicit_node pl n req = Inr d"
  shows "sound_decision pl d \<and> rd_node d = n \<and> n \<in> fst ` set (pl_nodes pl) \<and>
    rd_strategy d = ''explicit'' \<and> (\<forall>m. req = Some m \<and> m \<noteq> [] \<longrightarrow> rd_model d = m)"
proof -
  obtain nc model where n: "map_of (pl_nodes pl) n = Some nc"
    and m: "or_str req (nc_default_model nc) = Some model"
    using assms by (auto simp: choose_explicit_node_def split: option.splits)
  have mem: "n \<in> fst ` set (pl_nodes pl)" using n by (force dest: map_of_SomeD)
  have req: "\<forall>m. req = Some m \<and> m \<noteq> [] \<longrightarrow> model = m" using m by (auto simp: or_str_def)
  let ?c = "new_candidate n model ''explicit'' None"
  obtain ok c where a: "candidate_running pl ?c = (ok, c)" by (cases "candidate_running pl ?c")
  note ai = candidate_running_iff [of pl ?c, unfolded a]
  show ?thesis
  proof (cases ok)
    case True
    have "choose_explicit_node pl n req =
        Inr (plain_decision n model ''explicit'' ''explicit_target'' [c])"
      using n m a True by (simp add: choose_explicit_node_def)
    with assms have d: "d = plain_decision n model ''explicit'' ''explicit_target'' [c]" by simp
    have "running_on pl n model" using ai(1) True by (simp add: new_candidate_def)
    with mem req show ?thesis by (simp add: d plain_decision_def sound_decision_def)
  next
    case False
    show ?thesis
    proof (cases "choose_available pl [c] ''explicit_target''")
      case None
      with assms n m a False show ?thesis by (simp add: choose_explicit_node_def)
    next
      case (Some d')
      obtain n' m' st re cs fo hi sn sd where d': "d' = RouteDecision n' m' st re cs fo hi sn sd"
        by (cases d')
      have "choose_explicit_node pl n req = Inr (RouteDecision n' m' ''explicit'' re cs fo hi sn sd)"
        using n m a False Some by (simp add: choose_explicit_node_def d')
      then have "d = RouteDecision n' m' ''explicit'' re cs fo hi sn sd" using assms by simp
      then have d: "rd_node d = rd_node d'" "rd_model d = rd_model d'" "rd_strategy d = ''explicit''"
        "rd_startup_needed d = rd_startup_needed d'" "rd_startup_decision d = rd_startup_decision d'"
        by (simp_all add: d')
      from choose_available_sound [OF Some] ai d mem req show ?thesis
        by (auto simp: sound_decision_def ckey_def new_candidate_def)
    qed
  qed
qed

lemma choose_affinity_Some:
  assumes "choose_thread_affinity pl prev = Some d"
  obtains node model p where "prev = Some p" "dget p ''node'' = PStr node" "dget p ''model'' = PStr model"
    "node \<in> fst ` set (pl_nodes pl)" "running_on pl node model" "rd_node d = node" "rd_model d = model"
    "\<not> rd_startup_needed d"
proof -
  obtain p where p: "prev = Some p" using assms by (auto simp: choose_thread_affinity_def split: option.splits)
  obtain node where n: "dget p ''node'' = PStr node"
    using assms p by (cases "dget p ''node''") (auto simp: choose_thread_affinity_def)
  obtain model where m: "dget p ''model'' = PStr model"
    using assms p n by (cases "dget p ''model''") (auto simp: choose_thread_affinity_def)
  let ?c = "new_candidate node model ''previous_route'' None"
  obtain ok c where a: "candidate_running pl ?c = (ok, c)" by (cases "candidate_running pl ?c")
  note ai = candidate_running_iff [of pl ?c, unfolded a]
  obtain nc where nc: "map_of (pl_nodes pl) node = Some nc"
    using assms p n m by (auto simp: choose_thread_affinity_def split: if_splits)
  have ok: "ok" and d: "d = plain_decision node model ''deterministic'' ''thread_affinity'' [c]"
    using assms p n m a nc by (auto simp: choose_thread_affinity_def split: if_splits)
  have "node \<in> fst ` set (pl_nodes pl)" using nc by (force dest: map_of_SomeD)
  with ok ai show ?thesis
    by (intro that [OF p n m]) (auto simp: d plain_decision_def new_candidate_def)
qed

lemma choose_affinity_sound:
  "choose_thread_affinity pl prev = Some d \<Longrightarrow> sound_decision pl d \<and> rd_node d \<in> fst ` set (pl_nodes pl)"
  by (erule choose_affinity_Some) (simp add: sound_decision_def)

lemma request_type_candidates_nodes:
  "c \<in> set (request_type_candidates pl ty) \<Longrightarrow> cd_node c \<in> fst ` set (pl_nodes pl)"
  by (force simp: request_type_candidates_def new_candidate_def split: option.splits)

section \<open>Properties\<close>

text \<open>C15. Whatever the target, the previous route and the request, a controller without a routing
  plugin and without fan-out sends a message only to one of its nodes, and only to a model that
  runs there, or that is there and is announced as one to be started, with the advice the node
  gives.\<close>

theorem choose_route_sound:
  assumes "choose_route pl ty requested target prev hint = Inr d"
    and "pl_mode pl = ''controller''" "pl_plugin pl = None" "\<not> pl_fanout_enabled pl"
  shows "sound_decision pl d \<and> rd_node d \<in> fst ` set (pl_nodes pl)"
proof -
  obtain d0 where d0: "choose_deterministic pl (effective_request_type hint ty) requested target prev = Inr d0"
    and d: "d = annotate_decision hint None d0"
    using assms(1,3) by (auto simp: choose_route_def map_sum_def split: sum.splits)
  let ?ty = "effective_request_type hint ty"
  have "sound_decision pl d0 \<and> rd_node d0 \<in> fst ` set (pl_nodes pl)"
  proof -
    consider (e) "choose_explicit_node pl (remove_prefix ''node:'' target) requested = Inr d0"
      | (a) "choose_thread_affinity pl prev = Some d0"
      | (f) "choose_fallback pl requested = Some d0"
      | (r) "choose_request_type pl ?ty = Some d0"
      using d0 assms(2,4) by (auto simp: choose_deterministic_def split: if_splits option.splits)
    then show ?thesis
    proof cases
      case e
      from choose_explicit_sound [OF e] show ?thesis by simp
    next
      case a
      then show ?thesis by (rule choose_affinity_sound)
    next
      case f
      then show ?thesis using choose_fallback_sound by blast
    next
      case r
      then show ?thesis
        using choose_request_type_sound [OF r] request_type_candidates_nodes by (force simp: ckey_def)
    qed
  qed
  then show ?thesis
    by (cases d0) (auto simp: d annotate_decision_def sound_decision_def)
qed

definition demo_node :: "int \<Rightarrow> node_config" where
  "demo_node p = \<lparr>nc_url = ''http://n'', nc_api_key = None, nc_verify_tls = True,
     nc_default_model = None, nc_request_types = [(''coding'', \<lparr>rt_model = ''m'', rt_priority = p\<rparr>)],
     nc_max_running = None\<rparr>"

text \<open>Two nodes that offer the model for coding; it runs on \<open>b\<close> only, and is available on both.\<close>

definition demo_policy :: "bool \<Rightarrow> routing_policy" where
  "demo_policy fanout = \<lparr>pl_mode = ''controller'', pl_models = [],
     pl_nodes = [(''a'', demo_node 2), (''b'', demo_node 5), (''c'', demo_node 7)],
     pl_fanout_enabled = fanout, pl_fanout_max = 2,
     pl_model_running = (\<lambda>n m. Inr (n = ''b'' \<or> n = ''c'')), pl_model_available = (\<lambda>n m. Inr True),
     pl_artifact_presence = None, pl_startup_allowed = None, pl_plugin = None\<rparr>"

definition demo_cold :: "bool \<Rightarrow> routing_policy" where
  "demo_cold fanout = (demo_policy fanout)\<lparr>pl_model_running := (\<lambda>n m. Inr False),
     pl_startup_allowed := Some (\<lambda>n m. Inr False)\<rparr>"

lemma choose_route_sound_witness:
  "\<exists>d. choose_route (demo_policy False) ''coding'' None ''auto'' None None = Inr d \<and>
     sound_decision (demo_policy False) d \<and> rd_node d = ''b''"
proof -
  let ?r = "choose_route (demo_policy False) ''coding'' None ''auto'' None None"
  have r: "\<not> isl ?r" "rd_node (projr ?r) = ''b''" by code_simp+
  then have e: "?r = Inr (projr ?r)" by simp
  have "pl_mode (demo_policy False) = ''controller''" "pl_plugin (demo_policy False) = None"
    "\<not> pl_fanout_enabled (demo_policy False)"
    by (simp_all add: demo_policy_def)
  from choose_route_sound [OF e this] r(2) e show ?thesis by blast
qed
lemma request_type_candidates_sorted:
  assumes "i < k" "k < length (request_type_candidates pl ty)"
    "request_type_candidates pl ty ! i = c" "request_type_candidates pl ty ! k = d"
    "cd_priority c = Some p" "cd_priority d = Some q"
  shows "p < q \<or> p = q \<and> cd_node c \<le> cd_node d"
proof -
  let ?f = "\<lambda>c. (case cd_priority c of None \<Rightarrow> 0 | Some p \<Rightarrow> p, cd_node c)"
  have "sorted (map ?f (request_type_candidates pl ty))"
    unfolding request_type_candidates_def by (rule sorted_sort_key)
  then have "?f (request_type_candidates pl ty ! i) \<le> ?f (request_type_candidates pl ty ! k)"
    using assms(1,2) by (simp add: sorted_iff_nth_mono)
  then show ?thesis using assms(3-6) by (auto simp: less_eq_prod_def)
qed

text \<open>The nodes that offer a model for a request type, as the configuration lists them.\<close>

definition offers :: "routing_policy \<Rightarrow> string \<Rightarrow> string \<Rightarrow> string \<Rightarrow> int \<Rightarrow> bool" where
  "offers pl ty n m p \<longleftrightarrow> (\<exists>nc. (n, nc) \<in> set (pl_nodes pl) \<and>
     (\<exists>r. map_of (nc_request_types nc) ty = Some r \<and> rt_model r = m \<and> rt_priority r = p))"

lemma new_candidate_simps [simp]:
  "cd_node (new_candidate n m s p) = n" "cd_model (new_candidate n m s p) = m"
  "cd_priority (new_candidate n m s p) = p"
  by (simp_all add: new_candidate_def)

lemma request_type_candidates_offers:
  "c \<in> set (request_type_candidates pl ty) \<longleftrightarrow>
     (\<exists>n m p. c = new_candidate n m ''request_type'' (Some p) \<and> offers pl ty n m p)"
proof
  assume "c \<in> set (request_type_candidates pl ty)"
  then obtain n nc where n: "(n, nc) \<in> set (pl_nodes pl)"
    and c: "c \<in> set (case map_of (nc_request_types nc) ty of None \<Rightarrow> []
      | Some r \<Rightarrow> [new_candidate n (rt_model r) ''request_type'' (Some (rt_priority r))])"
    by (auto simp: request_type_candidates_def)
  from c obtain r where "map_of (nc_request_types nc) ty = Some r"
    "c = new_candidate n (rt_model r) ''request_type'' (Some (rt_priority r))"
    by (cases "map_of (nc_request_types nc) ty") auto
  with n have "(n, nc) \<in> set (pl_nodes pl)" "map_of (nc_request_types nc) ty = Some r"
    "c = new_candidate n (rt_model r) ''request_type'' (Some (rt_priority r))" by blast+
  then show "\<exists>n m p. c = new_candidate n m ''request_type'' (Some p) \<and> offers pl ty n m p"
    unfolding offers_def by blast
next
  assume "\<exists>n m p. c = new_candidate n m ''request_type'' (Some p) \<and> offers pl ty n m p"
  then show "c \<in> set (request_type_candidates pl ty)"
    by (force simp: offers_def request_type_candidates_def)
qed

text \<open>A message without explicit target, route history or profile goes to the best running
  node for its request type: when some node that offers a model for the type has it running,
  the chosen node has its offered model running, and no other node whose offered model is
  running has a lower priority number, or the same number and a smaller name.\<close>

theorem request_type_best:
  assumes "pl_mode pl = ''controller''" "pl_plugin pl = None" "target \<in> {[], ''auto''}"
    and "\<And>m. requested = Some m \<Longrightarrow> CHR '':'' \<notin> set m"
    and "offers pl ty n0 m0 p0" "running_on pl n0 m0"
  shows "\<exists>d p. choose_route pl ty requested target None None = Inr d \<and> rd_reason d = ''request_type'' \<and>
    offers pl ty (rd_node d) (rd_model d) p \<and> running_on pl (rd_node d) (rd_model d) \<and>
    (\<forall>n m q. offers pl ty n m q \<and> running_on pl n m \<longrightarrow> p < q \<or> p = q \<and> rd_node d \<le> n)"
proof -
  let ?cs = "request_type_candidates pl ty"
  obtain cs r where s: "running_scan pl ?cs = (cs, r)" by (cases "running_scan pl ?cs")
  have "new_candidate n0 m0 ''request_type'' (Some p0) \<in> set ?cs"
    using assms(5) by (auto simp: request_type_candidates_offers)
  then have "r \<noteq> None"
    using running_scan_spec(2) [OF s] assms(6) by (auto simp: new_candidate_def split: option.splits)
  then obtain c where r: "r = Some c" by blast
  obtain i where i: "i < length ?cs" "ckey c = ckey (?cs ! i)" "running_on pl (cd_node c) (cd_model c)"
      "\<And>k. k < i \<Longrightarrow> \<not> running_on pl (cd_node (?cs ! k)) (cd_model (?cs ! k))"
    using running_scan_Some [OF s [unfolded r]] by blast
  obtain n m p where ci: "?cs ! i = new_candidate n m ''request_type'' (Some p)" and off: "offers pl ty n m p"
    using i(1) nth_mem [OF i(1)] unfolding request_type_candidates_offers by blast
  have nm: "cd_node c = n" "cd_model c = m" using i(2) ci by (auto simp: ckey_def new_candidate_def)
  have best: "p < q \<or> p = q \<and> n \<le> n'" if o: "offers pl ty n' m' q" and ru: "running_on pl n' m'" for n' m' q
  proof -
    have "new_candidate n' m' ''request_type'' (Some q) \<in> set ?cs"
      using o by (auto simp: request_type_candidates_offers)
    then obtain k where k: "k < length ?cs" "?cs ! k = new_candidate n' m' ''request_type'' (Some q)"
      by (auto simp: in_set_conv_nth)
    have "\<not> k < i" using i(4) [of k] ru k(2) by (auto simp: new_candidate_def)
    then consider "k = i" | "i < k" by linarith
    then show ?thesis
    proof cases
      case 1
      then show ?thesis using k(2) ci by (simp add: new_candidate_def)
    next
      case 2
      from request_type_candidates_sorted [OF 2 k(1) ci k(2), of p q] show ?thesis
        by (simp add: new_candidate_def)
    qed
  qed
  let ?d = "plain_decision n m ''deterministic'' ''request_type'' cs"
  have d0: "choose_request_type pl ty = Some ?d"
    using s r nm by (simp add: choose_request_type_def)
  have nt: "\<not> starts_with ''node:'' target" using assms(3) by (auto simp: starts_with_def)
  have np: "(if (case requested of None \<Rightarrow> False | Some m \<Rightarrow> CHR '':'' \<in> set m)
      then choose_fallback pl requested else None) = None"
    using assms(4) by (auto split: option.splits)
  have "\<exists>d. choose_deterministic pl ty requested target None = Inr d \<and> rd_node d = n \<and> rd_model d = m \<and>
      rd_reason d = ''request_type''"
    using assms(1,3) nt np d0
    by (auto simp: choose_deterministic_def choose_thread_affinity_def plain_decision_def)
  then obtain d where d: "choose_deterministic pl ty requested target None = Inr d" "rd_node d = n"
      "rd_model d = m" "rd_reason d = ''request_type''" by blast
  have "choose_route pl ty requested target None None = Inr d"
    using assms(2) d(1) by (simp add: choose_route_def effective_request_type_def annotate_decision_def)
  with d off i(3) best nm show ?thesis by auto
qed

lemma request_type_best_witness:
  "\<exists>d. choose_route (demo_policy True) ''coding'' None ''auto'' None None = Inr d \<and>
     running_on (demo_policy True) (rd_node d) (rd_model d)"
proof -
  have o: "offers (demo_policy True) ''coding'' ''c'' ''m'' 7"
    by (auto simp: offers_def demo_policy_def demo_node_def)
  have "running_on (demo_policy True) ''c'' ''m''" "pl_mode (demo_policy True) = ''controller''"
    "pl_plugin (demo_policy True) = None"
    by (simp_all add: running_on_def demo_policy_def)
  from request_type_best [OF this(2,3) _ _ o this(1), of "''auto''" None] show ?thesis by auto
qed

lemma fanout_scan_spec:
  assumes "distinct (map cd_node cs)"
  shows "length (fanout_scan pl primary slots cs) \<le> slots \<and>
    distinct (map rd_node (fanout_scan pl primary slots cs)) \<and>
    (\<forall>d \<in> set (fanout_scan pl primary slots cs). rd_node d \<noteq> primary \<and>
      running_on pl (rd_node d) (rd_model d) \<and> (rd_node d, rd_model d) \<in> ckey ` set cs)"
  using assms
proof (induction cs arbitrary: slots)
  case Nil
  then show ?case by simp
next
  case (Cons c cs)
  obtain ok c1 where a: "candidate_running pl c = (ok, c1)" by (cases "candidate_running pl c")
  note ai = candidate_running_iff [of pl c, unfolded a]
  have d: "distinct (map cd_node cs)" "cd_node c \<notin> cd_node ` set cs" using Cons.prems by simp_all
  show ?case
  proof (cases "slots = 0 \<or> cd_node c = primary \<or> \<not> ok")
    case True
    with Cons.IH [OF d(1), of slots] a show ?thesis by auto
  next
    case False
    let ?t = "fanout_scan pl primary (slots - 1) cs"
    have e: "fanout_scan pl primary slots (c # cs) =
        plain_decision (cd_node c) (cd_model c) ''deterministic'' ''fanout'' [c1] # ?t"
      using False a by simp
    have "cd_node c \<notin> rd_node ` set ?t"
      using Cons.IH [OF d(1), of "slots - 1"] d(2) by (force simp: ckey_def)
    with Cons.IH [OF d(1), of "slots - 1"] False ai show ?thesis
      unfolding e by (auto simp: plain_decision_def ckey_def)
  qed
qed

text \<open>Fan-out stays within its limit: at most one decision fewer than \<open>routing_fanout_max\<close> is
  added to the primary one, each for a different node, none of them the primary node, and each
  for a model that the node offers for the request type and that is running there.\<close>

theorem fanout_targets_ok:
  assumes "distinct (map fst (pl_nodes pl))"
  shows "int (length (collect_fanout_targets pl primary ty)) \<le> max 0 (pl_fanout_max pl - 1) \<and>
    distinct (map rd_node (collect_fanout_targets pl primary ty)) \<and>
    (\<forall>d \<in> set (collect_fanout_targets pl primary ty). rd_node d \<noteq> rd_node primary \<and>
      running_on pl (rd_node d) (rd_model d) \<and> (\<exists>p. offers pl ty (rd_node d) (rd_model d) p))"
proof -
  let ?g = "\<lambda>(name, nc). case map_of (nc_request_types nc) ty of None \<Rightarrow> []
    | Some r \<Rightarrow> [new_candidate name (rt_model r) ''request_type'' (Some (rt_priority r))]"
  have g: "c \<in> set (?g x) \<Longrightarrow> cd_node c = fst x" for c x
    by (cases x; cases "map_of (nc_request_types (snd x)) ty") auto
  have sub: "cd_node ` set (concat (map ?g ns)) \<subseteq> fst ` set ns" for ns
  proof
    fix y assume "y \<in> cd_node ` set (concat (map ?g ns))"
    then obtain c where y: "y = cd_node c" and "c \<in> set (concat (map ?g ns))" by blast
    then obtain x where "x \<in> set ns" "c \<in> set (?g x)" unfolding set_concat set_map by blast
    with g [of c x] show "y \<in> fst ` set ns" unfolding y by simp
  qed
  have "distinct (map cd_node (concat (map ?g ns)))" if "distinct (map fst ns)" for ns
    using that
  proof (induction ns)
    case (Cons x xs)
    obtain n nc where x: "x = (n, nc)" by (cases x)
    have "n \<notin> fst ` set xs" using Cons.prems by (simp add: x)
    then have n: "n \<notin> cd_node ` set (concat (map ?g xs))" using sub by blast
    have d: "distinct (map cd_node (concat (map ?g xs)))" using Cons by simp
    have e: "concat (map ?g (x # xs)) = ?g x @ concat (map ?g xs)" by simp
    have "distinct (map cd_node (?g x))" "set (map cd_node (?g x)) \<subseteq> {n}"
      by (cases "map_of (nc_request_types nc) ty"; simp add: x)+
    then show ?case
      unfolding e map_append distinct_append using d n by (simp only: set_map) blast
  qed simp
  then have dd: "distinct (map cd_node (concat (map ?g (pl_nodes pl))))" using assms by blast
  have mm: "mset (map cd_node (request_type_candidates pl ty)) = mset (map cd_node (concat (map ?g (pl_nodes pl))))"
    by (simp add: request_type_candidates_def)
  have d: "distinct (map cd_node (request_type_candidates pl ty))"
    unfolding mset_eq_imp_distinct_iff [OF mm] by (rule dd)
  have off: "\<exists>p. offers pl ty n m p" if "(n, m) \<in> ckey ` set (request_type_candidates pl ty)" for n m
  proof -
    from that obtain c where c: "c \<in> set (request_type_candidates pl ty)" "ckey c = (n, m)" by (metis imageE)
    from c(1) obtain n' m' p where "c = new_candidate n' m' ''request_type'' (Some p)"
      "offers pl ty n' m' p" unfolding request_type_candidates_offers by blast
    with c(2) show ?thesis by (auto simp: ckey_def)
  qed
  show ?thesis
    using fanout_scan_spec [OF d, of pl "rd_node primary" "nat (pl_fanout_max pl - 1)"] off
    by (auto simp: collect_fanout_targets_def)
qed

lemma fanout_targets_ok_witness:
  "map rd_node (collect_fanout_targets (demo_policy True)
      (plain_decision ''b'' ''m'' [] [] []) ''coding'') = [''c''] \<and>
   distinct (map rd_node (collect_fanout_targets (demo_policy True)
      (plain_decision ''b'' ''m'' [] [] []) ''coding''))"
proof
  have "distinct (map fst (pl_nodes (demo_policy True)))" by (simp add: demo_policy_def)
  from fanout_targets_ok [OF this] show "distinct (map rd_node (collect_fanout_targets (demo_policy True)
      (plain_decision ''b'' ''m'' [] [] []) ''coding''))" by blast
qed code_simp

text \<open>A routing plugin that raises or declines never changes where a message goes: the node,
  the model and the fan-out are those that the policy chooses without the plugin, and an error
  of the choice stays the same error.\<close>

theorem plugin_failure_neutral:
  assumes "pl_plugin pl = Some plugin"
    and "\<And>d. plugin (effective_request_type hint ty) requested target prev hint \<noteq> Inr (Some d)"
  shows "map_sum id (\<lambda>d. (rd_node d, rd_model d, rd_strategy d, rd_candidates d, rd_fanout d,
      rd_startup_needed d, rd_startup_decision d)) (choose_route pl ty requested target prev hint) =
    map_sum id (\<lambda>d. (rd_node d, rd_model d, rd_strategy d, rd_candidates d, rd_fanout d,
      rd_startup_needed d, rd_startup_decision d))
      (choose_route (pl\<lparr>pl_plugin := None\<rparr>) ty requested target prev hint)"
proof -
  have frame: "choose_deterministic (pl\<lparr>pl_plugin := None\<rparr>) = choose_deterministic pl"
  proof -
    let ?p = "pl\<lparr>pl_plugin := None\<rparr>"
    have r: "candidate_running ?p = candidate_running pl" "candidate_available ?p = candidate_available pl"
      "candidate_startup ?p = candidate_startup pl"
      by (simp_all add: fun_eq_iff candidate_running_def candidate_available_def candidate_startup_def)
    have sc: "available_scan ?p cs = available_scan pl cs" "running_scan ?p cs = running_scan pl cs"
      "fanout_scan ?p pr sl cs = fanout_scan pl pr sl cs" for cs pr sl
      by (induction cs arbitrary: sl) (simp_all add: r split: prod.split)
    have fb: "fallback_scan ?p q ns = fallback_scan pl q ns" for q ns
      by (induction ns) (simp_all add: r split: prod.split option.split)
    have rt: "request_type_candidates ?p = request_type_candidates pl"
      by (simp add: fun_eq_iff request_type_candidates_def)
    have av: "choose_available ?p = choose_available pl"
      unfolding fun_eq_iff choose_available_def sc r by simp
    have f: "pl_mode ?p = pl_mode pl" "pl_models ?p = pl_models pl" "pl_nodes ?p = pl_nodes pl"
      "pl_fanout_enabled ?p = pl_fanout_enabled pl" "pl_fanout_max ?p = pl_fanout_max pl"
      by simp_all
    show ?thesis
      unfolding fun_eq_iff f choose_deterministic_def choose_local_agent_def choose_explicit_node_def
          choose_thread_affinity_def choose_request_type_def choose_fallback_def
          collect_fanout_targets_def r sc fb rt av single_local_model_def by simp
  qed
  let ?a = "plugin (effective_request_type hint ty) requested target prev hint"
  have "(\<exists>e. ?a = Inl e) \<or> ?a = Inr None" using assms(2) by (cases ?a) (auto simp: not_None_eq [symmetric])
  then obtain fb where p: "choose_route pl ty requested target prev hint =
      map_sum id (annotate_decision hint fb)
        (choose_deterministic pl (effective_request_type hint ty) requested target prev)"
    using assms(1) by (auto simp: choose_route_def Let_def)
  have n: "choose_route (pl\<lparr>pl_plugin := None\<rparr>) ty requested target prev hint =
      map_sum id (annotate_decision hint None)
        (choose_deterministic pl (effective_request_type hint ty) requested target prev)"
    by (simp add: choose_route_def frame)
  show ?thesis
    unfolding p n
    by (cases "choose_deterministic pl (effective_request_type hint ty) requested target prev")
      (auto simp: annotate_decision_def split: route_decision.splits)
qed

lemma plugin_failure_neutral_witness:
  "map_sum id rd_node (choose_route ((demo_policy False)\<lparr>pl_plugin := Some (\<lambda>_ _ _ _ _. Inl (Exn ''E'' []))\<rparr>)
     ''coding'' None ''auto'' None None) = Inr ''b''"
proof -
  let ?pl = "(demo_policy False)\<lparr>pl_plugin := Some (\<lambda>_ _ _ _ _. Inl (Exn ''E'' []))\<rparr>"
  have e: "?pl\<lparr>pl_plugin := None\<rparr> = demo_policy False" by (simp add: demo_policy_def)
  have r: "map_sum id rd_node (choose_route (demo_policy False) ''coding'' None ''auto'' None None) = Inr ''b''"
    by code_simp
  have "map_sum id fst (map_sum id (\<lambda>d. (rd_node d, rd_model d, rd_strategy d, rd_candidates d, rd_fanout d,
      rd_startup_needed d, rd_startup_decision d)) (choose_route ?pl ''coding'' None ''auto'' None None)) = Inr ''b''"
    by (subst plugin_failure_neutral [where plugin = "\<lambda>_ _ _ _ _. Inl (Exn ''E'' [])"])
      (use r in \<open>simp_all add: e sum.map_comp comp_def id_def\<close>)
  then show ?thesis by (simp add: sum.map_comp comp_def id_def)
qed

text \<open>With fan-out enabled, the advice to start a model is lost. The decision for a model that
  is available but not running is rebuilt without its startup fields: a model that no node runs,
  and whose node refuses to start it now, comes back as one that needs no start.\<close>

theorem fanout_drops_startup:
  "(\<exists>d. choose_route (demo_cold False) ''coding'' None ''auto'' None None = Inr d \<and>
     rd_node d = ''a'' \<and> rd_startup_needed d \<and> rd_startup_decision d = Some ''defer'') \<and>
   (\<exists>d. choose_route (demo_cold True) ''coding'' None ''auto'' None None = Inr d \<and>
     rd_node d = ''a'' \<and> \<not> rd_startup_needed d \<and> rd_startup_decision d = None \<and>
     \<not> sound_decision (demo_cold True) d)"
proof
  have "case choose_route (demo_cold False) ''coding'' None ''auto'' None None of Inl _ \<Rightarrow> False
    | Inr d \<Rightarrow> rd_node d = ''a'' \<and> rd_startup_needed d \<and> rd_startup_decision d = Some ''defer''"
    by code_simp
  then show "\<exists>d. choose_route (demo_cold False) ''coding'' None ''auto'' None None = Inr d \<and>
     rd_node d = ''a'' \<and> rd_startup_needed d \<and> rd_startup_decision d = Some ''defer''"
    by (auto split: sum.splits)
  have "case choose_route (demo_cold True) ''coding'' None ''auto'' None None of Inl _ \<Rightarrow> False
    | Inr d \<Rightarrow> rd_node d = ''a'' \<and> \<not> rd_startup_needed d \<and> rd_startup_decision d = None"
    by code_simp
  then show "\<exists>d. choose_route (demo_cold True) ''coding'' None ''auto'' None None = Inr d \<and>
     rd_node d = ''a'' \<and> \<not> rd_startup_needed d \<and> rd_startup_decision d = None \<and>
     \<not> sound_decision (demo_cold True) d"
    by (auto simp: sound_decision_def running_on_def demo_cold_def split: sum.splits)
qed

end
