(* ===== verification/Thread_Store.thy ===== *)
theory Thread_Store
  imports Py_Text
begin

text \<open>
  The thread store (\<open>core/threads/store.py\<close>) and the publisher that writes to it and tells the
  plugins (\<open>core/threads/events.py\<close>).

  The store keeps threads and one log of events in the order of their sequence numbers. Its
  identifiers, \<open>uuid4\<close> texts in the code, are texts drawn from a counter. Instants are
  microseconds, as in \<^theory_text>\<open>Job_Store\<close>.

  What lies outside the thread service (the clock, the event bus of the plugins, the chat
  backend, the nodes) is an environment: a record of functions over a world of any type, which
  every call reads and changes.
\<close>

section \<open>Rows\<close>

record thread =
  th_id :: string
  th_title :: "string option"
  th_default_model :: "string option"
  th_metadata :: pydict
  th_created_by :: "string option"
  th_created :: int
  th_updated :: int

record thread_event =
  te_id :: string
  te_thread :: string
  te_type :: string
  te_role :: "string option"
  te_content :: pydict
  te_public :: bool
  te_turn :: "string option"
  te_route :: "pydict option"
  te_node :: "string option"
  te_model :: "string option"
  te_error_code :: "string option"
  te_error_detail :: "string option"
  te_created :: int

record thread_db =
  th_threads :: "thread list"
  th_events :: "thread_event list"
  th_next :: nat

definition empty_threads :: thread_db where
  "empty_threads = \<lparr>th_threads = [], th_events = [], th_next = 0\<rparr>"

definition fresh_id :: "thread_db \<Rightarrow> string" where
  "fresh_id db = nat_digits (th_next db)"

section \<open>Operations of the store\<close>

definition create_thread ::
  "int \<Rightarrow> string option \<Rightarrow> string option \<Rightarrow> pydict \<Rightarrow> string option \<Rightarrow> thread_db \<Rightarrow> thread \<times> thread_db"
where
  "create_thread now title default_model metadata created_by db =
     (let t = \<lparr>th_id = fresh_id db, th_title = title, th_default_model = default_model,
               th_metadata = metadata, th_created_by = created_by, th_created = now,
               th_updated = now\<rparr>
      in (t, db\<lparr>th_threads := th_threads db @ [t], th_next := Suc (th_next db)\<rparr>))"

definition find_thread :: "thread_db \<Rightarrow> string \<Rightarrow> thread option" where
  "find_thread db tid = List.find (\<lambda>t. th_id t = tid) (th_threads db)"

definition get_thread :: "string \<Rightarrow> thread_db \<Rightarrow> exn + thread" where
  "get_thread tid db =
     (case find_thread db tid of None \<Rightarrow> Inl (Exn ''KeyError'' (str_repr tid)) | Some t \<Rightarrow> Inr t)"

text \<open>The instant of an event: now, or one microsecond after the last change of the thread when
  the clock is not past it.\<close>

definition monotonic_timestamp :: "int \<Rightarrow> int \<Rightarrow> int" where
  "monotonic_timestamp now previous = (if now \<le> previous then previous + 1 else now)"

definition append_event ::
  "int \<Rightarrow> string \<Rightarrow> string \<Rightarrow> string option \<Rightarrow> pydict \<Rightarrow> bool \<Rightarrow> string option \<Rightarrow> pydict option
     \<Rightarrow> string option \<Rightarrow> string option \<Rightarrow> string option \<Rightarrow> string option \<Rightarrow> thread_db
     \<Rightarrow> (exn + thread_event) \<times> thread_db" where
  "append_event now tid ty role content public turn route node model code detail db =
     (case find_thread db tid of
        None \<Rightarrow> (Inl (Exn ''KeyError'' (str_repr tid)), db)
      | Some t \<Rightarrow>
          (let ts = monotonic_timestamp now (th_updated t);
               e = \<lparr>te_id = fresh_id db, te_thread = tid, te_type = ty, te_role = role,
                    te_content = content, te_public = public, te_turn = turn, te_route = route,
                    te_node = node, te_model = model, te_error_code = code,
                    te_error_detail = detail, te_created = ts\<rparr>
           in (Inr e, db\<lparr>th_events := th_events db @ [e],
                 th_threads := map_if (\<lambda>t. th_id t = tid) (\<lambda>t. t\<lparr>th_updated := ts\<rparr>) (th_threads db),
                 th_next := Suc (th_next db)\<rparr>)))"

definition list_events :: "string \<Rightarrow> bool \<Rightarrow> thread_db \<Rightarrow> thread_event list" where
  "list_events tid include_internal db =
     filter (\<lambda>e. te_thread e = tid \<and> (include_internal \<or> te_public e)) (th_events db)"

definition count_threads :: "thread_db \<Rightarrow> nat" where
  "count_threads db = length (th_threads db)"

section \<open>The environment\<close>

record 'w env =
  ev_clock :: "'w \<Rightarrow> int \<times> 'w"
  ev_has_bus :: bool
  ev_emit :: "string \<Rightarrow> pydict \<Rightarrow> string \<Rightarrow> 'w \<Rightarrow> 'w"
  ev_chat :: "string \<Rightarrow> pydict \<Rightarrow> 'w \<Rightarrow> (exn + (pyval \<times> pyval)) \<times> 'w"
  ev_node :: "string \<Rightarrow> string \<Rightarrow> string \<Rightarrow> 'w \<Rightarrow> (exn + pyval) \<times> 'w"
  ev_time :: "'w \<Rightarrow> int \<times> 'w"
  ev_sleep :: "'w \<Rightarrow> 'w"

record 'w system =
  sy_db :: thread_db
  sy_world :: 'w

definition clock :: "'w env \<Rightarrow> ('w system, int) eff" where
  "clock env = (\<lambda>s. case ev_clock env (sy_world s) of (t, w) \<Rightarrow> (Inr t, s\<lparr>sy_world := w\<rparr>))"

definition chat_with_meta :: "'w env \<Rightarrow> string \<Rightarrow> pydict \<Rightarrow> ('w system, pyval \<times> pyval) eff" where
  "chat_with_meta env model payload =
     (\<lambda>s. case ev_chat env model payload (sy_world s) of (r, w) \<Rightarrow> (r, s\<lparr>sy_world := w\<rparr>))"

definition request_node :: "'w env \<Rightarrow> string \<Rightarrow> string \<Rightarrow> string \<Rightarrow> ('w system, pyval) eff" where
  "request_node env node method path =
     (\<lambda>s. case ev_node env node method path (sy_world s) of (r, w) \<Rightarrow> (r, s\<lparr>sy_world := w\<rparr>))"

definition read_db :: "(thread_db \<Rightarrow> 'a) \<Rightarrow> ('w system, 'a) eff" where
  "read_db f = (\<lambda>s. (Inr (f (sy_db s)), s))"

definition load_thread :: "string \<Rightarrow> ('w system, thread) eff" where
  "load_thread tid = (\<lambda>s. (get_thread tid (sy_db s), s))"

definition new_turn_id :: "('w system, string) eff" where
  "new_turn_id = (\<lambda>s. (Inr (fresh_id (sy_db s)),
     s\<lparr>sy_db := (sy_db s)\<lparr>th_next := Suc (th_next (sy_db s))\<rparr>\<rparr>))"

section \<open>Publishing events\<close>

text \<open>What plugins are sent of an event: the content without raw responses and message lists,
  texts cut at a thousand characters, collections at twenty items.\<close>

definition bounded_value :: "pyval \<Rightarrow> pyval" where
  "bounded_value v = (case v of PStr s \<Rightarrow> PStr (take 1000 s) | PList xs \<Rightarrow> PList (take 20 xs)
     | PDict d \<Rightarrow> PDict (take 20 d) | _ \<Rightarrow> v)"

definition bounded_plugin_content :: "pydict \<Rightarrow> pydict" where
  "bounded_plugin_content content =
     map (\<lambda>(k, v). (k, bounded_value v))
       (filter (\<lambda>(k, v). k \<noteq> ''raw_response'' \<and> k \<noteq> ''messages'') content)"

definition opt_text :: "string option \<Rightarrow> pyval" where
  "opt_text s = (case s of None \<Rightarrow> PNone | Some t \<Rightarrow> PStr t)"

definition plugin_thread_event_type :: "string \<Rightarrow> pydict \<Rightarrow> string" where
  "plugin_thread_event_type ty content =
     (if ty = ''workflow_step'' \<and> dget content ''status'' = PStr ''running''
      then ''llama_pack.thread.workflow_step.started''
      else if ty = ''workflow_step'' \<and> dget content ''status'' = PStr ''complete''
      then ''llama_pack.thread.workflow_step.completed''
      else if ty = ''workflow_step'' \<and> dget content ''status'' = PStr ''failed''
      then ''llama_pack.thread.workflow_step.failed''
      else ''llama_pack.thread.'' @ ty @ ''.created'')"

definition plugin_thread_event_payload :: "thread_event \<Rightarrow> pydict" where
  "plugin_thread_event_payload e =
     [(''event_id'', PStr (te_id e)), (''thread_id'', PStr (te_thread e)),
      (''event_type'', PStr (te_type e)), (''turn_id'', opt_text (te_turn e)),
      (''role'', opt_text (te_role e)), (''public'', PBool (te_public e)),
      (''route'', case te_route e of None \<Rightarrow> PNone | Some r \<Rightarrow> PDict r),
      (''agent_node'', opt_text (te_node e)), (''model'', opt_text (te_model e)),
      (''error_code'', opt_text (te_error_code e)), (''error_detail'', opt_text (te_error_detail e)),
      (''content'', PDict (bounded_plugin_content (te_content e))),
      (''created_at'', PInt (te_created e))]"

definition publish :: "'w env \<Rightarrow> thread_event \<Rightarrow> ('w system, unit) eff" where
  "publish env e = (\<lambda>s. (Inr (),
     if ev_has_bus env
     then s\<lparr>sy_world := ev_emit env (plugin_thread_event_type (te_type e) (te_content e))
            (plugin_thread_event_payload e)
            (case te_turn e of Some t \<Rightarrow> if t = [] then te_id e else t | None \<Rightarrow> te_id e) (sy_world s)\<rparr>
     else s))"

text \<open>One write to the store; the clock is read after the thread was found.\<close>

definition store_append ::
  "'w env \<Rightarrow> string \<Rightarrow> string \<Rightarrow> string option \<Rightarrow> pydict \<Rightarrow> bool \<Rightarrow> string option \<Rightarrow> pydict option
     \<Rightarrow> string option \<Rightarrow> string option \<Rightarrow> string option \<Rightarrow> string option \<Rightarrow> ('w system, thread_event) eff"
where
  "store_append env tid ty role content public turn route node model code detail =
     seqE (load_thread tid) (\<lambda>_.
     seqE (clock env) (\<lambda>now s.
       case append_event now tid ty role content public turn route node model code detail (sy_db s) of
         (r, db) \<Rightarrow> (r, s\<lparr>sy_db := db\<rparr>)))"

definition pub_event ::
  "'w env \<Rightarrow> string \<Rightarrow> string \<Rightarrow> string option \<Rightarrow> pydict \<Rightarrow> bool \<Rightarrow> string option \<Rightarrow> pydict option
     \<Rightarrow> string option \<Rightarrow> string option \<Rightarrow> string option \<Rightarrow> string option \<Rightarrow> ('w system, thread_event) eff"
where
  "pub_event env tid ty role content public turn route node model code detail =
     seqE (store_append env tid ty role content public turn route node model code detail) (\<lambda>e.
     seqE (publish env e) (\<lambda>_. ret e))"

definition append_error_async ::
  "'w env \<Rightarrow> string \<Rightarrow> string \<Rightarrow> exn \<Rightarrow> string option \<Rightarrow> ('w system, unit) eff" where
  "append_error_async env tid code exc turn =
     seqE (pub_event env tid ''error'' None [(''text'', PStr (exn_text exc))] True turn None None None
             (Some code) (Some (exn_text exc))) (\<lambda>_. ret ())"

text \<open>\<open>append_error\<close> writes to the store only.\<close>

definition append_error :: "'w env \<Rightarrow> string \<Rightarrow> string \<Rightarrow> exn \<Rightarrow> string option \<Rightarrow> ('w system, unit) eff" where
  "append_error env tid code exc turn =
     seqE (store_append env tid ''error'' None [(''text'', PStr (exn_text exc))] True turn None
             None None (Some code) (Some (exn_text exc))) (\<lambda>_. ret ())"

section \<open>The store as a state machine\<close>

inductive store_step :: "thread_db \<Rightarrow> thread_db \<Rightarrow> bool" where
  create: "create_thread now title dm md cb db = (t, db') \<Longrightarrow> store_step db db'"
| append: "append_event now tid ty role content public turn route node model code detail db = (r, db')
     \<Longrightarrow> store_step db db'"
| turn: "db' = db\<lparr>th_next := Suc (th_next db)\<rparr> \<Longrightarrow> store_step db db'"

inductive_cases store_stepE: "store_step db db'"

definition known :: "thread_db \<Rightarrow> string \<Rightarrow> bool" where
  "known db i \<longleftrightarrow> (\<exists>k < th_next db. i = nat_digits k)"

definition events_of :: "string \<Rightarrow> thread_db \<Rightarrow> thread_event list" where
  "events_of tid db = filter (\<lambda>e. te_thread e = tid) (th_events db)"

definition times_ok :: "thread_db \<Rightarrow> thread \<Rightarrow> bool" where
  "times_ok db t \<longleftrightarrow> sorted_wrt (<) (map te_created (events_of (th_id t) db)) \<and>
     (\<forall>e \<in> set (events_of (th_id t) db). te_created e \<le> th_updated t)"

definition store_inv :: "thread_db \<Rightarrow> bool" where
  "store_inv db \<longleftrightarrow>
     distinct (map th_id (th_threads db)) \<and> distinct (map te_id (th_events db)) \<and>
     (\<forall>t \<in> set (th_threads db). known db (th_id t)) \<and> (\<forall>e \<in> set (th_events db). known db (te_id e)) \<and>
     (\<forall>e \<in> set (th_events db). te_thread e \<in> th_id ` set (th_threads db)) \<and>
     (\<forall>t \<in> set (th_threads db). times_ok db t)"

lemma fresh_unknown: "\<not> known db (fresh_id db)"
  by (simp add: known_def fresh_id_def)

lemma known_Suc: "th_next db' = Suc (th_next db) \<Longrightarrow> known db' i \<longleftrightarrow> known db i \<or> i = fresh_id db"
  by (auto simp: known_def fresh_id_def less_Suc_eq)

lemma append_event_Inr:
  assumes "append_event now tid ty role content public turn route node model code detail db = (Inr e, db')"
  obtains t where "find_thread db tid = Some t" "te_thread e = tid" "te_id e = fresh_id db"
    "te_type e = ty" "te_public e = public" "te_content e = content" "te_role e = role" "te_turn e = turn"
    "te_node e = node" "te_model e = model" "te_error_code e = code" "te_route e = route"
    "te_created e = monotonic_timestamp now (th_updated t)"
    "th_events db' = th_events db @ [e]" "th_next db' = Suc (th_next db)"
    "th_threads db' = map_if (\<lambda>t. th_id t = tid) (\<lambda>t. t\<lparr>th_updated := te_created e\<rparr>) (th_threads db)"
  using assms by (auto simp: append_event_def Let_def split: option.splits intro!: that)

lemma store_inv_append:
  assumes a: "append_event now tid ty role content public turn route node model code detail db = (r, db')"
    and inv: "store_inv db"
  shows "store_inv db'"
proof (cases r)
  case (Inl e)
  with a inv show ?thesis by (auto simp: append_event_def Let_def split: option.splits)
next
  case (Inr e)
  from a [unfolded Inr] obtain t where f: "find_thread db tid = Some t"
    and e: "te_thread e = tid" "te_id e = fresh_id db" "te_created e = monotonic_timestamp now (th_updated t)"
    and db': "th_events db' = th_events db @ [e]" "th_next db' = Suc (th_next db)"
      "th_threads db' = map_if (\<lambda>t. th_id t = tid) (\<lambda>t. t\<lparr>th_updated := te_created e\<rparr>) (th_threads db)"
    by (rule append_event_Inr) (rule that; assumption)
  have t: "t \<in> set (th_threads db)" "th_id t = tid"
    using find_Some_iff' [OF f [unfolded find_thread_def]] by auto
  have later: "th_updated t < te_created e" by (simp add: e(3) monotonic_timestamp_def)
  have ids: "map th_id (th_threads db') = map th_id (th_threads db)"
    by (simp add: db' map_map_if)
  have idset: "th_id ` set (th_threads db') = th_id ` set (th_threads db)"
    using arg_cong [OF ids, of set] by simp
  have k: "known db' i \<longleftrightarrow> known db i \<or> i = fresh_id db" for i by (rule known_Suc [OF db'(2)])
  have ev: "events_of i db' = events_of i db @ (if i = tid then [e] else [])" for i
    by (simp add: events_of_def db' e(1))
  have times: "times_ok db' u" if u: "u \<in> set (th_threads db')" for u
  proof -
    obtain u0 where u0: "u0 \<in> set (th_threads db)" "th_id u0 = th_id u"
      "u = (if th_id u0 = tid then u0\<lparr>th_updated := te_created e\<rparr> else u0)"
      using u by (auto simp: db' set_map_if split: if_splits)
    have ok: "times_ok db u0" using inv u0(1) by (simp add: store_inv_def)
    show ?thesis
    proof (cases "th_id u0 = tid")
      case False
      then have "u = u0" "events_of (th_id u0) db' = events_of (th_id u0) db" using u0(3) ev by simp_all
      with ok show ?thesis by (simp add: times_ok_def)
    next
      case True
      have "u0 = t" using inv u0(1) t True
        by (intro distinct_map_unique [of th_id "th_threads db"]) (auto simp: store_inv_def)
      have "events_of (th_id u) db' = events_of tid db @ [e]" using ev u0(2) True by simp
      moreover have "sorted_wrt (<) (map te_created (events_of tid db))"
        "\<forall>x \<in> set (events_of tid db). te_created x \<le> th_updated t"
        using ok \<open>u0 = t\<close> True by (simp_all add: times_ok_def)
      moreover have "th_updated u = te_created e" using u0(3) True by simp
      ultimately show ?thesis
        unfolding times_ok_def using later by (fastforce simp: sorted_wrt_append)
    qed
  qed
  have "fresh_id db \<notin> te_id ` set (th_events db)"
    using inv fresh_unknown [of db] by (auto simp: store_inv_def)
  then have "distinct (map te_id (th_events db'))"
    using inv by (simp add: store_inv_def db' e(2))
  moreover have "\<forall>u \<in> set (th_threads db'). known db' (th_id u)"
    using inv idset by (auto simp: store_inv_def k) (metis imageE imageI)
  moreover have "\<forall>x \<in> set (th_events db'). known db' (te_id x) \<and> te_thread x \<in> th_id ` set (th_threads db')"
    unfolding idset using inv t by (auto simp: store_inv_def k db' e)
  ultimately show ?thesis using inv times ids by (simp add: store_inv_def)
qed

lemma store_inv_create:
  assumes c: "create_thread now title dm md cb db = (t, db')" and inv: "store_inv db"
  shows "store_inv db'"
proof -
  have t: "th_id t = fresh_id db" and db': "th_threads db' = th_threads db @ [t]"
      "th_events db' = th_events db" "th_next db' = Suc (th_next db)"
    using c by (auto simp: create_thread_def Let_def)
  have k: "known db' i \<longleftrightarrow> known db i \<or> i = fresh_id db" for i by (rule known_Suc [OF db'(3)])
  have new: "fresh_id db \<notin> th_id ` set (th_threads db)"
    using inv fresh_unknown [of db] by (auto simp: store_inv_def)
  moreover have "\<forall>e \<in> set (th_events db). te_thread e \<in> th_id ` set (th_threads db)"
    using inv by (simp add: store_inv_def)
  ultimately have "events_of (fresh_id db) db = []"
    unfolding events_of_def filter_empty_conv by metis
  moreover have "events_of i db' = events_of i db" for i by (simp add: events_of_def db')
  moreover have "\<forall>u \<in> set (th_threads db). times_ok db u" using inv by (simp add: store_inv_def)
  ultimately have "times_ok db' u" if "u \<in> set (th_threads db')" for u
    using that t by (auto simp: times_ok_def db'(1))
  then show ?thesis using inv new t by (auto simp: store_inv_def k db')
qed

lemma store_inv_step: "store_step db db' \<Longrightarrow> store_inv db \<Longrightarrow> store_inv db'"
proof (induction rule: store_step.induct)
  case turn
  then show ?case
    by (auto simp: store_inv_def known_def times_ok_def events_of_def intro: less_SucI)
qed (auto intro: store_inv_create store_inv_append)

lemma store_inv_empty: "store_inv empty_threads"
  by (simp add: store_inv_def empty_threads_def)

interpretation store: inductive_invariant "\<lambda>db. db = empty_threads" store_step store_inv
  by unfold_locales (auto intro: store_inv_empty store_inv_step)

text \<open>
  The interface of an append-only log: no step of its owner takes back or changes an entry. A
  reader that has seen the log can go on from where it stopped.
\<close>

locale append_only_log =
  fixes log :: "'s \<Rightarrow> 'e list"
    and step :: "'s \<Rightarrow> 's \<Rightarrow> bool"
  assumes step_extends: "step s t \<Longrightarrow> \<exists>new. log t = log s @ new"
begin

lemma run_extends: "step\<^sup>*\<^sup>* s t \<Longrightarrow> \<exists>new. log t = log s @ new"
proof (induction rule: rtranclp_induct)
  case (step t u)
  then show ?case using step_extends by fastforce
qed simp

lemma entry_stays: "step\<^sup>*\<^sup>* s t \<Longrightarrow> i < length (log s) \<Longrightarrow> log t ! i = log s ! i"
  using run_extends by (fastforce simp: nth_append)

lemma resume: "step\<^sup>*\<^sup>* s t \<Longrightarrow> log t = log s @ drop (length (log s)) (log t)"
  using run_extends by fastforce

end

lemma store_step_extends: "store_step db db' \<Longrightarrow> \<exists>new. th_events db' = th_events db @ new"
  by (erule store_stepE) (auto simp: create_thread_def append_event_def Let_def split: option.splits)

interpretation event_log: append_only_log th_events store_step
  by unfold_locales (rule store_step_extends)

definition demo_thread :: thread_db where
  "demo_thread = snd (create_thread 100 None (Some ''m'') [] None empty_threads)"

definition demo_event :: "int \<Rightarrow> thread_db \<Rightarrow> thread_db" where
  "demo_event now db = snd (append_event now ''0'' ''user_message'' (Some ''user'')
     [(''text'', PStr ''hi'')] True None None None None None None db)"

lemma demo_thread_run: "store_step\<^sup>*\<^sup>* empty_threads (demo_event 5 (demo_event 90 demo_thread))"
proof -
  have 1: "store_step empty_threads demo_thread"
    unfolding demo_thread_def by (rule store_step.create) (rule prod.collapse [symmetric])
  have 2: "store_step db (demo_event now db)" for now db
    unfolding demo_event_def by (rule store_step.append) (rule prod.collapse [symmetric])
  have 3: "store_step\<^sup>*\<^sup>* a c" if "store_step\<^sup>*\<^sup>* a b" "store_step b c" for a b c
    using that by (rule rtranclp.rtrancl_into_rtrancl)
  have "store_step\<^sup>*\<^sup>* empty_threads demo_thread" using 1 by (rule r_into_rtranclp)
  then have "store_step\<^sup>*\<^sup>* empty_threads (demo_event 90 demo_thread)" using 2 by (rule 3)
  then show ?thesis using 2 by (rule 3)
qed

text \<open>In every state of the store, whatever the clock does, even when it goes back, the events
  of a thread carry strictly increasing instants in the order in which they were written, none
  later than the last change of the thread, and their identifiers are distinct.\<close>

theorem event_times_increase:
  assumes "store_step\<^sup>*\<^sup>* empty_threads db" "t \<in> set (th_threads db)"
  shows "sorted_wrt (<) (map te_created (list_events (th_id t) True db)) \<and>
    (\<forall>e \<in> set (list_events (th_id t) True db). te_created e \<le> th_updated t) \<and>
    distinct (map te_id (list_events (th_id t) True db))"
proof -
  have inv: "store_inv db" using store.inv_reachable assms(1) by blast
  then have "times_ok db t" using assms(2) by (simp add: store_inv_def)
  moreover have "list_events (th_id t) True db = events_of (th_id t) db"
    by (simp add: list_events_def events_of_def)
  moreover have "distinct (map te_id (events_of (th_id t) db))"
    using inv by (simp add: store_inv_def events_of_def distinct_map_filter)
  ultimately show ?thesis by (simp add: times_ok_def)
qed

lemma event_times_increase_witness:
  "map te_created (list_events ''0'' True (demo_event 5 (demo_event 90 demo_thread))) = [101, 102] \<and>
   sorted_wrt (<) (map te_created (list_events ''0'' True (demo_event 5 (demo_event 90 demo_thread))))"
proof
  let ?db = "demo_event 5 (demo_event 90 demo_thread)"
  have t: "hd (th_threads ?db) \<in> set (th_threads ?db)" "th_id (hd (th_threads ?db)) = ''0''"
    by code_simp+
  show "sorted_wrt (<) (map te_created (list_events ''0'' True ?db))"
    using event_times_increase [OF demo_thread_run t(1)] unfolding t(2) by blast
qed code_simp

end
