(* ===== verification/Thread_Context.thy ===== *)
theory Thread_Context
  imports Thread_Store
begin

text \<open>
  The prompt of a thread: the token estimate (\<open>core/chat/context_budget.py\<close>), when a history is
  summarized and how (\<open>core/chat/context_management.py\<close>), and the context manager of threads
  (\<open>core/threads/context.py\<close>), which keeps the recent messages and replaces the older ones by a
  summary that a model writes.

  The trigger ratio is a rational number here and a binary float in the code: the product with
  the window is rounded down exactly.
\<close>

section \<open>Estimating tokens\<close>

definition nl :: string where
  "nl = [CHR 0x0A]"

definition content_block_text :: "pyval \<Rightarrow> string" where
  "content_block_text block = (case block of
     PDict d \<Rightarrow>
       if py_eq (dget d ''type'') (PStr ''text'') then py_str (dget_or d ''text'' (PStr []))
       else if py_eq (dget d ''type'') (PStr ''image_url'') then ''[image]''
       else py_str block
   | _ \<Rightarrow> py_str block)"

definition content_text :: "pyval \<Rightarrow> string" where
  "content_text content = (case content of
     PStr s \<Rightarrow> s
   | PList blocks \<Rightarrow> join '' '' (map content_block_text blocks)
   | _ \<Rightarrow> py_str content)"

definition render_message :: "pyval \<Rightarrow> string list" where
  "render_message message = (case message of
     PDict d \<Rightarrow> [py_str (dget_or d ''role'' (PStr ''user'')) @ '': '' @
                  content_text (dget_or d ''content'' (PStr []))]
   | _ \<Rightarrow> [])"

definition estimate_prompt_tokens :: "pydict \<Rightarrow> nat" where
  "estimate_prompt_tokens payload = (case dget payload ''messages'' of
     PList messages \<Rightarrow>
       (let prompt = strip (join nl (concat (map render_message messages))) in
        if prompt = [] then 1 else max 1 (length prompt div 4))
   | _ \<Rightarrow> 1)"

definition messages_tokens :: "pyval list \<Rightarrow> nat" where
  "messages_tokens messages = estimate_prompt_tokens [(''messages'', PList messages)]"

section \<open>The budget of a request\<close>

definition positive_int :: "pyval \<Rightarrow> int option" where
  "positive_int v = (case v of PInt i \<Rightarrow> if 0 < i then Some i else None
     | PBool b \<Rightarrow> if b then Some 1 else None | _ \<Rightarrow> None)"

definition reserved_completion_tokens :: "pydict \<Rightarrow> int" where
  "reserved_completion_tokens payload =
     (case positive_int (dget payload ''n_predict'') of
        Some n \<Rightarrow> n
      | None \<Rightarrow> (case positive_int (dget payload ''max_tokens'') of Some n \<Rightarrow> n | None \<Rightarrow> 512))"

datatype budget_status = Comfortable | GettingFull | NearLimit | TooLarge

record context_budget =
  cb_model :: string
  cb_window :: int
  cb_prompt :: int
  cb_reserved :: int
  cb_available :: int
  cb_remaining :: int
  cb_ratio :: rat
  cb_status :: budget_status
  cb_warnings :: "string list"

definition budget_status :: "rat \<Rightarrow> int \<Rightarrow> budget_status" where
  "budget_status ratio remaining =
     (if remaining < 0 then TooLarge
      else if ratio \<ge> 95/100 then NearLimit
      else if ratio \<ge> 8/10 then NearLimit
      else if ratio \<ge> 6/10 then GettingFull
      else Comfortable)"

text \<open>The window of a model: that of the running process when it is known and positive, else the
  configured one. Both tables are arguments.\<close>

definition window_tokens :: "(string \<Rightarrow> pyval option) \<Rightarrow> (string \<Rightarrow> int option) \<Rightarrow> string \<Rightarrow> exn + int" where
  "window_tokens runtime configured model =
     (case (case runtime model of Some (PInt i) \<Rightarrow> if 0 < i then Some i else None
                                | Some (PBool b) \<Rightarrow> if b then Some 1 else None | _ \<Rightarrow> None) of
        Some i \<Rightarrow> Inr i
      | None \<Rightarrow> (case configured model of
            None \<Rightarrow> Inl (Exn ''KeyError'' (str_repr (''Unknown model '' @ model)))
          | Some i \<Rightarrow> Inr i))"

definition estimate_budget ::
  "(string \<Rightarrow> pyval option) \<Rightarrow> (string \<Rightarrow> int option) \<Rightarrow> string \<Rightarrow> pydict \<Rightarrow> exn + context_budget" where
  "estimate_budget runtime configured model payload =
     bindE (window_tokens runtime configured model) (\<lambda>window.
     let reserved = reserved_completion_tokens payload;
         prompt = int (estimate_prompt_tokens payload);
         remaining = window - reserved - prompt
     in if window = 0 then Inl (Exn ''ZeroDivisionError'' ''division by zero'')
        else (let ratio = of_int (prompt + reserved) / of_int window in
          Inr \<lparr>cb_model = model, cb_window = window, cb_prompt = prompt, cb_reserved = reserved,
               cb_available = max 0 (window - reserved), cb_remaining = remaining, cb_ratio = ratio,
               cb_status = budget_status ratio remaining,
               cb_warnings = (if remaining < 0 then [''Estimated prompt tokens plus reserved completion tokens exceed the configured context window.''] else [])\<rparr>))"

definition budget_exceeded_text :: "context_budget \<Rightarrow> string" where
  "budget_exceeded_text b =
     ''Chat request exceeds context window for model '' @ cb_model b @ '': estimated prompt tokens '' @
     str_int (cb_prompt b) @ '' plus reserved completion tokens '' @ str_int (cb_reserved b) @
     '' exceeds context window '' @ str_int (cb_window b) @ ''.''"

definition require_fits ::
  "bool \<Rightarrow> (string \<Rightarrow> pyval option) \<Rightarrow> (string \<Rightarrow> int option) \<Rightarrow> string \<Rightarrow> pydict
     \<Rightarrow> exn + context_budget option" where
  "require_fits controller runtime configured model payload =
     (case estimate_budget runtime configured model payload of
        Inl e \<Rightarrow> if exn_type e = ''KeyError'' \<and> controller then Inr None else Inl e
      | Inr b \<Rightarrow> if cb_remaining b < 0
                 then Inl (Exn ''ContextBudgetExceededError'' (budget_exceeded_text b))
                 else Inr (Some b))"

section \<open>Summaries\<close>

record model_config =
  mc_ctx :: int
  mc_profiles :: "(string \<times> int option) list"

record thread_config =
  tc_summarization_enabled :: bool
  tc_compaction_enabled :: bool
  tc_trigger_ratio :: rat
  tc_recent_messages :: int
  tc_summary_max_tokens :: int
  tc_models :: "(string \<times> model_config) list"
  tc_min_prompt_tokens :: int

text \<open>The context size of \<open>effective_model_config\<close>: of the model, or of a profile of it where the
  profile sets one; \<open>None\<close> for the \<open>KeyError\<close> of an unknown model or profile.\<close>

definition effective_ctx :: "thread_config \<Rightarrow> string \<Rightarrow> int option" where
  "effective_ctx cfg identity =
     (if CHR '':'' \<notin> set identity then map_option mc_ctx (map_of (tc_models cfg) identity)
      else (case partition_on CHR '':'' identity of (family, _, key) \<Rightarrow>
        (case map_of (tc_models cfg) family of
           None \<Rightarrow> None
         | Some base \<Rightarrow>
             (case map_of (mc_profiles base) key of
                None \<Rightarrow> None
              | Some ctx \<Rightarrow> Some (case ctx of None \<Rightarrow> mc_ctx base | Some c \<Rightarrow> c)))))"

definition context_window_tokens :: "thread_config \<Rightarrow> string \<Rightarrow> int" where
  "context_window_tokens cfg model =
     (case effective_ctx cfg model of None \<Rightarrow> tc_min_prompt_tokens cfg | Some c \<Rightarrow> c)"

definition py_trunc :: "rat \<Rightarrow> int" where
  "py_trunc r = (if r < 0 then - \<lfloor>- r\<rfloor> else \<lfloor>r\<rfloor>)"

definition should_summarize_messages :: "thread_config \<Rightarrow> string \<Rightarrow> pyval list \<Rightarrow> bool" where
  "should_summarize_messages cfg model messages =
     (tc_summarization_enabled cfg \<and> tc_compaction_enabled cfg \<and>
      py_trunc (of_int (context_window_tokens cfg model) * tc_trigger_ratio cfg)
        \<le> int (messages_tokens messages))"

definition text_message :: "string \<Rightarrow> string \<Rightarrow> pyval" where
  "text_message role content = PDict [(''role'', PStr role), (''content'', PStr content)]"

definition transcript_block :: "pyval \<Rightarrow> string" where
  "transcript_block block = (case block of
     PDict d \<Rightarrow> if py_eq (dget d ''type'') (PStr ''text'') then py_str (dget_or d ''text'' (PStr []))
                else py_str block
   | _ \<Rightarrow> py_str block)"

definition transcript_line :: "pyval \<Rightarrow> string" where
  "transcript_line message = (case message of
     PDict d \<Rightarrow> py_str (dget_or d ''role'' (PStr ''user'')) @ '': '' @
       (case dget_or d ''content'' (PStr []) of
          PStr s \<Rightarrow> s
        | PList blocks \<Rightarrow> join '' '' (map transcript_block blocks)
        | c \<Rightarrow> py_str c)
   | _ \<Rightarrow> [])"

definition render_transcript :: "pyval list \<Rightarrow> string" where
  "render_transcript messages = join (nl @ nl) (map transcript_line messages)"

definition summary_instructions :: string where
  "summary_instructions =
     ''Summarize the earlier conversation for continuation in a long-running chat. '' @
     ''Preserve user goals, constraints, decisions, named entities, unresolved tasks, and important assistant answers. '' @
     ''Do not invent details. Do not include pleasantries. Write compact bullet points.''"

definition summary_prompt_messages :: "string option \<Rightarrow> pyval list \<Rightarrow> pyval list" where
  "summary_prompt_messages previous messages =
     (let prior = (case previous of None \<Rightarrow> [] | Some p \<Rightarrow> strip p);
          instructions = (if prior = [] then summary_instructions
            else summary_instructions @ nl @ nl @ ''Existing summary to update:'' @ nl @ prior)
      in [text_message ''system'' instructions,
          text_message ''user''
            (''Conversation turns to summarize:'' @ nl @ nl @ render_transcript messages)])"

definition summary_system_message :: "string \<Rightarrow> pyval" where
  "summary_system_message summary =
     text_message ''system'' (''Earlier conversation summary:'' @ nl @ strip summary)"

text \<open>Subscription of a JSON value, with the exceptions of Python.\<close>

definition type_name :: "pyval \<Rightarrow> string" where
  "type_name v = (case v of PNone \<Rightarrow> ''NoneType'' | PBool _ \<Rightarrow> ''bool'' | PInt _ \<Rightarrow> ''int''
     | PFloat _ \<Rightarrow> ''float'' | PStr _ \<Rightarrow> ''str'' | PList _ \<Rightarrow> ''list'' | PDict _ \<Rightarrow> ''dict'')"

definition quote_char :: string where
  "quote_char = [CHR 0x27]"

definition not_subscriptable :: "pyval \<Rightarrow> exn" where
  "not_subscriptable v =
     Exn ''TypeError'' (quote_char @ type_name v @ quote_char @ '' object is not subscriptable'')"

definition item_key :: "string \<Rightarrow> pyval \<Rightarrow> exn + pyval" where
  "item_key k v = (case v of
     PDict d \<Rightarrow> (case map_of d k of None \<Rightarrow> Inl (Exn ''KeyError'' (str_repr k)) | Some x \<Rightarrow> Inr x)
   | PList _ \<Rightarrow> Inl (Exn ''TypeError'' ''list indices must be integers or slices, not str'')
   | PStr _ \<Rightarrow> Inl (Exn ''TypeError''
       (''string indices must be integers, not '' @ quote_char @ ''str'' @ quote_char))
   | _ \<Rightarrow> Inl (not_subscriptable v))"

definition item_first :: "pyval \<Rightarrow> exn + pyval" where
  "item_first v = (case v of
     PList (x # _) \<Rightarrow> Inr x
   | PList [] \<Rightarrow> Inl (Exn ''IndexError'' ''list index out of range'')
   | PStr (c # _) \<Rightarrow> Inr (PStr [c])
   | PStr [] \<Rightarrow> Inl (Exn ''IndexError'' ''string index out of range'')
   | PDict _ \<Rightarrow> Inl (Exn ''KeyError'' ''0'')
   | _ \<Rightarrow> Inl (not_subscriptable v))"

text \<open>\<open>response["choices"][0]["message"]["content"]\<close>.\<close>

definition reply_content :: "pyval \<Rightarrow> exn + pyval" where
  "reply_content response =
     bindE (item_key ''choices'' response) (\<lambda>cs. bindE (item_first cs) (\<lambda>c.
     bindE (item_key ''message'' c) (item_key ''content'')))"

definition assistant_summary_content :: "pyval \<Rightarrow> exn + string" where
  "assistant_summary_content response =
     (case reply_content response of
        Inl e \<Rightarrow> Inl (Exn ''ValueError''
          (''Summary response did not include choices[0].message.content: '' @ py_repr response))
      | Inr (PStr s) \<Rightarrow> if strip s = [] then Inl (Exn ''ValueError''
          (''Summary response content was empty or not a string: '' @ py_repr response))
          else Inr (strip s)
      | Inr _ \<Rightarrow> Inl (Exn ''ValueError''
          (''Summary response content was empty or not a string: '' @ py_repr response)))"

section \<open>Reading the log\<close>

definition is_message_event :: "thread_event \<Rightarrow> bool" where
  "is_message_event e \<longleftrightarrow> te_type e \<in> {''user_message'', ''assistant_message''} \<and>
     (case dget (te_content e) ''text'' of PStr _ \<Rightarrow> True | _ \<Rightarrow> False) \<and>
     te_role e \<in> {Some ''user'', Some ''assistant''}"

definition public_message_events :: "string \<Rightarrow> thread_db \<Rightarrow> thread_event list" where
  "public_message_events tid db = filter is_message_event (list_events tid False db)"

definition event_message :: "thread_event \<Rightarrow> pyval" where
  "event_message e =
     text_message (case te_role e of None \<Rightarrow> ''None'' | Some r \<Rightarrow> r) (py_str (dget (te_content e) ''text''))"

definition public_messages :: "string \<Rightarrow> thread_db \<Rightarrow> pyval list" where
  "public_messages tid db = map event_message (public_message_events tid db)"

definition summary_of :: "thread_event \<Rightarrow> (string \<times> string list) option" where
  "summary_of e =
     (if te_type e \<noteq> ''history_summary'' then None
      else (case (dget (te_content e) ''summary'', dget (te_content e) ''covered_event_ids'') of
              (PStr s, PList ids) \<Rightarrow> Some (s, map py_str ids)
            | _ \<Rightarrow> None))"

fun first_some :: "('a \<Rightarrow> 'b option) \<Rightarrow> 'a list \<Rightarrow> 'b option" where
  "first_some f [] = None"
| "first_some f (x # xs) = (case f x of None \<Rightarrow> first_some f xs | Some y \<Rightarrow> Some y)"

definition latest_history_summary :: "string \<Rightarrow> thread_db \<Rightarrow> (string \<times> string list) option" where
  "latest_history_summary tid db = first_some summary_of (rev (list_events tid True db))"

text \<open>Slices \<open>xs[:k]\<close> and \<open>xs[k:]\<close>; a negative \<open>k\<close> counts from the end.\<close>

definition slice_to :: "int \<Rightarrow> 'a list \<Rightarrow> 'a list" where
  "slice_to k xs = take (if k < 0 then length xs - nat (- k) else nat k) xs"

definition slice_from :: "int \<Rightarrow> 'a list \<Rightarrow> 'a list" where
  "slice_from k xs = drop (if k < 0 then length xs - nat (- k) else nat k) xs"

text \<open>What the three readers below start from: the ids that the latest summary covers, its text,
  the message events it does not cover, and the messages that stand for the thread.\<close>

definition covered_ids :: "string \<Rightarrow> thread_db \<Rightarrow> string list" where
  "covered_ids tid db = (case latest_history_summary tid db of None \<Rightarrow> [] | Some (_, ids) \<Rightarrow> ids)"

definition previous_summary :: "string \<Rightarrow> thread_db \<Rightarrow> string option" where
  "previous_summary tid db = map_option fst (latest_history_summary tid db)"

definition unsummarized_events :: "string \<Rightarrow> thread_db \<Rightarrow> thread_event list" where
  "unsummarized_events tid db =
     filter (\<lambda>e. te_id e \<notin> set (covered_ids tid db)) (public_message_events tid db)"

definition current_messages :: "string \<Rightarrow> thread_db \<Rightarrow> pyval list" where
  "current_messages tid db =
     (case previous_summary tid db of None \<Rightarrow> [] | Some s \<Rightarrow> if s = [] then [] else [summary_system_message s])
     @ map event_message (unsummarized_events tid db)"

definition preview_thread_messages ::
  "thread_config \<Rightarrow> string \<Rightarrow> pyval list \<Rightarrow> string \<Rightarrow> thread_db \<Rightarrow> pyval list" where
  "preview_thread_messages cfg tid incoming model db =
     (let messages = current_messages tid db @ incoming in
      if \<not> should_summarize_messages cfg model messages then messages
      else summary_system_message
             (case previous_summary tid db of
                None \<Rightarrow> ''A summary will be generated before the next model response.''
              | Some p \<Rightarrow> if p = [] then ''A summary will be generated before the next model response.'' else p)
           # slice_from (- tc_recent_messages cfg) messages)"

section \<open>Compaction\<close>

text \<open>What the manager hands to the chat: the messages, and what it reports of its work.\<close>

type_synonym managed = "pyval list \<times> pydict option"

definition route_node :: "pydict \<Rightarrow> string" where
  "route_node route = py_str (dget route ''node'')"

definition summary_payload :: "thread_config \<Rightarrow> pydict \<Rightarrow> string option \<Rightarrow> pyval list \<Rightarrow> pydict" where
  "summary_payload cfg route previous messages =
     [(''messages'', PList (summary_prompt_messages previous messages)),
      (''temperature'', PFloat 0),
      (''max_tokens'', PInt (tc_summary_max_tokens cfg)),
      (''target'', PStr (''node:'' @ route_node route)),
      (''_trusted_controller_target'', PBool True),
      (''_skip_context_management'', PBool True)]"

definition event_ids :: "thread_event list \<Rightarrow> pyval list" where
  "event_ids es = map (\<lambda>e. PStr (te_id e)) es"

definition summary_content ::
  "string \<Rightarrow> string list \<Rightarrow> thread_event list \<Rightarrow> nat \<Rightarrow> nat \<Rightarrow> string \<Rightarrow> pydict \<Rightarrow> pyval \<Rightarrow> string \<Rightarrow> pydict"
where
  "summary_content summary covered source before after model route meta origin =
     [(''summary'', PStr summary),
      (''covered_event_ids'', PList (map PStr covered @ event_ids source)),
      (''source_event_ids'', PList (event_ids source)),
      (''prompt_tokens_before'', PInt (int before)),
      (''prompt_tokens_after'', PInt (int after)),
      (''summary_tokens_estimated'', PInt (int (messages_tokens [summary_system_message summary]))),
      (''summary_model'', PStr model), (''model'', PStr model), (''route'', PDict route),
      (''response_meta'', meta), (''source'', PStr origin)]"

definition compact_thread_history ::
  "'w env \<Rightarrow> thread_config \<Rightarrow> string \<Rightarrow> string option \<Rightarrow> string \<Rightarrow> pydict \<Rightarrow> int \<Rightarrow> string
     \<Rightarrow> ('w system, managed) eff" where
  "compact_thread_history env cfg tid turn model route recent_count origin =
     seqE (read_db (unsummarized_events tid)) (\<lambda>unsummarized.
     seqE (read_db (covered_ids tid)) (\<lambda>covered.
     seqE (read_db (previous_summary tid)) (\<lambda>previous.
     seqE (read_db (current_messages tid)) (\<lambda>current.
     if int (length unsummarized) \<le> recent_count
     then ret (current, Some [(''summarized'', PBool False),
            (''reason'', PStr ''not_enough_unsummarized_events''),
            (''unsummarized_event_count'', PInt (int (length unsummarized)))])
     else let source = slice_to (- recent_count) unsummarized;
              recent = slice_from (- recent_count) unsummarized;
              before = messages_tokens current in
       seqE (tryE
         (seqE (chat_with_meta env model
                 (summary_payload cfg route previous (map event_message source))) (\<lambda>(response, meta).
          case assistant_summary_content response of
            Inl e \<Rightarrow> raise_exn e | Inr summary \<Rightarrow> ret (summary, meta)))
         (\<lambda>exc. seqE (append_error_async env tid ''CONTEXT_SUMMARY_ERROR'' exc turn) (\<lambda>_.
            raise_exn (Coded ''ThreadContextError'' ''CONTEXT_SUMMARY_ERROR''
              (''Failed to summarize thread '' @ tid @ '' for model '' @ model @ '': '' @ exn_text exc)))))
         (\<lambda>(summary, meta).
       let compacted = summary_system_message summary # map event_message recent;
           after = messages_tokens compacted in
       seqE (pub_event env tid ''history_summary'' None
               (summary_content summary covered source before after model route meta origin)
               False turn (Some route) (Some (route_node route)) (Some model) None None) (\<lambda>e.
       ret (compacted, Some [(''summarized'', PBool True), (''summary_event_id'', PStr (te_id e)),
              (''prompt_tokens_before'', PInt (int before)), (''prompt_tokens_after'', PInt (int after)),
              (''summary'', PStr summary),
              (''covered_event_count'', PInt (int (length source)))])))))))"

definition managed_thread_messages ::
  "'w env \<Rightarrow> thread_config \<Rightarrow> string \<Rightarrow> string option \<Rightarrow> pyval list \<Rightarrow> string \<Rightarrow> pydict
     \<Rightarrow> ('w system, managed) eff" where
  "managed_thread_messages env cfg tid turn messages model route =
     (if \<not> tc_summarization_enabled cfg then ret (messages, None)
      else seqE (read_db (public_message_events tid)) (\<lambda>public.
      if public = [] then ret (messages, None)
      else seqE (read_db (current_messages tid)) (\<lambda>current.
      if \<not> should_summarize_messages cfg model current then ret (current, None)
      else compact_thread_history env cfg tid turn model route (tc_recent_messages cfg) ''auto'')))"

end
