(* ===== verification/Thread_Turns.thy ===== *)
theory Thread_Turns
  imports Thread_Context Routing
begin

text \<open>
  A turn of a thread: the preparation of a user message (\<open>core/threads/turns.py\<close>), the fan-out to
  several nodes (\<open>core/threads/fanout.py\<close>) and the thread service (\<open>core/threads/service.py\<close>),
  except for the streaming of a reply.

  The content of a message is JSON, as it is once the request is parsed. The routing policy is
  that of the world at the time of the choice.
\<close>

section \<open>Turns\<close>

record prepared_turn =
  pt_thread :: thread
  pt_metadata :: pydict
  pt_messages :: "pyval list"
  pt_turn :: string
  pt_route :: pydict
  pt_decision :: route_decision
  pt_family :: "string option"
  pt_profile :: "string option"
  pt_context :: "pydict option"

definition nonempty :: "string option \<Rightarrow> bool" where
  "nonempty s = (case s of None \<Rightarrow> False | Some t \<Rightarrow> t \<noteq> [])"

definition requested_model_name ::
  "string option \<Rightarrow> string option \<Rightarrow> string option \<Rightarrow> string option" where
  "requested_model_name model family profile =
     (case (family, profile) of
        (Some f, Some p) \<Rightarrow> if f \<noteq> [] \<and> p \<noteq> [] then Some (f @ '':'' @ p) else model
      | _ \<Rightarrow> model)"

definition route_from_decision :: "route_decision \<Rightarrow> string option \<Rightarrow> string option \<Rightarrow> pydict" where
  "route_from_decision d family profile =
     [(''node'', PStr (rd_node d)), (''model'', PStr (rd_model d)), (''family'', opt_text family),
      (''profile'', opt_text profile), (''strategy'', PStr (rd_strategy d)),
      (''reason'', PStr (rd_reason d))]"

definition block_text :: "pyval \<Rightarrow> string list" where
  "block_text block = (case block of
     PDict d \<Rightarrow> if py_eq (dget d ''type'') (PStr ''text'')
                then (case dget d ''text'' of PStr t \<Rightarrow> [t] | _ \<Rightarrow> []) else []
   | _ \<Rightarrow> [])"

definition message_display_text :: "pyval \<Rightarrow> string" where
  "message_display_text content = (case content of
     PStr s \<Rightarrow> s | PList blocks \<Rightarrow> join nl (concat (map block_text blocks)) | _ \<Rightarrow> py_str content)"

definition opt_entry :: "string \<Rightarrow> pyval option \<Rightarrow> pydict" where
  "opt_entry k v = (case v of None \<Rightarrow> [] | Some x \<Rightarrow> [(k, x)])"

definition candidate_json :: "candidate \<Rightarrow> pyval" where
  "candidate_json c = PDict (
     [(''node'', PStr (cd_node c)), (''model'', PStr (cd_model c))] @
     opt_entry ''priority'' (map_option PInt (cd_priority c)) @
     [(''source'', PStr (cd_source c))] @
     opt_entry ''route_check_errors'' (if cd_errors c = [] then None else Some (PList (map (\<lambda>(k, e).
       PDict [(''check'', PStr k), (''error_type'', PStr (exn_type e)), (''message'', PStr (exn_text e))])
       (cd_errors c)))) @
     opt_entry ''model_running'' (map_option PBool (cd_running c)) @
     opt_entry ''artifact_state'' (map_option opt_text (cd_artifact c)) @
     opt_entry ''model_available'' (map_option PBool (cd_available c)))"

definition decision_content :: "pydict \<Rightarrow> route_decision \<Rightarrow> pydict" where
  "decision_content route d = route @ [(''candidates'', PList (map candidate_json (rd_candidates d)))]"

text \<open>\<open>metadata.get("request_type") or "general"\<close>.\<close>

definition request_type_of :: "pydict \<Rightarrow> string" where
  "request_type_of md =
     (let v = dget md ''request_type'' in if truthy v then py_str v else ''general'')"

definition route_matches :: "pydict option \<Rightarrow> string option \<Rightarrow> string option \<Rightarrow> bool" where
  "route_matches route family profile =
     (let r = (case route of None \<Rightarrow> [] | Some r \<Rightarrow> r) in
      py_eq (dget r ''family'') (opt_text family) \<and> py_eq (dget r ''profile'') (opt_text profile))"

definition event_route :: "string option \<Rightarrow> string option \<Rightarrow> thread_event \<Rightarrow> pydict option" where
  "event_route family profile e =
     (case (te_node e, te_model e) of
        (Some n, Some m) \<Rightarrow>
          if te_type e = ''assistant_message'' \<and> n \<noteq> [] \<and> m \<noteq> [] \<and>
             (nonempty family \<or> nonempty profile \<longrightarrow> route_matches (te_route e) family profile)
          then Some [(''node'', PStr n), (''model'', PStr m)] else None
      | _ \<Rightarrow> None)"

definition previous_route ::
  "string \<Rightarrow> string option \<Rightarrow> string option \<Rightarrow> thread_db \<Rightarrow> pydict option" where
  "previous_route tid family profile db =
     first_some (event_route family profile) (rev (list_events tid True db))"

definition assigned_node :: "string \<Rightarrow> thread_db \<Rightarrow> string option" where
  "assigned_node tid db = first_some
     (\<lambda>e. if te_type e = ''assistant_message'' \<and> nonempty (te_node e) then te_node e else None)
     (rev (list_events tid True db))"

text \<open>A thread that a node has answered stays with that node.\<close>

definition require_thread_node_target :: "string \<Rightarrow> string \<Rightarrow> thread_db \<Rightarrow> exn + unit" where
  "require_thread_node_target tid target db =
     (let t = strip target in
      if \<not> starts_with ''node:'' t then Inr ()
      else let requested = strip (remove_prefix ''node:'' t) in
      if requested = [] then Inr ()
      else (case assigned_node tid db of
              None \<Rightarrow> Inr ()
            | Some assigned \<Rightarrow>
                if assigned = requested then Inr ()
                else Inl (Exn ''ValueError'' (''This thread is already routed to node '' @ quote_char @
                  assigned @ quote_char @ ''. Start a new thread to use node '' @ quote_char @
                  requested @ quote_char @ ''.''))))"

definition lift_sum :: "exn + 'a \<Rightarrow> ('s, 'a) eff" where
  "lift_sum r = (\<lambda>s. (r, s))"

definition choose_eff ::
  "('w \<Rightarrow> routing_policy) \<Rightarrow> string \<Rightarrow> string option \<Rightarrow> string \<Rightarrow> pydict option
     \<Rightarrow> ('w system, route_decision) eff" where
  "choose_eff pol ty requested target prev =
     (\<lambda>s. (case choose_route (pol (sy_world s)) ty requested target prev None of
             Inl msg \<Rightarrow> Inl (Exn ''ValueError'' msg) | Inr d \<Rightarrow> Inr d, s))"

text \<open>A routing error is recorded in the thread, and raised again.\<close>

definition or_routing_error ::
  "'w env \<Rightarrow> string \<Rightarrow> string option \<Rightarrow> ('w system, 'a) eff \<Rightarrow> ('w system, 'a) eff" where
  "or_routing_error env tid turn m =
     tryE m (\<lambda>e. if exn_type e = ''ValueError''
                 then seqE (append_error_async env tid ''ROUTING_ERROR'' e turn) (\<lambda>_. raise_exn e)
                 else raise_exn e)"

definition prepare_message_route ::
  "'w env \<Rightarrow> thread_config \<Rightarrow> ('w \<Rightarrow> routing_policy) \<Rightarrow> string \<Rightarrow> string \<Rightarrow> pyval \<Rightarrow> string option
     \<Rightarrow> string option \<Rightarrow> string option \<Rightarrow> string \<Rightarrow> pydict option \<Rightarrow> ('w system, prepared_turn) eff"
where
  "prepare_message_route env cfg pol tid role content model family profile target metadata =
     (if role \<noteq> ''user'' then raise_exn (Exn ''ValueError'' ''ThreadService only accepts user messages'')
      else
      seqE (load_thread tid) (\<lambda>thread.
      let md = dmerge (th_metadata thread) (case metadata of None \<Rightarrow> [] | Some m \<Rightarrow> m) in
      seqE (read_db (previous_route tid family profile)) (\<lambda>prev.
      let requested = requested_model_name model family profile in
      seqE (read_db (public_messages tid)) (\<lambda>history.
      let messages = history @ [PDict [(''role'', PStr ''user''), (''content'', content)]] in
      seqE new_turn_id (\<lambda>turn.
      seqE (pub_event env tid ''user_message'' (Some ''user'')
              [(''text'', PStr (message_display_text content)), (''request_content'', content),
               (''metadata'', PDict md)] True (Some turn) None None None None None) (\<lambda>_.
      seqE (or_routing_error env tid (Some turn)
              (seqE (read_db (require_thread_node_target tid target)) lift_sum)) (\<lambda>_.
      seqE (or_routing_error env tid (Some turn)
              (choose_eff pol (request_type_of md) (or_str requested (th_default_model thread)) target prev))
        (\<lambda>d.
      let route = route_from_decision d family profile in
      seqE (pub_event env tid ''routing_decision'' None (decision_content route d) False (Some turn)
              (Some route) (Some (rd_node d)) (Some (rd_model d)) None None) (\<lambda>_.
      seqE (managed_thread_messages env cfg tid (Some turn) messages (rd_model d) route) (\<lambda>(ms, ctx).
      ret \<lparr>pt_thread = thread, pt_metadata = md, pt_messages = ms, pt_turn = turn, pt_route = route,
           pt_decision = d, pt_family = family, pt_profile = profile, pt_context = ctx\<rparr>))))))))))"

section \<open>Fan-out\<close>

definition target_payload :: "pyval list \<Rightarrow> string \<Rightarrow> pydict" where
  "target_payload messages node =
     [(''messages'', PList messages), (''target'', PStr (''node:'' @ node)),
      (''_trusted_controller_target'', PBool True)]"

text \<open>One target: the request is logged, then the reply or the error that stood for it.\<close>

definition fanout_one ::
  "'w env \<Rightarrow> string \<Rightarrow> string \<Rightarrow> pyval list \<Rightarrow> route_decision \<Rightarrow> ('w system, pydict) eff" where
  "fanout_one env tid turn messages target =
     (let route = [(''node'', PStr (rd_node target)), (''model'', PStr (rd_model target)),
                   (''strategy'', PStr (rd_strategy target)), (''reason'', PStr (rd_reason target))] in
      seqE (pub_event env tid ''agent_request'' None
              [(''node'', PStr (rd_node target)), (''model'', PStr (rd_model target)),
               (''messages'', PList messages)] False (Some turn) None (Some (rd_node target))
              (Some (rd_model target)) None None) (\<lambda>_.
      tryE
        (seqE (chat_with_meta env (rd_model target) (target_payload messages (rd_node target)))
          (\<lambda>(response, _).
         seqE (lift_sum (reply_content response)) (\<lambda>content.
         seqE (pub_event env tid ''agent_response'' None [(''text'', content)] False (Some turn)
                 (Some route) (Some (rd_node target)) (Some (rd_model target)) None None) (\<lambda>_.
         ret [(''node'', PStr (rd_node target)), (''model'', PStr (rd_model target)),
              (''content'', content)]))))
        (\<lambda>exc.
         seqE (pub_event env tid ''agent_response'' None
                 [(''text'', PStr (''[error: '' @ exn_text exc @ '']''))] False (Some turn)
                 (Some route) (Some (rd_node target)) (Some (rd_model target)) None None) (\<lambda>_.
         ret [(''node'', PStr (rd_node target)), (''model'', PStr (rd_model target)),
              (''error'', PStr (exn_text exc))]))))"

fun fanout_all ::
  "'w env \<Rightarrow> string \<Rightarrow> string \<Rightarrow> pyval list \<Rightarrow> route_decision list \<Rightarrow> ('w system, pydict list) eff"
where
  "fanout_all env tid turn messages [] = ret []"
| "fanout_all env tid turn messages (t # ts) =
     seqE (fanout_one env tid turn messages t) (\<lambda>out.
     seqE (fanout_all env tid turn messages ts) (\<lambda>outs. ret (out # outs)))"

definition successful :: "pydict list \<Rightarrow> pyval list" where
  "successful outputs = concat (map (\<lambda>out. case map_of out ''content'' of None \<Rightarrow> [] | Some c \<Rightarrow> [c]) outputs)"

text \<open>\<open>str.join\<close> takes texts only.\<close>

definition join_texts :: "string \<Rightarrow> pyval list \<Rightarrow> exn + string" where
  "join_texts sep vs =
     (case position (\<lambda>v. case v of PStr _ \<Rightarrow> False | _ \<Rightarrow> True) vs of
        Some i \<Rightarrow> Inl (Exn ''TypeError'' (''sequence item '' @ str_int (int i) @
                    '': expected str instance, '' @ type_name (vs ! i) @ '' found''))
      | None \<Rightarrow> Inr (join sep (map py_str vs)))"

definition aggregate :: "pydict list \<Rightarrow> exn + string" where
  "aggregate outputs =
     (if successful outputs = [] then Inr ''[no successful agent responses]''
      else join_texts (nl @ nl @ ''---'' @ nl @ nl) (successful outputs))"

definition post_message_fanout ::
  "'w env \<Rightarrow> string \<Rightarrow> string \<Rightarrow> pyval list \<Rightarrow> route_decision \<Rightarrow> pydict \<Rightarrow> ('w system, pydict) eff" where
  "post_message_fanout env tid turn messages primary route =
     seqE (fanout_all env tid turn messages (primary # rd_fanout primary)) (\<lambda>outputs.
     seqE (pub_event env tid ''aggregation'' None [(''outputs'', PList (map PDict outputs))] False
             (Some turn) None None None None None) (\<lambda>_.
     seqE (lift_sum (aggregate outputs)) (\<lambda>text.
     seqE (pub_event env tid ''assistant_message'' (Some ''assistant'') [(''text'', PStr text)] True
             (Some turn) (Some route) (Some (rd_node primary)) (Some (rd_model primary)) None None) (\<lambda>_.
     ret [(''thread_id'', PStr tid),
          (''message'', PDict [(''role'', PStr ''assistant''), (''content'', PStr text)]),
          (''route'', PDict route)]))))"

section \<open>The service\<close>

definition profile_payload :: "prepared_turn \<Rightarrow> pydict" where
  "profile_payload p =
     (if nonempty (pt_family p) then [(''model_family'', opt_text (pt_family p))] else []) @
     (if nonempty (pt_profile p) then [(''context_profile'', opt_text (pt_profile p))] else [])"

definition as_chat_error :: "('w system, 'a) eff \<Rightarrow> ('w system, 'a) eff" where
  "as_chat_error m = tryE m (\<lambda>e. case e of
     Coded ty code text \<Rightarrow>
       if ty = ''ThreadContextError'' then raise_exn (Coded ''ThreadChatError'' code text)
       else raise_exn e
   | Exn _ _ \<Rightarrow> raise_exn e)"

definition post_message ::
  "'w env \<Rightarrow> thread_config \<Rightarrow> ('w \<Rightarrow> routing_policy) \<Rightarrow> string \<Rightarrow> string \<Rightarrow> pyval \<Rightarrow> string option
     \<Rightarrow> string \<Rightarrow> pydict option \<Rightarrow> string option \<Rightarrow> string option \<Rightarrow> pydict option \<Rightarrow> pyval list option
     \<Rightarrow> pyval list option \<Rightarrow> ('w system, pydict) eff" where
  "post_message env cfg pol tid role content model target metadata family profile generation
       documents citations =
     seqE (as_chat_error
       (prepare_message_route env cfg pol tid role content model family profile target metadata))
       (\<lambda>prepared.
     let messages = (case documents of None \<Rightarrow> [] | Some ds \<Rightarrow> ds) @ pt_messages prepared;
         turn = pt_turn prepared; route = pt_route prepared; d = pt_decision prepared in
     if rd_fanout d \<noteq> [] then post_message_fanout env tid turn messages d route
     else
     seqE (tryE
       (seqE (chat_with_meta env (rd_model d)
               (dmerge (dmerge (dmerge [(''messages'', PList messages)]
                  (case generation of None \<Rightarrow> [] | Some g \<Rightarrow> g))
                  [(''target'', PStr (''node:'' @ rd_node d)), (''_trusted_controller_target'', PBool True)])
                  (profile_payload prepared)))
         (\<lambda>(response, meta).
        seqE (lift_sum (reply_content response)) (\<lambda>reply. ret (response, meta, reply))))
       (\<lambda>e. seqE (append_error_async env tid ''CHAT_PROXY_ERROR'' e (Some turn)) (\<lambda>_. raise_exn e)))
       (\<lambda>(response, meta, reply).
     seqE (pub_event env tid ''assistant_message'' (Some ''assistant'')
             ([(''text'', reply), (''raw_response'', response), (''response_meta'', meta)] @
              (case citations of None \<Rightarrow> [] | Some [] \<Rightarrow> []
               | Some cs \<Rightarrow> [(''document_citations'', PList cs)]))
             True (Some turn) (Some route) (Some (rd_node d)) (Some (rd_model d)) None None) (\<lambda>_.
     ret [(''thread_id'', PStr tid),
          (''message'', PDict [(''role'', PStr ''assistant''), (''content'', reply)]),
          (''route'', PDict route),
          (''context_management'', case pt_context prepared of None \<Rightarrow> PNone | Some c \<Rightarrow> PDict c)])))"

definition latest_user_text :: "pyval list \<Rightarrow> string" where
  "latest_user_text messages =
     (case first_some (\<lambda>m. case m of
          PDict d \<Rightarrow> if py_eq (dget d ''role'') (PStr ''user'') then Some (py_str (dget d ''content'')) else None
        | _ \<Rightarrow> None) (rev messages) of
        None \<Rightarrow> [] | Some t \<Rightarrow> t)"

definition title_from_messages :: "pyval list \<Rightarrow> string option" where
  "title_from_messages messages =
     (let text = strip (latest_user_text messages) in if text = [] then None else Some (take 80 text))"

definition create_thread_eff ::
  "'w env \<Rightarrow> string option \<Rightarrow> string option \<Rightarrow> pydict \<Rightarrow> string option \<Rightarrow> ('w system, thread) eff" where
  "create_thread_eff env title dm md by =
     seqE (clock env) (\<lambda>now s. case create_thread now title dm md by (sy_db s) of
        (t, db) \<Rightarrow> (Inr t, s\<lparr>sy_db := db\<rparr>))"

text \<open>A chat of the OpenAI-compatible interface: it opens a thread unless it names one.\<close>

definition compat_thread ::
  "'w env \<Rightarrow> string option \<Rightarrow> pyval list \<Rightarrow> string option \<Rightarrow> pydict option \<Rightarrow> string option
     \<Rightarrow> ('w system, thread \<times> pydict) eff" where
  "compat_thread env tid messages model metadata by =
     (let md = (case metadata of None \<Rightarrow> [] | Some m \<Rightarrow> m) in
      case tid of
        None \<Rightarrow> seqE (create_thread_eff env (title_from_messages messages) model md by) (\<lambda>t. ret (t, md))
      | Some i \<Rightarrow> seqE (load_thread i) (\<lambda>t. ret (t, dmerge (th_metadata t) md)))"

definition raise_chat_routing :: "('w system, 'a) eff \<Rightarrow> ('w system, 'a) eff" where
  "raise_chat_routing m = tryE m (\<lambda>e. if exn_type e = ''ValueError''
     then raise_exn (Coded ''ThreadChatError'' ''ROUTING_ERROR'' (exn_text e)) else raise_exn e)"

definition prepare_compat_chat ::
  "'w env \<Rightarrow> thread_config \<Rightarrow> ('w \<Rightarrow> routing_policy) \<Rightarrow> string option \<Rightarrow> pyval list \<Rightarrow> string option
     \<Rightarrow> string option \<Rightarrow> string option \<Rightarrow> string \<Rightarrow> pydict option \<Rightarrow> string option
     \<Rightarrow> ('w system, pydict \<times> managed) eff" where
  "prepare_compat_chat env cfg pol thread_id messages model family profile target metadata by =
     seqE (compat_thread env thread_id messages model metadata by) (\<lambda>(thread, md).
     let tid = th_id thread in
     seqE (read_db (previous_route tid family profile)) (\<lambda>prev.
     let requested = requested_model_name model family profile in
     seqE new_turn_id (\<lambda>turn.
     seqE (pub_event env tid ''user_message'' (Some ''user'')
             [(''text'', PStr (latest_user_text messages)), (''metadata'', PDict md),
              (''messages'', PList messages)] True (Some turn) None None None None None) (\<lambda>_.
     seqE (raise_chat_routing (or_routing_error env tid (Some turn)
             (seqE (read_db (require_thread_node_target tid target)) lift_sum))) (\<lambda>_.
     seqE (raise_chat_routing (or_routing_error env tid (Some turn)
             (choose_eff pol (request_type_of md) (or_str requested (th_default_model thread)) target prev)))
       (\<lambda>d.
     let route = route_from_decision d family profile in
     seqE (pub_event env tid ''routing_decision'' None (decision_content route d) False (Some turn)
             (Some route) (Some (rd_node d)) (Some (rd_model d)) None None) (\<lambda>_.
     seqE (read_db (public_messages tid)) (\<lambda>public.
     seqE (as_chat_error
             (managed_thread_messages env cfg tid (Some turn) public (rd_model d) route)) (\<lambda>m.
     ret ([(''thread_id'', PStr tid), (''model'', PStr (rd_model d)),
           (''target'', PStr (''node:'' @ rd_node d)), (''route'', PDict route)], m))))))))))"

definition preview_compat_chat ::
  "thread_config \<Rightarrow> ('w \<Rightarrow> routing_policy) \<Rightarrow> string option \<Rightarrow> pyval list \<Rightarrow> string option \<Rightarrow> string option
     \<Rightarrow> string option \<Rightarrow> string \<Rightarrow> pydict option \<Rightarrow> ('w system, pydict \<times> pyval list) eff" where
  "preview_compat_chat cfg pol thread_id messages model family profile target metadata =
     (let md0 = (case metadata of None \<Rightarrow> [] | Some m \<Rightarrow> m) in
      seqE (case thread_id of None \<Rightarrow> ret None | Some i \<Rightarrow> seqE (load_thread i) (\<lambda>t. ret (Some t))) (\<lambda>thread.
      let md = (case thread of None \<Rightarrow> md0 | Some t \<Rightarrow> dmerge (th_metadata t) md0) in
      seqE (read_db (\<lambda>db. if nonempty thread_id then previous_route (the thread_id) family profile db else None))
        (\<lambda>prev.
      seqE (raise_chat_routing (choose_eff pol (request_type_of md)
              (or_str (requested_model_name model family profile)
                 (case thread of None \<Rightarrow> None | Some t \<Rightarrow> th_default_model t)) target prev)) (\<lambda>d.
      seqE (read_db (\<lambda>db. if nonempty thread_id
              then preview_thread_messages cfg (the thread_id) messages (rd_model d) db else messages)) (\<lambda>ms.
      ret ([(''thread_id'', opt_text thread_id), (''model'', PStr (rd_model d)),
            (''target'', PStr (''node:'' @ rd_node d)),
            (''route'', PDict (route_from_decision d family profile))], ms))))))"

definition record_compat_assistant ::
  "'w env \<Rightarrow> string \<Rightarrow> string \<Rightarrow> pyval \<Rightarrow> pyval \<Rightarrow> pydict \<Rightarrow> ('w system, unit) eff" where
  "record_compat_assistant env tid content response meta route =
     seqE (lift_sum (item_key ''node'' (PDict route))) (\<lambda>node.
     seqE (lift_sum (item_key ''model'' (PDict route))) (\<lambda>model.
     seqE (store_append env tid ''assistant_message'' (Some ''assistant'')
             [(''text'', PStr content), (''raw_response'', response), (''response_meta'', meta)] True
             None (Some route) (Some (py_str node)) (Some (py_str model)) None None) (\<lambda>_. ret ())))"

definition record_compat_error :: "'w env \<Rightarrow> string \<Rightarrow> exn \<Rightarrow> ('w system, unit) eff" where
  "record_compat_error env tid e = append_error env tid ''CHAT_PROXY_ERROR'' e None"

definition service_list_events :: "string \<Rightarrow> bool \<Rightarrow> ('w system, thread_event list) eff" where
  "service_list_events tid internal =
     seqE (load_thread tid) (\<lambda>_. read_db (list_events tid internal))"

definition compact_thread ::
  "'w env \<Rightarrow> thread_config \<Rightarrow> ('w \<Rightarrow> routing_policy) \<Rightarrow> string \<Rightarrow> string option \<Rightarrow> string option
     \<Rightarrow> string option \<Rightarrow> string \<Rightarrow> int option \<Rightarrow> ('w system, pydict \<times> managed) eff" where
  "compact_thread env cfg pol tid model family profile target recent =
     seqE (load_thread tid) (\<lambda>thread.
     seqE (read_db (previous_route tid family profile)) (\<lambda>prev.
     seqE (or_routing_error env tid None
             (seqE (seqE (read_db (require_thread_node_target tid target)) lift_sum) (\<lambda>_.
              choose_eff pol (request_type_of (th_metadata thread))
                (or_str (requested_model_name model family profile) (th_default_model thread)) target prev)))
       (\<lambda>d.
     let route = route_from_decision d family profile in
     seqE (pub_event env tid ''routing_decision'' None
             (decision_content route d @ [(''purpose'', PStr ''manual_context_compaction'')]) False None
             (Some route) (Some (rd_node d)) (Some (rd_model d)) None None) (\<lambda>_.
     seqE (as_chat_error (compact_thread_history env cfg tid None (rd_model d) route
             (case recent of None \<Rightarrow> tc_recent_messages cfg
              | Some n \<Rightarrow> if n = 0 then tc_recent_messages cfg else n) ''manual'')) (\<lambda>m.
     ret (route, m))))))"

end
