(* ===== verification/Thread_Log.thy ===== *)
theory Thread_Log
  imports Thread_Turns
begin

text \<open>
  What the operations of the thread service write to the log, and what they send to the model.
  \<open>wpl\<close> is a weakest precondition on the kinds of events appended: its rules follow the
  structure of an operation and leave one goal for each of its ends.
\<close>

section \<open>Reasoning about what is appended\<close>

named_theorems wpl_rules \<open>introduction rules of the calculus of appended events\<close>

definition has_thread :: "string \<Rightarrow> 'w system \<Rightarrow> bool" where
  "has_thread tid s \<longleftrightarrow> find_thread (sy_db s) tid \<noteq> None"

definition wpl :: "string \<Rightarrow> ('w system, 'a) eff \<Rightarrow> (exn + 'a \<Rightarrow> string list \<Rightarrow> bool) \<Rightarrow> string list \<Rightarrow> bool" where
  "wpl tid m Q acc \<longleftrightarrow> (\<forall>s r s'. has_thread tid s \<longrightarrow> m s = (r, s') \<longrightarrow> has_thread tid s' \<and>
     (\<exists>new. th_events (sy_db s') = th_events (sy_db s) @ new \<and> (\<forall>e \<in> set new. te_thread e = tid) \<and>
        Q r (acc @ map te_type new)))"

lemma wplI:
  assumes "\<And>s r s'. has_thread tid s \<Longrightarrow> m s = (r, s') \<Longrightarrow> has_thread tid s' \<and>
     (\<exists>new. th_events (sy_db s') = th_events (sy_db s) @ new \<and> (\<forall>e \<in> set new. te_thread e = tid) \<and>
        Q r (acc @ map te_type new))"
  shows "wpl tid m Q acc"
  using assms by (simp add: wpl_def)

lemma wplE:
  assumes "wpl tid m Q acc" "has_thread tid s" "m s = (r, s')"
  obtains new where "has_thread tid s'" "th_events (sy_db s') = th_events (sy_db s) @ new"
    "\<forall>e \<in> set new. te_thread e = tid" "Q r (acc @ map te_type new)"
  using assms unfolding wpl_def by blast

lemma wpl_silent:
  assumes "\<And>s r s'. has_thread tid s \<Longrightarrow> m s = (r, s') \<Longrightarrow> th_events (sy_db s') = th_events (sy_db s) \<and>
     th_threads (sy_db s') = th_threads (sy_db s) \<and> Q r acc"
  shows "wpl tid m Q acc"
proof (rule wplI)
  fix s r s' assume "has_thread tid s" "m s = (r, s')"
  from assms [OF this] \<open>has_thread tid s\<close> show "has_thread tid s' \<and>
     (\<exists>new. th_events (sy_db s') = th_events (sy_db s) @ new \<and> (\<forall>e \<in> set new. te_thread e = tid) \<and>
        Q r (acc @ map te_type new))"
    by (simp add: has_thread_def find_thread_def)
qed

lemma wpl_ret [wpl_rules]: "Q (Inr x) acc \<Longrightarrow> wpl tid (ret x) Q acc"
  by (rule wpl_silent) (simp add: ret_def)

lemma wpl_raise [wpl_rules]: "Q (Inl e) acc \<Longrightarrow> wpl tid (raise_exn e) Q acc"
  by (rule wpl_silent) (simp add: raise_exn_def)

lemma wpl_read [wpl_rules]: "(\<And>x. Q (Inr x) acc) \<Longrightarrow> wpl tid (read_db f) Q acc"
  by (rule wpl_silent) (auto simp: read_db_def)

lemma wpl_lift [wpl_rules]: "Q r acc \<Longrightarrow> wpl tid (lift_sum r) Q acc"
  by (rule wpl_silent) (simp add: lift_sum_def)

lemma wpl_load [wpl_rules]: "(\<And>t. Q (Inr t) acc) \<Longrightarrow> wpl tid (load_thread tid) Q acc"
  by (rule wpl_silent) (auto simp: load_thread_def get_thread_def has_thread_def)

lemma wpl_turn_id [wpl_rules]: "(\<And>x. Q (Inr x) acc) \<Longrightarrow> wpl tid new_turn_id Q acc"
  by (rule wpl_silent) (auto simp: new_turn_id_def)

lemma wpl_chat [wpl_rules]: "(\<And>r. Q r acc) \<Longrightarrow> wpl tid (chat_with_meta env model payload) Q acc"
  by (rule wpl_silent) (auto simp: chat_with_meta_def split: prod.splits)

lemma wpl_node [wpl_rules]: "(\<And>r. Q r acc) \<Longrightarrow> wpl tid (request_node env n me pa) Q acc"
  by (rule wpl_silent) (auto simp: request_node_def split: prod.splits)

lemma wpl_pub [wpl_rules]:
  assumes "\<And>e. Q (Inr e) (acc @ [ty])"
  shows "wpl tid (pub_event env tid ty role content public turn route node model code detail) Q acc"
proof (rule wplI)
  fix s r s'
  assume h: "has_thread tid s"
    and m: "pub_event env tid ty role content public turn route node model code detail s = (r, s')"
  obtain t where t: "find_thread (sy_db s) tid = Some t" using h by (auto simp: has_thread_def)
  obtain now w where c: "ev_clock env (sy_world s) = (now, w)" by (cases "ev_clock env (sy_world s)")
  obtain e db where a: "append_event now tid ty role content public turn route node model code detail (sy_db s)
      = (Inr e, db)"
    using t by (simp add: append_event_def Let_def)
  have e: "te_thread e = tid" "te_type e = ty" "th_events db = th_events (sy_db s) @ [e]"
    and th: "th_threads db = map_if (\<lambda>t. th_id t = tid) (\<lambda>t. t\<lparr>th_updated := te_created e\<rparr>)
      (th_threads (sy_db s))"
    using a by (auto elim: append_event_Inr)
  have r: "r = Inr e" and db: "sy_db s' = db"
    using m t c a by (auto simp: pub_event_def store_append_def load_thread_def get_thread_def clock_def
        seqE_def publish_def ret_def)
  have "find_thread db tid \<noteq> None"
    unfolding find_thread_def th using t [unfolded find_thread_def]
    by (subst find_map_if) simp_all
  then show "has_thread tid s' \<and>
     (\<exists>new. th_events (sy_db s') = th_events (sy_db s) @ new \<and> (\<forall>e \<in> set new. te_thread e = tid) \<and>
        Q r (acc @ map te_type new))"
    using assms by (auto simp: has_thread_def db r e)
qed

lemma wpl_seq [wpl_rules]:
  assumes "wpl tid m (\<lambda>r ts. case r of Inl e \<Rightarrow> Q (Inl e) ts | Inr x \<Rightarrow> wpl tid (f x) Q ts) acc"
  shows "wpl tid (seqE m f) Q acc"
proof (rule wplI)
  fix s r s' assume h: "has_thread tid s" and m: "seqE m f s = (r, s')"
  obtain r1 s1 where 1: "m s = (r1, s1)" by (cases "m s")
  obtain n1 where h1: "has_thread tid s1" and n1: "th_events (sy_db s1) = th_events (sy_db s) @ n1"
      "\<forall>e \<in> set n1. te_thread e = tid"
    and q: "case r1 of Inl e \<Rightarrow> Q (Inl e) (acc @ map te_type n1)
      | Inr x \<Rightarrow> wpl tid (f x) Q (acc @ map te_type n1)"
    using assms h 1 unfolding wpl_def by blast
  show "has_thread tid s' \<and>
     (\<exists>new. th_events (sy_db s') = th_events (sy_db s) @ new \<and> (\<forall>e \<in> set new. te_thread e = tid) \<and>
        Q r (acc @ map te_type new))"
  proof (cases r1)
    case (Inl e)
    with m 1 h1 n1 q show ?thesis by (auto simp: seqE_def)
  next
    case (Inr x)
    with m 1 have "f x s1 = (r, s')" by (simp add: seqE_def)
    from q Inr have "wpl tid (f x) Q (acc @ map te_type n1)" by simp
    from wplE [OF this h1 \<open>f x s1 = (r, s')\<close>] obtain n2 where "has_thread tid s'"
      "th_events (sy_db s') = th_events (sy_db s1) @ n2" "\<forall>e \<in> set n2. te_thread e = tid"
      "Q r ((acc @ map te_type n1) @ map te_type n2)" .
    with n1 show ?thesis by (auto intro!: exI [of _ "n1 @ n2"])
  qed
qed

lemma wpl_try [wpl_rules]:
  assumes "wpl tid m (\<lambda>r ts. case r of Inl e \<Rightarrow> wpl tid (h e) Q ts | Inr x \<Rightarrow> Q (Inr x) ts) acc"
  shows "wpl tid (tryE m h) Q acc"
proof (rule wplI)
  fix s r s' assume ht: "has_thread tid s" and m: "tryE m h s = (r, s')"
  obtain r1 s1 where 1: "m s = (r1, s1)" by (cases "m s")
  obtain n1 where h1: "has_thread tid s1" and n1: "th_events (sy_db s1) = th_events (sy_db s) @ n1"
      "\<forall>e \<in> set n1. te_thread e = tid"
    and q: "case r1 of Inl e \<Rightarrow> wpl tid (h e) Q (acc @ map te_type n1)
      | Inr x \<Rightarrow> Q (Inr x) (acc @ map te_type n1)"
    using assms ht 1 unfolding wpl_def by blast
  show "has_thread tid s' \<and>
     (\<exists>new. th_events (sy_db s') = th_events (sy_db s) @ new \<and> (\<forall>e \<in> set new. te_thread e = tid) \<and>
        Q r (acc @ map te_type new))"
  proof (cases r1)
    case (Inr x)
    with m 1 h1 n1 q show ?thesis by (auto simp: tryE_def)
  next
    case (Inl e)
    with m 1 have "h e s1 = (r, s')" by (simp add: tryE_def)
    from q Inl have "wpl tid (h e) Q (acc @ map te_type n1)" by simp
    from wplE [OF this h1 \<open>h e s1 = (r, s')\<close>] obtain n2 where "has_thread tid s'"
      "th_events (sy_db s') = th_events (sy_db s1) @ n2" "\<forall>e \<in> set n2. te_thread e = tid"
      "Q r ((acc @ map te_type n1) @ map te_type n2)" .
    with n1 show ?thesis by (auto intro!: exI [of _ "n1 @ n2"])
  qed
qed

lemma wpl_error [wpl_rules]:
  "Q (Inr ()) (acc @ [''error'']) \<Longrightarrow> wpl tid (append_error_async env tid code e turn) Q acc"
  unfolding append_error_async_def by (intro wpl_rules) (simp add: wpl_ret)

lemma wpl_if [wpl_rules]:
  "(b \<Longrightarrow> wpl tid m Q acc) \<Longrightarrow> (\<not> b \<Longrightarrow> wpl tid m' Q acc) \<Longrightarrow> wpl tid (if b then m else m') Q acc"
  by simp

lemma wpl_Let [wpl_rules]: "(\<And>x. wpl tid (f x) Q acc) \<Longrightarrow> wpl tid (Let e f) Q acc"
  by (simp add: Let_def)

lemma wpl_pair [wpl_rules]:
  "(\<And>a b. wpl tid (f a b) Q acc) \<Longrightarrow> wpl tid (case p of (a, b) \<Rightarrow> f a b) Q acc"
  by (cases p) simp

lemma wpl_sum [wpl_rules]:
  "(\<And>e. wpl tid (f e) Q acc) \<Longrightarrow> (\<And>x. wpl tid (g x) Q acc) \<Longrightarrow>
     wpl tid (case r of Inl e \<Rightarrow> f e | Inr x \<Rightarrow> g x) Q acc"
  by (cases r) auto

lemma wpl_case [wpl_rules]: "(\<And>e. r = Inl e \<Longrightarrow> A e) \<Longrightarrow> (\<And>x. r = Inr x \<Longrightarrow> B x) \<Longrightarrow>
    (case r of Inl e \<Rightarrow> A e | Inr x \<Rightarrow> B x)"
  by (cases r) auto

section \<open>The log of a turn\<close>

definition context_shape :: "string list \<Rightarrow> (exn + 'a) \<Rightarrow> string list \<Rightarrow> bool" where
  "context_shape acc r ts \<longleftrightarrow>
     (if isl r then ts = acc @ [''error''] else ts = acc \<or> ts = acc @ [''history_summary''])"

lemma wpl_weaken: "wpl tid m P acc \<Longrightarrow> (\<And>r ts. P r ts \<Longrightarrow> Q r ts) \<Longrightarrow> wpl tid m Q acc"
  unfolding wpl_def by meson

lemma compact_log:
  "wpl tid (compact_thread_history env cfg tid turn model route k origin) (context_shape acc) acc"
  unfolding compact_thread_history_def
  by (intro wpl_rules) (simp_all add: context_shape_def)
lemma managed_log:
  "wpl tid (managed_thread_messages env cfg tid turn ms model route) (context_shape acc) acc"
  unfolding managed_thread_messages_def
  by (intro wpl_rules compact_log) (simp_all add: context_shape_def)

lemma wpl_choose:
  assumes "\<And>w d. choose_route (pol w) ty req target prev None = Inr d \<Longrightarrow> Q (Inr d) acc"
    and "\<And>e. Q (Inl e) acc"
  shows "wpl tid (choose_eff pol ty req target prev) Q acc"
  by (rule wpl_silent) (use assms in \<open>auto simp: choose_eff_def split: sum.splits\<close>)

text \<open>The choice fails with \<open>ValueError\<close> only, and so does the check of the target.\<close>

definition prepared_shape :: "(exn + prepared_turn) \<Rightarrow> string list \<Rightarrow> bool" where
  "prepared_shape r ts \<longleftrightarrow>
     (case r of
        Inl e \<Rightarrow> ts \<in> {[''user_message'', ''error''], [''user_message'', ''routing_decision'', ''error'']}
      | Inr p \<Rightarrow> ts \<in> {[''user_message'', ''routing_decision''],
                      [''user_message'', ''routing_decision'', ''history_summary'']})"

lemma wpl_choose_routing:
  assumes "\<And>w d. choose_route (pol w) ty req target prev None = Inr d \<Longrightarrow> Q (Inr d) acc"
    and "\<And>e. Q (Inl e) (acc @ [''error''])"
  shows "wpl tid (or_routing_error env tid turn (choose_eff pol ty req target prev)) Q acc"
proof (rule wplI)
  fix s r s'
  assume h: "has_thread tid s"
    and m: "or_routing_error env tid turn (choose_eff pol ty req target prev) s = (r, s')"
  show "has_thread tid s' \<and>
     (\<exists>new. th_events (sy_db s') = th_events (sy_db s) @ new \<and> (\<forall>e \<in> set new. te_thread e = tid) \<and>
        Q r (acc @ map te_type new))"
  proof (cases "choose_route (pol (sy_world s)) ty req target prev None")
    case (Inr d)
    with m have "r = Inr d" "s' = s" by (auto simp: or_routing_error_def choose_eff_def tryE_def)
    with assms(1) [OF Inr] h show ?thesis by auto
  next
    case (Inl msg)
    with m have "seqE (append_error_async env tid ''ROUTING_ERROR'' (Exn ''ValueError'' msg) turn)
        (\<lambda>_. raise_exn (Exn ''ValueError'' msg)) s = (r, s')"
      by (simp add: or_routing_error_def choose_eff_def tryE_def)
    moreover have "wpl tid (seqE (append_error_async env tid ''ROUTING_ERROR'' (Exn ''ValueError'' msg) turn)
        (\<lambda>_. raise_exn (Exn ''ValueError'' msg))) Q acc"
      by (intro wpl_rules) (simp_all add: assms(2))
    ultimately show ?thesis using h unfolding wpl_def by blast
  qed
qed

lemma wpl_target_routing:
  assumes "Q (Inr ()) acc" and "\<And>e. Q (Inl e) (acc @ [''error''])"
  shows "wpl tid (or_routing_error env tid turn
    (seqE (read_db (require_thread_node_target tid target)) lift_sum)) Q acc"
proof (rule wplI)
  fix s r s'
  assume h: "has_thread tid s"
    and m: "or_routing_error env tid turn
      (seqE (read_db (require_thread_node_target tid target)) lift_sum) s = (r, s')"
  let ?c = "require_thread_node_target tid target (sy_db s)"
  have v: "?c = Inl e \<Longrightarrow> exn_type e = ''ValueError''" for e
    by (auto simp: require_thread_node_target_def Let_def split: if_splits option.splits)
  have inner: "seqE (read_db (require_thread_node_target tid target)) lift_sum s = (?c, s)"
    by (simp add: seqE_def read_db_def lift_sum_def)
  show "has_thread tid s' \<and>
     (\<exists>new. th_events (sy_db s') = th_events (sy_db s) @ new \<and> (\<forall>e \<in> set new. te_thread e = tid) \<and>
        Q r (acc @ map te_type new))"
  proof (cases ?c)
    case (Inr d)
    with m have "r = Inr ()" "s' = s" by (auto simp: or_routing_error_def tryE_def inner)
    with assms(1) h show ?thesis by auto
  next
    case (Inl e)
    with m v have "seqE (append_error_async env tid ''ROUTING_ERROR'' e turn) (\<lambda>_. raise_exn e) s = (r, s')"
      by (simp add: or_routing_error_def tryE_def inner)
    moreover have "wpl tid (seqE (append_error_async env tid ''ROUTING_ERROR'' e turn)
        (\<lambda>_. raise_exn e)) Q acc"
      by (intro wpl_rules) (simp_all add: assms(2))
    ultimately show ?thesis using h unfolding wpl_def by blast
  qed
qed

lemma prepare_log:
  assumes "\<And>w ty req t p d. choose_route (pol w) ty req t p None = Inr d \<Longrightarrow> P d"
  shows "wpl tid (prepare_message_route env cfg pol tid ''user'' content model family profile target metadata)
    (\<lambda>r ts. prepared_shape r ts \<and> (\<forall>p. r = Inr p \<longrightarrow> P (pt_decision p))) []"
proof -
  have m: "wpl tid (managed_thread_messages env cfg tid turn ms mo route)
      (\<lambda>r ts. case r of Inl e \<Rightarrow> ts = acc @ [''error''] | Inr x \<Rightarrow> ts = acc \<or> ts = acc @ [''history_summary'']) acc"
    for turn ms mo route acc
    by (rule wpl_weaken [OF managed_log]) (auto simp: context_shape_def split: sum.splits if_splits)
  show ?thesis
    unfolding prepare_message_route_def
    by (simp only: simp_thms if_False not_True_eq_False,
        intro wpl_rules wpl_target_routing wpl_choose_routing wpl_weaken [OF m])
      (auto simp: prepared_shape_def intro: assms)
qed

definition posted_shape :: "(exn + 'a) \<Rightarrow> string list \<Rightarrow> bool" where
  "posted_shape r ts \<longleftrightarrow>
     (\<exists>mid. ts = ''user_message'' # mid @ [if isl r then ''error'' else ''assistant_message''] \<and>
        set mid \<subseteq> {''routing_decision'', ''history_summary''})"

lemma posted_shape_intros:
  "isl r \<Longrightarrow> posted_shape r [''user_message'', ''error'']"
  "isl r \<Longrightarrow> posted_shape r [''user_message'', ''routing_decision'', ''error'']"
  "isl r \<Longrightarrow> posted_shape r [''user_message'', ''routing_decision'', ''history_summary'', ''error'']"
  "\<not> isl r \<Longrightarrow> posted_shape r [''user_message'', ''routing_decision'', ''assistant_message'']"
  "\<not> isl r \<Longrightarrow> posted_shape r [''user_message'', ''routing_decision'', ''history_summary'', ''assistant_message'']"
  unfolding posted_shape_def
  by (auto intro: exI [of _ "[]"] exI [of _ "[''routing_decision'']"]
      exI [of _ "[''routing_decision'', ''history_summary'']"])

lemma post_message_log:
  assumes "\<And>w ty req t p d. choose_route (pol w) ty req t p None = Inr d \<Longrightarrow> rd_fanout d = []"
  shows "wpl tid (post_message env cfg pol tid ''user'' content model target metadata family profile
    generation documents citations) posted_shape []"
proof -
  have p: "wpl tid (prepare_message_route env cfg pol tid ''user'' content model family profile target metadata)
    (\<lambda>r ts. case r of
       Inl e \<Rightarrow> ts = [''user_message'', ''error''] \<or> ts = [''user_message'', ''routing_decision'', ''error'']
     | Inr p \<Rightarrow> rd_fanout (pt_decision p) = [] \<and> (ts = [''user_message'', ''routing_decision''] \<or>
          ts = [''user_message'', ''routing_decision'', ''history_summary''])) []"
  proof (rule wpl_weaken [OF prepare_log [where P = "\<lambda>d. rd_fanout d = []"]])
    show "rd_fanout d = []" if "choose_route (pol w) ty req t p None = Inr d" for w ty req t p d
      using that by (rule assms)
    fix r :: "exn + prepared_turn" and ts
    assume a: "prepared_shape r ts \<and> (\<forall>p. r = Inr p \<longrightarrow> rd_fanout (pt_decision p) = [])"
    show "case r of
       Inl e \<Rightarrow> ts = [''user_message'', ''error''] \<or> ts = [''user_message'', ''routing_decision'', ''error'']
     | Inr p \<Rightarrow> rd_fanout (pt_decision p) = [] \<and> (ts = [''user_message'', ''routing_decision''] \<or>
          ts = [''user_message'', ''routing_decision'', ''history_summary''])"
      using a by (auto simp: prepared_shape_def split: sum.splits)
  qed
  have c: "wpl tid (as_chat_error
      (prepare_message_route env cfg pol tid ''user'' content model family profile target metadata))
    (\<lambda>r ts. case r of
       Inl e \<Rightarrow> ts = [''user_message'', ''error''] \<or> ts = [''user_message'', ''routing_decision'', ''error'']
     | Inr p \<Rightarrow> rd_fanout (pt_decision p) = [] \<and> (ts = [''user_message'', ''routing_decision''] \<or>
          ts = [''user_message'', ''routing_decision'', ''history_summary''])) []"
    unfolding as_chat_error_def
    by (rule wpl_try, rule wpl_weaken [OF p])
      (auto split: sum.splits exn.splits intro!: wpl_rules)
  show ?thesis
    unfolding post_message_def
  proof (rule wpl_seq, rule wpl_weaken [OF c], rule wpl_case)
    fix r :: "exn + prepared_turn" and ts e
    assume "r = Inl e" and "case r of
       Inl e \<Rightarrow> ts = [''user_message'', ''error''] \<or> ts = [''user_message'', ''routing_decision'', ''error'']
     | Inr p \<Rightarrow> rd_fanout (pt_decision p) = [] \<and> (ts = [''user_message'', ''routing_decision''] \<or>
          ts = [''user_message'', ''routing_decision'', ''history_summary''])"
    then show "posted_shape (Inl e) ts" by (auto simp: posted_shape_intros)
  next
    fix r :: "exn + prepared_turn" and ts p
    assume "r = Inr p" and "case r of
       Inl e \<Rightarrow> ts = [''user_message'', ''error''] \<or> ts = [''user_message'', ''routing_decision'', ''error'']
     | Inr p \<Rightarrow> rd_fanout (pt_decision p) = [] \<and> (ts = [''user_message'', ''routing_decision''] \<or>
          ts = [''user_message'', ''routing_decision'', ''history_summary''])"
    then have n: "rd_fanout (pt_decision p) = []"
      and ts: "ts = [''user_message'', ''routing_decision''] \<or>
          ts = [''user_message'', ''routing_decision'', ''history_summary'']" by auto
    show "wpl tid (let messages = (case documents of None \<Rightarrow> [] | Some ds \<Rightarrow> ds) @ pt_messages p;
         turn = pt_turn p; route = pt_route p; d = pt_decision p in
     if rd_fanout d \<noteq> [] then post_message_fanout env tid turn messages d route
     else
     seqE (tryE
       (seqE (chat_with_meta env (rd_model d)
               (dmerge (dmerge (dmerge [(''messages'', PList messages)]
                  (case generation of None \<Rightarrow> [] | Some g \<Rightarrow> g))
                  [(''target'', PStr (''node:'' @ rd_node d)), (''_trusted_controller_target'', PBool True)])
                  (profile_payload p)))
         (\<lambda>(response, meta).
        seqE (lift_sum (reply_content response)) (\<lambda>reply. ret (response, meta, reply))))
       (\<lambda>e. seqE (append_error_async env tid ''CHAT_PROXY_ERROR'' e (Some turn)) (\<lambda>_. raise_exn e)))
       (\<lambda>(response, meta, reply).
     seqE (pub_event env tid ''assistant_message'' (Some ''assistant'')
             ([(''text'', reply), (''raw_response'', response), (''response_meta'', meta)] @
              (case citations of None \<Rightarrow> [] | Some [] \<Rightarrow> []
               | Some cs \<Rightarrow> [(''document_citations'', PList cs)]))
             True (Some turn) (Some route) (Some (rd_node d)) (Some (rd_model d)) None None) (\<lambda>_.
     ret [(''thread_id'', PStr tid),
          (''message'', PDict [(''role'', PStr ''assistant''), (''content'', reply)]),
          (''route'', PDict route),
          (''context_management'', case pt_context p of None \<Rightarrow> PNone | Some c \<Rightarrow> PDict c)])))
      posted_shape ts"
      unfolding Let_def n
      using ts by (simp, intro wpl_rules) (auto simp: posted_shape_intros)
  qed
qed
lemma choose_no_fanout:
  assumes "choose_route pl ty req target prev None = Inr d" "\<not> pl_fanout_enabled pl" "pl_plugin pl = None"
  shows "rd_fanout d = []"
proof -
  have d: "choose_deterministic pl ty req target prev = Inr d"
    using assms(1,3) by (cases "choose_deterministic pl ty req target prev")
      (auto simp: choose_route_def effective_request_type_def annotate_decision_def)
  consider (l) "choose_local_agent pl req prev = Inr d"
    | (e) "choose_explicit_node pl (remove_prefix ''node:'' target) req = Inr d"
    | (a) "choose_thread_affinity pl prev = Some d" | (f) "choose_fallback pl req = Some d"
    | (r) "choose_request_type pl ty = Some d"
    using d assms(2) by (auto simp: choose_deterministic_def split: if_splits option.splits)
  then show ?thesis
  proof cases
    case l
    then show ?thesis
      by (auto simp: choose_local_agent_def plain_decision_def split: option.splits prod.splits if_splits)
  next
    case e
    obtain nc model where n: "map_of (pl_nodes pl) (remove_prefix ''node:'' target) = Some nc"
      and m: "or_str req (nc_default_model nc) = Some model"
      using e by (auto simp: choose_explicit_node_def split: option.splits)
    let ?n = "remove_prefix ''node:'' target"
    obtain ok c where a: "candidate_running pl (new_candidate ?n model ''explicit'' None) = (ok, c)"
      by (cases "candidate_running pl (new_candidate ?n model ''explicit'' None)")
    show ?thesis
    proof (cases "ok \<or> choose_available pl [c] ''explicit_target'' = None")
      case True
      with e n m a show ?thesis
        by (cases ok) (auto simp: choose_explicit_node_def plain_decision_def)
    next
      case False
      then obtain d' where d': "choose_available pl [c] ''explicit_target'' = Some d'" by blast
      have "rd_fanout d' = []" using choose_available_sound [OF d'] by blast
      moreover have "rd_fanout d = rd_fanout d'"
        using e n m a False d' by (cases d') (auto simp: choose_explicit_node_def)
      ultimately show ?thesis by simp
    qed
  next
    case a
    then show ?thesis
      by (auto simp: choose_thread_affinity_def plain_decision_def
          split: option.splits pyval.splits prod.splits if_splits)
  next
    case f
    then show ?thesis using choose_fallback_sound by blast
  next
    case r
    then show ?thesis using choose_request_type_sound by blast
  qed
qed

section \<open>A small environment\<close>

definition reply_json :: "pyval \<Rightarrow> pyval" where
  "reply_json content = PDict [(''choices'', PList [PDict [(''message'', PDict [(''content'', content)])]])]"

definition demo_env :: "pyval \<Rightarrow> nat env" where
  "demo_env content = \<lparr>ev_clock = (\<lambda>w. (int w, Suc w)), ev_has_bus = False, ev_emit = (\<lambda>_ _ _ w. w),
     ev_chat = (\<lambda>_ _ w. (Inr (reply_json content, PDict []), w)), ev_node = (\<lambda>_ _ _ w. (Inr PNone, w)),
     ev_time = (\<lambda>w. (int w, w)), ev_sleep = Suc\<rparr>"

definition demo_cfg_threads :: "bool \<Rightarrow> int \<Rightarrow> thread_config" where
  "demo_cfg_threads enabled window = \<lparr>tc_summarization_enabled = enabled, tc_compaction_enabled = True,
     tc_trigger_ratio = 3/4, tc_recent_messages = 1, tc_summary_max_tokens = 768, tc_models = [],
     tc_min_prompt_tokens = window\<rparr>"

definition demo_sys :: "nat system" where
  "demo_sys = \<lparr>sy_db = demo_thread, sy_world = 200\<rparr>"

definition demo_post :: "bool \<Rightarrow> pyval \<Rightarrow> pyval \<Rightarrow> nat system \<Rightarrow> (exn + pydict) \<times> nat system" where
  "demo_post fanout reply content = post_message (demo_env reply) (demo_cfg_threads True 6000)
     (\<lambda>_. demo_policy fanout) ''0'' ''user'' content (Some ''m'') ''auto''
     (Some [(''request_type'', PStr ''coding'')]) None None None None None"



section \<open>What a compaction keeps\<close>

lemma pub_event_result:
  assumes "has_thread tid s"
  shows "\<exists>e s'. pub_event env tid ty role content public turn route node model code detail s = (Inr e, s') \<and>
    th_events (sy_db s') = th_events (sy_db s) @ [e] \<and> te_thread e = tid \<and> te_type e = ty \<and>
    te_content e = content \<and> te_public e = public \<and> te_id e = fresh_id (sy_db s)"
proof -
  obtain t where t: "find_thread (sy_db s) tid = Some t" using assms by (auto simp: has_thread_def)
  obtain now w where c: "ev_clock env (sy_world s) = (now, w)" by (cases "ev_clock env (sy_world s)")
  obtain e db where a: "append_event now tid ty role content public turn route node model code detail (sy_db s)
      = (Inr e, db)"
    using t by (simp add: append_event_def Let_def)
  have e: "te_thread e = tid" "te_type e = ty" "th_events db = th_events (sy_db s) @ [e]"
    "te_content e = content" "te_public e = public" "te_id e = fresh_id (sy_db s)"
    using a by (auto elim: append_event_Inr)
  obtain s' where "pub_event env tid ty role content public turn route node model code detail s = (Inr e, s')"
    "sy_db s' = db"
    using t c a by (auto simp: pub_event_def store_append_def load_thread_def get_thread_def clock_def
        seqE_def publish_def ret_def)
  with e show ?thesis by metis
qed

lemma list_events_snoc:
  "th_events db' = th_events db @ [e] \<Longrightarrow> list_events tid b db' =
     list_events tid b db @ (if te_thread e = tid \<and> (b \<or> te_public e) then [e] else [])"
  by (simp add: list_events_def)

lemma seqE_read: "seqE (read_db f) g s = g (f (sy_db s)) s"
  by (simp add: seqE_def read_db_def)

lemma seqE_Inr:
  assumes "seqE m f s = (Inr y, s')"
  obtains x s1 where "m s = (Inr x, s1)" "f x s1 = (Inr y, s')"
  using assms by (auto simp: seqE_def split: prod.splits sum.splits)

lemma slice_split:
  "1 \<le> k \<Longrightarrow> k < int (length xs) \<Longrightarrow> slice_to (- k) xs @ slice_from (- k) xs = xs"
  "1 \<le> k \<Longrightarrow> k < int (length xs) \<Longrightarrow> int (length (slice_from (- k) xs)) = k"
  by (simp_all add: slice_to_def slice_from_def)

lemma py_str_texts: "map py_str (map PStr xs) = xs" "map py_str (event_ids es) = map te_id es"
  by (induction xs) (simp_all add: event_ids_def)

text \<open>C14. Compaction loses no message and sends none twice. When it succeeds with more than \<open>k\<close>
  unsummarized messages, the log afterwards covers by its summary exactly the messages covered
  before and all unsummarized ones but the last \<open>k\<close>; those \<open>k\<close> stay verbatim; and the messages
  handed to the model are what any later reader rebuilds from the log: the new summary,
  followed by the \<open>k\<close> recent messages.\<close>

theorem compaction_exact:
  assumes inv: "store_step\<^sup>*\<^sup>* empty_threads (sy_db s)" and ht: "find_thread (sy_db s) tid \<noteq> None"
    and k: "1 \<le> k" "k < int (length (unsummarized_events tid (sy_db s)))"
    and run: "compact_thread_history env cfg tid turn model route k origin s = (Inr (msgs, meta), s')"
  shows "\<exists>summary source recent.
    unsummarized_events tid (sy_db s) = source @ recent \<and> int (length recent) = k \<and>
    public_message_events tid (sy_db s') = public_message_events tid (sy_db s) \<and>
    latest_history_summary tid (sy_db s') = Some (summary, covered_ids tid (sy_db s) @ map te_id source) \<and>
    unsummarized_events tid (sy_db s') = recent \<and>
    msgs = summary_system_message summary # map event_message recent \<and>
    current_messages tid (sy_db s') = msgs"
proof -
  let ?db = "sy_db s"
  let ?un = "unsummarized_events tid ?db"
  let ?src = "slice_to (- k) ?un" and ?rec = "slice_from (- k) ?un"
  have hts: "has_thread tid s" using ht by (simp add: has_thread_def)
  let ?pay = "summary_payload cfg route (previous_summary tid ?db) (map event_message ?src)"
  let ?ask = "seqE (chat_with_meta env model ?pay) (\<lambda>(response, meta).
          case assistant_summary_content response of
            Inl e \<Rightarrow> raise_exn e | Inr summary \<Rightarrow> ret (summary, meta))"
  let ?fail = "\<lambda>exc. seqE (append_error_async env tid ''CONTEXT_SUMMARY_ERROR'' exc turn) (\<lambda>_.
            raise_exn (Coded ''ThreadContextError'' ''CONTEXT_SUMMARY_ERROR''
              (''Failed to summarize thread '' @ tid @ '' for model '' @ model @ '': '' @ exn_text exc)))"
  let ?finish = "\<lambda>(summary, meta).
       let compacted = summary_system_message summary # map event_message ?rec;
           after = messages_tokens compacted in
       seqE (pub_event env tid ''history_summary'' None
               (summary_content summary (covered_ids tid ?db) ?src (messages_tokens (current_messages tid ?db))
                  after model route meta origin)
               False turn (Some route) (Some (route_node route)) (Some model) None None) (\<lambda>e.
       ret (compacted, Some [(''summarized'', PBool True), (''summary_event_id'', PStr (te_id e)),
              (''prompt_tokens_before'', PInt (int (messages_tokens (current_messages tid ?db)))),
              (''prompt_tokens_after'', PInt (int after)), (''summary'', PStr summary),
              (''covered_event_count'', PInt (int (length ?src)))]))"
  have "seqE (tryE ?ask ?fail) ?finish s = (Inr (msgs, meta), s')"
    using run k(2) unfolding compact_thread_history_def seqE_read by (simp add: Let_def)
  then obtain p s2 where "tryE ?ask ?fail s = (Inr p, s2)" "?finish p s2 = (Inr (msgs, meta), s')"
    by (rule seqE_Inr)
  then obtain su m0 where t: "tryE ?ask ?fail s = (Inr (su, m0), s2)"
    and en: "?finish (su, m0) s2 = (Inr (msgs, meta), s')"
    by (cases p) blast
  define ask where "ask = ?ask"
  define fail :: "exn \<Rightarrow> ('a system, string \<times> pyval) eff" where "fail = ?fail"
  have nofail: "fail e u \<noteq> (Inr y, u')" for e u y u'
    unfolding fail_def by (auto simp: seqE_def raise_exn_def split: prod.splits sum.splits)
  have t': "tryE ask fail s = (Inr (su, m0), s2)" using t unfolding ask_def fail_def .
  have "ask s = (Inr (su, m0), s2)"
  proof (cases "ask s")
    case (Pair r u)
    with t' nofail show ?thesis by (cases r) (simp_all add: tryE_def)
  qed
  then have ask: "?ask s = (Inr (su, m0), s2)" unfolding ask_def .
  then have s2: "sy_db s2 = ?db"
    by (auto simp: seqE_def chat_with_meta_def raise_exn_def ret_def split: prod.splits sum.splits)
  have ht2: "has_thread tid s2" using hts by (simp add: has_thread_def s2)
  define cont where "cont = summary_content su (covered_ids tid ?db) ?src
      (messages_tokens (current_messages tid ?db))
      (messages_tokens (summary_system_message su # map event_message ?rec)) model route m0 origin"
  obtain e s3 where e: "pub_event env tid ''history_summary'' None cont
      False turn (Some route) (Some (route_node route)) (Some model) None None s2 = (Inr e, s3)"
    "th_events (sy_db s3) = th_events (sy_db s2) @ [e]" "te_thread e = tid" "te_type e = ''history_summary''"
    "te_content e = cont" "\<not> te_public e"
    using pub_event_result [OF ht2] by metis
  have s3: "s' = s3" and msgs: "msgs = summary_system_message su # map event_message ?rec"
    using en e(1) by (auto simp: Let_def seqE_def ret_def cont_def)
  let ?db' = "sy_db s'"
  have ev: "th_events ?db' = th_events ?db @ [e]" using e(2) s3 s2 by simp
  have pub: "public_message_events tid ?db' = public_message_events tid ?db"
    using e(3,6) by (simp add: public_message_events_def list_events_snoc [OF ev])
  have sm: "summary_of e = Some (su, covered_ids tid ?db @ map te_id ?src)"
    using e(4,5) by (simp add: summary_of_def cont_def summary_content_def dget_def py_str_texts del: map_map)
  have lat: "latest_history_summary tid ?db' = Some (su, covered_ids tid ?db @ map te_id ?src)"
    using e(3) sm by (simp add: latest_history_summary_def list_events_snoc [OF ev])
  have dist: "distinct (map te_id ?un)"
    using store.inv_reachable [OF refl inv]
    by (simp add: store_inv_def unsummarized_events_def public_message_events_def list_events_def
        distinct_map_filter)
  have un: "unsummarized_events tid ?db' = ?rec"
  proof -
    have "unsummarized_events tid ?db' = filter (\<lambda>x. te_id x \<notin> te_id ` set ?src) ?un"
      by (simp add: unsummarized_events_def covered_ids_def [of tid ?db'] lat pub conj_commute)
    also have "\<dots> = filter (\<lambda>x. te_id x \<notin> te_id ` set ?src) (?src @ ?rec)"
      using slice_split(1) [OF k] by simp
    also have "\<dots> = ?rec"
    proof -
      have "distinct (map te_id (?src @ ?rec))" using slice_split(1) [OF k] dist by simp
      then have "\<forall>x \<in> set ?rec. te_id x \<notin> te_id ` set ?src" by auto
      then show ?thesis by (simp add: filter_empty_conv)
    qed
    finally show ?thesis .
  qed
  have "su \<noteq> []"
    using ask by (auto simp: seqE_def chat_with_meta_def raise_exn_def ret_def assistant_summary_content_def
        split: prod.splits sum.splits pyval.splits if_splits)
  then have cur: "current_messages tid ?db' = msgs"
    by (simp add: current_messages_def previous_summary_def lat un msgs)
  show ?thesis
    using slice_split [OF k] pub lat un msgs cur
    by (intro exI [of _ su] exI [of _ ?src] exI [of _ ?rec]) simp
qed
definition demo_two :: "nat system" where
  "demo_two = \<lparr>sy_db = demo_event 5 (demo_event 90 demo_thread), sy_world = 200\<rparr>"

definition demo_compact :: "(exn + managed) \<times> nat system" where
  "demo_compact = compact_thread_history (demo_env (PStr ''sum'')) (demo_cfg_threads True 6000) ''0'' None
     ''m'' [(''node'', PStr ''b'')] 1 ''manual'' demo_two"

lemma compaction_exact_witness:
  "\<exists>summary. latest_history_summary ''0'' (sy_db (snd demo_compact)) = Some (summary, [''1'']) \<and>
     map te_id (unsummarized_events ''0'' (sy_db (snd demo_compact))) = [''2'']"
proof -
  have inv: "store_step\<^sup>*\<^sup>* empty_threads (sy_db demo_two)" by (simp add: demo_two_def demo_thread_run)
  have t: "find_thread (sy_db demo_two) ''0'' \<noteq> None" by code_simp
  have u: "map te_id (unsummarized_events ''0'' (sy_db demo_two)) = [''1'', ''2'']"
    "covered_ids ''0'' (sy_db demo_two) = []" by code_simp+
  have l: "(1 :: int) < int (length (unsummarized_events ''0'' (sy_db demo_two)))"
    using arg_cong [OF u(1), of length] by simp
  have i: "\<not> isl (fst demo_compact)" by code_simp
  then obtain msgs meta where m: "fst demo_compact = Inr (msgs, meta)"
    by (metis isl_def prod.exhaust sum.exhaust)
  then have run: "demo_compact = (Inr (msgs, meta), snd demo_compact)" by (metis prod.collapse)
  from compaction_exact [OF inv t _ l run [unfolded demo_compact_def], folded demo_compact_def]
  obtain summary source recent where
    c: "unsummarized_events ''0'' (sy_db demo_two) = source @ recent" "int (length recent) = 1"
      "latest_history_summary ''0'' (sy_db (snd demo_compact)) =
         Some (summary, covered_ids ''0'' (sy_db demo_two) @ map te_id source)"
      "unsummarized_events ''0'' (sy_db (snd demo_compact)) = recent" by auto
  from u(1) c(1) have "map te_id source @ map te_id recent = [''1''] @ [''2'']" by simp
  moreover have "length (map te_id recent) = length [''2'']" using c(2) by simp
  ultimately have "map te_id source = [''1'']" "map te_id recent = [''2'']"
    by (metis append_eq_append_conv)+
  with c u(2) show ?thesis by simp
qed

section \<open>Where the code does not do what it means to\<close>

definition image_message :: pyval where
  "image_message = PList [PDict [(''type'', PStr ''text''), (''text'', PStr ''look'')],
     PDict [(''type'', PStr ''image_url''), (''image_url'', PDict [(''url'', PStr ''data:x'')])]]"

definition demo_prepare :: "bool \<Rightarrow> (exn + prepared_turn) \<times> nat system" where
  "demo_prepare enabled = prepare_message_route (demo_env (PStr ''ok'')) (demo_cfg_threads enabled 6000)
     (\<lambda>_. demo_policy False) ''0'' ''user'' image_message (Some ''m'') None None ''auto''
     (Some [(''request_type'', PStr ''coding'')]) demo_sys"

text \<open>Images are dropped from the prompt. With summarization enabled, which is the default,
  the messages that a turn prepared are ignored: the prompt is rebuilt from the texts in the
  log. A message with a text and an image reaches the model with its text alone, whatever the
  length of the thread, while with summarization disabled it reaches the model whole.\<close>

theorem images_are_dropped:
  "(\<exists>p s. demo_prepare True = (Inr p, s) \<and> pt_messages p = [text_message ''user'' ''look'']) \<and>
   (\<exists>p s. demo_prepare False = (Inr p, s) \<and>
      pt_messages p = [PDict [(''role'', PStr ''user''), (''content'', image_message)]])"
proof
  have "case fst (demo_prepare True) of Inl e \<Rightarrow> False
    | Inr p \<Rightarrow> pt_messages p = [text_message ''user'' ''look'']" by code_simp
  then show "\<exists>p s. demo_prepare True = (Inr p, s) \<and> pt_messages p = [text_message ''user'' ''look'']"
    by (cases "demo_prepare True") (auto split: sum.splits)
  have "case fst (demo_prepare False) of Inl e \<Rightarrow> False
    | Inr p \<Rightarrow> pt_messages p = [PDict [(''role'', PStr ''user''), (''content'', image_message)]]" by code_simp
  then show "\<exists>p s. demo_prepare False = (Inr p, s) \<and>
      pt_messages p = [PDict [(''role'', PStr ''user''), (''content'', image_message)]]"
    by (cases "demo_prepare False") (auto split: sum.splits)
qed

text \<open>A fan-out whose model answers without text ends without a trace. When a reply carries
  \<open>null\<close> as its content, as replies with tool calls do, the texts cannot be joined: the call
  raises after the aggregation event, and the thread gets neither a reply nor an error.\<close>

theorem fanout_null_reply_is_lost:
  "\<exists>e. fst (demo_post True PNone (PStr ''hi'') demo_sys) = Inl e \<and> exn_type e = ''TypeError'' \<and>
     map te_type (th_events (sy_db (snd (demo_post True PNone (PStr ''hi'') demo_sys)))) =
       [''user_message'', ''routing_decision'', ''agent_request'', ''agent_response'',
        ''agent_request'', ''agent_response'', ''aggregation'']"
proof -
  have "case fst (demo_post True PNone (PStr ''hi'') demo_sys) of Inr r \<Rightarrow> False | Inl e \<Rightarrow> exn_type e = ''TypeError''"
    by code_simp
  moreover have "map te_type (th_events (sy_db (snd (demo_post True PNone (PStr ''hi'') demo_sys)))) =
       [''user_message'', ''routing_decision'', ''agent_request'', ''agent_response'',
        ''agent_request'', ''agent_response'', ''aggregation'']"
    by code_simp
  ultimately show ?thesis by (auto split: sum.splits)
qed

end
