(* ===== verification/Workflows.thy ===== *)
theory Workflows
  imports Thread_Turns
begin

text \<open>
  Workflows of a thread (\<open>core/threads/workflows.py\<close>) and the lifecycle of the models they load
  on the nodes (\<open>core/model_lifecycle.py\<close>).

  The loop that waits for a model polls until it runs or the time is over; it takes fuel here,
  and \<open>wait_returns\<close> shows how much is enough. Times are microseconds.
\<close>

section \<open>Talking to a node\<close>

definition hex_digit :: "nat \<Rightarrow> char" where
  "hex_digit n = (if n < 10 then char_of (48 + n) else char_of (55 + n))"

definition unreserved :: "char \<Rightarrow> bool" where
  "unreserved c = (let n = char_nat c in
     (48 \<le> n \<and> n \<le> 57) \<or> (65 \<le> n \<and> n \<le> 90) \<or> (97 \<le> n \<and> n \<le> 122) \<or> c \<in> set ''_.-~'')"

definition utf8 :: "char \<Rightarrow> nat list" where
  "utf8 c = (let n = char_nat c in if n < 128 then [n] else [192 + n div 64, 128 + n mod 64])"

definition percent :: "nat \<Rightarrow> string" where
  "percent b = [CHR ''%'', hex_digit (b div 16), hex_digit (b mod 16)]"

text \<open>\<open>urllib.parse.quote(s, safe="")\<close>.\<close>

definition url_quote :: "string \<Rightarrow> string" where
  "url_quote s = concat (map (\<lambda>c. if unreserved c then [c] else concat (map percent (utf8 c))) s)"

definition list_node_models :: "'w env \<Rightarrow> string \<Rightarrow> ('w system, pyval list) eff" where
  "list_node_models env node =
     seqE (request_node env node ''GET'' ''/lm-api/v1/models'') (\<lambda>v.
     ret (case v of PList xs \<Rightarrow> xs | _ \<Rightarrow> []))"

definition action_path :: "string \<Rightarrow> string \<Rightarrow> string" where
  "action_path model action = ''/lm-api/v1/models/'' @ url_quote model @ ''/'' @ action"

definition model_action :: "'w env \<Rightarrow> string \<Rightarrow> string \<Rightarrow> string \<Rightarrow> ('w system, pyval) eff" where
  "model_action env node model action = request_node env node ''POST'' (action_path model action)"

definition running_model_names :: "pyval list \<Rightarrow> string list" where
  "running_model_names models = concat (map (\<lambda>m. case m of
       PDict d \<Rightarrow> if truthy (dget d ''name'') \<and> truthy (dget d ''running'')
                  then [py_str (dget d ''name'')] else []
     | _ \<Rightarrow> []) models)"

definition model_ready :: "pydict \<Rightarrow> bool" where
  "model_ready d = (case map_of d ''ready'' of None \<Rightarrow> True | Some v \<Rightarrow> truthy v)"

definition model_is_running :: "pyval list \<Rightarrow> string list \<Rightarrow> bool" where
  "model_is_running models names = list_ex (\<lambda>m. case m of
       PDict d \<Rightarrow> list_ex (\<lambda>n. py_eq (dget d ''name'') (PStr n)) names \<and>
                  truthy (dget d ''running'') \<and> model_ready d
     | _ \<Rightarrow> False) models"

text \<open>\<open>str(x or "")\<close>.\<close>

definition str_or_empty :: "pyval \<Rightarrow> string" where
  "str_or_empty v = (if truthy v then py_str v else [])"

definition expected_running_names :: "string \<Rightarrow> pyval \<Rightarrow> string list" where
  "expected_running_names model response = (case response of
       PDict d \<Rightarrow> (let n = strip (str_or_empty (dget d ''name'')) in
                   if n = [] then [model] else [model, n])
     | _ \<Rightarrow> [model])"

definition bool_text :: "bool \<Rightarrow> string" where
  "bool_text b = (if b then ''True'' else ''False'')"

definition observed_model_summaries :: "pyval list \<Rightarrow> string list" where
  "observed_model_summaries models = concat (map (\<lambda>m. case m of
       PDict d \<Rightarrow> (let n = strip (str_or_empty (dget d ''name'')) in
          if n = [] then []
          else [n @ '':running='' @ bool_text (truthy (dget d ''running'')) @
                (case map_of d ''ready'' of None \<Rightarrow> [] | Some v \<Rightarrow> '':ready='' @ bool_text (truthy v))])
     | _ \<Rightarrow> []) models)"

section \<open>Loading a model alone on its node\<close>

definition attempt_eff :: "('s, 'a) eff \<Rightarrow> ('s, exn + 'a) eff" where
  "attempt_eff m = (\<lambda>s. case m s of (r, s') \<Rightarrow> (Inr r, s'))"

definition loop_time :: "'w env \<Rightarrow> ('w system, int) eff" where
  "loop_time env = (\<lambda>s. case ev_time env (sy_world s) of (t, w) \<Rightarrow> (Inr t, s\<lparr>sy_world := w\<rparr>))"

definition sleep_one :: "'w env \<Rightarrow> ('w system, unit) eff" where
  "sleep_one env = (\<lambda>s. (Inr (), s\<lparr>sy_world := ev_sleep env (sy_world s)\<rparr>))"

record wait_result =
  wr_running :: bool
  wr_models :: "pyval list"
  wr_error :: "string option"

definition exn_line :: "exn \<Rightarrow> string" where
  "exn_line e = exn_type e @ '': '' @ exn_text e"

fun wait_loop ::
  "'w env \<Rightarrow> nat \<Rightarrow> string \<Rightarrow> string list \<Rightarrow> int \<Rightarrow> pyval list \<Rightarrow> ('w system, wait_result) eff" where
  "wait_loop env 0 node names deadline seen = raise_exn (Exn ''OutOfFuel'' [])"
| "wait_loop env (Suc fuel) node names deadline seen =
     seqE (attempt_eff (list_node_models env node)) (\<lambda>r.
     let models = (case r of Inl e \<Rightarrow> seen | Inr ms \<Rightarrow> ms);
         err = (case r of Inl e \<Rightarrow> Some (exn_line e) | Inr ms \<Rightarrow> None) in
     if err = None \<and> model_is_running models names
     then ret \<lparr>wr_running = True, wr_models = models, wr_error = None\<rparr>
     else seqE (loop_time env) (\<lambda>now.
       if deadline \<le> now then ret \<lparr>wr_running = False, wr_models = models, wr_error = err\<rparr>
       else seqE (sleep_one env) (\<lambda>_. wait_loop env fuel node names deadline models)))"

definition wait_for_model_running ::
  "'w env \<Rightarrow> nat \<Rightarrow> int \<Rightarrow> string \<Rightarrow> string list \<Rightarrow> ('w system, wait_result) eff" where
  "wait_for_model_running env fuel timeout node names =
     seqE (loop_time env) (\<lambda>start. wait_loop env fuel node names (start + timeout) [])"

definition snapshot_running_models :: "'w env \<Rightarrow> string \<Rightarrow> ('w system, string list) eff" where
  "snapshot_running_models env node =
     (if node = [] then raise_exn (Exn ''ValueError'' ''node_name is required to snapshot running models'')
      else seqE (list_node_models env node) (\<lambda>ms. ret (running_model_names ms)))"

fun stop_all :: "'w env \<Rightarrow> string \<Rightarrow> string list \<Rightarrow> ('w system, unit) eff" where
  "stop_all env node [] = ret ()"
| "stop_all env node (m # ms) =
     seqE (model_action env node m ''stop'') (\<lambda>_. stop_all env node ms)"

definition load_exclusive ::
  "'w env \<Rightarrow> nat \<Rightarrow> int \<Rightarrow> string \<Rightarrow> string \<Rightarrow> string list \<Rightarrow> ('w system, unit) eff" where
  "load_exclusive env fuel timeout node model before =
     seqE (stop_all env node before) (\<lambda>_.
     seqE (model_action env node model ''start'') (\<lambda>response.
     seqE (wait_for_model_running env fuel timeout node (expected_running_names model response)) (\<lambda>w.
     if wr_running w then ret ()
     else let summaries = join '', '' (observed_model_summaries (wr_models w));
              observed = (if summaries = [] then ''none'' else summaries) in
       raise_exn (Exn ''RuntimeError'' (''model_start_timeout: node='' @ node @ '' model='' @ model @
         '' observed_models=['' @ observed @ '']'' @
         (case wr_error w of None \<Rightarrow> [] | Some e \<Rightarrow> '' last_error='' @ e))))))"

text \<open>Restoring never raises: a request that fails is logged and passed over.\<close>

fun start_all_quietly :: "'w env \<Rightarrow> string \<Rightarrow> string list \<Rightarrow> ('w system, unit) eff" where
  "start_all_quietly env node [] = ret ()"
| "start_all_quietly env node (m # ms) =
     seqE (attempt_eff (model_action env node m ''start'')) (\<lambda>_. start_all_quietly env node ms)"

definition restore_exclusive ::
  "'w env \<Rightarrow> string \<Rightarrow> string \<Rightarrow> string list \<Rightarrow> ('w system, unit) eff" where
  "restore_exclusive env node loaded prior =
     (if node = [] then ret ()
      else seqE (attempt_eff (model_action env node loaded ''stop'')) (\<lambda>_.
           start_all_quietly env node prior))"

section \<open>Running a workflow\<close>

record workflow_step =
  wf_label :: string
  wf_instructions :: string
  wf_model :: "string option"
  wf_target :: string

record lifecycle =
  lc_fuel :: nat
  lc_timeout :: int

type_synonym managed_load = "string \<times> string \<times> string list"

definition not_on :: "string \<Rightarrow> route_decision \<Rightarrow> exn" where
  "not_on what d = Exn ''RuntimeError'' (what @ '': node='' @ rd_node d @ '' model='' @ rd_model d)"

definition ensure_model_loaded ::
  "'w env \<Rightarrow> lifecycle option \<Rightarrow> route_decision \<Rightarrow> bool \<Rightarrow> ('w system, managed_load option) eff" where
  "ensure_model_loaded env lc d manage =
     (if \<not> rd_startup_needed d \<and> \<not> manage then ret None
      else if rd_startup_needed d \<and> rd_startup_decision d \<noteq> Some ''start_now''
      then raise_exn (not_on ''model_start_deferred'' d)
      else (case lc of
        None \<Rightarrow> raise_exn (not_on ''model_lifecycle_unavailable'' d)
      | Some l \<Rightarrow>
          seqE (snapshot_running_models env (rd_node d)) (\<lambda>prior.
          seqE (tryE (load_exclusive env (lc_fuel l) (lc_timeout l) (rd_node d) (rd_model d) prior)
                  (\<lambda>e. seqE (restore_exclusive env (rd_node d) (rd_model d) prior) (\<lambda>_. raise_exn e)))
            (\<lambda>_. ret (Some (rd_node d, rd_model d, prior))))))"

fun restore_each :: "'w env \<Rightarrow> managed_load list \<Rightarrow> ('w system, unit) eff" where
  "restore_each env [] = ret ()"
| "restore_each env ((node, model, prior) # loads) =
     seqE (restore_exclusive env node model prior) (\<lambda>_. restore_each env loads)"

definition restore_managed_loads ::
  "'w env \<Rightarrow> lifecycle option \<Rightarrow> managed_load list \<Rightarrow> ('w system, unit) eff" where
  "restore_managed_loads env lc loads =
     (case lc of None \<Rightarrow> ret () | Some _ \<Rightarrow> restore_each env (rev loads))"

definition step_event ::
  "'w env \<Rightarrow> string \<Rightarrow> string \<Rightarrow> pydict \<Rightarrow> string option \<Rightarrow> string option \<Rightarrow> ('w system, thread_event) eff"
where
  "step_event env tid turn content node model =
     pub_event env tid ''workflow_step'' None content False (Some turn) None node model None None"

definition choose_step ::
  "'w env \<Rightarrow> ('w \<Rightarrow> routing_policy) \<Rightarrow> string \<Rightarrow> string \<Rightarrow> string \<Rightarrow> string option \<Rightarrow> string
     \<Rightarrow> ('w system, route_decision) eff" where
  "choose_step env pol tid turn ty model target =
     tryE (choose_eff pol ty model target None)
       (\<lambda>e. if exn_type e = ''ValueError''
            then seqE (append_error_async env tid ''WORKFLOW_ROUTING_ERROR'' e (Some turn)) (\<lambda>_. raise_exn e)
            else raise_exn e)"

definition step_failed ::
  "'w env \<Rightarrow> string \<Rightarrow> string \<Rightarrow> nat \<Rightarrow> workflow_step \<Rightarrow> exn \<Rightarrow> ('w system, unit) eff" where
  "step_failed env tid turn index step e =
     seqE (step_event env tid turn
             [(''label'', PStr (wf_label step)), (''step_index'', PInt (int index)),
              (''status'', PStr ''failed''), (''error'', PStr (exn_text e))] None None) (\<lambda>_.
     seqE (append_error_async env tid ''WORKFLOW_STEP_ERROR'' e (Some turn)) (\<lambda>_.
     raise_exn (Coded ''WorkflowRunError'' ''WORKFLOW_STEP_ERROR''
       (''Workflow step '' @ str_int (int index + 1) @ '' '' @ quote_char @ wf_label step @ quote_char @
        '' failed: '' @ exn_text e))))"

definition ask_step :: "'w env \<Rightarrow> route_decision \<Rightarrow> workflow_step \<Rightarrow> pyval \<Rightarrow> ('w system, pyval) eff" where
  "ask_step env d step input =
     seqE (chat_with_meta env (rd_model d) (target_payload
             [text_message ''system'' (wf_instructions step),
              PDict [(''role'', PStr ''user''), (''content'', input)]] (rd_node d)))
       (\<lambda>(response, _). lift_sum (reply_content response))"

definition step_result :: "workflow_step \<Rightarrow> route_decision \<Rightarrow> pyval \<Rightarrow> pydict" where
  "step_result step d output =
     [(''label'', PStr (wf_label step)), (''model'', PStr (rd_model d)), (''node'', PStr (rd_node d)),
      (''output'', output)]"

text \<open>
  The steps in order. The list of loads is a variable of the code that the \<open>finally\<close> clause
  reads, so it is returned with the exception as well as with the results.
\<close>

fun run_steps ::
  "'w env \<Rightarrow> ('w \<Rightarrow> routing_policy) \<Rightarrow> lifecycle option \<Rightarrow> string \<Rightarrow> string \<Rightarrow> string \<Rightarrow> thread
     \<Rightarrow> string option \<Rightarrow> string \<Rightarrow> bool \<Rightarrow> nat \<Rightarrow> workflow_step list \<Rightarrow> pyval \<Rightarrow> pydict list
     \<Rightarrow> managed_load list \<Rightarrow> ('w system, (exn + pydict list) \<times> managed_load list) eff" where
  "run_steps env pol lc tid turn ty thread model target manage index [] input results loads =
     ret (Inr results, loads)"
| "run_steps env pol lc tid turn ty thread model target manage index (step # steps) input results loads =
     seqE (attempt_eff (
       seqE (choose_step env pol tid turn ty
               (or_str (wf_model step) (or_str model (th_default_model thread)))
               (if wf_target step \<noteq> ''auto'' then wf_target step else target)) (\<lambda>d.
       seqE (step_event env tid turn
               [(''label'', PStr (wf_label step)), (''step_index'', PInt (int index)),
                (''status'', PStr ''running''), (''model'', PStr (rd_model d)),
                (''node'', PStr (rd_node d))] (Some (rd_node d)) (Some (rd_model d))) (\<lambda>_. ret d)))) (\<lambda>r0.
     case r0 of Inl e \<Rightarrow> ret (Inl e, loads) | Inr d \<Rightarrow>
     seqE (attempt_eff (ensure_model_loaded env lc d manage)) (\<lambda>r1.
     let loads' = loads @ (case r1 of Inr (Some l) \<Rightarrow> [l] | _ \<Rightarrow> []) in
     seqE (attempt_eff (case r1 of Inl e \<Rightarrow> raise_exn e | Inr _ \<Rightarrow> ask_step env d step input)) (\<lambda>r2.
     case r2 of
       Inl e \<Rightarrow> seqE (attempt_eff (step_failed env tid turn index step e)) (\<lambda>r3.
                ret (case r3 of Inl e' \<Rightarrow> Inl e' | Inr _ \<Rightarrow> Inl e, loads'))
     | Inr output \<Rightarrow>
       seqE (attempt_eff (step_event env tid turn
               [(''label'', PStr (wf_label step)), (''step_index'', PInt (int index)),
                (''status'', PStr ''complete''), (''output'', output), (''model'', PStr (rd_model d)),
                (''node'', PStr (rd_node d))] (Some (rd_node d)) (Some (rd_model d)))) (\<lambda>r4.
       case r4 of Inl e \<Rightarrow> ret (Inl e, loads') | Inr _ \<Rightarrow>
       run_steps env pol lc tid turn ty thread model target manage (Suc index) steps output
         (results @ [step_result step d output]) loads'))))"

definition finish_workflow ::
  "'w env \<Rightarrow> string \<Rightarrow> string \<Rightarrow> pydict list \<Rightarrow> ('w system, pydict) eff" where
  "finish_workflow env tid turn results =
     (let final = List.last results;
          route = [(''node'', dget final ''node''), (''model'', dget final ''model''),
                   (''strategy'', PStr ''workflow''), (''reason'', PStr ''workflow_final_step'')] in
      seqE (pub_event env tid ''assistant_message'' (Some ''assistant'')
              [(''text'', dget final ''output''), (''workflow_steps'', PList (map PDict results))] True
              (Some turn) (Some route) (Some (py_str (dget final ''node'')))
              (Some (py_str (dget final ''model''))) None None) (\<lambda>_.
      ret [(''thread_id'', PStr tid),
           (''message'', PDict [(''role'', PStr ''assistant''), (''content'', dget final ''output'')]),
           (''route'', PDict route), (''workflow_steps'', PList (map PDict results))]))"

definition run_workflow ::
  "'w env \<Rightarrow> ('w \<Rightarrow> routing_policy) \<Rightarrow> lifecycle option \<Rightarrow> string \<Rightarrow> string \<Rightarrow> workflow_step list
     \<Rightarrow> string option \<Rightarrow> string \<Rightarrow> bool \<Rightarrow> pydict option \<Rightarrow> ('w system, pydict) eff" where
  "run_workflow env pol lc tid content steps model target manage metadata =
     (if steps = [] then raise_exn (Exn ''ValueError'' ''workflow requires at least one step'')
      else
      seqE (load_thread tid) (\<lambda>thread.
      let md = dmerge (th_metadata thread) (case metadata of None \<Rightarrow> [] | Some m \<Rightarrow> m) in
      seqE new_turn_id (\<lambda>turn.
      seqE (pub_event env tid ''user_message'' (Some ''user'')
              [(''text'', PStr content), (''metadata'', PDict md)] True (Some turn) None None None None None) (\<lambda>_.
      seqE (run_steps env pol lc tid turn (request_type_of md) thread model target manage 0 steps
              (PStr content) [] []) (\<lambda>(r, loads).
      finallyE (case r of Inl e \<Rightarrow> raise_exn e | Inr results \<Rightarrow> finish_workflow env tid turn results)
        (restore_managed_loads env lc loads))))))"

end
