(* ===== verification/Model_Paths.thy ===== *)
theory Model_Paths
  imports Workflows
begin

text \<open>
  How a model is named in a request to a node: its name is percent-encoded into one segment of
  the path, so that no name, whatever its characters, addresses another model or operation.
\<close>

definition hex_value :: "char \<Rightarrow> nat" where
  "hex_value c = (if char_nat c < 58 then char_nat c - 48 else char_nat c - 55)"

text \<open>The reading of a path segment by the node: the bytes first, then the characters.\<close>

fun percent_bytes :: "string \<Rightarrow> nat list" where
  "percent_bytes [] = []"
| "percent_bytes (c # cs) =
     (if c = CHR ''%'' then (case cs of a # b # rest \<Rightarrow> (16 * hex_value a + hex_value b) # percent_bytes rest
                             | _ \<Rightarrow> [])
      else char_nat c # percent_bytes cs)"

fun utf8_chars :: "nat list \<Rightarrow> string" where
  "utf8_chars [] = []"
| "utf8_chars (n # ns) =
     (if n < 128 then char_of n # utf8_chars ns
      else (case ns of k # rest \<Rightarrow> char_of ((n - 192) * 64 + (k - 128)) # utf8_chars rest | [] \<Rightarrow> []))"

lemma char_nat_less: "char_nat c < 256"
  by (simp add: char_nat_def)

lemma hex_round: "n < 16 \<Longrightarrow> hex_value (hex_digit n) = n"
  by (auto simp: hex_value_def hex_digit_def char_nat_def)

lemma percent_bytes_percent:
  "b < 256 \<Longrightarrow> percent_bytes (percent b @ rest) = b # percent_bytes rest"
  by (simp add: percent_def hex_round)

lemma percent_bytes_percents:
  "list_all (\<lambda>b. b < 256) bs \<Longrightarrow> percent_bytes (concat (map percent bs) @ rest) = bs @ percent_bytes rest"
  by (induction bs) (auto simp: percent_bytes_percent)

lemma utf8_bytes: "list_all (\<lambda>b. b < 256) (utf8 c)"
  using char_nat_less [of c] by (auto simp: utf8_def Let_def)

lemma unreserved_plain: "unreserved c \<Longrightarrow> c \<noteq> CHR ''%'' \<and> c \<noteq> CHR ''/'' \<and> utf8 c = [char_nat c]"
  by (auto simp: unreserved_def Let_def utf8_def char_nat_def)

lemma url_quote_Cons:
  "url_quote (c # s) = (if unreserved c then [c] else concat (map percent (utf8 c))) @ url_quote s"
  by (simp add: url_quote_def)

lemma percent_bytes_quote: "percent_bytes (url_quote s) = concat (map utf8 s)"
  by (induction s)
    (auto simp: url_quote_Cons percent_bytes_percents utf8_bytes unreserved_plain, simp add: url_quote_def)

lemma utf8_chars_utf8: "utf8_chars (utf8 c @ bs) = c # utf8_chars bs"
  using char_nat_less [of c] by (auto simp: utf8_def Let_def char_nat_def)

lemma url_quote_round: "utf8_chars (percent_bytes (url_quote s)) = s"
  unfolding percent_bytes_quote by (induction s) (auto simp: utf8_chars_utf8)

lemma quote_inj: "url_quote s = url_quote t \<Longrightarrow> s = t"
  by (metis url_quote_round)

lemma hex_digit_no_slash: "n < 16 \<Longrightarrow> hex_digit n \<noteq> CHR ''/''"
proof
  assume "n < 16" "hex_digit n = CHR ''/''"
  moreover have "char_nat (hex_digit n) = (if n < 10 then 48 + n else 55 + n)"
    using \<open>n < 16\<close> by (auto simp: hex_digit_def char_nat_def)
  ultimately show False by (simp add: char_nat_def split: if_splits)
qed

lemma percent_no_slash: "b < 256 \<Longrightarrow> CHR ''/'' \<notin> set (percent b)"
  using hex_digit_no_slash [of "b div 16"] hex_digit_no_slash [of "b mod 16"]
    less_mult_imp_div_less [of b 16 16]
  by (auto simp: percent_def)

lemma url_quote_no_slash: "CHR ''/'' \<notin> set (url_quote s)"
proof (induction s)
  case (Cons c s)
  then show ?case
    using utf8_bytes [of c] unreserved_plain [of c] percent_no_slash
    by (auto simp: url_quote_Cons list_all_iff)
qed (simp add: url_quote_def)

lemma action_path_segments:
  assumes "CHR ''/'' \<notin> set a"
  shows "split_on CHR ''/'' (action_path m a) = [[], ''lm-api'', ''v1'', ''models'', url_quote m, a]"
  using assms url_quote_no_slash [of m] by (simp add: action_path_def split_on_segment split_on_plain)

lemma action_path_iff:
  assumes "CHR ''/'' \<notin> set a" "CHR ''/'' \<notin> set b"
  shows "action_path m a = action_path k b \<longleftrightarrow> m = k \<and> a = b"
proof
  assume "action_path m a = action_path k b"
  then have "[[], ''lm-api'', ''v1'', ''models'', url_quote m, a] =
      [[], ''lm-api'', ''v1'', ''models'', url_quote k, b]"
    using action_path_segments [OF assms(1), of m] action_path_segments [OF assms(2), of k] by metis
  then show "m = k \<and> a = b" using quote_inj [of m k] by blast
qed simp

text \<open>The path of a request names the model and the operation, and nothing else: split at its
  slashes it is always the six segments of the models route, the fifth of which reads back as
  the name of the model. Two requests with the same path are about the same model and the same
  operation, whatever slashes, percent signs or other characters their names hold.\<close>

theorem action_path_exact:
  assumes "CHR ''/'' \<notin> set action" "CHR ''/'' \<notin> set action'"
  shows "split_on CHR ''/'' (action_path model action) =
      [[], ''lm-api'', ''v1'', ''models'', url_quote model, action] \<and>
    utf8_chars (percent_bytes (url_quote model)) = model \<and>
    (action_path model' action' = action_path model action \<longleftrightarrow> model' = model \<and> action' = action)"
  using action_path_segments [OF assms(1), of model] url_quote_round [of model]
    action_path_iff [OF assms(2,1), of model' model] by blast

lemma action_path_exact_witness:
  "split_on CHR ''/'' (action_path ''a/b stop'' ''start'') =
     [[], ''lm-api'', ''v1'', ''models'', ''a%2Fb%20stop'', ''start'']"
proof -
  have "url_quote ''a/b stop'' = ''a%2Fb%20stop''" by code_simp
  then show ?thesis using action_path_exact [of "''start''" "''start''" "''a/b stop''" "[]"] by simp
qed

end
