(* ===== verification/Workflow_Restore.thy ===== *)
theory Workflow_Restore
  imports Model_Paths
begin

text \<open>
  What a workflow leaves behind on the nodes. The models that run on a node are part of the
  world, which the model of the code only reaches through requests; \<open>R w n\<close> stands for the
  set of them. \<open>frame\<close> is a small calculus of the effects that leave \<open>R\<close> as it is.
\<close>

named_theorems frame_rules \<open>effects that leave a projection of the world as it is\<close>

definition frame :: "('w \<Rightarrow> 'r) \<Rightarrow> ('w system, 'a) eff \<Rightarrow> bool" where
  "frame R m \<longleftrightarrow> (\<forall>s. R (sy_world (snd (m s))) = R (sy_world s))"

lemma frameD: "frame R m \<Longrightarrow> m s = (r, s') \<Longrightarrow> R (sy_world s') = R (sy_world s)"
  unfolding frame_def by (metis snd_conv)

lemma frame_ret [frame_rules]: "frame R (ret x)"
  by (simp add: frame_def ret_def)

lemma frame_raise [frame_rules]: "frame R (raise_exn e)"
  by (simp add: frame_def raise_exn_def)

lemma frame_lift [frame_rules]: "frame R (lift_sum r)"
  by (simp add: frame_def lift_sum_def)

lemma frame_load [frame_rules]: "frame R (load_thread tid)"
  by (simp add: frame_def load_thread_def)

lemma frame_turn [frame_rules]: "frame R new_turn_id"
  by (simp add: frame_def new_turn_id_def)

lemma frame_choose [frame_rules]: "frame R (choose_eff pol ty model target prev)"
  by (simp add: frame_def choose_eff_def)

lemma frame_seq [frame_rules]: "frame R m \<Longrightarrow> (\<And>x. frame R (f x)) \<Longrightarrow> frame R (seqE m f)"
  unfolding frame_def seqE_def by (auto split: prod.splits sum.splits) (metis snd_conv)+

lemma frame_try [frame_rules]: "frame R m \<Longrightarrow> (\<And>e. frame R (h e)) \<Longrightarrow> frame R (tryE m h)"
  unfolding frame_def tryE_def by (auto split: prod.splits sum.splits) (metis snd_conv)+

lemma frame_attempt [frame_rules]: "frame R m \<Longrightarrow> frame R (attempt_eff m)"
  unfolding frame_def attempt_eff_def by (auto split: prod.splits) (metis snd_conv)

lemma frame_if [frame_rules]: "frame R m \<Longrightarrow> frame R m' \<Longrightarrow> frame R (if b then m else m')"
  by simp

lemma frame_Let [frame_rules]: "(\<And>y. frame R (m y)) \<Longrightarrow> frame R (let y = x in m y)"
  by simp

lemma frame_sum [frame_rules]:
  "(\<And>a. frame R (f a)) \<Longrightarrow> (\<And>b. frame R (g b)) \<Longrightarrow> frame R (case r of Inl a \<Rightarrow> f a | Inr b \<Rightarrow> g b)"
  by (cases r) auto

lemma frame_pair [frame_rules]: "(\<And>a b. frame R (f a b)) \<Longrightarrow> frame R (case p of (a, b) \<Rightarrow> f a b)"
  by (cases p) auto

section \<open>Nodes that do what they are told\<close>

text \<open>
  What the code relies on of the nodes and of the rest of the world: a list of models names
  those that run; a stop leaves the model stopped and a start of one of the node's own models
  leaves it running, whatever they answer; a start of another model changes nothing; and
  nothing else starts or stops a model. The answers, the readiness of the models and how long
  they take are arbitrary.
\<close>

definition faithful_nodes ::
  "'w env \<Rightarrow> ('w \<Rightarrow> string \<Rightarrow> string set) \<Rightarrow> (string \<Rightarrow> string set) \<Rightarrow> bool" where
  "faithful_nodes env R own \<longleftrightarrow>
     (\<forall>w n v. fst (ev_node env n ''GET'' ''/lm-api/v1/models'' w) = Inr v
        \<longrightarrow> set (running_model_names (case v of PList xs \<Rightarrow> xs | _ \<Rightarrow> [])) = R w n) \<and>
     (\<forall>w n. R (snd (ev_node env n ''GET'' ''/lm-api/v1/models'' w)) = R w) \<and>
     (\<forall>w n m. R (snd (ev_node env n ''POST'' (action_path m ''stop'') w)) =
        (R w)(n := R w n - {m})) \<and>
     (\<forall>w n m. R (snd (ev_node env n ''POST'' (action_path m ''start'') w)) =
        (R w)(n := if m \<in> own n then insert m (R w n) else R w n)) \<and>
     (\<forall>w m p. R (snd (ev_chat env m p w)) = R w) \<and>
     (\<forall>w. R (snd (ev_clock env w)) = R w) \<and>
     (\<forall>w. R (snd (ev_time env w)) = R w) \<and>
     (\<forall>w. R (ev_sleep env w) = R w) \<and>
     (\<forall>t p c w. R (ev_emit env t p c w) = R w)"

lemma faithfulD:
  assumes "faithful_nodes env R own"
  shows "fst (ev_node env n ''GET'' ''/lm-api/v1/models'' w) = Inr v \<Longrightarrow>
      set (running_model_names (case v of PList xs \<Rightarrow> xs | _ \<Rightarrow> [])) = R w n"
    and "R (snd (ev_node env n ''GET'' ''/lm-api/v1/models'' w)) = R w"
    and "R (snd (ev_node env n ''POST'' (action_path m ''stop'') w)) = (R w)(n := R w n - {m})"
    and "R (snd (ev_node env n ''POST'' (action_path m ''start'') w)) =
        (R w)(n := if m \<in> own n then insert m (R w n) else R w n)"
    and "R (snd (ev_chat env m p w)) = R w" "R (snd (ev_clock env w)) = R w"
    and "R (snd (ev_time env w)) = R w" "R (ev_sleep env w) = R w" "R (ev_emit env t p c w) = R w"
  using assms [unfolded faithful_nodes_def] by - ((blast | simp | metis)+)

lemma frame_clock [frame_rules]: "faithful_nodes env R own \<Longrightarrow> frame R (clock env)"
  unfolding frame_def clock_def by (auto split: prod.splits) (metis faithfulD(6) snd_conv)

lemma frame_chat [frame_rules]: "faithful_nodes env R own \<Longrightarrow> frame R (chat_with_meta env m p)"
  unfolding frame_def chat_with_meta_def by (auto split: prod.splits) (metis faithfulD(5) snd_conv)

lemma frame_time [frame_rules]: "faithful_nodes env R own \<Longrightarrow> frame R (loop_time env)"
  unfolding frame_def loop_time_def by (auto split: prod.splits) (metis faithfulD(7) snd_conv)

lemma frame_sleep [frame_rules]: "faithful_nodes env R own \<Longrightarrow> frame R (sleep_one env)"
  by (auto simp: frame_def sleep_one_def faithfulD(8))

lemma frame_publish [frame_rules]: "faithful_nodes env R own \<Longrightarrow> frame R (publish env e)"
  by (auto simp: frame_def publish_def faithfulD(9))

lemma frame_list [frame_rules]: "faithful_nodes env R own \<Longrightarrow> frame R (list_node_models env node)"
  unfolding list_node_models_def
  by (rule frame_seq) (auto simp: frame_def request_node_def faithfulD(2) ret_def split: prod.splits,
      metis faithfulD(2) snd_conv)

lemma frame_append [frame_rules]:
  assumes "faithful_nodes env R own"
  shows "frame R (store_append env tid ty role content public turn route node model code detail)"
  unfolding store_append_def
proof (intro frame_seq frame_load frame_clock [OF assms])
  fix now
  show "frame R (\<lambda>s. case append_event now tid ty role content public turn route node model code detail
        (sy_db s) of (r, db) \<Rightarrow> (r, s\<lparr>sy_db := db\<rparr>))"
    by (auto simp: frame_def split: prod.splits)
qed

lemma frame_pub [frame_rules]:
  "faithful_nodes env R own \<Longrightarrow>
     frame R (pub_event env tid ty role content public turn route node model code detail)"
  unfolding pub_event_def by (intro frame_rules)

lemma frame_error [frame_rules]:
  "faithful_nodes env R own \<Longrightarrow> frame R (append_error_async env tid code e turn)"
  unfolding append_error_async_def by (intro frame_rules)

lemmas frame_steps = frame_rules

lemma frame_wait_loop:
  "faithful_nodes env R own \<Longrightarrow> frame R (wait_loop env fuel node names deadline seen)"
proof (induction fuel arbitrary: seen)
  case 0
  show ?case by (simp add: frame_raise)
next
  case (Suc fuel)
  show ?case
    unfolding wait_loop.simps using Suc.prems by (intro frame_rules Suc.IH) assumption+
qed

lemma frame_wait [frame_rules]:
  "faithful_nodes env R own \<Longrightarrow> frame R (wait_for_model_running env fuel timeout node names)"
  unfolding wait_for_model_running_def by (intro frame_rules frame_wait_loop)

section \<open>Loading and putting back\<close>

text \<open>\<open>near own n m Q R'\<close>: the nodes are as in \<open>Q\<close>, except that on \<open>n\<close> some models may be stopped
  and \<open>m\<close> may be running.\<close>

definition near ::
  "(string \<Rightarrow> string set) \<Rightarrow> string \<Rightarrow> string \<Rightarrow> (string \<Rightarrow> string set) \<Rightarrow> (string \<Rightarrow> string set) \<Rightarrow> bool"
where
  "near own n m Q R' \<longleftrightarrow> (\<forall>k. R' k \<subseteq> own k) \<and> R' n \<subseteq> insert m (Q n) \<and> (\<forall>k. k \<noteq> n \<longrightarrow> R' k = Q k)"

definition keeps :: "('w \<Rightarrow> bool) \<Rightarrow> ('w system, 'a) eff \<Rightarrow> bool" where
  "keeps P m \<longleftrightarrow> (\<forall>s. P (sy_world s) \<longrightarrow> P (sy_world (snd (m s))))"

lemma keepsD: "keeps P m \<Longrightarrow> P (sy_world s) \<Longrightarrow> m s = (r, s') \<Longrightarrow> P (sy_world s')"
  unfolding keeps_def by (metis snd_conv)

lemma near_refl: "(\<And>k. Q k \<subseteq> own k) \<Longrightarrow> near own n m Q Q"
  by (auto simp: near_def)

lemma keeps_frame: "frame R m \<Longrightarrow> keeps (\<lambda>w. Q (R w)) m"
  by (simp add: keeps_def frame_def)

lemma keeps_seq: "keeps P m \<Longrightarrow> (\<And>x. keeps P (f x)) \<Longrightarrow> keeps P (seqE m f)"
  unfolding keeps_def seqE_def by (force split: prod.splits sum.splits)

lemma keeps_try: "keeps P m \<Longrightarrow> (\<And>e. keeps P (h e)) \<Longrightarrow> keeps P (tryE m h)"
  unfolding keeps_def tryE_def by (force split: prod.splits sum.splits)

lemma model_action_world:
  assumes "faithful_nodes env R own"
  shows "R (sy_world (snd (model_action env n m ''stop'' s))) =
      (R (sy_world s))(n := R (sy_world s) n - {m})"
    and "R (sy_world (snd (model_action env n m ''start'' s))) =
      (R (sy_world s))(n := if m \<in> own n then insert m (R (sy_world s) n) else R (sy_world s) n)"
proof -
  have w: "sy_world (snd (model_action env n m a s)) =
      snd (ev_node env n ''POST'' (action_path m a) (sy_world s))" for a
    by (simp add: model_action_def request_node_def split: prod.splits)
  show "R (sy_world (snd (model_action env n m ''stop'' s))) =
      (R (sy_world s))(n := R (sy_world s) n - {m})"
    unfolding w by (rule faithfulD(3) [OF assms])
  show "R (sy_world (snd (model_action env n m ''start'' s))) =
      (R (sy_world s))(n := if m \<in> own n then insert m (R (sy_world s) n) else R (sy_world s) n)"
    unfolding w by (rule faithfulD(4) [OF assms])
qed

lemma keeps_stop:
  "faithful_nodes env R own \<Longrightarrow> keeps (\<lambda>w. near own n m Q (R w)) (model_action env n k ''stop'')"
  unfolding keeps_def by (auto simp: model_action_world near_def) blast

lemma keeps_start:
  "faithful_nodes env R own \<Longrightarrow> keeps (\<lambda>w. near own n m Q (R w)) (model_action env n m ''start'')"
  unfolding keeps_def by (auto simp: model_action_world near_def) blast

lemma keeps_stop_all:
  "faithful_nodes env R own \<Longrightarrow> keeps (\<lambda>w. near own n m Q (R w)) (stop_all env n ms)"
  by (induction ms)
    (auto intro: keeps_seq keeps_stop keeps_frame [where R = R and Q = "near own n m Q"] frame_ret)

lemma load_keeps_near:
  assumes "faithful_nodes env R own"
  shows "keeps (\<lambda>w. near own n m Q (R w)) (load_exclusive env fuel timeout n m before)"
  unfolding load_exclusive_def
  by (intro keeps_seq keeps_stop_all [OF assms] keeps_start [OF assms]
      keeps_frame [where R = R and Q = "near own n m Q"] frame_wait [OF assms] frame_if frame_ret
      frame_Let frame_raise)

lemma start_all_world:
  assumes "faithful_nodes env R own"
  shows "fst (start_all_quietly env n ms s) = Inr () \<and>
    R (sy_world (snd (start_all_quietly env n ms s))) =
      (R (sy_world s))(n := R (sy_world s) n \<union> (set ms \<inter> own n))"
proof (induction ms arbitrary: s)
  case Nil
  show ?case by (simp add: ret_def)
next
  case (Cons m ms)
  obtain r s1 where a: "model_action env n m ''start'' s = (r, s1)"
    by (cases "model_action env n m ''start'' s")
  have "R (sy_world s1) = (R (sy_world s))(n := if m \<in> own n then insert m (R (sy_world s) n)
      else R (sy_world s) n)"
    using model_action_world(2) [OF assms, of n m s] by (simp add: a)
  then show ?case
    using Cons.IH [of s1] by (auto simp: seqE_def attempt_eff_def a fun_eq_iff)
qed

lemma restore_world:
  assumes "faithful_nodes env R own" "n \<noteq> []"
  shows "fst (restore_exclusive env n m prior s) = Inr () \<and>
    R (sy_world (snd (restore_exclusive env n m prior s))) =
      (R (sy_world s))(n := R (sy_world s) n - {m} \<union> (set prior \<inter> own n))"
proof -
  obtain r s1 where a: "model_action env n m ''stop'' s = (r, s1)"
    by (cases "model_action env n m ''stop'' s")
  have "R (sy_world s1) = (R (sy_world s))(n := R (sy_world s) n - {m})"
    using model_action_world(1) [OF assms(1), of n m s] by (simp add: a)
  then show ?thesis
    using start_all_world [OF assms(1), of n prior s1] assms(2)
    by (auto simp: restore_exclusive_def seqE_def attempt_eff_def a)
qed

lemma restore_near:
  assumes "faithful_nodes env R own" "n \<noteq> []" "near own n m Q (R (sy_world s))"
    and "set prior = Q n" "Q n \<subseteq> own n"
  shows "R (sy_world (snd (restore_exclusive env n m prior s))) = Q"
proof
  fix k
  show "R (sy_world (snd (restore_exclusive env n m prior s))) k = Q k"
    using restore_world [OF assms(1,2), of m prior s] assms(3-5)
    by (cases "k = n") (auto simp: near_def)
qed

section \<open>Workflows\<close>

lemma frame_choose_step [frame_rules]:
  "faithful_nodes env R own \<Longrightarrow> frame R (choose_step env pol tid turn ty model target)"
  unfolding choose_step_def by (intro frame_rules)

lemma frame_step_event [frame_rules]:
  "faithful_nodes env R own \<Longrightarrow> frame R (step_event env tid turn content node model)"
  unfolding step_event_def by (rule frame_pub)

lemma frame_step_failed [frame_rules]:
  "faithful_nodes env R own \<Longrightarrow> frame R (step_failed env tid turn index step e)"
  unfolding step_failed_def by (intro frame_rules)

lemma frame_ask_step [frame_rules]:
  "faithful_nodes env R own \<Longrightarrow> frame R (ask_step env d step input)"
  unfolding ask_step_def by (intro frame_rules)

lemma frame_finish [frame_rules]:
  "faithful_nodes env R own \<Longrightarrow> frame R (finish_workflow env tid turn results)"
  unfolding finish_workflow_def by (intro frame_rules)

text \<open>The loads still to be undone, the last one first, lead back from the nodes as they are to
  the nodes as they were.\<close>

fun undoes :: "(string \<Rightarrow> string set) \<Rightarrow> (string \<Rightarrow> string set) \<Rightarrow> managed_load list
    \<Rightarrow> (string \<Rightarrow> string set) \<Rightarrow> bool" where
  "undoes own Q [] R' \<longleftrightarrow> R' = Q \<and> (\<forall>k. Q k \<subseteq> own k)"
| "undoes own Q ((n, m, prior) # ls) R' \<longleftrightarrow>
     n \<noteq> [] \<and> (\<exists>Q1. set prior = Q1 n \<and> near own n m Q1 R' \<and> undoes own Q ls Q1)"

lemma undoes_own: "undoes own Q ls R' \<Longrightarrow> R' k \<subseteq> own k"
  by (cases ls) (auto simp: near_def, blast)

lemma frame_snapshot [frame_rules]:
  "faithful_nodes env R own \<Longrightarrow> frame R (snapshot_running_models env n)"
  unfolding snapshot_running_models_def by (intro frame_rules)

lemma restore_each_undoes:
  assumes "faithful_nodes env R own"
  shows "undoes own Q ls (R (sy_world s)) \<Longrightarrow> R (sy_world (snd (restore_each env ls s))) = Q"
proof (induction ls arbitrary: s)
  case Nil
  then show ?case by (simp add: ret_def)
next
  case (Cons l ls)
  obtain n m prior where l: "l = (n, m, prior)" by (cases l)
  from Cons.prems obtain Q1 where n: "n \<noteq> []" and Q1: "set prior = Q1 n"
      "near own n m Q1 (R (sy_world s))" "undoes own Q ls Q1"
    by (auto simp: l)
  obtain s1 where r: "restore_exclusive env n m prior s = (Inr (), s1)"
    using restore_world [OF assms n, of m prior s] by (cases "restore_exclusive env n m prior s") auto
  have "R (sy_world s1) = Q1"
    using restore_near [OF assms n Q1(2,1) undoes_own [OF Q1(3)]] by (simp add: r)
  then show ?case using Cons.IH [of s1] Q1(3) by (simp add: l seqE_def r)
qed

lemma snapshot_result:
  assumes "faithful_nodes env R own" "snapshot_running_models env n s = (Inr prior, s')"
  shows "n \<noteq> [] \<and> set prior = R (sy_world s) n \<and> R (sy_world s') = R (sy_world s)"
proof -
  have n: "n \<noteq> []" using assms(2) by (auto simp: snapshot_running_models_def raise_exn_def)
  obtain r w where e: "ev_node env n ''GET'' ''/lm-api/v1/models'' (sy_world s) = (r, w)"
    by (cases "ev_node env n ''GET'' ''/lm-api/v1/models'' (sy_world s)")
  show ?thesis
    using assms(2) n faithfulD(1,2) [OF assms(1), of n "sy_world s"]
    by (auto simp: snapshot_running_models_def list_node_models_def request_node_def seqE_def ret_def e
        split: sum.splits)
qed

lemma ensure_effect:
  assumes f: "faithful_nodes env R own" and o: "\<And>k. R (sy_world s) k \<subseteq> own k"
    and e: "ensure_model_loaded env lc d manage s = (r, s')"
  shows "case r of
      Inr (Some (n, m, prior)) \<Rightarrow> lc \<noteq> None \<and> n \<noteq> [] \<and> set prior = R (sy_world s) n \<and>
        near own n m (R (sy_world s)) (R (sy_world s'))
    | _ \<Rightarrow> R (sy_world s') = R (sy_world s)"
proof (cases "\<not> rd_startup_needed d \<and> \<not> manage \<or>
    rd_startup_needed d \<and> rd_startup_decision d \<noteq> Some ''start_now'' \<or> lc = None")
  case True
  then show ?thesis
    using e by (auto simp: ensure_model_loaded_def ret_def raise_exn_def split: if_splits)
next
  case False
  then obtain l where lc: "lc = Some l" by auto
  obtain r1 s1 where s1: "snapshot_running_models env (rd_node d) s = (r1, s1)"
    by (cases "snapshot_running_models env (rd_node d) s")
  have s1_frame: "R (sy_world s1) = R (sy_world s)"
    using frameD [OF frame_snapshot [OF f], of "rd_node d" s r1 s1] s1 by simp
  show ?thesis
  proof (cases r1)
    case (Inl x)
    then show ?thesis using e False s1 s1_frame
      by (auto simp: ensure_model_loaded_def lc seqE_def split: if_splits)
  next
    case (Inr prior)
    note sn = snapshot_result [OF f s1 [unfolded Inr]]
    obtain r2 s2 where s2: "load_exclusive env (lc_fuel l) (lc_timeout l) (rd_node d) (rd_model d) prior s1
        = (r2, s2)"
      by (cases "load_exclusive env (lc_fuel l) (lc_timeout l) (rd_node d) (rd_model d) prior s1")
    have nr: "near own (rd_node d) (rd_model d) (R (sy_world s)) (R (sy_world s2))"
      by (rule keepsD [OF load_keeps_near [OF f] _ s2]) (simp add: s1_frame near_refl o)
    show ?thesis
    proof (cases r2)
      case (Inl x)
      obtain s3 where s3: "restore_exclusive env (rd_node d) (rd_model d) prior s2 = (Inr (), s3)"
        using restore_world [OF f, of "rd_node d" "rd_model d" prior s2] sn
        by (cases "restore_exclusive env (rd_node d) (rd_model d) prior s2") auto
      have "R (sy_world s3) = R (sy_world s)"
        using restore_near [OF f _ nr, of prior] sn o by (auto simp: s3)
      then show ?thesis
        using e False Inl Inr s1 s2 s3
        by (auto simp: ensure_model_loaded_def lc seqE_def tryE_def raise_exn_def split: if_splits)
    next
      case (Inr y)
      then show ?thesis
        using e False \<open>r1 = Inr prior\<close> s1 s2 sn nr
        by (auto simp: ensure_model_loaded_def lc seqE_def tryE_def ret_def split: if_splits)
    qed
  qed
qed

lemma seqE_attempt:
  "seqE (attempt_eff m) f s = (case m s of (r, s') \<Rightarrow> f r s')"
  by (auto simp: seqE_def attempt_eff_def split: prod.splits)

lemma frame_run: "frame R m \<Longrightarrow> \<exists>r s'. m s = (r, s') \<and> R (sy_world s') = R (sy_world s)"
  by (cases "m s") (metis frameD)

lemma run_steps_undoes:
  assumes f: "faithful_nodes env R own"
  shows "undoes own Q (rev loads) (R (sy_world s)) \<Longrightarrow> (loads \<noteq> [] \<Longrightarrow> lc \<noteq> None) \<Longrightarrow>
    \<exists>r loads' s'. run_steps env pol lc tid turn ty thread model target manage index steps input results
        loads s = (Inr (r, loads'), s') \<and>
      undoes own Q (rev loads') (R (sy_world s')) \<and> (loads' \<noteq> [] \<longrightarrow> lc \<noteq> None)"
proof (induction steps arbitrary: index input results loads s)
  case Nil
  then show ?case by (auto simp: ret_def)
next
  case (Cons step steps)
  let ?pick = "seqE (choose_step env pol tid turn ty
        (or_str (wf_model step) (or_str model (th_default_model thread)))
        (if wf_target step \<noteq> ''auto'' then wf_target step else target)) (\<lambda>d.
      seqE (step_event env tid turn
        [(''label'', PStr (wf_label step)), (''step_index'', PInt (int index)),
         (''status'', PStr ''running''), (''model'', PStr (rd_model d)),
         (''node'', PStr (rd_node d))] (Some (rd_node d)) (Some (rd_model d))) (\<lambda>_. ret d))"
  have "frame R ?pick" by (intro frame_rules) (rule f)+
  then obtain r0 s0 where s0: "?pick s = (r0, s0)" "R (sy_world s0) = R (sy_world s)"
    using frame_run by blast
  show ?case
  proof (cases r0)
    case (Inl e)
    then show ?thesis using Cons.prems s0 by (auto simp: seqE_attempt ret_def)
  next
    case (Inr d)
    obtain r1 s1 where s1: "ensure_model_loaded env lc d manage s0 = (r1, s1)"
      by (cases "ensure_model_loaded env lc d manage s0")
    define loads' where "loads' = loads @ (case r1 of Inr (Some l) \<Rightarrow> [l] | _ \<Rightarrow> [])"
    have o: "\<And>k. R (sy_world s0) k \<subseteq> own k"
      using undoes_own [OF Cons.prems(1)] s0(2) by simp
    have u: "undoes own Q (rev loads') (R (sy_world s1)) \<and> (loads' \<noteq> [] \<longrightarrow> lc \<noteq> None)"
      using ensure_effect [OF f o s1] Cons.prems s0(2)
      by (auto simp: loads'_def split: sum.splits option.splits)
    let ?ask = "case r1 of Inl e \<Rightarrow> raise_exn e | Inr _ \<Rightarrow> ask_step env d step input"
    have "frame R ?ask" by (intro frame_rules) (rule f)+
    then obtain r2 s2 where s2: "?ask s1 = (r2, s2)" "R (sy_world s2) = R (sy_world s1)"
      using frame_run by blast
    show ?thesis
    proof (cases r2)
      case (Inl e)
      obtain r3 s3 where "step_failed env tid turn index step e s2 = (r3, s3)"
          "R (sy_world s3) = R (sy_world s2)"
        using frame_run [OF frame_step_failed [OF f]] by blast
      then show ?thesis using s0 s1 s2 \<open>r0 = Inr d\<close> Inl u
        by (simp add: seqE_attempt Let_def loads'_def [symmetric] ret_def)
    next
      case (Inr out)
      let ?done = "step_event env tid turn
        [(''label'', PStr (wf_label step)), (''step_index'', PInt (int index)),
         (''status'', PStr ''complete''), (''output'', out), (''model'', PStr (rd_model d)),
         (''node'', PStr (rd_node d))] (Some (rd_node d)) (Some (rd_model d))"
      obtain r4 s4 where s4: "?done s2 = (r4, s4)" "R (sy_world s4) = R (sy_world s2)"
        using frame_run [OF frame_step_event [OF f]] by blast
      show ?thesis
        using s0 s1 s2 s4 \<open>r0 = Inr d\<close> Inr u Cons.IH [of loads' s4]
        by (cases r4) (simp_all add: seqE_attempt Let_def loads'_def [symmetric] ret_def)
    qed
  qed
qed

lemma restore_managed_undoes:
  assumes "faithful_nodes env R own" "undoes own Q (rev loads) (R (sy_world s))"
    and "loads \<noteq> [] \<longrightarrow> lc \<noteq> None"
  shows "R (sy_world (snd (restore_managed_loads env lc loads s))) = Q"
proof (cases lc)
  case None
  then show ?thesis using assms by (auto simp: restore_managed_loads_def ret_def)
next
  case (Some l)
  then show ?thesis using restore_each_undoes [OF assms(1,2)] by (simp add: restore_managed_loads_def)
qed

text \<open>C18. A workflow leaves the nodes as it found them. With nodes that obey stop and start, every
  run of a workflow, whatever its steps, the answers of the models and the time they take, and
  whether it returns or raises, ends with the same models running on every node as before it
  began. Every load is undone in reverse order, also the one of a step that failed half way.\<close>

theorem workflow_restores_models:
  assumes "faithful_nodes env R own" "\<And>n. R (sy_world s) n \<subseteq> own n"
  shows "R (sy_world (snd (run_workflow env pol lc tid content steps model target manage metadata s))) =
    R (sy_world s)"
proof (cases "steps = [] \<or> find_thread (sy_db s) tid = None")
  case True
  then show ?thesis
    by (auto simp: run_workflow_def raise_exn_def seqE_def load_thread_def get_thread_def)
next
  case False
  then obtain thread where t: "load_thread tid s = (Inr thread, s)"
    by (auto simp: load_thread_def get_thread_def)
  obtain turn s1 where s1: "new_turn_id s = (Inr turn, s1)" "R (sy_world s1) = R (sy_world s)"
    by (auto simp: new_turn_id_def)
  define md where "md = dmerge (th_metadata thread) (case metadata of None \<Rightarrow> [] | Some m \<Rightarrow> m)"
  obtain r2 s2 where s2: "pub_event env tid ''user_message'' (Some ''user'')
      [(''text'', PStr content), (''metadata'', PDict md)] True (Some turn) None None None None None s1
      = (r2, s2)" "R (sy_world s2) = R (sy_world s1)"
    using frame_run [OF frame_pub [OF assms(1)]] by blast
  show ?thesis
  proof (cases r2)
    case (Inl e)
    then show ?thesis using False t s1 s2
      by (simp add: run_workflow_def seqE_def Let_def md_def [symmetric])
  next
    case (Inr ev)
    have u0: "undoes own (R (sy_world s)) (rev []) (R (sy_world s2))"
      using assms(2) by (simp add: s1(2) s2(2))
    obtain r loads s3 where s3: "run_steps env pol lc tid turn (request_type_of md) thread model target
        manage 0 steps (PStr content) [] [] s2 = (Inr (r, loads), s3)"
      and u: "undoes own (R (sy_world s)) (rev loads) (R (sy_world s3))" "loads \<noteq> [] \<longrightarrow> lc \<noteq> None"
      using run_steps_undoes [OF assms(1) u0, of lc] by blast
    let ?fin = "case r of Inl e \<Rightarrow> raise_exn e | Inr results \<Rightarrow> finish_workflow env tid turn results"
    have "frame R ?fin" by (intro frame_rules) (rule assms(1))+
    then obtain r4 s4 where s4: "?fin s3 = (r4, s4)" "R (sy_world s4) = R (sy_world s3)"
      using frame_run by blast
    obtain r5 s5 where s5: "restore_managed_loads env lc loads s4 = (r5, s5)"
      by (cases "restore_managed_loads env lc loads s4")
    have "R (sy_world s5) = R (sy_world s)"
      using restore_managed_undoes [OF assms(1), of "R (sy_world s)" loads s4 lc] u s4(2) s5 by simp
    then show ?thesis using False t s1 s2 Inr s3 s4 s5
      by (simp add: run_workflow_def seqE_def Let_def md_def [symmetric] finallyE_def
          split: prod.splits sum.splits)
  qed
qed

section \<open>A fleet for the witnesses\<close>

definition fleet_entry :: "string \<Rightarrow> pyval" where
  "fleet_entry m = PDict [(''name'', PStr m), (''running'', PBool True)]"

definition fleet_node ::
  "string \<Rightarrow> string \<Rightarrow> string \<Rightarrow> (string \<Rightarrow> string list) \<Rightarrow> (exn + pyval) \<times> (string \<Rightarrow> string list)" where
  "fleet_node n method path w =
     (if method = ''GET'' then (Inr (PList (map fleet_entry (w n))), w)
      else (Inr PNone, w(n := filter (\<lambda>m. path = action_path m ''start'') [''a'', ''b''] @
                              filter (\<lambda>m. path \<noteq> action_path m ''stop'') (w n))))"

definition fleet_env :: "(string \<Rightarrow> string list) env" where
  "fleet_env = \<lparr>ev_clock = (\<lambda>w. (0, w)), ev_has_bus = False, ev_emit = (\<lambda>_ _ _ w. w),
     ev_chat = (\<lambda>_ _ w. (Inl (Exn ''E'' []), w)), ev_node = fleet_node,
     ev_time = (\<lambda>w. (0, w)), ev_sleep = (\<lambda>w. w)\<rparr>"

definition fleet_running :: "(string \<Rightarrow> string list) \<Rightarrow> string \<Rightarrow> string set" where
  "fleet_running w n = set (w n) - {[]}"

definition fleet_own :: "string \<Rightarrow> string set" where
  "fleet_own n = {''a'', ''b''}"

lemma fleet_paths:
  "action_path m ''start'' = action_path k ''start'' \<longleftrightarrow> m = k"
  "action_path m ''stop'' = action_path k ''stop'' \<longleftrightarrow> m = k"
  "action_path m ''start'' \<noteq> action_path k ''stop''"
  "action_path k ''stop'' \<noteq> action_path m ''start''"
  by (auto simp: action_path_iff)

lemma fleet_names: "set (running_model_names (map fleet_entry ms)) = set ms - {[]}"
  by (induction ms) (auto simp: running_model_names_def fleet_entry_def dget_def)

lemma fleet_faithful: "faithful_nodes fleet_env fleet_running fleet_own"
  unfolding faithful_nodes_def fleet_env_def
  by (auto simp: fleet_node_def fleet_running_def fleet_own_def fleet_names fleet_paths fun_eq_iff)

lemma workflow_restores_models_witness:
  "fleet_running (sy_world (snd (run_workflow fleet_env (\<lambda>_. demo_policy False)
      (Some \<lparr>lc_fuel = 2, lc_timeout = 0\<rparr>) ''0'' ''go''
      [\<lparr>wf_label = ''l'', wf_instructions = ''i'', wf_model = Some ''b'', wf_target = ''node:c''\<rparr>]
      None ''auto'' True None \<lparr>sy_db = demo_thread, sy_world = \<lambda>_. [''a'']\<rparr>))) = (\<lambda>_. {''a''})"
  using workflow_restores_models [OF fleet_faithful, of "\<lparr>sy_db = demo_thread, sy_world = \<lambda>_. [''a'']\<rparr>"
      "\<lambda>_. demo_policy False" "Some \<lparr>lc_fuel = 2, lc_timeout = 0\<rparr>" "''0''" "''go''"]
  by (simp add: fleet_running_def fleet_own_def fun_eq_iff)

section \<open>A load stops everything else\<close>

lemma stop_all_world:
  assumes "faithful_nodes env R own"
  shows "stop_all env n ms s = (Inr (), s') \<Longrightarrow>
    R (sy_world s') = (R (sy_world s))(n := R (sy_world s) n - set ms)"
proof (induction ms arbitrary: s)
  case Nil
  then show ?case by (auto simp: ret_def)
next
  case (Cons m ms)
  then obtain x s1 where a: "model_action env n m ''stop'' s = (Inr x, s1)"
    and b: "stop_all env n ms s1 = (Inr (), s')"
    by (auto simp: seqE_def split: prod.splits sum.splits)
  have "R (sy_world s1) = (R (sy_world s))(n := R (sy_world s) n - {m})"
    using model_action_world(1) [OF assms, of n m s] by (simp add: a)
  then show ?case using Cons.IH [OF b] by (auto simp: fun_eq_iff)
qed

text \<open>When \<open>load_exclusive\<close> returns, the model it loaded is the only one that runs on its node,
  and the other nodes are as they were, provided it was given the models that were running.\<close>

theorem load_is_exclusive:
  assumes "faithful_nodes env R own" "m \<in> own n" "set before = R (sy_world s) n"
    and "load_exclusive env fuel timeout n m before s = (Inr (), s')"
  shows "R (sy_world s') = (R (sy_world s))(n := {m})"
proof -
  obtain s1 where s1: "stop_all env n before s = (Inr (), s1)"
    using assms(4) by (auto simp: load_exclusive_def seqE_def split: prod.splits sum.splits)
  then obtain v s2 where s2: "model_action env n m ''start'' s1 = (Inr v, s2)"
    using assms(4) by (auto simp: load_exclusive_def seqE_def split: prod.splits sum.splits)
  then obtain w s3 where
    s3: "wait_for_model_running env fuel timeout n (expected_running_names m v) s2 = (Inr w, s3)"
    using assms(4) s1 by (auto simp: load_exclusive_def seqE_def split: prod.splits sum.splits)
  have s': "s' = s3"
    using assms(4) s1 s2 s3
    by (auto simp: load_exclusive_def seqE_def ret_def raise_exn_def Let_def split: if_splits)
  have "R (sy_world s3) = R (sy_world s2)"
    using frameD [OF frame_wait [OF assms(1)] s3] .
  moreover have "R (sy_world s2) = (R (sy_world s1))(n := insert m (R (sy_world s1) n))"
    using model_action_world(2) [OF assms(1), of n m s1] assms(2) by (simp add: s2)
  ultimately show ?thesis
    using stop_all_world [OF assms(1) s1] assms(3) by (auto simp: s' fun_eq_iff)
qed

lemma load_is_exclusive_witness:
  "\<exists>s'. load_exclusive fleet_env 2 0 ''n'' ''b'' [''a''] \<lparr>sy_db = demo_thread, sy_world = \<lambda>_. [''a'']\<rparr> =
      (Inr (), s') \<and>
    fleet_running (sy_world s') = (\<lambda>_. {''a''})(''n'' := {''b''})"
proof -
  let ?s = "\<lparr>sy_db = demo_thread, sy_world = \<lambda>_. [''a'']\<rparr>"
  let ?r = "load_exclusive fleet_env 2 0 ''n'' ''b'' [''a''] ?s"
  have "\<not> isl (fst ?r)" by code_simp
  then obtain s' where s': "?r = (Inr (), s')" by (cases ?r; cases "fst ?r") auto
  have "fleet_running (sy_world s') = (fleet_running (sy_world ?s))(''n'' := {''b''})"
    by (rule load_is_exclusive [OF fleet_faithful _ _ s']) (auto simp: fleet_own_def fleet_running_def)
  then show ?thesis using s' by (auto simp: fleet_running_def fun_eq_iff)
qed

end
