(* ===== verification/Model_Wait.thy ===== *)
theory Model_Wait
  imports Workflows
begin

text \<open>
  The loop that waits for a model to run (\<open>wait_for_model_running\<close>) ends. \<open>T w\<close> is what the
  clock of the event loop shows in the world \<open>w\<close>, in microseconds.
\<close>

text \<open>What the loop relies on of the event loop: its clock shows \<open>T\<close>, no request turns it back,
  and a sleep of one second takes at least a second.\<close>

definition steady_clock :: "'w env \<Rightarrow> ('w \<Rightarrow> int) \<Rightarrow> bool" where
  "steady_clock env T \<longleftrightarrow>
     (\<forall>w. fst (ev_time env w) = T w \<and> T (snd (ev_time env w)) = T w) \<and>
     (\<forall>w. T w + 1000000 \<le> T (ev_sleep env w)) \<and>
     (\<forall>n me pa w. T w \<le> T (snd (ev_node env n me pa w)))"

lemma list_models_later:
  assumes "steady_clock env T" "list_node_models env n s = (r, s')"
  shows "T (sy_world s) \<le> T (sy_world s')"
proof -
  obtain q w where q: "ev_node env n ''GET'' ''/lm-api/v1/models'' (sy_world s) = (q, w)"
    by (cases "ev_node env n ''GET'' ''/lm-api/v1/models'' (sy_world s)")
  have "T (sy_world s) \<le> T w" using assms(1) q unfolding steady_clock_def by (metis snd_conv)
  then show ?thesis using assms(2)
    by (auto simp: list_node_models_def request_node_def seqE_def ret_def q split: sum.splits)
qed

lemma loop_time_steady:
  assumes "steady_clock env T"
  obtains s' where "loop_time env s = (Inr (T (sy_world s)), s')" "T (sy_world s') = T (sy_world s)"
proof -
  obtain t w where "ev_time env (sy_world s) = (t, w)" by (cases "ev_time env (sy_world s)")
  then show ?thesis using assms that unfolding steady_clock_def loop_time_def
    by (metis (no_types, lifting) case_prod_conv fst_conv snd_conv system.select_convs(2)
        system.surjective system.update_convs(2))
qed

text \<open>What a turn of the loop answers, and when.\<close>

definition waited :: "(int \<Rightarrow> bool) \<Rightarrow> string list \<Rightarrow> wait_result \<Rightarrow> int \<Rightarrow> bool" where
  "waited late names r now \<longleftrightarrow>
     (if wr_running r then model_is_running (wr_models r) names \<and> wr_error r = None else late now)"

lemma wait_loop_ends:
  assumes c: "steady_clock env T"
  shows "deadline - T (sy_world s) + 1000000 \<le> int fuel * 1000000 \<Longrightarrow> 0 < fuel \<Longrightarrow>
    \<exists>r s'. wait_loop env fuel node names deadline seen s = (Inr r, s') \<and>
      waited (\<lambda>now. deadline \<le> now) names r (T (sy_world s'))"
proof (induction fuel arbitrary: s seen)
  case 0
  then show ?case by simp
next
  case (Suc fuel)
  obtain q s1 where q: "list_node_models env node s = (q, s1)" by (cases "list_node_models env node s")
  have later: "T (sy_world s) \<le> T (sy_world s1)" by (rule list_models_later [OF c q])
  obtain s2 where s2: "loop_time env s1 = (Inr (T (sy_world s1)), s2)" "T (sy_world s2) = T (sy_world s1)"
    by (rule loop_time_steady [OF c])
  define ms where "ms = (case q of Inl e \<Rightarrow> seen | Inr ms \<Rightarrow> ms)"
  define err where "err = (case q of Inl e \<Rightarrow> Some (exn_line e) | Inr ms \<Rightarrow> None)"
  have step: "wait_loop env (Suc fuel) node names deadline seen s =
     (if err = None \<and> model_is_running ms names
      then (Inr \<lparr>wr_running = True, wr_models = ms, wr_error = None\<rparr>, s1)
      else if deadline \<le> T (sy_world s1)
      then (Inr \<lparr>wr_running = False, wr_models = ms, wr_error = err\<rparr>, s2)
      else wait_loop env fuel node names deadline ms (s2\<lparr>sy_world := ev_sleep env (sy_world s2)\<rparr>))"
    by (simp add: seqE_def attempt_eff_def q s2 ret_def sleep_one_def Let_def ms_def err_def)
  show ?case
  proof (cases "err = None \<and> model_is_running ms names \<or> deadline \<le> T (sy_world s1)")
    case True
    then show ?thesis unfolding step by (auto simp: waited_def s2)
  next
    case False
    have slept: "T (sy_world s2) + 1000000 \<le> T (ev_sleep env (sy_world s2))"
      using c by (simp add: steady_clock_def)
    have "deadline - T (ev_sleep env (sy_world s2)) + 1000000 \<le> int fuel * 1000000" "0 < fuel"
      using slept later s2(2) Suc.prems(1) False by (auto simp: algebra_simps intro!: Nat.gr0I)
    then have "\<exists>r s'. wait_loop env fuel node names deadline ms
          (s2\<lparr>sy_world := ev_sleep env (sy_world s2)\<rparr>) = (Inr r, s') \<and>
        waited (\<lambda>now. deadline \<le> now) names r (T (sy_world s'))"
      using Suc.IH [of "s2\<lparr>sy_world := ev_sleep env (sy_world s2)\<rparr>" ms] by simp
    then show ?thesis unfolding step using False by metis
  qed
qed

text \<open>Waiting for a model ends. When the loop clock is steady, the loop returns, after at most one
  poll for each second of the timeout that has begun and one more, whatever the node answers; it raises nothing,
  for a poll that fails is passed over. It says that the model runs only when its last poll listed
  the model as running and ready, and gives up only when the whole timeout is over.\<close>

theorem wait_returns:
  assumes "steady_clock env T" "timeout + 1000000 \<le> int fuel * 1000000" "0 < fuel"
  shows "\<exists>r s'. wait_for_model_running env fuel timeout node names s = (Inr r, s') \<and>
    (if wr_running r then model_is_running (wr_models r) names \<and> wr_error r = None
     else T (sy_world s) + timeout \<le> T (sy_world s'))"
proof -
  obtain s1 where s1: "loop_time env s = (Inr (T (sy_world s)), s1)" "T (sy_world s1) = T (sy_world s)"
    by (rule loop_time_steady [OF assms(1)])
  show ?thesis
    using wait_loop_ends [OF assms(1), of "T (sy_world s) + timeout" s1 fuel node names "[]"] s1 assms(2,3)
    by (auto simp: wait_for_model_running_def seqE_def waited_def)
qed

definition tick_env :: "int env" where
  "tick_env = \<lparr>ev_clock = (\<lambda>w. (w, w)), ev_has_bus = False, ev_emit = (\<lambda>_ _ _ w. w),
     ev_chat = (\<lambda>_ _ w. (Inl (Exn ''E'' []), w)), ev_node = (\<lambda>_ _ _ w. (Inl (Exn ''E'' []), w)),
     ev_time = (\<lambda>w. (w, w)), ev_sleep = (\<lambda>w. w + 1000000)\<rparr>"

lemma wait_returns_witness:
  "\<exists>r s'. wait_for_model_running tick_env 3 2000000 ''n'' [''m''] \<lparr>sy_db = empty_threads, sy_world = 5\<rparr>
      = (Inr r, s') \<and>
    (if wr_running r then model_is_running (wr_models r) [''m''] \<and> wr_error r = None
     else 5 + 2000000 \<le> sy_world s')"
proof -
  have "steady_clock tick_env (\<lambda>w. w)" by (simp add: steady_clock_def tick_env_def)
  from wait_returns [OF this, where s = "\<lparr>sy_db = empty_threads, sy_world = 5\<rparr>",
      unfolded system.select_convs]
  show ?thesis by (rule meta_mp [OF meta_mp]) simp_all
qed

end
