(* ===== verification/Access_Keys.thy ===== *)
theory Access_Keys
  imports Job_Store
begin

text \<open>
  Credentials of the HTTP interface: the API keys (\<open>core/persistence/auth_store_orm.py\<close>), the
  sessions of the web interface (\<open>api/routes/auth/sessions.py\<close>, \<open>api/routes/auth/common.py\<close>)
  and the sessions of the public test page (\<open>api/routes/ui.py\<close>).

  A key is stored as its hash. The hash function, the random token of a new key and the clock
  are arguments of the operations.
\<close>

section \<open>API keys\<close>

record key_usage =
  us_at :: instant
  us_endpoint :: string
  us_route :: "string option"
  us_node :: "string option"
  us_model :: "string option"
  us_request_type :: "string option"

record api_key =
  k_id :: nat
  k_username :: string
  k_role :: string
  k_hash :: string
  k_hint :: string
  k_revoked :: bool
  k_created :: instant
  k_site_name :: "string option"
  k_site_url :: "string option"
  k_usage :: "key_usage option"

record ui_session =
  se_username :: string
  se_key :: "nat option"
  se_created :: instant
  se_expires :: instant
  se_role :: string

record test_session =
  ts_key :: string
  ts_expires :: instant

record access =
  ac_keys :: "api_key list"
  ac_sessions :: "(string \<times> ui_session) list"
  ac_tests :: "(string \<times> test_session) list"
  ac_next :: nat

definition empty_access :: access where
  "empty_access = \<lparr>ac_keys = [], ac_sessions = [], ac_tests = [], ac_next = 0\<rparr>"

definition key_hint :: "nat \<Rightarrow> string \<Rightarrow> string" where
  "key_hint n raw = take n raw @ ''...'' @ drop (length raw - 4) raw"

text \<open>The column of the hashes is unique: a second row with the same hash is refused.\<close>

definition insert_key :: "api_key \<Rightarrow> access \<Rightarrow> orch_error + access" where
  "insert_key k ac =
     (if k_hash k \<in> k_hash ` set (ac_keys ac) then Inl IntegrityError
      else Inr (ac\<lparr>ac_keys := ac_keys ac @ [k], ac_next := Suc (ac_next ac)\<rparr>))"

definition create_key ::
  "(string \<Rightarrow> string) \<Rightarrow> instant \<Rightarrow> string \<Rightarrow> string \<Rightarrow> string \<Rightarrow> access
     \<Rightarrow> orch_error + ((api_key \<times> string) \<times> access)" where
  "create_key hash now token username role ac =
     (let raw = ''lm_'' @ token;
          k = \<lparr>k_id = ac_next ac, k_username = username, k_role = role, k_hash = hash raw,
               k_hint = key_hint 6 raw, k_revoked = False, k_created = now, k_site_name = None,
               k_site_url = None, k_usage = None\<rparr>
      in bindE (insert_key k ac) (\<lambda>ac'. Inr ((k, raw), ac')))"

definition create_external_key ::
  "(string \<Rightarrow> string) \<Rightarrow> instant \<Rightarrow> string \<Rightarrow> string \<Rightarrow> string \<Rightarrow> access
     \<Rightarrow> orch_error + ((api_key \<times> string) \<times> access)" where
  "create_external_key hash now token site_name site_url ac =
     (let raw = ''lmx_'' @ token;
          k = \<lparr>k_id = ac_next ac, k_username = site_name, k_role = ''external'', k_hash = hash raw,
               k_hint = key_hint 7 raw, k_revoked = False, k_created = now,
               k_site_name = Some site_name, k_site_url = Some site_url, k_usage = None\<rparr>
      in bindE (insert_key k ac) (\<lambda>ac'. Inr ((k, raw), ac')))"

definition has_active_keys :: "access \<Rightarrow> bool" where
  "has_active_keys ac \<longleftrightarrow> list_ex (\<lambda>k. \<not> k_revoked k) (ac_keys ac)"

definition list_keys :: "access \<Rightarrow> api_key list" where
  "list_keys ac = sort_key (\<lambda>k. - k_created k) (ac_keys ac)"

definition list_external_keys :: "access \<Rightarrow> api_key list" where
  "list_external_keys ac = sort_key (\<lambda>k. - k_created k) (filter (\<lambda>k. k_role k = ''external'') (ac_keys ac))"

definition record_external_key_usage :: "key_usage \<Rightarrow> nat \<Rightarrow> access \<Rightarrow> bool \<times> access" where
  "record_external_key_usage u kid ac =
     (let p = (\<lambda>k. k_id k = kid \<and> k_role k = ''external'' \<and> \<not> k_revoked k) in
      (list_ex p (ac_keys ac), ac\<lparr>ac_keys := map_if p (\<lambda>k. k\<lparr>k_usage := Some u\<rparr>) (ac_keys ac)\<rparr>))"

definition revoke_key :: "nat \<Rightarrow> access \<Rightarrow> bool \<times> access" where
  "revoke_key kid ac =
     (list_ex (\<lambda>k. k_id k = kid) (ac_keys ac),
      ac\<lparr>ac_keys := map_if (\<lambda>k. k_id k = kid) (\<lambda>k. k\<lparr>k_revoked := True\<rparr>) (ac_keys ac)\<rparr>)"

definition resolve_key :: "(string \<Rightarrow> string) \<Rightarrow> access \<Rightarrow> string \<Rightarrow> api_key option" where
  "resolve_key hash ac raw =
     (case List.find (\<lambda>k. k_hash k = hash raw) (ac_keys ac) of
        None \<Rightarrow> None | Some k \<Rightarrow> if k_revoked k then None else Some k)"

section \<open>Sessions\<close>

definition session_seconds :: int where
  "session_seconds = 12 * 60 * 60"

definition second :: int where
  "second = 1000000"

text \<open>Refusals carry the HTTP status and the detail.\<close>

type_synonym refusal = "nat \<times> string"

text \<open>A login trades a key for a session of the key's role. The agent's configured key makes an
  administrator. \<open>user\<close> is what the caller typed.\<close>

definition login ::
  "(string \<Rightarrow> string) \<Rightarrow> string option \<Rightarrow> instant \<Rightarrow> string \<Rightarrow> string \<Rightarrow> string \<Rightarrow> access
     \<Rightarrow> refusal + (ui_session \<times> access)" where
  "login hash configured now token user raw ac =
     (let resolved = resolve_key hash ac raw in
      if resolved = None \<and> (configured = None \<or> configured = Some [] \<or> configured \<noteq> Some raw)
      then Inl (401, ''Invalid API key'')
      else let s = \<lparr>se_username = user, se_key = map_option k_id resolved, se_created = now,
                    se_expires = now + session_seconds * second,
                    se_role = (case resolved of None \<Rightarrow> ''admin'' | Some k \<Rightarrow> k_role k)\<rparr>
           in Inr (s, ac\<lparr>ac_sessions := AList.update token s (ac_sessions ac)\<rparr>))"

definition logout :: "string option \<Rightarrow> access \<Rightarrow> access" where
  "logout token ac =
     (case token of None \<Rightarrow> ac | Some t \<Rightarrow>
        if t = [] then ac else ac\<lparr>ac_sessions := AList.delete t (ac_sessions ac)\<rparr>)"

definition require_session ::
  "instant \<Rightarrow> string option \<Rightarrow> access \<Rightarrow> (refusal + ui_session) \<times> access" where
  "require_session now token ac =
     (let t = (case token of None \<Rightarrow> [] | Some t \<Rightarrow> t) in
      case map_of (ac_sessions ac) t of
        None \<Rightarrow> (Inl (401, ''Unauthorized''), ac)
      | Some s \<Rightarrow>
          if se_expires s < now
          then (Inl (401, ''Session expired''), ac\<lparr>ac_sessions := AList.delete t (ac_sessions ac)\<rparr>)
          else (Inr s, ac))"

definition require_admin_session ::
  "instant \<Rightarrow> string option \<Rightarrow> access \<Rightarrow> (refusal + ui_session) \<times> access" where
  "require_admin_session now token ac =
     (case require_session now token ac of
        (Inl e, ac') \<Rightarrow> (Inl e, ac')
      | (Inr s, ac') \<Rightarrow> if se_role s \<noteq> ''admin'' then (Inl (403, ''Forbidden''), ac') else (Inr s, ac'))"

section \<open>The test page\<close>

definition test_chat_seconds :: int where
  "test_chat_seconds = 12 * 60 * 60"

definition active_test_session :: "instant \<Rightarrow> string \<Rightarrow> access \<Rightarrow> test_session option \<times> access" where
  "active_test_session now token ac =
     (case map_of (ac_tests ac) token of
        None \<Rightarrow> (None, ac)
      | Some s \<Rightarrow> if ts_expires s < now then (None, ac\<lparr>ac_tests := AList.delete token (ac_tests ac)\<rparr>)
                  else (Some s, ac))"

text \<open>The page gets a session of the configured key, when that key is a key of the test page. The
  cookie's session is renewed when it is still active; the first part of the result is the cookie.\<close>

definition test_chat_bootstrap ::
  "(string \<Rightarrow> string) \<Rightarrow> string \<Rightarrow> string option \<Rightarrow> instant \<Rightarrow> string option \<Rightarrow> string \<Rightarrow> access
     \<Rightarrow> string option \<times> access" where
  "test_chat_bootstrap hash mode test_key now cookie fresh ac =
     (let raw = (case test_key of None \<Rightarrow> [] | Some k \<Rightarrow> k);
          resolved = (if raw = [] then None else resolve_key hash ac raw) in
      if mode = ''agent'' \<or> resolved = None \<or> k_role (the resolved) \<noteq> ''test_chat'' then (None, ac)
      else (let existing = (case cookie of None \<Rightarrow> [] | Some c \<Rightarrow> c);
                (active, ac1) = active_test_session now existing ac;
                token = (if active = None then fresh else existing) in
            (Some token, ac1\<lparr>ac_tests := AList.update token
               \<lparr>ts_key = raw, ts_expires = now + test_chat_seconds * second\<rparr> (ac_tests ac1)\<rparr>)))"

end
