(* ===== verification/Access_Policy.thy ===== *)
theory Access_Policy
  imports Access_Keys
begin

text \<open>
  Which requests are let through: the predicates of \<open>core/app/auth_policy.py\<close> and the middleware
  \<open>enforce_agent_api_key\<close> of \<open>main.py\<close> that applies them.
\<close>

section \<open>Paths\<close>

definition api :: "string \<Rightarrow> string" where
  "api path = ''/lm-api/v1'' @ path"

definition should_bypass_middleware :: "string \<Rightarrow> string \<Rightarrow> bool" where
  "should_bypass_middleware path meth \<longleftrightarrow>
     meth = ''OPTIONS'' \<or>
     starts_with ''/ui'' path \<or> path = ''/'' \<or> path = ''/favicon.ico'' \<or>
     (meth = ''GET'' \<and> starts_with ''/plugin-assets/'' path) \<or>
     (path = api ''/setup/status'' \<and> meth = ''GET'') \<or>
     (path = api ''/setup/bootstrap-admin'' \<and> meth = ''POST'') \<or>
     (path = api ''/client-discovery'' \<and> meth = ''GET'') \<or>
     (path = api ''/chat/bootstrap'' \<and> meth = ''GET'') \<or>
     path = api ''/test-chat/bootstrap'' \<or>
     starts_with ''/health'' path \<or> starts_with (api ''/health'') path \<or>
     starts_with (api ''/auth/login'') path \<or>
     (starts_with (api ''/nodes/'') path \<and> ends_with ''/heartbeat'' path) \<or>
     starts_with (api ''/nodes/register'') path \<or>
     contains ''/work/'' path \<or> ends_with ''/work/claim'' path \<or>
     (meth = ''GET'' \<and> starts_with (api ''/transfer-source/'') path) \<or>
     (meth = ''GET'' \<and> starts_with (api ''/auth/me'') path) \<or>
     starts_with (api ''/auth/logout'') path"

definition should_validate_ui_session :: "bool \<Rightarrow> string \<Rightarrow> bool" where
  "should_validate_ui_session auth_enabled meth = auth_enabled"

definition should_allow_first_run_setup :: "string \<Rightarrow> string \<Rightarrow> bool" where
  "should_allow_first_run_setup path meth \<longleftrightarrow>
     meth = ''POST'' \<and> (path = api ''/setup/apply'' \<or> path = api ''/setup/preflight'')"

definition is_viewer_forbidden :: "string \<Rightarrow> string \<Rightarrow> bool" where
  "is_viewer_forbidden path role =
     (if role \<noteq> ''viewer'' then False
      else if path = api ''/auth/logout'' then False
      else if starts_with (api ''/audit'') path \<or> starts_with (api ''/auth'') path then False
      else if starts_with (api ''/threads/'') path \<and> ends_with ''/events'' path then False
      else True)"

definition is_external_key_forbidden :: "string \<Rightarrow> string \<Rightarrow> string \<Rightarrow> bool" where
  "is_external_key_forbidden path meth role =
     (if role \<noteq> ''external'' then False
      else if starts_with ''/v1/'' path \<or> path = ''/api/chat'' then False
      else if starts_with (api ''/chat/'') path \<and> ends_with ''/context-budget'' path then False
      else if meth = ''POST'' \<and> path = api ''/plugins/llama_pack_business/auth/login'' then False
      else True)"

definition is_test_chat_key_forbidden :: "string \<Rightarrow> string \<Rightarrow> bool" where
  "is_test_chat_key_forbidden path meth =
     (if meth = ''GET'' \<and> path \<in> {api ''/models'', api ''/nodes'', api ''/nodes/models'',
           api ''/nodes/status'', api ''/chat/sessions''} then False
      else if starts_with (api ''/chat/sessions/'') path \<and> (meth = ''GET'' \<or> meth = ''DELETE'') then False
      else if path = api ''/chat/sessions'' \<and> meth = ''POST'' then False
      else if starts_with (api ''/chat/'') path \<and> (meth = ''GET'' \<or> meth = ''POST'') then False
      else if path = api ''/threads'' \<and> meth = ''POST'' then False
      else if starts_with (api ''/threads/'') path \<and> ends_with ''/events'' path \<and> meth = ''GET'' then False
      else if starts_with (api ''/threads/'') path \<and>
              (ends_with ''/messages'' path \<or> ends_with ''/messages/stream'' path) \<and> meth = ''POST'' then False
      else if starts_with ''/v1/'' path \<and> meth = ''POST'' then False
      else if path = ''/api/chat'' \<and> meth = ''POST'' then False
      else True)"

definition should_enforce_agent_key :: "string \<Rightarrow> string option \<Rightarrow> string \<Rightarrow> bool" where
  "should_enforce_agent_key mode configured path =
     (if mode \<noteq> ''agent'' then False
      else if configured = None \<or> configured = Some [] then False
      else if path = ''/health'' \<or> path = api ''/health'' then False
      else True)"

section \<open>The middleware\<close>

record http_request =
  rq_path :: string
  rq_method :: string
  rq_key_header :: "string option"
  rq_legacy_key_header :: "string option"
  rq_session_header :: "string option"
  rq_cookie :: "string option"

record access_config =
  cf_mode :: string
  cf_agent_key :: "string option"

text \<open>Who the handler of the request is told it serves; a public path is told nothing.\<close>

record identity =
  id_account :: "nat option"
  id_user :: string
  id_role :: string

datatype verdict = Passed "identity option" | Refused nat string

definition or_empty :: "string option \<Rightarrow> string" where
  "or_empty x = (case x of None \<Rightarrow> [] | Some s \<Rightarrow> s)"

definition request_api_key :: "http_request \<Rightarrow> string" where
  "request_api_key rq =
     (if or_empty (rq_key_header rq) \<noteq> [] then or_empty (rq_key_header rq)
      else or_empty (rq_legacy_key_header rq))"

text \<open>Without a key in the headers, the cookie of the test page may stand for one; an expired
  session is dropped.\<close>

definition provided_key :: "instant \<Rightarrow> http_request \<Rightarrow> access \<Rightarrow> string \<times> access" where
  "provided_key now rq ac =
     (if request_api_key rq \<noteq> [] then (request_api_key rq, ac)
      else (let token = or_empty (rq_cookie rq) in
            case map_of (ac_tests ac) token of
              None \<Rightarrow> ([], ac)
            | Some s \<Rightarrow> if now \<le> ts_expires s then (ts_key s, ac)
                        else ([], ac\<lparr>ac_tests := AList.delete token (ac_tests ac)\<rparr>)))"

definition key_verdict :: "http_request \<Rightarrow> api_key \<Rightarrow> verdict" where
  "key_verdict rq k =
     (if is_viewer_forbidden (rq_path rq) (k_role k) then Refused 403 ''Forbidden''
      else if is_external_key_forbidden (rq_path rq) (rq_method rq) (k_role k)
      then Refused 403 ''Forbidden''
      else if k_role k = ''test_chat'' \<and> is_test_chat_key_forbidden (rq_path rq) (rq_method rq)
      then Refused 403 ''Forbidden''
      else Passed (Some \<lparr>id_account = Some (k_id k), id_user = k_username k, id_role = k_role k\<rparr>))"

definition session_verdict :: "instant \<Rightarrow> http_request \<Rightarrow> access \<Rightarrow> verdict \<times> access" where
  "session_verdict now rq ac =
     (let t = or_empty (rq_session_header rq) in
      case map_of (ac_sessions ac) t of
        None \<Rightarrow> (Refused 401 ''Unauthorized'', ac)
      | Some s \<Rightarrow>
          if se_expires s < now
          then (Refused 401 ''Session expired'', ac\<lparr>ac_sessions := AList.delete t (ac_sessions ac)\<rparr>)
          else if is_viewer_forbidden (rq_path rq) (se_role s) then (Refused 403 ''Forbidden'', ac)
          else (Passed (Some \<lparr>id_account = se_key s, id_user = se_username s, id_role = se_role s\<rparr>), ac))"

definition enforce ::
  "(string \<Rightarrow> string) \<Rightarrow> access_config \<Rightarrow> instant \<Rightarrow> http_request \<Rightarrow> access \<Rightarrow> verdict \<times> access" where
  "enforce hash cfg now rq ac0 =
     (let path = rq_path rq; meth = rq_method rq; configured = or_empty (cf_agent_key cfg) in
      if should_bypass_middleware path meth then (Passed None, ac0)
      else
      let (provided, ac) = provided_key now rq ac0;
          resolved = (if provided = [] then None else resolve_key hash ac provided) in
      case resolved of
        Some k \<Rightarrow> (key_verdict rq k, ac)
      | None \<Rightarrow>
          if configured \<noteq> [] \<and> provided \<noteq> [] \<and> provided = configured
          then (Passed (Some \<lparr>id_account = None, id_user = ''agent-api-key'', id_role = ''admin''\<rparr>), ac)
          else let auth_enabled = (configured \<noteq> [] \<or> has_active_keys ac) in
          if should_validate_ui_session auth_enabled meth then session_verdict now rq ac
          else if \<not> auth_enabled \<and> should_allow_first_run_setup path meth then (Passed None, ac)
          else if \<not> auth_enabled then (Refused 401 ''Auth bootstrap required'', ac)
          else if \<not> should_enforce_agent_key (cf_mode cfg) (cf_agent_key cfg) path then (Passed None, ac)
          else (Refused 401 ''Unauthorized'', ac))"

end
