(* ===== verification/Access_Safety.thy ===== *)
theory Access_Safety
  imports Access_Policy
begin

text \<open>
  What the middleware guarantees of the requests it lets through, and two ways around it.
\<close>

section \<open>The key store\<close>

inductive access_step :: "(string \<Rightarrow> string) \<Rightarrow> access \<Rightarrow> access \<Rightarrow> bool" for hash where
  "create_key hash now token username role ac = Inr (r, ac') \<Longrightarrow> access_step hash ac ac'"
| "create_external_key hash now token name url ac = Inr (r, ac') \<Longrightarrow> access_step hash ac ac'"
| "revoke_key kid ac = (ok, ac') \<Longrightarrow> access_step hash ac ac'"
| "record_external_key_usage u kid ac = (ok, ac') \<Longrightarrow> access_step hash ac ac'"
| "login hash configured now token user raw ac = Inr (s, ac') \<Longrightarrow> access_step hash ac ac'"
| "logout tok ac = ac' \<Longrightarrow> access_step hash ac ac'"
| "require_session now tok ac = (r', ac') \<Longrightarrow> access_step hash ac ac'"
| "test_chat_bootstrap hash mode key now cookie fresh ac = (c, ac') \<Longrightarrow> access_step hash ac ac'"
| "enforce hash cfg now rq ac = (v, ac') \<Longrightarrow> access_step hash ac ac'"

definition keys_inv :: "access \<Rightarrow> bool" where
  "keys_inv ac \<longleftrightarrow> distinct (map k_id (ac_keys ac)) \<and> distinct (map k_hash (ac_keys ac)) \<and>
     (\<forall>k \<in> set (ac_keys ac). k_id k < ac_next ac)"

lemma keys_inv_insert:
  "insert_key k ac = Inr ac' \<Longrightarrow> keys_inv ac \<Longrightarrow> k_id k = ac_next ac \<Longrightarrow> keys_inv ac'"
  by (fastforce simp: keys_inv_def insert_key_def split: if_splits)

lemma keys_inv_update:
  assumes "keys_inv ac" "\<And>k. k_id (f k) = k_id k" "\<And>k. k_hash (f k) = k_hash k"
  shows "keys_inv (ac\<lparr>ac_keys := map_if p f (ac_keys ac)\<rparr>)"
proof -
  have "map k_id (map_if p f (ac_keys ac)) = map k_id (ac_keys ac)"
    "map k_hash (map_if p f (ac_keys ac)) = map k_hash (ac_keys ac)"
    using assms(2,3) by (simp_all add: map_map_if)
  with assms(1,2) show ?thesis by (auto simp: keys_inv_def set_map_if)
qed

lemma keys_inv_same:
  "keys_inv ac \<Longrightarrow> ac_keys ac' = ac_keys ac \<Longrightarrow> ac_next ac' = ac_next ac \<Longrightarrow> keys_inv ac'"
  by (simp add: keys_inv_def)

lemma provided_key_same:
  "provided_key now rq ac = (raw, ac') \<Longrightarrow>
     ac_keys ac' = ac_keys ac \<and> ac_next ac' = ac_next ac \<and> ac_sessions ac' = ac_sessions ac"
  by (auto simp: provided_key_def Let_def split: if_splits option.splits)

lemma session_verdict_same:
  "session_verdict now rq ac = (v, ac') \<Longrightarrow> ac_keys ac' = ac_keys ac \<and> ac_next ac' = ac_next ac"
  by (auto simp: session_verdict_def Let_def split: if_splits option.splits)

lemma enforce_same:
  assumes "enforce hash cfg now rq ac = (v, ac')"
  shows "ac_keys ac' = ac_keys ac \<and> ac_next ac' = ac_next ac"
proof -
  obtain raw ac1 where p: "provided_key now rq ac = (raw, ac1)" by (cases "provided_key now rq ac")
  show ?thesis
    using assms provided_key_same [OF p]
    by (auto simp: enforce_def Let_def p dest!: session_verdict_same split: if_splits option.splits)
qed

lemma bootstrap_same:
  assumes "test_chat_bootstrap hash mode key now cookie fresh ac = (c, ac')"
  shows "ac_keys ac' = ac_keys ac \<and> ac_next ac' = ac_next ac"
  using assms
  by (auto simp: test_chat_bootstrap_def active_test_session_def Let_def split: if_splits option.splits)

lemma keys_inv_step: "keys_inv ac \<Longrightarrow> access_step hash ac ac' \<Longrightarrow> keys_inv ac'"
proof (erule access_step.cases)
  fix now token username role r ac0 ac1
  assume "keys_inv ac" "ac = ac0" "ac' = ac1" "create_key hash now token username role ac0 = Inr (r, ac1)"
  then show "keys_inv ac'"
    by (auto simp: create_key_def Let_def bindE_Inr elim!: keys_inv_insert)
next
  fix now token name url r ac0 ac1
  assume "keys_inv ac" "ac = ac0" "ac' = ac1" "create_external_key hash now token name url ac0 = Inr (r, ac1)"
  then show "keys_inv ac'"
    by (auto simp: create_external_key_def Let_def bindE_Inr elim!: keys_inv_insert)
qed (auto simp: revoke_key_def record_external_key_usage_def Let_def login_def logout_def require_session_def
    intro: keys_inv_update keys_inv_same dest!: enforce_same bootstrap_same split: if_splits option.splits)

lemma keys_inv_empty: "keys_inv empty_access"
  by (simp add: keys_inv_def empty_access_def)

interpretation key_store: inductive_invariant "\<lambda>ac. ac = empty_access" "access_step hash" keys_inv for hash
  by unfold_locales (auto intro: keys_inv_empty keys_inv_step)

lemma find_key_unique:
  "keys_inv ac \<Longrightarrow> k \<in> set (ac_keys ac) \<Longrightarrow> List.find (\<lambda>k'. k_hash k' = k_hash k) (ac_keys ac) = Some k"
  by (rule find_unique) (simp_all add: keys_inv_def)

lemma resolve_iff:
  assumes "keys_inv ac"
  shows "resolve_key hash ac raw = Some k \<longleftrightarrow> k \<in> set (ac_keys ac) \<and> k_hash k = hash raw \<and> \<not> k_revoked k"
proof
  assume "resolve_key hash ac raw = Some k"
  then show "k \<in> set (ac_keys ac) \<and> k_hash k = hash raw \<and> \<not> k_revoked k"
    by (auto simp: resolve_key_def find_Some_iff split: option.splits if_splits)
next
  assume "k \<in> set (ac_keys ac) \<and> k_hash k = hash raw \<and> \<not> k_revoked k"
  then show "resolve_key hash ac raw = Some k"
    using find_key_unique [OF assms, of k] by (simp add: resolve_key_def)
qed

text \<open>A key works from the moment it is made. In every state that the operations reach, a new
  key (a random one, whose hash is not yet in the store) is made, its text resolves to the very row
  with the role asked for, and every text of another hash resolves as before.\<close>

theorem new_key_resolves:
  assumes "(access_step hash)\<^sup>*\<^sup>* empty_access ac" "hash (''lm_'' @ token) \<notin> k_hash ` set (ac_keys ac)"
  shows "\<exists>k ac'. create_key hash now token username role ac = Inr ((k, ''lm_'' @ token), ac') \<and>
    resolve_key hash ac' (''lm_'' @ token) = Some k \<and> k_role k = role \<and> k_username k = username \<and>
    (\<forall>raw. hash raw \<noteq> hash (''lm_'' @ token) \<longrightarrow> resolve_key hash ac' raw = resolve_key hash ac raw)"
proof -
  obtain k ac' where c: "create_key hash now token username role ac = Inr ((k, ''lm_'' @ token), ac')"
      and k: "k_role k = role" "k_username k = username" "k_hash k = hash (''lm_'' @ token)" "\<not> k_revoked k"
      and ac': "ac_keys ac' = ac_keys ac @ [k]"
    using assms(2) by (auto simp: create_key_def insert_key_def Let_def)
  have "keys_inv ac'"
    using key_store.inv_reachable [OF refl rtranclp.rtrancl_into_rtrancl [OF assms(1)]]
      access_step.intros(1) [OF c] by blast
  then have "resolve_key hash ac' (''lm_'' @ token) = Some k"
    by (simp add: resolve_iff ac' k)
  moreover have "resolve_key hash ac' raw = resolve_key hash ac raw" if "hash raw \<noteq> hash (''lm_'' @ token)" for raw
    using that k(3) by (simp add: resolve_key_def ac' find_append split: option.splits)
  ultimately show ?thesis using c k by blast
qed

lemma new_key_resolves_witness:
  "\<exists>k ac'. create_key (\<lambda>x. x) 5 ''tok'' ''ann'' ''viewer'' empty_access = Inr ((k, ''lm_tok''), ac') \<and>
     resolve_key (\<lambda>x. x) ac' ''lm_tok'' = Some k \<and> k_role k = ''viewer''"
  using new_key_resolves [of "\<lambda>x. x" empty_access "''tok''" 5 "''ann''" "''viewer''"]
  by (auto simp: empty_access_def)

lemma map_if_has:
  "x \<in> set xs \<Longrightarrow> (p x \<Longrightarrow> Q (f x)) \<Longrightarrow> (\<not> p x \<Longrightarrow> Q x) \<Longrightarrow> \<exists>y \<in> set (map_if p f xs). Q y"
  by (cases "p x") (auto simp: set_map_if)

lemma revoked_stays:
  assumes "access_step hash ac ac'" "k \<in> set (ac_keys ac)" "k_revoked k"
  shows "\<exists>k' \<in> set (ac_keys ac'). k_hash k' = k_hash k \<and> k_revoked k'"
  using assms
proof (cases rule: access_step.cases)
  case (1 now token username role r)
  then show ?thesis using assms(2,3)
    by (auto simp: create_key_def insert_key_def Let_def bindE_Inr split: if_splits)
next
  case (2 now token name url r)
  then show ?thesis using assms(2,3)
    by (auto simp: create_external_key_def insert_key_def Let_def bindE_Inr split: if_splits)
next
  case (3 kid ok)
  then have "ac_keys ac' = map_if (\<lambda>k. k_id k = kid) (\<lambda>k. k\<lparr>k_revoked := True\<rparr>) (ac_keys ac)"
    by (auto simp: revoke_key_def)
  then show ?thesis using assms(2,3) by (auto intro!: map_if_has)
next
  case (4 u kid ok)
  then have "ac_keys ac' = map_if (\<lambda>k. k_id k = kid \<and> k_role k = ''external'' \<and> \<not> k_revoked k)
      (\<lambda>k. k\<lparr>k_usage := Some u\<rparr>) (ac_keys ac)"
    by (auto simp: record_external_key_usage_def Let_def)
  then show ?thesis using assms(2,3) by (auto intro!: map_if_has)
qed (use assms(2,3) in \<open>auto simp: login_def logout_def require_session_def Let_def
    dest!: enforce_same bootstrap_same split: if_splits option.splits\<close>)

text \<open>C17. Revoking a key is final. Once a key of a reachable state is revoked, no later operation of
  the store, in any order, makes a text with its hash resolve again.\<close>

theorem revocation_is_final:
  assumes "(access_step hash)\<^sup>*\<^sup>* empty_access ac" "k \<in> set (ac_keys ac)" "hash raw = k_hash k"
    and "revoke_key (k_id k) ac = (ok, ac1)" "(access_step hash)\<^sup>*\<^sup>* ac1 ac2"
  shows "ok \<and> resolve_key hash ac2 raw = None"
proof -
  have "\<exists>k' \<in> set (ac_keys ac1). k_hash k' = hash raw \<and> k_revoked k'"
  proof -
    have "ac_keys ac1 = map_if (\<lambda>k'. k_id k' = k_id k) (\<lambda>k. k\<lparr>k_revoked := True\<rparr>) (ac_keys ac)"
      using assms(4) by (auto simp: revoke_key_def)
    then show ?thesis using assms(2,3) by (auto intro!: map_if_has)
  qed
  with assms(5) have "\<exists>k' \<in> set (ac_keys ac2). k_hash k' = hash raw \<and> k_revoked k'"
    by (induction rule: rtranclp_induct) (blast, metis revoked_stays)
  then obtain k' where k': "k' \<in> set (ac_keys ac2)" "k_hash k' = hash raw" "k_revoked k'" by blast
  have "access_step hash ac ac1" by (rule access_step.intros(3) [OF assms(4)])
  then have "(access_step hash)\<^sup>*\<^sup>* empty_access ac2"
    using assms(1,5) by (meson rtranclp.rtrancl_into_rtrancl rtranclp_trans)
  then have "keys_inv ac2" using key_store.inv_reachable [OF refl] by blast
  then have "resolve_key hash ac2 raw = None"
    using find_key_unique [of ac2 k'] k' by (simp add: resolve_key_def)
  moreover have ok using assms(2,4) by (auto simp: revoke_key_def list_ex_iff)
  ultimately show ?thesis by simp
qed

definition made :: "orch_error + (('k \<times> string) \<times> access) \<Rightarrow> access" where
  "made r = (case r of Inl e \<Rightarrow> empty_access | Inr (_, ac) \<Rightarrow> ac)"

definition demo_keys :: access where
  "demo_keys = made (create_external_key (\<lambda>x. x) 6 ''t2'' ''site'' ''url''
     (made (create_key (\<lambda>x. x) 5 ''t1'' ''ann'' ''admin'' empty_access)))"

lemma demo_keys_reachable: "(access_step (\<lambda>x. x))\<^sup>*\<^sup>* empty_access demo_keys"
proof -
  let ?a = "made (create_key (\<lambda>x. x) 5 ''t1'' ''ann'' ''admin'' empty_access)"
  have "\<exists>r. create_key (\<lambda>x. x) 5 ''t1'' ''ann'' ''admin'' empty_access = Inr (r, ?a)"
    by (simp add: create_key_def Let_def insert_key_def empty_access_def made_def)
  then have 1: "access_step (\<lambda>x. x) empty_access ?a" by (blast intro: access_step.intros)
  have "\<exists>r. create_external_key (\<lambda>x. x) 6 ''t2'' ''site'' ''url'' ?a = Inr (r, demo_keys)"
    by (simp add: create_key_def create_external_key_def Let_def insert_key_def empty_access_def made_def
        demo_keys_def)
  then have 2: "access_step (\<lambda>x. x) ?a demo_keys" by (blast intro: access_step.intros)
  from 1 2 show ?thesis by (meson rtranclp.rtrancl_into_rtrancl r_into_rtranclp)
qed

lemma revocation_is_final_witness:
  "resolve_key (\<lambda>x. x) demo_keys ''lmx_t2'' \<noteq> None \<and>
   resolve_key (\<lambda>x. x) (snd (revoke_key 1 demo_keys)) ''lmx_t2'' = None"
proof -
  let ?k = "List.last (ac_keys demo_keys)"
  have k: "?k \<in> set (ac_keys demo_keys)" "''lmx_t2'' = k_hash ?k" "k_id ?k = 1"
    "resolve_key (\<lambda>x. x) demo_keys ''lmx_t2'' \<noteq> None"
    by code_simp+
  have "revoke_key (k_id ?k) demo_keys = (fst (revoke_key 1 demo_keys), snd (revoke_key 1 demo_keys))"
    by (simp add: k(3))
  from revocation_is_final [OF demo_keys_reachable k(1) k(2) this rtranclp.rtrancl_refl]
  show ?thesis using k(4) by simp
qed

section \<open>Who is let through\<close>

text \<open>What entitles a caller to be served as \<open>who\<close>: a key of the store that is not revoked, in a
  header or through an unexpired session of the test page, within the paths of its role; the
  configured agent key; or an unexpired session of the web interface.\<close>

definition presents :: "instant \<Rightarrow> http_request \<Rightarrow> access \<Rightarrow> string \<Rightarrow> bool" where
  "presents now rq ac raw \<longleftrightarrow> raw \<noteq> [] \<and>
     (raw = request_api_key rq \<or>
      request_api_key rq = [] \<and> (\<exists>s. map_of (ac_tests ac) (or_empty (rq_cookie rq)) = Some s \<and>
        now \<le> ts_expires s \<and> raw = ts_key s))"

definition role_allows :: "string \<Rightarrow> string \<Rightarrow> string \<Rightarrow> bool" where
  "role_allows role path meth \<longleftrightarrow>
     (role = ''viewer'' \<longrightarrow> starts_with (api ''/audit'') path \<or> starts_with (api ''/auth'') path \<or>
        starts_with (api ''/threads/'') path \<and> ends_with ''/events'' path) \<and>
     (role = ''external'' \<longrightarrow> starts_with ''/v1/'' path \<or> path = ''/api/chat'' \<or>
        starts_with (api ''/chat/'') path \<and> ends_with ''/context-budget'' path \<or>
        meth = ''POST'' \<and> path = api ''/plugins/llama_pack_business/auth/login'') \<and>
     (role = ''test_chat'' \<longrightarrow> \<not> is_test_chat_key_forbidden path meth)"

inductive credential ::
  "(string \<Rightarrow> string) \<Rightarrow> access_config \<Rightarrow> instant \<Rightarrow> http_request \<Rightarrow> access \<Rightarrow> identity \<Rightarrow> bool"
  for hash cfg now rq ac where
  by_key: "presents now rq ac raw \<Longrightarrow> resolve_key hash ac raw = Some k \<Longrightarrow>
    role_allows (k_role k) (rq_path rq) (rq_method rq) \<Longrightarrow>
    credential hash cfg now rq ac \<lparr>id_account = Some (k_id k), id_user = k_username k, id_role = k_role k\<rparr>"
| by_agent_key: "presents now rq ac raw \<Longrightarrow> cf_agent_key cfg = Some raw \<Longrightarrow>
    credential hash cfg now rq ac \<lparr>id_account = None, id_user = ''agent-api-key'', id_role = ''admin''\<rparr>"
| by_session: "map_of (ac_sessions ac) (or_empty (rq_session_header rq)) = Some s \<Longrightarrow>
    now \<le> se_expires s \<Longrightarrow> (se_role s = ''viewer'' \<Longrightarrow> role_allows ''viewer'' (rq_path rq) (rq_method rq)) \<Longrightarrow>
    credential hash cfg now rq ac \<lparr>id_account = se_key s, id_user = se_username s, id_role = se_role s\<rparr>"

lemma logout_is_auth: "starts_with (api ''/auth'') (api ''/auth/logout'')"
  by (simp add: api_def starts_with_def)

lemma viewer_allowed: "\<not> is_viewer_forbidden path ''viewer'' \<Longrightarrow> role_allows ''viewer'' path meth"
  using logout_is_auth by (auto simp: is_viewer_forbidden_def role_allows_def split: if_splits)

lemma key_verdict_passed:
  assumes "key_verdict rq k = Passed who"
  shows "who = Some \<lparr>id_account = Some (k_id k), id_user = k_username k, id_role = k_role k\<rparr> \<and>
    role_allows (k_role k) (rq_path rq) (rq_method rq)"
  using assms viewer_allowed [of "rq_path rq" "rq_method rq"]
  by (auto simp: key_verdict_def role_allows_def is_external_key_forbidden_def split: if_splits)

lemma session_verdict_passed:
  assumes "session_verdict now rq ac = (Passed who, ac')"
  shows "\<exists>i. who = Some i \<and> credential hash cfg now rq ac i"
  using assms viewer_allowed [of "rq_path rq" "rq_method rq"]
  by (auto simp: session_verdict_def Let_def not_less split: if_splits option.splits
      intro!: by_session)

lemma provided_key_presents:
  "provided_key now rq ac = (raw, ac') \<Longrightarrow> raw \<noteq> [] \<Longrightarrow> presents now rq ac raw"
  by (auto simp: provided_key_def presents_def Let_def split: if_splits option.splits)

lemma resolve_same: "ac_keys ac' = ac_keys ac \<Longrightarrow> resolve_key hash ac' raw = resolve_key hash ac raw"
  by (simp add: resolve_key_def)

lemma session_same:
  "ac_sessions ac' = ac_sessions ac \<Longrightarrow> fst (session_verdict now rq ac') = fst (session_verdict now rq ac)"
  by (auto simp: session_verdict_def Let_def split: option.splits)


definition demo_request :: "string \<Rightarrow> string \<Rightarrow> string option \<Rightarrow> string option \<Rightarrow> http_request" where
  "demo_request path meth key session = \<lparr>rq_path = path, rq_method = meth, rq_key_header = key,
     rq_legacy_key_header = None, rq_session_header = session, rq_cookie = None\<rparr>"

definition demo_access_cfg :: access_config where
  "demo_access_cfg = \<lparr>cf_mode = ''controller'', cf_agent_key = None\<rparr>"

definition demo_enforce :: "http_request \<Rightarrow> access \<Rightarrow> verdict" where
  "demo_enforce rq ac = fst (enforce (\<lambda>x. x) demo_access_cfg 7 rq ac)"


section \<open>Ways around it\<close>

definition start_path :: string where
  "start_path = ''/lm-api/v1/models/m/start''"

definition demo_login :: "string \<Rightarrow> access \<Rightarrow> access" where
  "demo_login raw ac = (case login (\<lambda>x. x) None 7 ''tok'' ''u'' raw ac of Inl _ \<Rightarrow> ac | Inr (_, ac') \<Rightarrow> ac')"

text \<open>An external key is not confined. A request that starts a model is refused when it carries
  an external application's key. The same key is accepted by the login, which asks for no role,
  and the request that carries the session it returns is let through: for a session only the
  viewer's paths are checked, not those of an external or a test-page key.\<close>

theorem external_key_escapes_by_login:
  "demo_enforce (demo_request start_path ''POST'' (Some ''lmx_t2'') None) demo_keys = Refused 403 ''Forbidden'' \<and>
   demo_enforce (demo_request start_path ''POST'' None (Some ''tok'')) (demo_login ''lmx_t2'' demo_keys) =
     Passed (Some \<lparr>id_account = Some 1, id_user = ''u'', id_role = ''external''\<rparr>)"
  by code_simp

text \<open>A revoked key lives on in its session. After the key is revoked, requests that carry it are
  refused, and those that carry a session it opened before are still served under its role.\<close>

theorem session_outlives_revocation:
  "demo_enforce (demo_request start_path ''POST'' (Some ''lm_t1'') None)
     (snd (revoke_key 0 (demo_login ''lm_t1'' demo_keys))) = Refused 401 ''Unauthorized'' \<and>
   demo_enforce (demo_request start_path ''POST'' None (Some ''tok''))
     (snd (revoke_key 0 (demo_login ''lm_t1'' demo_keys))) =
     Passed (Some \<lparr>id_account = Some 0, id_user = ''u'', id_role = ''admin''\<rparr>)"
  by code_simp

text \<open>The exemption for nodes that report work covers more than their routes. A request without
  any credential that starts the download of a repository is refused, unless the repository's owner
  is called \<open>work\<close>: then its path holds \<open>/work/\<close> and the middleware lets it through, although it is
  no route of the nodes and its handler asks for no key.\<close>

theorem work_paths_need_no_key:
  "demo_enforce (demo_request ''/lm-api/v1/downloads/qwen/m/start'' ''POST'' None None) demo_keys =
     Refused 401 ''Unauthorized'' \<and>
   demo_enforce (demo_request ''/lm-api/v1/downloads/work/m/start'' ''POST'' None None) demo_keys = Passed None"
  by code_simp

end
