(* ===== verification/Node_Registry.thy ===== *)
theory Node_Registry
  imports Routing Job_Store
begin

text \<open>
  The nodes that a controller knows (\<open>core/nodes/registry.py\<close>): those of its configuration, what
  was changed of them at run time (overrides), and those that registered themselves (dynamic).
  The three tables and the heartbeats are saved after every change and loaded at the start.

  A configuration is saved and read back by pydantic's \<open>model_dump\<close> and \<open>model_validate\<close>; the
  saved state therefore holds the configurations themselves. A heartbeat is an instant, or
  \<open>None\<close> for a text in the saved state that is no date.
\<close>

section \<open>Addresses\<close>

definition scheme_char :: "char \<Rightarrow> bool" where
  "scheme_char c = (let n = char_nat c in
     (48 \<le> n \<and> n \<le> 57) \<or> (65 \<le> n \<and> n \<le> 90) \<or> (97 \<le> n \<and> n \<le> 122) \<or> c \<in> set ''+-.'')"

definition ascii_letter :: "char \<Rightarrow> bool" where
  "ascii_letter c = (let n = char_nat c in (65 \<le> n \<and> n \<le> 90) \<or> (97 \<le> n \<and> n \<le> 122))"

text \<open>\<open>urlsplit(url).scheme\<close>: leading control characters and spaces are dropped, tabs and line
  ends anywhere.\<close>

definition url_clean :: "string \<Rightarrow> string" where
  "url_clean url = filter (\<lambda>c. char_nat c \<notin> {9, 10, 13}) (dropWhile (\<lambda>c. char_nat c \<le> 32) url)"

definition url_scheme :: "string \<Rightarrow> string" where
  "url_scheme url =
     (case partition_on CHR '':'' (url_clean url) of (a, sep, _) \<Rightarrow>
        if sep \<noteq> [] \<and> a \<noteq> [] \<and> ascii_letter (hd a) \<and> list_all scheme_char a then lower a else [])"

definition strip_left :: "char \<Rightarrow> string \<Rightarrow> string" where
  "strip_left c s = dropWhile (\<lambda>x. x = c) s"

definition strip_right :: "char \<Rightarrow> string \<Rightarrow> string" where
  "strip_right c s = rev (dropWhile (\<lambda>x. x = c) (rev s))"

definition inherit_url_scheme :: "string \<Rightarrow> string \<Rightarrow> string" where
  "inherit_url_scheme url fallback_url =
     (if url_scheme url \<noteq> [] then url
      else if url_scheme fallback_url = [] then url
      else url_scheme fallback_url @ ''://'' @ strip_left CHR ''/'' url)"

definition no_secret :: "string option \<Rightarrow> bool" where
  "no_secret s \<longleftrightarrow> s = None \<or> s = Some []"

definition coalesce_secret :: "string option \<Rightarrow> string option \<Rightarrow> string option" where
  "coalesce_secret value fallback = (if no_secret value then fallback else value)"

definition static_node_override :: "node_config \<Rightarrow> node_config \<Rightarrow> node_config" where
  "static_node_override node configured =
     node\<lparr>nc_url := inherit_url_scheme (nc_url node) (nc_url configured),
          nc_api_key := coalesce_secret (nc_api_key node) (nc_api_key configured),
          nc_verify_tls := (if nc_verify_tls node then nc_verify_tls configured else False)\<rparr>"

definition validated_base_url :: "string \<Rightarrow> string \<Rightarrow> exn + string" where
  "validated_base_url name url =
     (if url_scheme url \<notin> {''http'', ''https''}
      then Inl (Exn ''ValueError'' (''nodes.'' @ name @ ''.url must start with http:// or https:// '' @
             ''(resolved value: '' @ str_repr url @ '')''))
      else Inr (strip_right CHR ''/'' url))"

section \<open>The registry\<close>

type_synonym node_table = "(string \<times> node_config) list"

record node_state =
  ns_dynamic :: node_table
  ns_overrides :: node_table
  ns_heartbeats :: "(string \<times> instant option) list"

record registry =
  rg_config :: node_table
  rg_heartbeat_timeout :: int
  rg_dynamic :: node_table
  rg_overrides :: node_table
  rg_heartbeats :: "(string \<times> instant option) list"
  rg_snapshots :: "(string \<times> pydict) list"
  rg_saved :: "node_state option"

definition save_state :: "registry \<Rightarrow> registry" where
  "save_state r =
     (case rg_saved r of None \<Rightarrow> r
      | Some _ \<Rightarrow> r\<lparr>rg_saved := Some \<lparr>ns_dynamic = rg_dynamic r, ns_overrides = rg_overrides r,
                                     ns_heartbeats = rg_heartbeats r\<rparr>\<rparr>)"

text \<open>A saved dynamic node that the configuration now has becomes an override, which keeps only its
  address, key and TLS flag.\<close>

definition adopt_dynamic :: "node_table \<Rightarrow> node_table \<Rightarrow> node_table \<times> node_table" where
  "adopt_dynamic config saved =
     fold (\<lambda>(name, node) (loaded, overrides).
        case map_of config name of
          Some configured \<Rightarrow> (loaded, AList.update name
            \<lparr>nc_url = inherit_url_scheme (nc_url node) (nc_url configured),
             nc_api_key = coalesce_secret (nc_api_key node) (nc_api_key configured),
             nc_verify_tls = (if nc_verify_tls node then nc_verify_tls configured else False),
             nc_default_model = None, nc_request_types = [], nc_max_running = None\<rparr> overrides)
        | None \<Rightarrow> (AList.update name node loaded, overrides)) saved ([], [])"

definition load_overrides :: "node_table \<Rightarrow> node_table \<Rightarrow> node_table" where
  "load_overrides config saved =
     fold (\<lambda>(name, node) overrides. AList.update name
        (case map_of config name of Some configured \<Rightarrow> static_node_override node configured | None \<Rightarrow> node)
        overrides) saved []"

text \<open>The overrides made from the dynamic nodes are replaced by the saved overrides, as in the code.\<close>

definition load_state :: "registry \<Rightarrow> registry" where
  "load_state r =
     (case rg_saved r of None \<Rightarrow> r
      | Some st \<Rightarrow>
          (let (loaded, adopted) = adopt_dynamic (rg_config r) (ns_dynamic st);
               r1 = r\<lparr>rg_dynamic := loaded, rg_overrides := adopted\<rparr>
           in r1\<lparr>rg_overrides := load_overrides (rg_config r) (ns_overrides st),
                 rg_heartbeats := dmerge [] (ns_heartbeats st)\<rparr>))"

definition new_registry :: "node_table \<Rightarrow> int \<Rightarrow> node_state option \<Rightarrow> registry" where
  "new_registry config timeout saved =
     load_state \<lparr>rg_config = config, rg_heartbeat_timeout = timeout, rg_dynamic = [], rg_overrides = [],
       rg_heartbeats = [], rg_snapshots = [], rg_saved = saved\<rparr>"

definition all_node_configs :: "registry \<Rightarrow> node_table" where
  "all_node_configs r = dmerge (dmerge (rg_config r) (rg_overrides r)) (rg_dynamic r)"

definition get_node :: "registry \<Rightarrow> string \<Rightarrow> exn + node_config" where
  "get_node r name =
     (case map_of (rg_overrides r) name of Some n \<Rightarrow> Inr n
      | None \<Rightarrow> (case map_of (rg_config r) name of Some n \<Rightarrow> Inr n
      | None \<Rightarrow> (case map_of (rg_dynamic r) name of Some n \<Rightarrow> Inr n
      | None \<Rightarrow> Inl (Exn ''KeyError'' (str_repr (''Unknown node: '' @ name))))))"

definition record_heartbeat :: "instant \<Rightarrow> string \<Rightarrow> registry \<Rightarrow> exn + registry" where
  "record_heartbeat now name r =
     bindE (get_node r name) (\<lambda>_.
     Inr (save_state (r\<lparr>rg_heartbeats := AList.update name (Some now) (rg_heartbeats r)\<rparr>)))"

definition register_node :: "instant \<Rightarrow> string \<Rightarrow> node_config \<Rightarrow> registry \<Rightarrow> exn + registry" where
  "register_node now name node r =
     (let r1 = (case map_of (rg_config r) name of
          Some configured \<Rightarrow>
            r\<lparr>rg_overrides := AList.update name (static_node_override node configured) (rg_overrides r),
              rg_dynamic := AList.delete name (rg_dynamic r)\<rparr>
        | None \<Rightarrow> r\<lparr>rg_dynamic := AList.update name node (rg_dynamic r)\<rparr>)
      in bindE (record_heartbeat now name r1) (\<lambda>r2. Inr (save_state r2)))"

text \<open>An update without a key keeps the key the node has.\<close>

definition update_node :: "string \<Rightarrow> node_config \<Rightarrow> registry \<Rightarrow> exn + (node_config \<times> registry)" where
  "update_node name node r =
     bindE (get_node r name) (\<lambda>existing.
     let merged = node\<lparr>nc_api_key := (if no_secret (nc_api_key node) then nc_api_key existing
                                      else nc_api_key node)\<rparr> in
     if name \<in> fst ` set (rg_dynamic r)
     then Inr (merged, save_state (r\<lparr>rg_dynamic := AList.update name merged (rg_dynamic r)\<rparr>))
     else (case map_of (rg_config r) name of
         Some configured \<Rightarrow>
           (let m = static_node_override merged configured in
            Inr (m, save_state (r\<lparr>rg_overrides := AList.update name m (rg_overrides r)\<rparr>)))
       | None \<Rightarrow> Inr (merged, save_state (r\<lparr>rg_overrides := AList.update name merged (rg_overrides r)\<rparr>))))"

section \<open>Heartbeats\<close>

text \<open>\<open>int\<close> cuts the seconds towards zero; a heartbeat from the future has age 0.\<close>

definition heartbeat_age_seconds :: "instant \<Rightarrow> registry \<Rightarrow> string \<Rightarrow> int option" where
  "heartbeat_age_seconds now r name =
     (case map_of (rg_heartbeats r) name of
        Some (Some last_beat) \<Rightarrow> Some (if now \<le> last_beat then 0 else (now - last_beat) div 1000000)
      | _ \<Rightarrow> None)"

definition is_heartbeat_fresh :: "instant \<Rightarrow> registry \<Rightarrow> string \<Rightarrow> bool" where
  "is_heartbeat_fresh now r name =
     (case heartbeat_age_seconds now r name of
        None \<Rightarrow> name \<in> fst ` set (rg_config r) | Some age \<Rightarrow> age \<le> rg_heartbeat_timeout r)"

record node_payload =
  np_name :: string
  np_url :: string
  np_verify_tls :: bool
  np_dynamic :: bool
  np_last_heartbeat :: "instant option"
  np_age :: "int option"
  np_fresh :: bool

definition node_payload_of :: "instant \<Rightarrow> registry \<Rightarrow> string \<Rightarrow> node_config \<Rightarrow> node_payload" where
  "node_payload_of now r name node =
     \<lparr>np_name = name, np_url = nc_url node, np_verify_tls = nc_verify_tls node,
      np_dynamic = (name \<in> fst ` set (rg_dynamic r)),
      np_last_heartbeat = (case map_of (rg_heartbeats r) name of Some b \<Rightarrow> b | None \<Rightarrow> None),
      np_age = heartbeat_age_seconds now r name, np_fresh = is_heartbeat_fresh now r name\<rparr>"

definition list_nodes :: "instant \<Rightarrow> registry \<Rightarrow> node_payload list" where
  "list_nodes now r = map (\<lambda>(name, node). node_payload_of now r name node) (sort_key fst (all_node_configs r))"

section \<open>Summaries and diagnostics\<close>

definition cache_model_snapshots :: "pydict list \<Rightarrow> registry \<Rightarrow> registry" where
  "cache_model_snapshots snapshots r =
     r\<lparr>rg_snapshots := dmerge [] (concat (map (\<lambda>s. case dget s ''name'' of PStr n \<Rightarrow> [(n, s)] | _ \<Rightarrow> []) snapshots))\<rparr>"

record node_summary =
  sm_name :: string
  sm_reachable :: bool
  sm_models_total :: "nat option"
  sm_models_running :: "nat option"
  sm_primary :: "string option"

definition model_runs :: "pyval \<Rightarrow> bool" where
  "model_runs m = (case m of PDict d \<Rightarrow> dget d ''running'' = PBool True \<or> py_eq (dget d ''status'') (PStr ''running'')
     | _ \<Rightarrow> False)"

definition node_summary_of :: "registry \<Rightarrow> node_payload \<Rightarrow> node_summary" where
  "node_summary_of r p =
     (let cached = map_of (rg_snapshots r) (np_name p);
          models = (case cached of Some c \<Rightarrow> (case dget c ''models'' of PList xs \<Rightarrow> Some xs | _ \<Rightarrow> None) | None \<Rightarrow> None);
          running = filter model_runs (case models of None \<Rightarrow> [] | Some xs \<Rightarrow> xs);
          primary = (case running of m # _ \<Rightarrow> m | [] \<Rightarrow> (case models of Some (m # _) \<Rightarrow> m | _ \<Rightarrow> PNone))
      in \<lparr>sm_name = np_name p,
          sm_reachable = (np_fresh p \<and> (case cached of Some c \<Rightarrow> dget c ''reachable'' \<noteq> PBool False | None \<Rightarrow> True)),
          sm_models_total = map_option length models,
          sm_models_running = map_option (\<lambda>_. length running) models,
          sm_primary = (case primary of PDict d \<Rightarrow> (case dget d ''name'' of PStr n \<Rightarrow> Some n | _ \<Rightarrow> None) | _ \<Rightarrow> None)\<rparr>)"

definition node_summaries :: "instant \<Rightarrow> registry \<Rightarrow> node_summary list" where
  "node_summaries now r = map (node_summary_of r) (list_nodes now r)"

definition key_source :: "registry \<Rightarrow> string \<Rightarrow> node_config \<Rightarrow> string" where
  "key_source r name effective =
     (let has = (\<lambda>t. case map_of t name of None \<Rightarrow> False | Some n \<Rightarrow> \<not> no_secret (nc_api_key n)) in
      if no_secret (nc_api_key effective) then ''missing''
      else if has (rg_overrides r) then ''override''
      else if has (rg_config r) then ''config''
      else if name \<in> fst ` set (rg_dynamic r) then ''dynamic''
      else ''missing'')"

definition node_auth_diagnostics :: "registry \<Rightarrow> exn + (string \<times> string \<times> string) list" where
  "node_auth_diagnostics r =
     foldE (\<lambda>name acc. bindE (get_node r name) (\<lambda>n. Inr (acc @ [(name, nc_url n, key_source r name n)])))
       (sort (remdups (map fst (rg_config r) @ map fst (rg_overrides r) @ map fst (rg_dynamic r)))) []"

section \<open>Requests\<close>

record node_request =
  nr_method :: string
  nr_url :: string
  nr_key :: "string option"
  nr_verify_tls :: bool
  nr_body :: "pydict option"

text \<open>What is sent to a node; \<open>allowed\<close> is the network policy.\<close>

definition node_request_of ::
  "(string \<Rightarrow> bool) \<Rightarrow> registry \<Rightarrow> string \<Rightarrow> string \<Rightarrow> string \<Rightarrow> pydict option \<Rightarrow> exn + node_request" where
  "node_request_of allowed r name meth path body =
     bindE (get_node r name) (\<lambda>node.
     bindE (validated_base_url name (nc_url node)) (\<lambda>base.
     let url = base @ ''/'' @ strip_left CHR ''/'' path in
     if allowed url
     then Inr \<lparr>nr_method = meth, nr_url = url, nr_key = nc_api_key node, nr_verify_tls = nc_verify_tls node,
               nr_body = body\<rparr>
     else Inl (Exn ''OfflineNetworkBlockedError'' url)))"

text \<open>The check of the routes that nodes use to fetch and report work (\<open>api/routes/node_work.py\<close>).\<close>

definition enforce_node_work_auth :: "registry \<Rightarrow> string \<Rightarrow> string \<Rightarrow> (nat \<times> string) + unit" where
  "enforce_node_work_auth r name provided =
     (case get_node r name of
        Inl e \<Rightarrow> Inl (404, ''Unknown node: '' @ name)
      | Inr node \<Rightarrow>
          if no_secret (nc_api_key node) then Inl (401, ''Node work API key is required'')
          else if provided = [] \<or> Some provided \<noteq> nc_api_key node then Inl (401, ''Unauthorized'')
          else Inr ())"

end
