(* ===== verification/Registry_Safety.thy ===== *)
theory Registry_Safety
  imports Node_Registry
begin

text \<open>
  Under one configuration the registry is consistent and survives restarts. When the
  configuration changes between two starts it is not: the last section shows two ways in which
  a saved node is lost or shadowed.
\<close>

section \<open>Overrides are settled\<close>

lemma lower_scheme_char: "scheme_char c \<Longrightarrow> scheme_char (lower_char c)"
  by (auto simp: scheme_char_def lower_char_def Let_def char_nat_def)

lemma lower_letter: "ascii_letter c \<Longrightarrow> ascii_letter (lower_char c) \<and> lower_char (lower_char c) = lower_char c"
  by (auto simp: ascii_letter_def lower_char_def Let_def char_nat_def)

lemma lower_twice: "scheme_char c \<Longrightarrow> lower_char (lower_char c) = lower_char c"
  by (auto simp: scheme_char_def lower_char_def Let_def char_nat_def)

lemma scheme_char_plain: "scheme_char c \<Longrightarrow> c \<noteq> CHR '':'' \<and> char_nat c > 32"
  by (auto simp: scheme_char_def Let_def char_nat_def)

lemma partition_on_hit: "c \<notin> set a \<Longrightarrow> partition_on c (a @ c # b) = (a, [c], b)"
  by (induction a) (auto simp: partition_on_def split: list.splits)

lemma url_scheme_cases:
  obtains "url_scheme url = []"
  | a where "url_scheme url = map lower_char a" "a \<noteq> []" "ascii_letter (hd a)" "list_all scheme_char a"
proof -
  obtain a sep b where p: "partition_on CHR '':'' (url_clean url) = (a, sep, b)" by (metis prod_cases3)
  show thesis
  proof (cases "sep \<noteq> [] \<and> a \<noteq> [] \<and> ascii_letter (hd a) \<and> list_all scheme_char a")
    case True
    then show thesis using that(2) [of a] by (simp add: url_scheme_def p lower_def)
  next
    case False
    then show thesis using that(1) by (simp only: url_scheme_def p prod.case if_False)
  qed
qed

lemma url_clean_scheme:
  assumes "list_all scheme_char a" "a \<noteq> []"
  shows "\<exists>rest. url_clean (a @ '':'' @ s) = a @ CHR '':'' # rest"
proof -
  obtain c a' where a: "a = c # a'" using assms(2) by (cases a) auto
  have "dropWhile (\<lambda>c. char_nat c \<le> 32) (a @ '':'' @ s) = a @ '':'' @ s"
    using assms scheme_char_plain [of c] by (simp add: a)
  moreover have "filter (\<lambda>c. char_nat c \<notin> {9, 10, 13}) a = a"
    using assms(1) by (induction a) (auto dest!: scheme_char_plain)
  moreover have "filter (\<lambda>c. char_nat c \<notin> {9, 10, 13}) (CHR '':'' # s) =
      CHR '':'' # filter (\<lambda>c. char_nat c \<notin> {9, 10, 13}) s"
    by (simp add: char_nat_def)
  ultimately have "url_clean (a @ '':'' @ s) = a @ CHR '':'' # filter (\<lambda>c. char_nat c \<notin> {9, 10, 13}) s"
    by (simp add: url_clean_def)
  then show ?thesis by blast
qed

lemma url_scheme_prefix:
  assumes "url_scheme u \<noteq> []"
  shows "url_scheme (url_scheme u @ ''://'' @ s) = url_scheme u"
proof (rule url_scheme_cases [of u])
  assume "url_scheme u = []"
  with assms show ?thesis by simp
next
  fix a
  assume a: "url_scheme u = map lower_char a" "a \<noteq> []" "ascii_letter (hd a)" "list_all scheme_char a"
  let ?b = "map lower_char a"
  have b: "list_all scheme_char ?b" "?b \<noteq> []" "ascii_letter (hd ?b)"
    using a lower_letter by (auto simp: list_all_iff hd_map intro: lower_scheme_char)
  obtain rest where r: "url_clean (?b @ '':'' @ (''//'' @ s)) = ?b @ CHR '':'' # rest"
    using url_clean_scheme [OF b(1,2)] by blast
  have nc: "CHR '':'' \<notin> set ?b" using b(1) scheme_char_plain by (metis list_all_iff)
  have "map lower_char ?b = ?b" using a(4) by (auto simp: list_all_iff lower_twice)
  then have "url_scheme (?b @ '':'' @ (''//'' @ s)) = ?b"
    using b unfolding url_scheme_def r partition_on_hit [OF nc] by (simp add: lower_def)
  then show ?thesis by (simp add: a(1))
qed

lemma inherit_twice: "inherit_url_scheme (inherit_url_scheme u f) f = inherit_url_scheme u f"
  using url_scheme_prefix [of f "strip_left CHR ''/'' u"] by (auto simp: inherit_url_scheme_def)

lemma override_twice:
  "static_node_override (static_node_override node c) c = static_node_override node c"
  by (simp add: static_node_override_def inherit_twice coalesce_secret_def)

section \<open>The invariant\<close>

inductive registry_step :: "registry \<Rightarrow> registry \<Rightarrow> bool" where
  register: "register_node now name node r = Inr r' \<Longrightarrow> registry_step r r'"
| update: "update_node name node r = Inr (m, r') \<Longrightarrow> registry_step r r'"
| beat: "record_heartbeat now name r = Inr r' \<Longrightarrow> registry_step r r'"
| cache: "registry_step r (cache_model_snapshots snaps r)"
| restart: "registry_step r (new_registry (rg_config r) (rg_heartbeat_timeout r) (rg_saved r))"

definition current_state :: "registry \<Rightarrow> node_state" where
  "current_state r = \<lparr>ns_dynamic = rg_dynamic r, ns_overrides = rg_overrides r, ns_heartbeats = rg_heartbeats r\<rparr>"

definition settled :: "node_table \<Rightarrow> string \<times> node_config \<Rightarrow> bool" where
  "settled config = (\<lambda>(name, node). \<exists>c. map_of config name = Some c \<and> static_node_override node c = node)"

definition tables_ok :: "registry \<Rightarrow> bool" where
  "tables_ok r \<longleftrightarrow> rg_saved r \<noteq> None \<and>
     distinct (map fst (rg_config r)) \<and> distinct (map fst (rg_dynamic r)) \<and>
     distinct (map fst (rg_overrides r)) \<and> distinct (map fst (rg_heartbeats r)) \<and>
     list_all (\<lambda>x. map_of (rg_config r) (fst x) = None) (rg_dynamic r) \<and>
     list_all (settled (rg_config r)) (rg_overrides r)"

definition registry_inv :: "registry \<Rightarrow> bool" where
  "registry_inv r \<longleftrightarrow> tables_ok r \<and> rg_saved r = Some (current_state r)"

lemma set_update: "set (AList.update k v xs) \<subseteq> insert (k, v) (set xs)"
  by (induction xs) auto

lemma save_state_simps [simp]:
  "rg_config (save_state r) = rg_config r" "rg_dynamic (save_state r) = rg_dynamic r"
  "rg_overrides (save_state r) = rg_overrides r" "rg_heartbeats (save_state r) = rg_heartbeats r"
  "rg_saved r \<noteq> None \<Longrightarrow> rg_saved (save_state r) = Some (current_state (save_state r))"
  by (auto simp: save_state_def current_state_def split: option.splits)

lemma registry_inv_save: "tables_ok r \<Longrightarrow> registry_inv (save_state r)"
  using save_state_simps(5) [of r] by (simp add: registry_inv_def tables_ok_def)

lemma settled_update:
  "list_all (settled cfg) xs \<Longrightarrow> settled cfg (k, v) \<Longrightarrow> list_all (settled cfg) (AList.update k v xs)"
  using set_update [of k v xs] by (auto simp: list_all_iff)

lemma list_all_delete: "list_all p xs \<Longrightarrow> list_all p (AList.delete k xs)"
  by (induction xs) (auto simp: AList.delete_eq)

lemma list_all_update: "list_all p xs \<Longrightarrow> p (k, v) \<Longrightarrow> list_all p (AList.update k v xs)"
  using set_update [of k v xs] by (auto simp: list_all_iff)

lemma settled_override: "map_of cfg k = Some c \<Longrightarrow> settled cfg (k, static_node_override n c)"
  by (simp add: settled_def override_twice)

lemma inv_record_heartbeat:
  "tables_ok r \<Longrightarrow> record_heartbeat now name r = Inr r' \<Longrightarrow> registry_inv r'"
  by (auto simp: record_heartbeat_def bindE_Inr tables_ok_def intro!: registry_inv_save distinct_update)

lemma inv_register:
  assumes "registry_inv r" "register_node now name node r = Inr r'"
  shows "registry_inv r'"
proof -
  define r1 where "r1 = (case map_of (rg_config r) name of
      Some configured \<Rightarrow>
        r\<lparr>rg_overrides := AList.update name (static_node_override node configured) (rg_overrides r),
          rg_dynamic := AList.delete name (rg_dynamic r)\<rparr>
    | None \<Rightarrow> r\<lparr>rg_dynamic := AList.update name node (rg_dynamic r)\<rparr>)"
  obtain r2 where r2: "record_heartbeat now name r1 = Inr r2" "r' = save_state r2"
    using assms(2) by (auto simp: register_node_def r1_def [symmetric] Let_def bindE_Inr)
  have "tables_ok r1"
    using assms(1) by (cases "map_of (rg_config r) name")
      (simp_all add: r1_def registry_inv_def tables_ok_def distinct_update distinct_delete
        list_all_delete list_all_update settled_override)
  then have "registry_inv r2" using inv_record_heartbeat r2(1) by blast
  then show ?thesis unfolding r2(2) by (simp add: registry_inv_def [of r2] registry_inv_save)
qed

lemma known_node:
  assumes "tables_ok r" "get_node r name = Inr node"
  shows "name \<in> fst ` set (rg_dynamic r) \<or> (\<exists>c. map_of (rg_config r) name = Some c)"
proof -
  consider "map_of (rg_overrides r) name = Some node" | "map_of (rg_config r) name = Some node"
    | "map_of (rg_dynamic r) name = Some node"
    using assms(2) by (auto simp: get_node_def split: option.splits)
  then show ?thesis
  proof cases
    case 1
    then have "settled (rg_config r) (name, node)"
      using assms(1) map_of_SomeD by (fastforce simp: tables_ok_def list_all_iff)
    then show ?thesis by (auto simp: settled_def)
  next
    case 2
    then show ?thesis by blast
  next
    case 3
    then show ?thesis by (auto dest!: map_of_SomeD intro: rev_image_eqI)
  qed
qed

lemma inv_update:
  assumes "registry_inv r" "update_node name node r = Inr (m, r')"
  shows "registry_inv r'"
proof -
  have t: "tables_ok r" using assms(1) by (simp add: registry_inv_def)
  obtain existing where e: "get_node r name = Inr existing" using assms(2) by (auto simp: update_node_def bindE_Inr)
  show ?thesis
  proof (cases "name \<in> fst ` set (rg_dynamic r)")
    case True
    then have "map_of (rg_config r) name = None"
      using t by (auto simp: tables_ok_def list_all_iff)
    with True t show ?thesis using assms(2)
      by (auto simp: update_node_def bindE_Inr Let_def tables_ok_def distinct_update list_all_update intro!: registry_inv_save)
  next
    case False
    then obtain c where c: "map_of (rg_config r) name = Some c"
      using known_node [OF t e] by blast
    with False t show ?thesis using assms(2)
      by (auto simp: update_node_def bindE_Inr Let_def tables_ok_def distinct_update list_all_update settled_override
          intro!: registry_inv_save)
  qed
qed


section \<open>Restarts\<close>

lemma update_new: "k \<notin> fst ` set xs \<Longrightarrow> AList.update k v xs = xs @ [(k, v)]"
  by (induction xs) auto

lemma dmerge_new: "distinct (map fst (a @ b)) \<Longrightarrow> dmerge a b = a @ b"
  by (induction b arbitrary: a) (auto simp: dmerge_Cons update_new)

lemma adopt_new:
  assumes "list_all (\<lambda>x. map_of cfg (fst x) = None) saved"
  shows "adopt_dynamic cfg saved = (dmerge [] saved, [])"
proof -
  have "fold (\<lambda>(name, node) (loaded, overrides). case map_of cfg name of
          Some configured \<Rightarrow> (loaded, AList.update name (f node configured) overrides)
        | None \<Rightarrow> (AList.update name node loaded, overrides)) saved (acc, []) = (dmerge acc saved, [])" for f acc
    using assms by (induction saved arbitrary: acc) (auto simp: dmerge_Cons)
  then show ?thesis unfolding adopt_dynamic_def .
qed

lemma load_settled:
  assumes "list_all (settled cfg) saved"
  shows "load_overrides cfg saved = dmerge [] saved"
proof -
  have "fold (\<lambda>(name, node) overrides. AList.update name
        (case map_of cfg name of Some configured \<Rightarrow> static_node_override node configured | None \<Rightarrow> node)
        overrides) saved acc = dmerge acc saved" for acc
    using assms by (induction saved arbitrary: acc) (auto simp: dmerge_Cons settled_def)
  then show ?thesis unfolding load_overrides_def .
qed

lemma load_current:
  assumes "tables_ok r" "rg_saved r = Some (current_state r)"
  shows "new_registry (rg_config r) (rg_heartbeat_timeout r) (rg_saved r) = r\<lparr>rg_snapshots := []\<rparr>"
  using assms by (cases r)
    (simp add: new_registry_def load_state_def current_state_def tables_ok_def adopt_new load_settled dmerge_new)

definition fresh_state :: node_state where
  "fresh_state = \<lparr>ns_dynamic = [], ns_overrides = [], ns_heartbeats = []\<rparr>"

lemma inv_new: "distinct (map fst cfg) \<Longrightarrow> registry_inv (new_registry cfg timeout (Some fresh_state))"
  by (simp add: new_registry_def load_state_def fresh_state_def registry_inv_def tables_ok_def current_state_def
      adopt_new load_settled)

lemma inv_registry_step:
  assumes "registry_inv r" "registry_step r r'"
  shows "registry_inv r'"
  using assms(2)
proof cases
  case restart
  then have "new_registry (rg_config r) (rg_heartbeat_timeout r) (rg_saved r) = r\<lparr>rg_snapshots := []\<rparr>"
    using assms(1) by (intro load_current) (auto simp: registry_inv_def)
  then show ?thesis using restart assms(1) by (simp add: registry_inv_def tables_ok_def current_state_def)
next
  case beat
  then show ?thesis using assms(1) inv_record_heartbeat by (auto simp: registry_inv_def [of r])
next
  case cache
  then show ?thesis using assms(1) by (simp add: cache_model_snapshots_def registry_inv_def tables_ok_def current_state_def)
qed (use assms(1) inv_register inv_update in blast)+

interpretation registry: inductive_invariant
  "\<lambda>r. \<exists>cfg timeout. distinct (map fst cfg) \<and> r = new_registry cfg timeout (Some fresh_state)"
  registry_step registry_inv
  by unfold_locales (auto intro: inv_new inv_registry_step)

lemma dmerge_disjoint:
  assumes "registry_inv r"
  shows "map_of (all_node_configs r) name =
    (case map_of (rg_overrides r) name of Some n \<Rightarrow> Some n | None \<Rightarrow>
     (case map_of (rg_config r) name of Some n \<Rightarrow> Some n | None \<Rightarrow> map_of (rg_dynamic r) name))"
proof -
  have t: "tables_ok r" using assms by (simp add: registry_inv_def)
  have m: "map_of (all_node_configs r) = map_of (rg_config r) ++ map_of (rg_overrides r) ++ map_of (rg_dynamic r)"
    using t by (simp add: all_node_configs_def map_of_dmerge tables_ok_def)
  have o: "map_of (rg_overrides r) name = Some n \<Longrightarrow> map_of (rg_config r) name \<noteq> None" for n
    using t map_of_SomeD [of "rg_overrides r" name n] by (fastforce simp: tables_ok_def list_all_iff settled_def)
  have d: "map_of (rg_dynamic r) name = Some n \<Longrightarrow> map_of (rg_config r) name = None" for n
    using t map_of_SomeD [of "rg_dynamic r" name n] by (fastforce simp: tables_ok_def list_all_iff)
  show ?thesis using o d by (auto simp: m map_add_def split: option.splits)
qed

section \<open>Properties\<close>

definition demo_registry_config :: node_table where
  "demo_registry_config = [(''a'', \<lparr>nc_url = ''https://a'', nc_api_key = Some ''k'', nc_verify_tls = True,
     nc_default_model = None, nc_request_types = [], nc_max_running = None\<rparr>)]"

definition plain_node :: "string \<Rightarrow> node_config" where
  "plain_node url = \<lparr>nc_url = url, nc_api_key = Some ''s'', nc_verify_tls = True,
     nc_default_model = None, nc_request_types = [], nc_max_running = None\<rparr>"

definition run_registry :: "registry \<Rightarrow> registry" where
  "run_registry r = (case register_node 5 ''b'' (plain_node ''http://b'') r of Inl _ \<Rightarrow> r
     | Inr r1 \<Rightarrow> (case register_node 7 ''a'' (plain_node ''a.lan'') r1 of Inl _ \<Rightarrow> r1 | Inr r2 \<Rightarrow> r2))"

text \<open>C19. Whatever was registered, updated, reported or restarted, as long as the configuration is
  the same: the table of all nodes that the listings show and the lookup that every request goes
  through agree on every name, although they combine the three tables in different orders.\<close>

theorem registry_consistent:
  assumes "distinct (map fst cfg)" "registry_step\<^sup>*\<^sup>* (new_registry cfg timeout (Some fresh_state)) r"
  shows "map_of (all_node_configs r) name = (case get_node r name of Inr n \<Rightarrow> Some n | Inl _ \<Rightarrow> None)"
proof -
  have "registry_inv r" using assms by (intro registry.inv_reachable) auto
  then show ?thesis by (simp add: dmerge_disjoint get_node_def split: option.splits)
qed

text \<open>C20. A restart with the same configuration loses nothing but the cached model snapshots: the
  registry loaded from the saved state is the registry that was saved, with its dynamic nodes,
  its overrides (settling an override twice changes nothing) and its heartbeats.\<close>

theorem restart_keeps_registry:
  assumes "distinct (map fst cfg)" "registry_step\<^sup>*\<^sup>* (new_registry cfg timeout (Some fresh_state)) r"
  shows "new_registry (rg_config r) (rg_heartbeat_timeout r) (rg_saved r) = r\<lparr>rg_snapshots := []\<rparr>"
proof -
  have "registry_inv r" using assms by (intro registry.inv_reachable) auto
  then show ?thesis by (intro load_current) (auto simp: registry_inv_def)
qed

lemma run_registry_steps:
  "registry_step\<^sup>*\<^sup>* r (run_registry r)"
  by (auto simp: run_registry_def intro: registry_step.register rtranclp.intros converse_rtranclp_into_rtranclp
      split: sum.splits)

definition demo_registry :: registry where
  "demo_registry = run_registry (new_registry demo_registry_config 30 (Some fresh_state))"

lemma demo_registry_reached:
  "registry_step\<^sup>*\<^sup>* (new_registry demo_registry_config 30 (Some fresh_state)) demo_registry"
  by (simp add: demo_registry_def run_registry_steps)

theorem registry_consistent_witness:
  "get_node demo_registry ''a'' = Inr ((plain_node ''https://a.lan'')) \<and>
   map_of (all_node_configs demo_registry) ''a'' = Some (plain_node ''https://a.lan'')"
proof -
  have g: "get_node demo_registry ''a'' = Inr ((plain_node ''https://a.lan''))" by code_simp
  with registry_consistent [OF _ demo_registry_reached, of "''a''"] show ?thesis
    by (simp add: demo_registry_config_def)
qed

theorem restart_keeps_registry_witness:
  "rg_dynamic demo_registry = [(''b'', plain_node ''http://b'')] \<and>
   new_registry demo_registry_config 30 (rg_saved demo_registry) = demo_registry\<lparr>rg_snapshots := []\<rparr>"
proof -
  have c: "rg_config demo_registry = demo_registry_config \<and> rg_heartbeat_timeout demo_registry = 30 \<and>
      rg_dynamic demo_registry = [(''b'', plain_node ''http://b'')]" by code_simp
  with restart_keeps_registry [OF _ demo_registry_reached] show ?thesis
    by (simp add: demo_registry_config_def)
qed

section \<open>When the configuration changes\<close>

text \<open>A node that registered itself and was later written into the configuration: the start
  prepares an override with the address and key it registered with, and then replaces all overrides
  by the saved ones. Requests go to the configured address, the registered one is lost, at once and
  in every later save.\<close>

lemma adopted_node_is_forgotten:
  "let saved = \<lparr>ns_dynamic = [(''a'', plain_node ''http://a:9'')], ns_overrides = [], ns_heartbeats = []\<rparr>;
       r = new_registry demo_registry_config 30 (Some saved) in
   map_of (snd (adopt_dynamic demo_registry_config (ns_dynamic saved))) ''a'' = Some (plain_node ''http://a:9'') \<and>
   get_node r ''a'' = Inr (the (map_of demo_registry_config ''a'')) \<and>
   rg_overrides r = [] \<and> rg_dynamic r = []"
  by code_simp

text \<open>A configured node that changed its address is dropped from the configuration and registers
  itself again with a new address: the listings show the new address and key, and every request
  still goes to the old address with the old key.\<close>

theorem stale_override_wins:
  "let saved = \<lparr>ns_dynamic = [], ns_overrides = [(''a'', plain_node ''http://old'')], ns_heartbeats = []\<rparr> in
   case register_node 5 ''a'' (plain_node ''http://new'') (new_registry [] 30 (Some saved)) of
     Inl _ \<Rightarrow> False
   | Inr r \<Rightarrow> map np_url (list_nodes 6 r) = [''http://new''] \<and>
       map_sum id nr_url (node_request_of (\<lambda>_. True) r ''a'' ''GET'' ''/x'' None) = Inr ''http://old/x''"
  by code_simp

text \<open>A node that registers with an address without scheme inherits the configured one, unless it
  gives a port: what is before the colon of \<open>host:port\<close> is then taken for a scheme. The registration
  is accepted, and every request to the node fails.\<close>

theorem port_hides_scheme:
  "let r = new_registry demo_registry_config 30 (Some fresh_state);
       send = (\<lambda>url. bindE (register_node 5 ''a'' (plain_node url) r) (\<lambda>r.
                 map_sum id nr_url (node_request_of (\<lambda>_. True) r ''a'' ''GET'' ''/x'' None))) in
   send ''a.lan'' = Inr ''https://a.lan/x'' \<and>
   send ''a.lan:90'' = Inl (Exn ''ValueError''
     (''nodes.a.url must start with http:// or https:// (resolved value: '' @ str_repr ''a.lan:90'' @ '')''))"
  by code_simp

end
