(* ===== verification/Plugin_Bus.thy ===== *)
theory Plugin_Bus
  imports Py_Text
begin

text \<open>
  What plugins may hook into (\<open>core/plugins/hooks.py\<close>, \<open>core/plugins/events.py\<close>): policy hooks,
  which can veto an operation, and the event bus, whose subscribers are told and cannot interfere.

  A handler is code of a plugin: \<open>call h x\<close> is what it does to the world and what it returns or
  raises, its own timeout included. A health recorder that is not set is \<open>None\<close>.
\<close>

record health_note =
  hn_plugin :: string
  hn_level :: string
  hn_message :: string

definition note_health :: "string \<Rightarrow> string \<Rightarrow> string \<Rightarrow> health_note list option \<Rightarrow> health_note list option" where
  "note_health p level m notes =
     map_option (\<lambda>ns. ns @ [\<lparr>hn_plugin = p, hn_level = level, hn_message = m\<rparr>]) notes"

text \<open>Both registries are dictionaries from a name to the handlers and their owners.\<close>

type_synonym 'h handlers = "(string \<times> (string \<times> 'h) list) list"

definition handlers_of :: "'h handlers \<Rightarrow> string \<Rightarrow> (string \<times> 'h) list" where
  "handlers_of hs name = (case map_of hs name of None \<Rightarrow> [] | Some xs \<Rightarrow> xs)"

definition add_policy_hook :: "string \<Rightarrow> string \<Rightarrow> 'h \<Rightarrow> 'h handlers \<Rightarrow> 'h handlers" where
  "add_policy_hook plugin_id hook_name h hs =
     AList.update hook_name (handlers_of hs hook_name @ [(plugin_id, h)]) hs"

definition subscribe :: "string \<Rightarrow> string \<Rightarrow> 'h \<Rightarrow> 'h handlers \<Rightarrow> 'h handlers" where
  "subscribe plugin_id event_type h hs =
     AList.update event_type (handlers_of hs event_type @ [(plugin_id, h)]) hs"

definition remove_plugin :: "string \<Rightarrow> 'h handlers \<Rightarrow> 'h handlers" where
  "remove_plugin plugin_id hs =
     filter (\<lambda>(_, xs). xs \<noteq> []) (map (\<lambda>(name, xs). (name, filter (\<lambda>(owner, _). owner \<noteq> plugin_id) xs)) hs)"

section \<open>Policy hooks\<close>

definition hook_message :: "pydict \<Rightarrow> string" where
  "hook_message d =
     (let m = dget d ''message''; r = dget d ''reason'' in
      py_str (if truthy m then m else if truthy r then r else PStr ''Rejected by policy hook''))"

text \<open>The first handler that raises or rejects decides; the ones after it are not called.\<close>

fun run_hooks :: "('h \<Rightarrow> pydict \<Rightarrow> ('w, pyval) eff) \<Rightarrow> (string \<times> 'h) list \<Rightarrow> pydict \<Rightarrow>
    ('w \<times> health_note list option, unit) eff" where
  "run_hooks call [] payload = ret ()"
| "run_hooks call ((plugin_id, h) # hs) payload = (\<lambda>(w, notes).
     case call h payload w of
       (Inl e, w1) \<Rightarrow> (Inl (Exn ''PolicyHookRejected'' (exn_text e)),
                      (w1, note_health plugin_id ''error'' (exn_text e) notes))
     | (Inr result, w1) \<Rightarrow>
         (case result of
            PDict d \<Rightarrow>
              if dget d ''allowed'' = PBool False
              then (Inl (Exn ''PolicyHookRejected'' (hook_message d)),
                    (w1, note_health plugin_id ''warning'' (hook_message d) notes))
              else run_hooks call hs payload (w1, notes)
          | _ \<Rightarrow> run_hooks call hs payload (w1, notes)))"

definition run_policy_hooks :: "('h \<Rightarrow> pydict \<Rightarrow> ('w, pyval) eff) \<Rightarrow> 'h handlers \<Rightarrow> string \<Rightarrow> pydict \<Rightarrow>
    ('w \<times> health_note list option, unit) eff" where
  "run_policy_hooks call hs hook_name payload = run_hooks call (handlers_of hs hook_name) payload"

section \<open>Events\<close>

record event_envelope =
  ev_id :: string
  ev_type :: string
  ev_correlation :: "string option"
  ev_actor :: pydict
  ev_payload :: pydict

record 'h event_bus =
  eb_subscribers :: "'h handlers"
  eb_locks :: "string list"

fun tell :: "('h \<Rightarrow> event_envelope \<Rightarrow> ('w, unit) eff) \<Rightarrow> (string \<times> 'h) list \<Rightarrow> event_envelope \<Rightarrow>
    'w \<times> health_note list option \<Rightarrow> 'w \<times> health_note list option" where
  "tell call [] ev s = s"
| "tell call ((plugin_id, h) # hs) ev s =
     (case s of (w, notes) \<Rightarrow>
       (case call h ev w of
          (Inl e, w1) \<Rightarrow> tell call hs ev (w1, note_health plugin_id ''error'' (exn_text e) notes)
        | (Inr _, w1) \<Rightarrow> tell call hs ev (w1, notes)))"

text \<open>The lock of a key is made when the key is first used, and stays.\<close>

definition event_key :: "event_envelope \<Rightarrow> string" where
  "event_key ev = (case ev_correlation ev of Some (c # cs) \<Rightarrow> c # cs | _ \<Rightarrow> ev_id ev)"

definition emit_event :: "('h \<Rightarrow> event_envelope \<Rightarrow> ('w, unit) eff) \<Rightarrow> event_envelope \<Rightarrow> 'h event_bus \<Rightarrow>
    'w \<times> health_note list option \<Rightarrow> 'h event_bus \<times> 'w \<times> health_note list option" where
  "emit_event call ev bus s =
     (bus\<lparr>eb_locks := (if event_key ev \<in> set (eb_locks bus) then eb_locks bus else eb_locks bus @ [event_key ev])\<rparr>,
      tell call (handlers_of (eb_subscribers bus) (ev_type ev)) ev s)"

section \<open>What they guarantee\<close>

lemma handlers_of_add:
  "handlers_of (add_policy_hook p n h hs) m = handlers_of hs m @ (if m = n then [(p, h)] else [])"
  by (simp add: handlers_of_def add_policy_hook_def update_conv')

lemma handlers_of_subscribe:
  "handlers_of (subscribe p n h hs) m = handlers_of hs m @ (if m = n then [(p, h)] else [])"
  by (simp add: handlers_of_def subscribe_def update_conv')

lemma handlers_of_remove:
  "distinct (map fst hs) \<Longrightarrow>
   handlers_of (remove_plugin p hs) m = filter (\<lambda>(owner, _). owner \<noteq> p) (handlers_of hs m)"
proof (induction hs)
  case Nil
  then show ?case by (simp add: handlers_of_def remove_plugin_def)
next
  case (Cons x hs)
  obtain n xs where x: "x = (n, xs)" by (cases x)
  have none: "map_of (remove_plugin p hs) n = None"
    using Cons.prems by (auto simp: x remove_plugin_def map_of_eq_None_iff intro: rev_image_eqI)
  have "remove_plugin p (x # hs) =
    (if filter (\<lambda>(owner, _). owner \<noteq> p) xs \<noteq> [] then (n, filter (\<lambda>(owner, _). owner \<noteq> p) xs) # remove_plugin p hs
     else remove_plugin p hs)"
    by (simp add: remove_plugin_def x)
  then show ?case using Cons none by (auto simp: handlers_of_def x)
qed

text \<open>What a handler says when it is asked in a world: whether it lets the operation pass.\<close>

definition accepts :: "('h \<Rightarrow> pydict \<Rightarrow> ('w, pyval) eff) \<Rightarrow> 'h \<Rightarrow> pydict \<Rightarrow> 'w \<Rightarrow> bool" where
  "accepts call h payload w =
     (case fst (call h payload w) of
        Inl _ \<Rightarrow> False
      | Inr (PDict d) \<Rightarrow> dget d ''allowed'' \<noteq> PBool False
      | Inr _ \<Rightarrow> True)"

primrec worlds :: "('h \<Rightarrow> pydict \<Rightarrow> ('w, pyval) eff) \<Rightarrow> pydict \<Rightarrow> (string \<times> 'h) list \<Rightarrow> 'w \<Rightarrow> 'w" where
  "worlds call payload [] w = w"
| "worlds call payload (x # xs) w = worlds call payload xs (snd (call (snd x) payload w))"

lemma run_hooks_accepts:
  "run_hooks call (x # hs) payload (w, notes) =
     (if accepts call (snd x) payload w then run_hooks call hs payload (snd (call (snd x) payload w), notes)
      else (let m = (case fst (call (snd x) payload w) of
                       Inl e \<Rightarrow> (''error'', exn_text e)
                     | Inr (PDict d) \<Rightarrow> (''warning'', hook_message d) | Inr _ \<Rightarrow> ([], []))
            in (Inl (Exn ''PolicyHookRejected'' (snd m)),
                (snd (call (snd x) payload w), note_health (fst x) (fst m) (snd m) notes))))"
  by (cases x) (auto simp: accepts_def Let_def split: prod.splits sum.splits pyval.splits)

lemma run_hooks_iff:
  "fst (run_hooks call hs payload (w, notes)) = Inr () \<longleftrightarrow>
   (\<forall>as x bs. hs = as @ x # bs \<longrightarrow> accepts call (snd x) payload (worlds call payload as w))"
proof (induction hs arbitrary: w)
  case Nil
  then show ?case by (simp add: ret_def)
next
  case (Cons y hs)
  show ?case
  proof (cases "accepts call (snd y) payload w")
    case True
    let ?w1 = "snd (call (snd y) payload w)"
    have "(\<forall>as x bs. y # hs = as @ x # bs \<longrightarrow> accepts call (snd x) payload (worlds call payload as w)) \<longleftrightarrow>
      (\<forall>as x bs. hs = as @ x # bs \<longrightarrow> accepts call (snd x) payload (worlds call payload as ?w1))"
      (is "?l \<longleftrightarrow> ?r")
    proof
      assume ?l
      then show ?r by (metis append_Cons worlds.simps(2))
    next
      assume ?r
      then show ?l using True by (auto simp: Cons_eq_append_conv)
    qed
    then show ?thesis by (simp only: run_hooks_accepts True if_True Cons.IH)
  next
    case False
    then have "\<not> (\<forall>as x bs. y # hs = as @ x # bs \<longrightarrow> accepts call (snd x) payload (worlds call payload as w))"
      by (metis append_Nil worlds.simps(1))
    with False show ?thesis unfolding run_hooks_accepts by (simp add: Let_def)
  qed
qed

text \<open>A failing subscriber does not keep the others from being told.\<close>

lemma tell_world: "fst (tell call hs ev (w, ns)) = fold (\<lambda>x w. snd (call (snd x) ev w)) hs w"
  by (induction hs arbitrary: w ns) (auto split: prod.splits sum.splits)

lemma emit_keeps_locks:
  "event_key ev \<notin> set (eb_locks bus) \<Longrightarrow>
   length (eb_locks (fst (emit_event call ev bus s))) = Suc (length (eb_locks bus))"
  by (simp add: emit_event_def)

end
