(* ===== verification/Chat_Admission.thy ===== *)
theory Chat_Admission
  imports Plugin_Bus
begin

text \<open>
  Admission of chats (\<open>core/chat/scheduler.py\<close>): per target and per session, a limited number of
  chats run and a limited number wait.

  The code runs on one event loop, so it is interleaved only where it waits: for a permit of a
  semaphore, for the model server, for the reader of a stream. Each step below is what runs from one
  such point to the next. The lock around the table of limiters is never held while waiting. The
  semaphore is \<open>asyncio.Semaphore\<close> of Python 3.12: a permit goes to the first waiter, and who comes
  later waits as long as anybody does. An event keeps its type, model, session and reason; token
  counts and durations are left out.
\<close>

section \<open>Semaphores and limiters\<close>

text \<open>A waiter is marked once it was granted a permit, until it runs again.\<close>

record limiter =
  lm_value :: nat
  lm_waiters :: "(nat \<times> bool) list"
  lm_queued :: nat

definition locked :: "limiter \<Rightarrow> bool" where
  "locked l \<longleftrightarrow> lm_value l = 0 \<or> lm_waiters l \<noteq> []"

fun grant_first :: "(nat \<times> bool) list \<Rightarrow> (nat \<times> bool) list option" where
  "grant_first [] = None"
| "grant_first ((t, granted) # ws) =
     (if granted then map_option (\<lambda>ws'. (t, True) # ws') (grant_first ws) else Some ((t, True) # ws))"

definition wake_up_next :: "limiter \<Rightarrow> limiter option" where
  "wake_up_next l =
     map_option (\<lambda>ws. l\<lparr>lm_value := lm_value l - 1, lm_waiters := ws\<rparr>) (grant_first (lm_waiters l))"

definition sem_release :: "limiter \<Rightarrow> limiter" where
  "sem_release l =
     (let l1 = l\<lparr>lm_value := lm_value l + 1\<rparr> in
      case wake_up_next l1 of None \<Rightarrow> l1 | Some l2 \<Rightarrow> l2)"

function wake_all :: "limiter \<Rightarrow> limiter" where
  "wake_all l =
     (if lm_value l = 0 then l
      else (case wake_up_next l of None \<Rightarrow> l | Some l' \<Rightarrow> wake_all l'))"
  by pat_completeness auto

lemma wake_up_next_value: "wake_up_next l = Some l' \<Longrightarrow> lm_value l' = lm_value l - 1"
  by (auto simp: wake_up_next_def)

termination wake_all
  by (relation "measure lm_value") (auto dest: wake_up_next_value)

text \<open>A waiter leaves: it runs again with its permit, or it gives up, with or without a permit.\<close>

definition sem_resume :: "nat \<Rightarrow> limiter \<Rightarrow> limiter" where
  "sem_resume t l = wake_all (l\<lparr>lm_waiters := AList.delete t (lm_waiters l)\<rparr>)"

definition sem_give_up :: "nat \<Rightarrow> limiter \<Rightarrow> limiter" where
  "sem_give_up t l =
     wake_all (l\<lparr>lm_value := (if map_of (lm_waiters l) t = Some True then lm_value l + 1 else lm_value l),
                 lm_waiters := AList.delete t (lm_waiters l)\<rparr>)"

definition leave_queue :: "limiter \<Rightarrow> limiter" where
  "leave_queue l = l\<lparr>lm_queued := lm_queued l - 1\<rparr>"

section \<open>The scheduler\<close>

record limits =
  li_target_active :: nat
  li_target_queue :: nat
  li_session_active :: nat
  li_session_queue :: nat

definition scheduler_limits :: "int \<Rightarrow> int \<Rightarrow> int \<Rightarrow> int \<Rightarrow> limits" where
  "scheduler_limits ta tq sa sq =
     \<lparr>li_target_active = nat (max 1 ta), li_target_queue = nat (max 0 tq),
      li_session_active = nat (max 1 sa), li_session_queue = nat (max 0 sq)\<rparr>"

type_synonym limiters = "string \<Rightarrow> limiter option"

definition is_session_key :: "string \<Rightarrow> bool" where
  "is_session_key k = starts_with ''session:'' k"

definition capacity :: "limits \<Rightarrow> string \<Rightarrow> nat" where
  "capacity cfg k = (if is_session_key k then li_session_active cfg else li_target_active cfg)"

definition queue_limit :: "limits \<Rightarrow> string \<Rightarrow> nat" where
  "queue_limit cfg k = (if is_session_key k then li_session_queue cfg else li_target_queue cfg)"

definition limiter_of :: "limits \<Rightarrow> limiters \<Rightarrow> string \<Rightarrow> limiter" where
  "limiter_of cfg ls k =
     (case ls k of Some l \<Rightarrow> l | None \<Rightarrow> \<lparr>lm_value = capacity cfg k, lm_waiters = [], lm_queued = 0\<rparr>)"

definition target_key :: "string \<Rightarrow> pydict \<Rightarrow> string" where
  "target_key model payload =
     (let t = lower (strip (py_str (dget_or payload ''target'' (PStr ''auto'')))) in
      ''target:'' @ (if t = [] then ''auto'' else t) @ '':model:'' @ model)"

definition clean_payload :: "pydict \<Rightarrow> pydict \<times> string option" where
  "clean_payload payload =
     (let s = dget payload ''_admission_session_id'' in
      (AList.delete ''_admission_session_id'' payload, if truthy s then Some (py_str s) else None))"

definition admission_keys :: "string \<Rightarrow> pydict \<Rightarrow> string option \<Rightarrow> string list" where
  "admission_keys model payload session =
     target_key model payload # (case session of None \<Rightarrow> [] | Some s \<Rightarrow> [''session:'' @ s])"

text \<open>\<open>None\<close> is the answer 429; the limiter is in the table in either case.\<close>

definition reserve :: "limits \<Rightarrow> string \<Rightarrow> limiters \<Rightarrow> limiters \<times> limiter option" where
  "reserve cfg k ls =
     (let l = limiter_of cfg ls k in
      if locked l \<and> queue_limit cfg k \<le> lm_queued l then (ls(k \<mapsto> l), None)
      else (let l' = l\<lparr>lm_queued := lm_queued l + 1\<rparr> in (ls(k \<mapsto> l'), Some l')))"

definition release_all :: "string list \<Rightarrow> limiters \<Rightarrow> limiters" where
  "release_all held ls =
     fold (\<lambda>k ls. case ls k of None \<Rightarrow> ls | Some l \<Rightarrow> ls(k \<mapsto> sem_release l)) (rev held) ls"

datatype phase = Waiting | Admitted | Chatting | Opening | Unread | Reading | Gone

record ticket =
  tk_model :: string
  tk_session :: "string option"
  tk_streamed :: bool
  tk_held :: "string list"
  tk_todo :: "string list"
  tk_phase :: phase

text \<open>From where a request got its last permit: it takes further permits as long as it need not wait.
  The result says whether it was turned away.\<close>

fun acquire :: "limits \<Rightarrow> nat \<Rightarrow> string list \<Rightarrow> ticket \<Rightarrow> limiters \<Rightarrow> limiters \<times> ticket \<times> bool" where
  "acquire cfg t [] tk ls = (ls, tk\<lparr>tk_todo := [], tk_phase := Admitted\<rparr>, False)"
| "acquire cfg t (k # ks) tk ls =
     (case reserve cfg k ls of
        (ls1, None) \<Rightarrow> (release_all (tk_held tk) ls1, tk\<lparr>tk_held := [], tk_todo := [], tk_phase := Gone\<rparr>, True)
      | (ls1, Some l) \<Rightarrow>
          if locked l
          then (ls1(k \<mapsto> l\<lparr>lm_waiters := lm_waiters l @ [(t, False)]\<rparr>),
                tk\<lparr>tk_todo := k # ks, tk_phase := Waiting\<rparr>, False)
          else acquire cfg t ks (tk\<lparr>tk_held := tk_held tk @ [k]\<rparr>)
                 (ls1(k \<mapsto> leave_queue (l\<lparr>lm_value := lm_value l - 1\<rparr>))))"

record chat_event =
  ce_type :: string
  ce_model :: string
  ce_session :: "string option"
  ce_reason :: "(string \<times> nat) option"

record admission =
  ad_limiters :: limiters
  ad_tickets :: "nat \<Rightarrow> ticket option"
  ad_events :: "chat_event list"

definition no_chats :: admission where
  "no_chats = \<lparr>ad_limiters = (\<lambda>_. None), ad_tickets = (\<lambda>_. None), ad_events = []\<rparr>"

definition say :: "string \<Rightarrow> (string \<times> nat) option \<Rightarrow> ticket \<Rightarrow> chat_event list \<Rightarrow> chat_event list" where
  "say ty reason tk es =
     es @ [\<lparr>ce_type = ''llama_pack.chat.'' @ ty, ce_model = tk_model tk, ce_session = tk_session tk,
            ce_reason = reason\<rparr>]"

definition after_acquire :: "nat \<Rightarrow> limiters \<times> ticket \<times> bool \<Rightarrow> admission \<Rightarrow> admission" where
  "after_acquire t r s =
     (case r of (ls, tk, rejected) \<Rightarrow>
        \<lparr>ad_limiters = ls, ad_tickets = (ad_tickets s)(t \<mapsto> tk),
         ad_events = (if rejected then say ''rejected'' (Some (''Chat request queue is full'', 429)) tk (ad_events s)
                      else ad_events s)\<rparr>)"

text \<open>A request arrives; \<open>hooks\<close> is the verdict of the policy hooks.\<close>

definition arrive :: "limits \<Rightarrow> (string \<Rightarrow> pydict \<Rightarrow> string option \<Rightarrow> exn + unit) \<Rightarrow>
    nat \<Rightarrow> bool \<Rightarrow> string \<Rightarrow> pydict \<Rightarrow> admission \<Rightarrow> admission" where
  "arrive cfg hooks t streamed model payload s =
     (case clean_payload payload of (clean, session) \<Rightarrow>
       (let tk = \<lparr>tk_model = model, tk_session = session, tk_streamed = streamed,
                  tk_held = [], tk_todo = [], tk_phase = Gone\<rparr> in
        case hooks model clean session of
          Inl e \<Rightarrow> s\<lparr>ad_tickets := (ad_tickets s)(t \<mapsto> tk),
                     ad_events := say ''rejected'' (Some (exn_text e, 403)) tk (ad_events s)\<rparr>
        | Inr _ \<Rightarrow> after_acquire t (acquire cfg t (admission_keys model clean session) tk (ad_limiters s)) s))"

text \<open>A waiting request that was granted its permit runs again.\<close>

definition resume :: "limits \<Rightarrow> nat \<Rightarrow> ticket \<Rightarrow> admission \<Rightarrow> admission" where
  "resume cfg t tk s =
     (let k = hd (tk_todo tk);
          ls1 = (ad_limiters s)(k \<mapsto> leave_queue (sem_resume t (limiter_of cfg (ad_limiters s) k)))
      in after_acquire t (acquire cfg t (tl (tk_todo tk)) (tk\<lparr>tk_held := tk_held tk @ [k]\<rparr>) ls1) s)"

definition put_ticket :: "nat \<Rightarrow> ticket \<Rightarrow> admission \<Rightarrow> admission" where
  "put_ticket t tk s = s\<lparr>ad_tickets := (ad_tickets s)(t \<mapsto> tk)\<rparr>"

text \<open>A waiting request gives up: on a timeout it releases what it holds and is turned away; the
  cancellation of its task is not an \<open>Exception\<close>, so it only leaves the queue.\<close>

definition stop_waiting :: "limits \<Rightarrow> nat \<Rightarrow> ticket \<Rightarrow> admission \<Rightarrow> admission" where
  "stop_waiting cfg t tk s =
     (let k = hd (tk_todo tk) in
      s\<lparr>ad_limiters := (ad_limiters s)(k \<mapsto> leave_queue (sem_give_up t (limiter_of cfg (ad_limiters s) k)))\<rparr>)"

definition time_out :: "limits \<Rightarrow> nat \<Rightarrow> ticket \<Rightarrow> admission \<Rightarrow> admission" where
  "time_out cfg t tk s =
     (let s1 = stop_waiting cfg t tk s in
      \<lparr>ad_limiters = release_all (tk_held tk) (ad_limiters s1),
       ad_tickets = (ad_tickets s1)(t \<mapsto> tk\<lparr>tk_held := [], tk_todo := [], tk_phase := Gone\<rparr>),
       ad_events = say ''rejected'' (Some (''Chat request timed out waiting for capacity'', 503)) tk (ad_events s1)\<rparr>)"

definition cancel_waiting :: "limits \<Rightarrow> nat \<Rightarrow> ticket \<Rightarrow> admission \<Rightarrow> admission" where
  "cancel_waiting cfg t tk s = put_ticket t (tk\<lparr>tk_todo := [], tk_phase := Gone\<rparr>) (stop_waiting cfg t tk s)"

text \<open>The admission is announced, and the model server is asked.\<close>

definition announce :: "nat \<Rightarrow> ticket \<Rightarrow> admission \<Rightarrow> admission" where
  "announce t tk s =
     put_ticket t (tk\<lparr>tk_phase := (if tk_streamed tk then Opening else Chatting)\<rparr>)
       (s\<lparr>ad_events := say ''admitted'' None tk (ad_events s)\<rparr>)"

text \<open>The end of a request that gives its permits back; \<open>ending\<close> is the event it emits, if any.\<close>

definition finish :: "(string \<times> (string \<times> nat) option) option \<Rightarrow> nat \<Rightarrow> ticket \<Rightarrow> admission \<Rightarrow> admission" where
  "finish ending t tk s =
     \<lparr>ad_limiters = release_all (tk_held tk) (ad_limiters s),
      ad_tickets = (ad_tickets s)(t \<mapsto> tk\<lparr>tk_held := [], tk_phase := Gone\<rparr>),
      ad_events = (case ending of None \<Rightarrow> ad_events s | Some (ty, reason) \<Rightarrow> say ty reason tk (ad_events s))\<rparr>"

definition outcome :: "string option \<Rightarrow> (string \<times> (string \<times> nat) option) option" where
  "outcome error = (case error of None \<Rightarrow> Some (''completed'', None) | Some e \<Rightarrow> Some (''failed'', Some (e, 0)))"

section \<open>Steps\<close>

text \<open>Steps in which no task is cancelled while it holds a permit, and every stream is read. A chat that
  is cancelled while the model answers passes through \<open>finally\<close>; so does a stream that is closed after
  its first chunk.\<close>

inductive orderly_step :: "limits \<Rightarrow> admission \<Rightarrow> admission \<Rightarrow> bool" for cfg where
  arrival: "ad_tickets s t = None \<Longrightarrow> orderly_step cfg s (arrive cfg hooks t streamed model payload s)"
| resumed: "ad_tickets s t = Some tk \<Longrightarrow> tk_phase tk = Waiting \<Longrightarrow>
    map_of (lm_waiters (limiter_of cfg (ad_limiters s) (hd (tk_todo tk)))) t = Some True \<Longrightarrow>
    orderly_step cfg s (resume cfg t tk s)"
| timeout: "ad_tickets s t = Some tk \<Longrightarrow> tk_phase tk = Waiting \<Longrightarrow> orderly_step cfg s (time_out cfg t tk s)"
| cancelled_empty: "ad_tickets s t = Some tk \<Longrightarrow> tk_phase tk = Waiting \<Longrightarrow> tk_held tk = [] \<Longrightarrow>
    orderly_step cfg s (cancel_waiting cfg t tk s)"
| announced: "ad_tickets s t = Some tk \<Longrightarrow> tk_phase tk = Admitted \<Longrightarrow> orderly_step cfg s (announce t tk s)"
| answered: "ad_tickets s t = Some tk \<Longrightarrow> tk_phase tk = Chatting \<Longrightarrow> orderly_step cfg s (finish (outcome error) t tk s)"
| chat_cancelled: "ad_tickets s t = Some tk \<Longrightarrow> tk_phase tk = Chatting \<Longrightarrow> orderly_step cfg s (finish None t tk s)"
| not_opened: "ad_tickets s t = Some tk \<Longrightarrow> tk_phase tk = Opening \<Longrightarrow>
    orderly_step cfg s (finish (outcome (Some error)) t tk s)"
| opened: "ad_tickets s t = Some tk \<Longrightarrow> tk_phase tk = Opening \<Longrightarrow>
    orderly_step cfg s (put_ticket t (tk\<lparr>tk_phase := Unread\<rparr>) s)"
| first_chunk: "ad_tickets s t = Some tk \<Longrightarrow> tk_phase tk = Unread \<Longrightarrow>
    orderly_step cfg s (put_ticket t (tk\<lparr>tk_phase := Reading\<rparr>) s)"
| read: "ad_tickets s t = Some tk \<Longrightarrow> tk_phase tk = Reading \<Longrightarrow> orderly_step cfg s (finish (outcome error) t tk s)"
| closed: "ad_tickets s t = Some tk \<Longrightarrow> tk_phase tk = Reading \<Longrightarrow> orderly_step cfg s (finish None t tk s)"

text \<open>The other ways a task ends: nothing gives its permits back. A generator that is closed before its
  first item does not run its \<open>finally\<close>.\<close>

inductive admission_step :: "limits \<Rightarrow> admission \<Rightarrow> admission \<Rightarrow> bool" for cfg where
  orderly: "orderly_step cfg s s' \<Longrightarrow> admission_step cfg s s'"
| cancelled_waiting: "ad_tickets s t = Some tk \<Longrightarrow> tk_phase tk = Waiting \<Longrightarrow>
    admission_step cfg s (cancel_waiting cfg t tk s)"
| abandoned: "ad_tickets s t = Some tk \<Longrightarrow> tk_phase tk \<in> {Admitted, Opening, Unread} \<Longrightarrow>
    admission_step cfg s (put_ticket t (tk\<lparr>tk_phase := Gone\<rparr>) s)"

end
