(* ===== verification/Admission_Safety.thy ===== *)
theory Admission_Safety
  imports Chat_Admission
begin

text \<open>
  The permits of every limiter are accounted for in every reachable state, whatever is cancelled;
  without cancellations that lose permits, everything that waits can be served. The last section
  shows how permits are lost.
\<close>

section \<open>What the semaphore operations do\<close>

definition permits :: "limiter \<Rightarrow> nat" where
  "permits l = lm_value l + length (filter snd (lm_waiters l))"

definition names :: "limiter \<Rightarrow> nat list" where
  "names l = map fst (lm_waiters l)"

definition woken :: "limiter \<Rightarrow> bool" where
  "woken l \<longleftrightarrow> (0 < lm_value l \<longrightarrow> lm_waiters l \<noteq> [] \<longrightarrow> (\<exists>t. (t, True) \<in> set (lm_waiters l)))"

lemma grant_first_Some:
  "grant_first ws = Some ws' \<Longrightarrow>
   map fst ws' = map fst ws \<and> length (filter snd ws') = Suc (length (filter snd ws)) \<and> (\<exists>t. (t, True) \<in> set ws')"
  by (induction ws arbitrary: ws' rule: grant_first.induct) (auto split: if_splits)

lemma grant_first_None: "grant_first ws = None \<Longrightarrow> (t, g) \<in> set ws \<Longrightarrow> g = True"
  by (induction ws rule: grant_first.induct) (auto split: if_splits)

lemma none_left: "grant_first (lm_waiters l) = None \<Longrightarrow> woken l"
proof (cases "lm_waiters l")
  case (Cons x xs)
  assume "grant_first (lm_waiters l) = None"
  from grant_first_None [OF this, of "fst x" "snd x"] show ?thesis using Cons by (cases x) (auto simp: woken_def)
qed (simp add: woken_def)

lemma sem_release_spec:
  "permits (sem_release l) = Suc (permits l)" "names (sem_release l) = names l"
  "lm_queued (sem_release l) = lm_queued l" "woken (sem_release l)"
proof -
  show "permits (sem_release l) = Suc (permits l)" "names (sem_release l) = names l"
    "lm_queued (sem_release l) = lm_queued l"
    by (auto simp: sem_release_def wake_up_next_def permits_def names_def Let_def
        split: option.splits dest: grant_first_Some)
  show "woken (sem_release l)"
  proof (cases "grant_first (lm_waiters l)")
    case None
    then show ?thesis using none_left [of "l\<lparr>lm_value := lm_value l + 1\<rparr>"]
      by (simp add: sem_release_def wake_up_next_def)
  next
    case (Some ws)
    then show ?thesis using grant_first_Some [OF Some] by (simp add: sem_release_def wake_up_next_def woken_def)
  qed
qed

lemma wake_all_spec:
  "permits (wake_all l) = permits l \<and> names (wake_all l) = names l \<and>
   lm_queued (wake_all l) = lm_queued l \<and> woken (wake_all l)"
proof (induction l rule: wake_all.induct)
  case (1 l)
  show ?case
  proof (cases "lm_value l = 0")
    case True
    then show ?thesis by (simp add: woken_def)
  next
    case False
    show ?thesis
    proof (cases "wake_up_next l")
      case None
      then show ?thesis using False none_left [of l] by (simp add: wake_up_next_def)
    next
      case (Some l')
      have "permits l' = permits l \<and> names l' = names l \<and> lm_queued l' = lm_queued l"
        using Some False by (auto simp: wake_up_next_def permits_def names_def dest: grant_first_Some)
      then show ?thesis using 1 [OF False Some] False Some by simp
    qed
  qed
qed

lemma granted_delete:
  "distinct (map fst ws) \<Longrightarrow> map_of ws t = Some g \<Longrightarrow>
   length (filter snd ws) = length (filter snd (AList.delete t ws)) + (if g then 1 else 0)"
proof (induction ws)
  case (Cons x ws)
  then show ?case by (cases "fst x = t") (auto simp: delete_id)
qed simp

lemma names_delete: "map fst (AList.delete t ws) = filter (\<lambda>x. x \<noteq> t) (map fst ws)"
  by (induction ws) (auto simp: AList.delete_eq)

lemma sem_resume_spec:
  assumes "distinct (names l)" "map_of (lm_waiters l) t = Some True"
  shows "Suc (permits (sem_resume t l)) = permits l" "names (sem_resume t l) = filter (\<lambda>x. x \<noteq> t) (names l)"
    "lm_queued (sem_resume t l) = lm_queued l" "woken (sem_resume t l)"
  using wake_all_spec [of "l\<lparr>lm_waiters := AList.delete t (lm_waiters l)\<rparr>"] granted_delete [of "lm_waiters l" t True] assms
  by (simp_all add: sem_resume_def permits_def names_def names_delete del: wake_all.simps)

lemma sem_give_up_spec:
  assumes "distinct (names l)" "t \<in> set (names l)"
  shows "permits (sem_give_up t l) = permits l" "names (sem_give_up t l) = filter (\<lambda>x. x \<noteq> t) (names l)"
    "lm_queued (sem_give_up t l) = lm_queued l" "woken (sem_give_up t l)"
proof -
  obtain g where g: "map_of (lm_waiters l) t = Some g" using assms(2)
    by (metis map_of_eq_None_iff names_def not_None_eq set_map)
  show "permits (sem_give_up t l) = permits l" "names (sem_give_up t l) = filter (\<lambda>x. x \<noteq> t) (names l)"
    "lm_queued (sem_give_up t l) = lm_queued l" "woken (sem_give_up t l)"
    using granted_delete [of "lm_waiters l" t g] assms(1) g
      wake_all_spec [of "l\<lparr>lm_value := (if map_of (lm_waiters l) t = Some True then lm_value l + 1 else lm_value l),
                 lm_waiters := AList.delete t (lm_waiters l)\<rparr>"]
    by (cases g; simp add: sem_give_up_def permits_def names_def names_delete del: wake_all.simps)+
qed

section \<open>The invariant\<close>

definition holders :: "(nat \<Rightarrow> ticket option) \<Rightarrow> string \<Rightarrow> nat set" where
  "holders tks k = {t. \<exists>tk. tks t = Some tk \<and> k \<in> set (tk_held tk)}"

definition waits_at :: "ticket option \<Rightarrow> string \<Rightarrow> bool" where
  "waits_at tko k \<longleftrightarrow> (case tko of None \<Rightarrow> False | Some tk \<Rightarrow> tk_phase tk = Waiting \<and> hd (tk_todo tk) = k)"

definition held_of :: "ticket option \<Rightarrow> string list" where
  "held_of tko = (case tko of None \<Rightarrow> [] | Some tk \<Rightarrow> tk_held tk)"

definition keys_ordered :: "string list \<Rightarrow> bool" where
  "keys_ordered ks \<longleftrightarrow> sorted_wrt (\<lambda>a b. \<not> is_session_key a \<and> is_session_key b) ks"

definition ticket_ok :: "ticket \<Rightarrow> bool" where
  "ticket_ok tk \<longleftrightarrow> keys_ordered (tk_held tk @ tk_todo tk) \<and> (tk_phase tk = Waiting \<longleftrightarrow> tk_todo tk \<noteq> [])"

definition limiter_ok :: "limits \<Rightarrow> (nat \<Rightarrow> ticket option) \<Rightarrow> string \<Rightarrow> limiter \<Rightarrow> bool" where
  "limiter_ok cfg tks k l \<longleftrightarrow>
     permits l + card (holders tks k) = capacity cfg k \<and> lm_queued l = length (names l) \<and>
     length (names l) \<le> queue_limit cfg k \<and> distinct (names l) \<and>
     set (names l) = {t. waits_at (tks t) k} \<and> woken l"

definition admission_inv :: "limits \<Rightarrow> limiters \<Rightarrow> (nat \<Rightarrow> ticket option) \<Rightarrow> bool" where
  "admission_inv cfg ls tks \<longleftrightarrow>
     finite (dom tks) \<and> (\<forall>t tk. tks t = Some tk \<longrightarrow> ticket_ok tk) \<and>
     (\<forall>k. limiter_ok cfg tks k (limiter_of cfg ls k))"

lemma keys_ordered_distinct: "keys_ordered ks \<Longrightarrow> distinct ks"
  unfolding keys_ordered_def by (induction ks) auto

lemma keys_ordered_appendD: "keys_ordered (xs @ ys) \<Longrightarrow> keys_ordered xs"
  by (simp add: keys_ordered_def sorted_wrt_append)

lemma finite_holders: "finite (dom tks) \<Longrightarrow> finite (holders tks k)"
  by (rule finite_subset [of _ "dom tks"]) (auto simp: holders_def)

lemma holders_update:
  "holders (tks(t \<mapsto> tk)) k = (if k \<in> set (tk_held tk) then insert t (holders tks k) else holders tks k - {t})"
  by (auto simp: holders_def)

lemma in_holders: "t \<in> holders tks k \<longleftrightarrow> k \<in> set (held_of (tks t))"
  by (cases "tks t") (auto simp: holders_def held_of_def)

lemma limiter_of_update: "limiter_of cfg (ls(k \<mapsto> l)) k' = (if k' = k then l else limiter_of cfg ls k')"
  by (simp add: limiter_of_def)

text \<open>A step that touches one limiter and one ticket has to look at these only.\<close>

lemma inv_change:
  assumes inv: "admission_inv cfg ls tks"
    and held: "\<And>k'. k' \<noteq> k \<Longrightarrow> k' \<in> set (tk_held tk) \<longleftrightarrow> k' \<in> set (held_of (tks t))"
    and waits: "\<And>k'. k' \<noteq> k \<Longrightarrow> waits_at (Some tk) k' \<longleftrightarrow> waits_at (tks t) k'"
    and ok: "ticket_ok tk" "limiter_ok cfg (tks(t \<mapsto> tk)) k l"
  shows "admission_inv cfg (ls(k \<mapsto> l)) (tks(t \<mapsto> tk))"
proof -
  have "limiter_ok cfg (tks(t \<mapsto> tk)) k' (limiter_of cfg (ls(k \<mapsto> l)) k')" for k'
  proof (cases "k' = k")
    case True
    then show ?thesis using ok(2) by (simp add: limiter_of_update)
  next
    case False
    have "holders (tks(t \<mapsto> tk)) k' = holders tks k'"
      using held [OF False] in_holders [of t tks k'] by (auto simp: holders_update)
    moreover have "{u. waits_at ((tks(t \<mapsto> tk)) u) k'} = {u. waits_at (tks u) k'}"
      using waits [OF False] by auto
    ultimately show ?thesis using inv False by (simp add: admission_inv_def limiter_ok_def limiter_of_update)
  qed
  then show ?thesis using inv ok(1) by (auto simp: admission_inv_def)
qed

lemma inv_ticket:
  assumes inv: "admission_inv cfg ls tks" and ok: "ticket_ok tk"
    and held: "set (tk_held tk) = set (held_of (tks t))" and waits: "waits_at (Some tk) = waits_at (tks t)"
  shows "admission_inv cfg ls (tks(t \<mapsto> tk))"
proof -
  have "holders (tks(t \<mapsto> tk)) k = holders tks k" for k
    using held in_holders [of t tks k] by (auto simp: holders_update)
  moreover have "{u. waits_at ((tks(t \<mapsto> tk)) u) k} = {u. waits_at (tks u) k}" for k
    using waits by auto
  ultimately show ?thesis using inv ok by (auto simp: admission_inv_def limiter_ok_def)
qed

lemma names_of_waiting:
  "admission_inv cfg ls tks \<Longrightarrow> set (names (limiter_of cfg ls k)) = {t. waits_at (tks t) k}"
  by (simp add: admission_inv_def limiter_ok_def)

section \<open>Every operation keeps it\<close>

definition parked :: "ticket \<Rightarrow> ticket" where
  "parked tk = tk\<lparr>tk_todo := [], tk_phase := Gone\<rparr>"

lemma parked_simps [simp]:
  "tk_held (parked tk) = tk_held tk" "tk_todo (parked tk) = []" "tk_phase (parked tk) = Gone"
  "\<not> waits_at (Some (parked tk)) k" "(parked tk)\<lparr>tk_held := hs\<rparr> = parked (tk\<lparr>tk_held := hs\<rparr>)"
  by (simp_all add: parked_def waits_at_def)

lemma inv_limiter: "admission_inv cfg ls tks \<Longrightarrow> limiter_ok cfg tks k (limiter_of cfg ls k)"
  by (simp add: admission_inv_def)

lemma inv_finite: "admission_inv cfg ls tks \<Longrightarrow> finite (holders tks k)"
  by (simp add: admission_inv_def finite_holders)

text \<open>A free permit is taken.\<close>

lemma inv_take:
  assumes inv: "admission_inv cfg ls tks" and t: "tks t = Some (parked tk)"
    and free: "\<not> locked (limiter_of cfg ls k)" and ord: "keys_ordered (tk_held tk @ [k])"
  shows "admission_inv cfg (ls(k \<mapsto> (limiter_of cfg ls k)\<lparr>lm_value := lm_value (limiter_of cfg ls k) - 1\<rparr>))
    (tks(t \<mapsto> parked (tk\<lparr>tk_held := tk_held tk @ [k]\<rparr>)))"
proof (rule inv_change [OF inv])
  let ?l = "limiter_of cfg ls k"
  have new: "t \<notin> holders tks k"
    using keys_ordered_distinct [OF ord] t by (simp add: in_holders held_of_def)
  have w: "{u. waits_at ((tks(t \<mapsto> parked (tk\<lparr>tk_held := tk_held tk @ [k]\<rparr>))) u) k} = {u. waits_at (tks u) k}"
    using t by (auto simp: waits_at_def)
  show "limiter_ok cfg (tks(t \<mapsto> parked (tk\<lparr>tk_held := tk_held tk @ [k]\<rparr>))) k (?l\<lparr>lm_value := lm_value ?l - 1\<rparr>)"
    using inv_limiter [OF inv, of k] free new inv_finite [OF inv, of k]
    by (simp add: limiter_ok_def locked_def permits_def names_def woken_def holders_update w)
  show "ticket_ok (parked (tk\<lparr>tk_held := tk_held tk @ [k]\<rparr>))"
    using ord by (simp add: ticket_ok_def)
qed (use t in \<open>auto simp: held_of_def waits_at_def\<close>)

text \<open>A request joins a queue that has room.\<close>

lemma inv_join:
  assumes inv: "admission_inv cfg ls tks" and t: "tks t = Some (parked tk)"
    and busy: "locked (limiter_of cfg ls k)" and room: "lm_queued (limiter_of cfg ls k) < queue_limit cfg k"
    and ord: "keys_ordered (tk_held tk @ k # ks)"
  shows "admission_inv cfg
    (ls(k \<mapsto> (limiter_of cfg ls k)\<lparr>lm_queued := lm_queued (limiter_of cfg ls k) + 1,
              lm_waiters := lm_waiters (limiter_of cfg ls k) @ [(t, False)]\<rparr>))
    (tks(t \<mapsto> tk\<lparr>tk_todo := k # ks, tk_phase := Waiting\<rparr>))"
proof (rule inv_change [OF inv])
  let ?l = "limiter_of cfg ls k" and ?tk = "tk\<lparr>tk_todo := k # ks, tk_phase := Waiting\<rparr>"
  have ok: "limiter_ok cfg tks k ?l" using inv by (rule inv_limiter)
  have new: "t \<notin> set (names ?l)" using names_of_waiting [OF inv] t by (simp add: waits_at_def)
  have h: "holders (tks(t \<mapsto> ?tk)) k = holders tks k"
    using t in_holders [of t tks k] by (auto simp: holders_update held_of_def)
  have w: "{u. waits_at ((tks(t \<mapsto> ?tk)) u) k} = insert t {u. waits_at (tks u) k}"
    by (auto simp: waits_at_def)
  have "0 < lm_value ?l \<Longrightarrow> \<exists>u. (u, True) \<in> set (lm_waiters ?l)"
    using ok busy by (auto simp: limiter_ok_def woken_def locked_def)
  then have "woken (?l\<lparr>lm_queued := lm_queued ?l + 1, lm_waiters := lm_waiters ?l @ [(t, False)]\<rparr>)"
    by (auto simp: woken_def)
  moreover have "set (names (?l\<lparr>lm_queued := lm_queued ?l + 1, lm_waiters := lm_waiters ?l @ [(t, False)]\<rparr>)) =
      insert t {u. waits_at (tks u) k}"
    using ok by (auto simp: names_def limiter_ok_def)
  ultimately show "limiter_ok cfg (tks(t \<mapsto> ?tk)) k
      (?l\<lparr>lm_queued := lm_queued ?l + 1, lm_waiters := lm_waiters ?l @ [(t, False)]\<rparr>)"
    using ok room new unfolding limiter_ok_def h w by (simp add: permits_def names_def)
  show "ticket_ok ?tk" using ord by (simp add: ticket_ok_def)
qed (use t in \<open>auto simp: held_of_def waits_at_def\<close>)

text \<open>A permit is given back.\<close>

lemma inv_release1:
  assumes inv: "admission_inv cfg ls tks" and t: "tks t = Some (parked tk)" and held: "tk_held tk = hs @ [k]"
    and ord: "keys_ordered (hs @ [k])"
  shows "admission_inv cfg (ls(k \<mapsto> sem_release (limiter_of cfg ls k))) (tks(t \<mapsto> parked (tk\<lparr>tk_held := hs\<rparr>)))"
proof (rule inv_change [OF inv])
  let ?l = "limiter_of cfg ls k"
  have ok: "limiter_ok cfg tks k ?l" using inv by (rule inv_limiter)
  have k: "k \<notin> set hs" using keys_ordered_distinct [OF ord] by simp
  have "t \<in> holders tks k" using t held by (simp add: in_holders held_of_def)
  then have c: "Suc (card (holders tks k - {t})) = card (holders tks k)"
    using inv_finite [OF inv] by (metis card_Suc_Diff1)
  have w: "{u. waits_at ((tks(t \<mapsto> parked (tk\<lparr>tk_held := hs\<rparr>))) u) k} = {u. waits_at (tks u) k}"
    using t by (auto simp: waits_at_def)
  show "limiter_ok cfg (tks(t \<mapsto> parked (tk\<lparr>tk_held := hs\<rparr>))) k (sem_release ?l)"
    using ok c k unfolding limiter_ok_def w by (simp add: sem_release_spec holders_update)
  show "ticket_ok (parked (tk\<lparr>tk_held := hs\<rparr>))"
    using keys_ordered_appendD [OF ord] by (simp add: ticket_ok_def)
qed (use t held in \<open>auto simp: held_of_def waits_at_def\<close>)

lemma release_all_snoc:
  "release_all (hs @ [k]) ls =
     release_all hs (case ls k of None \<Rightarrow> ls | Some l \<Rightarrow> ls(k \<mapsto> sem_release l))"
  by (simp add: release_all_def)

lemma inv_release_all:
  assumes "admission_inv cfg ls tks" "tks t = Some (parked tk)" "tk_held tk = hs" "keys_ordered hs"
    "\<forall>k\<in>set hs. ls k \<noteq> None"
  shows "admission_inv cfg (release_all hs ls) (tks(t \<mapsto> parked (tk\<lparr>tk_held := []\<rparr>)))"
  using assms
proof (induction hs arbitrary: ls tks tk rule: rev_induct)
  case Nil
  then have "parked (tk\<lparr>tk_held := []\<rparr>) = parked tk" by (simp add: parked_def)
  with Nil show ?case by (simp add: release_all_def fun_upd_idem)
next
  case (snoc k hs)
  then obtain l where l: "ls k = Some l" "limiter_of cfg ls k = l" by (auto simp: limiter_of_def)
  have i: "admission_inv cfg (ls(k \<mapsto> sem_release l)) (tks(t \<mapsto> parked (tk\<lparr>tk_held := hs\<rparr>)))"
    using inv_release1 [OF snoc.prems(1-4)] l by simp
  have "admission_inv cfg (release_all hs (ls(k \<mapsto> sem_release l)))
      (tks(t \<mapsto> parked (tk\<lparr>tk_held := hs\<rparr>), t \<mapsto> parked (tk\<lparr>tk_held := hs, tk_held := []\<rparr>)))"
    using snoc.prems keys_ordered_appendD by (intro snoc.IH [OF i]) auto
  then show ?case by (simp add: release_all_snoc l(1) del: fun_upd_apply)
qed

lemma sem_reserve:
  "reserve cfg k ls =
     (if locked (limiter_of cfg ls k) \<and> queue_limit cfg k \<le> lm_queued (limiter_of cfg ls k)
      then (ls(k \<mapsto> limiter_of cfg ls k), None)
      else (ls(k \<mapsto> (limiter_of cfg ls k)\<lparr>lm_queued := lm_queued (limiter_of cfg ls k) + 1\<rparr>),
            Some ((limiter_of cfg ls k)\<lparr>lm_queued := lm_queued (limiter_of cfg ls k) + 1\<rparr>)))"
  by (simp add: reserve_def Let_def)

lemma inv_same: "admission_inv cfg ls tks \<Longrightarrow> admission_inv cfg (ls(k \<mapsto> limiter_of cfg ls k)) tks"
proof -
  have "limiter_of cfg (ls(k \<mapsto> limiter_of cfg ls k)) = limiter_of cfg ls"
    by (rule ext) (simp add: limiter_of_update)
  then show "admission_inv cfg ls tks \<Longrightarrow> ?thesis" by (simp add: admission_inv_def)
qed

lemma locked_queued [simp]: "locked (l\<lparr>lm_queued := q\<rparr>) = locked l"
  by (simp add: locked_def)

lemma inv_acquire:
  assumes "admission_inv cfg ls tks" "tks t = Some (parked tk)" "keys_ordered (tk_held tk @ ks)"
    "\<forall>k\<in>set (tk_held tk). ls k \<noteq> None" "acquire cfg t ks tk ls = (ls', tk', r)"
  shows "admission_inv cfg ls' (tks(t \<mapsto> tk')) \<and> (\<forall>k\<in>set (tk_held tk'). ls' k \<noteq> None) \<and>
    (tk_phase tk' = Gone \<longrightarrow> tk_held tk' = [])"
  using assms
proof (induction ks arbitrary: tks tk ls)
  case Nil
  then have "admission_inv cfg ls (tks(t \<mapsto> tk\<lparr>tk_todo := [], tk_phase := Admitted\<rparr>))"
    by (intro inv_ticket) (auto simp: ticket_ok_def held_of_def waits_at_def)
  with Nil show ?case by (auto simp del: fun_upd_apply)
next
  case (Cons k ks)
  let ?l = "limiter_of cfg ls k"
  have ord: "keys_ordered (tk_held tk @ [k])" using keys_ordered_appendD [of "tk_held tk @ [k]" ks] Cons.prems(3) by simp
  consider (full) "locked ?l" "queue_limit cfg k \<le> lm_queued ?l" | (wait) "locked ?l" "lm_queued ?l < queue_limit cfg k"
    | (free) "\<not> locked ?l" by linarith
  then show ?case
  proof cases
    case full
    then have r: "ls' = release_all (tk_held tk) (ls(k \<mapsto> ?l))" "tk' = parked (tk\<lparr>tk_held := []\<rparr>)"
      using Cons.prems(5) by (simp_all add: sem_reserve parked_def)
    have "admission_inv cfg ls' (tks(t \<mapsto> tk'))" unfolding r
      using Cons.prems keys_ordered_appendD by (intro inv_release_all inv_same) auto
    then show ?thesis by (simp add: r(2) del: fun_upd_apply)
  next
    case wait
    then have r: "ls' = ls(k \<mapsto> ?l\<lparr>lm_queued := lm_queued ?l + 1, lm_waiters := lm_waiters ?l @ [(t, False)]\<rparr>)"
      "tk' = tk\<lparr>tk_todo := k # ks, tk_phase := Waiting\<rparr>"
      using Cons.prems(5) by (simp_all add: sem_reserve)
    show ?thesis unfolding r
      using inv_join [OF Cons.prems(1,2) wait Cons.prems(3)] Cons.prems(4) by (simp del: fun_upd_apply) (simp add: fun_upd_apply)
  next
    case free
    have l: "leave_queue (?l\<lparr>lm_queued := lm_queued ?l + 1, lm_value := lm_value ?l - 1\<rparr>) = ?l\<lparr>lm_value := lm_value ?l - 1\<rparr>"
      by (simp add: leave_queue_def)
    have a: "acquire cfg t ks (tk\<lparr>tk_held := tk_held tk @ [k]\<rparr>) (ls(k \<mapsto> ?l\<lparr>lm_value := lm_value ?l - 1\<rparr>)) = (ls', tk', r)"
      using Cons.prems(5) free l by (simp add: sem_reserve)
    have i: "admission_inv cfg (ls(k \<mapsto> ?l\<lparr>lm_value := lm_value ?l - 1\<rparr>))
        (tks(t \<mapsto> parked (tk\<lparr>tk_held := tk_held tk @ [k]\<rparr>)))"
      using inv_take [OF Cons.prems(1,2) free ord] .
    have some: "\<forall>k'\<in>set (tk_held tk @ [k]). (ls(k \<mapsto> ?l\<lparr>lm_value := lm_value ?l - 1\<rparr>)) k' \<noteq> None"
      using Cons.prems(4) by auto
    show ?thesis using Cons.IH [OF i _ _ _ a] Cons.prems(3) some by (simp del: fun_upd_apply add: fun_upd_same)
  qed
qed

text \<open>A request that waited leaves the queue, with or without the permit.\<close>

lemma waiting_names:
  assumes "admission_inv cfg ls tks" "tks t = Some tk" "tk_phase tk = Waiting"
  shows "t \<in> set (names (limiter_of cfg ls (hd (tk_todo tk))))" "distinct (names (limiter_of cfg ls (hd (tk_todo tk))))"
    "length (filter (\<lambda>x. x \<noteq> t) (names (limiter_of cfg ls (hd (tk_todo tk))))) =
     length (names (limiter_of cfg ls (hd (tk_todo tk)))) - 1"
proof -
  show a: "t \<in> set (names (limiter_of cfg ls (hd (tk_todo tk))))" and d: "distinct (names (limiter_of cfg ls (hd (tk_todo tk))))"
    using names_of_waiting [OF assms(1)] assms inv_limiter [OF assms(1), of "hd (tk_todo tk)"]
    by (auto simp: waits_at_def limiter_ok_def)
  have f: "filter (\<lambda>x. x \<noteq> t) xs = remove1 t xs" if "distinct xs" for xs :: "nat list"
    using that by (simp add: distinct_remove1_removeAll removeAll_filter_not_eq) (metis (mono_tags) filter_cong)
  show "length (filter (\<lambda>x. x \<noteq> t) (names (limiter_of cfg ls (hd (tk_todo tk))))) =
     length (names (limiter_of cfg ls (hd (tk_todo tk)))) - 1"
    using a d by (simp add: f length_remove1)
qed

lemma inv_leave:
  assumes inv: "admission_inv cfg ls tks" and t: "tks t = Some tk" "tk_phase tk = Waiting"
    and k: "k = hd (tk_todo tk)" and l: "l = limiter_of cfg ls k"
    and l': "names l' = filter (\<lambda>x. x \<noteq> t) (names l)" "lm_queued l' = lm_queued l" "woken l'"
    and p: "permits l' + (if got then 1 else 0) = permits l"
  shows "admission_inv cfg (ls(k \<mapsto> leave_queue l')) (tks(t \<mapsto> parked (tk\<lparr>tk_held := tk_held tk @ (if got then [k] else [])\<rparr>)))"
    (is "admission_inv cfg _ (tks(t \<mapsto> ?tk))")
proof (rule inv_change [OF inv])
  have ok: "limiter_ok cfg tks k l" unfolding l using inv by (rule inv_limiter)
  have tok: "ticket_ok tk" using inv t by (auto simp: admission_inv_def)
  then obtain ks where todo: "tk_todo tk = k # ks" using t(2) k by (cases "tk_todo tk") (auto simp: ticket_ok_def)
  have ord: "keys_ordered (tk_held tk @ [k])"
    using tok todo keys_ordered_appendD [of "tk_held tk @ [k]" ks] by (simp add: ticket_ok_def)
  then have new: "t \<notin> holders tks k" using keys_ordered_distinct [OF ord] t by (simp add: in_holders held_of_def)
  have w: "{u. waits_at ((tks(t \<mapsto> ?tk)) u) k} = {u. waits_at (tks u) k} - {t}"
    by (auto simp: fun_upd_apply split: if_splits)
  have c: "card (holders (tks(t \<mapsto> ?tk)) k) = card (holders tks k) + (if got then 1 else 0)"
    using new inv_finite [OF inv, of k] keys_ordered_distinct [OF ord] by (simp add: holders_update)
  have q: "permits (leave_queue l') = permits l'" "names (leave_queue l') = names l'"
    "lm_queued (leave_queue l') = lm_queued l' - 1" "woken (leave_queue l') = woken l'"
    by (simp_all add: leave_queue_def permits_def names_def woken_def)
  show "limiter_ok cfg (tks(t \<mapsto> ?tk)) k (leave_queue l')"
    using ok p l' waiting_names [OF inv t] unfolding limiter_ok_def w c q k [symmetric] l [symmetric] by auto
  show "ticket_ok ?tk" using ord keys_ordered_appendD [OF ord] by (simp add: ticket_ok_def)
qed (use t k in \<open>auto simp: held_of_def waits_at_def\<close>)

section \<open>Every step keeps it\<close>

definition admission_ok :: "limits \<Rightarrow> admission \<Rightarrow> bool" where
  "admission_ok cfg s \<longleftrightarrow> admission_inv cfg (ad_limiters s) (ad_tickets s) \<and>
     (\<forall>t tk. ad_tickets s t = Some tk \<longrightarrow> (\<forall>k\<in>set (tk_held tk). ad_limiters s k \<noteq> None))"

definition no_leak :: "admission \<Rightarrow> bool" where
  "no_leak s \<longleftrightarrow> (\<forall>t tk. ad_tickets s t = Some tk \<longrightarrow> tk_phase tk = Gone \<longrightarrow> tk_held tk = [])"

lemma release_all_dom: "release_all hs ls k \<noteq> None \<longleftrightarrow> ls k \<noteq> None"
  by (induction hs arbitrary: ls rule: rev_induct)
    (auto simp: release_all_snoc release_all_def split: option.splits if_splits)

lemma acquire_dom: "acquire cfg t ks tk ls = (ls', tk', r) \<Longrightarrow> ls k \<noteq> None \<Longrightarrow> ls' k \<noteq> None"
proof (induction ks arbitrary: tk ls)
  case Nil
  then show ?case by simp
next
  case (Cons x ks)
  let ?l = "limiter_of cfg ls x"
  show ?case
  proof (cases "locked ?l")
    case True
    then show ?thesis using Cons.prems release_all_dom [of "tk_held tk" "ls(x \<mapsto> ?l)" k]
      by (auto simp: sem_reserve split: if_splits)
  next
    case False
    let ?ls = "ls(x \<mapsto> leave_queue (?l\<lparr>lm_queued := lm_queued ?l + 1, lm_value := lm_value ?l - 1\<rparr>))"
    have "acquire cfg t ks (tk\<lparr>tk_held := tk_held tk @ [x]\<rparr>) ?ls = (ls', tk', r)"
      using False Cons.prems(1) by (simp add: sem_reserve)
    then show ?thesis by (rule Cons.IH) (use Cons.prems(2) in simp)
  qed
qed

lemma ok_put:
  assumes "admission_ok cfg s" "admission_inv cfg ls ((ad_tickets s)(t \<mapsto> tk))"
    "\<And>k. ad_limiters s k \<noteq> None \<Longrightarrow> ls k \<noteq> None" "\<forall>k\<in>set (tk_held tk). ls k \<noteq> None"
  shows "admission_ok cfg \<lparr>ad_limiters = ls, ad_tickets = (ad_tickets s)(t \<mapsto> tk), ad_events = es\<rparr>"
  using assms by (auto simp: admission_ok_def simp del: not_None_eq)

lemma ok_inv: "admission_ok cfg s \<Longrightarrow> admission_inv cfg (ad_limiters s) (ad_tickets s)"
  by (simp add: admission_ok_def)

lemma ok_held: "admission_ok cfg s \<Longrightarrow> ad_tickets s t = Some tk \<Longrightarrow> \<forall>k\<in>set (tk_held tk). ad_limiters s k \<noteq> None"
  by (simp add: admission_ok_def)

lemma ok_ticket: "admission_ok cfg s \<Longrightarrow> ad_tickets s t = Some tk \<Longrightarrow> ticket_ok tk"
  by (auto simp: admission_ok_def admission_inv_def)

lemma target_key_plain: "\<not> is_session_key (target_key model payload)"
  by (auto simp: is_session_key_def target_key_def Let_def starts_with_iff)

lemma admission_keys_ordered: "keys_ordered (admission_keys model payload session)"
  using target_key_plain
  by (auto simp: admission_keys_def keys_ordered_def is_session_key_def starts_with_iff split: option.splits)

lemma ok_arrive:
  assumes ok: "admission_ok cfg s" and t: "ad_tickets s t = None"
  shows "admission_ok cfg (arrive cfg hooks t streamed model payload s)"
proof -
  obtain clean session where c: "clean_payload payload = (clean, session)" by (cases "clean_payload payload")
  define tk where "tk = \<lparr>tk_model = model, tk_session = session, tk_streamed = streamed,
                  tk_held = [], tk_todo = [], tk_phase = Gone\<rparr>"
  have pk: "parked tk = tk" by (simp add: tk_def parked_def)
  have i: "admission_inv cfg (ad_limiters s) ((ad_tickets s)(t \<mapsto> tk))"
    using ok t by (intro inv_ticket) (auto simp: admission_ok_def tk_def ticket_ok_def held_of_def waits_at_def keys_ordered_def)
  show ?thesis
  proof (cases "hooks model clean session")
    case (Inl e)
    have "admission_ok cfg \<lparr>ad_limiters = ad_limiters s, ad_tickets = (ad_tickets s)(t \<mapsto> tk),
        ad_events = say ''rejected'' (Some (exn_text e, 403)) tk (ad_events s)\<rparr>"
      using ok_put [OF ok i] by (simp add: tk_def)
    then show ?thesis using Inl by (cases s) (simp add: arrive_def c tk_def Let_def)
  next
    case (Inr u)
    obtain ls' tk' r where a: "acquire cfg t (admission_keys model clean session) tk (ad_limiters s) = (ls', tk', r)"
      by (metis prod_cases3)
    have "admission_inv cfg ls' ((ad_tickets s)(t \<mapsto> tk, t \<mapsto> tk')) \<and> (\<forall>k\<in>set (tk_held tk'). ls' k \<noteq> None)"
      using inv_acquire [OF i _ _ _ a] admission_keys_ordered pk by (simp add: tk_def)
    then show ?thesis using Inr ok_put [OF ok, of ls' t tk'] acquire_dom [OF a]
      by (simp add: arrive_def c Let_def after_acquire_def tk_def [symmetric] a del: not_None_eq)
  qed
qed

lemma waiting_todo:
  assumes "admission_ok cfg s" "ad_tickets s t = Some tk" "tk_phase tk = Waiting"
  shows "tk_todo tk = hd (tk_todo tk) # tl (tk_todo tk)"
    "keys_ordered (tk_held tk @ hd (tk_todo tk) # tl (tk_todo tk))"
  using ok_ticket [OF assms(1,2)] assms(3) by (simp_all add: ticket_ok_def)

lemma ok_resume:
  assumes ok: "admission_ok cfg s" and t: "ad_tickets s t = Some tk" "tk_phase tk = Waiting"
    and got: "map_of (lm_waiters (limiter_of cfg (ad_limiters s) (hd (tk_todo tk)))) t = Some True"
  shows "admission_ok cfg (resume cfg t tk s)"
    and "no_leak s \<Longrightarrow> no_leak (resume cfg t tk s)"
proof -
  let ?k = "hd (tk_todo tk)" and ?l = "limiter_of cfg (ad_limiters s) (hd (tk_todo tk))"
  let ?tk = "tk\<lparr>tk_held := tk_held tk @ [?k]\<rparr>" and ?ls = "(ad_limiters s)(?k \<mapsto> leave_queue (sem_resume t ?l))"
  note inv = ok_inv [OF ok]
  note sp = sem_resume_spec [OF waiting_names(2) [OF inv t] got]
  have i: "admission_inv cfg ?ls ((ad_tickets s)(t \<mapsto> parked ?tk))"
    using inv_leave [OF inv t refl refl sp(2-4), of True] sp(1) by simp
  obtain ls' tk' r where a: "acquire cfg t (tl (tk_todo tk)) ?tk ?ls = (ls', tk', r)" by (metis prod_cases3)
  have "admission_inv cfg ls' ((ad_tickets s)(t \<mapsto> parked ?tk, t \<mapsto> tk')) \<and> (\<forall>k\<in>set (tk_held tk'). ls' k \<noteq> None) \<and>
      (tk_phase tk' = Gone \<longrightarrow> tk_held tk' = [])"
    using waiting_todo(2) [OF ok t] ok_held [OF ok t(1)] by (intro inv_acquire [OF i _ _ _ a]) auto
  then show "admission_ok cfg (resume cfg t tk s)" "no_leak s \<Longrightarrow> no_leak (resume cfg t tk s)"
    using ok_put [OF ok, of ls' t tk'] acquire_dom [OF a]
    by (auto simp: resume_def Let_def after_acquire_def a no_leak_def simp del: not_None_eq)
qed

lemma ok_stop_waiting:
  assumes ok: "admission_ok cfg s" and t: "ad_tickets s t = Some tk" "tk_phase tk = Waiting"
  shows "admission_inv cfg (ad_limiters (stop_waiting cfg t tk s)) ((ad_tickets s)(t \<mapsto> parked tk))"
    and "ad_tickets (stop_waiting cfg t tk s) = ad_tickets s"
    and "ad_limiters s k \<noteq> None \<Longrightarrow> ad_limiters (stop_waiting cfg t tk s) k \<noteq> None"
proof -
  let ?l = "limiter_of cfg (ad_limiters s) (hd (tk_todo tk))"
  note inv = ok_inv [OF ok]
  have sp: "permits (sem_give_up t ?l) = permits ?l" "names (sem_give_up t ?l) = filter (\<lambda>x. x \<noteq> t) (names ?l)"
    "lm_queued (sem_give_up t ?l) = lm_queued ?l" "woken (sem_give_up t ?l)"
    using sem_give_up_spec [OF waiting_names(2,1) [OF inv t]] by blast+
  show "admission_inv cfg (ad_limiters (stop_waiting cfg t tk s)) ((ad_tickets s)(t \<mapsto> parked tk))"
    using inv_leave [OF inv t refl refl sp(2-4), of False] sp(1) by (simp add: stop_waiting_def Let_def)
qed (auto simp: stop_waiting_def Let_def)

lemma ok_time_out:
  assumes ok: "admission_ok cfg s" and t: "ad_tickets s t = Some tk" "tk_phase tk = Waiting"
  shows "admission_ok cfg (time_out cfg t tk s)"
proof -
  note st = ok_stop_waiting [OF ok t]
  let ?s1 = "stop_waiting cfg t tk s"
  have "admission_inv cfg (release_all (tk_held tk) (ad_limiters ?s1))
      ((ad_tickets s)(t \<mapsto> parked tk, t \<mapsto> parked (tk\<lparr>tk_held := []\<rparr>)))"
    using st(3) ok_held [OF ok t(1)] keys_ordered_appendD [OF waiting_todo(2) [OF ok t]]
    by (intro inv_release_all [OF st(1)]) auto
  then show ?thesis using ok_put [OF ok, of "release_all (tk_held tk) (ad_limiters ?s1)" t "parked (tk\<lparr>tk_held := []\<rparr>)"] st(3)
    by (simp add: time_out_def Let_def st(2) parked_def release_all_dom del: not_None_eq)
qed

lemma ok_cancel_waiting:
  assumes ok: "admission_ok cfg s" and t: "ad_tickets s t = Some tk" "tk_phase tk = Waiting"
  shows "admission_ok cfg (cancel_waiting cfg t tk s)"
proof -
  have "admission_ok cfg \<lparr>ad_limiters = ad_limiters (stop_waiting cfg t tk s),
      ad_tickets = (ad_tickets s)(t \<mapsto> parked tk), ad_events = ad_events s\<rparr>"
    using ok_held [OF ok t(1)] ok_stop_waiting(3) [OF ok t] by (intro ok_put [OF ok ok_stop_waiting(1) [OF ok t]]) auto
  then show ?thesis by (cases s) (simp add: cancel_waiting_def put_ticket_def stop_waiting_def Let_def parked_def)
qed

lemma ok_put_ticket:
  assumes ok: "admission_ok cfg s" and t: "ad_tickets s t = Some tk" "tk_phase tk \<noteq> Waiting" and p: "p \<noteq> Waiting"
  shows "admission_ok cfg (put_ticket t (tk\<lparr>tk_phase := p\<rparr>) s)"
proof -
  have "admission_inv cfg (ad_limiters s) ((ad_tickets s)(t \<mapsto> tk\<lparr>tk_phase := p\<rparr>))"
    using ok_ticket [OF ok t(1)] t p by (intro inv_ticket [OF ok_inv [OF ok]]) (auto simp: ticket_ok_def held_of_def waits_at_def)
  from ok_put [OF ok this] ok_held [OF ok t(1)] show ?thesis by (cases s) (simp add: put_ticket_def del: not_None_eq)
qed

lemma ok_finish:
  assumes ok: "admission_ok cfg s" and t: "ad_tickets s t = Some tk" "tk_phase tk \<noteq> Waiting"
  shows "admission_ok cfg (finish e t tk s)"
proof -
  have todo: "tk_todo tk = []" using ok_ticket [OF ok t(1)] t(2) by (simp add: ticket_ok_def)
  have ord: "keys_ordered (tk_held tk)" using ok_ticket [OF ok t(1)] keys_ordered_appendD by (auto simp: ticket_ok_def)
  have "admission_inv cfg (ad_limiters s) ((ad_tickets s)(t \<mapsto> parked tk))"
    using todo ord t by (intro inv_ticket [OF ok_inv [OF ok]]) (auto simp: ticket_ok_def held_of_def waits_at_def parked_def)
  from inv_release_all [OF this fun_upd_same refl ord ok_held [OF ok t(1)]]
  have "admission_inv cfg (release_all (tk_held tk) (ad_limiters s)) ((ad_tickets s)(t \<mapsto> parked (tk\<lparr>tk_held := []\<rparr>)))" by (simp del: fun_upd_apply)
  moreover have "tk\<lparr>tk_held := [], tk_phase := Gone\<rparr> = parked (tk\<lparr>tk_held := []\<rparr>)"
    using todo by (cases tk) (simp add: parked_def)
  ultimately show ?thesis by (simp add: finish_def ok_put [OF ok] release_all_dom del: not_None_eq fun_upd_apply)
qed

lemma orderly_ok: "orderly_step cfg s s' \<Longrightarrow> admission_ok cfg s \<Longrightarrow> admission_ok cfg s'"
proof (induction rule: orderly_step.induct)
  case (arrival s t hooks streamed model payload)
  then show ?case by (intro ok_arrive)
next
  case (announced s t tk)
  have "admission_ok cfg (s\<lparr>ad_events := es\<rparr>)" for es using announced by (simp add: admission_ok_def)
  then show ?case unfolding announce_def using announced by (intro ok_put_ticket) auto
qed (auto intro: ok_resume ok_time_out ok_cancel_waiting ok_finish ok_put_ticket)

lemma admission_step_ok: "admission_step cfg s s' \<Longrightarrow> admission_ok cfg s \<Longrightarrow> admission_ok cfg s'"
  by (induction rule: admission_step.induct) (auto intro: orderly_ok ok_cancel_waiting ok_put_ticket)

lemma no_chats_ok: "admission_ok cfg no_chats"
  by (simp add: admission_ok_def no_chats_def admission_inv_def limiter_ok_def limiter_of_def permits_def names_def
      holders_def waits_at_def woken_def)

lemma leak_put:
  "no_leak s \<Longrightarrow> tk_phase tk = Gone \<longrightarrow> tk_held tk = [] \<Longrightarrow>
   no_leak \<lparr>ad_limiters = ls, ad_tickets = (ad_tickets s)(t \<mapsto> tk), ad_events = es\<rparr>"
  by (simp add: no_leak_def)

lemma acquire_leak: "acquire cfg t ks tk ls = (ls', tk', r) \<Longrightarrow> tk_phase tk' = Gone \<longrightarrow> tk_held tk' = []"
  by (induction ks arbitrary: tk ls) (auto simp: sem_reserve split: if_splits)

lemma leak_acquire: "no_leak s \<Longrightarrow> no_leak (after_acquire t (acquire cfg t ks tk ls) s)"
proof -
  obtain ls' tk' r where a: "acquire cfg t ks tk ls = (ls', tk', r)" by (metis prod_cases3)
  show "no_leak s \<Longrightarrow> ?thesis" using acquire_leak [OF a] by (simp add: after_acquire_def a leak_put)
qed

lemma orderly_leak: "orderly_step cfg s s' \<Longrightarrow> no_leak s \<Longrightarrow> no_leak s'"
proof (induction rule: orderly_step.induct)
  case (arrival s t hooks streamed model payload)
  then show ?case
    using leak_acquire [OF arrival.prems]
    by (auto simp: arrive_def Let_def no_leak_def split: prod.splits sum.splits)
next
  case (resumed s t tk)
  then show ?case by (simp add: resume_def Let_def leak_acquire)
qed (auto simp: no_leak_def time_out_def cancel_waiting_def stop_waiting_def put_ticket_def announce_def finish_def Let_def)

interpretation admission: inductive_invariant "\<lambda>s. s = no_chats" "admission_step cfg" "admission_ok cfg" for cfg
  by unfold_locales (auto intro: no_chats_ok admission_step_ok)

interpretation orderly: inductive_invariant "\<lambda>s. s = no_chats" "orderly_step cfg" "\<lambda>s. admission_ok cfg s \<and> no_leak s" for cfg
proof unfold_locales
  show "s = no_chats \<Longrightarrow> admission_ok cfg s \<and> no_leak s" for s
    using no_chats_ok [of cfg] by (simp add: no_leak_def no_chats_def)
qed (auto intro: orderly_ok orderly_leak)

section \<open>Nothing waits forever\<close>

text \<open>The steps that only the model server, the reader and the event loop take: requests run to their
  end and nobody gives up.\<close>

inductive working_step :: "limits \<Rightarrow> admission \<Rightarrow> admission \<Rightarrow> bool" for cfg where
  resumed: "ad_tickets s t = Some tk \<Longrightarrow> tk_phase tk = Waiting \<Longrightarrow>
    map_of (lm_waiters (limiter_of cfg (ad_limiters s) (hd (tk_todo tk)))) t = Some True \<Longrightarrow>
    working_step cfg s (resume cfg t tk s)"
| announced: "ad_tickets s t = Some tk \<Longrightarrow> tk_phase tk = Admitted \<Longrightarrow> working_step cfg s (announce t tk s)"
| answered: "ad_tickets s t = Some tk \<Longrightarrow> tk_phase tk = Chatting \<Longrightarrow> working_step cfg s (finish (outcome error) t tk s)"
| opened: "ad_tickets s t = Some tk \<Longrightarrow> tk_phase tk = Opening \<Longrightarrow>
    working_step cfg s (put_ticket t (tk\<lparr>tk_phase := Unread\<rparr>) s)"
| first_chunk: "ad_tickets s t = Some tk \<Longrightarrow> tk_phase tk = Unread \<Longrightarrow>
    working_step cfg s (put_ticket t (tk\<lparr>tk_phase := Reading\<rparr>) s)"
| read: "ad_tickets s t = Some tk \<Longrightarrow> tk_phase tk = Reading \<Longrightarrow> working_step cfg s (finish (outcome error) t tk s)"

lemma working_orderly: "working_step cfg s s' \<Longrightarrow> orderly_step cfg s s'"
  by (induction rule: working_step.induct) (auto intro: orderly_step.intros)

text \<open>Whoever holds a permit can go on, unless it waits for a session.\<close>

lemma active_can_step:
  assumes "ad_tickets s t = Some tk" "tk_phase tk \<notin> {Waiting, Gone}"
  shows "\<exists>s'. working_step cfg s s'"
proof (cases "tk_phase tk")
  case Admitted
  with assms(1) show ?thesis by (blast intro: announced)
next
  case Chatting
  with assms(1) show ?thesis by (blast intro: answered)
next
  case Opening
  with assms(1) show ?thesis by (blast intro: opened)
next
  case Unread
  with assms(1) show ?thesis by (blast intro: first_chunk)
next
  case Reading
  with assms(1) show ?thesis by (blast intro: working_step.read)
qed (use assms(2) in auto)

lemma waiting_progress:
  assumes ok: "admission_ok cfg s" "no_leak s" and cap: "\<forall>k. 0 < capacity cfg k"
    and t: "ad_tickets s t = Some tk" "tk_phase tk = Waiting"
    and others: "\<And>u uk. ad_tickets s u = Some uk \<Longrightarrow> tk_phase uk = Waiting \<Longrightarrow> hd (tk_todo tk) \<in> set (tk_held uk) \<Longrightarrow>
      \<exists>s'. working_step cfg s s'"
  shows "\<exists>s'. working_step cfg s s'"
proof -
  let ?k = "hd (tk_todo tk)"
  let ?l = "limiter_of cfg (ad_limiters s) ?k"
  note inv = ok_inv [OF ok(1)]
  have lok: "limiter_ok cfg (ad_tickets s) ?k ?l" using inv by (rule inv_limiter)
  have wait: "lm_waiters ?l \<noteq> []" using waiting_names(1) [OF inv t] by (auto simp: names_def)
  show ?thesis
  proof (cases "\<exists>u. (u, True) \<in> set (lm_waiters ?l)")
    case True
    then obtain u where u: "(u, True) \<in> set (lm_waiters ?l)" by blast
    have d: "distinct (map fst (lm_waiters ?l))" and s: "set (names ?l) = {t. waits_at (ad_tickets s t) ?k}"
      using lok by (simp_all add: limiter_ok_def names_def)
    have "u \<in> set (names ?l)" using u by (auto simp: names_def intro: rev_image_eqI)
    then obtain uk where uk: "ad_tickets s u = Some uk" "tk_phase uk = Waiting" "hd (tk_todo uk) = ?k"
      using s by (auto simp: waits_at_def split: option.splits)
    have "working_step cfg s (resume cfg u uk s)"
      using uk map_of_is_SomeI [OF d u] by (intro working_step.resumed) auto
    then show ?thesis by blast
  next
    case False
    then have v: "lm_value ?l = 0" and none: "filter snd (lm_waiters ?l) = []"
      using lok wait by (auto simp: limiter_ok_def woken_def filter_empty_conv)
    then have "card (holders (ad_tickets s) ?k) \<noteq> 0"
      using lok cap [rule_format, of ?k] by (simp add: limiter_ok_def permits_def)
    then obtain u where "u \<in> holders (ad_tickets s) ?k" by (metis card.empty ex_in_conv)
    then obtain uk where uk: "ad_tickets s u = Some uk" "?k \<in> set (tk_held uk)" by (auto simp: holders_def)
    then have "tk_phase uk \<noteq> Gone" using ok(2) by (auto simp: no_leak_def)
    then show ?thesis using uk others active_can_step by (cases "tk_phase uk = Waiting") auto
  qed
qed

lemma can_step:
  assumes ok: "admission_ok cfg s" "no_leak s" and cap: "\<forall>k. 0 < capacity cfg k"
    and t: "ad_tickets s t = Some tk" "tk_phase tk \<noteq> Gone"
  shows "\<exists>s'. working_step cfg s s'"
proof -
  have session_last: "\<not> is_session_key k"
    if v: "ad_tickets s v = Some vk" "tk_phase vk = Waiting" "k \<in> set (tk_held vk)" for v vk k
    using waiting_todo(2) [OF ok(1) v(1,2)] v(3) by (auto simp: keys_ordered_def sorted_wrt_append)
  have step: "\<exists>s'. working_step cfg s s'" if w: "ad_tickets s u = Some uk" "tk_phase uk = Waiting" for u uk
  proof (rule waiting_progress [OF ok cap w])
    fix v vk
    assume v: "ad_tickets s v = Some vk" "tk_phase vk = Waiting" "hd (tk_todo uk) \<in> set (tk_held vk)"
    then have "is_session_key (hd (tk_todo vk))"
      using waiting_todo(2) [OF ok(1) v(1,2)] by (auto simp: keys_ordered_def sorted_wrt_append)
    then have last_key: "\<not> (ad_tickets s x = Some xk \<and> tk_phase xk = Waiting \<and> hd (tk_todo vk) \<in> set (tk_held xk))" for x xk
      using session_last by blast
    show "\<exists>s'. working_step cfg s s'"
      by (rule waiting_progress [OF ok cap v(1,2)]) (use last_key in blast)
  qed
  show ?thesis using t step active_can_step by (cases "tk_phase tk = Waiting") auto
qed

definition ticket_work :: "ticket \<Rightarrow> nat" where
  "ticket_work tk =
     (case tk_phase tk of Waiting \<Rightarrow> 4 + length (tk_todo tk) | Admitted \<Rightarrow> 4 | Chatting \<Rightarrow> 3 | Opening \<Rightarrow> 3
      | Unread \<Rightarrow> 2 | Reading \<Rightarrow> 1 | Gone \<Rightarrow> 0)"

definition chat_work :: "admission \<Rightarrow> nat" where
  "chat_work s = (\<Sum>t\<in>dom (ad_tickets s). ticket_work (the (ad_tickets s t)))"

lemma chat_work_put:
  assumes "finite (dom (ad_tickets s))" "ad_tickets s t = Some tk" "ticket_work tk' < ticket_work tk"
    "ad_tickets s' = (ad_tickets s)(t \<mapsto> tk')"
  shows "chat_work s' < chat_work s"
proof -
  have d: "dom (ad_tickets s') = dom (ad_tickets s)" "t \<in> dom (ad_tickets s)" using assms(2,4) by auto
  show ?thesis unfolding chat_work_def d(1)
    using assms d(2) by (intro sum_strict_mono_ex1) (auto intro!: bexI [of _ t])
qed

lemma acquire_work: "acquire cfg t ks tk ls = (ls', tk', r) \<Longrightarrow> ticket_work tk' \<le> 4 + length ks"
proof (induction ks arbitrary: tk ls)
  case Nil
  then show ?case by (auto simp: ticket_work_def)
next
  case (Cons k ks)
  show ?case
  proof (cases "locked (limiter_of cfg ls k)")
    case True
    then show ?thesis using Cons.prems by (auto simp: sem_reserve ticket_work_def split: if_splits)
  next
    case False
    then show ?thesis using Cons.prems by (auto simp: sem_reserve dest!: Cons.IH)
  qed
qed

lemma working_decreases:
  assumes "admission_ok cfg s" "working_step cfg s s'"
  shows "chat_work s' < chat_work s"
proof -
  have fin: "finite (dom (ad_tickets s))" using assms(1) by (simp add: admission_ok_def admission_inv_def)
  show ?thesis using assms(2)
  proof cases
    case (resumed t tk)
    obtain ls' tk' r where a: "acquire cfg t (tl (tk_todo tk)) (tk\<lparr>tk_held := tk_held tk @ [hd (tk_todo tk)]\<rparr>)
      ((ad_limiters s)(hd (tk_todo tk) \<mapsto> leave_queue (sem_resume t (limiter_of cfg (ad_limiters s) (hd (tk_todo tk)))))) =
      (ls', tk', r)" by (metis prod_cases3)
    have "tk_todo tk \<noteq> []" using ok_ticket [OF assms(1) resumed(2)] resumed(3) by (simp add: ticket_ok_def)
    then have "ticket_work tk' < ticket_work tk" using acquire_work [OF a] resumed(3)
      by (cases "tk_todo tk") (simp_all add: ticket_work_def)
    from chat_work_put [OF fin resumed(2) this] show ?thesis
      by (simp add: resumed(1) resume_def after_acquire_def Let_def a)
  qed (rule chat_work_put [OF fin], assumption, simp_all add: ticket_work_def announce_def put_ticket_def finish_def)+
qed

definition all_quiet :: "limits \<Rightarrow> admission \<Rightarrow> bool" where
  "all_quiet cfg s \<longleftrightarrow> (\<forall>t tk. ad_tickets s t = Some tk \<longrightarrow> tk_phase tk = Gone) \<and>
     (\<forall>k. limiter_of cfg (ad_limiters s) k = \<lparr>lm_value = capacity cfg k, lm_waiters = [], lm_queued = 0\<rparr>)"

lemma gone_quiet:
  assumes ok: "admission_ok cfg s" "no_leak s" and gone: "\<And>t tk. ad_tickets s t = Some tk \<Longrightarrow> tk_phase tk = Gone"
  shows "all_quiet cfg s"
proof -
  have "limiter_of cfg (ad_limiters s) k = \<lparr>lm_value = capacity cfg k, lm_waiters = [], lm_queued = 0\<rparr>" for k
  proof -
    have l: "limiter_ok cfg (ad_tickets s) k (limiter_of cfg (ad_limiters s) k)" using inv_limiter ok_inv [OF ok(1)] by blast
    have "\<not> waits_at (ad_tickets s t) k" for t using gone by (auto simp: waits_at_def split: option.splits)
    moreover have "holders (ad_tickets s) k = {}" using gone ok(2) by (auto simp: holders_def no_leak_def)
    ultimately show ?thesis using l
      by (cases "limiter_of cfg (ad_limiters s) k") (auto simp: limiter_ok_def permits_def names_def)
  qed
  then show ?thesis using gone by (auto simp: all_quiet_def)
qed

lemma scheduler_capacity: "0 < capacity (scheduler_limits ta tq sa sq) k"
  by (auto simp: capacity_def scheduler_limits_def less_max_iff_disj)

section \<open>Lost permits\<close>

text \<open>The permits that nobody will give back: those of requests that are over.\<close>

definition lost :: "admission \<Rightarrow> string \<Rightarrow> nat set" where
  "lost s k = {t. \<exists>tk. ad_tickets s t = Some tk \<and> tk_phase tk = Gone \<and> k \<in> set (tk_held tk)}"

lemma gone_stays:
  assumes "admission_step cfg s s'" "ad_tickets s t = Some tk" "tk_phase tk = Gone"
  shows "ad_tickets s' t = Some tk"
  using assms
proof (induction rule: admission_step.induct)
  case (orderly s s')
  then show ?case
  proof (induction rule: orderly_step.induct)
    case (arrival s u hooks streamed model payload)
    then show ?case by (auto simp: arrive_def Let_def after_acquire_def split: prod.splits sum.splits)
  next
    case (resumed s u uk)
    then show ?case by (auto simp: resume_def Let_def after_acquire_def split: prod.splits)
  qed (auto simp: time_out_def cancel_waiting_def stop_waiting_def put_ticket_def announce_def finish_def Let_def)
qed (auto simp: cancel_waiting_def stop_waiting_def put_ticket_def Let_def)

lemma lost_grows:
  assumes "(admission_step cfg)\<^sup>*\<^sup>* s s'"
  shows "lost s k \<subseteq> lost s' k"
  using assms
proof (induction rule: rtranclp_induct)
  case (step y z)
  have "lost y k \<subseteq> lost z k" unfolding lost_def using gone_stays [OF step.hyps(2)] by blast
  then show ?case using step.IH by blast
qed simp

lemma lost_holders: "lost s k \<subseteq> holders (ad_tickets s) k"
  by (auto simp: lost_def holders_def)

lemma holders_bounded:
  assumes "admission_ok cfg s"
  shows "card (holders (ad_tickets s) k) \<le> capacity cfg k" "finite (holders (ad_tickets s) k)"
  using inv_limiter [OF ok_inv [OF assms], of k] inv_finite [OF ok_inv [OF assms]] by (simp_all add: limiter_ok_def)

section \<open>Properties\<close>

text \<open>C5. However requests arrive, wait, run, fail, time out and are cancelled, and in whatever order:
  for every target and every session, no more requests hold a permit than may be active, no more
  wait than the queue may hold, and both numbers are the ones the code keeps.\<close>

theorem admission_bounded:
  assumes "(admission_step cfg)\<^sup>*\<^sup>* no_chats s"
  shows "card (holders (ad_tickets s) k) \<le> capacity cfg k \<and>
    card {t. waits_at (ad_tickets s t) k} \<le> queue_limit cfg k \<and>
    lm_queued (limiter_of cfg (ad_limiters s) k) = card {t. waits_at (ad_tickets s t) k}"
proof -
  have ok: "admission_ok cfg s" using assms by (intro admission.inv_reachable [of no_chats]) auto
  have l: "limiter_ok cfg (ad_tickets s) k (limiter_of cfg (ad_limiters s) k)" using inv_limiter ok_inv [OF ok] by blast
  then have "length (names (limiter_of cfg (ad_limiters s) k)) = card {t. waits_at (ad_tickets s t) k}"
    using distinct_card by (force simp: limiter_ok_def)
  then show ?thesis using l by (simp add: limiter_ok_def)
qed

text \<open>C6. Unless a task is cancelled while it holds a permit, or a stream is never read, nothing
  deadlocks although a request takes two permits one after the other: from every reachable state, every
  run in which the model server answers and the readers read is finite, and where it ends no request is
  left and every limiter has all its permits back and an empty queue.\<close>

theorem chats_are_served:
  assumes "cfg = scheduler_limits ta tq sa sq" "(orderly_step cfg)\<^sup>*\<^sup>* no_chats s"
  shows "(\<forall>s'. working_step cfg s s' \<longrightarrow> chat_work s' < chat_work s) \<and>
    ((\<nexists>s'. working_step cfg s s') \<longrightarrow> all_quiet cfg s)"
proof -
  have ok: "admission_ok cfg s" "no_leak s" using orderly.inv_reachable [OF refl assms(2)] by auto
  have cap: "\<forall>k. 0 < capacity cfg k" by (simp add: assms(1) scheduler_capacity)
  show ?thesis
    using working_decreases [OF ok(1)] can_step [OF ok cap] gone_quiet [OF ok] by blast
qed

text \<open>A streaming request that is cancelled before its stream is open, a stream that is dropped
  unread, a request that is cancelled while it waits for its session: each keeps its permit after it is
  over. Once the requests that are over hold all permits of a target, no later request of that target is
  ever admitted.\<close>

theorem lost_permits_block:
  assumes "(admission_step cfg)\<^sup>*\<^sup>* no_chats s" "card (lost s k) = capacity cfg k"
    and "(admission_step cfg)\<^sup>*\<^sup>* s s'" "ad_tickets s' t = Some tk" "tk_phase tk \<noteq> Gone"
  shows "k \<notin> set (tk_held tk)"
proof -
  have ok: "admission_ok cfg s'" using rtranclp_trans [OF assms(1,3)] by (intro admission.inv_reachable [of no_chats]) auto
  have sub: "lost s k \<subseteq> lost s' k" using assms(3) by (rule lost_grows)
  then have "lost s k \<subseteq> holders (ad_tickets s') k" using lost_holders by blast
  then have "holders (ad_tickets s') k = lost s k"
    using holders_bounded [OF ok, of k] assms(2) card_seteq by metis
  then have "k \<in> set (tk_held tk) \<Longrightarrow> t \<in> lost s' k" using sub assms(4) by (auto simp: holders_def)
  then show ?thesis using assms(4,5) by (auto simp: lost_def)
qed

section \<open>A run\<close>

definition demo_limits :: limits where
  "demo_limits = scheduler_limits 1 1 1 0"

definition arrives :: "nat \<Rightarrow> bool \<Rightarrow> admission \<Rightarrow> admission" where
  "arrives t streamed s = arrive demo_limits (\<lambda>_ _ _. Inr ()) t streamed ''m'' [] s"

definition with_ticket :: "nat \<Rightarrow> (ticket \<Rightarrow> admission \<Rightarrow> admission) \<Rightarrow> admission \<Rightarrow> admission" where
  "with_ticket t f s = (case ad_tickets s t of None \<Rightarrow> s | Some tk \<Rightarrow> f tk s)"

text \<open>One request runs, the second waits.\<close>

definition demo_busy :: admission where
  "demo_busy = arrives 1 False (with_ticket 0 (announce 0) (arrives 0 False no_chats))"

text \<open>One stream was opened and dropped.\<close>

definition demo_dropped :: admission where
  "demo_dropped = with_ticket 0 (\<lambda>tk. put_ticket 0 (tk\<lparr>tk_phase := Gone\<rparr>))
     (with_ticket 0 (\<lambda>tk. put_ticket 0 (tk\<lparr>tk_phase := Unread\<rparr>)) (with_ticket 0 (announce 0) (arrives 0 True no_chats)))"

lemma arrives_step: "ad_tickets s t = None \<Longrightarrow> orderly_step demo_limits s (arrives t streamed s)"
  unfolding arrives_def by (rule arrival)

lemma announce_step:
  "map_option tk_phase (ad_tickets s t) = Some Admitted \<Longrightarrow> orderly_step demo_limits s (with_ticket t (announce t) s)"
  by (auto simp: with_ticket_def intro: orderly_step.announced)

lemma demo_busy_reached: "(orderly_step demo_limits)\<^sup>*\<^sup>* no_chats demo_busy"
proof -
  have a: "(orderly_step demo_limits)\<^sup>*\<^sup>* no_chats (arrives 0 False no_chats)"
    by (rule r_into_rtranclp, rule arrives_step) (simp add: no_chats_def)
  have b: "map_option tk_phase (ad_tickets (arrives 0 False no_chats) 0) = Some Admitted"
    "ad_tickets (with_ticket 0 (announce 0) (arrives 0 False no_chats)) 1 = None" by code_simp+
  show ?thesis unfolding demo_busy_def
    using rtranclp.rtrancl_into_rtrancl [OF rtranclp.rtrancl_into_rtrancl [OF a announce_step [OF b(1)]] arrives_step [OF b(2)]] .
qed

lemma demo_dropped_reached: "(admission_step demo_limits)\<^sup>*\<^sup>* no_chats demo_dropped"
proof -
  let ?a = "arrives 0 True no_chats" and ?b = "with_ticket 0 (announce 0) (arrives 0 True no_chats)"
  let ?c = "with_ticket 0 (\<lambda>tk. put_ticket 0 (tk\<lparr>tk_phase := Unread\<rparr>)) ?b"
  have p: "ad_tickets no_chats 0 = None" "map_option tk_phase (ad_tickets ?a 0) = Some Admitted"
    "map_option tk_phase (ad_tickets ?b 0) = Some Opening" "map_option tk_phase (ad_tickets ?c 0) = Some Unread"
    by code_simp+
  have "orderly_step demo_limits no_chats ?a" using p(1) by (rule arrives_step)
  moreover have "orderly_step demo_limits ?a ?b" using p(2) by (rule announce_step)
  moreover have "orderly_step demo_limits ?b ?c" using p(3) by (auto simp: with_ticket_def intro: orderly_step.opened)
  moreover have "admission_step demo_limits ?c demo_dropped"
    using p(4) unfolding demo_dropped_def
    by (cases "ad_tickets ?c 0") (auto simp: with_ticket_def [of _ "\<lambda>tk. put_ticket 0 (tk\<lparr>tk_phase := Gone\<rparr>)"] intro: abandoned)
  ultimately show ?thesis
    by (meson admission_step.orderly rtranclp.rtrancl_into_rtrancl rtranclp.rtrancl_refl)
qed

theorem admission_bounded_witness:
  "card (holders (ad_tickets demo_busy) ''target:auto:model:m'') \<le> 1 \<and>
   lm_queued (limiter_of demo_limits (ad_limiters demo_busy) ''target:auto:model:m'') = 1 \<and>
   card {t. waits_at (ad_tickets demo_busy t) ''target:auto:model:m''} = 1"
proof -
  have v: "lm_queued (limiter_of demo_limits (ad_limiters demo_busy) ''target:auto:model:m'') = 1"
    "capacity demo_limits ''target:auto:model:m'' = 1" by code_simp+
  have "(admission_step demo_limits)\<^sup>*\<^sup>* no_chats demo_busy"
    using demo_busy_reached by (rule mono_rtranclp [rule_format, rotated]) (rule admission_step.orderly)
  from admission_bounded [OF this, of "''target:auto:model:m''"] v show ?thesis by simp
qed

theorem chats_are_served_witness:
  "\<not> all_quiet demo_limits demo_busy \<and> (\<exists>s'. working_step demo_limits demo_busy s')"
proof -
  have d: "map_option tk_phase (ad_tickets demo_busy 0) = Some Chatting" by code_simp
  then have "\<not> all_quiet demo_limits demo_busy" by (auto simp: all_quiet_def)
  with chats_are_served [OF _ demo_busy_reached] show ?thesis
    unfolding demo_limits_def by blast
qed

lemma ticket_elsewhere:
  "t \<noteq> u \<Longrightarrow> ad_tickets (arrives u streamed s) t = ad_tickets s t"
  "t \<noteq> u \<Longrightarrow> ad_tickets (with_ticket u (announce u) s) t = ad_tickets s t"
  "t \<noteq> u \<Longrightarrow> ad_tickets (with_ticket u (\<lambda>tk. put_ticket u (f tk)) s) t = ad_tickets s t"
  by (auto simp: arrives_def arrive_def after_acquire_def with_ticket_def announce_def put_ticket_def Let_def
      split: prod.splits sum.splits option.splits)

theorem lost_permits_block_witness:
  "map_option tk_phase (ad_tickets (arrives 1 False demo_dropped) 1) = Some Waiting \<and>
   (\<exists>tk. ad_tickets (arrives 1 False demo_dropped) 1 = Some tk \<and> ''target:auto:model:m'' \<notin> set (tk_held tk))"
proof -
  have v: "map_option tk_phase (ad_tickets (arrives 1 False demo_dropped) 1) = Some Waiting"
    "map_option (\<lambda>tk. (tk_phase tk, tk_held tk)) (ad_tickets demo_dropped 0) = Some (Gone, [''target:auto:model:m''])"
    "capacity demo_limits ''target:auto:model:m'' = 1" by code_simp+
  have n: "t \<noteq> 0 \<Longrightarrow> ad_tickets demo_dropped t = None" for t
    by (simp add: demo_dropped_def ticket_elsewhere) (simp add: no_chats_def)
  obtain tk0 where tk0: "ad_tickets demo_dropped 0 = Some tk0" "tk_phase tk0 = Gone" "tk_held tk0 = [''target:auto:model:m'']"
    using v(2) by auto
  have "t \<in> lost demo_dropped ''target:auto:model:m'' \<longleftrightarrow> t = 0" for t
    using tk0 n [of t] by (cases "t = 0") (simp_all add: lost_def)
  then have "lost demo_dropped ''target:auto:model:m'' = {0}" by blast
  then have c: "card (lost demo_dropped ''target:auto:model:m'') = capacity demo_limits ''target:auto:model:m''"
    by (simp add: v(3))
  have "ad_tickets demo_dropped 1 = None" using n by simp
  then have "admission_step demo_limits demo_dropped (arrives 1 False demo_dropped)"
    by (intro admission_step.orderly arrives_step)
  then have r: "(admission_step demo_limits)\<^sup>*\<^sup>* demo_dropped (arrives 1 False demo_dropped)" by (rule r_into_rtranclp)
  obtain tk where tk: "ad_tickets (arrives 1 False demo_dropped) 1 = Some tk" "tk_phase tk = Waiting"
    using v(1) by auto
  from lost_permits_block [OF demo_dropped_reached c r tk(1)] tk v(1) show ?thesis by simp
qed

end
