(* ===== verification/Chat_Slots.thy ===== *)
theory Chat_Slots
  imports Py_Text
begin

text \<open>
  The cache slots of a model server (\<open>core/chat/slot_allocator.py\<close>): every account of a route gets a
  slot of its own, or the one it asks for when nobody else has it.
\<close>

record slots =
  sl_account_slots :: "(string \<times> (string \<times> int) list) list"
  sl_slot_owners :: "(string \<times> (int \<times> string) list) list"

definition no_slots :: slots where
  "no_slots = \<lparr>sl_account_slots = [], sl_slot_owners = []\<rparr>"

definition account_slots :: "slots \<Rightarrow> string \<Rightarrow> (string \<times> int) list" where
  "account_slots s route = (case map_of (sl_account_slots s) route of None \<Rightarrow> [] | Some xs \<Rightarrow> xs)"

definition slot_owners :: "slots \<Rightarrow> string \<Rightarrow> (int \<times> string) list" where
  "slot_owners s route = (case map_of (sl_slot_owners s) route of None \<Rightarrow> [] | Some xs \<Rightarrow> xs)"

function next_free :: "(int \<times> string) list \<Rightarrow> int \<Rightarrow> int" where
  "next_free owners slot = (if slot \<in> fst ` set owners then next_free owners (slot + 1) else slot)"
  by pat_completeness auto

lemma next_free_measure:
  assumes "slot \<in> fst ` set (owners :: (int \<times> string) list)"
  shows "card {k \<in> fst ` set owners. slot + 1 \<le> k} < card {k \<in> fst ` set owners. slot \<le> k}"
proof (rule psubset_card_mono)
  have "slot \<in> {k \<in> fst ` set owners. slot \<le> k}" "slot \<notin> {k \<in> fst ` set owners. slot + 1 \<le> k}"
    using assms by simp_all
  moreover have "{k \<in> fst ` set owners. slot + 1 \<le> k} \<subseteq> {k \<in> fst ` set owners. slot \<le> k}" by auto
  ultimately show "{k \<in> fst ` set owners. slot + 1 \<le> k} \<subset> {k \<in> fst ` set owners. slot \<le> k}" by blast
qed simp

termination next_free
  by (relation "measure (\<lambda>(owners, slot). card {k \<in> fst ` set owners. slot \<le> k})")
    (use next_free_measure in auto)

declare next_free.simps [simp del]

definition next_available_slot :: "(int \<times> string) list \<Rightarrow> int" where
  "next_available_slot owners = next_free owners 0"

text \<open>The tables of a route are made when the route is first used.\<close>

definition store_slot :: "string \<Rightarrow> string \<Rightarrow> int \<Rightarrow> slots \<Rightarrow> slots" where
  "store_slot route account slot s =
     \<lparr>sl_account_slots = AList.update route (AList.update account slot (account_slots s route)) (sl_account_slots s),
      sl_slot_owners = AList.update route (AList.update slot account (slot_owners s route)) (sl_slot_owners s)\<rparr>"

definition open_route :: "string \<Rightarrow> slots \<Rightarrow> slots" where
  "open_route route s =
     \<lparr>sl_account_slots = AList.update route (account_slots s route) (sl_account_slots s),
      sl_slot_owners = AList.update route (slot_owners s route) (sl_slot_owners s)\<rparr>"

definition assign_slot ::
  "string \<Rightarrow> string \<Rightarrow> int option \<Rightarrow> bool \<Rightarrow> slots \<Rightarrow> (exn + int option) \<times> slots" where
  "assign_slot route account requested admin s =
     (if account = [] \<or> admin then (Inr requested, s)
      else let s1 = open_route route s in
      (case requested of
         Some slot \<Rightarrow>
           (case map_of (slot_owners s1 route) slot of
              Some owner \<Rightarrow>
                if owner \<noteq> account
                then (Inl (Exn ''ChatSlotOwnershipError'' (''KV slot '' @ str_int slot @ '' for '' @ route @
                        '' is assigned to another account'')), s1)
                else (Inr (Some slot), store_slot route account slot s1)
            | None \<Rightarrow> (Inr (Some slot), store_slot route account slot s1))
       | None \<Rightarrow>
           (case map_of (account_slots s1 route) account of
              Some slot \<Rightarrow> (Inr (Some slot), s1)
            | None \<Rightarrow> (let slot = next_available_slot (slot_owners s1 route)
                      in (Inr (Some slot), store_slot route account slot s1)))))"

section \<open>No slot has two accounts\<close>

lemma open_route_simps [simp]:
  "account_slots (open_route route s) r = account_slots s r" "slot_owners (open_route route s) r = slot_owners s r"
  by (auto simp: open_route_def account_slots_def slot_owners_def update_conv')

lemma store_slot_simps:
  "map_of (account_slots (store_slot route a n s) r) =
     (if r = route then (map_of (account_slots s r))(a \<mapsto> n) else map_of (account_slots s r))"
  "map_of (slot_owners (store_slot route a n s) r) =
     (if r = route then (map_of (slot_owners s r))(n \<mapsto> a) else map_of (slot_owners s r))"
  by (auto simp: store_slot_def account_slots_def slot_owners_def update_conv')

lemma next_free_unowned: "next_free owners n \<notin> fst ` set owners"
proof (induction owners n rule: next_free.induct)
  case (1 owners slot)
  then show ?case by (cases "slot \<in> fst ` set owners") (simp_all add: next_free.simps [of owners slot])
qed

lemma next_free_least: "n \<le> k \<Longrightarrow> k < next_free owners n \<Longrightarrow> k \<in> fst ` set owners"
proof (induction owners n rule: next_free.induct)
  case (1 owners slot)
  then show ?case by (cases "k = slot"; cases "slot \<in> fst ` set owners") (simp_all add: next_free.simps [of owners slot])
qed

inductive slot_step :: "slots \<Rightarrow> slots \<Rightarrow> bool" where
  assign: "snd (assign_slot route account requested admin s) = s' \<Longrightarrow> slot_step s s'"

definition slots_inv :: "slots \<Rightarrow> bool" where
  "slots_inv s \<longleftrightarrow> (\<forall>route account slot.
     map_of (account_slots s route) account = Some slot \<longrightarrow> map_of (slot_owners s route) slot = Some account)"

lemma inv_store:
  "slots_inv s \<Longrightarrow> map_of (slot_owners s route) slot \<in> {None, Some account} \<Longrightarrow> slots_inv (store_slot route account slot s)"
  by (auto simp: slots_inv_def store_slot_simps split: if_splits)

lemma assign_cases:
  assumes "assign_slot route account requested admin s = (res, s')"
  obtains (same) "s' = s" | (opened) "s' = open_route route s"
  | (stored) slot where "s' = store_slot route account slot (open_route route s)" "res = Inr (Some slot)"
      "map_of (slot_owners s route) slot \<in> {None, Some account}" "account \<noteq> []" "\<not> admin"
  using assms next_free_unowned [of "slot_owners s route" 0]
  by (auto simp: assign_slot_def Let_def next_available_slot_def map_of_eq_None_iff
      split: if_splits option.splits)

lemma inv_slot_step:
  assumes "slots_inv s" "slot_step s s'"
  shows "slots_inv s'"
  using assms(2)
proof cases
  case (assign route account requested admin)
  obtain res where "assign_slot route account requested admin s = (res, s')"
    using assign by (cases "assign_slot route account requested admin s") simp
  then show ?thesis
    by (cases rule: assign_cases) (use assms(1) inv_store in \<open>auto simp: slots_inv_def\<close>)
qed

lemma no_slots_inv: "s = no_slots \<Longrightarrow> slots_inv s"
  by (simp add: slots_inv_def no_slots_def account_slots_def)

interpretation slots: inductive_invariant "\<lambda>s. s = no_slots" slot_step slots_inv
  by unfold_locales (blast intro: no_slots_inv inv_slot_step)+

text \<open>An owner keeps its slot.\<close>

lemma owner_stays:
  assumes "map_of (slot_owners s route) slot = Some account" "slot_step s s'"
  shows "map_of (slot_owners s' route) slot = Some account"
  using assms(2)
proof cases
  case (assign r a requested admin)
  obtain res where "assign_slot r a requested admin s = (res, s')"
    using assign by (cases "assign_slot r a requested admin s") simp
  then show ?thesis
    by (cases rule: assign_cases) (use assms(1) in \<open>auto simp: store_slot_simps\<close>)
qed

lemma owner_stays_run:
  "slot_step\<^sup>*\<^sup>* s s' \<Longrightarrow> map_of (slot_owners s route) slot = Some account \<Longrightarrow>
   map_of (slot_owners s' route) slot = Some account"
  by (induction rule: rtranclp_induct) (auto intro: owner_stays)

lemma assigned_is_owned:
  assumes "slots_inv s" "assign_slot route account requested False s = (Inr (Some slot), s')" "account \<noteq> []"
  shows "map_of (slot_owners s' route) slot = Some account"
  using assms
  by (auto simp: assign_slot_def Let_def store_slot_simps slots_inv_def split: if_splits option.splits)

lemma str_int_0: "str_int 0 = ''0''"
  by code_simp

section \<open>Properties\<close>

text \<open>A slot that an account was given is never given to another account of the route, whatever is
  requested and assigned in between; only administrators and requests without an account bypass this.\<close>

theorem slot_is_private:
  assumes "slot_step\<^sup>*\<^sup>* no_slots s1" "account1 \<noteq> []"
    "assign_slot route account1 requested1 False s1 = (Inr (Some slot), s2)"
    and "slot_step\<^sup>*\<^sup>* s2 s3" "account2 \<noteq> []" "assign_slot route account2 requested2 False s3 = (Inr (Some slot), s4)"
  shows "account2 = account1"
proof -
  have i1: "slots_inv s1" using assms(1) by (intro slots.inv_reachable) auto
  have s: "slot_step s1 s2" using slot_step.assign [of route account1 requested1 False s1] assms(3) by simp
  then have "slots_inv s2" using i1 inv_slot_step by blast
  then have i3: "slots_inv s3" using assms(4) slots.inv_run by blast
  have "map_of (slot_owners s3 route) slot = Some account1"
    using owner_stays_run [OF assms(4)] assigned_is_owned [OF i1 assms(3,2)] by blast
  moreover have "slot_step s3 s4" using slot_step.assign [of route account2 requested2 False s3] assms(6) by simp
  ultimately have "map_of (slot_owners s4 route) slot = Some account1" using owner_stays by blast
  then show ?thesis using assigned_is_owned [OF i3 assms(6,5)] by simp
qed

text \<open>An account that asks for one slot after the other owns all of them, for good: what it gave up is
  refused to the others, and slots are handed out beyond any number the server has.\<close>

theorem slots_are_never_freed:
  "let s1 = snd (assign_slot ''r'' ''a'' (Some 0) False no_slots);
       s2 = snd (assign_slot ''r'' ''a'' (Some 1) False s1) in
   fst (assign_slot ''r'' ''a'' None False s2) = Inr (Some 1) \<and>
   fst (assign_slot ''r'' ''b'' (Some 0) False s2) =
     Inl (Exn ''ChatSlotOwnershipError'' ''KV slot 0 for r is assigned to another account'') \<and>
   fst (assign_slot ''r'' ''b'' None False s2) = Inr (Some 2)"
  by (simp add: assign_slot_def Let_def open_route_def store_slot_def account_slots_def slot_owners_def no_slots_def
      next_available_slot_def next_free.simps str_int_0)

theorem slot_is_private_witness:
  "fst (assign_slot ''r'' ''a'' None False no_slots) = Inr (Some 0) \<and>
   fst (assign_slot ''r'' ''b'' None False (snd (assign_slot ''r'' ''a'' None False no_slots))) \<noteq> Inr (Some 0)"
proof -
  let ?s = "snd (assign_slot ''r'' ''a'' None False no_slots)"
  have a: "assign_slot ''r'' ''a'' None False no_slots = (Inr (Some 0), ?s)"
    by (simp add: assign_slot_def Let_def open_route_def account_slots_def slot_owners_def no_slots_def
        next_available_slot_def next_free.simps)
  from slot_is_private [OF rtranclp.rtrancl_refl _ a rtranclp.rtrancl_refl, of "''b''" None]
  have "fst (assign_slot ''r'' ''b'' None False ?s) \<noteq> Inr (Some 0)"
    by (cases "assign_slot ''r'' ''b'' None False ?s") auto
  then show ?thesis using a by (metis fst_conv)
qed

end
