(* ===== verification/Job_Contracts.thy ===== *)
theory Job_Contracts
  imports Py_Text
begin

text \<open>
  What a job may ask for (\<open>core/orchestration/job_contracts.py\<close>): the payload of every job type is
  checked and normalised by the controller when the job is made, and again by the worker that runs it.

  The models are pydantic models. Their fields, defaults, bounds and validators are modelled; the
  conversion of a single value to a type is pydantic's and a parameter \<open>conv\<close>, \<open>None\<close> being a
  rejection. The text of a validation error is left out. \<open>model_dump(mode='json', exclude_none=True)\<close>
  is the list of the fields that are not \<open>None\<close>.
\<close>

section \<open>Fields\<close>

datatype py_type =
    TStr | TInt | TFloat | TBool | TDict | TStrList | TStrOrList | TContent
  | TLiteral "string list" | TMessages | TRequirements

type_synonym converter = "py_type \<Rightarrow> pyval \<Rightarrow> pyval option"

record field =
  fd_name :: string
  fd_type :: py_type
  fd_optional :: bool
  fd_default :: "pyval option"
  fd_check :: "pyval \<Rightarrow> bool"
  fd_post :: "pyval \<Rightarrow> pyval option"

definition fld :: "string \<Rightarrow> py_type \<Rightarrow> bool \<Rightarrow> pyval option \<Rightarrow> field" where
  "fld name ty opt dflt =
     \<lparr>fd_name = name, fd_type = ty, fd_optional = opt, fd_default = dflt, fd_check = (\<lambda>_. True), fd_post = Some\<rparr>"

definition at_least :: "rat \<Rightarrow> field \<Rightarrow> field" where
  "at_least n f = f\<lparr>fd_check := (\<lambda>v. case num_of v of Some x \<Rightarrow> n \<le> x | None \<Rightarrow> False)\<rparr>"

definition between :: "rat \<Rightarrow> rat \<Rightarrow> field \<Rightarrow> field" where
  "between m n f = f\<lparr>fd_check := (\<lambda>v. case num_of v of Some x \<Rightarrow> m \<le> x \<and> x \<le> n | None \<Rightarrow> False)\<rparr>"

fun py_len :: "pyval \<Rightarrow> nat" where
  "py_len (PStr s) = length s"
| "py_len (PList xs) = length xs"
| "py_len (PDict d) = length d"
| "py_len _ = 0"

definition sized :: "nat \<Rightarrow> field \<Rightarrow> field" where
  "sized n f = f\<lparr>fd_check := (\<lambda>v. n \<le> py_len v)\<rparr>"

definition post :: "(pyval \<Rightarrow> pyval option) \<Rightarrow> field \<Rightarrow> field" where
  "post g f = f\<lparr>fd_post := g\<rparr>"

definition invalid :: exn where
  "invalid = Exn ''ValidationError'' []"

text \<open>\<open>ChatMessage\<close> and \<open>JobRequirements\<close> ignore keys they do not know.\<close>

definition chat_message :: "converter \<Rightarrow> pyval \<Rightarrow> pyval option" where
  "chat_message conv v =
     (case v of
        PDict d \<Rightarrow>
          (case (map_of d ''role'', map_of d ''content'') of
             (Some r, Some c) \<Rightarrow>
               (case (conv TStr r, conv TContent c) of
                  (Some r', Some c') \<Rightarrow> Some (PDict [(''role'', r'), (''content'', c')])
                | _ \<Rightarrow> None)
           | _ \<Rightarrow> None)
      | _ \<Rightarrow> None)"

fun each :: "('a \<Rightarrow> 'b option) \<Rightarrow> 'a list \<Rightarrow> 'b list option" where
  "each f [] = Some []"
| "each f (x # xs) = (case f x of None \<Rightarrow> None | Some y \<Rightarrow> map_option (\<lambda>ys. y # ys) (each f xs))"

definition dict_or_default :: "converter \<Rightarrow> pydict \<Rightarrow> string \<Rightarrow> pyval option" where
  "dict_or_default conv d k = (case map_of d k of None \<Rightarrow> Some (PDict []) | Some v \<Rightarrow> conv TDict v)"

definition job_requirements :: "converter \<Rightarrow> pyval \<Rightarrow> pyval option" where
  "job_requirements conv v =
     (case v of
        PDict d \<Rightarrow>
          (case (dict_or_default conv d ''labels'', dict_or_default conv d ''capacity'') of
             (Some l, Some c) \<Rightarrow> Some (PDict [(''labels'', l), (''capacity'', c)])
           | _ \<Rightarrow> None)
      | _ \<Rightarrow> None)"

fun typed :: "converter \<Rightarrow> py_type \<Rightarrow> pyval \<Rightarrow> pyval option" where
  "typed conv (TLiteral ss) v = (case v of PStr s \<Rightarrow> if s \<in> set ss then Some v else None | _ \<Rightarrow> None)"
| "typed conv TMessages v = (case v of PList xs \<Rightarrow> map_option PList (each (chat_message conv) xs) | _ \<Rightarrow> None)"
| "typed conv TRequirements v = job_requirements conv v"
| "typed conv ty v = conv ty v"

text \<open>Bounds and field validators do not see a \<open>None\<close> or a default.\<close>

definition field_value :: "converter \<Rightarrow> pydict \<Rightarrow> field \<Rightarrow> pyval option" where
  "field_value conv d f =
     (case map_of d (fd_name f) of
        None \<Rightarrow> fd_default f
      | Some v \<Rightarrow>
          if v = PNone \<and> fd_optional f then Some PNone
          else (case typed conv (fd_type f) v of
                  None \<Rightarrow> None
                | Some w \<Rightarrow> if fd_check f w then fd_post f w else None))"

definition validate_fields :: "converter \<Rightarrow> field list \<Rightarrow> pydict \<Rightarrow> exn + pydict" where
  "validate_fields conv fs d =
     (if list_all (\<lambda>(k, _). k \<in> fd_name ` set fs) d
      then (case each (\<lambda>f. map_option (Pair (fd_name f)) (field_value conv d f)) fs of
              None \<Rightarrow> Inl invalid | Some r \<Rightarrow> Inr r)
      else Inl invalid)"

definition dump :: "pydict \<Rightarrow> pydict" where
  "dump d = filter (\<lambda>(_, v). v \<noteq> PNone) d"

section \<open>The job types\<close>

definition requirements_field :: field where
  "requirements_field = fld ''requirements'' TRequirements True (Some PNone)"

definition llm_generate_fields :: "field list" where
  "llm_generate_fields =
     [sized 1 (fld ''model'' TStr False None),
      sized 1 (fld ''messages'' TMessages False None),
      between 0 2 (fld ''temperature'' TFloat False (Some (PFloat (7 / 10)))),
      between 1 32768 (fld ''max_tokens'' TInt False (Some (PInt 512))),
      between 1 32768 (fld ''n_predict'' TInt True (Some PNone)),
      between 0 1 (fld ''top_p'' TFloat True (Some PNone)),
      at_least 0 (fld ''top_k'' TInt True (Some PNone)),
      between 0 1 (fld ''min_p'' TFloat True (Some PNone)),
      at_least 0 (fld ''repeat_penalty'' TFloat True (Some PNone)),
      fld ''seed'' TInt True (Some PNone),
      fld ''stop'' TStrOrList True (Some PNone),
      fld ''json_schema'' TDict True (Some PNone),
      fld ''grammar'' TStr True (Some PNone),
      fld ''reasoning'' TBool False (Some (PBool False)),
      fld ''target'' TStr False (Some (PStr ''auto'')),
      fld ''cache_prompt'' TBool True (Some PNone),
      fld ''slot_id'' TInt True (Some PNone),
      fld ''project_id'' TStr True (Some PNone),
      requirements_field]"

definition stop_tokens :: "pyval list \<Rightarrow> string list" where
  "stop_tokens xs = concat (map (\<lambda>v. case v of PStr s \<Rightarrow> if strip s = [] then [] else [strip s] | _ \<Rightarrow> []) xs)"

definition normalize_stop :: "pyval \<Rightarrow> pyval" where
  "normalize_stop v =
     (case v of
        PStr s \<Rightarrow>
          (case stop_tokens (map PStr (split_on CHR '','' s)) of
             [] \<Rightarrow> PNone | [t] \<Rightarrow> PStr t | ts \<Rightarrow> PList (map PStr ts))
      | PList xs \<Rightarrow> (case stop_tokens xs of [] \<Rightarrow> PNone | ts \<Rightarrow> PList (map PStr ts))
      | _ \<Rightarrow> v)"

definition strip_or_none :: "pyval \<Rightarrow> pyval" where
  "strip_or_none v = (case v of PStr s \<Rightarrow> if strip s = [] then PNone else PStr (strip s) | _ \<Rightarrow> v)"

definition put :: "string \<Rightarrow> (pyval \<Rightarrow> pyval) \<Rightarrow> pydict \<Rightarrow> pydict" where
  "put k g d = map (\<lambda>(k', v). (k', if k' = k then g v else v)) d"

definition normalize_fields :: "pydict \<Rightarrow> exn + pydict" where
  "normalize_fields d =
     (let d1 = (if dget d ''n_predict'' \<noteq> PNone then put ''max_tokens'' (\<lambda>_. dget d ''n_predict'') d else d);
          d2 = put ''grammar'' strip_or_none (put ''stop'' normalize_stop d1)
      in if dget d2 ''json_schema'' \<noteq> PNone \<and> dget d2 ''grammar'' \<noteq> PNone then Inl invalid else Inr d2)"

definition llm_generate :: "converter \<Rightarrow> pydict \<Rightarrow> exn + pydict" where
  "llm_generate conv d = bindE (validate_fields conv llm_generate_fields d) normalize_fields"

definition model_transfer_fields :: "field list" where
  "model_transfer_fields =
     [sized 1 (fld ''source_node'' TStr False None),
      sized 1 (fld ''destination_node'' TStr False None),
      sized 1 (fld ''source_file_id'' TStr False None),
      fld ''include'' (TLiteral [''selected_with_sidecars'']) False (Some (PStr ''selected_with_sidecars'')),
      fld ''source_url'' TStr True (Some PNone),
      fld ''transfer_token'' TStr True (Some PNone)]"

definition model_transfer :: "converter \<Rightarrow> pydict \<Rightarrow> exn + pydict" where
  "model_transfer conv d =
     bindE (validate_fields conv model_transfer_fields d) (\<lambda>r.
     if dget r ''source_node'' = dget r ''destination_node'' then Inl invalid else Inr r)"

definition repo_char :: "char \<Rightarrow> bool" where
  "repo_char c = (let n = char_nat c in
     (48 \<le> n \<and> n \<le> 57) \<or> (65 \<le> n \<and> n \<le> 90) \<or> (97 \<le> n \<and> n \<le> 122) \<or> c \<in> set ''._-'')"

definition is_repo_id :: "string \<Rightarrow> bool" where
  "is_repo_id s =
     (case split_on CHR ''/'' s of
        [a, b] \<Rightarrow> a \<noteq> [] \<and> b \<noteq> [] \<and> list_all repo_char a \<and> list_all repo_char b
      | _ \<Rightarrow> False)"

definition validate_repo_id :: "pyval \<Rightarrow> pyval option" where
  "validate_repo_id v = (case v of PStr s \<Rightarrow> if is_repo_id (strip s) then Some (PStr (strip s)) else None | _ \<Rightarrow> None)"

definition bad_gguf_path :: "string \<Rightarrow> bool" where
  "bad_gguf_path p \<longleftrightarrow> p = [] \<or> starts_with ''/'' p \<or> CHR 0x5C \<in> set p \<or> ''..'' \<in> set (split_on CHR ''/'' p) \<or>
     \<not> ends_with ''.gguf'' (lower p)"

definition validate_include_file :: "pyval \<Rightarrow> pyval option" where
  "validate_include_file v =
     (case v of PStr s \<Rightarrow> if bad_gguf_path (strip s) then None else Some (PStr (strip s)) | _ \<Rightarrow> None)"

definition normalize_text :: "pyval \<Rightarrow> pyval option" where
  "normalize_text v = Some (strip_or_none v)"

definition model_download_fields :: "field list" where
  "model_download_fields =
     [post validate_repo_id (sized 1 (fld ''repo_id'' TStr False None)),
      post normalize_text (fld ''revision'' TStr True (Some PNone)),
      post validate_include_file (fld ''include_file'' TStr True (Some PNone)),
      post validate_include_file (fld ''mmproj_file'' TStr True (Some PNone)),
      requirements_field]"

definition model_download :: "converter \<Rightarrow> pydict \<Rightarrow> exn + pydict" where
  "model_download conv d = validate_fields conv model_download_fields d"

definition model_install_fields :: "field list" where
  "model_install_fields = model_download_fields @
     [post normalize_text (sized 1 (fld ''model_name'' TStr False None)),
      between 1024 65535 (fld ''port'' TInt False None),
      at_least 512 (fld ''ctx'' TInt False (Some (PInt 4096))),
      at_least 0 (fld ''gpu_layers'' TInt False (Some (PInt 0))),
      post normalize_text (fld ''host'' TStr False (Some (PStr ''127.0.0.1''))),
      fld ''reasoning'' (TLiteral [''on'', ''off'', ''auto'']) True (Some PNone),
      fld ''reasoning_budget'' TInt True (Some PNone),
      post normalize_text (fld ''prompt_template'' TStr True (Some PNone)),
      fld ''vision'' TBool False (Some (PBool False)),
      fld ''supports_mtp'' TBool False (Some (PBool False)),
      post normalize_text (fld ''draft_model_path'' TStr True (Some PNone)),
      fld ''start'' TBool False (Some (PBool True))]"

definition model_install :: "converter \<Rightarrow> pydict \<Rightarrow> exn + pydict" where
  "model_install conv d = validate_fields conv model_install_fields d"

definition llm_embed_fields :: "field list" where
  "llm_embed_fields =
     [sized 1 (fld ''model'' TStr False None), fld ''input'' TStrOrList False None,
      fld ''target'' TStr False (Some (PStr ''auto'')), requirements_field]"

definition llm_embed :: "converter \<Rightarrow> pydict \<Rightarrow> exn + pydict" where
  "llm_embed conv d = validate_fields conv llm_embed_fields d"

definition batch_case_fields :: "field list" where
  "batch_case_fields =
     [sized 1 (fld ''messages'' TMessages False None), fld ''id'' TStr True (Some PNone),
      fld ''model'' TStr True (Some PNone), fld ''target'' TStr True (Some PNone),
      between 0 2 (fld ''temperature'' TFloat True (Some PNone)),
      between 1 32768 (fld ''max_tokens'' TInt True (Some PNone))]"

text \<open>The cases of a batch keep their own dumps, in the model's fields without \<open>None\<close>.\<close>

definition batch_case :: "converter \<Rightarrow> pyval \<Rightarrow> pyval option" where
  "batch_case conv v =
     (case v of PDict d \<Rightarrow> (case validate_fields conv batch_case_fields d of Inl _ \<Rightarrow> None | Inr r \<Rightarrow> Some (PDict (dump r)))
      | _ \<Rightarrow> None)"

definition llm_batch_fields :: "field list" where
  "llm_batch_fields =
     [sized 1 (fld ''model'' TStr False None),
      fld ''target'' TStr False (Some (PStr ''auto'')),
      between 0 2 (fld ''temperature'' TFloat False (Some (PFloat (7 / 10)))),
      between 1 32768 (fld ''max_tokens'' TInt False (Some (PInt 512))),
      requirements_field]"

definition llm_batch :: "converter \<Rightarrow> pydict \<Rightarrow> exn + pydict" where
  "llm_batch conv d =
     (case map_of d ''cases'' of
        Some (PList xs) \<Rightarrow>
          (case each (batch_case conv) xs of
             None \<Rightarrow> Inl invalid
           | Some cs \<Rightarrow>
               if cs = [] \<or> 200 < length cs then Inl invalid
               else bindE (validate_fields conv llm_batch_fields (AList.delete ''cases'' d)) (\<lambda>r.
                    Inr (take 1 r @ (''cases'', PList cs) # drop 1 r)))
      | _ \<Rightarrow> Inl invalid)"

definition relative_items :: "pyval \<Rightarrow> pyval option" where
  "relative_items v =
     (case v of
        PList xs \<Rightarrow>
          if list_all (\<lambda>x. case x of PStr s \<Rightarrow> strip s \<noteq> [] \<and> \<not> starts_with ''/'' (strip s) \<and> CHR 0x5C \<notin> set (strip s)
                        | _ \<Rightarrow> False) xs
          then Some v else None
      | _ \<Rightarrow> None)"

definition project_graph_fields :: "field list" where
  "project_graph_fields =
     [sized 1 (fld ''project_id'' TStr False None),
      sized 1 (fld ''node_name'' TStr False None),
      sized 1 (fld ''root_path'' TStr False None),
      post relative_items (fld ''include_globs'' TStrList False
        (Some (PList (map PStr [''**/*.py'', ''**/*.ts'', ''**/*.tsx''])))),
      post relative_items (fld ''overview_files'' TStrList False
        (Some (PList (map PStr [''README.md'', ''AGENTS.md'', ''package.json'', ''pyproject.toml''])))),
      post relative_items (fld ''exclude_dirs'' TStrList False
        (Some (PList (map PStr [''.git'', ''.venv'', ''node_modules'', ''dist'', ''build'', ''.pytest_cache'',
                                ''llama_pack/ui/react''])))),
      at_least 1 (fld ''max_file_bytes'' TInt False (Some (PInt 524288))),
      fld ''force'' TBool False (Some (PBool False)),
      fld ''requirements'' TRequirements False
        (Some (PDict [(''labels'', PDict []), (''capacity'', PDict [(''project_graph_index'', PBool True)])]))]"

definition project_graph_index :: "converter \<Rightarrow> pydict \<Rightarrow> exn + pydict" where
  "project_graph_index conv d = validate_fields conv project_graph_fields d"

section \<open>What the controller stores and the worker reads\<close>

definition dumped :: "exn + pydict \<Rightarrow> exn + pydict" where
  "dumped r = bindE r (\<lambda>d. Inr (dump d))"

definition validate_job_payload :: "converter \<Rightarrow> string \<Rightarrow> pydict \<Rightarrow> exn + pydict" where
  "validate_job_payload conv job_type payload =
     (if job_type = ''llm.generate'' then dumped (llm_generate conv payload)
      else if job_type = ''model.transfer'' then dumped (model_transfer conv payload)
      else if job_type = ''model.download'' then dumped (model_download conv payload)
      else if job_type = ''model.install'' then dumped (model_install conv payload)
      else if job_type = ''llm.embed'' then dumped (llm_embed conv payload)
      else if job_type = ''llm.batch'' then dumped (llm_batch conv payload)
      else if job_type = ''project.graph.index'' then dumped (project_graph_index conv payload)
      else Inr payload)"

definition str_of :: "pyval \<Rightarrow> string" where
  "str_of v = (case v of PStr s \<Rightarrow> s | _ \<Rightarrow> [])"

definition chat_payload_from_llm_generate :: "converter \<Rightarrow> pydict \<Rightarrow> exn + (string \<times> pydict)" where
  "chat_payload_from_llm_generate conv payload =
     bindE (dumped (llm_generate conv payload)) (\<lambda>d.
     Inr (str_of (dget d ''model''), AList.delete ''requirements'' (AList.delete ''model'' d)))"

definition embed_payload_from_llm_embed :: "converter \<Rightarrow> pydict \<Rightarrow> exn + (string \<times> string list \<times> string)" where
  "embed_payload_from_llm_embed conv payload =
     bindE (llm_embed conv payload) (\<lambda>d.
     let items = (case dget d ''input'' of PList xs \<Rightarrow> xs | v \<Rightarrow> [v]);
         kept = concat (map (\<lambda>v. case v of PStr s \<Rightarrow> if strip s = [] then [] else [s] | _ \<Rightarrow> []) items)
     in if kept = [] then Inl (Exn ''ValueError'' ''input must include at least one non-empty string'')
        else Inr (str_of (dget d ''model''), kept, str_of (dget d ''target'')))"

definition download_payload_from_model_download :: "converter \<Rightarrow> pydict \<Rightarrow> exn + pydict" where
  "download_payload_from_model_download conv payload =
     bindE (dumped (model_download conv payload)) (\<lambda>d. Inr (AList.delete ''requirements'' d))"

definition install_payload_from_model_install :: "converter \<Rightarrow> pydict \<Rightarrow> exn + pydict" where
  "install_payload_from_model_install conv payload =
     bindE (dumped (model_install conv payload)) (\<lambda>d. Inr (AList.delete ''requirements'' d))"

record resolved_case =
  rc_id :: string
  rc_model :: string
  rc_target :: string
  rc_payload :: pydict

definition or_text :: "pyval \<Rightarrow> string \<Rightarrow> string" where
  "or_text v dflt = (if truthy v then str_of v else dflt)"

definition or_given :: "pyval \<Rightarrow> pyval \<Rightarrow> pyval" where
  "or_given v dflt = (if v \<noteq> PNone then v else dflt)"

definition resolve_case :: "pydict \<Rightarrow> nat \<times> pyval \<Rightarrow> resolved_case" where
  "resolve_case d = (\<lambda>(i, v).
     let c = (case v of PDict c \<Rightarrow> c | _ \<Rightarrow> []) in
     \<lparr>rc_id = or_text (dget c ''id'') (''case-'' @ str_int (int i + 1)),
      rc_model = or_text (dget c ''model'') (str_of (dget d ''model'')),
      rc_target = or_text (dget c ''target'') (str_of (dget d ''target'')),
      rc_payload = [(''messages'', dget c ''messages''),
                    (''temperature'', or_given (dget c ''temperature'') (dget d ''temperature'')),
                    (''max_tokens'', or_given (dget c ''max_tokens'') (dget d ''max_tokens''))]\<rparr>)"

definition batch_cases_from_llm_batch :: "converter \<Rightarrow> pydict \<Rightarrow> exn + resolved_case list" where
  "batch_cases_from_llm_batch conv payload =
     bindE (llm_batch conv payload) (\<lambda>d.
     Inr (map (resolve_case d) (enumerate 0 (case dget d ''cases'' of PList cs \<Rightarrow> cs | _ \<Rightarrow> []))))"

end
