(* ===== verification/Node_Worker.thy ===== *)
theory Node_Worker
  imports Job_Contracts
begin

text \<open>
  The worker of a node (\<open>core/nodes/worker.py\<close>): it claims jobs from the controller, runs them one
  after the other and reports progress, results and failures.

  What the worker calls is a record of effects: the controller, the executors of chats and embeddings,
  the streams and files of a transfer, the clock. The jobs that download, install and index are run by
  \<open>we_other\<close>; \<open>we_detail\<close> is the text of the response that an \<open>httpx\<close> error carries. A request to the controller is one of five calls; \<open>work_http\<close> is what goes over the wire.
\<close>

section \<open>Requests\<close>

datatype work_call =
    ClaimWork int pydict pydict
  | Cancellation (call_job: string)
  | ReportProgress (call_attempt: string) pydict
  | ReportComplete (call_attempt: string) pydict "pydict list"
  | ReportFail (call_attempt: string) string string bool

record worker_config =
  wc_mode :: string
  wc_enabled :: bool
  wc_controller_url :: string
  wc_node_name :: string
  wc_max_jobs :: int
  wc_labels :: pydict
  wc_capacity :: pydict

definition worker_enabled :: "worker_config \<Rightarrow> bool" where
  "worker_enabled cfg \<longleftrightarrow>
     wc_mode cfg = ''agent'' \<and> wc_enabled cfg \<and> wc_controller_url cfg \<noteq> [] \<and> wc_node_name cfg \<noteq> []"

definition rstrip_slash :: "string \<Rightarrow> string" where
  "rstrip_slash s = rev (dropWhile (\<lambda>c. c = CHR ''/'') (rev s))"

definition api_base_url :: "string \<Rightarrow> string" where
  "api_base_url url =
     (let base = rstrip_slash url in
      if ends_with ''/lm-api/v1'' base then base else base @ ''/lm-api/v1'')"

definition work_url :: "worker_config \<Rightarrow> string \<Rightarrow> string" where
  "work_url cfg path =
     api_base_url (wc_controller_url cfg) @ ''/'' @ dropWhile (\<lambda>c. c = CHR ''/'') path"

definition work_path :: "worker_config \<Rightarrow> string \<Rightarrow> string" where
  "work_path cfg rest = work_url cfg (''/nodes/'' @ wc_node_name cfg @ ''/work/'' @ rest)"

fun work_http :: "worker_config \<Rightarrow> work_call \<Rightarrow> string \<times> string \<times> pydict option" where
  "work_http cfg (ClaimWork n labels capacity) =
     (''POST'', work_path cfg ''claim'',
      Some [(''max_jobs'', PInt n), (''labels'', PDict labels), (''capacity'', PDict capacity)])"
| "work_http cfg (Cancellation j) = (''GET'', work_path cfg (''jobs/'' @ j @ ''/cancellation''), None)"
| "work_http cfg (ReportProgress a p) = (''POST'', work_path cfg (a @ ''/progress''), Some [(''progress'', PDict p)])"
| "work_http cfg (ReportComplete a r arts) =
     (''POST'', work_path cfg (a @ ''/complete''),
      Some ((''result'', PDict r) # (if arts = [] then [] else [(''artifacts'', PList (map PDict arts))])))"
| "work_http cfg (ReportFail a code detail retryable) =
     (''POST'', work_path cfg (a @ ''/fail''),
      Some [(''error_code'', PStr code), (''error_detail'', PStr detail), (''retryable'', PBool retryable)])"

text \<open>\<open>httpx\<close>: a response with an error status raises \<open>HTTPStatusError\<close>, whose code is the status; the
  other classes are those below \<open>HTTPError\<close>. A \<open>ValidationError\<close> is a \<open>ValueError\<close>.\<close>

definition is_status_error :: "exn \<Rightarrow> bool" where
  "is_status_error e \<longleftrightarrow> exn_type e = ''HTTPStatusError''"

definition http_errors :: "string list" where
  "http_errors =
     [''HTTPError'', ''HTTPStatusError'', ''RequestError'', ''TransportError'', ''TimeoutException'', ''ConnectTimeout'',
      ''ReadTimeout'', ''WriteTimeout'', ''PoolTimeout'', ''NetworkError'', ''ConnectError'', ''ReadError'', ''WriteError'',
      ''CloseError'', ''ProxyError'', ''UnsupportedProtocol'', ''ProtocolError'', ''LocalProtocolError'',
      ''RemoteProtocolError'', ''DecodingError'', ''TooManyRedirects'']"

definition is_http_error :: "exn \<Rightarrow> bool" where
  "is_http_error e \<longleftrightarrow> exn_type e \<in> set http_errors"

definition is_value_error :: "exn \<Rightarrow> bool" where
  "is_value_error e \<longleftrightarrow> exn_type e \<in> {''ValueError'', ''ValidationError''}"

definition status_code :: "exn \<Rightarrow> string" where
  "status_code e = (case e of Coded _ c _ \<Rightarrow> c | Exn _ _ \<Rightarrow> [])"

text \<open>Status codes have three digits.\<close>

definition status_500 :: "exn \<Rightarrow> bool" where
  "status_500 e = (case status_code e of [] \<Rightarrow> False | c # _ \<Rightarrow> CHR ''5'' \<le> c)"

section \<open>What the worker calls\<close>

record node_failure =
  nf_method :: string
  nf_endpoint :: string
  nf_status :: "string option"
  nf_detail :: string

record 's worker_env =
  we_call :: "work_call \<Rightarrow> ('s, pyval) eff"
  we_chat :: "(string \<Rightarrow> pydict \<Rightarrow> ('s, pyval \<times> pyval) eff) option"
  we_embed :: "(string \<Rightarrow> string list \<Rightarrow> string \<Rightarrow> ('s, pyval \<times> pyval) eff) option"
  we_stream :: "string \<Rightarrow> string \<Rightarrow> ('s, pyval) eff"
  we_write :: "pyval \<Rightarrow> pyval \<Rightarrow> ('s, pydict) eff"
  we_other :: "string \<Rightarrow> string \<Rightarrow> pydict \<Rightarrow> ('s, unit) eff"
  we_now :: "'s \<Rightarrow> string"
  we_ms :: "'s \<Rightarrow> 's \<Rightarrow> int"
  we_detail :: "exn \<Rightarrow> string"
  we_note_failure :: "node_failure \<Rightarrow> 's \<Rightarrow> 's"

definition read_state :: "('s \<Rightarrow> 'a) \<Rightarrow> ('s, 'a) eff" where
  "read_state f = (\<lambda>s. (Inr (f s), s))"

definition lift_result :: "exn + 'a \<Rightarrow> ('s, 'a) eff" where
  "lift_result r = (\<lambda>s. (r, s))"

definition report_progress :: "'s worker_env \<Rightarrow> string \<Rightarrow> pydict \<Rightarrow> ('s, unit) eff" where
  "report_progress env a p = seqE (we_call env (ReportProgress a p)) (\<lambda>_. ret ())"

definition report_complete :: "'s worker_env \<Rightarrow> string \<Rightarrow> pydict \<Rightarrow> pydict list \<Rightarrow> ('s, unit) eff" where
  "report_complete env a r arts = seqE (we_call env (ReportComplete a r arts)) (\<lambda>_. ret ())"

definition report_fail :: "'s worker_env \<Rightarrow> string \<Rightarrow> string \<Rightarrow> string \<Rightarrow> bool \<Rightarrow> ('s, unit) eff" where
  "report_fail env a code detail retryable = seqE (we_call env (ReportFail a code detail retryable)) (\<lambda>_. ret ())"

definition is_cancel_requested :: "'s worker_env \<Rightarrow> string \<Rightarrow> ('s, bool) eff" where
  "is_cancel_requested env job_id =
     (if job_id = [] then ret False
      else seqE (we_call env (Cancellation job_id)) (\<lambda>r.
           ret (case r of PDict d \<Rightarrow> truthy (dget d ''cancellation_requested'') | _ \<Rightarrow> False)))"

definition unless_cancelled :: "'s worker_env \<Rightarrow> string \<Rightarrow> string \<Rightarrow> string \<Rightarrow> ('s, unit) eff \<Rightarrow> ('s, unit) eff" where
  "unless_cancelled env a job_id detail m =
     seqE (is_cancel_requested env job_id) (\<lambda>c. if c then report_fail env a ''CANCELED'' detail False else m)"

definition job_id_of :: "pydict \<Rightarrow> string" where
  "job_id_of job = py_str (dget_or job ''id'' (PStr []))"

definition job_payload :: "pydict \<Rightarrow> exn + pydict" where
  "job_payload job = (case dget_or job ''payload'' (PDict []) of PDict p \<Rightarrow> Inr p | _ \<Rightarrow> Inl invalid)"

text \<open>The \<open>except\<close> clauses of the executors.\<close>

definition report_error :: "'s worker_env \<Rightarrow> string \<Rightarrow> exn \<Rightarrow> ('s, unit) eff" where
  "report_error env a e =
     (if is_value_error e then report_fail env a ''INVALID_JOB_PAYLOAD'' (exn_text e) False
      else if is_status_error e then report_fail env a ''UPSTREAM_HTTP_ERROR'' (exn_text e) (status_500 e)
      else if is_http_error e then report_fail env a ''UPSTREAM_TRANSPORT_ERROR'' (exn_text e) True
      else report_fail env a ''EXECUTION_ERROR'' (exn_text e) True)"

section \<open>Executors\<close>

definition run_llm_generate :: "converter \<Rightarrow> worker_config \<Rightarrow> 's worker_env \<Rightarrow> string \<Rightarrow> pydict \<Rightarrow> ('s, unit) eff" where
  "run_llm_generate conv cfg env a job =
     (let job_id = job_id_of job in
      unless_cancelled env a job_id ''Job canceled before execution''
      (seqE (report_progress env a [(''stage'', PStr ''started''), (''job_type'', PStr ''llm.generate'')]) (\<lambda>_.
       seqE (read_state id) (\<lambda>started.
       tryE
         (case we_chat env of
            None \<Rightarrow> raise_exn (Exn ''RuntimeError'' ''Agent worker chat executor is not configured'')
          | Some chat \<Rightarrow>
              seqE (lift_result (bindE (job_payload job) (chat_payload_from_llm_generate conv))) (\<lambda>(model, payload).
              seqE (chat model (dmerge payload [(''target'', PStr ''local'')])) (\<lambda>(response, meta).
              seqE (read_state (we_ms env started)) (\<lambda>elapsed.
              unless_cancelled env a job_id ''Job canceled after model execution''
                (seqE (read_state (we_now env)) (\<lambda>now.
                 report_complete env a
                   [(''response'', response), (''route'', meta), (''model'', PStr model),
                    (''target'', dget_or payload ''target'' (PStr ''local'')),
                    (''worker_node'', PStr (wc_node_name cfg)), (''elapsed_ms'', PInt elapsed),
                    (''completed_at'', PStr now)] []))))))
         (report_error env a)))))"

definition run_llm_embed :: "converter \<Rightarrow> worker_config \<Rightarrow> 's worker_env \<Rightarrow> string \<Rightarrow> pydict \<Rightarrow> ('s, unit) eff" where
  "run_llm_embed conv cfg env a job =
     (let job_id = job_id_of job in
      unless_cancelled env a job_id ''Job canceled before execution''
      (seqE (report_progress env a [(''stage'', PStr ''started''), (''job_type'', PStr ''llm.embed'')]) (\<lambda>_.
       seqE (read_state id) (\<lambda>started.
       tryE
         (case we_embed env of
            None \<Rightarrow> raise_exn (Exn ''RuntimeError'' ''Agent worker embeddings executor is not configured'')
          | Some embedder \<Rightarrow>
              seqE (lift_result (bindE (job_payload job) (embed_payload_from_llm_embed conv))) (\<lambda>(model, inputs, target).
              seqE (embedder model inputs ''local'') (\<lambda>(response, meta).
              seqE (read_state (we_ms env started)) (\<lambda>elapsed.
              unless_cancelled env a job_id ''Job canceled after embedding execution''
                (seqE (read_state (we_now env)) (\<lambda>now.
                 report_complete env a
                   [(''response'', response), (''route'', meta), (''model'', PStr model), (''target'', PStr target),
                    (''worker_node'', PStr (wc_node_name cfg)), (''elapsed_ms'', PInt elapsed),
                    (''completed_at'', PStr now)] []))))))
         (report_error env a)))))"

section \<open>Batches\<close>

definition case_artifact :: "resolved_case \<Rightarrow> (string \<times> pyval) list \<Rightarrow> pydict" where
  "case_artifact c rest =
     [(''kind'', PStr ''llm.batch.case''), (''uri'', PStr (''batch://cases/'' @ rc_id c)),
      (''meta'', PDict ([(''case_id'', PStr (rc_id c)), (''model'', PStr (rc_model c)), (''target'', PStr (rc_target c))] @ rest))]"

definition run_case :: "'s worker_env \<Rightarrow> (string \<Rightarrow> pydict \<Rightarrow> ('s, pyval \<times> pyval) eff) \<Rightarrow> resolved_case \<Rightarrow>
    ('s, bool \<times> pydict) eff" where
  "run_case env chat c =
     seqE (read_state id) (\<lambda>started.
     tryE
       (seqE (chat (rc_model c) (dmerge (rc_payload c) [(''target'', PStr (rc_target c))])) (\<lambda>(response, meta).
        seqE (read_state (we_ms env started)) (\<lambda>ms.
        ret (True, case_artifact c [(''response'', response), (''route'', meta), (''elapsed_ms'', PInt ms)]))))
       (\<lambda>e. seqE (read_state (we_ms env started)) (\<lambda>ms.
        ret (False, case_artifact c [(''response'', PNone), (''error'', PStr (exn_text e)), (''elapsed_ms'', PInt ms)]))))"

text \<open>\<open>None\<close>: the job was cancelled, and that is reported.\<close>

fun run_cases :: "'s worker_env \<Rightarrow> (string \<Rightarrow> pydict \<Rightarrow> ('s, pyval \<times> pyval) eff) \<Rightarrow> string \<Rightarrow> string \<Rightarrow> int \<Rightarrow>
    int \<Rightarrow> resolved_case list \<Rightarrow> (bool \<times> pydict) list \<Rightarrow> ('s, (bool \<times> pydict) list option) eff" where
  "run_cases env chat a job_id cnt i [] acc = ret (Some acc)"
| "run_cases env chat a job_id cnt i (c # cs) acc =
     seqE (is_cancel_requested env job_id) (\<lambda>cancelled.
     if cancelled
     then seqE (report_fail env a ''CANCELED'' (''Job canceled at case '' @ str_int (i + 1)) False) (\<lambda>_. ret None)
     else seqE (report_progress env a
            [(''stage'', PStr ''case_running''), (''case_index'', PInt (i + 1)), (''cases_total'', PInt cnt),
             (''case_id'', PStr (rc_id c))]) (\<lambda>_.
          seqE (run_case env chat c) (\<lambda>r. run_cases env chat a job_id cnt (i + 1) cs (acc @ [r]))))"

definition batch_counts :: "int \<Rightarrow> (bool \<times> pydict) list \<Rightarrow> pydict" where
  "batch_counts cnt rs =
     [(''cases_total'', PInt cnt), (''cases_completed'', PInt (int (length (filter fst rs)))),
      (''cases_failed'', PInt (int (length (filter (\<lambda>r. \<not> fst r) rs))))]"

definition run_llm_batch :: "converter \<Rightarrow> worker_config \<Rightarrow> 's worker_env \<Rightarrow> string \<Rightarrow> pydict \<Rightarrow> ('s, unit) eff" where
  "run_llm_batch conv cfg env a job =
     (let job_id = job_id_of job in
      unless_cancelled env a job_id ''Job canceled before execution''
      (case bindE (job_payload job) (batch_cases_from_llm_batch conv) of
         Inl e \<Rightarrow> report_fail env a ''INVALID_JOB_PAYLOAD'' (exn_text e) False
       | Inr cases \<Rightarrow>
         (case we_chat env of
            None \<Rightarrow> report_fail env a ''EXECUTION_ERROR'' ''Agent worker chat executor is not configured'' False
          | Some chat \<Rightarrow>
            (let cnt = int (length cases); node = (''worker_node'', PStr (wc_node_name cfg)) in
             seqE (report_progress env a
               [(''stage'', PStr ''started''), (''job_type'', PStr ''llm.batch''), (''cases_total'', PInt cnt)]) (\<lambda>_.
             seqE (read_state id) (\<lambda>started.
             seqE (run_cases env chat a job_id cnt 0 cases []) (\<lambda>r.
             case r of
               None \<Rightarrow> ret ()
             | Some rs \<Rightarrow>
                 seqE (read_state (we_ms env started)) (\<lambda>ms.
                 seqE (read_state (we_now env)) (\<lambda>now.
                 report_complete env a
                   (batch_counts cnt rs @ [node, (''elapsed_ms'', PInt ms), (''completed_at'', PStr now)])
                   (map snd rs @
                    [[(''kind'', PStr ''llm.batch.summary''), (''uri'', PStr ''batch://summary''),
                      (''meta'', PDict (batch_counts cnt rs @ [(''elapsed_ms'', PInt ms), node]))]]))))))))))"

section \<open>Transfers\<close>

definition item :: "pydict \<Rightarrow> string \<Rightarrow> exn + pyval" where
  "item d k = (case map_of d k of None \<Rightarrow> Inl (Exn ''KeyError'' (str_repr k)) | Some v \<Rightarrow> Inr v)"

definition as_dict :: "pyval \<Rightarrow> exn + pydict" where
  "as_dict v = (case v of PDict d \<Rightarrow> Inr d | _ \<Rightarrow> Inl (Exn ''TypeError'' ''not a mapping''))"

definition as_int :: "pyval \<Rightarrow> exn + int" where
  "as_int v = (case v of PInt i \<Rightarrow> Inr i | PBool b \<Rightarrow> Inr (if b then 1 else 0) | _ \<Rightarrow> Inl (Exn ''TypeError'' ''not an integer''))"

definition transfer_error :: "'s worker_env \<Rightarrow> string \<Rightarrow> exn \<Rightarrow> ('s, unit) eff" where
  "transfer_error env a e =
     (if exn_type e = ''FileExistsError'' then report_fail env a ''DESTINATION_CONFLICT'' (exn_text e) False
      else if exn_type e = ''KeyError'' then report_fail env a ''INVALID_TRANSFER_PAYLOAD'' (exn_text e) False
      else report_fail env a ''TRANSFER_ERROR'' (exn_text e) True)"

text \<open>The files copied and skipped and the bytes so far; \<open>None\<close> after a cancellation that is reported.\<close>

fun copy_files :: "'s worker_env \<Rightarrow> string \<Rightarrow> string \<Rightarrow> string \<Rightarrow> string \<Rightarrow> int \<Rightarrow> int \<Rightarrow> pyval list \<Rightarrow>
    pydict list \<times> pydict list \<times> int \<Rightarrow> ('s, (pydict list \<times> pydict list \<times> int) option) eff" where
  "copy_files env a job_id base token cnt i [] acc = ret (Some acc)"
| "copy_files env a job_id base token cnt i (f # fs) (copied, skipped, bytes) =
     seqE (is_cancel_requested env job_id) (\<lambda>cancelled.
     if cancelled
     then seqE (report_fail env a ''CANCELED'' ''Job canceled during transfer'' False) (\<lambda>_. ret None)
     else seqE (lift_result (as_dict f)) (\<lambda>d.
          seqE (report_progress env a
            [(''stage'', PStr ''copying''), (''file_index'', PInt i), (''files_total'', PInt cnt),
             (''relative_path'', dget d ''relative_path'')]) (\<lambda>_.
          seqE (lift_result (item d ''id'')) (\<lambda>fid.
          seqE (we_stream env (base @ ''/transfer-source/files/'' @ py_str fid @ ''/content'') token) (\<lambda>stream.
          seqE (we_write env f stream) (\<lambda>res.
          seqE (lift_result (item res ''status'')) (\<lambda>st.
          if py_eq st (PStr ''copied'')
          then seqE (lift_result (bindE (item res ''bytes'') as_int)) (\<lambda>n.
               copy_files env a job_id base token cnt (i + 1) fs (copied @ [res], skipped, bytes + n))
          else copy_files env a job_id base token cnt (i + 1) fs (copied, skipped @ [res], bytes))))))))"

definition transfer_source :: "pydict \<Rightarrow> exn + (string \<times> string \<times> string \<times> string)" where
  "transfer_source job =
     bindE (as_dict (dget_or job ''payload'' (PDict []))) (\<lambda>p.
     bindE (item p ''source_node'') (\<lambda>node.
     bindE (item p ''source_file_id'') (\<lambda>file.
     bindE (item p ''source_url'') (\<lambda>url.
     bindE (item p ''transfer_token'') (\<lambda>token.
     Inr (py_str node, py_str file, api_base_url (py_str url), py_str token))))))"

definition manifest_files :: "pyval \<Rightarrow> exn + pyval list" where
  "manifest_files m =
     (case m of
        PDict d \<Rightarrow> (case dget_or d ''files'' (PList []) of PList xs \<Rightarrow> Inr xs | _ \<Rightarrow> Inl (Exn ''TypeError'' ''not a list''))
      | _ \<Rightarrow> Inr [])"

definition run_model_transfer :: "worker_config \<Rightarrow> 's worker_env \<Rightarrow> string \<Rightarrow> pydict \<Rightarrow> ('s, unit) eff" where
  "run_model_transfer cfg env a job =
     (let job_id = job_id_of job in
      unless_cancelled env a job_id ''Job canceled before transfer''
      (seqE (report_progress env a [(''stage'', PStr ''manifest''), (''job_type'', PStr ''model.transfer'')]) (\<lambda>_.
       tryE
         (seqE (lift_result (transfer_source job)) (\<lambda>(node, file, base, token).
          seqE (we_stream env (base @ ''/transfer-source/ggufs/'' @ file @ ''/manifest'') token) (\<lambda>manifest.
          seqE (lift_result (manifest_files manifest)) (\<lambda>files.
          seqE (copy_files env a job_id base token (int (length files)) 1 files ([], [], 0)) (\<lambda>r.
          case r of
            None \<Rightarrow> ret ()
          | Some (copied, skipped, bytes) \<Rightarrow>
              seqE (read_state (we_now env)) (\<lambda>now.
              report_complete env a
                [(''source_node'', PStr node), (''destination_node'', PStr (wc_node_name cfg)),
                 (''source_file_id'', PStr file), (''files_total'', PInt (int (length files))),
                 (''files_copied'', PInt (int (length copied))), (''files_skipped'', PInt (int (length skipped))),
                 (''bytes_copied'', PInt bytes), (''copied'', PList (map PDict copied)),
                 (''skipped'', PList (map PDict skipped)), (''completed_at'', PStr now)] []))))))
         (transfer_error env a))))"

section \<open>Claims\<close>

definition other_types :: "string list" where
  "other_types = [''model.download'', ''model.install'', ''project.graph.index'']"

definition handle_claim :: "converter \<Rightarrow> worker_config \<Rightarrow> 's worker_env \<Rightarrow> pydict \<Rightarrow> ('s, unit) eff" where
  "handle_claim conv cfg env claim =
     (let job = (case dget claim ''job'' of PDict j \<Rightarrow> j | _ \<Rightarrow> []);
          a = py_str (dget_or claim ''attempt_id'' (PStr []));
          ty = py_str (dget_or job ''type'' (PStr [])) in
      if a = [] then ret ()
      else if ty = ''llm.generate'' then run_llm_generate conv cfg env a job
      else if ty = ''model.transfer'' then run_model_transfer cfg env a job
      else if ty = ''llm.embed'' then run_llm_embed conv cfg env a job
      else if ty = ''llm.batch'' then run_llm_batch conv cfg env a job
      else if ty \<in> set other_types then we_other env ty a job
      else report_fail env a ''UNSUPPORTED_JOB_TYPE'' (''Unsupported job type: '' @ ty) False)"

definition claim_failure :: "worker_config \<Rightarrow> 's worker_env \<Rightarrow> exn \<Rightarrow> node_failure" where
  "claim_failure cfg env e =
     \<lparr>nf_method = ''POST'', nf_endpoint = work_path cfg ''claim'',
      nf_status = (if is_status_error e then Some (status_code e) else None), nf_detail = we_detail env e\<rparr>"

definition claim_work :: "worker_config \<Rightarrow> 's worker_env \<Rightarrow> ('s, pyval list) eff" where
  "claim_work cfg env =
     seqE (tryE (we_call env (ClaimWork (wc_max_jobs cfg) (wc_labels cfg) (wc_capacity cfg)))
             (\<lambda>e s. raise_exn e (we_note_failure env (claim_failure cfg env e) s)))
       (\<lambda>r. ret (case r of PList xs \<Rightarrow> xs | _ \<Rightarrow> []))"

fun handle_claims :: "converter \<Rightarrow> worker_config \<Rightarrow> 's worker_env \<Rightarrow> pyval list \<Rightarrow> ('s, unit) eff" where
  "handle_claims conv cfg env [] = ret ()"
| "handle_claims conv cfg env (c # cs) =
     seqE (case c of PDict d \<Rightarrow> handle_claim conv cfg env d
           | _ \<Rightarrow> raise_exn (Exn ''AttributeError'' ''not a claim''))
       (\<lambda>_. handle_claims conv cfg env cs)"

definition run_once :: "converter \<Rightarrow> worker_config \<Rightarrow> 's worker_env \<Rightarrow> ('s, nat) eff" where
  "run_once conv cfg env =
     (if \<not> worker_enabled cfg then ret 0
      else seqE (claim_work cfg env) (\<lambda>claims.
           seqE (handle_claims conv cfg env claims) (\<lambda>_. ret (length claims))))"

end
