(* ===== verification/Work_Api.thy ===== *)
theory Work_Api
  imports Node_Worker Node_Registry Job_Orchestrator
begin

text \<open>
  The controller's side of the worker's calls (\<open>api/routes/node_work.py\<close>): the node is authenticated,
  the call is one operation of the orchestrator, and its errors become HTTP statuses.

  FastAPI routes each URL to the handler of its call. Job and attempt ids are texts; \<open>wa_name\<close> writes the
  numbers of the model as such, and an unknown text is read as an id that is not in use. The store that
  imports code graphs is \<open>wa_import\<close>. A claim and a job are written with the fields a worker reads.
\<close>

record work_api =
  wa_orch :: orchestrator
  wa_registry :: registry
  wa_import :: "pydict \<Rightarrow> exn + unit"
  wa_name :: "nat \<Rightarrow> string"

definition named_attempt :: "work_api \<Rightarrow> orch_db \<Rightarrow> string \<Rightarrow> nat" where
  "named_attempt api db s =
     (case List.find (\<lambda>a. wa_name api (a_id a) = s) (attempts db) of Some a \<Rightarrow> a_id a | None \<Rightarrow> next_id db)"

definition named_job :: "work_api \<Rightarrow> orch_db \<Rightarrow> string \<Rightarrow> nat" where
  "named_job api db s =
     (case List.find (\<lambda>j. wa_name api (j_id j) = s) (jobs db) of Some j \<Rightarrow> j_id j | None \<Rightarrow> next_id db)"

datatype work_reply =
    ClaimsReply "claim list"
  | CancellationReply string bool
  | OkReply
  | JobReply job_view

fun error_status :: "orch_error \<Rightarrow> nat" where
  "error_status (UnknownJob _) = 404"
| "error_status (UnknownAttempt _) = 404"
| "error_status AttemptOwnerMismatch = 409"
| "error_status JobCancellationRequested = 409"
| "error_status IntegrityError = 500"

text \<open>The text of a \<open>KeyError\<close> is the \<open>repr\<close> of its message; an error that no clause catches has none.\<close>

fun error_text :: "work_api \<Rightarrow> orch_error \<Rightarrow> string" where
  "error_text api (UnknownJob j) = str_repr (''Unknown job: '' @ wa_name api j)"
| "error_text api (UnknownAttempt a) = str_repr (''Unknown attempt: '' @ wa_name api a)"
| "error_text api AttemptOwnerMismatch = ''Attempt owner mismatch''"
| "error_text api JobCancellationRequested = ''Job cancellation requested''"
| "error_text api IntegrityError = ''Internal Server Error''"

definition answer :: "work_api \<Rightarrow> ('a \<Rightarrow> work_reply) \<Rightarrow> orch_db \<Rightarrow> orch_error + ('a \<times> orch_db) \<Rightarrow>
    ((nat \<times> string) + work_reply) \<times> orch_db" where
  "answer api f db r =
     (case r of Inl e \<Rightarrow> (Inl (error_status e, error_text api e), db) | Inr (x, db') \<Rightarrow> (Inr (f x), db'))"

definition graph_part :: "pydict \<Rightarrow> string \<Rightarrow> (pyval \<Rightarrow> bool) \<Rightarrow> string \<Rightarrow> exn + unit" where
  "graph_part g k ok what =
     (if ok (dget g k) then Inr ()
      else Inl (Exn ''ValueError'' (''Project graph completion result graph_snapshot.'' @ k @ '' must be '' @ what)))"

definition is_dict :: "pyval \<Rightarrow> bool" where
  "is_dict v = (case v of PDict _ \<Rightarrow> True | _ \<Rightarrow> False)"

definition is_list :: "pyval \<Rightarrow> bool" where
  "is_list v = (case v of PList _ \<Rightarrow> True | _ \<Rightarrow> False)"

definition import_project_graph_snapshot :: "work_api \<Rightarrow> pydict \<Rightarrow> exn + unit" where
  "import_project_graph_snapshot api result =
     (if \<not> py_eq (dget result ''status'') (PStr ''ready'') then Inr ()
      else (case dget result ''graph_snapshot'' of
              PDict g \<Rightarrow>
                bindE (graph_part g ''snapshot'' is_dict ''an object'') (\<lambda>_.
                bindE (graph_part g ''files'' is_list ''a list'') (\<lambda>_.
                bindE (graph_part g ''symbols'' is_list ''a list'') (\<lambda>_.
                bindE (graph_part g ''imports'' is_list ''a list'') (\<lambda>_.
                bindE (graph_part g ''relations'' is_list ''a list'') (\<lambda>_. wa_import api g)))))
            | _ \<Rightarrow> Inr ()))"

definition import_status :: "exn \<Rightarrow> nat \<times> string" where
  "import_status e =
     (if exn_type e = ''KeyError'' then (404, exn_text e)
      else if is_value_error e then (409, exn_text e) else (500, ''Internal Server Error''))"

definition serve_claim :: "work_api \<Rightarrow> instant \<Rightarrow> string \<Rightarrow> int \<Rightarrow> pydict \<Rightarrow> pydict \<Rightarrow> orch_db \<Rightarrow>
    ((nat \<times> string) + work_reply) \<times> orch_db" where
  "serve_claim api now node n labels capacity db =
     (if n < 1 \<or> 20 < n then (Inl (422, ''max_jobs''), db)
      else answer api ClaimsReply db (orch_claim_jobs (wa_orch api) now node n (Some capacity) (Some labels) db))"

definition serve_cancellation :: "work_api \<Rightarrow> string \<Rightarrow> orch_db \<Rightarrow> ((nat \<times> string) + work_reply) \<times> orch_db" where
  "serve_cancellation api j db =
     answer api (\<lambda>v. CancellationReply j (v_cancellation_requested v)) db
       (bindE (get_job db (named_job api db j)) (\<lambda>v. Inr (v, db)))"

definition serve_progress :: "work_api \<Rightarrow> instant \<Rightarrow> string \<Rightarrow> string \<Rightarrow> pydict \<Rightarrow> orch_db \<Rightarrow>
    ((nat \<times> string) + work_reply) \<times> orch_db" where
  "serve_progress api now node a p db =
     answer api (\<lambda>_. OkReply) db
       (bindE (orch_progress (wa_orch api) now node (named_attempt api db a) p db) (\<lambda>db'. Inr ((), db')))"

definition serve_complete :: "work_api \<Rightarrow> instant \<Rightarrow> string \<Rightarrow> string \<Rightarrow> pydict \<Rightarrow> pydict list \<Rightarrow> orch_db \<Rightarrow>
    ((nat \<times> string) + work_reply) \<times> orch_db" where
  "serve_complete api now node a result arts db =
     (case import_project_graph_snapshot api result of
        Inl e \<Rightarrow> (Inl (import_status e), db)
      | Inr _ \<Rightarrow> answer api JobReply db
          (complete_attempt now node (named_attempt api db a) (AList.delete ''graph_snapshot'' result) arts db))"

definition serve_fail :: "work_api \<Rightarrow> instant \<Rightarrow> string \<Rightarrow> string \<Rightarrow> string \<Rightarrow> string \<Rightarrow> bool \<Rightarrow> orch_db \<Rightarrow>
    ((nat \<times> string) + work_reply) \<times> orch_db" where
  "serve_fail api now node a code detail retryable db =
     answer api JobReply db (orch_fail (wa_orch api) now node (named_attempt api db a) code (Some detail) retryable db)"

fun serve :: "work_api \<Rightarrow> instant \<Rightarrow> string \<Rightarrow> work_call \<Rightarrow> orch_db \<Rightarrow> ((nat \<times> string) + work_reply) \<times> orch_db" where
  "serve api now node (ClaimWork n labels capacity) db = serve_claim api now node n labels capacity db"
| "serve api now node (Cancellation j) db = serve_cancellation api j db"
| "serve api now node (ReportProgress a p) db = serve_progress api now node a p db"
| "serve api now node (ReportComplete a result arts) db = serve_complete api now node a result arts db"
| "serve api now node (ReportFail a code detail retryable) db = serve_fail api now node a code detail retryable db"

definition work_request :: "work_api \<Rightarrow> instant \<Rightarrow> string \<Rightarrow> string \<Rightarrow> work_call \<Rightarrow> orch_db \<Rightarrow>
    ((nat \<times> string) + work_reply) \<times> orch_db" where
  "work_request api now node key call db =
     (case enforce_node_work_auth (wa_registry api) node key of
        Inl e \<Rightarrow> (Inl e, db) | Inr _ \<Rightarrow> serve api now node call db)"

section \<open>On the wire\<close>

definition job_json :: "work_api \<Rightarrow> job_view \<Rightarrow> pydict" where
  "job_json api v =
     [(''id'', PStr (wa_name api (j_id (v_job v)))), (''type'', PStr (j_type (v_job v))),
      (''payload'', PDict (j_payload (v_job v))), (''cancellation_requested'', PBool (v_cancellation_requested v))]"

definition claim_json :: "work_api \<Rightarrow> claim \<Rightarrow> pydict" where
  "claim_json api c =
     [(''job'', PDict (job_json api (c_job c))), (''attempt_id'', PStr (wa_name api (c_attempt c)))]"

fun reply_json :: "work_api \<Rightarrow> work_reply \<Rightarrow> pyval" where
  "reply_json api (ClaimsReply cs) = PList (map (\<lambda>c. PDict (claim_json api c)) cs)"
| "reply_json api (CancellationReply j b) = PDict [(''id'', PStr j), (''cancellation_requested'', PBool b)]"
| "reply_json api OkReply = PDict [(''ok'', PBool True)]"
| "reply_json api (JobReply v) = PDict (job_json api v)"

text \<open>A request may be lost before the controller sees it, or its reply may be lost.\<close>

datatype fate = Delivered | RequestLost | ReplyLost

record ('w) site =
  si_db :: orch_db
  si_calls :: nat
  si_world :: 'w

definition remote_call :: "work_api \<Rightarrow> (nat \<Rightarrow> instant) \<Rightarrow> (nat \<Rightarrow> fate) \<Rightarrow> string \<Rightarrow> string \<Rightarrow>
    work_call \<Rightarrow> ('w site, pyval) eff" where
  "remote_call api clock network node key call s =
     (let s1 = s\<lparr>si_calls := Suc (si_calls s)\<rparr>;
          lost = Inl (Exn ''ReadTimeout'' []) in
      case network (si_calls s) of
        RequestLost \<Rightarrow> (lost, s1)
      | f \<Rightarrow> (case work_request api (clock (si_calls s)) node key call (si_db s) of
          (r, db') \<Rightarrow>
            (if f = ReplyLost then lost
             else (case r of Inl (st, d) \<Rightarrow> Inl (Coded ''HTTPStatusError'' (str_int (int st)) d)
                   | Inr rep \<Rightarrow> Inr (reply_json api rep)), s1\<lparr>si_db := db'\<rparr>)))"

end
