(* ===== verification/Contract_Safety.thy ===== *)
theory Contract_Safety
  imports Job_Contracts
begin

text \<open>
  What the controller stores is what the worker reads: a stored payload passes the worker's check and
  comes out as it went in. For two job types it does not; the last section shows how.
\<close>

section \<open>Conversions that settle\<close>

text \<open>Pydantic's documented behaviour: a value that has the type passes unchanged, what a conversion
  returns has the type, and is not \<open>None\<close>.\<close>

definition settles :: "converter \<Rightarrow> bool" where
  "settles conv \<longleftrightarrow>
     (\<forall>t v w. conv t v = Some w \<longrightarrow> w \<noteq> PNone \<and> conv t w = Some w) \<and>
     (\<forall>s. conv TStr (PStr s) = Some (PStr s)) \<and> (\<forall>s. conv TStrOrList (PStr s) = Some (PStr s)) \<and>
     (\<forall>ss. conv TStrOrList (PList (map PStr ss)) = Some (PList (map PStr ss))) \<and>
     (\<forall>r. conv TFloat (PFloat r) = Some (PFloat r)) \<and> (\<forall>i. conv TInt (PInt i) = Some (PInt i)) \<and>
     (\<forall>b. conv TBool (PBool b) = Some (PBool b)) \<and> (\<forall>d. conv TDict (PDict d) = Some (PDict d)) \<and>
     (\<forall>ss. conv TStrList (PList (map PStr ss)) = Some (PList (map PStr ss)))"

lemma settles_conv: "settles conv \<Longrightarrow> conv t v = Some w \<Longrightarrow> w \<noteq> PNone \<and> conv t w = Some w"
  by (auto simp: settles_def)

lemma settles_values:
  assumes "settles conv"
  shows "conv TStr (PStr s) = Some (PStr s)" "conv TStrOrList (PStr s) = Some (PStr s)"
    "conv TStrOrList (PList (map PStr ss)) = Some (PList (map PStr ss))" "conv TFloat (PFloat r) = Some (PFloat r)"
    "conv TInt (PInt i) = Some (PInt i)" "conv TBool (PBool b) = Some (PBool b)"
    "conv TDict (PDict d) = Some (PDict d)" "conv TStrList (PList (map PStr ss)) = Some (PList (map PStr ss))"
  using assms by (auto simp: settles_def)

lemma each_again: "each f xs = Some ys \<Longrightarrow> (\<And>x y. f x = Some y \<Longrightarrow> f y = Some y) \<Longrightarrow> each f ys = Some ys"
  by (induction xs arbitrary: ys) (auto split: option.splits)

lemma chat_message_again:
  assumes "settles conv" "chat_message conv v = Some w"
  shows "chat_message conv w = Some w"
proof -
  obtain r c r' c' where "conv TStr r = Some r'" "conv TContent c = Some c'" "w = PDict [(''role'', r'), (''content'', c')]"
    using assms(2) by (auto simp: chat_message_def split: pyval.splits option.splits)
  then show ?thesis using settles_conv [OF assms(1)] by (simp add: chat_message_def)
qed

lemma job_requirements_again:
  assumes "settles conv" "job_requirements conv v = Some w"
  shows "job_requirements conv w = Some w \<and> w \<noteq> PNone"
proof -
  have dd: "dict_or_default conv d k = Some x \<Longrightarrow> x = PDict [] \<or> conv TDict x = Some x" for d k x
    using settles_conv [OF assms(1)] by (auto simp: dict_or_default_def split: option.splits)
  obtain d l c where l: "dict_or_default conv d ''labels'' = Some l" "dict_or_default conv d ''capacity'' = Some c"
    "w = PDict [(''labels'', l), (''capacity'', c)]"
    using assms(2) by (auto simp: job_requirements_def split: pyval.splits option.splits)
  show ?thesis using dd [OF l(1)] dd [OF l(2)] l(3) settles_values(7) [OF assms(1)]
    by (auto simp: job_requirements_def dict_or_default_def)
qed

lemma typed_again:
  assumes "settles conv" "typed conv ty v = Some w"
  shows "typed conv ty w = Some w \<and> w \<noteq> PNone"
proof (cases ty)
  case TMessages
  then obtain xs ys where xs: "v = PList xs" "each (chat_message conv) xs = Some ys" "w = PList ys"
    using assms(2) by (auto split: pyval.splits option.splits)
  have "each (chat_message conv) ys = Some ys"
    using each_again [OF xs(2)] chat_message_again [OF assms(1)] by blast
  then show ?thesis by (simp add: TMessages xs(3))
next
  case TRequirements
  then show ?thesis using assms job_requirements_again by auto
next
  case (TLiteral ss)
  then show ?thesis using assms by (auto split: pyval.splits if_splits)
qed (use assms settles_conv in auto)

section \<open>Validation is idempotent\<close>

definition reread :: "converter \<Rightarrow> field \<Rightarrow> pyval \<Rightarrow> bool" where
  "reread conv f v \<longleftrightarrow>
     (if v = PNone then fd_default f = Some PNone
      else typed conv (fd_type f) v = Some v \<and> fd_check f v \<and> fd_post f v = Some v)"

definition rereads :: "converter \<Rightarrow> field list \<Rightarrow> pydict \<Rightarrow> bool" where
  "rereads conv fs r \<longleftrightarrow> list_all2 (\<lambda>f (k, v). k = fd_name f \<and> reread conv f v) fs r"

lemma rereads_names: "rereads conv fs r \<Longrightarrow> map fst r = map fd_name fs"
  unfolding rereads_def by (induction rule: list_all2_induct) auto

lemma map_of_dump: "distinct (map fst r) \<Longrightarrow> map_of (dump r) k = (case map_of r k of Some v \<Rightarrow> if v = PNone then None else Some v | None \<Rightarrow> None)"
  by (induction r) (auto simp: dump_def map_of_eq_None_iff split: option.splits)

lemma reread_value:
  "reread conv f v \<Longrightarrow> map_of d (fd_name f) = (if v = PNone then None else Some v) \<Longrightarrow> field_value conv d f = Some v"
  by (auto simp: reread_def field_value_def split: if_splits)

lemma each_values:
  assumes "rereads conv fs r" "\<And>f v. f \<in> set fs \<Longrightarrow> (fd_name f, v) \<in> set r \<Longrightarrow> reread conv f v \<Longrightarrow> field_value conv d f = Some v"
  shows "each (\<lambda>f. map_option (Pair (fd_name f)) (field_value conv d f)) fs = Some r"
  using assms unfolding rereads_def
proof (induction rule: list_all2_induct)
  case (Cons f fs x r)
  then have "field_value conv d f = Some (snd x)" by (cases x) auto
  moreover have "each (\<lambda>f. map_option (Pair (fd_name f)) (field_value conv d f)) fs = Some r"
    using Cons.prems by (intro Cons.IH) auto
  ultimately show ?case using Cons.hyps(1) by (cases x) auto
qed simp

lemma validate_again:
  assumes "rereads conv fs r" "distinct (map fd_name fs)"
  shows "validate_fields conv fs (dump r) = Inr r"
proof -
  have d: "distinct (map fst r)" using assms rereads_names by metis
  have "set (map fst r) = fd_name ` set fs" using rereads_names [OF assms(1)] by (metis set_map)
  then have "fst x \<in> fd_name ` set fs" if "x \<in> set (dump r)" for x
    using that by (auto simp: dump_def)
  then have "list_all (\<lambda>(k, _). k \<in> fd_name ` set fs) (dump r)"
    by (auto simp: list_all_iff)
  moreover have "each (\<lambda>f. map_option (Pair (fd_name f)) (field_value conv (dump r) f)) fs = Some r"
  proof (rule each_values [OF assms(1)])
    fix f v
    assume "(fd_name f, v) \<in> set r" "reread conv f v"
    then show "field_value conv (dump r) f = Some v" using d by (intro reread_value) (auto simp: map_of_dump)
  qed
  ultimately show ?thesis by (simp add: validate_fields_def)
qed

text \<open>A field whose default and whose values pass its own check.\<close>

definition plain_field :: "converter \<Rightarrow> field \<Rightarrow> bool" where
  "plain_field conv f \<longleftrightarrow> (fd_optional f \<longrightarrow> fd_default f = Some PNone) \<and>
     (case fd_default f of None \<Rightarrow> True | Some v \<Rightarrow> reread conv f v) \<and>
     (\<forall>v w. typed conv (fd_type f) v = Some v \<longrightarrow> fd_check f v \<longrightarrow> fd_post f v = Some w \<longrightarrow> reread conv f w)"

lemma field_value_reread:
  assumes "settles conv" "plain_field conv f" "field_value conv d f = Some v"
  shows "reread conv f v"
proof (cases "map_of d (fd_name f)")
  case None
  then show ?thesis using assms(2,3) by (auto simp: field_value_def plain_field_def)
next
  case (Some u)
  show ?thesis
  proof (cases "u = PNone \<and> fd_optional f")
    case True
    then have "v = PNone" "fd_default f = Some PNone" using Some assms(2,3) by (simp_all add: field_value_def plain_field_def)
    then show ?thesis by (simp add: reread_def)
  next
    case False
    then obtain w where "typed conv (fd_type f) u = Some w" "fd_check f w" "fd_post f w = Some v"
      using Some assms(3) by (auto simp: field_value_def split: if_splits option.splits)
    moreover from this(1) have "typed conv (fd_type f) w = Some w" using typed_again [OF assms(1)] by blast
    ultimately show ?thesis using assms(2) by (simp add: plain_field_def)
  qed
qed

lemma validate_rereads:
  assumes "settles conv" "list_all (plain_field conv) fs" "validate_fields conv fs d = Inr r"
  shows "rereads conv fs r"
proof -
  have "each (\<lambda>f. map_option (Pair (fd_name f)) (field_value conv d f)) fs = Some r"
    using assms(3) by (auto simp: validate_fields_def split: if_splits option.splits)
  then show ?thesis using assms(2)
    unfolding rereads_def
  proof (induction fs arbitrary: r)
    case (Cons f fs)
    then show ?case using field_value_reread [OF assms(1)] by (auto split: option.splits)
  qed simp
qed

lemma plain_no_post: "fd_post f = Some \<Longrightarrow> fd_optional f \<longrightarrow> fd_default f = Some PNone \<Longrightarrow>
    (case fd_default f of None \<Rightarrow> True | Some v \<Rightarrow> reread conv f v) \<Longrightarrow> settles conv \<Longrightarrow> plain_field conv f"
  using typed_again by (auto simp: plain_field_def reread_def)

lemmas field_simps' = fld_def sized_def between_def at_least_def post_def reread_def

lemma generate_plain: "settles conv \<Longrightarrow> list_all (plain_field conv) llm_generate_fields"
  by (auto simp: llm_generate_fields_def requirements_field_def field_simps' settles_values intro!: plain_no_post)

section \<open>Normalisation is idempotent\<close>

lemma lstrip_hd: "lstrip s = [] \<or> \<not> is_space (hd (lstrip s))"
  unfolding lstrip_def by (induction s) auto

lemma lstrip_id: "s = [] \<or> \<not> is_space (hd s) \<Longrightarrow> lstrip s = s"
  by (cases s) (auto simp: lstrip_def)

lemma strip_twice [simp]: "strip (strip s) = strip s"
proof -
  define t where "t = lstrip s"
  define u where "u = rev (dropWhile is_space (rev t))"
  have s: "strip s = u" by (simp add: strip_def t_def u_def)
  obtain v where t: "t = u @ v"
    using takeWhile_dropWhile_id [of is_space "rev t"] by (metis u_def rev_append rev_rev_ident)
  have "lstrip u = u"
  proof (rule lstrip_id)
    show "u = [] \<or> \<not> is_space (hd u)"
      using lstrip_hd [of s] t by (cases u) (auto simp: t_def)
  qed
  then show ?thesis unfolding s by (simp add: strip_def [of u]) (simp add: u_def dropWhile_idem)
qed

lemma strip_chars: "set (strip s) \<subseteq> set s"
  by (auto simp: strip_def lstrip_def dest!: set_dropWhileD)

lemma split_on_no_sep: "t \<in> set (split_on c s) \<Longrightarrow> c \<notin> set t"
  by (induction s arbitrary: t) (auto split: if_splits list.splits)

lemma stop_tokens_stripped:
  "stop_tokens (map PStr ts) = filter (\<lambda>t. t \<noteq> []) (map strip ts)"
  by (induction ts) (auto simp: stop_tokens_def)

lemma stop_tokens_again:
  assumes "stop_tokens xs = ts"
  shows "stop_tokens (map PStr ts) = ts"
proof -
  have "\<forall>t\<in>set ts. t \<noteq> [] \<and> strip t = t"
    using assms by (auto simp: stop_tokens_def split: pyval.splits if_splits)
  then have "filter (\<lambda>t. t \<noteq> []) (map strip ts) = ts"
    by (induction ts) auto
  then show ?thesis by (simp add: stop_tokens_stripped)
qed

lemma normalize_stop_again: "normalize_stop (normalize_stop v) = normalize_stop v"
proof (cases v)
  case (PStr s)
  define ts where "ts = stop_tokens (map PStr (split_on CHR '','' s))"
  have again: "stop_tokens (map PStr ts) = ts" using stop_tokens_again ts_def by blast
  have nosep: "CHR '','' \<notin> set t" if "t \<in> set ts" for t
  proof -
    from that have "\<exists>u \<in> set (split_on CHR '','' s). t = strip u"
      unfolding ts_def stop_tokens_stripped by auto
    then obtain u where "u \<in> set (split_on CHR '','' s)" "t = strip u" by blast
    then show ?thesis using split_on_no_sep strip_chars by blast
  qed
  consider "ts = []" | t where "ts = [t]" | t u us where "ts = t # u # us" by (cases ts rule: list.exhaust; cases "tl ts") auto
  then show ?thesis
  proof cases
    case (2 t)
    then have "split_on CHR '','' t = [t]" using nosep by (intro split_on_plain) simp
    then show ?thesis using 2 again by (simp add: PStr normalize_stop_def ts_def [symmetric])
  next
    case 3
    then show ?thesis using again by (simp add: PStr normalize_stop_def ts_def [symmetric])
  qed (simp add: PStr normalize_stop_def ts_def [symmetric])
next
  case (PList xs)
  then show ?thesis using stop_tokens_again [of xs "stop_tokens xs"]
    by (cases "stop_tokens xs") (simp_all add: normalize_stop_def)
qed (simp_all add: normalize_stop_def)

lemma strip_or_none_again: "strip_or_none (strip_or_none v) = strip_or_none v"
  by (cases v) (simp_all add: strip_or_none_def)

lemma rereads_put:
  assumes "rereads conv fs r" "\<And>f v. f \<in> set fs \<Longrightarrow> fd_name f = k \<Longrightarrow> reread conv f v \<Longrightarrow> reread conv f (g v)"
  shows "rereads conv fs (put k g r)"
  using assms unfolding rereads_def put_def
proof (induction rule: list_all2_induct)
  case (Cons f fs x r)
  then show ?case by (cases x) auto
qed simp

lemma put_names [simp]: "map fst (put k g d) = map fst d"
  by (induction d) (auto simp: put_def)

lemma map_of_put: "map_of (put k g d) k' = (if k' = k then map_option g (map_of d k) else map_of d k')"
  by (induction d) (auto simp: put_def)

lemma put_same: "(\<And>v. (k, v) \<in> set d \<Longrightarrow> g v = v) \<Longrightarrow> put k g d = d"
  by (induction d) (auto simp: put_def)

lemma in_put: "(k', v) \<in> set (put k g d) \<Longrightarrow> (if k' = k then \<exists>u. (k, u) \<in> set d \<and> v = g u else (k', v) \<in> set d)"
  by (auto simp: put_def split: if_splits)

lemma dget_put: "dget (put k g d) k' = (if k' = k \<and> map_of d k \<noteq> None then g (dget d k) else dget d k')"
  by (auto simp: dget_def map_of_put split: option.splits)

definition set_max_tokens :: "pydict \<Rightarrow> pydict" where
  "set_max_tokens d = (if dget d ''n_predict'' \<noteq> PNone then put ''max_tokens'' (\<lambda>_. dget d ''n_predict'') d else d)"

lemma normalize_fields_eq:
  "normalize_fields d =
     (let d2 = put ''grammar'' strip_or_none (put ''stop'' normalize_stop (set_max_tokens d))
      in if dget d2 ''json_schema'' \<noteq> PNone \<and> dget d2 ''grammar'' \<noteq> PNone then Inl invalid else Inr d2)"
  by (simp add: normalize_fields_def set_max_tokens_def Let_def)

lemma normalize_again:
  assumes "normalize_fields d = Inr r"
  shows "normalize_fields r = Inr r"
proof -
  let ?d1 = "set_max_tokens d"
  have r: "r = put ''grammar'' strip_or_none (put ''stop'' normalize_stop ?d1)"
    and ok: "\<not> (dget r ''json_schema'' \<noteq> PNone \<and> dget r ''grammar'' \<noteq> PNone)"
    using assms by (auto simp: normalize_fields_eq Let_def split: if_splits)
  have n: "dget r ''n_predict'' = dget d ''n_predict''"
    by (simp add: r dget_put set_max_tokens_def)
  have "set_max_tokens r = r"
  proof (cases "dget d ''n_predict'' = PNone")
    case True
    then show ?thesis by (simp add: set_max_tokens_def n)
  next
    case False
    then have "v = dget d ''n_predict''" if "(''max_tokens'', v) \<in> set r" for v
      using that by (auto simp: r set_max_tokens_def dest!: in_put)
    then show ?thesis using False by (auto simp: set_max_tokens_def n intro!: put_same)
  qed
  moreover have "put ''stop'' normalize_stop r = r"
    by (rule put_same) (auto simp: r normalize_stop_again dest!: in_put)
  moreover have "put ''grammar'' strip_or_none r = r"
    by (rule put_same) (auto simp: r strip_or_none_again dest!: in_put)
  ultimately show ?thesis using ok by (simp add: normalize_fields_eq Let_def)
qed

lemma generate_names: "distinct (map fd_name llm_generate_fields)"
  by (simp add: llm_generate_fields_def requirements_field_def field_simps')

lemma field_by_name:
  "distinct (map fd_name fs) \<Longrightarrow> f \<in> set fs \<Longrightarrow> map_of (map (\<lambda>f. (fd_name f, f)) fs) (fd_name f) = Some f"
  by (simp add: map_of_eq_Some_iff comp_def)

lemma generate_field:
  "f \<in> set llm_generate_fields \<Longrightarrow> fd_name f = ''max_tokens'' \<Longrightarrow>
    f = between 1 32768 (fld ''max_tokens'' TInt False (Some (PInt 512)))"
  "f \<in> set llm_generate_fields \<Longrightarrow> fd_name f = ''n_predict'' \<Longrightarrow>
    f = between 1 32768 (fld ''n_predict'' TInt True (Some PNone))"
  "f \<in> set llm_generate_fields \<Longrightarrow> fd_name f = ''stop'' \<Longrightarrow> f = fld ''stop'' TStrOrList True (Some PNone)"
  "f \<in> set llm_generate_fields \<Longrightarrow> fd_name f = ''grammar'' \<Longrightarrow> f = fld ''grammar'' TStr True (Some PNone)"
  using field_by_name [OF generate_names, of f]
  by (simp_all add: llm_generate_fields_def requirements_field_def fld_def sized_def between_def at_least_def
      del: insert_iff list.set)

lemma rereads_value:
  assumes "rereads conv fs r" "(k, v) \<in> set r"
  shows "\<exists>f \<in> set fs. fd_name f = k \<and> reread conv f v"
  using assms unfolding rereads_def by (induction rule: list_all2_induct) auto

lemma dget_in: "dget d k \<noteq> PNone \<Longrightarrow> (k, dget d k) \<in> set d"
  by (auto simp: dget_def split: option.splits dest: map_of_SomeD)

lemma generate_rereads:
  assumes conv: "settles conv" and r: "rereads conv llm_generate_fields d" and n: "normalize_fields d = Inr r"
  shows "rereads conv llm_generate_fields r"
proof -
  have "rereads conv llm_generate_fields (set_max_tokens d)"
  proof (cases "dget d ''n_predict'' = PNone")
    case False
    then obtain f where "f \<in> set llm_generate_fields" "fd_name f = ''n_predict''" "reread conv f (dget d ''n_predict'')"
      using rereads_value [OF r dget_in] by blast
    then have "reread conv (between 1 32768 (fld ''n_predict'' TInt True (Some PNone))) (dget d ''n_predict'')"
      using generate_field(2) by simp
    then have "reread conv f (dget d ''n_predict'')" if "f \<in> set llm_generate_fields" "fd_name f = ''max_tokens''" for f
      using False unfolding generate_field(1) [OF that] by (simp add: field_simps')
    then show ?thesis using False by (auto simp: set_max_tokens_def intro!: rereads_put [OF r])
  qed (simp add: set_max_tokens_def r)
  moreover have "reread conv f (normalize_stop v)" if "f \<in> set llm_generate_fields" "fd_name f = ''stop''" "reread conv f v" for f v
    using that(3) unfolding generate_field(3) [OF that(1,2)]
    by (cases v) (auto simp: normalize_stop_def field_simps' settles_values [OF conv] simp flip: list.map split: list.splits)
  moreover have "reread conv f (strip_or_none v)" if "f \<in> set llm_generate_fields" "fd_name f = ''grammar''" "reread conv f v" for f v
    using that(3) unfolding generate_field(4) [OF that(1,2)]
    by (cases v) (auto simp: strip_or_none_def field_simps' settles_values [OF conv])
  ultimately have "rereads conv llm_generate_fields (put ''grammar'' strip_or_none (put ''stop'' normalize_stop (set_max_tokens d)))"
    by (intro rereads_put)
  then show ?thesis using n by (auto simp: normalize_fields_eq Let_def split: if_splits)
qed

lemma llm_generate_again:
  assumes "settles conv" "llm_generate conv p = Inr r"
  shows "llm_generate conv (dump r) = Inr r"
proof -
  obtain d where d: "validate_fields conv llm_generate_fields p = Inr d" "normalize_fields d = Inr r"
    using assms(2) by (auto simp: llm_generate_def bindE_Inr)
  have "rereads conv llm_generate_fields r"
    using generate_rereads [OF assms(1) validate_rereads [OF assms(1) generate_plain [OF assms(1)] d(1)] d(2)] .
  then show ?thesis using validate_again [OF _ generate_names] normalize_again [OF d(2)] by (simp add: llm_generate_def)
qed

section \<open>The other job types\<close>

lemma requirements_plain: "settles conv \<Longrightarrow> plain_field conv requirements_field"
  by (auto simp: requirements_field_def field_simps' intro!: plain_no_post)

lemma text_plain:
  "settles conv \<Longrightarrow> plain_field conv (post normalize_text (fld n TStr True (Some PNone)))"
  by (auto simp: plain_field_def field_simps' normalize_text_def strip_or_none_def settles_values split: pyval.splits)

lemma gguf_plain:
  "settles conv \<Longrightarrow> plain_field conv (post validate_include_file (fld n TStr True (Some PNone)))"
  by (auto simp: plain_field_def field_simps' validate_include_file_def settles_values split: pyval.splits if_splits)

lemma repo_plain:
  "settles conv \<Longrightarrow> plain_field conv (post validate_repo_id (sized 1 (fld n TStr False None)))"
  by (auto simp: plain_field_def field_simps' validate_repo_id_def is_repo_id_def settles_values Suc_le_eq
      split: pyval.splits if_splits list.splits)

lemma items_plain:
  "settles conv \<Longrightarrow> relative_items (PList (map PStr ss)) = Some (PList (map PStr ss)) \<Longrightarrow>
   plain_field conv (post relative_items (fld n TStrList False (Some (PList (map PStr ss)))))"
  by (auto simp: plain_field_def field_simps' relative_items_def settles_values split: pyval.splits if_splits)

lemma relative_default:
  "list_all (\<lambda>s. strip s \<noteq> [] \<and> \<not> starts_with ''/'' (strip s) \<and> CHR 0x5C \<notin> set (strip s)) ss \<Longrightarrow>
   relative_items (PList (map PStr ss)) = Some (PList (map PStr ss))"
  by (simp add: relative_items_def list_all_iff)

lemma transfer_plain: "settles conv \<Longrightarrow> list_all (plain_field conv) model_transfer_fields"
  by (auto simp: model_transfer_fields_def field_simps' settles_values intro!: plain_no_post)

lemma download_plain: "settles conv \<Longrightarrow> list_all (plain_field conv) model_download_fields"
  by (simp add: model_download_fields_def requirements_plain text_plain gguf_plain repo_plain del: One_nat_def)

lemma embed_plain: "settles conv \<Longrightarrow> list_all (plain_field conv) llm_embed_fields"
  by (auto simp: llm_embed_fields_def requirements_plain field_simps' settles_values intro!: plain_no_post)

lemma graph_plain: "settles conv \<Longrightarrow> list_all (plain_field conv) project_graph_fields"
proof -
  assume c: "settles conv"
  have r: "plain_field conv (fld ''requirements'' TRequirements False
        (Some (PDict [(''labels'', PDict []), (''capacity'', PDict [(''project_graph_index'', PBool True)])])))"
    using c by (auto simp: field_simps' job_requirements_def dict_or_default_def settles_values intro!: plain_no_post)
  have n: "plain_field conv (sized 1 (fld k TStr False None))"
    "plain_field conv (at_least 1 (fld k TInt False (Some (PInt 524288))))"
    "plain_field conv (fld k TBool False (Some (PBool False)))" for k
    using c by (auto simp: field_simps' settles_values intro!: plain_no_post)
  have d: "relative_items (PList (map PStr [''**/*.py'', ''**/*.ts'', ''**/*.tsx''])) = Some (PList (map PStr [''**/*.py'', ''**/*.ts'', ''**/*.tsx'']))"
    "relative_items (PList (map PStr [''README.md'', ''AGENTS.md'', ''package.json'', ''pyproject.toml''])) =
      Some (PList (map PStr [''README.md'', ''AGENTS.md'', ''package.json'', ''pyproject.toml'']))"
    "relative_items (PList (map PStr [''.git'', ''.venv'', ''node_modules'', ''dist'', ''build'', ''.pytest_cache'', ''llama_pack/ui/react''])) =
      Some (PList (map PStr [''.git'', ''.venv'', ''node_modules'', ''dist'', ''build'', ''.pytest_cache'', ''llama_pack/ui/react'']))"
    by (rule relative_default, code_simp)+
  show ?thesis unfolding project_graph_fields_def
    by (simp only: list.pred_inject n r items_plain [OF c d(1)] items_plain [OF c d(2)] items_plain [OF c d(3)] simp_thms)
qed

lemma fields_again:
  assumes "settles conv" "list_all (plain_field conv) fs" "distinct (map fd_name fs)" "validate_fields conv fs p = Inr r"
  shows "validate_fields conv fs (dump r) = Inr r"
  using validate_again [OF validate_rereads [OF assms(1,2,4)] assms(3)] .

lemmas other_fields = model_transfer_fields_def model_download_fields_def llm_embed_fields_def project_graph_fields_def
  requirements_field_def fld_def sized_def at_least_def between_def post_def

section \<open>Properties\<close>

text \<open>The payload that the controller stores for a job passes the same check again and is not changed
  by it, so the worker that runs the job reads what the controller accepted: lengths, bounds, exclusive
  fields, the stop words (split at commas, stripped, without empty ones) and the limits that override
  each other are settled by the first pass. The values of pydantic's conversions are assumed to be
  values of their types.\<close>

theorem stored_payload_is_stable:
  assumes "settles conv" "validate_job_payload conv ty p = Inr q"
    and "ty \<in> {''llm.generate'', ''model.transfer'', ''model.download'', ''llm.embed'', ''project.graph.index''}"
  shows "validate_job_payload conv ty q = Inr q"
proof -
  consider "ty = ''llm.generate''" | "ty = ''model.transfer''" | "ty = ''model.download''" | "ty = ''llm.embed''"
    | "ty = ''project.graph.index''" using assms(3) by (metis insert_iff empty_iff)
  then show ?thesis
  proof cases
    case 1
    then show ?thesis using assms(2) llm_generate_again [OF assms(1)]
      by (auto simp: validate_job_payload_def dumped_def bindE_Inr)
  next
    case 2
    then obtain r where r: "model_transfer conv p = Inr r" "q = dump r"
      using assms(2) by (auto simp: validate_job_payload_def dumped_def bindE_Inr)
    then have "validate_fields conv model_transfer_fields (dump r) = Inr r"
      by (intro fields_again [OF assms(1) transfer_plain [OF assms(1)], of p])
        (auto simp: model_transfer_def bindE_Inr other_fields split: if_splits)
    then show ?thesis using r 2
      by (auto simp: validate_job_payload_def dumped_def model_transfer_def bindE_Inr split: if_splits)
  next
    case 3
    then obtain r where r: "model_download conv p = Inr r" "q = dump r"
      using assms(2) by (auto simp: validate_job_payload_def dumped_def bindE_Inr)
    then have "validate_fields conv model_download_fields (dump r) = Inr r"
      by (intro fields_again [OF assms(1) download_plain [OF assms(1)], of p]) (simp_all add: model_download_def other_fields)
    then show ?thesis using r 3 by (simp add: validate_job_payload_def dumped_def model_download_def)
  next
    case 4
    then obtain r where r: "llm_embed conv p = Inr r" "q = dump r"
      using assms(2) by (auto simp: validate_job_payload_def dumped_def bindE_Inr)
    then have "validate_fields conv llm_embed_fields (dump r) = Inr r"
      by (intro fields_again [OF assms(1) embed_plain [OF assms(1)], of p]) (simp_all add: llm_embed_def other_fields)
    then show ?thesis using r 4 by (simp add: validate_job_payload_def dumped_def llm_embed_def)
  next
    case 5
    then obtain r where r: "project_graph_index conv p = Inr r" "q = dump r"
      using assms(2) by (auto simp: validate_job_payload_def dumped_def bindE_Inr)
    then have "validate_fields conv project_graph_fields (dump r) = Inr r"
      by (intro fields_again [OF assms(1) graph_plain [OF assms(1)], of p]) (simp_all add: project_graph_index_def other_fields)
    then show ?thesis using r 5 by (simp add: validate_job_payload_def dumped_def project_graph_index_def)
  qed
qed

section \<open>A conversion, and what slips through\<close>

text \<open>The strict conversion: values of the type, and nothing else.\<close>

definition strict_conv :: converter where
  "strict_conv ty v =
     (if (case (ty, v) of
            (TStr, PStr _) \<Rightarrow> True | (TInt, PInt _) \<Rightarrow> True | (TFloat, PFloat _) \<Rightarrow> True | (TBool, PBool _) \<Rightarrow> True
          | (TDict, PDict _) \<Rightarrow> True
          | (TStrList, PList xs) \<Rightarrow> list_all (\<lambda>x. case x of PStr _ \<Rightarrow> True | _ \<Rightarrow> False) xs
          | (TStrOrList, PStr _) \<Rightarrow> True
          | (TStrOrList, PList xs) \<Rightarrow> list_all (\<lambda>x. case x of PStr _ \<Rightarrow> True | _ \<Rightarrow> False) xs
          | (TContent, PStr _) \<Rightarrow> True | _ \<Rightarrow> False)
      then Some v else None)"

lemma strict_settles: "settles strict_conv"
  by (auto simp: settles_def strict_conv_def list_all_iff split: py_type.splits pyval.splits if_splits)

definition demo_request :: pydict where
  "demo_request =
     [(''stop'', PStr '' a ,, b''), (''model'', PStr ''m''), (''n_predict'', PInt 9),
      (''messages'', PList [PDict [(''role'', PStr ''user''), (''content'', PStr ''hi''), (''name'', PStr ''x'')]])]"

definition demo_stored :: pydict where
  "demo_stored =
     [(''model'', PStr ''m''), (''messages'', PList [PDict [(''role'', PStr ''user''), (''content'', PStr ''hi'')]]),
      (''temperature'', PFloat (7 / 10)), (''max_tokens'', PInt 9), (''n_predict'', PInt 9),
      (''stop'', PList [PStr ''a'', PStr ''b'']), (''reasoning'', PBool False), (''target'', PStr ''auto'')]"

theorem stored_payload_is_stable_witness:
  "validate_job_payload strict_conv ''llm.generate'' demo_request = Inr demo_stored \<and>
   validate_job_payload strict_conv ''llm.generate'' demo_stored = Inr demo_stored"
proof -
  have a: "validate_job_payload strict_conv ''llm.generate'' demo_request = Inr demo_stored" by code_simp
  from stored_payload_is_stable [OF strict_settles a] a show ?thesis by simp
qed

text \<open>Two kinds of jobs are accepted and stored although every worker must refuse them: an
  installation whose model name is blank (the name is stripped after its length was checked, and
  dropped from what is stored), and an embedding whose inputs are all blank.\<close>

theorem unrunnable_jobs_are_stored:
  "let blank = [(''repo_id'', PStr ''o/r''), (''model_name'', PStr '' ''), (''port'', PInt 8080)];
       stored = (\<lambda>ty p. case validate_job_payload strict_conv ty p of Inr q \<Rightarrow> q | Inl _ \<Rightarrow> []) in
   map_of (stored ''model.install'' blank) ''repo_id'' = Some (PStr ''o/r'') \<and>
   install_payload_from_model_install strict_conv (stored ''model.install'' blank) = Inl invalid \<and>
   stored ''llm.embed'' [(''model'', PStr ''m''), (''input'', PStr '' '')] \<noteq> [] \<and>
   embed_payload_from_llm_embed strict_conv (stored ''llm.embed'' [(''model'', PStr ''m''), (''input'', PStr '' '')]) =
     Inl (Exn ''ValueError'' ''input must include at least one non-empty string'')"
  by code_simp

end
