(* ===== verification/Worker_Safety.thy ===== *)
theory Worker_Safety
  imports Work_Api Contract_Safety Job_Safety
begin

text \<open>
  What a worker tells the controller. Every claim it handles ends in exactly one accepted report, or in an
  exception and no accepted report; whatever the network does, a worker moves the controller's database
  only by the operations of the orchestrator. The last section shows two ways in which work is lost or
  repeated.
\<close>

section \<open>The log of the calls\<close>

type_synonym call_log = "(work_call \<times> bool) list"

definition unlogged :: "('s, 'a) eff \<Rightarrow> ('s \<times> call_log, 'a) eff" where
  "unlogged m = (\<lambda>(s, log). case m s of (r, s') \<Rightarrow> (r, (s', log)))"

text \<open>The same worker, whose calls are logged with whether they returned.\<close>

definition logged :: "'s worker_env \<Rightarrow> ('s \<times> call_log) worker_env" where
  "logged env =
     \<lparr>we_call = (\<lambda>c (s, log). case we_call env c s of (r, s') \<Rightarrow> (r, (s', log @ [(c, case r of Inl _ \<Rightarrow> False | Inr _ \<Rightarrow> True)]))),
      we_chat = map_option (\<lambda>f m p. unlogged (f m p)) (we_chat env),
      we_embed = map_option (\<lambda>f m xs t. unlogged (f m xs t)) (we_embed env),
      we_stream = (\<lambda>u t. unlogged (we_stream env u t)),
      we_write = (\<lambda>f x. unlogged (we_write env f x)),
      we_other = (\<lambda>ty a j. unlogged (we_other env ty a j)),
      we_now = (\<lambda>(s, _). we_now env s), we_ms = (\<lambda>(s, _) (s', _). we_ms env s s'),
      we_detail = we_detail env,
      we_note_failure = (\<lambda>n (s, log). (we_note_failure env n s, log))\<rparr>"

definition final :: "string \<Rightarrow> work_call \<Rightarrow> bool" where
  "final a c = (case c of ReportComplete b _ _ \<Rightarrow> b = a | ReportFail b _ _ _ \<Rightarrow> b = a | _ \<Rightarrow> False)"

text \<open>No final report was accepted; exactly the last call is an accepted final report.\<close>

definition open_log :: "string \<Rightarrow> call_log \<Rightarrow> bool" where
  "open_log a d \<longleftrightarrow> (\<forall>(c, ok) \<in> set d. final a c \<longrightarrow> \<not> ok)"

definition closed_log :: "string \<Rightarrow> call_log \<Rightarrow> bool" where
  "closed_log a d \<longleftrightarrow> (\<exists>pre c. d = pre @ [(c, True)] \<and> final a c \<and> open_log a pre)"

definition adds :: "('s \<times> call_log, 'a) eff \<Rightarrow> (exn + 'a \<Rightarrow> call_log \<Rightarrow> bool) \<Rightarrow> bool" where
  "adds m P \<longleftrightarrow> (\<forall>s log. \<exists>d s'. snd (m (s, log)) = (s', log @ d) \<and> P (fst (m (s, log))) d)"

definition says_nothing :: "string \<Rightarrow> ('s \<times> call_log, 'a) eff \<Rightarrow> bool" where
  "says_nothing a m \<longleftrightarrow> adds m (\<lambda>_ d. open_log a d)"

definition reports :: "string \<Rightarrow> ('s \<times> call_log, 'a) eff \<Rightarrow> bool" where
  "reports a m \<longleftrightarrow> adds m (\<lambda>r d. case r of Inl _ \<Rightarrow> open_log a d | Inr _ \<Rightarrow> closed_log a d)"

text \<open>A part that reports, or returns a value with which the work goes on.\<close>

definition reports_or :: "string \<Rightarrow> ('s \<times> call_log, 'a option) eff \<Rightarrow> bool" where
  "reports_or a m \<longleftrightarrow> adds m (\<lambda>r d. case r of Inr None \<Rightarrow> closed_log a d | _ \<Rightarrow> open_log a d)"

named_theorems log_rules \<open>what parts of the worker add to the log\<close>

lemma open_log_append [simp]: "open_log a (d @ e) \<longleftrightarrow> open_log a d \<and> open_log a e"
  by (auto simp: open_log_def)

lemma open_log_Nil [simp]: "open_log a []"
  by (simp add: open_log_def)

lemma closed_log_append: "open_log a d \<Longrightarrow> closed_log a e \<Longrightarrow> closed_log a (d @ e)"
  unfolding closed_log_def by (metis append_assoc open_log_append)

lemma addsI: "(\<And>s log. \<exists>d s'. snd (m (s, log)) = (s', log @ d) \<and> P (fst (m (s, log))) d) \<Longrightarrow> adds m P"
  by (simp add: adds_def)

lemma adds_seq:
  assumes m: "adds m P" and f: "\<And>x. adds (f x) (Q x)"
    and err: "\<And>e d. P (Inl e) d \<Longrightarrow> R (Inl e) d" and ok: "\<And>x r d e. P (Inr x) d \<Longrightarrow> Q x r e \<Longrightarrow> R r (d @ e)"
  shows "adds (seqE m f) R"
proof (rule addsI)
  fix s log
  obtain d s1 where d: "snd (m (s, log)) = (s1, log @ d)" "P (fst (m (s, log))) d" using m unfolding adds_def by blast
  show "\<exists>d s'. snd (seqE m f (s, log)) = (s', log @ d) \<and> R (fst (seqE m f (s, log))) d"
  proof (cases "fst (m (s, log))")
    case (Inl e)
    then show ?thesis using d err by (cases "m (s, log)") (auto simp: seqE_def)
  next
    case (Inr x)
    obtain d' s2 where d': "snd (f x (s1, log @ d)) = (s2, (log @ d) @ d')" "Q x (fst (f x (s1, log @ d))) d'"
      using f [of x] unfolding adds_def by blast
    have "seqE m f (s, log) = f x (s1, log @ d)" using Inr d(1) by (cases "m (s, log)") (simp add: seqE_def)
    then show ?thesis using d' ok [of x d "fst (f x (s1, log @ d))" d'] d(2) Inr by auto
  qed
qed

lemma adds_try:
  assumes m: "adds m P" and h: "\<And>e. adds (h e) (Q e)"
    and err: "\<And>e r d d'. P (Inl e) d \<Longrightarrow> Q e r d' \<Longrightarrow> R r (d @ d')" and ok: "\<And>x d. P (Inr x) d \<Longrightarrow> R (Inr x) d"
  shows "adds (tryE m h) R"
proof (rule addsI)
  fix s log
  obtain d s1 where d: "snd (m (s, log)) = (s1, log @ d)" "P (fst (m (s, log))) d" using m unfolding adds_def by blast
  show "\<exists>d s'. snd (tryE m h (s, log)) = (s', log @ d) \<and> R (fst (tryE m h (s, log))) d"
  proof (cases "fst (m (s, log))")
    case (Inr x)
    then show ?thesis using d ok by (cases "m (s, log)") (auto simp: tryE_def)
  next
    case (Inl e)
    obtain d' s2 where d': "snd (h e (s1, log @ d)) = (s2, (log @ d) @ d')" "Q e (fst (h e (s1, log @ d))) d'"
      using h [of e] unfolding adds_def by blast
    have "tryE m h (s, log) = h e (s1, log @ d)" using Inl d(1) by (cases "m (s, log)") (simp add: tryE_def)
    then show ?thesis using d' err [of e d "fst (h e (s1, log @ d))" d'] d(2) Inl by auto
  qed
qed

lemma quiet_seq [log_rules]: "says_nothing a m \<Longrightarrow> (\<And>x. says_nothing a (f x)) \<Longrightarrow> says_nothing a (seqE m f)"
  unfolding says_nothing_def by (erule adds_seq [where Q = "\<lambda>_ _. open_log a"]) auto

lemma quiet_try [log_rules]: "says_nothing a m \<Longrightarrow> (\<And>e. says_nothing a (h e)) \<Longrightarrow> says_nothing a (tryE m h)"
  unfolding says_nothing_def by (erule adds_try [where Q = "\<lambda>_ _. open_log a"]) auto

definition report_post :: "string \<Rightarrow> exn + 'a \<Rightarrow> call_log \<Rightarrow> bool" where
  "report_post a r d = (case r of Inl _ \<Rightarrow> open_log a d | Inr _ \<Rightarrow> closed_log a d)"

lemma reports_adds: "reports a m \<longleftrightarrow> adds m (report_post a)"
  by (simp add: reports_def report_post_def [abs_def])

lemma report_post_append: "open_log a d \<Longrightarrow> report_post a r e \<Longrightarrow> report_post a r (d @ e)"
  by (auto simp: report_post_def intro: closed_log_append split: sum.splits)

lemma reports_seq [log_rules]: "says_nothing a m \<Longrightarrow> (\<And>x. reports a (f x)) \<Longrightarrow> reports a (seqE m f)"
  unfolding says_nothing_def reports_adds
  by (erule adds_seq [where Q = "\<lambda>_. report_post a"]) (auto intro: report_post_append simp: report_post_def [of _ "Inl _"])

lemma reports_try [log_rules]: "reports a m \<Longrightarrow> (\<And>e. reports a (h e)) \<Longrightarrow> reports a (tryE m h)"
  unfolding reports_adds
  by (erule adds_try [where Q = "\<lambda>_. report_post a"]) (auto intro: closed_log_append simp: report_post_def split: sum.splits)

lemma reports_seq_or [log_rules]:
  assumes m: "reports_or a m" and none: "f None = ret y" and some: "\<And>x. reports a (f (Some x))"
  shows "reports a (seqE m f)"
  unfolding reports_adds
proof (rule adds_seq [where Q = "\<lambda>x r d. case x of None \<Rightarrow> r = Inr y \<and> d = [] | Some _ \<Rightarrow> report_post a r d"])
  show "adds m (\<lambda>r d. case r of Inr None \<Rightarrow> closed_log a d | _ \<Rightarrow> open_log a d)"
    using m by (simp add: reports_or_def)
  show "adds (f x) (\<lambda>r d. case x of None \<Rightarrow> r = Inr y \<and> d = [] | Some _ \<Rightarrow> report_post a r d)" for x
    using none some by (cases x) (auto simp: adds_def ret_def reports_adds)
qed (auto simp: report_post_def intro: closed_log_append split: option.splits sum.splits)

lemma reports_or_seq [log_rules]: "says_nothing a m \<Longrightarrow> (\<And>x. reports_or a (f x)) \<Longrightarrow> reports_or a (seqE m f)"
  unfolding says_nothing_def reports_or_def
  by (erule adds_seq [where Q = "\<lambda>_ r d. case r of Inr None \<Rightarrow> closed_log a d | _ \<Rightarrow> open_log a d"])
    (auto intro: closed_log_append split: sum.splits option.splits)

lemma reports_then_none [log_rules]: "reports a m \<Longrightarrow> reports_or a (seqE m (\<lambda>_. ret None))"
  unfolding reports_adds reports_or_def
  by (erule adds_seq [where Q = "\<lambda>_ r d. r = Inr None \<and> d = []"]) (auto simp: report_post_def adds_def ret_def)

lemma quiet_some [log_rules]: "says_nothing a m \<Longrightarrow> reports_or a (seqE m (\<lambda>x. ret (Some (g x))))"
  unfolding says_nothing_def reports_or_def
  by (erule adds_seq [where Q = "\<lambda>_ r d. (\<exists>x. r = Inr (Some x)) \<and> d = []"]) (auto simp: adds_def ret_def)

lemma ret_some [log_rules]: "reports_or a (ret (Some x))"
  by (simp add: reports_or_def adds_def ret_def)

lemma quiet_basic [log_rules]:
  "says_nothing a (ret x)" "says_nothing a (raise_exn e)" "reports a (raise_exn e)" "says_nothing a (lift_result r)"
  "says_nothing a (read_state g)" "says_nothing a (unlogged m)"
proof -
  show "says_nothing a (unlogged m)"
    by (auto simp: says_nothing_def adds_def unlogged_def split: prod.splits)
qed (simp_all add: says_nothing_def reports_def adds_def ret_def raise_exn_def lift_result_def read_state_def)

lemma call_adds:
  "adds (we_call (logged env) c) (\<lambda>r d. d = [(c, case r of Inl _ \<Rightarrow> False | Inr _ \<Rightarrow> True)])"
  by (auto simp: adds_def logged_def split: prod.splits)

lemma adds_imp: "adds m P \<Longrightarrow> (\<And>r d. P r d \<Longrightarrow> Q r d) \<Longrightarrow> adds m Q"
  unfolding adds_def by blast

lemma quiet_call: "\<not> final a c \<Longrightarrow> says_nothing a (we_call (logged env) c)"
  unfolding says_nothing_def by (rule adds_imp [OF call_adds]) (simp add: open_log_def)

lemma final_call: "final a c \<Longrightarrow> reports a (seqE (we_call (logged env) c) (\<lambda>_. ret ()))"
  unfolding reports_adds
  by (rule adds_seq [OF call_adds, where Q = "\<lambda>_ r d. r = Inr () \<and> d = []"])
    (auto simp: report_post_def closed_log_def open_log_def adds_def ret_def)

lemma reports_calls [log_rules]:
  "says_nothing a (report_progress (logged env) a p)" "says_nothing a (is_cancel_requested (logged env) j)"
  "reports a (report_complete (logged env) a r arts)" "reports a (report_fail (logged env) a code detail retryable)"
  by (auto simp: report_progress_def is_cancel_requested_def report_complete_def report_fail_def final_def
      intro!: quiet_seq quiet_call final_call quiet_basic)

section \<open>The executors\<close>

lemma reports_if [log_rules]: "(c \<Longrightarrow> reports a m) \<Longrightarrow> (\<not> c \<Longrightarrow> reports a n) \<Longrightarrow> reports a (if c then m else n)"
  by simp

lemma reports_unless [log_rules]: "reports a m \<Longrightarrow> reports a (unless_cancelled (logged env) a j d m)"
  unfolding unless_cancelled_def by (intro log_rules) auto

lemma reports_error [log_rules]: "reports a (report_error (logged env) a e)" "reports a (transfer_error (logged env) a e)"
  unfolding report_error_def transfer_error_def by (auto intro: log_rules)

lemma quiet_parts:
  "we_chat (logged env) = Some f \<Longrightarrow> says_nothing a (f m p)"
  "we_embed (logged env) = Some g \<Longrightarrow> says_nothing a (g m xs t)"
  "says_nothing a (we_stream (logged env) u tok)" "says_nothing a (we_write (logged env) v x)"
  by (auto simp: logged_def intro: log_rules)

lemma reports_case_option [log_rules]:
  "reports a m \<Longrightarrow> (\<And>x. c = Some x \<Longrightarrow> reports a (f x)) \<Longrightarrow> reports a (case c of None \<Rightarrow> m | Some x \<Rightarrow> f x)"
  by (cases c) auto

lemma reports_case_sum [log_rules]:
  "(\<And>e. reports a (m e)) \<Longrightarrow> (\<And>x. reports a (f x)) \<Longrightarrow> reports a (case c of Inl e \<Rightarrow> m e | Inr x \<Rightarrow> f x)"
  by (cases c) auto

lemma reports_pair [log_rules]: "(\<And>x y. reports a (f x y)) \<Longrightarrow> reports a (case p of (x, y) \<Rightarrow> f x y)"
  by (cases p) auto

lemma quiet_pair [log_rules]: "(\<And>x y. says_nothing a (f x y)) \<Longrightarrow> says_nothing a (case p of (x, y) \<Rightarrow> f x y)"
  by (cases p) auto

lemma reports_generate: "reports a (run_llm_generate conv cfg (logged env) a job)"
  unfolding run_llm_generate_def Let_def by (intro log_rules quiet_parts) auto

lemma reports_embed: "reports a (run_llm_embed conv cfg (logged env) a job)"
  unfolding run_llm_embed_def Let_def by (intro log_rules quiet_parts) auto

lemma quiet_case: "we_chat (logged env) = Some chat \<Longrightarrow> says_nothing a (run_case (logged env) chat c)"
  unfolding run_case_def by (intro log_rules quiet_parts)

lemma reports_cases:
  "we_chat (logged env) = Some chat \<Longrightarrow> reports_or a (run_cases (logged env) chat a job_id n i cs acc)"
proof (induction cs arbitrary: i acc)
  case Nil
  then show ?case by (simp add: log_rules)
next
  case (Cons c cs)
  show ?case unfolding run_cases.simps
  proof (rule reports_or_seq)
    fix cancelled
    show "reports_or a (if cancelled
      then seqE (report_fail (logged env) a ''CANCELED'' (''Job canceled at case '' @ str_int (i + 1)) False) (\<lambda>_. ret None)
      else seqE (report_progress (logged env) a
            [(''stage'', PStr ''case_running''), (''case_index'', PInt (i + 1)), (''cases_total'', PInt n),
             (''case_id'', PStr (rc_id c))]) (\<lambda>_.
          seqE (run_case (logged env) chat c) (\<lambda>r. run_cases (logged env) chat a job_id n (i + 1) cs (acc @ [r]))))"
      using Cons by (auto intro!: reports_then_none reports_or_seq reports_calls quiet_case)
  qed (rule reports_calls)
qed

lemma reports_batch: "reports a (run_llm_batch conv cfg (logged env) a job)"
  unfolding run_llm_batch_def Let_def
  by (intro reports_unless reports_case_sum reports_calls reports_case_option)
    (rule reports_seq, rule reports_calls, rule reports_seq, rule quiet_basic, rule reports_seq_or,
      erule reports_cases, simp, (auto intro!: log_rules)[1])

lemma reports_files: "reports_or a (copy_files (logged env) a job_id base token n i fs acc)"
proof (induction fs arbitrary: i acc)
  case Nil
  then show ?case by (simp add: log_rules)
next
  case (Cons f fs)
  obtain copied skipped bytes where acc: "acc = (copied, skipped, bytes)" by (cases acc) auto
  have branch: "reports_or a (if p then seqE (lift_result q) (\<lambda>n'. copy_files (logged env) a job_id base token n j fs (g n'))
      else copy_files (logged env) a job_id base token n j fs h)" for p q g h j
    by (cases p) (simp_all only: if_True if_False Cons.IH reports_or_seq quiet_basic)
  show ?case unfolding acc copy_files.simps
    by (rule reports_or_seq, rule reports_calls)
      (auto intro!: reports_then_none reports_or_seq reports_calls quiet_basic quiet_parts branch)
qed

lemma reports_copy:
  "f None = ret () \<Longrightarrow> (\<And>x. reports a (f (Some x))) \<Longrightarrow>
   reports a (seqE (copy_files (logged env) a job_id base token n i fs acc) f)"
  by (rule reports_seq_or [OF reports_files])

lemma reports_transfer: "reports a (run_model_transfer cfg (logged env) a job)"
  unfolding run_model_transfer_def Let_def
  by (intro reports_copy reports_unless reports_seq reports_calls reports_try reports_error quiet_basic reports_pair quiet_parts)
    (auto intro!: reports_seq quiet_basic reports_calls)

lemma reports_claim:
  assumes "py_str (dget_or claim ''attempt_id'' (PStr [])) = a" "a \<noteq> []"
    "py_str (dget_or (case dget claim ''job'' of PDict j \<Rightarrow> j | _ \<Rightarrow> []) ''type'' (PStr [])) \<notin> set other_types"
  shows "reports a (handle_claim conv cfg (logged env) claim)"
  unfolding handle_claim_def Let_def assms(1)
  by (simp only: assms(2,3) if_False) (intro reports_if reports_generate reports_embed reports_batch reports_transfer reports_calls)

section \<open>Workers move the database by the orchestrator's operations\<close>

text \<open>Any relation between states that all effects of an environment respect is respected by the worker.\<close>

locale moving_env =
  fixes env :: "'s worker_env" and moves :: "'s \<Rightarrow> 's \<Rightarrow> bool"
  assumes stay: "moves s s" and go: "moves s s1 \<Longrightarrow> moves s1 s2 \<Longrightarrow> moves s s2"
    and call: "moves s (snd (we_call env c s))"
    and chat: "we_chat env = Some f \<Longrightarrow> moves s (snd (f m p s))"
    and embed: "we_embed env = Some g \<Longrightarrow> moves s (snd (g m xs t s))"
    and stream: "moves s (snd (we_stream env u tok s))"
    and put_file: "moves s (snd (we_write env v x s))"
    and other: "moves s (snd (we_other env ty a j s))"
    and note_failure: "moves s (we_note_failure env n s)"
begin

definition moved :: "('s, 'a) eff \<Rightarrow> bool" where
  "moved m \<longleftrightarrow> (\<forall>s. moves s (snd (m s)))"

lemma moved_seq: "moved m \<Longrightarrow> (\<And>x. moved (f x)) \<Longrightarrow> moved (seqE m f)"
  unfolding moved_def seqE_def by (auto split: prod.splits sum.splits) (metis go snd_conv)+

lemma moved_try: "moved m \<Longrightarrow> (\<And>e. moved (h e)) \<Longrightarrow> moved (tryE m h)"
  unfolding moved_def tryE_def by (auto split: prod.splits sum.splits) (metis go snd_conv)+

lemma moved_basic:
  "moved (ret x)" "moved (raise_exn e)" "moved (lift_result r)" "moved (read_state g)" "moved (we_call env c)"
  "we_chat env = Some f \<Longrightarrow> moved (f m p)" "we_embed env = Some h \<Longrightarrow> moved (h m xs t)"
  "moved (we_stream env u tok)" "moved (we_write env v y)" "moved (we_other env ty a j)"
  using stay call chat embed stream put_file other
  by (auto simp: moved_def ret_def raise_exn_def lift_result_def read_state_def)

lemma moved_if: "moved m \<Longrightarrow> moved n \<Longrightarrow> moved (if c then m else n)"
  by simp

lemma moved_pair: "(\<And>x y. moved (f x y)) \<Longrightarrow> moved (case p of (x, y) \<Rightarrow> f x y)"
  by (cases p) simp

lemma moved_option: "moved m \<Longrightarrow> (\<And>x. c = Some x \<Longrightarrow> moved (f x)) \<Longrightarrow> moved (case c of None \<Rightarrow> m | Some x \<Rightarrow> f x)"
  by (cases c) simp_all

lemma moved_sum: "(\<And>e. moved (m e)) \<Longrightarrow> (\<And>x. moved (f x)) \<Longrightarrow> moved (case c of Inl e \<Rightarrow> m e | Inr x \<Rightarrow> f x)"
  by (cases c) simp_all

lemmas moved_rules = moved_seq moved_try moved_basic moved_if moved_pair moved_option moved_sum

lemma moved_calls:
  "moved (report_progress env b p)" "moved (report_complete env b r arts)" "moved (report_fail env b code d q)"
  "moved (is_cancel_requested env i)"
  unfolding report_progress_def report_complete_def report_fail_def is_cancel_requested_def
  by (intro moved_rules)+

lemma moved_errors: "moved (report_error env b e)" "moved (transfer_error env b e)"
  unfolding report_error_def transfer_error_def by (intro moved_if moved_calls)+

lemma moved_unless: "moved m \<Longrightarrow> moved (unless_cancelled env b i d m)"
  unfolding unless_cancelled_def by (intro moved_rules moved_calls)

lemma moved_run_case: "we_chat env = Some f \<Longrightarrow> moved (run_case env f c)"
  unfolding run_case_def by (intro moved_rules)

lemma moved_cases: "we_chat env = Some f \<Longrightarrow> moved (run_cases env f b i n k cs acc)"
  by (induction cs arbitrary: k acc) (auto intro!: moved_seq moved_if moved_basic moved_calls moved_run_case)

lemma moved_files: "moved (copy_files env b i base token n k fs acc)"
proof (induction fs arbitrary: k acc)
  case Nil
  then show ?case by (simp add: moved_basic)
next
  case (Cons f fs)
  then show ?case
    by (cases acc) (simp only: copy_files.simps, intro moved_seq moved_if moved_calls moved_basic)
qed

lemma moved_generate: "moved (run_llm_generate conv cfg env b j)"
  unfolding run_llm_generate_def Let_def
  by (intro moved_unless moved_calls moved_errors moved_rules) auto

lemma moved_embed: "moved (run_llm_embed conv cfg env b j)"
  unfolding run_llm_embed_def Let_def
  by (intro moved_unless moved_calls moved_errors moved_rules) auto

lemma moved_batch: "moved (run_llm_batch conv cfg env b j)"
  unfolding run_llm_batch_def Let_def
  by (intro moved_unless moved_calls moved_errors moved_cases moved_rules) auto

lemma moved_transfer: "moved (run_model_transfer cfg env b j)"
  unfolding run_model_transfer_def Let_def
  by (intro moved_unless moved_calls moved_errors moved_files moved_rules)

lemma moved_claim: "moved (handle_claim conv cfg env c)"
  unfolding handle_claim_def Let_def
  by (intro moved_if moved_generate moved_embed moved_batch moved_transfer moved_basic moved_calls)

lemma moved_claims: "moved (handle_claims conv cfg env cs)"
  by (induction cs) (auto intro!: moved_seq moved_basic moved_claim split: pyval.split)

lemma moved_claim_work: "moved (claim_work cfg env)"
proof -
  have "moved (\<lambda>s. raise_exn e (we_note_failure env (claim_failure cfg env e) s))" for e
    using note_failure by (simp add: moved_def raise_exn_def)
  then show ?thesis unfolding claim_work_def by (intro moved_seq moved_try moved_basic)
qed

lemma moved_run_once: "moved (run_once conv cfg env)"
  unfolding run_once_def by (intro moved_if moved_seq moved_basic moved_claims moved_claim_work)

lemma run_once_moves: "moves s (snd (run_once conv cfg env s))"
  using moved_run_once by (simp add: moved_def)

end

section \<open>The controller behind the network\<close>

text \<open>A worker whose calls go to the controller's database over the network; the rest of what it calls
  is that of \<open>base\<close> and works on a world of its own.\<close>

definition on_world :: "('w, 'a) eff \<Rightarrow> ('w site, 'a) eff" where
  "on_world m = (\<lambda>s. case m (si_world s) of (r, w) \<Rightarrow> (r, s\<lparr>si_world := w\<rparr>))"

definition site_worker :: "work_api \<Rightarrow> (nat \<Rightarrow> instant) \<Rightarrow> (nat \<Rightarrow> fate) \<Rightarrow> string \<Rightarrow> string \<Rightarrow> 'w worker_env \<Rightarrow>
    'w site worker_env" where
  "site_worker api clock network node key base =
     \<lparr>we_call = remote_call api clock network node key,
      we_chat = map_option (\<lambda>f m p. on_world (f m p)) (we_chat base),
      we_embed = map_option (\<lambda>f m xs t. on_world (f m xs t)) (we_embed base),
      we_stream = (\<lambda>u t. on_world (we_stream base u t)),
      we_write = (\<lambda>f x. on_world (we_write base f x)),
      we_other = (\<lambda>ty a j. on_world (we_other base ty a j)),
      we_now = (\<lambda>s. we_now base (si_world s)), we_ms = (\<lambda>s s'. we_ms base (si_world s) (si_world s')),
      we_detail = we_detail base,
      we_note_failure = (\<lambda>n s. s\<lparr>si_world := we_note_failure base n (si_world s)\<rparr>)\<rparr>"

lemma on_world_db: "si_db (snd (on_world m s)) = si_db s"
  by (simp add: on_world_def split: prod.splits)

lemma answer_step:
  "(\<And>x db'. r = Inr (x, db') \<Longrightarrow> orch_step M db db' \<or> db' = db) \<Longrightarrow>
   (orch_step M)\<^sup>*\<^sup>* db (snd (answer api f db r))"
  by (cases r) (auto simp: answer_def split: prod.splits)

lemma serve_steps: "(orch_step (o_max_attempts (wa_orch api)))\<^sup>*\<^sup>* db (snd (serve api now node c db))"
proof (cases c)
  case (ClaimWork n labels capacity)
  then show ?thesis by (auto simp: serve_claim_def orch_claim_jobs_def intro!: answer_step orch_step.claim)
next
  case (Cancellation j)
  then show ?thesis by (auto simp: serve_cancellation_def bindE_Inr intro!: answer_step)
next
  case (ReportProgress a p)
  then show ?thesis by (auto simp: serve_progress_def bindE_Inr orch_progress_def intro!: answer_step intro: orch_step.progress)
next
  case (ReportComplete a r arts)
  then show ?thesis by (auto simp: serve_complete_def intro!: answer_step orch_step.complete split: sum.splits)
next
  case (ReportFail a code d q)
  then show ?thesis by (auto simp: serve_fail_def orch_fail_def intro!: answer_step orch_step.fail)
qed

lemma remote_steps:
  "(orch_step (o_max_attempts (wa_orch api)))\<^sup>*\<^sup>* (si_db s) (si_db (snd (remote_call api clock network node key c s)))"
  using serve_steps [of api "si_db s" "clock (si_calls s)" node c]
  by (auto simp: remote_call_def work_request_def Let_def split: fate.splits sum.splits prod.splits)

interpretation site: moving_env "site_worker api clock network node key base"
  "\<lambda>s s'. (orch_step (o_max_attempts (wa_orch api)))\<^sup>*\<^sup>* (si_db s) (si_db s')"
  for api clock network node key base
  by unfold_locales
    (auto simp: site_worker_def on_world_db remote_steps intro: rtranclp_trans)

section \<open>Properties\<close>

text \<open>C4. A worker that handles a claim (of a chat, an embedding, a batch, a transfer, or of an unknown
  type) and returns has sent exactly one final report of that attempt that was accepted, as its last
  call; if an exception leaves the handler, no final report was accepted. So the report of a failure
  follows the report of a completion only when the latter was answered by an error.\<close>

theorem claim_is_reported_once:
  assumes "py_str (dget_or claim ''attempt_id'' (PStr [])) = a" "a \<noteq> []"
    and "py_str (dget_or (case dget claim ''job'' of PDict j \<Rightarrow> j | _ \<Rightarrow> []) ''type'' (PStr [])) \<notin> set other_types"
  shows "\<exists>d s'. snd (handle_claim conv cfg (logged env) claim (s, [])) = (s', d) \<and>
    (case fst (handle_claim conv cfg (logged env) claim (s, [])) of Inl _ \<Rightarrow> open_log a d | Inr _ \<Rightarrow> closed_log a d)"
  using reports_claim [OF assms, of conv cfg env] unfolding reports_def adds_def by (metis append_Nil)


section \<open>A worker at work\<close>

definition demo_base :: "unit worker_env" where
  "demo_base =
     \<lparr>we_call = (\<lambda>_. ret PNone), we_chat = Some (\<lambda>_ _. ret (PStr ''ok'', PDict [])), we_embed = None,
      we_stream = (\<lambda>_ _. raise_exn (Exn ''ConnectError'' [])), we_write = (\<lambda>_ _. ret []), we_other = (\<lambda>_ _ _. ret ()),
      we_now = (\<lambda>_. ''now''), we_ms = (\<lambda>_ _. 0), we_detail = exn_text, we_note_failure = (\<lambda>_ w. w)\<rparr>"

definition demo_worker_config :: worker_config where
  "demo_worker_config =
     \<lparr>wc_mode = ''agent'', wc_enabled = True, wc_controller_url = ''http://c/'', wc_node_name = ''n'', wc_max_jobs = 2,
      wc_labels = [], wc_capacity = []\<rparr>"

definition demo_api :: work_api where
  "demo_api =
     \<lparr>wa_orch = \<lparr>o_lease_timeout_seconds = 60, o_max_attempts = 3, o_retention_days = 30, o_archive_retention_days = 90,
        o_controller_instance_id = ''c'', o_leader_lease_seconds = 30\<rparr>,
      wa_registry = new_registry [(''n'', \<lparr>nc_url = ''http://n'', nc_api_key = Some ''k'', nc_verify_tls = True,
        nc_default_model = None, nc_request_types = [], nc_max_running = None\<rparr>)] 30 None,
      wa_import = (\<lambda>_. Inr ()), wa_name = (\<lambda>n. replicate (Suc n) CHR ''i'')\<rparr>"

definition demo_jobs :: "nat \<Rightarrow> unit site" where
  "demo_jobs k =
     \<lparr>si_db = ((\<lambda>db. case create_job 0 ''llm.generate'' demo_stored 0 ''auto'' None db of Inl _ \<Rightarrow> db | Inr (_, db') \<Rightarrow> db') ^^ k) empty_db,
      si_calls = 0, si_world = ()\<rparr>"

definition demo_round :: "(nat \<Rightarrow> fate) \<Rightarrow> nat \<Rightarrow> unit site" where
  "demo_round network k =
     snd (run_once strict_conv demo_worker_config (site_worker demo_api (\<lambda>n. int n) network ''n'' ''k'' demo_base) (demo_jobs k))"

theorem claim_is_reported_once_witness:
  "\<exists>d s'. snd (handle_claim strict_conv demo_worker_config (logged demo_base)
       [(''attempt_id'', PStr ''x''), (''job'', PDict [(''type'', PStr ''llm.generate''), (''payload'', PDict demo_stored)])] ((), [])) = (s', d) \<and>
     closed_log ''x'' d"
proof -
  let ?c = "[(''attempt_id'', PStr ''x''), (''job'', PDict [(''type'', PStr ''llm.generate''), (''payload'', PDict demo_stored)])]"
  have "isl (fst (handle_claim strict_conv demo_worker_config (logged demo_base) ?c ((), []))) = False" by code_simp
  then obtain u where u: "fst (handle_claim strict_conv demo_worker_config (logged demo_base) ?c ((), [])) = Inr u"
    by (cases "fst (handle_claim strict_conv demo_worker_config (logged demo_base) ?c ((), []))") auto
  have h: "py_str (dget_or ?c ''attempt_id'' (PStr [])) = ''x''"
    "py_str (dget_or (case dget ?c ''job'' of PDict j \<Rightarrow> j | _ \<Rightarrow> []) ''type'' (PStr [])) \<notin> set other_types"
    by code_simp+
  from claim_is_reported_once [OF h(1) _ h(2), of strict_conv demo_worker_config demo_base "()"] u
  show ?thesis by (simp del: handle_claim_def)
qed

text \<open>A chat is run and its completion is recorded, but the controller's answer is lost: the worker
  takes the exception for a failure of the model and reports the attempt as failed. The controller
  accepts that, and the completed job is queued and runs again. With a network that loses nothing the
  same job is completed.\<close>

theorem lost_reply_repeats_job:
  "map j_status (jobs (si_db (demo_round (\<lambda>_. Delivered) 1))) = [Completed] \<and>
   map j_status (jobs (si_db (demo_round (\<lambda>n. if n = 4 then ReplyLost else Delivered) 1))) = [Queued] \<and>
   ''job_completed'' \<in> e_type ` set (events (si_db (demo_round (\<lambda>n. if n = 4 then ReplyLost else Delivered) 1)))"
  by code_simp

text \<open>A worker that claimed two jobs and fails to report progress of the first drops both: the exception
  ends the round, and both jobs stay assigned to a node that does nothing about them until their leases
  run out.\<close>

theorem one_failure_drops_all_claims:
  "map j_status (jobs (si_db (demo_round (\<lambda>_. Delivered) 2))) = [Completed, Completed] \<and>
   map j_status (jobs (si_db (demo_round (\<lambda>n. if n = 2 then RequestLost else Delivered) 2))) = [Assigned, Assigned]"
  by code_simp

end
