(* ===== verification/Doc_Chunking.thy ===== *)
theory Doc_Chunking
  imports Py_Text
begin

text \<open>
  How a document is cut into chunks for the search index
  (\<open>core/document_collections/chunking.py\<close>): runs of words of at most \<open>max_chars\<close> characters, of
  which each repeats the last words of the one before it, at most \<open>overlap_chars\<close> characters.

  The outer loop need not end, so it is a \<^theory_text>\<open>partial_function\<close>: \<open>None\<close> means that the code
  does not return.
\<close>

section \<open>Words\<close>

text \<open>\<open>text.split()\<close>.\<close>

function split_ws :: "string \<Rightarrow> string list" where
  "split_ws s =
     (let t = dropWhile is_space s
      in if t = [] then []
         else takeWhile (\<lambda>c. \<not> is_space c) t # split_ws (dropWhile (\<lambda>c. \<not> is_space c) t))"
  by pat_completeness auto
termination
proof (relation "measure length")
  fix s t :: string
  assume t: "t = dropWhile is_space s" and ne: "t \<noteq> []"
  then have "\<not> is_space (hd t)" by (simp add: hd_dropWhile)
  with ne have "length (dropWhile (\<lambda>c. \<not> is_space c) t) < length t"
    by (cases t) (auto simp: le_imp_less_Suc length_dropWhile_le)
  also have "\<dots> \<le> length s" by (simp add: t length_dropWhile_le)
  finally show "(dropWhile (\<lambda>c. \<not> is_space c) t, s) \<in> measure length" by simp
qed simp

declare split_ws.simps [simp del]

definition slice :: "nat \<Rightarrow> nat \<Rightarrow> 'a list \<Rightarrow> 'a list" where
  "slice a b xs = take (b - a) (drop a xs)"

section \<open>The three loops\<close>

definition value_error :: "string \<Rightarrow> exn" where
  "value_error msg = Exn ''ValueError'' msg"

text \<open>The length of a text after one more word, as both inner loops compute it.\<close>

definition with_word :: "int \<Rightarrow> string \<Rightarrow> int" where
  "with_word current w = (if current = 0 then int (length w) else current + 1 + int (length w))"

function chunk_end_loop :: "string list \<Rightarrow> int \<Rightarrow> nat \<Rightarrow> int \<Rightarrow> exn + nat" where
  "chunk_end_loop ws max_chars end_index current =
     (if end_index < length ws
      then let w = ws ! end_index
           in if int (length w) > max_chars
              then Inl (value_error (''Document word exceeds max_chars: '' @ w))
              else if with_word current w > max_chars then Inr end_index
              else chunk_end_loop ws max_chars (Suc end_index) (with_word current w)
      else Inr end_index)"
  by pat_completeness auto
termination by (relation "measure (\<lambda>(ws, m, e, c). length ws - e)") auto

declare chunk_end_loop.simps [simp del]

definition chunk_end_index :: "string list \<Rightarrow> nat \<Rightarrow> int \<Rightarrow> exn + nat" where
  "chunk_end_index ws start_index max_chars =
     bindE (chunk_end_loop ws max_chars start_index 0) (\<lambda>end_index.
       if end_index = start_index
       then Inl (value_error (''Could not create document chunk at word index '' @
              nat_digits start_index))
       else Inr end_index)"

fun overlap_start_loop :: "string list \<Rightarrow> nat \<Rightarrow> int \<Rightarrow> nat \<Rightarrow> int \<Rightarrow> nat" where
  "overlap_start_loop ws start_index overlap_chars 0 current = 0"
| "overlap_start_loop ws start_index overlap_chars (Suc s) current =
     (if start_index < Suc s
      then let candidate = with_word current (ws ! s)
           in if candidate > overlap_chars then Suc s
              else overlap_start_loop ws start_index overlap_chars s candidate
      else Suc s)"

definition overlap_start_index :: "string list \<Rightarrow> nat \<Rightarrow> nat \<Rightarrow> int \<Rightarrow> nat" where
  "overlap_start_index ws start_index end_index overlap_chars =
     (if overlap_chars = 0 then end_index
      else overlap_start_loop ws start_index overlap_chars end_index 0)"

partial_function (option) chunk_loop ::
  "string list \<Rightarrow> int \<Rightarrow> int \<Rightarrow> nat \<Rightarrow> string list \<Rightarrow> (exn + string list) option" where
  "chunk_loop ws max_chars overlap_chars index chunks =
     (if index < length ws
      then (case chunk_end_index ws index max_chars of
              Inl e \<Rightarrow> Some (Inl e)
            | Inr next_index \<Rightarrow>
                (let chunks' = chunks @ [join '' '' (slice index next_index ws)]
                 in if length ws \<le> next_index then Some (Inr chunks')
                    else chunk_loop ws max_chars overlap_chars
                           (overlap_start_index ws index next_index overlap_chars) chunks'))
      else Some (Inr chunks))"

definition chunk_document_text :: "string \<Rightarrow> int \<Rightarrow> int \<Rightarrow> (exn + string list) option" where
  "chunk_document_text text max_chars overlap_chars =
     (if max_chars \<le> 0 then Some (Inl (value_error ''max_chars must be greater than 0''))
      else if overlap_chars < 0
      then Some (Inl (value_error ''overlap_chars must be greater than or equal to 0''))
      else if overlap_chars \<ge> max_chars
      then Some (Inl (value_error ''overlap_chars must be less than max_chars''))
      else let ws = split_ws text
           in if ws = []
              then Some (Inl (value_error ''Document text must contain non-whitespace content''))
              else chunk_loop ws max_chars overlap_chars 0 [])"

section \<open>Splitting and joining\<close>

definition word :: "string \<Rightarrow> bool" where
  "word w \<longleftrightarrow> w \<noteq> [] \<and> (\<forall>c \<in> set w. \<not> is_space c)"

lemma is_space_blank: "is_space CHR '' ''"
  by (simp add: is_space_def char_nat_def)

lemma split_ws_words: "w \<in> set (split_ws s) \<Longrightarrow> word w"
proof (induction s rule: split_ws.induct)
  case (1 s)
  define t where "t = dropWhile is_space s"
  show ?case
  proof (cases "t = []")
    case True
    with 1(2) show ?thesis by (simp add: split_ws.simps [of s] t_def)
  next
    case False
    then have h: "\<not> is_space (hd t)" by (simp add: t_def hd_dropWhile)
    have "split_ws s = takeWhile (\<lambda>c. \<not> is_space c) t # split_ws (dropWhile (\<lambda>c. \<not> is_space c) t)"
      using False unfolding t_def by (subst split_ws.simps) (simp only: Let_def if_False)
    with 1(2) consider "w = takeWhile (\<lambda>c. \<not> is_space c) t"
      | "w \<in> set (split_ws (dropWhile (\<lambda>c. \<not> is_space c) t))"
      by auto
    then show ?thesis
    proof cases
      case 1
      with False h show ?thesis by (cases t) (auto simp: word_def dest: set_takeWhileD)
    next
      case 2
      with "1.IH" [OF t_def False] show ?thesis by simp
    qed
  qed
qed

lemma split_ws_word:
  assumes "word w" "rest = [] \<or> is_space (hd rest)"
  shows "split_ws (w @ rest) = w # split_ws rest"
proof -
  from assms(1) have w: "w \<noteq> []" "\<And>c. c \<in> set w \<Longrightarrow> \<not> is_space c" by (auto simp: word_def)
  then have d: "dropWhile is_space (w @ rest) = w @ rest" by (cases w) auto
  have r: "takeWhile (\<lambda>c. \<not> is_space c) rest = []" "dropWhile (\<lambda>c. \<not> is_space c) rest = rest"
    using assms(2) by (cases rest; simp)+
  show ?thesis
    using w by (simp add: split_ws.simps [of "w @ rest"] d Let_def takeWhile_append dropWhile_append r)
qed

lemma split_ws_blank: "split_ws (CHR '' '' # s) = split_ws s"
  using is_space_blank by (simp add: split_ws.simps [of "CHR '' '' # s"] split_ws.simps [of s])

lemma split_ws_join: "\<forall>w \<in> set ws. word w \<Longrightarrow> split_ws (join '' '' ws) = ws"
proof (induction "'' ''" ws rule: join.induct)
  case 1
  then show ?case by (simp add: split_ws.simps)
next
  case (2 x)
  then show ?case using split_ws_word [of x "[]"] by (simp add: split_ws.simps [of "[]"])
next
  case (3 x y ys)
  then show ?case
    using split_ws_word [of x "CHR '' '' # join '' '' (y # ys)"] is_space_blank
    by (simp add: split_ws_blank)
qed

lemma length_join_snoc:
  "xs \<noteq> [] \<Longrightarrow> length (join '' '' (xs @ [w])) = length (join '' '' xs) + 1 + length w"
  by (induction "'' ''" xs rule: join.induct) auto

lemma length_join_Cons:
  "xs \<noteq> [] \<Longrightarrow> length (join '' '' (w # xs)) = length w + 1 + length (join '' '' xs)"
  by (cases xs) auto

lemma join_word_empty: "\<forall>w \<in> set ws. word w \<Longrightarrow> join '' '' ws = [] \<longleftrightarrow> ws = []"
  by (cases ws; cases "tl ws") (auto simp: word_def)

section \<open>What the inner loops find\<close>

lemma slice_self [simp]: "slice a a xs = []"
  by (simp add: slice_def)

lemma slice_whole: "slice 0 (length xs) xs = xs"
  by (simp add: slice_def)

lemma slice_Suc: "a \<le> b \<Longrightarrow> b < length xs \<Longrightarrow> slice a (Suc b) xs = slice a b xs @ [xs ! b]"
  by (simp add: slice_def Suc_diff_le take_Suc_conv_app_nth)

lemma slice_front: "a < b \<Longrightarrow> b \<le> length xs \<Longrightarrow> slice a b xs = xs ! a # slice (Suc a) b xs"
  unfolding slice_def by (metis Cons_nth_drop_Suc Suc_diff_Suc less_le_trans take_Suc_Cons)

lemma slice_join: "a \<le> b \<Longrightarrow> b \<le> c \<Longrightarrow> slice a b xs @ slice b c xs = slice a c xs"
  by (auto simp: slice_def le_iff_add take_add add.commute)

lemma slice_set: "x \<in> set (slice a b xs) \<Longrightarrow> x \<in> set xs"
  unfolding slice_def by (meson in_set_dropD in_set_takeD)

lemma slice_Nil: "a < b \<Longrightarrow> a < length xs \<Longrightarrow> slice a b xs \<noteq> []"
  by (simp add: slice_def)

lemma with_word_snoc:
  assumes "\<forall>w \<in> set xs. word w"
  shows "with_word (int (length (join '' '' xs))) w = int (length (join '' '' (xs @ [w])))"
    and "with_word (int (length (join '' '' xs))) w = int (length (join '' '' (w # xs)))"
  using join_word_empty [OF assms] length_join_snoc [of xs w] length_join_Cons [of xs w]
  by (cases xs; simp add: with_word_def)+

text \<open>The chunk that begins at a word ends where the next word does not fit.\<close>

lemma chunk_end_loop_result:
  assumes "\<forall>w \<in> set ws. word w" "a \<le> e" "e \<le> length ws"
    and "current = int (length (join '' '' (slice a e ws)))" "current \<le> m"
  shows "case chunk_end_loop ws m e current of
      Inl x \<Rightarrow> \<exists>w \<in> set ws. m < int (length w)
    | Inr f \<Rightarrow> e \<le> f \<and> f \<le> length ws \<and> int (length (join '' '' (slice a f ws))) \<le> m \<and>
        (f < length ws \<longrightarrow> int (length (ws ! f)) \<le> m \<and>
           m < with_word (int (length (join '' '' (slice a f ws)))) (ws ! f))"
  using assms
proof (induction ws m e current rule: chunk_end_loop.induct)
  case (1 ws m e current)
  note step = chunk_end_loop.simps [of ws m e current]
  show ?case
  proof (cases "e < length ws")
    case False
    with 1(2-) show ?thesis unfolding step by simp
  next
    case True
    show ?thesis
    proof (cases "int (length (ws ! e)) > m \<or> with_word current (ws ! e) > m")
      case True
      with \<open>e < length ws\<close> 1(2-) show ?thesis
        unfolding step by (auto simp: Let_def intro: bexI [of _ "ws ! e"])
    next
      case False
      have "with_word current (ws ! e) = int (length (join '' '' (slice a (Suc e) ws)))"
        using True 1 with_word_snoc(1) [of "slice a e ws" "ws ! e"] by (auto simp: slice_Suc dest: slice_set)
      with 1(1) [OF True refl] True False 1(2-) show ?thesis unfolding step by (auto simp: Let_def split: sum.splits)
    qed
  qed
qed

lemma chunk_end_index_result:
  assumes "\<forall>w \<in> set ws. word w" "a < length ws" "0 \<le> m"
  shows "case chunk_end_index ws a m of
      Inl x \<Rightarrow> \<exists>w \<in> set ws. m < int (length w)
    | Inr f \<Rightarrow> a < f \<and> f \<le> length ws \<and> int (length (join '' '' (slice a f ws))) \<le> m \<and>
        (f < length ws \<longrightarrow> int (length (ws ! f)) \<le> m \<and>
           m < with_word (int (length (join '' '' (slice a f ws)))) (ws ! f))"
  using chunk_end_loop_result [OF assms(1) order_refl less_imp_le [OF assms(2)], of 0 m] assms
  by (auto simp: chunk_end_index_def with_word_def split: sum.splits)

text \<open>The overlap is the longest run of words before the end that is short enough.\<close>

lemma overlap_start_loop_result:
  assumes "\<forall>w \<in> set ws. word w" "a \<le> s" "s \<le> b" "b \<le> length ws"
    and "current = int (length (join '' '' (slice s b ws)))" "current \<le> v"
  shows "let r = overlap_start_loop ws a v s current
    in a \<le> r \<and> r \<le> s \<and> int (length (join '' '' (slice r b ws))) \<le> v \<and>
       (a < r \<longrightarrow> v < int (length (join '' '' (slice (r - 1) b ws))))"
  using assms
proof (induction s arbitrary: current)
  case 0
  then show ?case by simp
next
  case (Suc s)
  have c: "with_word current (ws ! s) = int (length (join '' '' (slice s b ws)))" if "a < Suc s"
    using Suc.prems with_word_snoc(2) [of "slice (Suc s) b ws" "ws ! s"]
    by (auto simp: slice_front [of s b ws] dest: slice_set)
  show ?case
  proof (cases "a < Suc s")
    case False
    with Suc.prems show ?thesis by simp
  next
    case True
    show ?thesis
    proof (cases "with_word current (ws ! s) > v")
      case True
      with \<open>a < Suc s\<close> Suc.prems c [OF \<open>a < Suc s\<close>] show ?thesis by (simp add: Let_def)
    next
      case False
      with Suc.IH [OF Suc.prems(1) _ _ Suc.prems(4) c] \<open>a < Suc s\<close> Suc.prems c [OF \<open>a < Suc s\<close>]
      show ?thesis by (simp add: Let_def)
    qed
  qed
qed

lemma overlap_start_index_result:
  assumes "\<forall>w \<in> set ws. word w" "a \<le> b" "b \<le> length ws" "0 \<le> v"
  defines "r \<equiv> overlap_start_index ws a b v"
  shows "a \<le> r" "r \<le> b" "int (length (join '' '' (slice r b ws))) \<le> v"
    and "a < r \<Longrightarrow> 0 < v \<Longrightarrow> v < int (length (join '' '' (slice (r - 1) b ws)))"
  using overlap_start_loop_result [OF assms(1,2) order_refl assms(3), of 0 v] assms(2-4)
  by (auto simp: r_def overlap_start_index_def Let_def)

end
