(* ===== verification/Doc_Store.thy ===== *)
theory Doc_Store
  imports Doc_Chunking
begin

text \<open>
  Collections of documents: their tables (\<open>core/persistence/document_collection_store_orm.py\<close>), the
  index of their chunks (\<open>core/document_collections/vector_store.py\<close>) and the service over both
  (\<open>core/document_collections/service.py\<close>).

  Ids are texts drawn from a counter instead of \<open>uuid4\<close> texts; \<open>clk i\<close> is the \<open>i\<close>-th reading of the
  clock in an operation. The embedding model and the vector database are outside the repository:
  a record of functions over a state of any type.
\<close>

section \<open>Tables\<close>

record collection_row =
  co_id :: string
  co_name :: string
  co_description :: "string option"
  co_created :: int
  co_updated :: int
  co_archived :: bool

record document_row =
  do_id :: string
  do_collection :: string
  do_filename :: string
  do_type :: string
  do_status :: string
  do_chunks :: nat
  do_error :: "string option"
  do_created :: int
  do_updated :: int

record chunk_row =
  ck_id :: string
  ck_document :: string
  ck_collection :: string
  ck_index :: nat
  ck_text :: string
  ck_created :: int

record doc_db =
  dd_collections :: "collection_row list"
  dd_documents :: "document_row list"
  dd_chunks :: "chunk_row list"
  dd_next :: nat

definition empty_docs :: doc_db where
  "empty_docs = \<lparr>dd_collections = [], dd_documents = [], dd_chunks = [], dd_next = 0\<rparr>"

definition find_collection :: "doc_db \<Rightarrow> string \<Rightarrow> collection_row option" where
  "find_collection db c = List.find (\<lambda>x. co_id x = c) (dd_collections db)"

definition find_document :: "doc_db \<Rightarrow> string \<Rightarrow> document_row option" where
  "find_document db d = List.find (\<lambda>x. do_id x = d) (dd_documents db)"

definition create_collection :: "int \<Rightarrow> string \<Rightarrow> string option \<Rightarrow> doc_db \<Rightarrow> collection_row \<times> doc_db" where
  "create_collection now name description db =
     (let c = \<lparr>co_id = nat_digits (dd_next db), co_name = name, co_description = description,
               co_created = now, co_updated = now, co_archived = False\<rparr>
      in (c, db\<lparr>dd_collections := dd_collections db @ [c], dd_next := Suc (dd_next db)\<rparr>))"

definition update_collection ::
  "int \<Rightarrow> string \<Rightarrow> string \<Rightarrow> string option \<Rightarrow> doc_db \<Rightarrow> collection_row option \<times> doc_db" where
  "update_collection now cid name description db =
     (if find_collection db cid = None then (None, db)
      else let db' = db\<lparr>dd_collections := map_if (\<lambda>c. co_id c = cid)
             (\<lambda>c. c\<lparr>co_name := name, co_description := description, co_updated := now\<rparr>)
             (dd_collections db)\<rparr>
           in (find_collection db' cid, db'))"

definition archive_collection :: "int \<Rightarrow> string \<Rightarrow> doc_db \<Rightarrow> collection_row option \<times> doc_db" where
  "archive_collection now cid db =
     (if find_collection db cid = None then (None, db)
      else let db' = db\<lparr>dd_collections := map_if (\<lambda>c. co_id c = cid)
             (\<lambda>c. c\<lparr>co_archived := True, co_updated := now\<rparr>) (dd_collections db)\<rparr>
           in (find_collection db' cid, db'))"

definition list_collections :: "bool \<Rightarrow> doc_db \<Rightarrow> collection_row list" where
  "list_collections include_archived db =
     rev (sort_key co_updated (rev (filter (\<lambda>c. include_archived \<or> \<not> co_archived c) (dd_collections db))))"

definition list_documents :: "string \<Rightarrow> doc_db \<Rightarrow> document_row list option" where
  "list_documents cid db =
     (if find_collection db cid = None then None
      else Some (sort_key do_created (filter (\<lambda>d. do_collection d = cid) (dd_documents db))))"

definition drop_collection :: "string \<Rightarrow> doc_db \<Rightarrow> bool \<times> doc_db" where
  "drop_collection cid db =
     (if find_collection db cid = None then (False, db)
      else (True, db\<lparr>dd_chunks := filter (\<lambda>k. ck_collection k \<noteq> cid) (dd_chunks db),
                    dd_documents := filter (\<lambda>d. do_collection d \<noteq> cid) (dd_documents db),
                    dd_collections := filter (\<lambda>c. co_id c \<noteq> cid) (dd_collections db)\<rparr>))"

definition create_document ::
  "int \<Rightarrow> string \<Rightarrow> string \<Rightarrow> string \<Rightarrow> doc_db \<Rightarrow> exn + (document_row \<times> doc_db)" where
  "create_document now cid filename ctype db =
     (if find_collection db cid = None
      then Inl (value_error (''Document collection not found: '' @ cid))
      else let d = \<lparr>do_id = nat_digits (dd_next db), do_collection = cid, do_filename = filename,
                    do_type = ctype, do_status = ''pending'', do_chunks = 0, do_error = None,
                    do_created = now, do_updated = now\<rparr>
           in Inr (d, db\<lparr>dd_documents := dd_documents db @ [d], dd_next := Suc (dd_next db)\<rparr>))"

definition mark_document_failed :: "int \<Rightarrow> string \<Rightarrow> string \<Rightarrow> doc_db \<Rightarrow> doc_db" where
  "mark_document_failed now did msg db =
     db\<lparr>dd_documents := map_if (\<lambda>d. do_id d = did)
        (\<lambda>d. d\<lparr>do_status := ''failed'', do_error := Some msg, do_updated := now\<rparr>) (dd_documents db)\<rparr>"

definition list_chunks_for_document :: "string \<Rightarrow> doc_db \<Rightarrow> chunk_row list" where
  "list_chunks_for_document did db =
     sort_key ck_index (filter (\<lambda>k. ck_document k = did) (dd_chunks db))"

definition new_chunks :: "int \<Rightarrow> string \<Rightarrow> string \<Rightarrow> string list \<Rightarrow> nat \<Rightarrow> chunk_row list" where
  "new_chunks now did cid texts n =
     map (\<lambda>(i, t). \<lparr>ck_id = nat_digits (n + i), ck_document = did, ck_collection = cid, ck_index = i,
                    ck_text = t, ck_created = now\<rparr>) (enumerate 0 texts)"

definition replace_document_chunks ::
  "int \<Rightarrow> string \<Rightarrow> string \<Rightarrow> string list \<Rightarrow> doc_db \<Rightarrow> exn + (chunk_row list \<times> doc_db)" where
  "replace_document_chunks now did cid texts db =
     (case find_document db did of
        None \<Rightarrow> Inl (value_error (''Document not found: '' @ did))
      | Some d \<Rightarrow>
          if do_collection d \<noteq> cid
          then Inl (value_error (''Document '' @ did @ '' does not belong to collection '' @ cid))
          else let db' = db\<lparr>
                 dd_chunks := filter (\<lambda>k. ck_document k \<noteq> did) (dd_chunks db)
                    @ new_chunks now did cid texts (dd_next db),
                 dd_documents := map_if (\<lambda>d. do_id d = did)
                    (\<lambda>d. d\<lparr>do_status := ''indexed'', do_chunks := length texts, do_error := None,
                           do_updated := now\<rparr>) (dd_documents db),
                 dd_next := dd_next db + length texts\<rparr>
               in Inr (list_chunks_for_document did db', db'))"

section \<open>The index\<close>

record vector_row =
  vr_id :: string
  vr_embedding :: "rat list"
  vr_text :: string
  vr_meta :: pydict

record 'v vector_db =
  vd_embed :: "string \<Rightarrow> exn + rat list"
  vd_add :: "vector_row list \<Rightarrow> 'v \<Rightarrow> (exn + unit) \<times> 'v"
  vd_delete :: "string \<Rightarrow> 'v \<Rightarrow> (exn + unit) \<times> 'v"
  vd_query :: "rat list \<Rightarrow> int \<Rightarrow> string list \<Rightarrow> 'v \<Rightarrow> exn + pydict"

definition chunk_metadata :: "string \<Rightarrow> chunk_row \<Rightarrow> pydict" where
  "chunk_metadata filename k =
     [(''chunk_id'', PStr (ck_id k)), (''document_id'', PStr (ck_document k)),
      (''collection_id'', PStr (ck_collection k)), (''filename'', PStr filename),
      (''chunk_index'', PInt (int (ck_index k)))]"

fun vector_rows :: "'v vector_db \<Rightarrow> string \<Rightarrow> chunk_row list \<Rightarrow> exn + vector_row list" where
  "vector_rows V filename [] = Inr []"
| "vector_rows V filename (k # ks) =
     bindE (vd_embed V (ck_text k)) (\<lambda>e.
     bindE (vector_rows V filename ks) (\<lambda>rows.
       Inr (\<lparr>vr_id = ck_id k, vr_embedding = e, vr_text = ck_text k,
             vr_meta = chunk_metadata filename k\<rparr> # rows)))"

definition add_chunks :: "'v vector_db \<Rightarrow> string \<Rightarrow> chunk_row list \<Rightarrow> ('v, unit) eff" where
  "add_chunks V filename ks =
     (if ks = [] then ret ()
      else (\<lambda>v. case vector_rows V filename ks of Inl e \<Rightarrow> (Inl e, v) | Inr rows \<Rightarrow> vd_add V rows v))"

record search_hit =
  sh_chunk :: string
  sh_document :: string
  sh_collection :: string
  sh_filename :: string
  sh_index :: int
  sh_text :: string
  sh_score :: rat

text \<open>\<open>int()\<close> and \<open>float()\<close> of what a query returns: numbers. A text is refused even where Python
  would read it as a number; the database gives none.\<close>

definition int_of_value :: "pyval \<Rightarrow> exn + int" where
  "int_of_value v = (case v of PInt i \<Rightarrow> Inr i | PBool b \<Rightarrow> Inr (if b then 1 else 0)
     | PFloat r \<Rightarrow> Inr (if r < 0 then - floor (- r) else floor r)
     | PStr s \<Rightarrow> Inl (value_error (''invalid literal for int() with base 10: '' @ str_repr s))
     | _ \<Rightarrow> Inl (Exn ''TypeError'' ''int() argument must be a number''))"

definition float_of_value :: "pyval \<Rightarrow> exn + rat" where
  "float_of_value v = (case num_of v of Some r \<Rightarrow> Inr r
     | None \<Rightarrow> (case v of
         PStr s \<Rightarrow> Inl (value_error (''could not convert string to float: '' @ str_repr s))
       | _ \<Rightarrow> Inl (Exn ''TypeError'' ''float() argument must be a number'')))"

text \<open>\<open>round(x, 4)\<close>: to the nearest multiple, halves to the even one.\<close>

definition round4 :: "rat \<Rightarrow> rat" where
  "round4 x = (let y = 10000 * x; n = floor y; d = y - of_int n
     in of_int (if d < 1 / 2 \<or> (d = 1 / 2 \<and> even n) then n else n + 1) / 10000)"

definition min_similarity :: rat where
  "min_similarity = 35 / 100"

definition first_result_list :: "pydict \<Rightarrow> string \<Rightarrow> exn + pyval list" where
  "first_result_list raw key =
     (case dget raw key of
        PList (PList xs # _) \<Rightarrow> Inr xs
      | PList (_ # _) \<Rightarrow>
          Inl (Exn ''TypeError'' (''Document collection vector query returned invalid '' @ key))
      | _ \<Rightarrow> Inr [])"

definition hit_of :: "pyval \<Rightarrow> pydict \<Rightarrow> string \<Rightarrow> rat \<Rightarrow> exn + search_hit" where
  "hit_of document meta cid score =
     bindE (int_of_value (dget_or meta ''chunk_index'' (PInt 0))) (\<lambda>i.
       Inr \<lparr>sh_chunk = py_str (dget_or meta ''chunk_id'' (PStr [])),
            sh_document = py_str (dget_or meta ''document_id'' (PStr [])),
            sh_collection = cid,
            sh_filename = py_str (dget_or meta ''filename'' (PStr [])),
            sh_index = i, sh_text = py_str document, sh_score = round4 score\<rparr>)"

fun search_results ::
  "string list \<Rightarrow> int \<Rightarrow> (pyval \<times> pyval \<times> pyval) list \<Rightarrow> search_hit list \<Rightarrow> exn + search_hit list" where
  "search_results cids top_k [] hits = Inr hits"
| "search_results cids top_k ((document, metadata, distance) # rows) hits =
     (case metadata of
        PDict meta \<Rightarrow>
          (let cid = py_str (dget_or meta ''collection_id'' (PStr []))
           in if cid \<notin> set cids then search_results cids top_k rows hits
              else bindE (float_of_value distance) (\<lambda>r.
                let score = 1 - r
                in if score < min_similarity then search_results cids top_k rows hits
                   else bindE (hit_of document meta cid score) (\<lambda>h.
                     let hits' = hits @ [h]
                     in if int (length hits') \<ge> top_k then Inr hits'
                        else search_results cids top_k rows hits')))
      | _ \<Rightarrow> Inl (Exn ''TypeError'' ''Document collection vector metadata was not an object''))"

definition vector_search ::
  "'v vector_db \<Rightarrow> string \<Rightarrow> string list \<Rightarrow> int \<Rightarrow> 'v \<Rightarrow> exn + search_hit list" where
  "vector_search V query cids top_k v =
     (if strip query = []
      then Inl (value_error ''Document collection search query must contain non-whitespace content'')
      else if cids = []
      then Inl (value_error ''Document collection search requires at least one collection_id'')
      else if top_k \<le> 0
      then Inl (value_error ''Document collection search top_k must be greater than 0'')
      else bindE (vd_embed V query) (\<lambda>q.
           bindE (vd_query V q (top_k * max (int (length cids)) 1) cids v) (\<lambda>raw.
           bindE (first_result_list raw ''documents'') (\<lambda>ds.
           bindE (first_result_list raw ''metadatas'') (\<lambda>ms.
           bindE (first_result_list raw ''distances'') (\<lambda>rs.
             search_results cids top_k (zip ds (zip ms rs)) []))))))"

section \<open>The service\<close>

record 'v doc_system =
  ds_db :: doc_db
  ds_vec :: 'v

definition on_index :: "('v, 'a) eff \<Rightarrow> ('v doc_system, 'a) eff" where
  "on_index m = (\<lambda>s. case m (ds_vec s) of (r, v) \<Rightarrow> (r, s\<lparr>ds_vec := v\<rparr>))"

definition normalize_content_type :: "string \<Rightarrow> string \<Rightarrow> exn + string" where
  "normalize_content_type filename ctype =
     (if lower ctype \<in> {''text/plain'', ''text/markdown''} then Inr (lower ctype)
      else if ends_with ''.txt'' (lower filename) then Inr ''text/plain''
      else if ends_with ''.md'' (lower filename) then Inr ''text/markdown''
      else Inl (value_error (''Unsupported document content type for '' @ filename @ '': '' @ ctype @
        ''. Only text/plain, text/markdown, .txt, and .md documents are supported.'')))"

text \<open>The body of the \<open>try\<close> of an upload: cutting into chunks, which may not return, storing them,
  and indexing them.\<close>

definition index_document ::
  "'v vector_db \<Rightarrow> (nat \<Rightarrow> int) \<Rightarrow> string \<Rightarrow> string \<Rightarrow> string \<Rightarrow> exn + string list
     \<Rightarrow> ('v doc_system, unit) eff" where
  "index_document V clk did cid filename chunks =
     (case chunks of
        Inl e \<Rightarrow> raise_exn e
      | Inr texts \<Rightarrow> (\<lambda>s.
          case replace_document_chunks (clk 1) did cid texts (ds_db s) of
            Inl e \<Rightarrow> (Inl e, s)
          | Inr (rows, db) \<Rightarrow>
              seqE (on_index (vd_delete V did)) (\<lambda>_. on_index (add_chunks V filename rows))
                (s\<lparr>ds_db := db\<rparr>)))"

definition upload_text_document ::
  "'v vector_db \<Rightarrow> int \<Rightarrow> int \<Rightarrow> (nat \<Rightarrow> int) \<Rightarrow> string \<Rightarrow> string \<Rightarrow> string \<Rightarrow> string
     \<Rightarrow> 'v doc_system \<Rightarrow> ((exn + document_row) \<times> 'v doc_system) option" where
  "upload_text_document V max_chars overlap_chars clk cid filename ctype text s =
     (case normalize_content_type filename ctype of
        Inl e \<Rightarrow> Some (Inl e, s)
      | Inr ct \<Rightarrow>
          (case create_document (clk 0) cid filename ct (ds_db s) of
             Inl e \<Rightarrow> Some (Inl e, s)
           | Inr (d, db) \<Rightarrow>
               (case chunk_document_text text max_chars overlap_chars of
                  None \<Rightarrow> None
                | Some chunks \<Rightarrow> Some (
                    case index_document V clk (do_id d) cid filename chunks (s\<lparr>ds_db := db\<rparr>) of
                      (Inl e, s') \<Rightarrow>
                        (Inl e, s'\<lparr>ds_db := mark_document_failed (clk 2) (do_id d) (exn_text e) (ds_db s')\<rparr>)
                    | (Inr _, s') \<Rightarrow>
                        (case find_document (ds_db s') (do_id d) of
                           None \<Rightarrow> (Inl (Exn ''RuntimeError'' (''Indexed document '' @ do_id d @
                                      '' could not be loaded'')), s')
                         | Some row \<Rightarrow> (Inr row, s'))))))"

fun delete_from_index :: "'v vector_db \<Rightarrow> document_row list \<Rightarrow> ('v, unit) eff" where
  "delete_from_index V [] = ret ()"
| "delete_from_index V (d # ds) = seqE (vd_delete V (do_id d)) (\<lambda>_. delete_from_index V ds)"

definition delete_collection :: "'v vector_db \<Rightarrow> string \<Rightarrow> ('v doc_system, bool) eff" where
  "delete_collection V cid = (\<lambda>s.
     case list_documents cid (ds_db s) of
       None \<Rightarrow> (Inr False, s)
     | Some ds \<Rightarrow> seqE (on_index (delete_from_index V ds))
         (\<lambda>_ s. case drop_collection cid (ds_db s) of (b, db) \<Rightarrow> (Inr b, s\<lparr>ds_db := db\<rparr>)) s)"

text \<open>The results carry the name of their collection, empty when it is not in the table.\<close>

definition collection_name :: "doc_db \<Rightarrow> string \<Rightarrow> string" where
  "collection_name db cid = (case find_collection db cid of None \<Rightarrow> [] | Some c \<Rightarrow> co_name c)"

definition search_collections ::
  "'v vector_db \<Rightarrow> string \<Rightarrow> string list \<Rightarrow> int \<Rightarrow> 'v doc_system \<Rightarrow> exn + (string \<times> search_hit) list" where
  "search_collections V query cids top_k s =
     bindE (vector_search V query cids top_k (ds_vec s)) (\<lambda>hits.
       Inr (map (\<lambda>h. (collection_name (ds_db s) (sh_collection h), h)) hits))"

end
