(* ===== verification/Doc_Chunks.thy ===== *)
theory Doc_Chunks
  imports Doc_Chunking "HOL-Library.Sublist"
begin

text \<open>
  When the chunks of a document are computed, what they are, and when the computation never
  ends. The loop is followed by an invariant over the words that the chunks made so far cover.
\<close>

section \<open>The invariant of the loop\<close>

text \<open>Chunks paired with how many words each repeats: without the repeated words they are the
  words of the document, and what is repeated are the last words of the chunk before.\<close>

definition rejoin :: "(nat \<times> string) list \<Rightarrow> string list" where
  "rejoin ps = concat (map (\<lambda>(k, c). drop k (split_ws c)) ps)"

definition repeats_end :: "nat \<times> string \<Rightarrow> nat \<times> string \<Rightarrow> bool" where
  "repeats_end p q \<longleftrightarrow> suffix (take (fst q) (split_ws (snd q))) (split_ws (snd p))"

definition chunking :: "string list \<Rightarrow> int \<Rightarrow> int \<Rightarrow> (nat \<times> string) list \<Rightarrow> bool" where
  "chunking ws m v ps \<longleftrightarrow> rejoin ps = ws \<and> successively repeats_end ps \<and>
     (\<forall>(k, c) \<in> set ps. int (length c) \<le> m \<and> k < length (split_ws c) \<and>
        int (length (join '' '' (take k (split_ws c)))) \<le> v)"

definition loop_inv :: "string list \<Rightarrow> int \<Rightarrow> int \<Rightarrow> nat \<Rightarrow> nat \<Rightarrow> (nat \<times> string) list \<Rightarrow> bool" where
  "loop_inv ws m v a b ps \<longleftrightarrow>
     a \<le> b \<and> b < length ws \<and> chunking (take b ws) m v ps \<and>
     int (length (join '' '' (slice a b ws))) \<le> v \<and>
     (ps = [] \<longrightarrow> b = 0) \<and> (ps \<noteq> [] \<longrightarrow> (\<exists>c \<le> a. snd (last ps) = join '' '' (slice c b ws)))"

lemma split_slice: "\<forall>w \<in> set ws. word w \<Longrightarrow> split_ws (join '' '' (slice a b ws)) = slice a b ws"
  by (rule split_ws_join) (auto dest: slice_set)

lemma slice_drop: "a \<le> b \<Longrightarrow> drop (b - a) (slice a f ws) = slice b f ws"
  by (simp add: slice_def drop_take)

lemma slice_take: "a \<le> b \<Longrightarrow> b \<le> f \<Longrightarrow> take (b - a) (slice a f ws) = slice a b ws"
  by (simp add: slice_def)

lemma take_slice: "b \<le> f \<Longrightarrow> take b ws @ slice b f ws = take f ws"
  using slice_join [of 0 b f ws] by (simp add: slice_def)

lemma slice_suffix: "c \<le> a \<Longrightarrow> a \<le> b \<Longrightarrow> suffix (slice a b ws) (slice c b ws)"
  using slice_join [of c a b ws] by (metis suffixI)

lemma length_join_prefix: "length (join '' '' xs) \<le> length (join '' '' (xs @ ys))"
  by (induction "'' ''" xs rule: join.induct) (cases ys; simp)+

lemma length_join_suffix: "length (join '' '' ys) \<le> length (join '' '' (xs @ ys))"
proof (induction xs)
  case (Cons x xs)
  then show ?case using length_join_Cons [of "xs @ ys" x] by (cases "xs @ ys") auto
qed simp

lemma length_slice_mono:
  "a \<le> b \<Longrightarrow> b \<le> f \<Longrightarrow> length (join '' '' (slice a b ws)) \<le> length (join '' '' (slice a f ws))"
  "a \<le> b \<Longrightarrow> b \<le> f \<Longrightarrow> length (join '' '' (slice b f ws)) \<le> length (join '' '' (slice a f ws))"
  by (metis slice_join length_join_prefix) (metis slice_join length_join_suffix)

text \<open>One round: the new chunk ends no earlier than the last one, and when it ends later the
  invariant holds again.\<close>

lemma round_no_earlier:
  assumes ws: "\<forall>w \<in> set ws. word w" and inv: "loop_inv ws m v a b ps" and vm: "v < m" and "0 \<le> v"
    and f: "chunk_end_index ws a m = Inr f"
  shows "b \<le> f"
proof (rule ccontr)
  assume "\<not> b \<le> f"
  then have fb: "f < b" by simp
  from inv have a: "a < length ws" "b \<le> length ws"
    and v: "int (length (join '' '' (slice a b ws))) \<le> v"
    by (auto simp: loop_inv_def)
  from chunk_end_index_result [OF ws a(1), of m] f vm \<open>0 \<le> v\<close> fb a
  have af: "a < f" and over: "m < with_word (int (length (join '' '' (slice a f ws)))) (ws ! f)" by auto
  have "with_word (int (length (join '' '' (slice a f ws)))) (ws ! f) =
      int (length (join '' '' (slice a (Suc f) ws)))"
    using with_word_snoc(1) [of "slice a f ws" "ws ! f"] af fb a ws by (auto simp: slice_Suc dest: slice_set)
  moreover have "length (join '' '' (slice a (Suc f) ws)) \<le> length (join '' '' (slice a b ws))"
    using af fb by (intro length_slice_mono) auto
  ultimately show False using over v vm by linarith
qed

lemma chunk_added:
  assumes ws: "\<forall>w \<in> set ws. word w" and inv: "loop_inv ws m v a b ps" and vm: "v < m" "0 \<le> v"
    and f: "chunk_end_index ws a m = Inr f" and bf: "b < f"
  shows "chunking (take f ws) m v (ps @ [(b - a, join '' '' (slice a f ws))])"
proof -
  from inv have ab: "a \<le> b" "a < length ws" and c: "chunking (take b ws) m v ps"
    and v: "int (length (join '' '' (slice a b ws))) \<le> v" by (auto simp: loop_inv_def)
  from chunk_end_index_result [OF ws ab(2), of m] f vm
  have fl: "f \<le> length ws" "int (length (join '' '' (slice a f ws))) \<le> m" by auto
  have "rejoin (ps @ [(b - a, join '' '' (slice a f ws))]) = take f ws"
    using c ab bf by (simp add: chunking_def rejoin_def split_slice [OF ws] slice_drop take_slice)
  moreover have "successively repeats_end (ps @ [(b - a, join '' '' (slice a f ws))])"
  proof (cases "ps = []")
    case False
    with inv obtain d where d: "d \<le> a" "snd (last ps) = join '' '' (slice d b ws)"
      by (auto simp: loop_inv_def)
    then have "repeats_end (last ps) (b - a, join '' '' (slice a f ws))"
      using ab bf by (simp add: repeats_end_def split_slice [OF ws] slice_take slice_suffix)
    with c show ?thesis by (simp add: chunking_def successively_append_iff)
  qed simp
  moreover have "b - a < length (slice a f ws)" using ab bf fl by (simp add: slice_def)
  ultimately show ?thesis
    using c fl v ab bf by (auto simp: chunking_def split_slice [OF ws] slice_take)
qed

lemma round_inv:
  assumes ws: "\<forall>w \<in> set ws. word w" and inv: "loop_inv ws m v a b ps" and vm: "v < m" "0 \<le> v"
    and f: "chunk_end_index ws a m = Inr f" and bf: "b < f" "f < length ws"
  shows "loop_inv ws m v (overlap_start_index ws a f v) f (ps @ [(b - a, join '' '' (slice a f ws))])"
proof -
  from inv have a: "a < length ws" "a \<le> b" by (auto simp: loop_inv_def)
  from chunk_end_index_result [OF ws a(1), of m] f vm have "a \<le> f" "f \<le> length ws" by auto
  note o = overlap_start_index_result [OF ws this vm(2)]
  from chunk_added [OF ws inv vm f bf(1)] show ?thesis
    unfolding loop_inv_def using o a bf by auto
qed

text \<open>A round that ends where the one before ended will be repeated for ever.\<close>

lemma chunk_loop_stuck:
  assumes "a < length ws" "chunk_end_index ws a m = Inr f" "f < length ws"
    and "overlap_start_index ws a f v = a"
  shows "chunk_loop ws m v a chunks = None"
proof (rule ccontr)
  assume "chunk_loop ws m v a chunks \<noteq> None"
  then obtain r where "chunk_loop ws m v a chunks = Some r" by blast
  then have "\<not> (a < length ws \<and> chunk_end_index ws a m = Inr f \<and> f < length ws \<and>
      overlap_start_index ws a f v = a)"
  proof (rule chunk_loop.raw_induct [rotated, where
        P = "\<lambda>ws m v a chunks r. \<not> (a < length ws \<and> chunk_end_index ws a m = Inr f \<and> f < length ws \<and>
          overlap_start_index ws a f v = a)"])
  qed (auto simp: Let_def split: if_splits)
  with assms show False by blast
qed

lemma overlap_keeps_start:
  assumes ws: "\<forall>w \<in> set ws. word w" and "a \<le> b" "b \<le> length ws" "0 < v"
    and "int (length (join '' '' (slice a b ws))) \<le> v"
  shows "overlap_start_index ws a b v = a"
proof (rule ccontr)
  assume ne: "overlap_start_index ws a b v \<noteq> a"
  note o = overlap_start_index_result [OF ws assms(2,3), of v]
  from ne o(1) assms(4) have lt: "a < overlap_start_index ws a b v" by simp
  with o(4) assms(4)
  have "v < int (length (join '' '' (slice (overlap_start_index ws a b v - 1) b ws)))" by simp
  moreover have "length (join '' '' (slice (overlap_start_index ws a b v - 1) b ws))
      \<le> length (join '' '' (slice a b ws))"
    using lt o(2) assms(2,4) by (intro length_slice_mono) auto
  ultimately show False using assms(5) by linarith
qed

lemma no_progress_stuck:
  assumes ws: "\<forall>w \<in> set ws. word w" and inv: "loop_inv ws m v a b ps" and vm: "v < m" "0 \<le> v"
    and f: "chunk_end_index ws a m = Inr b" and "b < length ws"
  shows "chunk_loop ws m v a chunks = None"
proof -
  from inv have a: "a \<le> b" "b \<le> length ws" "a < length ws"
    and v: "int (length (join '' '' (slice a b ws))) \<le> v" by (auto simp: loop_inv_def)
  from chunk_end_index_result [OF ws a(3), of m] f vm have ab: "a < b" by auto
  then have "slice a b ws \<noteq> []" using a slice_Nil by blast
  then have "join '' '' (slice a b ws) \<noteq> []"
    using join_word_empty [of "slice a b ws"] ws by (meson slice_set)
  with v have "0 < v" by (cases "join '' '' (slice a b ws)") auto
  from chunk_loop_stuck [OF a(3) f assms(6) overlap_keeps_start [OF ws a(1,2) this v]]
  show ?thesis .
qed

section \<open>Partial and total correctness of the loop\<close>

lemma chunk_loop_step:
  assumes "a < length ws"
  shows "chunk_loop ws m v a chunks =
    (case chunk_end_index ws a m of
       Inl e \<Rightarrow> Some (Inl e)
     | Inr f \<Rightarrow> if length ws \<le> f then Some (Inr (chunks @ [join '' '' (slice a f ws)]))
         else chunk_loop ws m v (overlap_start_index ws a f v)
                (chunks @ [join '' '' (slice a f ws)]))"
  using assms by (subst chunk_loop.simps) (simp add: Let_def cong: sum.case_cong)

text \<open>What the loop gives, and why it may give nothing: a word that fits into a chunk, but not
  behind the overlap.\<close>

definition outcome_ok :: "string list \<Rightarrow> int \<Rightarrow> int \<Rightarrow> (exn + string list) option \<Rightarrow> bool" where
  "outcome_ok ws m v out = (case out of
       None \<Rightarrow> \<exists>w \<in> set ws. int (length w) \<le> m \<and> m \<le> int (length w) + v
     | Some (Inl e) \<Rightarrow> \<exists>w \<in> set ws. m < int (length w)
     | Some (Inr cs) \<Rightarrow> \<exists>ps. cs = map snd ps \<and> chunking ws m v ps)"

lemma no_progress_long_word:
  assumes ws: "\<forall>w \<in> set ws. word w" and inv: "loop_inv ws m v a b ps" and vm: "v < m" "0 \<le> v"
    and f: "chunk_end_index ws a m = Inr b"
  shows "int (length (ws ! b)) \<le> m \<and> m \<le> int (length (ws ! b)) + v"
proof -
  from inv have a: "a < length ws" "b < length ws"
    and v: "int (length (join '' '' (slice a b ws))) \<le> v" by (auto simp: loop_inv_def)
  from chunk_end_index_result [OF ws a(1), of m] f vm a(2)
  have "int (length (ws ! b)) \<le> m"
    "m < with_word (int (length (join '' '' (slice a b ws)))) (ws ! b)" by auto
  with v vm show ?thesis by (auto simp: with_word_def split: if_splits)
qed

lemma chunk_loop_outcome:
  assumes ws: "\<forall>w \<in> set ws. word w" and vm: "v < m" "0 \<le> v"
    and "loop_inv ws m v a b ps" "chunks = map snd ps"
  shows "outcome_ok ws m v (chunk_loop ws m v a chunks)"
  using assms(4-)
proof (induction "length ws - b" arbitrary: a b ps chunks rule: less_induct)
  case less
  note inv = less.prems(1)
  from inv have a: "a < length ws" "b < length ws" by (simp_all add: loop_inv_def)
  note step = chunk_loop_step [OF a(1), of m v chunks]
  show ?case
  proof (cases "chunk_end_index ws a m")
    case (Inl e)
    with step chunk_end_index_result [OF ws a(1), of m] vm show ?thesis by (simp add: outcome_ok_def)
  next
    case (Inr f)
    consider "f = b" | "b < f" "length ws \<le> f" | "b < f" "f < length ws"
      using round_no_earlier [OF ws inv vm Inr] by linarith
    then show ?thesis
    proof cases
      case 1
      with Inr have "chunk_loop ws m v a chunks = None" using no_progress_stuck [OF ws inv vm _ a(2)] by blast
      moreover from 1 Inr have "int (length (ws ! b)) \<le> m \<and> m \<le> int (length (ws ! b)) + v"
        using no_progress_long_word [OF ws inv vm] by blast
      ultimately show ?thesis using a(2) nth_mem unfolding outcome_ok_def by fastforce
    next
      case 2
      from chunk_added [OF ws inv vm Inr 2(1)] 2(2)
      have "chunking ws m v (ps @ [(b - a, join '' '' (slice a f ws))])" by simp
      moreover from step Inr 2(2) less.prems(2) have "chunk_loop ws m v a chunks =
          Some (Inr (map snd (ps @ [(b - a, join '' '' (slice a f ws))])))" by simp
      ultimately show ?thesis
        unfolding outcome_ok_def by (auto simp del: map_append intro!: exI)
    next
      case 3
      from step Inr 3(2) have "chunk_loop ws m v a chunks = chunk_loop ws m v
          (overlap_start_index ws a f v) (chunks @ [join '' '' (slice a f ws)])" by simp
      with less.hyps [OF _ round_inv [OF ws inv vm Inr 3]] 3 less.prems(2) show ?thesis by simp
    qed
  qed
qed

lemma chunk_document_outcome:
  assumes "0 \<le> v" "v < m" "split_ws text \<noteq> []"
  shows "outcome_ok (split_ws text) m v (chunk_document_text text m v)"
proof -
  have ws: "\<forall>w \<in> set (split_ws text). word w" using split_ws_words by blast
  have "loop_inv (split_ws text) m v 0 0 []"
    using assms by (auto simp: loop_inv_def chunking_def rejoin_def)
  from chunk_loop_outcome [OF ws assms(2,1) this] assms show ?thesis
    by (simp add: chunk_document_text_def)
qed

section \<open>Properties\<close>

text \<open>C21. Chunks lose no text. When a document is cut into chunks, no chunk is longer than the
  limit, and the words of the chunks, less those that a chunk repeats from the one before it, are the
  words of the document in their order. What is repeated are the last words of the chunk before,
  at most the characters allowed, and every chunk brings at least one new word.\<close>

theorem chunks_are_the_text:
  assumes "chunk_document_text text m v = Some (Inr chunks)"
  shows "\<exists>ps. chunks = map snd ps \<and> rejoin ps = split_ws text \<and> successively repeats_end ps \<and>
    (\<forall>(k, c) \<in> set ps. int (length c) \<le> m \<and> k < length (split_ws c) \<and>
       int (length (join '' '' (take k (split_ws c)))) \<le> v)"
proof -
  from assms have "0 \<le> v" "v < m" "split_ws text \<noteq> []"
    by (auto simp: chunk_document_text_def Let_def split: if_splits)
  from chunk_document_outcome [OF this] assms show ?thesis
    by (auto simp: outcome_ok_def chunking_def)
qed

text \<open>Chunking ends when no word is too long to stand behind an overlap: for every text with a
  word, if each word, together with the allowed overlap, is shorter than a chunk, then the chunks
  are computed without an error.\<close>

theorem chunking_returns:
  assumes "0 \<le> v" "split_ws text \<noteq> []" "\<forall>w \<in> set (split_ws text). int (length w) + v < m"
  shows "\<exists>ps. chunk_document_text text m v = Some (Inr (map snd ps)) \<and> chunking (split_ws text) m v ps"
proof -
  from assms(2) obtain w where "w \<in> set (split_ws text)" by (meson list.set_sel(1))
  with assms have "v < m" by fastforce
  from chunk_document_outcome [OF assms(1) this assms(2)] assms(1,3) show ?thesis
    by (fastforce simp: outcome_ok_def split: option.splits sum.splits)
qed

lemma chunk_end_loop_prefix:
  assumes ws: "ws = us @ w # rest" "\<forall>w \<in> set ws. word w"
    and fits: "int (length (join '' '' us)) \<le> m" "int (length w) \<le> m"
      "m < with_word (int (length (join '' '' us))) w"
  shows "e \<le> length us \<Longrightarrow>
    chunk_end_loop ws m e (int (length (join '' '' (take e us)))) = Inr (length us)"
proof (induction "length us - e" arbitrary: e)
  case 0
  with ws fits show ?case by (subst chunk_end_loop.simps) (simp add: Let_def nth_append)
next
  case (Suc n)
  then have e: "e < length us" by simp
  then have "ws ! e = us ! e" "e < length ws" by (simp_all add: ws nth_append)
  moreover have "take (Suc e) us = take e us @ [us ! e]" using e by (rule take_Suc_conv_app_nth)
  moreover from this have n: "with_word (int (length (join '' '' (take e us)))) (us ! e) =
      int (length (join '' '' (take (Suc e) us)))"
    using with_word_snoc(1) [of "take e us" "us ! e"] ws by (auto dest: in_set_takeD)
  moreover have "length (join '' '' (take (Suc e) us)) \<le> length (join '' '' us)"
    using length_join_prefix [of "take (Suc e) us" "drop (Suc e) us"] by simp
  moreover have "length (us ! e) \<le> length (join '' '' (take (Suc e) us))"
    using length_join_suffix [of "[us ! e]" "take e us"] calculation(3) by simp
  ultimately show ?case
    using Suc.hyps(1) [of "Suc e"] Suc.hyps(2) fits e by (subst chunk_end_loop.simps) (simp add: Let_def)
qed

text \<open>Chunking may hang. When the first words of a text are short enough to be repeated as an
  overlap, and the word after them fits into a chunk but not behind them, then the code never
  returns: it appends the same chunk again and again. Neither limit of the words is violated, and
  the upload of such a document stops the whole controller.\<close>

theorem chunking_hangs:
  assumes "split_ws text = us @ w # rest" "us \<noteq> []" "v < m"
    and "int (length (join '' '' us)) \<le> v" "int (length w) \<le> m"
    and "m < int (length (join '' '' us)) + 1 + int (length w)"
  shows "chunk_document_text text m v = None"
proof -
  let ?ws = "split_ws text"
  have ws: "\<forall>w \<in> set ?ws. word w" using split_ws_words by blast
  have ne: "join '' '' us \<noteq> []" using join_word_empty [of us] ws assms(1,2) by auto
  then have v: "0 < v" using assms(4) by (cases "join '' '' us") auto
  have "chunk_end_loop ?ws m 0 0 = Inr (length us)"
    using chunk_end_loop_prefix [OF assms(1) ws, of m 0] assms ne by (simp add: with_word_def)
  then have f: "chunk_end_index ?ws 0 m = Inr (length us)"
    using assms(2) by (simp add: chunk_end_index_def)
  have s: "slice 0 (length us) ?ws = us" by (simp add: assms(1) slice_def)
  have "overlap_start_index ?ws 0 (length us) v = 0"
    using overlap_keeps_start [OF ws, of 0 "length us"] assms v by (simp add: s) (simp add: slice_def)
  from chunk_loop_stuck [OF _ f _ this] assms(1) have "chunk_loop ?ws m v 0 [] = None" by simp
  with assms(1,3) v show ?thesis by (simp add: chunk_document_text_def)
qed

text \<open>With the limits the controller uses (1600 characters, 200 of overlap): a line of 150 characters
  followed by one of 1500.\<close>

definition demo_document :: string where
  "demo_document = replicate 150 CHR ''x'' @ '' '' @ replicate 1500 CHR ''y''"

lemma demo_document_words:
  "split_ws demo_document = [replicate 150 CHR ''x''] @ replicate 1500 CHR ''y'' # []"
proof -
  have w: "word (replicate (Suc n) CHR ''x'')" "word (replicate (Suc n) CHR ''y'')" for n
    by (auto simp: word_def is_space_def char_nat_def)
  have "split_ws (replicate 1500 CHR ''y'' @ []) = replicate 1500 CHR ''y'' # split_ws []"
    using w(2) [of 1499] by (intro split_ws_word) (simp_all del: replicate_Suc)
  moreover have "split_ws [] = []" by (simp add: split_ws.simps)
  ultimately show ?thesis
    unfolding demo_document_def using w(1) [of 149] is_space_blank
    by (subst split_ws_word) (simp_all add: split_ws_blank del: replicate_Suc)
qed

lemma chunking_hangs_witness: "chunk_document_text demo_document 1600 200 = None"
  by (rule chunking_hangs [OF demo_document_words]) simp_all

lemma demo_words: "split_ws ''ab cd ef'' = [''ab'', ''cd'', ''ef'']"
  by code_simp

lemma demo_chunks: "chunk_document_text ''ab cd ef'' 5 2 = Some (Inr [''ab cd'', ''cd ef''])"
proof -
  have "chunk_end_index [''ab'', ''cd'', ''ef''] 0 5 = Inr 2"
    "chunk_end_index [''ab'', ''cd'', ''ef''] 1 5 = Inr 3"
    "overlap_start_index [''ab'', ''cd'', ''ef''] 0 2 2 = 1"
    "join '' '' (slice 0 2 [''ab'', ''cd'', ''ef'']) = ''ab cd''"
    "join '' '' (slice 1 3 [''ab'', ''cd'', ''ef'']) = ''cd ef''"
    by code_simp+
  then show ?thesis
    by (simp add: chunk_document_text_def demo_words chunk_loop_step)
qed

lemma chunks_are_the_text_witness:
  "\<exists>ps. map snd ps = [''ab cd'', ''cd ef''] \<and> rejoin ps = [''ab'', ''cd'', ''ef'']"
  using chunks_are_the_text [OF demo_chunks] unfolding demo_words by metis

lemma chunking_returns_witness:
  "\<exists>ps :: (nat \<times> string) list. chunk_document_text ''ab cd ef'' 5 2 = Some (Inr (map snd ps))"
proof -
  have w: "split_ws ''ab cd ef'' \<noteq> []" "\<forall>w \<in> set (split_ws ''ab cd ef''). int (length w) + 2 < 5"
    by (simp_all add: demo_words)
  from chunking_returns [OF zero_le_numeral w] show ?thesis by blast
qed

end
