(* ===== verification/Doc_Safety.thy ===== *)
theory Doc_Safety
  imports Doc_Store Doc_Chunks
begin

text \<open>
  The tables of document collections stay consistent with each other and with the index, over
  every sequence of operations, whatever fails in the index or the embedding model.
\<close>

section \<open>The tables\<close>

definition chunks_of_document :: "doc_db \<Rightarrow> string \<Rightarrow> chunk_row list" where
  "chunks_of_document db d = filter (\<lambda>k. ck_document k = d) (dd_chunks db)"

definition used_ids :: "doc_db \<Rightarrow> string list" where
  "used_ids db = map co_id (dd_collections db) @ map do_id (dd_documents db) @ map ck_id (dd_chunks db)"

definition db_ok :: "doc_db \<Rightarrow> bool" where
  "db_ok db \<longleftrightarrow>
     distinct (used_ids db) \<and> (\<forall>i \<in> set (used_ids db). \<exists>k < dd_next db. i = nat_digits k) \<and>
     (\<forall>d \<in> set (dd_documents db). do_collection d \<in> co_id ` set (dd_collections db)) \<and>
     (\<forall>k \<in> set (dd_chunks db). \<exists>d \<in> set (dd_documents db).
        do_id d = ck_document k \<and> do_collection d = ck_collection k) \<and>
     (\<forall>d \<in> set (dd_documents db). map ck_index (chunks_of_document db (do_id d)) = [0..<do_chunks d])"

lemma db_okD:
  assumes "db_ok db"
  shows "distinct (used_ids db)" "\<And>i. i \<in> set (used_ids db) \<Longrightarrow> \<exists>k < dd_next db. i = nat_digits k"
    "\<And>d. d \<in> set (dd_documents db) \<Longrightarrow> do_collection d \<in> co_id ` set (dd_collections db)"
    "\<And>k. k \<in> set (dd_chunks db) \<Longrightarrow>
       \<exists>d \<in> set (dd_documents db). do_id d = ck_document k \<and> do_collection d = ck_collection k"
    "\<And>d. d \<in> set (dd_documents db) \<Longrightarrow>
       map ck_index (chunks_of_document db (do_id d)) = [0..<do_chunks d]"
  using assms unfolding db_ok_def by blast+

lemma id_fresh: "db_ok db \<Longrightarrow> dd_next db \<le> n \<Longrightarrow> nat_digits n \<notin> set (used_ids db)"
  by (auto dest: db_okD(2))

lemma distinct_columns:
  assumes "distinct (used_ids db)"
  shows "distinct (map co_id (dd_collections db))" "distinct (map do_id (dd_documents db))"
    "distinct (map ck_id (dd_chunks db))"
  using assms by (simp_all add: used_ids_def)

text \<open>Changing other columns of a row keeps the tables in order.\<close>

lemma db_ok_columns:
  assumes "db_ok db" "\<And>c. co_id (f c) = co_id c"
    and "\<And>d. do_id (g d) = do_id d \<and> do_collection (g d) = do_collection d \<and> do_chunks (g d) = do_chunks d"
  shows "db_ok (db\<lparr>dd_collections := map f (dd_collections db), dd_documents := map g (dd_documents db)\<rparr>)"
    (is "db_ok ?db")
proof -
  have "used_ids ?db = used_ids db" "chunks_of_document ?db = chunks_of_document db"
    "co_id ` set (dd_collections ?db) = co_id ` set (dd_collections db)"
    using assms(2,3) by (simp_all add: used_ids_def o_def chunks_of_document_def fun_eq_iff image_image)
  then show ?thesis using assms unfolding db_ok_def by simp
qed

lemma db_ok_collections:
  "db_ok db \<Longrightarrow> (\<And>c. co_id (f c) = co_id c) \<Longrightarrow> db_ok (db\<lparr>dd_collections := map_if p f (dd_collections db)\<rparr>)"
  using db_ok_columns [of db "\<lambda>c. if p c then f c else c" "\<lambda>d. d"] by (simp add: map_if_def)

lemma db_ok_documents:
  assumes "db_ok db"
    and "\<And>d. do_id (g d) = do_id d \<and> do_collection (g d) = do_collection d \<and> do_chunks (g d) = do_chunks d"
  shows "db_ok (db\<lparr>dd_documents := map_if p g (dd_documents db)\<rparr>)"
  using db_ok_columns [of db "\<lambda>c. c" "\<lambda>d. if p d then g d else d"] assms by (simp add: map_if_def)

lemma db_ok_create_collection:
  assumes "db_ok db" "create_collection now name description db = (c, db')"
  shows "db_ok db'"
proof -
  from assms(2) have db': "db' = db\<lparr>dd_collections := dd_collections db @ [c], dd_next := Suc (dd_next db)\<rparr>"
    and c: "co_id c = nat_digits (dd_next db)" by (auto simp: create_collection_def Let_def)
  have "nat_digits (dd_next db) \<notin> set (used_ids db)" using id_fresh [OF assms(1)] by simp
  then have "distinct (used_ids db')" using db_okD(1) [OF assms(1)] c by (auto simp: db' used_ids_def)
  moreover have "set (used_ids db') = insert (nat_digits (dd_next db)) (set (used_ids db))"
    using c by (auto simp: db' used_ids_def)
  ultimately show ?thesis
    using assms(1) unfolding db_ok_def by (simp add: db' chunks_of_document_def) (metis less_SucI)
qed

lemma db_ok_update_collection:
  assumes "db_ok db" "update_collection now cid name description db = (c, db')"
  shows "db_ok db'"
  using assms by (auto simp: update_collection_def Let_def split: if_splits intro: db_ok_collections)

lemma db_ok_archive_collection:
  assumes "db_ok db" "archive_collection now cid db = (c, db')"
  shows "db_ok db'"
  using assms by (auto simp: archive_collection_def Let_def split: if_splits intro: db_ok_collections)

lemma db_ok_mark_failed: "db_ok db \<Longrightarrow> db_ok (mark_document_failed now did msg db)"
  unfolding mark_document_failed_def by (rule db_ok_documents) simp_all

lemma db_ok_drop_collection:
  assumes "db_ok db" "drop_collection cid db = (b, db')"
  shows "db_ok db'"
proof (cases b)
  case False
  with assms show ?thesis by (simp add: drop_collection_def split: if_splits)
next
  case True
  with assms(2) have db': "db' = db\<lparr>dd_chunks := filter (\<lambda>k. ck_collection k \<noteq> cid) (dd_chunks db),
      dd_documents := filter (\<lambda>d. do_collection d \<noteq> cid) (dd_documents db),
      dd_collections := filter (\<lambda>c. co_id c \<noteq> cid) (dd_collections db)\<rparr>"
    by (auto simp: drop_collection_def split: if_splits)
  note D = db_okD [OF assms(1)]
  have ids: "distinct (used_ids db')" "set (used_ids db') \<subseteq> set (used_ids db)"
    using D(1) by (auto simp: db' used_ids_def distinct_map_filter)
  have "map ck_index (chunks_of_document db' (do_id d)) = [0..<do_chunks d]"
    if d: "d \<in> set (dd_documents db')" for d
  proof -
    have "ck_collection k \<noteq> cid" if k: "k \<in> set (dd_chunks db)" "ck_document k = do_id d" for k
    proof -
      from D(4) [OF k(1)] obtain e where e: "e \<in> set (dd_documents db)" "do_id e = do_id d"
        "do_collection e = ck_collection k" using k(2) by auto
      moreover have "e = d"
        using distinct_map_unique [OF distinct_columns(2) [OF D(1)] e(1), of d] d e(2) by (simp add: db')
      ultimately show ?thesis using d by (simp add: db')
    qed
    then have "chunks_of_document db' (do_id d) = chunks_of_document db (do_id d)"
      by (auto simp: db' chunks_of_document_def intro!: filter_cong)
    with D(5) d show ?thesis by (simp add: db')
  qed
  moreover have "do_collection d \<in> co_id ` set (dd_collections db')" if "d \<in> set (dd_documents db')" for d
    using D(3) [of d] that by (auto simp: db')
  moreover have "\<exists>d \<in> set (dd_documents db'). do_id d = ck_document k \<and> do_collection d = ck_collection k"
    if "k \<in> set (dd_chunks db')" for k
    using D(4) [of k] that by (auto simp: db')
  moreover have "\<exists>k < dd_next db'. i = nat_digits k" if "i \<in> set (used_ids db')" for i
    using D(2) ids(2) that by (auto simp: db')
  ultimately show ?thesis using ids(1) unfolding db_ok_def by blast
qed

lemma create_document_Inr:
  assumes "create_document now cid filename ctype db = Inr (d, db')"
  shows "find_collection db cid \<noteq> None" "do_id d = nat_digits (dd_next db)" "do_collection d = cid"
    "do_filename d = filename" "do_type d = ctype" "do_chunks d = 0" "do_status d = ''pending''"
    "db' = db\<lparr>dd_documents := dd_documents db @ [d], dd_next := Suc (dd_next db)\<rparr>"
  using assms by (auto simp: create_document_def Let_def split: if_splits)

lemma db_ok_create_document:
  assumes "db_ok db" "create_document now cid filename ctype db = Inr (d, db')"
  shows "db_ok db'"
proof -
  note c = create_document_Inr [OF assms(2)] and D = db_okD [OF assms(1)]
  have new: "nat_digits (dd_next db) \<notin> set (used_ids db)" using id_fresh [OF assms(1)] by simp
  from c(1) have cid: "cid \<in> co_id ` set (dd_collections db)"
    by (auto simp: find_collection_def find_None_iff)
  have none: "ck_document k \<noteq> do_id d" if "k \<in> set (dd_chunks db)" for k
    using D(4) [OF that] new c(2) by (auto simp: used_ids_def) (metis imageI)
  then have "chunks_of_document db (do_id d) = []" by (simp add: chunks_of_document_def)
  moreover have "distinct (used_ids db')" using D(1) new c(2) by (auto simp: c(8) used_ids_def)
  moreover have "set (used_ids db') = insert (nat_digits (dd_next db)) (set (used_ids db))"
    using c(2) by (auto simp: c(8) used_ids_def)
  ultimately show ?thesis
    using assms(1) cid c(3,6) unfolding db_ok_def
    by (simp add: c(8) chunks_of_document_def) (metis less_SucI)
qed

lemma new_chunks_columns:
  "map ck_index (new_chunks now did cid texts n) = [0..<length texts]"
  "map ck_text (new_chunks now did cid texts n) = texts"
  "map ck_id (new_chunks now did cid texts n) = map nat_digits [n..<n + length texts]"
  "k \<in> set (new_chunks now did cid texts n) \<Longrightarrow> ck_document k = did \<and> ck_collection k = cid"
proof -
  have i: "map fst (enumerate 0 texts) = [0..<length texts]" "map snd (enumerate 0 texts) = texts"
    by simp_all
  show "map ck_index (new_chunks now did cid texts n) = [0..<length texts]"
    "map ck_text (new_chunks now did cid texts n) = texts"
    unfolding new_chunks_def using i by (simp_all add: case_prod_beta o_def)
  have "map ck_id (new_chunks now did cid texts n) = map (nat_digits \<circ> (\<lambda>i. i + n) \<circ> fst) (enumerate 0 texts)"
    unfolding new_chunks_def by (auto simp: add.commute)
  also have "\<dots> = map nat_digits (map (\<lambda>i. i + n) (map fst (enumerate 0 texts)))" by (simp only: map_map o_assoc)
  finally show "map ck_id (new_chunks now did cid texts n) = map nat_digits [n..<n + length texts]"
    unfolding i map_add_upt by (simp add: add.commute)
qed (auto simp: new_chunks_def)

lemma new_chunks_of:
  "filter (\<lambda>k. ck_document k = did) (new_chunks now did cid texts n) = new_chunks now did cid texts n"
  by (simp add: filter_id_conv new_chunks_columns(4))

lemma replace_Inr:
  assumes "replace_document_chunks now did cid texts db = Inr (rows, db')"
  obtains d where "find_document db did = Some d" "do_collection d = cid"
    "db' = db\<lparr>dd_chunks := filter (\<lambda>k. ck_document k \<noteq> did) (dd_chunks db)
             @ new_chunks now did cid texts (dd_next db),
       dd_documents := map_if (\<lambda>d. do_id d = did)
         (\<lambda>d. d\<lparr>do_status := ''indexed'', do_chunks := length texts, do_error := None,
                do_updated := now\<rparr>) (dd_documents db),
       dd_next := dd_next db + length texts\<rparr>"
    "rows = list_chunks_for_document did db'"
  using assms by (auto simp: replace_document_chunks_def Let_def split: option.splits if_splits)

lemma chunks_after_replace:
  assumes "dd_chunks db' = filter (\<lambda>k. ck_document k \<noteq> did) (dd_chunks db) @ new_chunks now did cid texts n"
  shows "chunks_of_document db' d =
    (if d = did then new_chunks now did cid texts n else chunks_of_document db d)"
proof -
  have "filter (\<lambda>k. ck_document k = d) (new_chunks now did cid texts n) = []" if "d \<noteq> did"
    using that new_chunks_columns(4) by (fastforce simp: filter_empty_conv)
  then show ?thesis
    by (auto simp: chunks_of_document_def assms new_chunks_of filter_empty_conv conj_commute intro: filter_cong)
qed

lemma listed_chunks:
  assumes "db_ok db" "d \<in> set (dd_documents db)"
  shows "list_chunks_for_document (do_id d) db = chunks_of_document db (do_id d)"
proof -
  have "sorted (map ck_index (chunks_of_document db (do_id d)))" using db_okD(5) [OF assms] by simp
  then show ?thesis by (simp add: list_chunks_for_document_def chunks_of_document_def sorted_sort_id sort_key_id_if_sorted)
qed

lemma db_ok_replace:
  assumes ok: "db_ok db" and r: "replace_document_chunks now did cid texts db = Inr (rows, db')"
  shows "db_ok db'" "rows = new_chunks now did cid texts (dd_next db)"
proof -
  from r obtain d where d: "find_document db did = Some d" "do_collection d = cid"
    and db': "db' = db\<lparr>dd_chunks := filter (\<lambda>k. ck_document k \<noteq> did) (dd_chunks db)
             @ new_chunks now did cid texts (dd_next db),
       dd_documents := map_if (\<lambda>d. do_id d = did)
         (\<lambda>d. d\<lparr>do_status := ''indexed'', do_chunks := length texts, do_error := None,
                do_updated := now\<rparr>) (dd_documents db),
       dd_next := dd_next db + length texts\<rparr>"
    and rows: "rows = list_chunks_for_document did db'" by (rule replace_Inr)
  note D = db_okD [OF ok]
  from d(1) have dd: "d \<in> set (dd_documents db)" "do_id d = did"
    by (auto simp: find_document_def dest: find_Some_iff')
  have "dd_chunks db' = filter (\<lambda>k. ck_document k \<noteq> did) (dd_chunks db)
             @ new_chunks now did cid texts (dd_next db)" by (simp add: db')
  note ch = chunks_after_replace [OF this]
  have docs: "map do_id (dd_documents db') = map do_id (dd_documents db)" by (simp add: db' map_map_if)
  let ?old = "filter (\<lambda>k. ck_document k \<noteq> did) (dd_chunks db)"
  have ids: "used_ids db' = (map co_id (dd_collections db) @ map do_id (dd_documents db) @ map ck_id ?old)
      @ map nat_digits [dd_next db..<dd_next db + length texts]" (is "_ = ?kept @ ?new")
    by (simp add: used_ids_def db' map_map_if new_chunks_columns)
  have kept: "set ?kept \<subseteq> set (used_ids db)" "distinct ?kept"
    using D(1) by (auto simp: used_ids_def distinct_map_filter)
  have "\<exists>k < dd_next db'. i = nat_digits k" if i: "i \<in> set (used_ids db')" for i
  proof (cases "i \<in> set ?kept")
    case True
    with kept(1) D(2) have "\<exists>k < dd_next db. i = nat_digits k" by blast
    then show ?thesis by (auto simp: db' intro: trans_less_add1)
  next
    case False
    with i ids have "i \<in> set ?new" by auto
    then show ?thesis by (auto simp: db')
  qed
  moreover have "distinct (used_ids db')"
  proof -
    have "set ?kept \<inter> set ?new = {}" using kept(1) id_fresh [OF ok] by fastforce
    moreover have "distinct ?new" by (simp add: distinct_map inj_on_def)
    ultimately show ?thesis unfolding ids using kept(2) by (simp only: distinct_append)
  qed
  moreover have "map ck_index (chunks_of_document db' (do_id e)) = [0..<do_chunks e]"
    if "e \<in> set (dd_documents db')" for e
    using that D(5) unfolding ch by (auto simp: new_chunks_columns db' set_map_if)
  moreover have "do_collection e \<in> co_id ` set (dd_collections db')" if "e \<in> set (dd_documents db')" for e
    using that D(3) by (auto simp: db' set_map_if)
  moreover have "\<exists>e \<in> set (dd_documents db'). do_id e = ck_document k \<and> do_collection e = ck_collection k"
    if k: "k \<in> set (dd_chunks db')" for k
  proof -
    have "\<exists>e \<in> set (dd_documents db). do_id e = ck_document k \<and> do_collection e = ck_collection k"
      using k D(4) [of k] dd d(2) new_chunks_columns(4) by (fastforce simp: db')
    moreover have "map (\<lambda>d. (do_id d, do_collection d)) (dd_documents db') =
        map (\<lambda>d. (do_id d, do_collection d)) (dd_documents db)" by (simp add: db' map_map_if)
    then have "(\<lambda>d. (do_id d, do_collection d)) ` set (dd_documents db') =
        (\<lambda>d. (do_id d, do_collection d)) ` set (dd_documents db)" by (metis list.set_map)
    ultimately have "(ck_document k, ck_collection k) \<in> (\<lambda>d. (do_id d, do_collection d)) ` set (dd_documents db')"
      by (auto simp: image_iff) metis
    then show ?thesis by auto
  qed
  ultimately show ok': "db_ok db'" unfolding db_ok_def by blast
  obtain e where "e \<in> set (dd_documents db')" "do_id e = did" using dd docs by (metis in_set_conv_nth image_eqI imageE list.set_map)
  with listed_chunks [OF ok' this(1)] show "rows = new_chunks now did cid texts (dd_next db)"
    by (simp add: rows ch)
qed

section \<open>The index\<close>

text \<open>What a vector database does, by its documentation: \<open>held\<close> are the rows it has. Adding rows
  with new ids adds them, deleting by document removes the rows of the document; a call that fails
  may have done a part. A query returns texts and metadata of rows it has.\<close>

definition of_document :: "string \<Rightarrow> vector_row \<Rightarrow> bool" where
  "of_document did r \<longleftrightarrow> dget (vr_meta r) ''document_id'' = PStr did"

definition faithful_index :: "'v vector_db \<Rightarrow> ('v \<Rightarrow> vector_row set) \<Rightarrow> bool" where
  "faithful_index V held \<longleftrightarrow>
     (\<forall>rows v. vr_id ` set rows \<inter> vr_id ` held v = {} \<longrightarrow>
        (case vd_add V rows v of
           (Inl e, v') \<Rightarrow> held v' \<subseteq> held v \<union> set rows
         | (Inr u, v') \<Rightarrow> held v' = held v \<union> set rows)) \<and>
     (\<forall>did v. case vd_delete V did v of
           (Inl e, v') \<Rightarrow> held v' \<subseteq> held v
         | (Inr u, v') \<Rightarrow> held v' = {r \<in> held v. \<not> of_document did r}) \<and>
     (\<forall>q n cids v raw ds ms rs. vd_query V q n cids v = Inr raw \<longrightarrow>
        first_result_list raw ''documents'' = Inr ds \<longrightarrow> first_result_list raw ''metadatas'' = Inr ms \<longrightarrow>
        first_result_list raw ''distances'' = Inr rs \<longrightarrow>
        (\<forall>(t, m, d) \<in> set (zip ds (zip ms rs)). \<exists>r \<in> held v. t = PStr (vr_text r) \<and> m = PDict (vr_meta r)))"

definition entry_of :: "vector_row \<Rightarrow> chunk_row \<Rightarrow> bool" where
  "entry_of r k \<longleftrightarrow> vr_id r = ck_id k \<and> vr_text r = ck_text k \<and> (\<exists>f. vr_meta r = chunk_metadata f k)"

definition index_ok :: "vector_row set \<Rightarrow> doc_db \<Rightarrow> bool" where
  "index_ok rows db \<longleftrightarrow> (\<forall>r \<in> rows. \<exists>k \<in> set (dd_chunks db). entry_of r k)"

definition docs_inv :: "('v \<Rightarrow> vector_row set) \<Rightarrow> 'v doc_system \<Rightarrow> bool" where
  "docs_inv held s \<longleftrightarrow> db_ok (ds_db s) \<and> index_ok (held (ds_vec s)) (ds_db s)"

lemma entry_document: "entry_of r k \<Longrightarrow> of_document did r \<longleftrightarrow> ck_document k = did"
  by (auto simp: entry_of_def of_document_def chunk_metadata_def dget_def)

lemma index_ok_mono: "index_ok rows db \<Longrightarrow> rows' \<subseteq> rows \<Longrightarrow> set (dd_chunks db) \<subseteq> set (dd_chunks db') \<Longrightarrow> index_ok rows' db'"
  unfolding index_ok_def by blast

lemma faithful_delete:
  "faithful_index V held \<Longrightarrow> case vd_delete V did v of
       (Inl e, v') \<Rightarrow> held v' \<subseteq> held v
     | (Inr u, v') \<Rightarrow> held v' = {r \<in> held v. \<not> of_document did r}"
  unfolding faithful_index_def by (drule conjunct2, drule conjunct1) (erule spec2)

lemma faithful_add:
  "faithful_index V held \<Longrightarrow> vr_id ` set rows \<inter> vr_id ` held v = {} \<Longrightarrow> case vd_add V rows v of
       (Inl e, v') \<Rightarrow> held v' \<subseteq> held v \<union> set rows
     | (Inr u, v') \<Rightarrow> held v' = held v \<union> set rows"
  unfolding faithful_index_def by (drule conjunct1) (drule spec2, erule mp)

lemma faithful_query:
  "faithful_index V held \<Longrightarrow> vd_query V q n cids v = Inr raw \<Longrightarrow> first_result_list raw ''documents'' = Inr ds \<Longrightarrow>
   first_result_list raw ''metadatas'' = Inr ms \<Longrightarrow> first_result_list raw ''distances'' = Inr rs \<Longrightarrow>
   \<forall>(t, m, d) \<in> set (zip ds (zip ms rs)). \<exists>r \<in> held v. t = PStr (vr_text r) \<and> m = PDict (vr_meta r)"
  unfolding faithful_index_def by blast

lemma delete_shrinks:
  assumes "faithful_index V held" "vd_delete V did v = (r, v')"
  shows "held v' \<subseteq> held v" "r = Inr u \<Longrightarrow> held v' = {r \<in> held v. \<not> of_document did r}"
  using faithful_delete [OF assms(1), where did = did and v = v] by (auto simp: assms(2) split: sum.splits)

definition rows_of :: "string \<Rightarrow> chunk_row list \<Rightarrow> vector_row list \<Rightarrow> bool" where
  "rows_of filename ks rows \<longleftrightarrow> list_all2 (\<lambda>r k. vr_id r = ck_id k \<and> vr_text r = ck_text k \<and>
     vr_meta r = chunk_metadata filename k) rows ks"

lemma vector_rows_Inr: "vector_rows V filename ks = Inr rows \<Longrightarrow> rows_of filename ks rows"
  unfolding rows_of_def by (induction ks arbitrary: rows) (auto simp: res_iff)

lemma rows_of_entries:
  assumes "rows_of filename ks rows"
  shows "\<And>r. r \<in> set rows \<Longrightarrow> \<exists>k \<in> set ks. entry_of r k" "\<And>k. k \<in> set ks \<Longrightarrow> \<exists>r \<in> set rows. entry_of r k"
    "vr_id ` set rows = ck_id ` set ks"
  using assms unfolding rows_of_def by (induction rule: list_all2_induct) (auto simp: entry_of_def)

text \<open>Adding the chunks of a document whose ids are new to the index.\<close>

lemma add_chunks_result:
  assumes V: "faithful_index V held" and new: "ck_id ` set ks \<inter> vr_id ` held v = {}"
    and add: "add_chunks V filename ks v = (r, v')"
  shows "(\<exists>rows. rows_of filename ks rows \<and> held v' \<subseteq> held v \<union> set rows \<and>
            (r = Inr () \<longrightarrow> held v' = held v \<union> set rows)) \<or> ((\<exists>e. r = Inl e) \<and> v' = v)"
proof (cases "ks = []")
  case True
  with add have "v' = v" by (simp add: add_chunks_def ret_def)
  then show ?thesis using True by (intro disjI1 exI [of _ "[]"]) (simp add: rows_of_def)
next
  case False
  show ?thesis
  proof (cases "vector_rows V filename ks")
    case (Inl e)
    with False add show ?thesis by (auto simp: add_chunks_def)
  next
    case (Inr rows)
    note rows = vector_rows_Inr [OF Inr]
    from Inr False add have "vd_add V rows v = (r, v')" by (simp add: add_chunks_def)
    then have "held v' \<subseteq> held v \<union> set rows \<and> (r = Inr () \<longrightarrow> held v' = held v \<union> set rows)"
      using faithful_add [OF V, where rows = rows and v = v] new rows_of_entries(3) [OF rows]
      by (cases r) simp_all
    with rows show ?thesis by blast
  qed
qed

text \<open>Uploading.\<close>

lemma new_ids_unused:
  assumes "db_ok db" "index_ok rows db"
  shows "ck_id ` set (new_chunks now did cid texts (dd_next db)) \<inter> vr_id ` rows = {}"
proof -
  have "ck_id ` set (new_chunks now did cid texts (dd_next db)) =
      nat_digits ` {dd_next db..<dd_next db + length texts}"
    using new_chunks_columns(3) [of now did cid texts "dd_next db"] by (metis list.set_map atLeastLessThan_upt)
  moreover have "vr_id ` rows \<subseteq> set (used_ids db)"
    using assms(2) by (fastforce simp: index_ok_def entry_of_def used_ids_def)
  moreover have "nat_digits ` {dd_next db..<dd_next db + length texts} \<inter> set (used_ids db) = {}"
    using id_fresh [OF assms(1)] by auto
  ultimately show ?thesis by blast
qed

lemma replace_keeps_chunks:
  assumes "replace_document_chunks now did cid texts db = Inr (rows, db')"
    and "\<forall>k \<in> set (dd_chunks db). ck_document k \<noteq> did"
  shows "dd_chunks db' = dd_chunks db @ new_chunks now did cid texts (dd_next db)"
    "dd_collections db' = dd_collections db" "map do_id (dd_documents db') = map do_id (dd_documents db)"
  using assms by (auto elim!: replace_Inr simp: map_map_if intro: filter_True)

definition indexed :: "('v \<Rightarrow> vector_row set) \<Rightarrow> 'v doc_system \<Rightarrow> chunk_row list \<Rightarrow> bool" where
  "indexed held s ks \<longleftrightarrow> (\<forall>k \<in> set ks. \<exists>r \<in> held (ds_vec s). entry_of r k)"

lemma index_document_inv:
  assumes V: "faithful_index V held" and inv: "docs_inv held s"
    and none: "\<forall>k \<in> set (dd_chunks (ds_db s)). ck_document k \<noteq> did"
    and r: "index_document V clk did cid filename chunks s = (r, s')"
  shows "docs_inv held s' \<and> dd_collections (ds_db s') = dd_collections (ds_db s) \<and>
    map do_id (dd_documents (ds_db s')) = map do_id (dd_documents (ds_db s)) \<and>
    (r = Inr () \<longrightarrow> (\<exists>texts rows. chunks = Inr texts \<and>
       replace_document_chunks (clk 1) did cid texts (ds_db s) = Inr (rows, ds_db s') \<and>
       indexed held s' rows))"
proof (cases "\<exists>texts rows db. chunks = Inr texts \<and>
    replace_document_chunks (clk 1) did cid texts (ds_db s) = Inr (rows, db)")
  case False
  then have "s' = s \<and> (\<exists>e. r = Inl e)"
    using r by (auto simp: index_document_def raise_exn_def split: sum.splits)
  with inv show ?thesis by auto
next
  case True
  then obtain texts rows db where ch: "chunks = Inr texts"
    and rep: "replace_document_chunks (clk 1) did cid texts (ds_db s) = Inr (rows, db)" by blast
  obtain r1 v1 where del: "vd_delete V did (ds_vec s) = (r1, v1)" by (cases "vd_delete V did (ds_vec s)")
  from inv have ok: "db_ok (ds_db s)" and idx: "index_ok (held (ds_vec s)) (ds_db s)"
    by (simp_all add: docs_inv_def)
  note db = db_ok_replace [OF ok rep] replace_keeps_chunks [OF rep none]
  have shrunk: "held v1 \<subseteq> held (ds_vec s)" using delete_shrinks(1) [OF V del] .
  have idx1: "index_ok (held v1) db"
    using index_ok_mono [OF idx shrunk, of db] by (simp add: db(3))
  show ?thesis
  proof (cases r1)
    case (Inl e)
    with r ch rep del have "r = Inl e" "s' = \<lparr>ds_db = db, ds_vec = v1\<rparr>"
      by (auto simp: index_document_def seqE_def on_index_def)
    then show ?thesis using db idx1 by (simp add: docs_inv_def)
  next
    case (Inr u)
    obtain r2 v2 where add: "add_chunks V filename rows v1 = (r2, v2)" by (cases "add_chunks V filename rows v1")
    with r ch rep del Inr have s': "r = r2" "s' = \<lparr>ds_db = db, ds_vec = v2\<rparr>"
      by (auto simp: index_document_def seqE_def on_index_def)
    have "index_ok (held v1) (ds_db s)" using index_ok_mono [OF idx shrunk] by simp
    with new_ids_unused [OF ok this] db(2) have "ck_id ` set rows \<inter> vr_id ` held v1 = {}" by blast
    from add_chunks_result [OF V this add] consider
      (added) vrows where "rows_of filename rows vrows" "held v2 \<subseteq> held v1 \<union> set vrows"
        "r2 = Inr () \<longrightarrow> held v2 = held v1 \<union> set vrows"
    | (failed) e where "r2 = Inl e" "v2 = v1" by blast
    then show ?thesis
    proof cases
      case added
      have "index_ok (held v2) db"
        using idx1 added(2) rows_of_entries(1) [OF added(1)] db(2,3) unfolding index_ok_def by fastforce
      moreover have "r2 = Inr () \<longrightarrow> indexed held s' rows"
        using added(3) rows_of_entries(2) [OF added(1)] s'(2) unfolding indexed_def by auto
      ultimately show ?thesis using db s' ch rep by (auto simp: docs_inv_def)
    next
      case failed
      then show ?thesis using db s' idx1 by (simp add: docs_inv_def)
    qed
  qed
qed

lemma delete_from_index_result:
  assumes V: "faithful_index V held" and "delete_from_index V ds v = (r, v')"
  shows "held v' \<subseteq> held v \<and> (r = Inr () \<longrightarrow> (\<forall>d \<in> set ds. \<forall>x \<in> held v'. \<not> of_document (do_id d) x))"
  using assms(2)
proof (induction ds arbitrary: v)
  case Nil
  then show ?case by (simp add: ret_def)
next
  case (Cons d ds)
  obtain r1 v1 where d: "vd_delete V (do_id d) v = (r1, v1)" by (cases "vd_delete V (do_id d) v")
  note one = delete_shrinks [OF V d]
  show ?case
  proof (cases r1)
    case (Inl e)
    with Cons.prems d one(1) show ?thesis by (auto simp: seqE_def)
  next
    case (Inr u)
    with Cons.prems d have "delete_from_index V ds v1 = (r, v')" by (simp add: seqE_def)
    from Cons.IH [OF this] one(1) one(2) [OF Inr] show ?thesis by auto
  qed
qed

lemma delete_collection_inv:
  assumes V: "faithful_index V held" and inv: "docs_inv held s" and r: "delete_collection V cid s = (r, s')"
  shows "docs_inv held s'"
proof (cases "list_documents cid (ds_db s)")
  case None
  with r inv show ?thesis by (simp add: delete_collection_def)
next
  case (Some ds)
  obtain r1 v1 where d: "delete_from_index V ds (ds_vec s) = (r1, v1)"
    by (cases "delete_from_index V ds (ds_vec s)")
  note gone = delete_from_index_result [OF V d]
  from inv have ok: "db_ok (ds_db s)" and idx: "index_ok (held v1) (ds_db s)"
    using index_ok_mono [of "held (ds_vec s)" "ds_db s" "held v1"] gone by (auto simp: docs_inv_def)
  show ?thesis
  proof (cases r1)
    case (Inl e)
    with Some r d ok idx show ?thesis
      by (auto simp: delete_collection_def seqE_def on_index_def docs_inv_def)
  next
    case (Inr u)
    obtain b db where drop: "drop_collection cid (ds_db s) = (b, db)" by (cases "drop_collection cid (ds_db s)")
    with Some r d Inr have s': "s' = \<lparr>ds_db = db, ds_vec = v1\<rparr>"
      by (auto simp: delete_collection_def seqE_def on_index_def)
    from Some have ds: "set ds = {d \<in> set (dd_documents (ds_db s)). do_collection d = cid}"
      by (auto simp: list_documents_def split: if_splits)
    have chunks: "dd_chunks db = filter (\<lambda>k. ck_collection k \<noteq> cid) (dd_chunks (ds_db s))"
      using drop Some by (auto simp: drop_collection_def list_documents_def split: if_splits)
    have "\<exists>k \<in> set (dd_chunks db). entry_of x k" if x: "x \<in> held v1" for x
    proof -
      from idx x obtain k where k: "k \<in> set (dd_chunks (ds_db s))" "entry_of x k" by (auto simp: index_ok_def)
      from db_okD(4) [OF ok k(1)] obtain e where e:
        "e \<in> set (dd_documents (ds_db s))" "do_id e = ck_document k" "do_collection e = ck_collection k" by blast
      then have "of_document (do_id e) x" using entry_document [OF k(2)] by simp
      then have "e \<notin> set ds" using gone Inr x by auto
      with e ds have "ck_collection k \<noteq> cid" by auto
      with k chunks show ?thesis by auto
    qed
    then show ?thesis
      using db_ok_drop_collection [OF ok drop] by (simp add: docs_inv_def s' index_ok_def)
  qed
qed

lemma upload_cases:
  assumes "upload_text_document V m v clk cid filename ctype text s = Some (r, s')"
  obtains (refused) e where "r = Inl e" "s' = s" "find_collection (ds_db s) cid = None \<or>
      normalize_content_type filename ctype = Inl e"
  | (failed) ct d db chunks e s1 where "normalize_content_type filename ctype = Inr ct"
      "create_document (clk 0) cid filename ct (ds_db s) = Inr (d, db)"
      "chunk_document_text text m v = Some chunks"
      "index_document V clk (do_id d) cid filename chunks (s\<lparr>ds_db := db\<rparr>) = (Inl e, s1)"
      "r = Inl e" "s' = s1\<lparr>ds_db := mark_document_failed (clk 2) (do_id d) (exn_text e) (ds_db s1)\<rparr>"
  | (stored) ct d db chunks where "normalize_content_type filename ctype = Inr ct"
      "create_document (clk 0) cid filename ct (ds_db s) = Inr (d, db)"
      "chunk_document_text text m v = Some chunks"
      "index_document V clk (do_id d) cid filename chunks (s\<lparr>ds_db := db\<rparr>) = (Inr (), s')"
      "r = (case find_document (ds_db s') (do_id d) of
         None \<Rightarrow> Inl (Exn ''RuntimeError'' (''Indexed document '' @ do_id d @ '' could not be loaded''))
       | Some row \<Rightarrow> Inr row)"
proof (cases "normalize_content_type filename ctype")
  case (Inl e)
  with assms show ?thesis by (intro refused) (auto simp: upload_text_document_def)
next
  case norm: (Inr ct)
  show ?thesis
  proof (cases "create_document (clk 0) cid filename ct (ds_db s)")
    case (Inl e)
    with norm assms show ?thesis
      by (intro refused) (auto simp: upload_text_document_def create_document_def Let_def split: if_splits)
  next
    case (Inr p)
    obtain d db where create: "create_document (clk 0) cid filename ct (ds_db s) = Inr (d, db)"
      using Inr by (cases p) simp
    from norm create assms obtain chunks where chunks: "chunk_document_text text m v = Some chunks"
      by (auto simp: upload_text_document_def split: option.splits)
    obtain r1 s1 where idx: "index_document V clk (do_id d) cid filename chunks (s\<lparr>ds_db := db\<rparr>) = (r1, s1)"
      by (cases "index_document V clk (do_id d) cid filename chunks (s\<lparr>ds_db := db\<rparr>)")
    show ?thesis
    proof (cases r1)
      case (Inl e)
      with norm create chunks idx assms show ?thesis
        by (intro failed [OF norm create chunks]) (auto simp: upload_text_document_def)
    next
      case (Inr u)
      with norm create chunks idx assms show ?thesis
        by (intro stored [OF norm create chunks])
          (auto simp: upload_text_document_def split: option.splits)
    qed
  qed
qed

text \<open>A new document has no chunks yet.\<close>

lemma fresh_document:
  assumes inv: "docs_inv held s" and c: "create_document now cid filename ctype (ds_db s) = Inr (d, db)"
  shows "docs_inv held (s\<lparr>ds_db := db\<rparr>)" "\<forall>k \<in> set (dd_chunks db). ck_document k \<noteq> do_id d"
proof -
  from inv have ok: "db_ok (ds_db s)" by (simp add: docs_inv_def)
  note new = create_document_Inr [OF c]
  show "docs_inv held (s\<lparr>ds_db := db\<rparr>)"
    using inv db_ok_create_document [OF ok c] by (simp add: docs_inv_def index_ok_def new(8))
  show "\<forall>k \<in> set (dd_chunks db). ck_document k \<noteq> do_id d"
  proof
    fix k assume "k \<in> set (dd_chunks db)"
    then obtain e where "e \<in> set (dd_documents (ds_db s))" "do_id e = ck_document k"
      using db_okD(4) [OF ok, of k] by (auto simp: new(8))
    then have "ck_document k \<in> set (used_ids (ds_db s))" by (auto simp: used_ids_def) (metis imageI)
    with id_fresh [OF ok order_refl] show "ck_document k \<noteq> do_id d" by (auto simp: new(2))
  qed
qed

lemma upload_inv:
  assumes V: "faithful_index V held" and inv: "docs_inv held s"
    and u: "upload_text_document V m v clk cid filename ctype text s = Some (r, s')"
  shows "docs_inv held s'"
  using u
proof (cases rule: upload_cases)
  case (refused e)
  with inv show ?thesis by simp
next
  case (failed ct d db chunks e s1)
  note f = fresh_document [OF inv failed(2)]
  have "docs_inv held s1" using index_document_inv [OF V f(1) _ failed(4)] f(2) by simp
  then show ?thesis using db_ok_mark_failed by (auto simp: failed(6) docs_inv_def index_ok_def mark_document_failed_def)
next
  case (stored ct d db chunks)
  note f = fresh_document [OF inv stored(2)]
  show ?thesis using index_document_inv [OF V f(1) _ stored(4)] f(2) by simp
qed

section \<open>The service as a state machine\<close>

inductive doc_step ::
  "'v vector_db \<Rightarrow> int \<Rightarrow> int \<Rightarrow> 'v doc_system \<Rightarrow> 'v doc_system \<Rightarrow> bool" for V m v where
  create: "create_collection now name description (ds_db s) = (c, db) \<Longrightarrow>
     doc_step V m v s (s\<lparr>ds_db := db\<rparr>)"
| update: "update_collection now cid name description (ds_db s) = (c, db) \<Longrightarrow>
     doc_step V m v s (s\<lparr>ds_db := db\<rparr>)"
| archive: "archive_collection now cid (ds_db s) = (c, db) \<Longrightarrow> doc_step V m v s (s\<lparr>ds_db := db\<rparr>)"
| upload: "upload_text_document V m v clk cid filename ctype text s = Some (r, s') \<Longrightarrow> doc_step V m v s s'"
| delete: "delete_collection V cid s = (b, s') \<Longrightarrow> doc_step V m v s s'"

lemma collection_ops_keep_chunks:
  "create_collection now name description db = (c, db') \<Longrightarrow> dd_chunks db' = dd_chunks db"
  "update_collection now cid name description db = (e, db') \<Longrightarrow> dd_chunks db' = dd_chunks db"
  "archive_collection now cid db = (e, db') \<Longrightarrow> dd_chunks db' = dd_chunks db"
  by (auto simp: create_collection_def update_collection_def archive_collection_def Let_def split: if_splits)

lemma doc_step_inv:
  assumes V: "faithful_index V held" and inv: "docs_inv held s" and step: "doc_step V m v s s'"
  shows "docs_inv held s'"
  using step
proof cases
  case create
  with inv db_ok_create_collection show ?thesis
    by (auto simp: docs_inv_def index_ok_def collection_ops_keep_chunks(1))
next
  case update
  with inv db_ok_update_collection show ?thesis
    by (auto simp: docs_inv_def index_ok_def collection_ops_keep_chunks(2))
next
  case archive
  with inv db_ok_archive_collection show ?thesis
    by (auto simp: docs_inv_def index_ok_def collection_ops_keep_chunks(3))
next
  case upload
  with upload_inv [OF V inv] show ?thesis by blast
next
  case delete
  with delete_collection_inv [OF V inv] show ?thesis by blast
qed

interpretation docs: inductive_invariant "\<lambda>s. ds_db s = empty_docs \<and> held (ds_vec s) = {}" "doc_step V m v"
  "\<lambda>s. faithful_index V held \<longrightarrow> docs_inv held s" for V m v held
proof
  fix s :: "'a doc_system"
  assume "ds_db s = empty_docs \<and> held (ds_vec s) = {}"
  then show "faithful_index V held \<longrightarrow> docs_inv held s"
    by (simp add: docs_inv_def db_ok_def index_ok_def empty_docs_def used_ids_def)
qed (use doc_step_inv in blast)

definition docs_reachable ::
  "'v vector_db \<Rightarrow> ('v \<Rightarrow> vector_row set) \<Rightarrow> int \<Rightarrow> int \<Rightarrow> 'v doc_system \<Rightarrow> bool" where
  "docs_reachable V held m v s \<longleftrightarrow>
     (\<exists>s0. ds_db s0 = empty_docs \<and> held (ds_vec s0) = {} \<and> (doc_step V m v)\<^sup>*\<^sup>* s0 s)"

lemma reachable_docs_inv: "faithful_index V held \<Longrightarrow> docs_reachable V held m v s \<Longrightarrow> docs_inv held s"
  unfolding docs_reachable_def using docs.inv_reachable [of _ held V m v] by blast

section \<open>Searching\<close>

lemma hit_of_Inr:
  assumes "hit_of t meta cid score = Inr h"
  shows "sh_collection h = cid" "sh_text h = py_str t" "sh_document h = py_str (dget_or meta ''document_id'' (PStr []))"
    "sh_chunk h = py_str (dget_or meta ''chunk_id'' (PStr []))"
    "int_of_value (dget_or meta ''chunk_index'' (PInt 0)) = Inr (sh_index h)" "sh_score h = round4 score"
  using assms by (auto simp: hit_of_def res_iff)

text \<open>Each hit stands for one of the rows of the query's answer.\<close>

definition hit_from :: "string list \<Rightarrow> (pyval \<times> pyval \<times> pyval) list \<Rightarrow> search_hit \<Rightarrow> bool" where
  "hit_from cids rows h \<longleftrightarrow> (\<exists>t meta d score. (t, PDict meta, d) \<in> set rows \<and> min_similarity \<le> score \<and>
     hit_of t meta (py_str (dget_or meta ''collection_id'' (PStr []))) score = Inr h \<and> sh_collection h \<in> set cids)"

lemma search_results_from:
  assumes "search_results cids top_k rows hits = Inr hs" "int (length hits) < top_k"
  shows "int (length hs) \<le> top_k \<and> (\<forall>h \<in> set hs. h \<in> set hits \<or> hit_from cids rows h)"
  using assms
proof (induction cids top_k rows hits rule: search_results.induct)
  case (1 cids top_k hits)
  then show ?case by simp
next
  case (2 cids top_k t meta d rows hits)
  from 2(4) obtain m where m: "meta = PDict m" by (cases meta) auto
  let ?cid = "py_str (dget_or m ''collection_id'' (PStr []))"
  have more: "hit_from cids ((t, meta, d) # rows) h" if "hit_from cids rows h" for h
    using that by (auto simp: hit_from_def)
  show ?case
  proof (cases "?cid \<in> set cids")
    case False
    with 2(1) [OF m refl] 2(4,5) m more show ?thesis by auto
  next
    case True
    with 2(4) m obtain r where r: "float_of_value d = Inr r" by (auto simp: res_iff)
    show ?thesis
    proof (cases "1 - r < min_similarity")
      case True
      with 2(2) [OF m refl _ r refl] 2(4,5) m more r \<open>?cid \<in> set cids\<close> show ?thesis by auto
    next
      case False
      with 2(4) m r \<open>?cid \<in> set cids\<close> obtain h where h: "hit_of t m ?cid (1 - r) = Inr h"
        by (auto simp: res_iff Let_def)
      have from_row: "hit_from cids ((t, meta, d) # rows) h"
        unfolding hit_from_def using h False \<open>?cid \<in> set cids\<close> hit_of_Inr(1) [OF h] m
        by (intro exI [of _ t] exI [of _ m] exI [of _ d] exI [of _ "1 - r"]) simp
      show ?thesis
      proof (cases "int (length (hits @ [h])) \<ge> top_k")
        case True
        with 2(4,5) m r \<open>?cid \<in> set cids\<close> False h from_row show ?thesis by (auto simp: Let_def)
      next
        case less: False
        with 2(4) m r \<open>?cid \<in> set cids\<close> False h
        have "search_results cids top_k rows (hits @ [h]) = Inr hs" by (simp add: Let_def)
        with 2(3) [OF m refl _ r refl False h refl less] \<open>?cid \<in> set cids\<close> less from_row more
        show ?thesis by auto
      qed
    qed
  qed
qed

lemma vector_search_from:
  assumes "vector_search V query cids top_k v = Inr hs"
  shows "\<exists>q n raw ds ms rs. vd_query V q n cids v = Inr raw \<and> first_result_list raw ''documents'' = Inr ds \<and>
    first_result_list raw ''metadatas'' = Inr ms \<and> first_result_list raw ''distances'' = Inr rs \<and>
    int (length hs) \<le> top_k \<and> (\<forall>h \<in> set hs. hit_from cids (zip ds (zip ms rs)) h)"
proof -
  from assms obtain q raw ds ms rs where q:
    "vd_query V q (top_k * max (int (length cids)) 1) cids v = Inr raw"
    "first_result_list raw ''documents'' = Inr ds" "first_result_list raw ''metadatas'' = Inr ms"
    "first_result_list raw ''distances'' = Inr rs"
    "search_results cids top_k (zip ds (zip ms rs)) [] = Inr hs" "0 < top_k"
    by (auto simp: vector_search_def res_iff split: if_splits)
  from search_results_from [OF q(5)] q(6)
  have "int (length hs) \<le> top_k \<and> (\<forall>h \<in> set hs. hit_from cids (zip ds (zip ms rs)) h)" by simp
  with q(1-4) show ?thesis by blast
qed

section \<open>Properties\<close>

lemma entry_hit:
  assumes e: "entry_of r k" and h: "hit_of (PStr (vr_text r)) (vr_meta r) cid score = Inr h"
  shows "sh_text h = ck_text k" "sh_document h = ck_document k" "sh_chunk h = ck_id k"
    "sh_index h = int (ck_index k)"
    "py_str (dget_or (vr_meta r) ''collection_id'' (PStr [])) = ck_collection k"
proof -
  from e obtain f where "vr_meta r = chunk_metadata f k" "vr_text r = ck_text k" by (auto simp: entry_of_def)
  with hit_of_Inr [OF h] show "sh_text h = ck_text k" "sh_document h = ck_document k" "sh_chunk h = ck_id k"
    "sh_index h = int (ck_index k)"
    "py_str (dget_or (vr_meta r) ''collection_id'' (PStr [])) = ck_collection k"
    by (simp_all add: chunk_metadata_def dget_or_def int_of_value_def)
qed


lemma index_document_db:
  "index_document V clk did cid filename chunks s = (r, s') \<Longrightarrow>
   ds_db s' = ds_db s \<or> (\<exists>texts rows. replace_document_chunks (clk 1) did cid texts (ds_db s) = Inr (rows, ds_db s'))"
  by (auto simp: index_document_def raise_exn_def seqE_def on_index_def split: sum.splits prod.splits)

lemma index_document_others:
  assumes "index_document V clk did cid filename chunks s = (r, s')"
    and "e \<in> set (dd_documents (ds_db s))" "do_id e \<noteq> did"
  shows "e \<in> set (dd_documents (ds_db s'))"
  using index_document_db [OF assms(1)] assms(2,3) by (auto elim!: replace_Inr simp: set_map_if)

lemma upload_keeps_documents:
  assumes inv: "docs_inv held s" and c: "create_document now cid filename ct (ds_db s) = Inr (d, db)"
    and e: "e \<in> set (dd_documents (ds_db s))"
  shows "e \<in> set (dd_documents db)" "do_id e \<noteq> do_id d"
proof -
  note new = create_document_Inr [OF c]
  show "e \<in> set (dd_documents db)" using e by (simp add: new(8))
  have "do_id e \<in> set (used_ids (ds_db s))" using e by (simp add: used_ids_def)
  with id_fresh [of "ds_db s"] inv new(2) show "do_id e \<noteq> do_id d" by (auto simp: docs_inv_def)
qed

text \<open>C23. An upload is all or on record. An upload that returns a document has stored exactly the
  chunks of its text, in their order, and each of them is in the index. An upload that raises either
  changed nothing, when the type is not supported or the collection does not exist, or leaves its
  document marked as failed with the text of the exception. Either way the other documents stay as
  they were.\<close>

theorem upload_outcome:
  assumes "faithful_index V held" "docs_reachable V held m v s"
    and "upload_text_document V m v clk cid filename ctype text s = Some (r, s')"
  shows "set (dd_documents (ds_db s)) \<subseteq> set (dd_documents (ds_db s')) \<and>
    (case r of
       Inr row \<Rightarrow> row \<in> set (dd_documents (ds_db s')) \<and> do_status row = ''indexed'' \<and>
         do_collection row = cid \<and> chunk_document_text text m v =
           Some (Inr (map ck_text (list_chunks_for_document (do_id row) (ds_db s')))) \<and>
         do_chunks row = length (list_chunks_for_document (do_id row) (ds_db s')) \<and>
         indexed held s' (list_chunks_for_document (do_id row) (ds_db s'))
     | Inl e \<Rightarrow> s' = s \<and> (find_collection (ds_db s) cid = None \<or> normalize_content_type filename ctype = Inl e) \<or>
         (\<exists>row \<in> set (dd_documents (ds_db s')). row \<notin> set (dd_documents (ds_db s)) \<and>
            do_status row = ''failed'' \<and> do_error row = Some (exn_text e)))"
proof -
  note V = assms(1)
  have inv: "docs_inv held s" using reachable_docs_inv [OF assms(1,2)] .
  show ?thesis using assms(3)
  proof (cases rule: upload_cases)
    case (refused e)
    then show ?thesis by auto
  next
    case (failed ct d db chunks e s1)
    note f = fresh_document [OF inv failed(2)] and old = upload_keeps_documents [OF inv failed(2)]
    have kept: "x \<in> set (dd_documents (ds_db s'))" if "x \<in> set (dd_documents (ds_db s))" for x
      using index_document_others [OF failed(4), of x] old [OF that]
      by (auto simp: failed(6) mark_document_failed_def set_map_if)
    have "map do_id (dd_documents (ds_db s1)) = map do_id (dd_documents db)"
      using index_document_inv [OF V f(1) _ failed(4)] f(2) by simp
    moreover have "do_id d \<in> set (map do_id (dd_documents db))"
      by (simp add: create_document_Inr(8) [OF failed(2)])
    ultimately obtain x where x: "x \<in> set (dd_documents (ds_db s1))" "do_id x = do_id d"
      by (metis imageE list.set_map)
    let ?row = "x\<lparr>do_status := ''failed'', do_error := Some (exn_text e), do_updated := clk 2\<rparr>"
    have "?row \<in> set (dd_documents (ds_db s'))"
      using x by (auto simp: failed(6) mark_document_failed_def set_map_if)
    moreover have "?row \<notin> set (dd_documents (ds_db s))" using old(2) [of ?row] x(2) by auto
    ultimately show ?thesis using kept failed(5) by auto
  next
    case (stored ct d db chunks)
    note f = fresh_document [OF inv stored(2)] and old = upload_keeps_documents [OF inv stored(2)]
    from index_document_inv [OF V f(1) _ stored(4)] f(2) obtain texts rows where
      inv': "docs_inv held s'" and ch: "chunks = Inr texts"
      and rp: "replace_document_chunks (clk 1) (do_id d) cid texts db = Inr (rows, ds_db s')"
      and idx: "indexed held s' rows" by auto
    have ok: "db_ok db" "db_ok (ds_db s')" using f(1) inv' by (simp_all add: docs_inv_def)
    let ?row = "d\<lparr>do_status := ''indexed'', do_chunks := length texts, do_error := None, do_updated := clk 1\<rparr>"
    have row: "?row \<in> set (dd_documents (ds_db s'))"
      using rp create_document_Inr(8) [OF stored(2)] by (auto elim!: replace_Inr simp: set_map_if)
    have "find_document (ds_db s') (do_id ?row) = Some ?row"
      unfolding find_document_def by (rule find_unique [OF distinct_columns(2) [OF db_okD(1) [OF ok(2)]] row])
    with stored(5) have r: "r = Inr ?row" by simp
    have listed: "list_chunks_for_document (do_id d) (ds_db s') = rows"
      using rp by (auto elim: replace_Inr)
    have texts: "map ck_text rows = texts" "length rows = length texts"
      using db_ok_replace(2) [OF ok(1) rp] new_chunks_columns(2) by (simp_all add: new_chunks_def)
    have "x \<in> set (dd_documents (ds_db s'))" if "x \<in> set (dd_documents (ds_db s))" for x
      using index_document_others [OF stored(4), of x] old [OF that] by simp
    then show ?thesis
      using row idx texts stored(3) ch create_document_Inr(3) [OF stored(2)] by (auto simp: r listed)
  qed
qed

section \<open>A small index\<close>

text \<open>An index that keeps its rows in a list and answers a query with all of them.\<close>

definition list_index :: "vector_row list vector_db" where
  "list_index = \<lparr>vd_embed = \<lambda>_. Inr [], vd_add = \<lambda>rows v. (Inr (), v @ rows),
     vd_delete = \<lambda>did v. (Inr (), filter (\<lambda>r. \<not> of_document did r) v),
     vd_query = \<lambda>q n cids v. Inr [(''documents'', PList [PList (map (\<lambda>r. PStr (vr_text r)) v)]),
       (''metadatas'', PList [PList (map (\<lambda>r. PDict (vr_meta r)) v)]),
       (''distances'', PList [PList (map (\<lambda>r. PInt 0) v)])]\<rparr>"

lemma list_index_faithful: "faithful_index list_index set"
  unfolding faithful_index_def
  by (auto simp: list_index_def first_result_list_def dget_def zip_map_map zip_same_conv_map in_set_zip)

definition demo_docs :: "vector_row list doc_system" where
  "demo_docs = \<lparr>ds_db = snd (create_collection 1 ''notes'' None empty_docs), ds_vec = []\<rparr>"

definition demo_uploaded :: "vector_row list doc_system" where
  "demo_uploaded = \<lparr>ds_db =
     \<lparr>dd_collections = dd_collections (ds_db demo_docs),
      dd_documents = [\<lparr>do_id = ''1'', do_collection = ''0'', do_filename = ''a.txt'', do_type = ''text/plain'',
        do_status = ''indexed'', do_chunks = 2, do_error = None, do_created = 0, do_updated = 1\<rparr>],
      dd_chunks = new_chunks 1 ''1'' ''0'' [''ab cd'', ''cd ef''] 2, dd_next = 4\<rparr>,
    ds_vec = map (\<lambda>k. \<lparr>vr_id = ck_id k, vr_embedding = [], vr_text = ck_text k,
       vr_meta = chunk_metadata ''a.txt'' k\<rparr>) (new_chunks 1 ''1'' ''0'' [''ab cd'', ''cd ef''] 2)\<rparr>"

lemma demo_upload:
  "\<exists>row. upload_text_document list_index 5 2 int ''0'' ''a.txt'' ''text/plain'' ''ab cd ef'' demo_docs =
     Some (Inr row, demo_uploaded)"
proof -
  have n: "normalize_content_type ''a.txt'' ''text/plain'' = Inr ''text/plain''" by code_simp
  have i: "index_document list_index int ''1'' ''0'' ''a.txt'' (Inr [''ab cd'', ''cd ef''])
      (demo_docs\<lparr>ds_db := (ds_db demo_docs)\<lparr>dd_documents := [\<lparr>do_id = ''1'', do_collection = ''0'',
         do_filename = ''a.txt'', do_type = ''text/plain'', do_status = ''pending'', do_chunks = 0,
         do_error = None, do_created = 0, do_updated = 0\<rparr>], dd_next := 2\<rparr>\<rparr>) = (Inr (), demo_uploaded)"
    by code_simp
  have c: "create_document (int 0) ''0'' ''a.txt'' ''text/plain'' (ds_db demo_docs) =
      Inr (\<lparr>do_id = ''1'', do_collection = ''0'',
         do_filename = ''a.txt'', do_type = ''text/plain'', do_status = ''pending'', do_chunks = 0,
         do_error = None, do_created = 0, do_updated = 0\<rparr>,
        (ds_db demo_docs)\<lparr>dd_documents := [\<lparr>do_id = ''1'', do_collection = ''0'',
         do_filename = ''a.txt'', do_type = ''text/plain'', do_status = ''pending'', do_chunks = 0,
         do_error = None, do_created = 0, do_updated = 0\<rparr>], dd_next := 2\<rparr>)" by code_simp
  have "find_document (ds_db demo_uploaded) ''1'' \<noteq> None" by code_simp
  then show ?thesis
    by (auto simp: upload_text_document_def n c demo_chunks i simp del: of_nat_0)
qed

lemma demo_docs_reachable:
  "docs_reachable list_index set 5 2 demo_docs" "docs_reachable list_index set 5 2 demo_uploaded"
proof -
  have 1: "doc_step list_index 5 2 \<lparr>ds_db = empty_docs, ds_vec = []\<rparr> demo_docs"
    using doc_step.create [of 1 "''notes''" None "\<lparr>ds_db = empty_docs, ds_vec = []\<rparr>" _ _ list_index 5 2]
    by (metis demo_docs_def doc_system.select_convs(1) doc_system.update_convs(1) prod.collapse)
  from demo_upload have 2: "doc_step list_index 5 2 demo_docs demo_uploaded" using doc_step.upload by blast
  have r: "docs_reachable list_index set 5 2 s" if "(doc_step list_index 5 2)\<^sup>*\<^sup>* \<lparr>ds_db = empty_docs, ds_vec = []\<rparr> s" for s
    unfolding docs_reachable_def using that by (intro exI [of _ "\<lparr>ds_db = empty_docs, ds_vec = []\<rparr>"]) simp
  from 1 2 show "docs_reachable list_index set 5 2 demo_docs" "docs_reachable list_index set 5 2 demo_uploaded"
    by (blast intro: r rtranclp.rtrancl_into_rtrancl)+
qed

lemma demo_search:
  "\<exists>h. search_collections list_index ''cd'' [''0''] 1 demo_uploaded = Inr [(''notes'', h)]"
proof -
  have "case search_collections list_index ''cd'' [''0''] 1 demo_uploaded of
      Inr [(n, h)] \<Rightarrow> n = ''notes'' | _ \<Rightarrow> False" by code_simp
  then show ?thesis by (auto split: sum.splits list.splits)
qed


lemma upload_outcome_witness:
  "\<exists>row. upload_text_document list_index 5 2 int ''0'' ''a.txt'' ''text/plain'' ''ab cd ef'' demo_docs =
     Some (Inr row, demo_uploaded) \<and> do_status row = ''indexed''"
proof -
  obtain row where u: "upload_text_document list_index 5 2 int ''0'' ''a.txt'' ''text/plain'' ''ab cd ef'' demo_docs =
     Some (Inr row, demo_uploaded)" using demo_upload by blast
  from upload_outcome [OF list_index_faithful demo_docs_reachable(1) u] u show ?thesis by auto
qed

end
