(* ===== verification/Tool_Paths.thy ===== *)
theory Tool_Paths
  imports Py_Text
begin

text \<open>
  The file system as the agent tools meet it, through Python's \<open>pathlib\<close>: directories, files and
  symbolic links by their absolute paths, the resolution of links, and what the tools read, write
  and list. Every access is put on a log under the place it really reaches, which is what the
  tools must confine.

  The system follows a limited number of links in one path; \<open>fs_links\<close> is that limit.
\<close>

section \<open>Paths\<close>

type_synonym path = "string list"

text \<open>\<open>Path(text).parts\<close>, without the root.\<close>

definition path_parts :: "string \<Rightarrow> path" where
  "path_parts s = filter (\<lambda>p. p \<noteq> [] \<and> p \<noteq> ''.'') (split_on CHR ''/'' s)"

definition is_absolute :: "string \<Rightarrow> bool" where
  "is_absolute s = starts_with ''/'' s"

definition path_str :: "path \<Rightarrow> string" where
  "path_str p = ''/'' @ join ''/'' p"

definition is_relative_to :: "path \<Rightarrow> path \<Rightarrow> bool" where
  "is_relative_to p base = (take (length base) p = base)"

definition relative_to :: "path \<Rightarrow> path \<Rightarrow> path" where
  "relative_to p base = drop (length base) p"

lemma is_relative_to_iff: "is_relative_to p base \<longleftrightarrow> (\<exists>rest. p = base @ rest)"
  unfolding is_relative_to_def by (metis append_eq_conv_conj append_take_drop_id)

lemma relative_to_append: "is_relative_to p base \<Longrightarrow> base @ relative_to p base = p"
  unfolding is_relative_to_def relative_to_def by (metis append_take_drop_id)

section \<open>Entries\<close>

datatype entry = Dir | File string | Link string

record files =
  fs_entries :: "(path \<times> entry) list"
  fs_cwd :: path
  fs_links :: nat
  fs_log :: "(string \<times> path) list"

definition lookup_entry :: "files \<Rightarrow> path \<Rightarrow> entry option" where
  "lookup_entry fs p = (if p = [] then Some Dir else map_of (fs_entries fs) p)"

section \<open>Following links\<close>

definition os_error :: "string \<Rightarrow> path \<Rightarrow> exn" where
  "os_error kind p = Exn kind (path_str p)"

text \<open>\<open>cur\<close> is the part that is resolved, \<open>rest\<close> what follows. A parent step takes the last part
  away, also where it is not a directory, as \<open>os.path.realpath\<close> does; a missing part is kept.\<close>

function walk :: "files \<Rightarrow> nat \<Rightarrow> path \<Rightarrow> path \<Rightarrow> exn + path" where
  "walk fs n cur [] = Inr cur"
| "walk fs n cur (c # rest) =
     (if CHR 0x00 \<in> set c then Inl (Exn ''ValueError'' ''embedded null byte'')
      else if c = ''..'' then walk fs n (butlast cur) rest
      else case lookup_entry fs (cur @ [c]) of
             Some (Link target) \<Rightarrow>
               (case n of
                  0 \<Rightarrow> Inl (Exn ''RuntimeError'' (''Symlink loop from '' @ path_str (cur @ [c])))
                | Suc m \<Rightarrow> walk fs m (if is_absolute target then [] else cur) (path_parts target @ rest))
           | _ \<Rightarrow> walk fs n (cur @ [c]) rest)"
  by pat_completeness auto
termination by (relation "measures [\<lambda>(fs, n, cur, rest). n, \<lambda>(fs, n, cur, rest). length rest]") auto

text \<open>\<open>Path(text)\<close> as an absolute path, and \<open>.resolve()\<close>.\<close>

definition absolute :: "files \<Rightarrow> string \<Rightarrow> path" where
  "absolute fs s = (if is_absolute s then path_parts s else fs_cwd fs @ path_parts s)"

definition resolve_path :: "files \<Rightarrow> path \<Rightarrow> exn + path" where
  "resolve_path fs p = walk fs (fs_links fs) [] p"

definition resolve :: "files \<Rightarrow> string \<Rightarrow> exn + path" where
  "resolve fs s = resolve_path fs (absolute fs s)"

text \<open>What an access to a path reaches.\<close>

definition reached :: "files \<Rightarrow> path \<Rightarrow> (path \<times> entry) option" where
  "reached fs p = (case resolve_path fs p of
       Inl e \<Rightarrow> None
     | Inr q \<Rightarrow> map_option (\<lambda>e. (q, e)) (lookup_entry fs q))"

definition path_exists :: "files \<Rightarrow> path \<Rightarrow> bool" where
  "path_exists fs p = (reached fs p \<noteq> None)"

definition is_dir :: "files \<Rightarrow> path \<Rightarrow> bool" where
  "is_dir fs p = (case reached fs p of Some (q, Dir) \<Rightarrow> True | _ \<Rightarrow> False)"

definition is_file :: "files \<Rightarrow> path \<Rightarrow> bool" where
  "is_file fs p = (case reached fs p of Some (q, File s) \<Rightarrow> True | _ \<Rightarrow> False)"

section \<open>Accesses\<close>

definition log_access :: "string \<Rightarrow> path \<Rightarrow> files \<Rightarrow> files" where
  "log_access kind q fs = fs\<lparr>fs_log := fs_log fs @ [(kind, q)]\<rparr>"

definition utf8_length :: "string \<Rightarrow> nat" where
  "utf8_length s = sum_list (map (\<lambda>c. if char_nat c < 128 then 1 else 2) s)"

definition read_text :: "path \<Rightarrow> (files, string) eff" where
  "read_text p = (\<lambda>fs. case reached fs p of
       Some (q, File s) \<Rightarrow> (Inr s, log_access ''read'' q fs)
     | Some (q, Dir) \<Rightarrow> (Inl (os_error ''IsADirectoryError'' p), fs)
     | _ \<Rightarrow> (Inl (os_error ''FileNotFoundError'' p), fs))"

definition file_size :: "files \<Rightarrow> path \<Rightarrow> nat" where
  "file_size fs p = (case reached fs p of Some (q, File s) \<Rightarrow> utf8_length s | _ \<Rightarrow> 0)"

definition iterdir :: "path \<Rightarrow> (files, path list) eff" where
  "iterdir p = (\<lambda>fs. case reached fs p of
       Some (q, Dir) \<Rightarrow>
         (Inr (map (\<lambda>e. p @ [last (fst e)])
                (filter (\<lambda>e. fst e \<noteq> [] \<and> butlast (fst e) = q) (fs_entries fs))),
          log_access ''list'' q fs)
     | Some (q, e) \<Rightarrow> (Inl (os_error ''NotADirectoryError'' p), fs)
     | None \<Rightarrow> (Inl (os_error ''FileNotFoundError'' p), fs))"

text \<open>\<open>mkdir(parents=True, exist_ok=True)\<close>, for a path without links: from the root down.\<close>

fun make_dirs :: "path \<Rightarrow> path \<Rightarrow> (files, unit) eff" where
  "make_dirs cur [] = ret ()"
| "make_dirs cur (c # rest) = (\<lambda>fs.
     case lookup_entry fs (cur @ [c]) of
       Some Dir \<Rightarrow> make_dirs (cur @ [c]) rest fs
     | None \<Rightarrow> make_dirs (cur @ [c]) rest
         (log_access ''mkdir'' (cur @ [c]) (fs\<lparr>fs_entries := (cur @ [c], Dir) # fs_entries fs\<rparr>))
     | Some _ \<Rightarrow> (Inl (os_error ''FileExistsError'' (cur @ [c])), fs))"

text \<open>Opening a path without links for writing, and writing a text.\<close>

definition put_text :: "path \<Rightarrow> string \<Rightarrow> bool \<Rightarrow> (files, unit) eff" where
  "put_text p content appending = (\<lambda>fs. case lookup_entry fs p of
       Some Dir \<Rightarrow> (Inl (os_error ''IsADirectoryError'' p), fs)
     | Some (File old) \<Rightarrow> (Inr (), log_access ''write'' p
         (fs\<lparr>fs_entries := AList.update p (File (if appending then old @ content else content)) (fs_entries fs)\<rparr>))
     | _ \<Rightarrow> (Inr (), log_access ''write'' p
         (fs\<lparr>fs_entries := AList.update p (File content) (fs_entries fs)\<rparr>)))"

section \<open>Resolved paths have no links\<close>

definition link_free :: "files \<Rightarrow> path \<Rightarrow> bool" where
  "link_free fs p \<longleftrightarrow> (\<forall>i < length p. \<nexists>t. lookup_entry fs (take (Suc i) p) = Some (Link t)) \<and>
     ''..'' \<notin> set p \<and> (\<forall>c \<in> set p. CHR 0x00 \<notin> set c)"

lemma link_free_Nil [simp]: "link_free fs []"
  by (simp add: link_free_def)

lemma link_free_snoc:
  "link_free fs (p @ [c]) \<longleftrightarrow> link_free fs p \<and> c \<noteq> ''..'' \<and> CHR 0x00 \<notin> set c \<and>
     (\<nexists>t. lookup_entry fs (p @ [c]) = Some (Link t))"
  by (auto simp: link_free_def less_Suc_eq)

lemma link_free_butlast: "link_free fs p \<Longrightarrow> link_free fs (butlast p)"
  by (cases p rule: rev_cases) (simp_all add: link_free_snoc)

lemma link_free_prefix: "link_free fs (p @ q) \<Longrightarrow> link_free fs p"
  by (induction q rule: rev_induct) (auto simp: link_free_snoc simp flip: append_assoc)

lemma walk_link_free: "walk fs n cur p = Inr q \<Longrightarrow> link_free fs cur \<Longrightarrow> link_free fs q"
proof (induction fs n cur p rule: walk.induct)
  case (1 fs n cur)
  then show ?case by simp
next
  case (2 fs n cur c rest)
  then show ?case
    by (auto simp: link_free_snoc intro: link_free_butlast split: if_splits option.splits entry.splits nat.splits)
qed

lemma walk_of_link_free:
  "link_free fs (cur @ p) \<Longrightarrow> walk fs n cur p = Inr (cur @ p)"
proof (induction p arbitrary: cur)
  case Nil
  then show ?case by simp
next
  case (Cons c p)
  then have "link_free fs (cur @ [c])" using link_free_prefix [of fs "cur @ [c]" p] by simp
  then have "c \<noteq> ''..''" "CHR 0x00 \<notin> set c" "\<nexists>t. lookup_entry fs (cur @ [c]) = Some (Link t)"
    by (simp_all add: link_free_snoc)
  with Cons.IH [of "cur @ [c]"] Cons.prems show ?case
    by (auto split: option.splits entry.splits)
qed

text \<open>Resolving is idempotent, and an access to a resolved path reaches just this path.\<close>

lemma resolve_link_free: "resolve_path fs p = Inr q \<Longrightarrow> link_free fs q"
  unfolding resolve_path_def using walk_link_free by (metis link_free_Nil)

lemma resolve_of_link_free: "link_free fs q \<Longrightarrow> resolve_path fs q = Inr q"
  unfolding resolve_path_def using walk_of_link_free [of fs "[]" q] by simp

lemma reached_of_link_free: "link_free fs q \<Longrightarrow> reached fs q = map_option (\<lambda>e. (q, e)) (lookup_entry fs q)"
  by (simp add: reached_def resolve_of_link_free)

end
