(* ===== verification/Tool_Files.thy ===== *)
theory Tool_Files
  imports Tool_Paths
begin

text \<open>
  The tools that work on files (\<open>core/agent_tools/adapters/filesystem.py\<close>,
  \<open>core/agent_tools/common.py\<close>) and the definition of a tool
  (\<open>AgentToolDefinitionConfig\<close> in \<open>core/config/models.py\<close>).

  A tool answers with a dictionary; what it raises is turned into one by the executor. Pattern
  matching of \<open>pathlib\<close> and \<open>re\<close> are functions of a record; files hold texts.
\<close>

section \<open>Configuration and results\<close>

record tool_def =
  tl_type :: string
  tl_description :: string
  tl_command :: "string list option"
  tl_path :: "string option"
  tl_method :: "string option"
  tl_url :: "string option"
  tl_timeout :: "rat option"
  tl_glob :: "string option"
  tl_recursive :: bool
  tl_max_depth :: nat
  tl_max_entries :: nat
  tl_include_hidden :: bool
  tl_case_sensitive :: bool
  tl_regex :: bool
  tl_max_matches :: nat
  tl_max_file_bytes :: nat
  tl_max_response_bytes :: nat
  tl_max_lines :: nat
  tl_max_commits :: nat
  tl_allowed_domains :: "string list"
  tl_strip_html :: bool
  tl_paths :: "string list"
  tl_write_mode :: string
  tl_max_write_bytes :: nat
  tl_parameters :: pydict

record tools_config =
  tc_enabled :: bool
  tc_max_iterations :: int
  tc_timeout :: rat
  tc_verification :: string
  tc_max_retries :: nat
  tc_safe_roots :: "string list"
  tc_tools :: "(string \<times> tool_def) list"

record matchers =
  mt_glob :: "files \<Rightarrow> path \<Rightarrow> string \<Rightarrow> exn + path list"
  mt_regex :: "string \<Rightarrow> bool \<Rightarrow> exn + (string \<Rightarrow> bool)"

definition tool_error :: "string \<Rightarrow> pydict" where
  "tool_error msg = [(''ok'', PBool False), (''error'', PStr msg)]"

definition max_result_chars :: nat where
  "max_result_chars = 8000"

definition truncate_text :: "string \<Rightarrow> nat \<Rightarrow> string" where
  "truncate_text s limit = (if length s \<le> limit then s else take limit s @ ''...[truncated]'')"

text \<open>\<open>text.splitlines()\<close>.\<close>

definition line_break :: "char \<Rightarrow> bool" where
  "line_break c = (let n = char_nat c in (10 \<le> n \<and> n \<le> 13) \<or> (28 \<le> n \<and> n \<le> 30) \<or> n = 133)"

fun split_lines :: "string \<Rightarrow> string \<Rightarrow> string list" where
  "split_lines line [] = (if line = [] then [] else [rev line])"
| "split_lines line (c # s) =
     (if line_break c
      then rev line # (case s of
             d # s' \<Rightarrow> if c = CHR 0x0D \<and> d = CHR 0x0A then split_lines [] s' else split_lines [] s
           | [] \<Rightarrow> [])
      else split_lines (c # line) s)"

definition splitlines :: "string \<Rightarrow> string list" where
  "splitlines s = split_lines [] s"

section \<open>Confinement\<close>

fun resolve_all :: "files \<Rightarrow> string list \<Rightarrow> exn + path list" where
  "resolve_all fs [] = Inr []"
| "resolve_all fs (r # rs) = bindE (resolve fs r) (\<lambda>p. bindE (resolve_all fs rs) (\<lambda>ps. Inr (p # ps)))"

text \<open>\<open>not roots or not any(is_relative_to(resolved, root) for root in roots)\<close>.\<close>

definition outside_roots :: "path list \<Rightarrow> path \<Rightarrow> bool" where
  "outside_roots bases p = (bases = [] \<or> \<not> list_ex (is_relative_to p) bases)"

definition safe_roots :: "tools_config \<Rightarrow> (files, path list) eff" where
  "safe_roots cfg = (\<lambda>fs. (resolve_all fs (tc_safe_roots cfg), fs))"

definition resolved :: "string \<Rightarrow> (files, path) eff" where
  "resolved s = (\<lambda>fs. (resolve fs s, fs))"

definition ask :: "(files \<Rightarrow> 'a) \<Rightarrow> (files, 'a) eff" where
  "ask f = (\<lambda>fs. (Inr (f fs), fs))"

definition answer :: "pydict \<Rightarrow> (files, pydict) eff" where
  "answer d = ret d"

definition refuse :: "string \<Rightarrow> (files, pydict) eff" where
  "refuse msg = ret (tool_error msg)"

section \<open>Reading\<close>

definition location :: "string \<Rightarrow> int \<Rightarrow> int \<Rightarrow> pyval" where
  "location p start_line end_line =
     PDict [(''path'', PStr p), (''start_line'', PInt start_line), (''end_line'', PInt end_line)]"

definition locations_for_range :: "string \<Rightarrow> int \<Rightarrow> int \<Rightarrow> pyval list" where
  "locations_for_range p start_line end_line =
     (if end_line < start_line then [] else [location p start_line end_line])"

definition file_read :: "tools_config \<Rightarrow> tool_def \<Rightarrow> pydict \<Rightarrow> (files, pydict) eff" where
  "file_read cfg tool args =
     (case tl_path tool of
        None \<Rightarrow> refuse ''file_read tool has no path''
      | Some text \<Rightarrow>
          seqE (resolved text) (\<lambda>p.
          seqE (safe_roots cfg) (\<lambda>bases.
            if outside_roots bases p
            then refuse (''file path is outside configured safe roots: '' @ path_str p)
            else seqE (read_text p) (\<lambda>content.
              answer [(''ok'', PBool True), (''content'', PStr (truncate_text content max_result_chars)),
                (''locations'', PList (locations_for_range (path_str p) 1 (int (length (splitlines content)))))]))))"

text \<open>The range of lines asked for: \<open>Inl\<close> of a message when it is not one.\<close>

definition optional_positive_int :: "pyval \<Rightarrow> string \<Rightarrow> string + int option" where
  "optional_positive_int v name = (case v of
       PNone \<Rightarrow> Inr None
     | PInt i \<Rightarrow> if i < 1 then Inl (name @ '' must be greater than or equal to 1'') else Inr (Some i)
     | _ \<Rightarrow> Inl (name @ '' must be an integer''))"

definition read_line_range :: "pydict \<Rightarrow> string + (int option \<times> int option)" where
  "read_line_range args =
     bindE (optional_positive_int (dget args ''start_line'') ''start_line'') (\<lambda>a.
     bindE (optional_positive_int (dget args ''end_line'') ''end_line'') (\<lambda>b.
       case (a, b) of
         (Some i, Some j) \<Rightarrow>
           if j < i then Inl ''end_line must be greater than or equal to start_line'' else Inr (a, b)
       | _ \<Rightarrow> Inr (a, b)))"

definition select_range :: "string \<Rightarrow> int option \<Rightarrow> int option \<Rightarrow> string + (string \<times> int \<times> int)" where
  "select_range content a b =
     (let lines = splitlines content; count = int (length lines) in
      case (a, b) of
        (None, None) \<Rightarrow> Inr (content, 1, count)
      | _ \<Rightarrow>
          let first_line = (case a of None \<Rightarrow> 1 | Some i \<Rightarrow> i);
              last_line = (case b of None \<Rightarrow> count | Some j \<Rightarrow> j)
          in if first_line > count
             then Inl (''start_line '' @ str_int first_line @ '' exceeds file line count '' @ str_int count)
             else if last_line > count
             then Inl (''end_line '' @ str_int last_line @ '' exceeds file line count '' @ str_int count)
             else Inr (join [CHR 0x0A] (take (nat last_line - nat (first_line - 1)) (drop (nat (first_line - 1)) lines)),
                       first_line, last_line))"

definition file_read_dynamic :: "tools_config \<Rightarrow> tool_def \<Rightarrow> pydict \<Rightarrow> (files, pydict) eff" where
  "file_read_dynamic cfg tool args =
     (case tl_path tool of
        None \<Rightarrow> refuse ''file_read_dynamic tool has no path''
      | Some text \<Rightarrow>
     (case dget args ''path'' of
        PStr requested \<Rightarrow>
          if strip requested = [] then refuse ''file_read_dynamic requires a non-empty 'path' argument''
          else
          seqE (resolved text) (\<lambda>base.
          seqE (ask (\<lambda>fs. (path_exists fs base, is_dir fs base))) (\<lambda>(there, dir).
          if \<not> there then refuse (''root directory does not exist: '' @ path_str base)
          else if \<not> dir then refuse (''root path is not a directory: '' @ path_str base)
          else let relative = strip requested in
          if is_absolute relative then refuse ''file_read_dynamic path must be relative''
          else
          seqE (\<lambda>fs. (resolve_path fs (base @ path_parts relative), fs)) (\<lambda>p.
          if \<not> is_relative_to p base then refuse (''file path is outside configured root: '' @ path_str p)
          else
          seqE (safe_roots cfg) (\<lambda>bases.
          if outside_roots bases p
          then refuse (''file path is outside configured safe roots: '' @ path_str p)
          else
          seqE (ask (\<lambda>fs. (path_exists fs p, is_file fs p, file_size fs p))) (\<lambda>(there, file, size).
          if \<not> there then refuse (''file does not exist: '' @ path_str p)
          else if \<not> file then refuse (''path is not a file: '' @ path_str p)
          else if size > tl_max_file_bytes tool
          then refuse (''file exceeds max_file_bytes ('' @ nat_digits (tl_max_file_bytes tool) @ ''): '' @
                 path_str p)
          else (case read_line_range args of
              Inl msg \<Rightarrow> refuse msg
            | Inr (a, b) \<Rightarrow>
                seqE (read_text p) (\<lambda>content.
                case select_range content a b of
                  Inl msg \<Rightarrow> refuse msg
                | Inr (selected, i, j) \<Rightarrow>
                    answer [(''ok'', PBool True), (''path'', PStr (path_str p)),
                      (''content'', PStr (truncate_text selected max_result_chars)),
                      (''locations'', PList (locations_for_range (path_str p) i j))])))))))
      | _ \<Rightarrow> refuse ''file_read_dynamic requires a non-empty 'path' argument''))"

definition byte_lines :: "string \<Rightarrow> string list" where
  "byte_lines s = (let ls = split_on CHR 0x0A s in if last ls = [] then butlast ls else ls)"

definition max_line_chars :: nat where
  "max_line_chars = 500"

definition read_tail :: "path \<Rightarrow> nat \<Rightarrow> (files, string list \<times> nat) eff" where
  "read_tail p max_lines = seqE (read_text p) (\<lambda>content.
     let ls = byte_lines content
     in ret (map (take max_line_chars) (drop (length ls - max_lines) ls), length ls))"

definition log_tail :: "tools_config \<Rightarrow> tool_def \<Rightarrow> pydict \<Rightarrow> (files, pydict) eff" where
  "log_tail cfg tool args =
     (case tl_path tool of
        None \<Rightarrow> refuse ''log_tail tool has no path''
      | Some text \<Rightarrow>
          seqE (resolved text) (\<lambda>p.
          seqE (safe_roots cfg) (\<lambda>bases.
          if outside_roots bases p then refuse (''log path is outside configured safe roots: '' @ path_str p)
          else seqE (ask (\<lambda>fs. (path_exists fs p, is_file fs p))) (\<lambda>(there, file).
          if \<not> there then refuse (''log file does not exist: '' @ path_str p)
          else if \<not> file then refuse (''path is not a file: '' @ path_str p)
          else seqE (read_tail p (tl_max_lines tool)) (\<lambda>(lines, count).
            answer [(''ok'', PBool True), (''path'', PStr (path_str p)), (''lines'', PList (map PStr lines)),
              (''total_lines'', PInt (int count)), (''truncated'', PBool (count > tl_max_lines tool))])))))"

section \<open>Writing\<close>

definition write_file :: "path \<Rightarrow> string \<Rightarrow> bool \<Rightarrow> (files, unit) eff" where
  "write_file p content appending =
     seqE (make_dirs [] (butlast p)) (\<lambda>_. put_text p content appending)"

definition file_write :: "tools_config \<Rightarrow> tool_def \<Rightarrow> pydict \<Rightarrow> (files, pydict) eff" where
  "file_write cfg tool args =
     (case tl_path tool of
        None \<Rightarrow> refuse ''file_write tool has no path''
      | Some text \<Rightarrow>
          seqE (resolved text) (\<lambda>p.
          seqE (safe_roots cfg) (\<lambda>bases.
          if outside_roots bases p then refuse (''file path is outside configured safe roots: '' @ path_str p)
          else let content = (if truthy (dget args ''content'') then py_str (dget args ''content'') else [])
          in if content = [] then refuse ''file_write requires a 'content' argument''
          else if utf8_length content > tl_max_write_bytes tool
          then refuse (''content exceeds max_write_bytes ('' @ nat_digits (tl_max_write_bytes tool) @ '')'')
          else seqE (ask (\<lambda>fs. path_exists fs p)) (\<lambda>there.
          if tl_write_mode tool = ''create_only'' \<and> there
          then refuse (''file already exists and write_mode is create_only: '' @ path_str p)
          else seqE (write_file p content (tl_write_mode tool = ''append'')) (\<lambda>_.
            answer [(''ok'', PBool True), (''path'', PStr (path_str p)),
              (''bytes_written'', PInt (int (utf8_length content))), (''mode'', PStr (tl_write_mode tool))])))))"

section \<open>Listing and searching\<close>

text \<open>What the three tools on a directory check first.\<close>

definition with_directory ::
  "tools_config \<Rightarrow> string \<Rightarrow> (path \<Rightarrow> (files, pydict) eff) \<Rightarrow> (files, pydict) eff" where
  "with_directory cfg text body =
     seqE (resolved text) (\<lambda>base.
     seqE (safe_roots cfg) (\<lambda>bases.
     if outside_roots bases base
     then refuse (''directory path is outside configured safe roots: '' @ path_str base)
     else seqE (ask (\<lambda>fs. (path_exists fs base, is_dir fs base))) (\<lambda>(there, dir).
     if \<not> there then refuse (''directory does not exist: '' @ path_str base)
     else if \<not> dir then refuse (''path is not a directory: '' @ path_str base)
     else body base)))"

fun list_children ::
  "files \<Rightarrow> tool_def \<Rightarrow> path \<Rightarrow> nat \<Rightarrow> path list \<Rightarrow> pyval list \<Rightarrow> (path \<times> nat) list
     \<Rightarrow> pyval list \<times> (path \<times> nat) list \<times> bool" where
  "list_children fs tool base depth [] entries pending = (entries, pending, False)"
| "list_children fs tool base depth (child # cs) entries pending =
     (if \<not> tl_include_hidden tool \<and> starts_with ''.'' (last child)
      then list_children fs tool base depth cs entries pending
      else if length entries \<ge> tl_max_entries tool then (entries, pending, True)
      else list_children fs tool base depth cs
             (entries @ [PDict [(''path'', PStr (join ''/'' (relative_to child base))),
                (''type'', PStr (if is_dir fs child then ''directory'' else ''file''))]])
             (if tl_recursive tool \<and> is_dir fs child \<and> depth < tl_max_depth tool
              then pending @ [(child, depth + 1)] else pending))"

text \<open>Each directory that is put on the list was itself an entry, so the limit of the entries bounds
  the loop, however the links of the file system point at each other.\<close>

lemma list_children_measure:
  "list_children fs tool base depth cs entries pending = (entries', pending', stop) \<Longrightarrow>
   length pending' + (tl_max_entries tool - length entries') \<le> length pending + (tl_max_entries tool - length entries)"
  by (induction fs tool base depth cs entries pending rule: list_children.induct)
    (fastforce split: if_splits)+

function list_directory_entries ::
  "tool_def \<Rightarrow> path \<Rightarrow> (path \<times> nat) list \<Rightarrow> pyval list \<Rightarrow> files \<Rightarrow> (exn + (pyval list \<times> bool)) \<times> files" where
  "list_directory_entries tool base [] entries fs = (Inr (entries, False), fs)"
| "list_directory_entries tool base ((current, depth) # pending) entries fs =
     (case iterdir current fs of
        (Inl e, fs') \<Rightarrow> (Inl e, fs')
      | (Inr found, fs') \<Rightarrow>
          (case list_children fs' tool base depth (sort_key (\<lambda>p. lower (last p)) found) entries pending of
             (entries', pending', True) \<Rightarrow> (Inr (entries', True), fs')
           | (entries', pending', False) \<Rightarrow> list_directory_entries tool base pending' entries' fs'))"
  by pat_completeness auto
termination
  by (relation "measure (\<lambda>(tool, base, pending, entries, fs).
        length pending + (tl_max_entries tool - length entries))")
    (auto dest!: sym [of "(_, _, False)"] dest: list_children_measure)

definition directory_list :: "tools_config \<Rightarrow> tool_def \<Rightarrow> pydict \<Rightarrow> (files, pydict) eff" where
  "directory_list cfg tool args =
     (case tl_path tool of
        None \<Rightarrow> refuse ''directory_list tool has no path''
      | Some text \<Rightarrow> with_directory cfg text (\<lambda>base.
          seqE (list_directory_entries tool base [(base, 0)] []) (\<lambda>(entries, cut).
            answer [(''ok'', PBool True), (''root'', PStr (path_str base)), (''entries'', PList entries),
              (''truncated'', PBool cut)])))"

definition hidden :: "tool_def \<Rightarrow> path \<Rightarrow> bool" where
  "hidden tool rel = (\<not> tl_include_hidden tool \<and> list_ex (starts_with ''.'') rel)"

text \<open>The candidates of a search; a pattern that \<open>pathlib\<close> refuses gives \<open>None\<close>.\<close>

definition glob_candidates :: "matchers \<Rightarrow> path \<Rightarrow> string \<Rightarrow> (files, path list option) eff" where
  "glob_candidates mt base pattern = (\<lambda>fs.
     case mt_glob mt fs base pattern of
       Inr ps \<Rightarrow> (Inr (Some (sort_key path_str ps)), fs)
     | Inl e \<Rightarrow> if exn_type e \<in> {''ValueError'', ''NotImplementedError''} then (Inr None, fs) else (Inl e, fs))"

fun search_files :: "files \<Rightarrow> tool_def \<Rightarrow> path \<Rightarrow> path list \<Rightarrow> string list \<Rightarrow> string list \<times> bool" where
  "search_files fs tool base [] found = (found, False)"
| "search_files fs tool base (p # ps) found =
     (if \<not> is_file fs p \<or> hidden tool (relative_to p base) then search_files fs tool base ps found
      else if length found \<ge> tl_max_entries tool then (found, True)
      else search_files fs tool base ps (found @ [join ''/'' (relative_to p base)]))"

definition no_glob :: "tool_def \<Rightarrow> bool" where
  "no_glob tool = (case tl_glob tool of None \<Rightarrow> True | Some g \<Rightarrow> g = [])"

definition file_search :: "matchers \<Rightarrow> tools_config \<Rightarrow> tool_def \<Rightarrow> pydict \<Rightarrow> (files, pydict) eff" where
  "file_search mt cfg tool args =
     (case tl_path tool of
        None \<Rightarrow> refuse ''file_search tool has no path''
      | Some text \<Rightarrow>
          if no_glob tool then refuse ''file_search tool has no glob''
          else with_directory cfg text (\<lambda>base.
            seqE (glob_candidates mt base (the (tl_glob tool))) (\<lambda>cands.
            seqE (ask (\<lambda>fs. case cands of None \<Rightarrow> ([], False) | Some ps \<Rightarrow> search_files fs tool base ps []))
              (\<lambda>(found, cut).
              answer [(''ok'', PBool True), (''root'', PStr (path_str base)), (''matches'', PList (map PStr found)),
                (''truncated'', PBool cut)]))))"

definition match_value :: "string \<Rightarrow> nat \<Rightarrow> string \<Rightarrow> pyval" where
  "match_value rel line_no line = PDict [(''file'', PStr rel), (''line'', PInt (int line_no)),
     (''text'', PStr (truncate_text (rev (dropWhile is_space (rev line))) max_line_chars))]"

text \<open>The matching lines of one text; \<open>True\<close> when there was one too many.\<close>

fun search_lines ::
  "tool_def \<Rightarrow> (string \<Rightarrow> bool) \<Rightarrow> string \<Rightarrow> nat \<Rightarrow> string list \<Rightarrow> (string \<times> nat \<times> string) list
     \<Rightarrow> (string \<times> nat \<times> string) list \<times> bool" where
  "search_lines tool hit rel line_no [] found = (found, False)"
| "search_lines tool hit rel line_no (line # ls) found =
     (if \<not> hit line then search_lines tool hit rel (Suc line_no) ls found
      else if length found \<ge> tl_max_matches tool then (found, True)
      else search_lines tool hit rel (Suc line_no) ls (found @ [(rel, line_no, line)]))"

text \<open>\<open>b"\x00" in data[:512]\<close>, of the encoded text.\<close>

definition nul_in_header :: "string \<Rightarrow> bool" where
  "nul_in_header content = (let before = takeWhile (\<lambda>c. c \<noteq> CHR 0x00) content
     in before \<noteq> content \<and> utf8_length before < 512)"

fun search_text ::
  "tool_def \<Rightarrow> (string \<Rightarrow> bool) \<Rightarrow> path \<Rightarrow> path list \<Rightarrow> (string \<times> nat \<times> string) list \<Rightarrow> files
     \<Rightarrow> ((string \<times> nat \<times> string) list \<times> bool) \<times> files" where
  "search_text tool hit base [] found fs = ((found, False), fs)"
| "search_text tool hit base (p # ps) found fs =
     (if \<not> is_file fs p \<or> hidden tool (relative_to p base) \<or> file_size fs p > tl_max_file_bytes tool
      then search_text tool hit base ps found fs
      else case read_text p fs of
          (Inl e, fs') \<Rightarrow> search_text tool hit base ps found fs'
        | (Inr content, fs') \<Rightarrow>
            if nul_in_header content then search_text tool hit base ps found fs'
            else (case search_lines tool hit (join ''/'' (relative_to p base)) 1 (splitlines content) found of
                (found', True) \<Rightarrow> ((found', True), fs')
              | (found', False) \<Rightarrow> search_text tool hit base ps found' fs'))"

definition line_test :: "tool_def \<Rightarrow> string \<Rightarrow> (string \<Rightarrow> bool) option \<Rightarrow> string \<Rightarrow> bool" where
  "line_test tool query pattern line =
     (case pattern of
        Some f \<Rightarrow> f line
      | None \<Rightarrow> if tl_case_sensitive tool then contains query line else contains (lower query) (lower line))"

definition text_search :: "matchers \<Rightarrow> tools_config \<Rightarrow> tool_def \<Rightarrow> pydict \<Rightarrow> (files, pydict) eff" where
  "text_search mt cfg tool args =
     (case dget args ''query'' of
        PStr query \<Rightarrow>
          if query = [] then refuse ''text_search requires a non-empty 'query' argument''
          else (case (if tl_regex tool then map_sum id Some (mt_regex mt query (\<not> tl_case_sensitive tool))
                      else Inr None) of
              Inl e \<Rightarrow> refuse (''invalid regex: '' @ exn_text e)
            | Inr pattern \<Rightarrow>
                (case tl_path tool of
                   None \<Rightarrow> refuse ''text_search tool has no path''
                 | Some text \<Rightarrow>
                     if no_glob tool then refuse ''text_search tool has no glob''
                     else with_directory cfg text (\<lambda>base.
                       seqE (glob_candidates mt base (the (tl_glob tool))) (\<lambda>cands.
                       seqE (\<lambda>fs. case (case cands of None \<Rightarrow> (([], False), fs)
                               | Some ps \<Rightarrow> search_text tool (line_test tool query pattern) base ps [] fs) of
                             (r, fs') \<Rightarrow> (Inr r, fs')) (\<lambda>(found, cut).
                         answer [(''ok'', PBool True), (''root'', PStr (path_str base)), (''query'', PStr query),
                           (''matches'', PList (map (\<lambda>(f, n, l). match_value f n l) found)),
                           (''locations'', PList (map (\<lambda>(f, n, l). location f (int n) (int n)) found)),
                           (''truncated'', PBool cut)])))))
      | _ \<Rightarrow> refuse ''text_search requires a non-empty 'query' argument'')"

end
