(* ===== verification/Tool_Safety.thy ===== *)
theory Tool_Safety
  imports Tool_Files
begin

text \<open>
  What the file tools touch. \<open>grows ok fs m\<close> says that the accesses that \<open>m\<close> adds to the log of
  \<open>fs\<close> are all \<open>ok\<close>; its rules follow the composition of the code. The tools that open a resolved path
  stay inside the configured roots. The tools that walk a directory do so when it holds no
  links; the last section shows that links lead them out.
\<close>

section \<open>Accesses that are allowed\<close>

definition grows :: "(string \<times> path \<Rightarrow> bool) \<Rightarrow> files \<Rightarrow> (files, 'a) eff \<Rightarrow> bool" where
  "grows ok fs m \<longleftrightarrow> (\<exists>l. fs_log (snd (m fs)) = fs_log fs @ l \<and> (\<forall>a \<in> set l. ok a))"

named_theorems grows_rules

lemma grows_refl: "fs_log (snd (m fs)) = fs_log fs \<Longrightarrow> grows ok fs m"
  by (simp add: grows_def)

lemma grows_queries [grows_rules]:
  "grows ok fs (ret x)" "grows ok fs (raise_exn e)" "grows ok fs (refuse msg)" "grows ok fs (answer d)"
  "grows ok fs (ask f)" "grows ok fs (resolved s)" "grows ok fs (safe_roots cfg)"
  by (simp_all add: grows_def ret_def raise_exn_def refuse_def answer_def ask_def resolved_def safe_roots_def)

lemma grows_seq:
  assumes "grows ok fs m" "\<And>x fs'. m fs = (Inr x, fs') \<Longrightarrow> grows ok fs' (f x)"
  shows "grows ok fs (seqE m f)"
proof (cases "m fs")
  case (Pair r fs')
  from assms(1) Pair obtain l where l: "fs_log fs' = fs_log fs @ l" "\<forall>a \<in> set l. ok a" by (auto simp: grows_def)
  show ?thesis
  proof (cases r)
    case (Inl e)
    with Pair l show ?thesis by (auto simp: grows_def seqE_def)
  next
    case (Inr x)
    with assms(2) Pair obtain k where "fs_log (snd (f x fs')) = fs_log fs' @ k" "\<forall>a \<in> set k. ok a"
      by (auto simp: grows_def)
    with Pair Inr l show ?thesis
      by (auto simp: grows_def seqE_def intro!: exI [of _ "l @ k"])
  qed
qed

text \<open>After a query the state is the same, and what the query answered is known.\<close>

lemma grows_ask: "grows ok fs (f (g fs)) \<Longrightarrow> grows ok fs (seqE (ask g) f)"
  by (rule grows_seq, rule grows_queries) (simp add: ask_def)

lemma grows_resolved:
  "(\<And>p. resolve fs s = Inr p \<Longrightarrow> grows ok fs (f p)) \<Longrightarrow> grows ok fs (seqE (resolved s) f)"
  by (rule grows_seq, rule grows_queries) (simp add: resolved_def)

lemma grows_resolve_path:
  "(\<And>p. resolve_path fs q = Inr p \<Longrightarrow> grows ok fs (f p)) \<Longrightarrow> grows ok fs (seqE (\<lambda>fs. (resolve_path fs q, fs)) f)"
  by (rule grows_seq) (auto intro: grows_refl)

lemma grows_safe_roots:
  "(\<And>bs. resolve_all fs (tc_safe_roots cfg) = Inr bs \<Longrightarrow> grows ok fs (f bs)) \<Longrightarrow>
   grows ok fs (seqE (safe_roots cfg) f)"
  by (rule grows_seq, rule grows_queries) (simp add: safe_roots_def)

section \<open>What inside means\<close>

definition inside :: "files \<Rightarrow> tools_config \<Rightarrow> path \<Rightarrow> bool" where
  "inside fs cfg p \<longleftrightarrow>
     (\<exists>s \<in> set (tc_safe_roots cfg). \<exists>base. resolve fs s = Inr base \<and> is_relative_to p base)"

text \<open>Directories are made on the way to a file that is inside.\<close>

definition permitted :: "files \<Rightarrow> tools_config \<Rightarrow> string \<times> path \<Rightarrow> bool" where
  "permitted fs cfg a \<longleftrightarrow> inside fs cfg (snd a) \<or>
     (fst a = ''mkdir'' \<and> (\<exists>p. inside fs cfg p \<and> is_relative_to p (snd a)))"

lemma resolve_all_mem:
  "resolve_all fs ss = Inr bs \<Longrightarrow> b \<in> set bs \<Longrightarrow> \<exists>s \<in> set ss. resolve fs s = Inr b"
  by (induction ss arbitrary: bs) (auto simp: res_iff)

lemma inside_roots:
  "resolve_all fs (tc_safe_roots cfg) = Inr bs \<Longrightarrow> \<not> outside_roots bs p \<Longrightarrow> inside fs cfg p"
  by (auto simp: outside_roots_def list_ex_iff inside_def dest!: resolve_all_mem)

lemma inside_below: "inside fs cfg p \<Longrightarrow> is_relative_to q p \<Longrightarrow> inside fs cfg q"
  unfolding inside_def is_relative_to_iff by (metis append.assoc)

section \<open>Single accesses\<close>

lemma read_text_log:
  assumes "link_free fs p"
  shows "snd (read_text p fs) = fs \<or> snd (read_text p fs) = log_access ''read'' p fs"
  using assms by (auto simp: read_text_def reached_of_link_free split: option.splits entry.splits)

lemma grows_read: "link_free fs p \<Longrightarrow> ok (''read'', p) \<Longrightarrow> grows ok fs (read_text p)"
  using read_text_log [of fs p] by (auto simp: grows_def log_access_def)

lemma make_dirs_log:
  "grows (\<lambda>a. fst a = ''mkdir'' \<and> is_relative_to (cur @ p) (snd a)) fs (make_dirs cur p)"
proof (induction p arbitrary: cur fs)
  case Nil
  then show ?case by (simp add: grows_rules)
next
  case (Cons c p)
  show ?case
  proof (cases "lookup_entry fs (cur @ [c])")
    case None
    let ?fs = "log_access ''mkdir'' (cur @ [c]) (fs\<lparr>fs_entries := (cur @ [c], Dir) # fs_entries fs\<rparr>)"
    from Cons.IH [of "cur @ [c]" ?fs] obtain l where
      "fs_log (snd (make_dirs (cur @ [c]) p ?fs)) = fs_log ?fs @ l"
      "\<forall>a \<in> set l. fst a = ''mkdir'' \<and> is_relative_to ((cur @ [c]) @ p) (snd a)" by (auto simp: grows_def)
    moreover have "fs_log ?fs = fs_log fs @ [(''mkdir'', cur @ [c])]" by (simp add: log_access_def)
    ultimately show ?thesis using None
      by (auto simp: grows_def is_relative_to_iff intro!: exI [of _ "(''mkdir'', cur @ [c]) # l"])
  next
    case (Some e)
    with Cons.IH [of "cur @ [c]" fs] show ?thesis by (cases e) (auto simp: grows_def)
  qed
qed

lemma grows_mono: "grows ok fs m \<Longrightarrow> (\<And>a. ok a \<Longrightarrow> ok' a) \<Longrightarrow> grows ok' fs m"
  unfolding grows_def by blast

lemma put_text_log: "grows (\<lambda>a. a = (''write'', p)) fs (put_text p content appending)"
  by (auto simp: grows_def put_text_def log_access_def split: option.splits entry.splits)

lemma grows_write_file:
  assumes "inside fs0 cfg p"
  shows "grows (permitted fs0 cfg) fs (write_file p content appending)"
proof -
  have up: "is_relative_to p a" if "is_relative_to ([] @ butlast p) a" for a
    using that unfolding is_relative_to_iff
    by (cases p rule: rev_cases) auto
  have "grows (permitted fs0 cfg) fs (make_dirs [] (butlast p))"
    by (rule grows_mono [OF make_dirs_log]) (use assms up in \<open>auto simp: permitted_def\<close>)
  moreover have "grows (permitted fs0 cfg) fs' (put_text p content appending)" for fs'
    by (rule grows_mono [OF put_text_log]) (use assms in \<open>auto simp: permitted_def\<close>)
  ultimately show ?thesis unfolding write_file_def by (rule grows_seq)
qed

section \<open>The tools that open a resolved path\<close>

lemma resolve_free: "resolve fs s = Inr p \<Longrightarrow> link_free fs p"
  unfolding resolve_def by (rule resolve_link_free)

lemma grows_if: "(b \<Longrightarrow> grows ok fs m) \<Longrightarrow> (\<not> b \<Longrightarrow> grows ok fs n) \<Longrightarrow> grows ok fs (if b then m else n)"
  by simp

lemma file_read_grows: "grows (permitted fs cfg) fs (file_read cfg tool args)"
proof (cases "tl_path tool")
  case None
  then show ?thesis by (simp add: file_read_def grows_rules)
next
  case (Some t)
  show ?thesis
    unfolding file_read_def Some option.case
    by (intro grows_resolved grows_safe_roots grows_if grows_rules grows_seq [OF grows_read])
      (auto dest: resolve_free inside_roots simp: permitted_def)
qed

lemma log_tail_grows: "grows (permitted fs cfg) fs (log_tail cfg tool args)"
proof (cases "tl_path tool")
  case None
  then show ?thesis by (simp add: log_tail_def grows_rules)
next
  case (Some t)
  have read: "grows (permitted fs cfg) fs (read_tail p n)" if "link_free fs p" "inside fs cfg p" for p n
    unfolding read_tail_def Let_def
    by (intro grows_seq [OF grows_read] grows_rules that) (simp add: permitted_def that)
  show ?thesis
    unfolding log_tail_def Some option.case
    by (intro grows_resolved grows_safe_roots grows_if grows_rules grows_ask)
      (auto intro!: grows_if grows_rules grows_seq [OF read] dest: resolve_free inside_roots split: prod.splits)
qed

lemma file_read_dynamic_grows: "grows (permitted fs cfg) fs (file_read_dynamic cfg tool args)"
proof (cases "tl_path tool")
  case None
  then show ?thesis by (simp add: file_read_dynamic_def grows_rules)
next
  case (Some t)
  have read: "grows (permitted fs cfg) fs (seqE (read_text p) (\<lambda>content.
      case select_range content a b of Inl msg \<Rightarrow> refuse msg | Inr (selected, i, j) \<Rightarrow> answer (d selected i j)))"
    if "link_free fs p" "inside fs cfg p" for p a b d
    by (rule grows_seq [OF grows_read])
      (use that in \<open>auto simp: permitted_def intro: grows_rules split: sum.splits\<close>)
  have "grows (permitted fs cfg) fs (file_read_dynamic cfg tool args)"
    if q: "dget args ''path'' = PStr requested" for requested
    unfolding file_read_dynamic_def Some option.case q pyval.case Let_def
    apply (intro grows_if grows_rules grows_resolved)
    apply (rule grows_ask, unfold prod.case)
    apply (intro grows_if grows_rules grows_resolve_path grows_safe_roots)
    apply (rule grows_ask, unfold prod.case)
    apply (intro grows_if grows_rules)
    apply (auto intro!: grows_rules read dest: inside_roots resolve_link_free split: sum.splits prod.splits)
    done
  then show ?thesis by (cases "dget args ''path''") (simp_all add: file_read_dynamic_def Some grows_rules)
qed

lemma file_write_grows: "grows (permitted fs cfg) fs (file_write cfg tool args)"
proof (cases "tl_path tool")
  case None
  then show ?thesis by (simp add: file_write_def grows_rules)
next
  case (Some t)
  show ?thesis
    unfolding file_write_def Some option.case Let_def
    by (intro grows_resolved grows_safe_roots grows_if grows_rules grows_ask grows_seq [OF grows_write_file])
      (auto dest: inside_roots)
qed

section \<open>The tools that walk a directory\<close>

lemma with_directory_grows:
  assumes "\<And>base. resolve fs t = Inr base \<Longrightarrow> link_free fs base \<Longrightarrow> inside fs cfg base \<Longrightarrow>
      grows (permitted fs cfg) fs (body base)"
  shows "grows (permitted fs cfg) fs (with_directory cfg t body)"
  unfolding with_directory_def
  apply (intro grows_resolved grows_safe_roots grows_if grows_rules)
  apply (rule grows_ask, unfold prod.case)
  apply (intro grows_if grows_rules assms)
    apply (auto dest: resolve_free inside_roots)
  done

lemma glob_candidates_same: "snd (glob_candidates mt base g fs) = fs"
  by (auto simp: glob_candidates_def split: sum.splits)

lemma grows_glob:
  assumes "\<And>c. fst (glob_candidates mt base g fs) = Inr c \<Longrightarrow> grows ok fs (f c)"
  shows "grows ok fs (seqE (glob_candidates mt base g) f)"
proof (rule grows_seq)
  show "grows ok fs (glob_candidates mt base g)" by (rule grows_refl) (simp add: glob_candidates_same)
  show "grows ok fs' (f x)" if "glob_candidates mt base g fs = (Inr x, fs')" for x fs'
    using that assms glob_candidates_same [of mt base g fs] by auto
qed

lemma file_search_grows: "grows (permitted fs cfg) fs (file_search mt cfg tool args)"
proof (cases "tl_path tool")
  case None
  then show ?thesis by (simp add: file_search_def grows_rules)
next
  case (Some t)
  show ?thesis
    unfolding file_search_def Some option.case
    by (intro grows_if grows_rules with_directory_grows grows_glob grows_ask)
      (auto intro: grows_rules split: prod.splits)
qed

text \<open>Below a directory without links, every path of plain names is its own place.\<close>

definition plain_below :: "files \<Rightarrow> path \<Rightarrow> bool" where
  "plain_below fs base \<longleftrightarrow> (\<forall>(q, e) \<in> set (fs_entries fs). is_relative_to q base \<longrightarrow>
     (\<nexists>t. e = Link t) \<and> ''..'' \<notin> set q \<and> (\<forall>c \<in> set q. CHR 0x00 \<notin> set c))"

definition same_entries :: "files \<Rightarrow> files \<Rightarrow> bool" where
  "same_entries fs fs' \<longleftrightarrow> fs_entries fs' = fs_entries fs \<and> fs_links fs' = fs_links fs"

lemma same_entries_log [simp]: "same_entries fs (log_access k q fs')  \<longleftrightarrow> same_entries fs fs'"
  by (simp add: same_entries_def log_access_def)

lemma link_free_same: "same_entries fs fs' \<Longrightarrow> link_free fs' p = link_free fs p"
  by (simp add: same_entries_def link_free_def lookup_entry_def)

lemma plain_no_link:
  assumes "plain_below fs base" "is_relative_to p base"
  shows "lookup_entry fs p \<noteq> Some (Link t)"
proof
  assume "lookup_entry fs p = Some (Link t)"
  then have "(p, Link t) \<in> set (fs_entries fs)" by (auto simp: lookup_entry_def map_of_SomeD split: if_splits)
  with assms show False unfolding plain_below_def by blast
qed

lemma plain_link_free:
  assumes "plain_below fs base" "link_free fs base"
  shows "''..'' \<notin> set rel \<Longrightarrow> (\<forall>c \<in> set rel. CHR 0x00 \<notin> set c) \<Longrightarrow> link_free fs (base @ rel)"
proof (induction rel rule: rev_induct)
  case Nil
  then show ?case by (simp add: assms)
next
  case (snoc c rel)
  have "\<nexists>t. lookup_entry fs (base @ rel @ [c]) = Some (Link t)"
    using plain_no_link [OF assms(1)] by (simp add: is_relative_to_iff)
  with snoc show ?case by (auto simp: link_free_snoc simp flip: append_assoc)
qed

lemma iterdir_link_free:
  assumes "link_free fs p" "iterdir p fs = (r, fs')"
  shows "fs' = fs \<or> fs' = log_access ''list'' p fs"
    "r = Inr found \<Longrightarrow> c \<in> set found \<Longrightarrow> \<exists>n e. c = p @ [n] \<and> (p @ [n], e) \<in> set (fs_entries fs)"
proof -
  from assms show "fs' = fs \<or> fs' = log_access ''list'' p fs"
    by (auto simp: iterdir_def reached_of_link_free split: option.splits entry.splits)
  assume "r = Inr found" "c \<in> set found"
  with assms have "\<exists>e \<in> set (fs_entries fs). fst e \<noteq> [] \<and> butlast (fst e) = p \<and> c = p @ [last (fst e)]"
    by (auto simp: iterdir_def reached_of_link_free split: option.splits entry.splits)
  then obtain x where "x \<in> set (fs_entries fs)" "fst x \<noteq> []" "butlast (fst x) = p" "c = p @ [last (fst x)]" by blast
  moreover from this have "fst x = p @ [last (fst x)]" by (metis append_butlast_last_id)
  ultimately show "\<exists>n e. c = p @ [n] \<and> (p @ [n], e) \<in> set (fs_entries fs)" by (metis prod.collapse)
qed

lemma list_children_pending:
  "list_children fs tool base depth cs entries pending = (entries', pending', stop) \<Longrightarrow>
   fst ` set pending' \<subseteq> fst ` set pending \<union> (if tl_recursive tool then set cs else {})"
proof (induction fs tool base depth cs entries pending rule: list_children.induct)
  case (1 fs tool base depth entries pending)
  then show ?case by simp
next
  case (2 fs tool base depth child cs entries pending)
  show ?case
  proof (cases "\<not> tl_include_hidden tool \<and> starts_with ''.'' (last child)")
    case True
    with 2(1) [OF True] 2(3) show ?thesis by (auto split: if_splits)
  next
    case False
    show ?thesis
    proof (cases "length entries \<ge> tl_max_entries tool")
      case True
      with False 2(3) show ?thesis by (auto split: if_splits)
    next
      case le: False
      have "list_children fs tool base depth (child # cs) entries pending =
        list_children fs tool base depth cs
             (entries @ [PDict [(''path'', PStr (join ''/'' (relative_to child base))),
                (''type'', PStr (if is_dir fs child then ''directory'' else ''file''))]])
             (if tl_recursive tool \<and> is_dir fs child \<and> depth < tl_max_depth tool
              then pending @ [(child, depth + 1)] else pending)" using False le by (subst list_children.simps) (simp only: if_False)
      with 2(2) [OF False le] 2(3) show ?thesis by (auto split: if_splits)
    qed
  qed
qed

lemma list_directory_grows:
  "(\<And>q. is_relative_to q base \<Longrightarrow> ok (''list'', q)) \<Longrightarrow> \<not> tl_recursive tool \<or> plain_below fs0 base \<Longrightarrow>
   same_entries fs0 fs \<Longrightarrow> \<forall>p \<in> fst ` set pending. link_free fs0 p \<and> is_relative_to p base \<Longrightarrow>
   grows ok fs (list_directory_entries tool base pending entries)"
proof (induction tool base pending entries fs rule: list_directory_entries.induct)
  case (1 tool base entries fs)
  then show ?case by (simp add: grows_def)
next
  case (2 tool base current depth pending entries fs)
  from 2(5) have cur: "link_free fs0 current" "is_relative_to current base" by auto
  then have lf: "link_free fs current" using link_free_same [OF 2(4)] by simp
  obtain r fs' where it: "iterdir current fs = (r, fs')" by (cases "iterdir current fs")
  have fs': "fs' = fs \<or> fs' = log_access ''list'' current fs" using iterdir_link_free(1) [OF lf it] .
  then have same: "same_entries fs0 fs'" using 2(4) by auto
  have listed: "grows ok fs (iterdir current)"
    using fs' 2(2) [OF cur(2)] it by (auto simp: grows_def log_access_def)
  show ?case
  proof (cases r)
    case (Inl e)
    then show ?thesis using listed it by (simp add: grows_def)
  next
    case (Inr found)
    let ?cs = "sort_key (\<lambda>p. lower (last p)) found"
    obtain entries' pending' stop where ch:
      "list_children fs' tool base depth ?cs entries pending = (entries', pending', stop)"
      by (cases "list_children fs' tool base depth ?cs entries pending")
    show ?thesis
    proof (cases stop)
      case True
      then show ?thesis using listed it Inr ch by (simp add: grows_def)
    next
      case False
      have "link_free fs0 p \<and> is_relative_to p base" if "p \<in> fst ` set pending'" for p
      proof (cases "p \<in> fst ` set pending")
        case True
        then show ?thesis using 2(5) by auto
      next
        case False
        with list_children_pending [OF ch] that have rec: "tl_recursive tool" and "p \<in> set found"
          by (auto split: if_splits)
        then obtain n e where p: "p = current @ [n]" "(p, e) \<in> set (fs_entries fs)"
          using iterdir_link_free(2) [OF lf it Inr] by blast
        have below: "is_relative_to p base" using cur(2) p(1) by (auto simp: is_relative_to_iff)
        have plain: "plain_below fs0 base" using 2(3) rec by simp
        have "(p, e) \<in> set (fs_entries fs0)" using p(2) 2(4) by (simp add: same_entries_def)
        with plain below have "''..'' \<notin> set p" "\<forall>c \<in> set p. CHR 0x00 \<notin> set c"
          unfolding plain_below_def by blast+
        moreover have "\<nexists>t. lookup_entry fs0 p = Some (Link t)"
          using plain_no_link [OF plain below] by simp
        ultimately show ?thesis using cur(1) below p(1) by (auto simp: link_free_snoc)
      qed
      then have next_round: "grows ok fs' (list_directory_entries tool base pending' entries')"
        using 2(1) [OF it [symmetric] Inr ch [symmetric] refl _ 2(2) 2(3) same] False by blast
      have step: "list_directory_entries tool base ((current, depth) # pending) entries fs =
          list_directory_entries tool base pending' entries' fs'" using it Inr ch False by simp
      from listed it obtain l where "fs_log fs' = fs_log fs @ l" "\<forall>a \<in> set l. ok a" by (auto simp: grows_def)
      moreover from next_round obtain k where
        "fs_log (snd (list_directory_entries tool base pending' entries' fs')) = fs_log fs' @ k"
        "\<forall>a \<in> set k. ok a" by (auto simp: grows_def)
      ultimately show ?thesis unfolding grows_def step by (intro exI [of _ "l @ k"]) auto
    qed
  qed
qed

lemma permitted_below: "inside fs cfg base \<Longrightarrow> is_relative_to q base \<Longrightarrow> permitted fs cfg (k, q)"
  using inside_below by (auto simp: permitted_def)

lemma directory_list_grows:
  assumes "\<And>t base. tl_path tool = Some t \<Longrightarrow> resolve fs t = Inr base \<Longrightarrow>
      \<not> tl_recursive tool \<or> plain_below fs base"
  shows "grows (permitted fs cfg) fs (directory_list cfg tool args)"
proof (cases "tl_path tool")
  case None
  then show ?thesis by (simp add: directory_list_def grows_rules)
next
  case (Some t)
  have "grows (permitted fs cfg) fs (seqE (list_directory_entries tool base [(base, 0)] [])
      (\<lambda>(entries, cut). answer (d entries cut)))"
    if "resolve fs t = Inr base" "link_free fs base" "inside fs cfg base" for base d
  proof (rule grows_seq)
    show "grows (permitted fs cfg) fs (list_directory_entries tool base [(base, 0)] [])"
      using that assms [OF Some that(1)] permitted_below
      by (intro list_directory_grows [of base _ tool fs fs])
        (auto simp: same_entries_def is_relative_to_def)
  qed (simp add: grows_rules split: prod.splits)
  then show ?thesis unfolding directory_list_def Some option.case by (intro with_directory_grows) auto
qed

text \<open>What \<open>Path.glob\<close> promises: paths below the directory, made of names.\<close>

definition globs_below :: "matchers \<Rightarrow> bool" where
  "globs_below mt \<longleftrightarrow> (\<forall>fs base g ps. mt_glob mt fs base g = Inr ps \<longrightarrow>
     (\<forall>p \<in> set ps. \<exists>rel. p = base @ rel \<and> ''..'' \<notin> set rel \<and> (\<forall>c \<in> set rel. CHR 0x00 \<notin> set c)))"

lemma search_text_grows:
  assumes "\<And>q. is_relative_to q base \<Longrightarrow> ok (''read'', q)"
  shows "same_entries fs0 fs \<Longrightarrow> \<forall>p \<in> set ps. link_free fs0 p \<and> is_relative_to p base \<Longrightarrow>
    \<exists>l. fs_log (snd (search_text tool hit base ps found fs)) = fs_log fs @ l \<and> (\<forall>a \<in> set l. ok a)"
proof (induction ps arbitrary: found fs)
  case Nil
  then show ?case by simp
next
  case (Cons p ps)
  from Cons.prems have p: "link_free fs p" "is_relative_to p base" by (auto simp: link_free_same)
  show ?case
  proof (cases "\<not> is_file fs p \<or> hidden tool (relative_to p base) \<or> file_size fs p > tl_max_file_bytes tool")
    case True
    then have "search_text tool hit base (p # ps) found fs = search_text tool hit base ps found fs" by auto
    with Cons.IH [OF Cons.prems(1), of found] Cons.prems(2) show ?thesis by auto
  next
    case False
    obtain r fs' where rd: "read_text p fs = (r, fs')" by (cases "read_text p fs")
    have fs': "fs' = fs \<or> fs' = log_access ''read'' p fs" using read_text_log [OF p(1)] rd by auto
    then obtain l where l: "fs_log fs' = fs_log fs @ l" "\<forall>a \<in> set l. ok a" "same_entries fs0 fs'"
      using Cons.prems(1) assms [OF p(2)] by (auto simp: log_access_def same_entries_def)
    have more: "\<exists>l. fs_log (snd (search_text tool hit base ps found' fs')) = fs_log fs @ l \<and> (\<forall>a \<in> set l. ok a)"
      for found'
    proof -
      from Cons.IH [OF l(3), of found'] Cons.prems(2) obtain k where
        "fs_log (snd (search_text tool hit base ps found' fs')) = fs_log fs' @ k" "\<forall>a \<in> set k. ok a" by auto
      with l show ?thesis by (intro exI [of _ "l @ k"]) auto
    qed
    have "\<exists>found' b. search_text tool hit base (p # ps) found fs = ((found', b), fs') \<or>
        (\<exists>found'. search_text tool hit base (p # ps) found fs = search_text tool hit base ps found' fs')"
      using False rd by (auto split: sum.splits prod.splits bool.splits)
    then show ?thesis using more l by auto
  qed
qed

lemma text_search_grows:
  assumes mt: "globs_below mt"
    and plain: "\<And>t base. tl_path tool = Some t \<Longrightarrow> resolve fs t = Inr base \<Longrightarrow> plain_below fs base"
  shows "grows (permitted fs cfg) fs (text_search mt cfg tool args)"
proof -
  have walk: "grows (permitted fs cfg) fs (seqE (glob_candidates mt base g) (\<lambda>cands.
      seqE (\<lambda>fs. case (case cands of None \<Rightarrow> (([], False), fs)
          | Some ps \<Rightarrow> search_text tool hit base ps [] fs) of (r, fs') \<Rightarrow> (Inr r, fs')) (\<lambda>(found, cut).
        answer (d found cut))))"
    if base: "tl_path tool = Some t" "resolve fs t = Inr base" "link_free fs base" "inside fs cfg base"
    for t base g hit d
  proof (rule grows_glob, rule grows_seq)
    fix cands assume c: "fst (glob_candidates mt base g fs) = Inr cands"
    show "grows (permitted fs cfg) fs (\<lambda>fs. case (case cands of None \<Rightarrow> (([], False), fs)
          | Some ps \<Rightarrow> search_text tool hit base ps [] fs) of (r, fs') \<Rightarrow> (Inr r, fs'))"
    proof (cases cands)
      case None
      then show ?thesis by (simp add: grows_def)
    next
      case (Some ps)
      with c obtain qs where qs: "mt_glob mt fs base g = Inr qs" "set ps = set qs"
        by (auto simp: glob_candidates_def split: sum.splits if_splits)
      have "link_free fs p \<and> is_relative_to p base" if "p \<in> set ps" for p
      proof -
        from mt [unfolded globs_below_def, rule_format, OF qs(1)] that qs(2) obtain rel where
          "p = base @ rel" "''..'' \<notin> set rel" "\<forall>c \<in> set rel. CHR 0x00 \<notin> set c" by blast
        with plain_link_free [OF plain [OF base(1,2)] base(3)] show ?thesis by (simp add: is_relative_to_iff)
      qed
      then show ?thesis
        using search_text_grows [of base "permitted fs cfg" fs fs ps tool hit "[]"] permitted_below [OF base(4)]
        by (auto simp: Some grows_def same_entries_def split: prod.splits)
    qed
  qed (simp add: grows_rules split: prod.splits)
  have searched: "grows (permitted fs cfg) fs (case tl_path tool of
       None \<Rightarrow> refuse m
     | Some t \<Rightarrow> if no_glob tool then refuse m'
         else with_directory cfg t (\<lambda>base.
           seqE (glob_candidates mt base (the (tl_glob tool))) (\<lambda>cands.
           seqE (\<lambda>fs. case (case cands of None \<Rightarrow> (([], False), fs)
               | Some ps \<Rightarrow> search_text tool hit base ps [] fs) of (r, fs') \<Rightarrow> (Inr r, fs')) (\<lambda>(found, cut).
             answer (d base found cut)))))" for m m' hit d
  proof (cases "tl_path tool")
    case (Some t)
    show ?thesis
      unfolding Some option.case
      by (rule grows_if, rule grows_rules, rule with_directory_grows) (rule walk [OF Some])
  qed (simp add: grows_rules)
  show ?thesis
  proof (cases "dget args ''query''")
    case (PStr query)
    let ?pattern = "if tl_regex tool then map_sum id Some (mt_regex mt query (\<not> tl_case_sensitive tool)) else Inr None"
    show ?thesis
    proof (cases ?pattern)
      case (Inl e)
      then show ?thesis unfolding text_search_def PStr pyval.case by (simp add: grows_rules)
    next
      case (Inr pattern)
      show ?thesis
        unfolding text_search_def PStr pyval.case Inr sum.case
        by (rule grows_if, rule grows_rules) (rule searched)
    qed
  qed (simp_all add: text_search_def grows_rules)
qed

end
