(* ===== verification/Net_Policy.thy ===== *)
theory Net_Policy
  imports Node_Registry "HOL-Library.Word"
begin

text \<open>
  Addresses and networks (Python's \<open>ipaddress\<close>), the host of a URL (\<open>urllib.parse\<close>), and the
  policy of the offline mode (\<open>core/runtime/network_security.py\<close>).

  An IPv4 address is a word of 32 bits, an IPv6 address one of 128.
\<close>

unbundle bit_operations_syntax

section \<open>Addresses\<close>

datatype address = V4 "32 word" | V6 "128 word"

datatype network = Net4 "32 word" nat | Net6 "128 word" nat

text \<open>\<open>address in network\<close>: the same version, and the same leading bits.\<close>

fun in_network :: "address \<Rightarrow> network \<Rightarrow> bool" where
  "in_network (V4 a) (Net4 b n) = (drop_bit (32 - n) a = drop_bit (32 - n) b)"
| "in_network (V6 a) (Net6 b n) = (drop_bit (128 - n) a = drop_bit (128 - n) b)"
| "in_network _ _ = False"

definition is_digit :: "char \<Rightarrow> bool" where
  "is_digit c = (48 \<le> char_nat c \<and> char_nat c \<le> 57)"

definition parse_octet :: "string \<Rightarrow> nat option" where
  "parse_octet s =
     (if s = [] \<or> \<not> list_all is_digit s \<or> length s > 3 \<or> (s \<noteq> ''0'' \<and> hd s = CHR ''0'') \<or> digits_value s > 255
      then None else Some (digits_value s))"

definition v4_of_octets :: "nat list \<Rightarrow> 32 word" where
  "v4_of_octets ns = word_of_int (foldl (\<lambda>a n. a * 256 + int n) 0 ns)"

definition parse_v4 :: "string \<Rightarrow> (32 word) option" where
  "parse_v4 s =
     (let parts = map parse_octet (split_on CHR ''.'' s)
      in if length parts = 4 \<and> list_all (\<lambda>p. p \<noteq> None) parts then Some (v4_of_octets (map the parts)) else None)"

definition hextet_digit :: "char \<Rightarrow> int option" where
  "hextet_digit c = (let n = int (char_nat c) in
     if 48 \<le> n \<and> n \<le> 57 then Some (n - 48)
     else if 97 \<le> n \<and> n \<le> 102 then Some (n - 87)
     else if 65 \<le> n \<and> n \<le> 70 then Some (n - 55) else None)"

definition parse_hextet :: "string \<Rightarrow> int option" where
  "parse_hextet s =
     (if s = [] \<or> length s > 4 \<or> list_ex (\<lambda>c. hextet_digit c = None) s then None
      else Some (foldl (\<lambda>n c. n * 16 + the (hextet_digit c)) 0 s))"

text \<open>The empty part that \<open>::\<close> leaves, other than the first and last part; two are an error.\<close>

definition skip_positions :: "string list \<Rightarrow> nat list" where
  "skip_positions parts = filter (\<lambda>i. parts ! i = []) [1..<length parts - 1]"

definition v6_of_hextets :: "int list \<Rightarrow> 128 word" where
  "v6_of_hextets ns = word_of_int (foldl (\<lambda>a n. a * 65536 + n) 0 ns)"

definition hextets :: "string list \<Rightarrow> int list option" where
  "hextets ps = (let hs = map parse_hextet ps in if list_all (\<lambda>h. h \<noteq> None) hs then Some (map the hs) else None)"

definition assemble_v6 :: "string list \<Rightarrow> nat \<Rightarrow> nat \<Rightarrow> (128 word) option" where
  "assemble_v6 parts hi lo =
     (case (hextets (take hi parts), hextets (drop (length parts - lo) parts)) of
        (Some as, Some bs) \<Rightarrow> Some (v6_of_hextets (as @ replicate (8 - (hi + lo)) 0 @ bs))
      | _ \<Rightarrow> None)"

definition v6_of_parts :: "string list \<Rightarrow> (128 word) option" where
  "v6_of_parts parts =
     (if length parts > 9 then None
      else case skip_positions parts of
        [] \<Rightarrow> if length parts = 8 then assemble_v6 parts 8 0 else None
      | [k] \<Rightarrow>
          (let hi = (if hd parts = [] then k - 1 else k);
               low = length parts - k - 1;
               lo = (if last parts = [] then low - 1 else low)
           in if (hd parts = [] \<and> hi \<noteq> 0) \<or> (last parts = [] \<and> lo \<noteq> 0) \<or> hi + lo > 7 then None
              else assemble_v6 parts hi lo)
      | _ \<Rightarrow> None)"

definition hex_text :: "int \<Rightarrow> string" where
  "hex_text n = map (\<lambda>d. hex_char (nat (n div d mod 16))) [4096, 256, 16, 1]"

definition parse_v6 :: "string \<Rightarrow> (128 word) option" where
  "parse_v6 s =
     (case partition_on CHR ''%'' s of (addr, sep, scope) \<Rightarrow>
        if CHR ''/'' \<in> set s \<or> (sep \<noteq> [] \<and> (scope = [] \<or> CHR ''%'' \<in> set scope)) then None
        else let parts = split_on CHR '':'' addr in
          if length parts < 3 then None
          else if CHR ''.'' \<in> set (last parts)
          then (case parse_v4 (last parts) of
                  None \<Rightarrow> None
                | Some a \<Rightarrow> v6_of_parts (butlast parts @
                    [hex_text (uint a div 65536), hex_text (uint a mod 65536)]))
          else v6_of_parts parts)"

text \<open>\<open>ipaddress.ip_address(s)\<close>; \<open>None\<close> is its \<open>ValueError\<close>.\<close>

definition ip_address :: "string \<Rightarrow> address option" where
  "ip_address s = (case parse_v4 s of Some a \<Rightarrow> Some (V4 a) | None \<Rightarrow> map_option V6 (parse_v6 s))"

definition in_any :: "address \<Rightarrow> network list \<Rightarrow> bool" where
  "in_any a nets = list_ex (in_network a) nets"

definition v4 :: "nat \<Rightarrow> nat \<Rightarrow> nat \<Rightarrow> nat \<Rightarrow> 32 word" where
  "v4 a b c d = v4_of_octets [a, b, c, d]"

section \<open>The host of a URL\<close>

definition url_rest :: "string \<Rightarrow> string" where
  "url_rest url =
     (if url_scheme url = [] then url_clean url
      else (case partition_on CHR '':'' (url_clean url) of (_, _, rest) \<Rightarrow> rest))"

definition url_netloc :: "string \<Rightarrow> string" where
  "url_netloc url =
     (if starts_with ''//'' (url_rest url)
      then takeWhile (\<lambda>c. c \<notin> {CHR ''/'', CHR ''?'', CHR ''#''}) (drop 2 (url_rest url)) else [])"

text \<open>Brackets that do not match make \<open>urlparse\<close> raise; they must hold an IPv6 address.\<close>

definition url_invalid :: "string \<Rightarrow> bool" where
  "url_invalid url = (let n = url_netloc url in (CHR ''['' \<in> set n) \<noteq> (CHR '']'' \<in> set n))"

definition after_last_at :: "string \<Rightarrow> string" where
  "after_last_at n = rev (takeWhile (\<lambda>c. c \<noteq> CHR ''@'') (rev n))"

definition host_text :: "string \<Rightarrow> string" where
  "host_text netloc =
     (let info = after_last_at netloc in
      case partition_on CHR ''['' info of (_, opened, bracketed) \<Rightarrow>
        if opened \<noteq> [] then fst (partition_on CHR '']'' bracketed) else fst (partition_on CHR '':'' info))"

definition url_hostname :: "string \<Rightarrow> string option" where
  "url_hostname url =
     (let h = host_text (url_netloc url) in
      if h = [] then None
      else (case partition_on CHR ''%'' h of (name, percent, zone) \<Rightarrow> Some (lower name @ percent @ zone)))"

section \<open>The offline policy\<close>

record network_policy =
  np_offline :: bool
  np_hosts :: "string list"
  np_networks :: "network list"

definition default_allowed_networks :: "network list" where
  "default_allowed_networks =
     [Net4 (v4 127 0 0 0) 8, Net4 (v4 10 0 0 0) 8, Net4 (v4 172 16 0 0) 12, Net4 (v4 192 168 0 0) 16,
      Net4 (v4 169 254 0 0) 16, Net6 1 128, Net6 (v6_of_hextets [0xfc00, 0, 0, 0, 0, 0, 0, 0]) 7,
      Net6 (v6_of_hextets [0xfe80, 0, 0, 0, 0, 0, 0, 0]) 10]"

definition strip_brackets :: "string \<Rightarrow> string" where
  "strip_brackets s = (let f = dropWhile (\<lambda>c. c \<in> {CHR ''['', CHR '']''}) in rev (f (rev (f s))))"

text \<open>The hosts the policy lets through: those configured, and those of the controller and the nodes.\<close>

definition allowed_hosts :: "string list \<Rightarrow> string option list \<Rightarrow> string list" where
  "allowed_hosts configured urls =
     map (\<lambda>h. strip (lower h)) configured @
     concat (map (\<lambda>u. case u of
         None \<Rightarrow> []
       | Some url \<Rightarrow> (case url_hostname url of
             None \<Rightarrow> []
           | Some h \<Rightarrow> if h = [] then [] else [strip_brackets (lower h)])) urls)"

definition network_policy_of :: "bool \<Rightarrow> string list \<Rightarrow> string option list \<Rightarrow> network list \<Rightarrow> network_policy" where
  "network_policy_of offline hosts urls cidrs =
     \<lparr>np_offline = offline, np_hosts = allowed_hosts hosts urls,
      np_networks = default_allowed_networks @ cidrs\<rparr>"

definition is_url_allowed :: "network_policy \<Rightarrow> string \<Rightarrow> bool" where
  "is_url_allowed np url =
     (\<not> np_offline np \<or>
      (case url_hostname url of
         None \<Rightarrow> False
       | Some hostname \<Rightarrow>
           let h = strip_brackets (lower hostname)
           in h = ''localhost'' \<or> h \<in> set (np_hosts np) \<or>
              (case ip_address h of None \<Rightarrow> False | Some a \<Rightarrow> in_any a (np_networks np))))"

definition assert_url_allowed :: "network_policy \<Rightarrow> string \<Rightarrow> string \<Rightarrow> exn + unit" where
  "assert_url_allowed np url purpose =
     (if is_url_allowed np url then Inr ()
      else Inl (Exn ''OfflineNetworkBlockedError''
        (''Blocked outbound request to '' @
         str_repr (case url_hostname url of Some h \<Rightarrow> if h = [] then ''missing hostname'' else h
                   | None \<Rightarrow> ''missing hostname'') @ '' for '' @ purpose @ '': offline_mode is enabled. '' @
         ''Use offline_allowed_hosts or offline_allowed_cidrs only if this destination is '' @
         ''intentionally reachable without public internet.'')))"

section \<open>Diagnostics\<close>

definition is_loopback :: "address \<Rightarrow> bool" where
  "is_loopback a = (case a of V4 w \<Rightarrow> in_network a (Net4 (v4 127 0 0 0) 8) | V6 w \<Rightarrow> w = 1)"

definition is_loopback_host :: "string \<Rightarrow> bool" where
  "is_loopback_host host =
     (let h = lower (strip host) in
      h \<in> {''localhost'', ''localhost.localdomain''} \<or>
      (case ip_address h of None \<Rightarrow> False | Some a \<Rightarrow> is_loopback a))"

definition is_plaintext_lan_url :: "string \<Rightarrow> bool" where
  "is_plaintext_lan_url url =
     (url_scheme url = ''http'' \<and>
      (case url_hostname url of None \<Rightarrow> False | Some h \<Rightarrow> \<not> is_loopback_host h))"

end
