(* ===== verification/Web_Fetch.thy ===== *)
theory Web_Fetch
  imports Net_Policy Tool_Files
begin

text \<open>
  The tools that reach into the network (\<open>core/agent_tools/adapters/http.py\<close>,
  \<open>core/agent_tools/adapters/web_fetch.py\<close>). The HTTP client, the decoding of bodies, the parser of
  JSON and the extraction of text from HTML are functions of a record over a world of any type.
\<close>

record http_response =
  hr_status :: int
  hr_redirect :: bool
  hr_location :: "string option"
  hr_type :: string
  hr_url :: string
  hr_content :: string

record 'w http_client =
  hc_request :: "string \<Rightarrow> string \<Rightarrow> rat \<Rightarrow> 'w \<Rightarrow> (exn + http_response) \<times> 'w"
  hc_request_error :: "exn \<Rightarrow> bool"
  hc_join :: "string \<Rightarrow> string \<Rightarrow> string"
  hc_decode :: "string \<Rightarrow> string"
  hc_json :: "string \<Rightarrow> exn + pyval"
  hc_extract :: "string \<Rightarrow> string"

definition effective_timeout :: "tools_config \<Rightarrow> tool_def \<Rightarrow> rat" where
  "effective_timeout cfg tool =
     (case tl_timeout tool of None \<Rightarrow> tc_timeout cfg | Some t \<Rightarrow> if t = 0 then tc_timeout cfg else t)"

definition upper_char :: "char \<Rightarrow> char" where
  "upper_char c = (if 97 \<le> char_nat c \<and> char_nat c \<le> 122 then char_of (char_nat c - 32) else c)"

definition method_of :: "tool_def \<Rightarrow> string" where
  "method_of tool = (case tl_method tool of
     None \<Rightarrow> ''GET'' | Some m \<Rightarrow> if m = [] then ''GET'' else map upper_char m)"

definition url_of :: "tool_def \<Rightarrow> string" where
  "url_of tool = (case tl_url tool of None \<Rightarrow> [] | Some u \<Rightarrow> u)"

section \<open>Fixed requests\<close>

definition http_tool ::
  "'w http_client \<Rightarrow> network_policy \<Rightarrow> tools_config \<Rightarrow> tool_def \<Rightarrow> pydict \<Rightarrow> ('w, pydict) eff" where
  "http_tool C np cfg tool args =
     (case assert_url_allowed np (url_of tool) ''agent http tool'' of
        Inl e \<Rightarrow> ret (tool_error (exn_text e))
      | Inr _ \<Rightarrow>
          seqE (hc_request C (method_of tool) (url_of tool) (effective_timeout cfg tool)) (\<lambda>r.
            ret [(''ok'', PBool (hr_status r < 400)), (''status_code'', PInt (hr_status r)),
                 (''content'', PStr (truncate_text (hc_decode C (hr_content r)) max_result_chars))]))"

definition http_json_tool ::
  "'w http_client \<Rightarrow> network_policy \<Rightarrow> tools_config \<Rightarrow> tool_def \<Rightarrow> pydict \<Rightarrow> ('w, pydict) eff" where
  "http_json_tool C np cfg tool args =
     (case assert_url_allowed np (url_of tool) ''agent http_json tool'' of
        Inl e \<Rightarrow> ret (tool_error (exn_text e))
      | Inr _ \<Rightarrow>
          seqE (hc_request C (method_of tool) (url_of tool) (effective_timeout cfg tool)) (\<lambda>r.
            ret (case hc_json C (take (tl_max_response_bytes tool) (hr_content r)) of
                Inl e \<Rightarrow> [(''ok'', PBool False), (''status_code'', PInt (hr_status r)),
                          (''error'', PStr (''invalid JSON: '' @ exn_text e))]
              | Inr data \<Rightarrow> [(''ok'', PBool (hr_status r < 400)), (''status_code'', PInt (hr_status r)),
                  (''data'', data),
                  (''truncated'', PBool (length (hr_content r) > tl_max_response_bytes tool))])))"

section \<open>Fetching pages\<close>

definition private_networks :: "network list" where
  "private_networks =
     [Net4 (v4 0 0 0 0) 8, Net4 (v4 127 0 0 0) 8, Net4 (v4 10 0 0 0) 8, Net4 (v4 172 16 0 0) 12,
      Net4 (v4 192 168 0 0) 16, Net4 (v4 169 254 0 0) 16, Net6 0 128, Net6 1 128,
      Net6 (v6_of_hextets [0xfc00, 0, 0, 0, 0, 0, 0, 0]) 7, Net6 (v6_of_hextets [0xfe80, 0, 0, 0, 0, 0, 0, 0]) 10]"

definition check_ssrf :: "string \<Rightarrow> string option" where
  "check_ssrf hostname =
     (if lower hostname \<in> {''localhost'', ''127.0.0.1'', ''::1''} then Some (''blocked host: '' @ hostname)
      else case ip_address hostname of
        None \<Rightarrow> None
      | Some a \<Rightarrow> if in_any a private_networks then Some (''blocked private address: '' @ hostname) else None)"

definition domain_allowed :: "string \<Rightarrow> string list \<Rightarrow> bool" where
  "domain_allowed hostname domains =
     list_ex (\<lambda>d. lower hostname = lower d \<or> ends_with (''.'' @ lower d) (lower hostname)) domains"

text \<open>\<open>urlparse\<close> raises on brackets that do not match or do not hold an address.\<close>

definition bracketed_ok :: "string \<Rightarrow> bool" where
  "bracketed_ok h =
     (if starts_with ''v'' h
      then (case partition_on CHR ''.'' (tl h) of (a, sep, b) \<Rightarrow>
              a \<noteq> [] \<and> list_all (\<lambda>c. hextet_digit c \<noteq> None) a \<and> sep \<noteq> [] \<and> b \<noteq> [])
      else case ip_address h of Some (V6 _) \<Rightarrow> True | _ \<Rightarrow> False)"

definition urlparse_fails :: "string \<Rightarrow> bool" where
  "urlparse_fails url =
     (url_invalid url \<or>
      (CHR ''['' \<in> set (url_netloc url) \<and>
       \<not> bracketed_ok (fst (partition_on CHR '']'' (snd (snd (partition_on CHR ''['' (url_netloc url))))))))"

definition validate_url :: "string \<Rightarrow> string list \<Rightarrow> network_policy \<Rightarrow> exn + string option" where
  "validate_url url domains np =
     (if urlparse_fails url then Inl (Exn ''ValueError'' ''Invalid IPv6 URL'')
      else if url_scheme url \<notin> {''http'', ''https''}
      then Inr (Some (''web_fetch only supports http/https, got: '' @ str_repr (url_scheme url)))
      else case assert_url_allowed np url ''agent web_fetch tool'' of
        Inl e \<Rightarrow> Inr (Some (exn_text e))
      | Inr _ \<Rightarrow>
          (let hostname = (case url_hostname url of None \<Rightarrow> [] | Some h \<Rightarrow> h)
           in case check_ssrf hostname of
                Some err \<Rightarrow> Inr (Some err)
              | None \<Rightarrow>
                  if domains \<noteq> [] \<and> \<not> domain_allowed hostname domains
                  then Inr (Some (''domain not in allowed_domains: '' @ hostname))
                  else Inr None))"

definition max_redirects :: nat where
  "max_redirects = 5"

text \<open>\<open>n\<close> requests are left.\<close>

fun get_validated_response ::
  "'w http_client \<Rightarrow> network_policy \<Rightarrow> string list \<Rightarrow> rat \<Rightarrow> nat \<Rightarrow> string \<Rightarrow> ('w, http_response) eff" where
  "get_validated_response C np domains timeout 0 url =
     raise_exn (Exn ''ValueError'' (''too many redirects: exceeded '' @ nat_digits max_redirects))"
| "get_validated_response C np domains timeout (Suc n) url =
     seqE (hc_request C ''GET'' url timeout) (\<lambda>r.
       if \<not> hr_redirect r then ret r
       else case hr_location r of
         None \<Rightarrow> ret r
       | Some loc \<Rightarrow>
           if loc = [] then ret r
           else let next_url = hc_join C (hr_url r) loc
             in case validate_url next_url domains np of
                  Inl e \<Rightarrow> raise_exn e
                | Inr (Some err) \<Rightarrow> raise_exn (Exn ''ValueError'' err)
                | Inr None \<Rightarrow> get_validated_response C np domains timeout n next_url)"

definition fetched ::
  "'w http_client \<Rightarrow> tool_def \<Rightarrow> http_response \<Rightarrow> pydict" where
  "fetched C tool r =
     (let raw = take (tl_max_response_bytes tool) (hr_content r);
          decoded = hc_decode C raw;
          body = (if tl_strip_html tool \<and> contains ''html'' (hr_type r) then hc_extract C decoded else decoded)
      in [(''ok'', PBool (hr_status r < 400)), (''status_code'', PInt (hr_status r)), (''url'', PStr (hr_url r)),
          (''content'', PStr (truncate_text body max_result_chars)),
          (''truncated'', PBool (length (hr_content r) > tl_max_response_bytes tool))])"

definition web_fetch ::
  "'w http_client \<Rightarrow> network_policy \<Rightarrow> tools_config \<Rightarrow> tool_def \<Rightarrow> pydict \<Rightarrow> ('w, pydict) eff" where
  "web_fetch C np cfg tool args =
     (let url = strip (if truthy (dget args ''url'') then py_str (dget args ''url'') else [])
      in if url = [] then ret (tool_error ''web_fetch requires a 'url' argument'')
         else case validate_url url (tl_allowed_domains tool) np of
           Inl e \<Rightarrow> raise_exn e
         | Inr (Some err) \<Rightarrow> ret (tool_error err)
         | Inr None \<Rightarrow>
             tryE (seqE (get_validated_response C np (tl_allowed_domains tool) (effective_timeout cfg tool)
                      (max_redirects + 1) url) (\<lambda>r. ret (fetched C tool r)))
               (\<lambda>e. if hc_request_error C e then ret (tool_error (''request failed: '' @ exn_text e))
                    else if exn_type e = ''ValueError'' then ret (tool_error (exn_text e))
                    else raise_exn e))"

section \<open>What is requested\<close>

text \<open>The world after a sequence of requests to given addresses.\<close>

definition requests :: "'w http_client \<Rightarrow> rat \<Rightarrow> string list \<Rightarrow> 'w \<Rightarrow> 'w" where
  "requests C timeout urls w = fold (\<lambda>u w. snd (hc_request C ''GET'' u timeout w)) urls w"

lemma get_validated_requests:
  assumes "get_validated_response C np domains timeout n url w = (r, w')" "validate_url url domains np = Inr None"
  shows "\<exists>urls. length urls \<le> n \<and> (\<forall>u \<in> set urls. validate_url u domains np = Inr None) \<and>
    w' = requests C timeout urls w"
  using assms
proof (induction C np domains timeout n url arbitrary: w rule: get_validated_response.induct)
  case (1 C np domains timeout url)
  then show ?case by (intro exI [of _ "[]"]) (simp add: raise_exn_def requests_def)
next
  case (2 C np domains timeout n url)
  obtain r1 w1 where q: "hc_request C ''GET'' url timeout w = (r1, w1)" by (cases "hc_request C ''GET'' url timeout w")
  have one: ?case if "w' = w1"
    using that 2(3) q by (intro exI [of _ "[url]"]) (simp add: requests_def)
  show ?case
  proof (cases "\<exists>resp loc. r1 = Inr resp \<and> hr_redirect resp \<and> hr_location resp = Some loc \<and> loc \<noteq> [] \<and>
      validate_url (hc_join C (hr_url resp) loc) domains np = Inr None")
    case False
    then have "w' = w1"
      using 2(2) q by (auto simp: seqE_def ret_def raise_exn_def Let_def
          split: sum.splits option.splits if_splits)
    then show ?thesis by (rule one)
  next
    case True
    then obtain resp loc where h: "r1 = Inr resp" "hr_redirect resp" "hr_location resp = Some loc" "loc \<noteq> []"
      "validate_url (hc_join C (hr_url resp) loc) domains np = Inr None" by blast
    with 2(2) q have "get_validated_response C np domains timeout n (hc_join C (hr_url resp) loc) w1 = (r, w')"
      by (simp add: seqE_def Let_def)
    from 2(1) [OF _ h(3,4) refl h(5) refl this h(5)] h(2) obtain urls where
      "length urls \<le> n" "\<forall>u \<in> set urls. validate_url u domains np = Inr None" "w' = requests C timeout urls w1"
      by blast
    with 2(3) q show ?thesis by (intro exI [of _ "url # urls"]) (simp add: requests_def)
  qed
qed

end
