(* ===== verification/Tool_Commands.thy ===== *)
theory Tool_Commands
  imports Tool_Files Web_Fetch
begin

text \<open>
  The tools that run commands, query databases, list processes and use the memory store
  (\<open>adapters/git.py\<close>, \<open>shell.py\<close>, \<open>sqlite.py\<close>, \<open>process.py\<close>, \<open>memory.py\<close> of
  \<open>core/agent_tools\<close>). Processes, SQLite, the process manager and the memory store are functions of
  a record, over a world of any type; the file system is the one of the file tools.
\<close>

section \<open>The host\<close>

record 'w host =
  ho_files :: files
  ho_world :: 'w
  ho_writes :: "(string \<times> string \<times> string option \<times> string list) list"

text \<open>A process that is waited for, with its decoded output, or that is killed at its time limit.\<close>

datatype process_end = Exited int string string | TimedOut

record 'w system =
  sy_match :: matchers
  sy_http :: "'w http_client"
  sy_policy :: network_policy
  sy_spawn :: "string list \<Rightarrow> rat \<Rightarrow> ('w, process_end) eff"
  sy_sqlite :: "string \<Rightarrow> string \<Rightarrow> ('w, string list \<times> pyval list list) eff"
  sy_statuses :: "('w, pydict list) eff option"
  sy_memory :: "(string \<Rightarrow> int option \<Rightarrow> ('w, pyval list) eff) option"

definition on_files :: "(files, 'a) eff \<Rightarrow> ('w host, 'a) eff" where
  "on_files m = (\<lambda>h. case m (ho_files h) of (r, fs) \<Rightarrow> (r, h\<lparr>ho_files := fs\<rparr>))"

definition on_world :: "('w, 'a) eff \<Rightarrow> ('w host, 'a) eff" where
  "on_world m = (\<lambda>h. case m (ho_world h) of (r, w) \<Rightarrow> (r, h\<lparr>ho_world := w\<rparr>))"

abbreviation error_result :: "string \<Rightarrow> ('w host, pydict) eff" where
  "error_result msg \<equiv> ret (tool_error msg)"

section \<open>Git\<close>

definition run_git :: "'w system \<Rightarrow> string list \<Rightarrow> path \<Rightarrow> rat \<Rightarrow> ('w host, int \<times> string \<times> string) eff" where
  "run_git S args repo timeout =
     tryE (seqE (on_world (sy_spawn S ([''git'', ''-C'', path_str repo] @ args) timeout)) (\<lambda>p.
            ret (case p of Exited code out err \<Rightarrow> (code, out, err)
                 | TimedOut \<Rightarrow> (-1, [], ''git command timed out''))))
       (\<lambda>e. if exn_type e = ''FileNotFoundError'' then ret (-1, [], ''git executable not found'')
            else raise_exn e)"

definition git_failure :: "string \<Rightarrow> string \<Rightarrow> int \<Rightarrow> pydict" where
  "git_failure what err code =
     tool_error (truncate_text (if strip err = [] then what @ '' exited with code '' @ str_int code else strip err)
       max_result_chars)"

text \<open>The checks that the three tools share.\<close>

definition with_repo ::
  "tools_config \<Rightarrow> tool_def \<Rightarrow> string \<Rightarrow> (path \<Rightarrow> ('w host, pydict) eff) \<Rightarrow> ('w host, pydict) eff" where
  "with_repo cfg tool kind body =
     (case tl_path tool of
        None \<Rightarrow> error_result (kind @ '' tool has no path'')
      | Some t \<Rightarrow>
          seqE (on_files (resolved t)) (\<lambda>repo.
          seqE (on_files (safe_roots cfg)) (\<lambda>bases.
          if outside_roots bases repo
          then error_result (''repo path is outside configured safe roots: '' @ path_str repo)
          else seqE (on_files (ask (\<lambda>fs. path_exists fs repo))) (\<lambda>there.
          if \<not> there then error_result (''repo path does not exist: '' @ path_str repo)
          else body repo))))"

fun after_first :: "string \<Rightarrow> string \<Rightarrow> string option" where
  "after_first sep s =
     (if starts_with sep s then Some (drop (length sep) s)
      else case s of [] \<Rightarrow> None | _ # t \<Rightarrow> after_first sep t)"

declare after_first.simps [simp del]

lemma after_first_length: "after_first sep s = Some t \<Longrightarrow> length t \<le> length s"
proof (induction sep s rule: after_first.induct)
  case (1 sep s)
  then show ?case
    by (cases s) (fastforce simp: after_first.simps [of sep "[]"] after_first.simps [of sep "_ # _"] intro: le_SucI split: if_splits)+
qed

definition changed_entry :: "string \<Rightarrow> pyval" where
  "changed_entry line =
     (let part = drop 3 line
      in PDict [(''status'', PStr (take 2 line)),
                (''path'', PStr (case after_first '' -> '' part of None \<Rightarrow> part | Some new \<Rightarrow> new))])"

fun changed_entries :: "nat \<Rightarrow> string list \<Rightarrow> pyval list \<Rightarrow> pyval list" where
  "changed_entries limit [] changed = changed"
| "changed_entries limit (line # ls) changed =
     (if length line \<ge> 3
      then (let changed' = changed @ [changed_entry line]
            in if length changed' \<ge> limit then changed' else changed_entries limit ls changed')
      else changed_entries limit ls changed)"

definition git_status :: "'w system \<Rightarrow> tools_config \<Rightarrow> tool_def \<Rightarrow> pydict \<Rightarrow> ('w host, pydict) eff" where
  "git_status S cfg tool args =
     with_repo cfg tool ''git_status'' (\<lambda>repo.
       let timeout = effective_timeout cfg tool in
       seqE (run_git S [''rev-parse'', ''--abbrev-ref'', ''HEAD''] repo timeout) (\<lambda>(code, out, err).
       if code \<noteq> 0 then ret (git_failure ''git'' err code)
       else seqE (run_git S [''status'', ''--porcelain''] repo timeout) (\<lambda>(code', out', err').
       if code' \<noteq> 0 then ret (git_failure ''git status'' err' code')
       else (let changed = changed_entries (tl_max_entries tool) (splitlines out') []
             in ret [(''ok'', PBool True), (''branch'', PStr (strip out)), (''changed'', PList changed),
                     (''clean'', PBool (changed = []))]))))"

text \<open>\<open>text.splitlines(keepends=True)\<close>.\<close>

fun keep_lines :: "string \<Rightarrow> string \<Rightarrow> string list" where
  "keep_lines line [] = (if line = [] then [] else [rev line])"
| "keep_lines line (c # s) =
     (if line_break c
      then (case s of
             d # s' \<Rightarrow> if c = CHR 0x0D \<and> d = CHR 0x0A then rev (d # c # line) # keep_lines [] s'
                      else rev (c # line) # keep_lines [] s
           | [] \<Rightarrow> [rev (c # line)])
      else keep_lines (c # line) s)"

definition git_diff :: "'w system \<Rightarrow> tools_config \<Rightarrow> tool_def \<Rightarrow> pydict \<Rightarrow> ('w host, pydict) eff" where
  "git_diff S cfg tool args =
     with_repo cfg tool ''git_diff'' (\<lambda>repo.
       seqE (run_git S [''diff'', ''HEAD''] repo (effective_timeout cfg tool)) (\<lambda>(code, out, err).
       if code \<noteq> 0 then ret (git_failure ''git diff'' err code)
       else (let lines = keep_lines [] out
             in ret [(''ok'', PBool True), (''diff'', PStr (concat (take (tl_max_lines tool) lines))),
                     (''total_lines'', PInt (int (length lines))),
                     (''truncated'', PBool (length lines > tl_max_lines tool))])))"

text \<open>\<open>line.split("|", n)\<close>.\<close>

fun split_max :: "nat \<Rightarrow> char \<Rightarrow> string \<Rightarrow> string list" where
  "split_max 0 c s = [s]"
| "split_max (Suc n) c s =
     (case partition_on c s of (a, sep, b) \<Rightarrow> if sep = [] then [a] else a # split_max n c b)"

definition commit_of :: "string \<Rightarrow> pyval option" where
  "commit_of line =
     (case split_max 3 CHR ''|'' line of
        [h, s, a, age] \<Rightarrow> Some (PDict [(''hash'', PStr h), (''subject'', PStr s), (''author'', PStr a), (''age'', PStr age)])
      | _ \<Rightarrow> None)"

definition git_log :: "'w system \<Rightarrow> tools_config \<Rightarrow> tool_def \<Rightarrow> pydict \<Rightarrow> ('w host, pydict) eff" where
  "git_log S cfg tool args =
     with_repo cfg tool ''git_log'' (\<lambda>repo.
       seqE (run_git S [''log'', ''--format=%h|%s|%an|%ar'', ''-'' @ nat_digits (tl_max_commits tool)] repo
              (effective_timeout cfg tool)) (\<lambda>(code, out, err).
       if code \<noteq> 0 then ret (git_failure ''git log'' err code)
       else (let commits = List.map_filter commit_of (splitlines out)
             in ret [(''ok'', PBool True), (''commits'', PList commits), (''count'', PInt (int (length commits)))])))"

section \<open>Commands\<close>

definition shell :: "'w system \<Rightarrow> tools_config \<Rightarrow> tool_def \<Rightarrow> pydict \<Rightarrow> ('w host, pydict) eff" where
  "shell S cfg tool args =
     seqE (on_world (sy_spawn S (case tl_command tool of None \<Rightarrow> [] | Some c \<Rightarrow> c) (effective_timeout cfg tool))) (\<lambda>p.
       ret (case p of
           TimedOut \<Rightarrow> [(''ok'', PBool False), (''exit_code'', PNone), (''error'', PStr ''tool timed out'')]
         | Exited code out err \<Rightarrow>
             [(''ok'', PBool (code = 0)), (''exit_code'', PInt code),
              (''content'', PStr (truncate_text out max_result_chars)),
              (''stderr'', PStr (if err = [] then [] else truncate_text err max_result_chars))]))"

section \<open>Processes\<close>

definition process_status_fields :: "string list" where
  "process_status_fields = [''name'', ''running'', ''pid'', ''port'', ''family'']"

definition pick :: "string list \<Rightarrow> pydict \<Rightarrow> pydict" where
  "pick ks d = List.map_filter (\<lambda>k. map_option (\<lambda>v. (k, v)) (map_of d k)) ks"

definition process_status :: "'w system \<Rightarrow> tools_config \<Rightarrow> tool_def \<Rightarrow> pydict \<Rightarrow> ('w host, pydict) eff" where
  "process_status S cfg tool args =
     (case sy_statuses S of
        None \<Rightarrow> error_result ''process_status is not available: no process manager''
      | Some list_statuses \<Rightarrow>
          seqE (on_world list_statuses) (\<lambda>statuses.
            ret [(''ok'', PBool True),
                 (''processes'', PList (map (\<lambda>s. PDict (pick process_status_fields s)) (take (tl_max_entries tool) statuses))),
                 (''total'', PInt (int (length statuses))),
                 (''truncated'', PBool (length statuses > tl_max_entries tool))]))"

section \<open>SQLite\<close>

text \<open>The word characters of \<open>re\<close>, among those of Latin-1.\<close>

definition word_char :: "char \<Rightarrow> bool" where
  "word_char c = (let n = char_nat c in
     (48 \<le> n \<and> n \<le> 57) \<or> (65 \<le> n \<and> n \<le> 90) \<or> n = 95 \<or> (97 \<le> n \<and> n \<le> 122) \<or>
     n \<in> {170, 178, 179, 181, 185, 186, 188, 189, 190} \<or> (192 \<le> n \<and> n \<noteq> 215 \<and> n \<noteq> 247))"

text \<open>\<open>_SQL_STRIP_COMMENTS.sub("", query)\<close>: \<open>--\<close> to the end of the line, and \<open>/*\<close> to the next \<open>*/\<close>;
  one that is not closed is kept.\<close>

function strip_comments :: "string \<Rightarrow> string" where
  "strip_comments s =
     (case s of
        [] \<Rightarrow> []
      | c # t \<Rightarrow>
          if starts_with ''--'' s then strip_comments (dropWhile (\<lambda>c. c \<noteq> CHR 0x0A) s)
          else if starts_with ''/*'' s
          then (case after_first ''*/'' (drop 2 s) of
                  Some rest \<Rightarrow> strip_comments rest
                | None \<Rightarrow> c # strip_comments t)
          else c # strip_comments t)"
  by pat_completeness auto
termination
proof (relation "measure length")
  show "(dropWhile (\<lambda>c. c \<noteq> CHR 0x0A) s, s) \<in> measure length" if "s = c # t" "starts_with ''--'' s" for s t :: string and c
  proof -
    from that have "c \<noteq> CHR 0x0A" by (auto simp: starts_with_def)
    then have "dropWhile (\<lambda>c. c \<noteq> CHR 0x0A) s = dropWhile (\<lambda>c. c \<noteq> CHR 0x0A) t" using that by simp
    then show ?thesis using length_dropWhile_le [of "\<lambda>c. c \<noteq> CHR 0x0A" t] that by simp
  qed
qed (auto dest: after_first_length)

declare strip_comments.simps [simp del]

definition keyword_at :: "string \<Rightarrow> string \<Rightarrow> bool" where
  "keyword_at kw s =
     (lower (take (length kw) s) = kw \<and> (case drop (length kw) s of [] \<Rightarrow> True | c # _ \<Rightarrow> \<not> word_char c))"

definition sql_allowed :: "string \<Rightarrow> bool" where
  "sql_allowed query = (let s = dropWhile is_space (strip (strip_comments query))
     in keyword_at ''select'' s \<or> keyword_at ''with'' s)"

text \<open>\<open>Path.stem\<close>.\<close>

definition stem :: "string \<Rightarrow> string" where
  "stem p =
     (case path_parts p of
        [] \<Rightarrow> []
      | parts \<Rightarrow>
          let name = last parts; suffix = takeWhile (\<lambda>c. c \<noteq> CHR ''.'') (rev name);
              i = length name - length suffix - 1
          in if length suffix < length name \<and> 0 < i \<and> i < length name - 1 then take i name else name)"

definition by_stem :: "string list \<Rightarrow> (string \<times> string) list" where
  "by_stem ps = dmerge [] (map (\<lambda>p. (stem p, p)) ps)"

text \<open>Which database is asked for: a message, or its path and the name to report.\<close>

definition database_path :: "tool_def \<Rightarrow> pydict \<Rightarrow> string + (string \<times> string option)" where
  "database_path tool args =
     (if tl_paths tool \<noteq> []
      then (let db = strip (if truthy (dget args ''db'') then py_str (dget args ''db'') else []);
                known = by_stem (tl_paths tool);
                available = join '', '' (sort (map fst known))
            in if db = []
               then Inl (''sqlite_query requires a 'db' argument when multiple paths are configured. Available: '' @ available)
               else case map_of known db of
                 None \<Rightarrow> Inl (''unknown db '' @ str_repr db @ ''. Available: '' @ available)
               | Some p \<Rightarrow> Inr (p, Some db))
      else case tl_path tool of
        Some p \<Rightarrow> Inr (p, None)
      | None \<Rightarrow> Inl ''sqlite_query tool has no path or paths configured'')"

definition database_uri :: "path \<Rightarrow> string" where
  "database_uri p = ''file:'' @ path_str p @ ''?mode=ro''"

definition sqlite_execute :: "'w system \<Rightarrow> path \<Rightarrow> string \<Rightarrow> nat \<Rightarrow> ('w host, pydict) eff" where
  "sqlite_execute S p query max_rows =
     seqE (on_world (sy_sqlite S (database_uri p) query)) (\<lambda>(cols, all_rows).
       let rows = take (max_rows + 1) all_rows
       in ret [(''ok'', PBool True), (''columns'', PList (map PStr cols)),
               (''rows'', PList (map PList (take max_rows rows))),
               (''row_count'', PInt (int (length (take max_rows rows)))),
               (''truncated'', PBool (length rows > max_rows))])"

definition sqlite_query :: "'w system \<Rightarrow> tools_config \<Rightarrow> tool_def \<Rightarrow> pydict \<Rightarrow> ('w host, pydict) eff" where
  "sqlite_query S cfg tool args =
     (case database_path tool args of
        Inl msg \<Rightarrow> error_result msg
      | Inr (text_path, db) \<Rightarrow>
          seqE (on_files (resolved text_path)) (\<lambda>p.
          seqE (on_files (safe_roots cfg)) (\<lambda>bases.
          if outside_roots bases p
          then error_result (''db path is outside configured safe roots: '' @ path_str p)
          else seqE (on_files (ask (\<lambda>fs. path_exists fs p))) (\<lambda>there.
          if \<not> there then error_result (''database file does not exist: '' @ path_str p)
          else (let query = strip (if truthy (dget args ''query'') then py_str (dget args ''query'') else [])
                in if query = [] then error_result ''sqlite_query requires a 'query' argument''
                   else if \<not> sql_allowed query then error_result ''only SELECT queries are allowed''
                   else tryE (seqE (sqlite_execute S p query (tl_max_entries tool)) (\<lambda>r.
                            ret (case db of None \<Rightarrow> r | Some name \<Rightarrow> AList.update ''db'' (PStr name) r)))
                          (\<lambda>e. if exn_type e = ''OperationalError'' then error_result (''query error: '' @ exn_text e)
                               else if exn_type e \<in> {''DatabaseError'', ''IntegrityError'', ''InternalError'',
                                   ''ProgrammingError'', ''DataError'', ''NotSupportedError''}
                               then error_result (''database error: '' @ exn_text e)
                               else raise_exn e))))))"

section \<open>Memory\<close>

text \<open>\<open>int(text)\<close>: white space around, a sign, and digits that single underscores may separate.\<close>

fun int_digits :: "bool \<Rightarrow> string \<Rightarrow> bool" where
  "int_digits after_digit [] = after_digit"
| "int_digits after_digit (c # s) =
     (if is_digit c then int_digits True s else c = CHR ''_'' \<and> after_digit \<and> int_digits False s)"

definition int_of_text :: "string \<Rightarrow> exn + int" where
  "int_of_text text_value =
     (let s = strip text_value;
          body = (if s \<noteq> [] \<and> hd s \<in> {CHR ''+'', CHR ''-''} then tl s else s);
          n = int (digits_value (filter is_digit body))
      in if int_digits False body then Inr (if s \<noteq> [] \<and> hd s = CHR ''-'' then - n else n)
         else Inl (Exn ''ValueError'' (''invalid literal for int() with base 10: '' @ str_repr text_value)))"

definition py_int :: "pyval \<Rightarrow> exn + int" where
  "py_int v = (case v of
       PInt i \<Rightarrow> Inr i
     | PBool b \<Rightarrow> Inr (if b then 1 else 0)
     | PFloat r \<Rightarrow> Inr (if r < 0 then \<lceil>r\<rceil> else \<lfloor>r\<rfloor>)
     | PStr s \<Rightarrow> int_of_text s
     | _ \<Rightarrow> Inl (Exn ''TypeError'' ''int() argument must be a string, a bytes-like object or a real number''))"

definition text_arg :: "pydict \<Rightarrow> string \<Rightarrow> string \<Rightarrow> string" where
  "text_arg args k dflt = (if truthy (dget args k) then py_str (dget args k) else dflt)"

definition memory_search ::
  "(string \<Rightarrow> int option \<Rightarrow> ('w, pyval list) eff) \<Rightarrow> tool_def \<Rightarrow> pydict \<Rightarrow> ('w host, pydict) eff" where
  "memory_search search tool args =
     (let query = strip (text_arg args ''query'' []) in
      if query = [] then error_result ''memory_search requires a non-empty 'query' argument''
      else case (if dget args ''top_k'' = PNone then Inr None else map_sum id Some (py_int (dget args ''top_k''))) of
        Inl e \<Rightarrow> raise_exn e
      | Inr top_k \<Rightarrow>
          seqE (on_world (search query top_k)) (\<lambda>results.
            ret [(''ok'', PBool True), (''results'', PList results), (''count'', PInt (int (length results)))]))"

text \<open>The write is a task of its own: here it joins the writes that are under way.\<close>

definition memory_write :: "tool_def \<Rightarrow> pydict \<Rightarrow> ('w host, pydict) eff" where
  "memory_write tool args =
     (let content = strip (text_arg args ''text'' []) in
      if content = [] then error_result ''memory_write requires a non-empty 'text' argument''
      else let topic = text_arg args ''topic'' [];
               tags = (case dget args ''tags'' of PList ts \<Rightarrow> map py_str ts | _ \<Rightarrow> [])
           in (\<lambda>h. (Inr [(''ok'', PBool True), (''queued'', PBool True)],
                 h\<lparr>ho_writes := ho_writes h @
                     [(content, text_arg args ''tier'' ''durable'', if topic = [] then None else Some topic, tags)]\<rparr>)))"

end
