(* ===== verification/Tool_Trace.thy ===== *)
theory Tool_Trace
  imports Py_Text "HOL-Library.Sublist"
begin

text \<open>
  The recorder of the events of a tool run and its live stream (\<open>RuntimeTraceRecorder\<close> in
  \<open>core/agent_tools/tracing.py\<close>). An event goes to a list and, until the recorder is closed, to a
  queue; a stream first replays the list and then follows the queue, and drops what it has seen.
\<close>

section \<open>Recording\<close>

record recorder =
  rc_trace :: string
  rc_source :: string
  rc_scope :: string
  rc_events :: "pydict list"
  rc_sequence :: nat
  rc_queue :: "pydict option list"
  rc_closed :: bool

definition new_recorder :: "string \<Rightarrow> string \<Rightarrow> string \<Rightarrow> recorder" where
  "new_recorder trace_id source scope =
     \<lparr>rc_trace = trace_id, rc_source = source, rc_scope = scope, rc_events = [], rc_sequence = 0,
      rc_queue = [], rc_closed = False\<rparr>"

text \<open>The arguments of \<open>emit\<close>.\<close>

record emission =
  em_type :: string
  em_status :: string
  em_scope :: "string option"
  em_case :: "string option"
  em_call :: "string option"
  em_model :: "string option"
  em_title :: string
  em_summary :: string
  em_payload :: pydict

definition emission_of :: "string \<Rightarrow> emission" where
  "emission_of t = \<lparr>em_type = t, em_status = ''running'', em_scope = None, em_case = None, em_call = None,
     em_model = None, em_title = [], em_summary = [], em_payload = []\<rparr>"

definition zero_padded :: "nat \<Rightarrow> nat \<Rightarrow> string" where
  "zero_padded w n = replicate (w - length (nat_digits n)) CHR ''0'' @ nat_digits n"

definition event_id :: "string \<Rightarrow> nat \<Rightarrow> string" where
  "event_id trace_id n = trace_id @ ''-'' @ zero_padded 6 n"

definition optional_item :: "string \<Rightarrow> string option \<Rightarrow> pydict" where
  "optional_item k v = (case v of None \<Rightarrow> [] | Some s \<Rightarrow> [(k, PStr s)])"

definition new_event :: "string \<Rightarrow> emission \<Rightarrow> recorder \<Rightarrow> pydict" where
  "new_event now e rc =
     [(''id'', PStr (event_id (rc_trace rc) (rc_sequence rc + 1))),
      (''trace_id'', PStr (rc_trace rc)),
      (''sequence'', PInt (int (rc_sequence rc + 1))),
      (''timestamp'', PStr now),
      (''event_type'', PStr (em_type e)),
      (''source'', PStr (rc_source rc)),
      (''scope'', PStr (case em_scope e of None \<Rightarrow> rc_scope rc | Some s \<Rightarrow> if s = [] then rc_scope rc else s)),
      (''status'', PStr (em_status e)),
      (''payload'', PDict (em_payload e))] @
     optional_item ''case_id'' (em_case e) @ optional_item ''tool_call_id'' (em_call e) @
     optional_item ''model'' (em_model e) @
     (if em_title e = [] then [] else [(''title'', PStr (em_title e))]) @
     (if em_summary e = [] then [] else [(''summary'', PStr (em_summary e))])"

definition emit :: "string \<Rightarrow> emission \<Rightarrow> recorder \<Rightarrow> pydict \<times> recorder" where
  "emit now e rc =
     (let event = new_event now e rc in
      (event, rc\<lparr>rc_sequence := rc_sequence rc + 1, rc_events := rc_events rc @ [event],
                 rc_queue := (if rc_closed rc then rc_queue rc else rc_queue rc @ [Some event])\<rparr>))"

definition events_for_case :: "string \<Rightarrow> recorder \<Rightarrow> pydict list" where
  "events_for_case case_id rc = filter (\<lambda>e. py_eq (dget e ''case_id'') (PStr case_id)) (rc_events rc)"

definition close :: "recorder \<Rightarrow> recorder" where
  "close rc = (if rc_closed rc then rc else rc\<lparr>rc_closed := True, rc_queue := rc_queue rc @ [None]\<rparr>)"

section \<open>Streaming\<close>

text \<open>A stream is at an index of the list, or at the queue, or at its end; it keeps the ids it gave.\<close>

datatype stream = Replaying "string list" nat | Following "string list" | Ended

definition id_of :: "pydict \<Rightarrow> string" where
  "id_of e = py_str (dget e ''id'')"

text \<open>What the consumer gets when it asks for the next event: an event, the end, or a wait.\<close>

datatype taken = Event pydict | Finished | Waiting

fun follow :: "string list \<Rightarrow> pydict option list \<Rightarrow> taken \<times> stream \<times> pydict option list" where
  "follow seen [] = (Waiting, Following seen, [])"
| "follow seen (None # q) = (Finished, Ended, q)"
| "follow seen (Some e # q) =
     (if id_of e \<in> set seen then follow seen q else (Event e, Following (id_of e # seen), q))"

definition next_event :: "stream \<Rightarrow> recorder \<Rightarrow> taken \<times> stream \<times> recorder" where
  "next_event st rc =
     (let following = (\<lambda>seen. case follow seen (rc_queue rc) of (t, st', q) \<Rightarrow> (t, st', rc\<lparr>rc_queue := q\<rparr>)) in
      case st of
        Replaying seen i \<Rightarrow>
          if i < length (rc_events rc)
          then (let e = rc_events rc ! i in (Event e, Replaying (id_of e # seen) (i + 1), rc))
          else following seen
      | Following seen \<Rightarrow> following seen
      | Ended \<Rightarrow> (Finished, Ended, rc))"

section \<open>Any interleaving\<close>

datatype trace_step = Emitting string emission | Closing | Taking

text \<open>The events given so far, and how many had been recorded when the recorder was closed.\<close>

record streaming =
  sg_rec :: recorder
  sg_stream :: stream
  sg_given :: "pydict list"

fun run_step :: "trace_step \<Rightarrow> streaming \<Rightarrow> streaming" where
  "run_step (Emitting now e) s = s\<lparr>sg_rec := snd (emit now e (sg_rec s))\<rparr>"
| "run_step Closing s = s\<lparr>sg_rec := close (sg_rec s)\<rparr>"
| "run_step Taking s =
     (case next_event (sg_stream s) (sg_rec s) of (t, st, rc) \<Rightarrow>
        s\<lparr>sg_rec := rc, sg_stream := st,
          sg_given := sg_given s @ (case t of Event e \<Rightarrow> [e] | _ \<Rightarrow> [])\<rparr>)"

definition new_streaming :: "recorder \<Rightarrow> streaming" where
  "new_streaming rc = \<lparr>sg_rec = rc, sg_stream = Replaying [] 0, sg_given = []\<rparr>"

section \<open>Ids\<close>

lemma digits_value_zeros: "digits_value (replicate k CHR ''0'' @ s) = digits_value s"
proof (induction k)
  case (Suc k)
  have "digits_value (CHR ''0'' # t) = digits_value t" for t by (simp add: char_nat_def)
  with Suc show ?case by simp
qed simp

lemma event_id_inj [simp]: "event_id t m = event_id t n \<longleftrightarrow> m = n"
proof
  assume "event_id t m = event_id t n"
  then have "zero_padded 6 m = zero_padded 6 n" by (simp add: event_id_def)
  then have "digits_value (zero_padded 6 m) = digits_value (zero_padded 6 n)" by (rule arg_cong)
  then show "m = n" unfolding zero_padded_def digits_value_zeros digits_value_nat_digits .
qed simp

lemma id_of_new_event [simp]: "id_of (new_event now e rc) = event_id (rc_trace rc) (rc_sequence rc + 1)"
  by (simp add: id_of_def new_event_def dget_def)

section \<open>The recorder and its queue\<close>

text \<open>Event number \<open>k\<close> carries the id of \<open>k\<close>; \<open>b\<close> is how many were recorded before the closing.\<close>

definition recorder_inv :: "nat \<Rightarrow> recorder \<Rightarrow> bool" where
  "recorder_inv b rc \<longleftrightarrow>
     rc_sequence rc = length (rc_events rc) \<and>
     (\<forall>k < length (rc_events rc). id_of (rc_events rc ! k) = event_id (rc_trace rc) (k + 1)) \<and>
     b \<le> length (rc_events rc) \<and> (\<not> rc_closed rc \<longrightarrow> b = length (rc_events rc))"

text \<open>\<open>a\<close> events have left the queue, which holds the others up to the closing.\<close>

definition queue_inv :: "nat \<Rightarrow> nat \<Rightarrow> recorder \<Rightarrow> bool" where
  "queue_inv a b rc \<longleftrightarrow> a \<le> b \<and>
     rc_queue rc = map Some (drop a (take b (rc_events rc))) @ (if rc_closed rc then [None] else [])"

lemma emit_inv:
  assumes "recorder_inv b rc"
  shows "recorder_inv (if rc_closed rc then b else Suc b) (snd (emit now e rc))"
    "queue_inv a b rc \<Longrightarrow> queue_inv a (if rc_closed rc then b else Suc b) (snd (emit now e rc))"
  using assms by (auto simp: recorder_inv_def queue_inv_def emit_def Let_def nth_append less_Suc_eq)

lemma close_inv:
  assumes "recorder_inv b rc"
  shows "recorder_inv b (close rc)" "queue_inv a b rc \<Longrightarrow> queue_inv a b (close rc)"
  using assms by (auto simp: recorder_inv_def queue_inv_def close_def)

text \<open>Following a queue, of which the first events were already given.\<close>

lemma follow_queue:
  assumes "\<And>k. k < length es \<Longrightarrow> id_of (es ! k) \<in> set seen \<longleftrightarrow> k < n"
  shows "follow seen (map Some es @ q) =
    (if n < length es then (Event (es ! n), Following (id_of (es ! n) # seen), map Some (drop (Suc n) es) @ q)
     else follow seen q)"
  using assms
proof (induction es arbitrary: n)
  case Nil
  then show ?case by simp
next
  case (Cons e es)
  from Cons.prems [of 0] have e: "id_of e \<in> set seen \<longleftrightarrow> 0 < n" by simp
  show ?case
  proof (cases n)
    case 0
    with e show ?thesis by simp
  next
    case (Suc m)
    then have "id_of (es ! k) \<in> set seen \<longleftrightarrow> k < m" if "k < length es" for k
      using Cons.prems [of "Suc k"] that by simp
    from Cons.IH [OF this] e Suc show ?thesis by simp
  qed
qed

section \<open>The stream gives every event once, in order\<close>

definition ids_upto :: "nat \<Rightarrow> recorder \<Rightarrow> string set" where
  "ids_upto y rc = (\<lambda>k. event_id (rc_trace rc) (k + 1)) ` {..<y}"

fun stream_inv :: "nat \<Rightarrow> nat \<Rightarrow> recorder \<Rightarrow> stream \<Rightarrow> bool" where
  "stream_inv y b rc (Replaying seen i) = (i = y \<and> set seen = ids_upto y rc \<and> queue_inv 0 b rc)"
| "stream_inv y b rc (Following seen) = (set seen = ids_upto y rc \<and> (\<exists>a \<le> y. queue_inv a b rc))"
| "stream_inv y b rc Ended = (rc_closed rc \<and> b \<le> y)"

definition streaming_inv :: "nat \<Rightarrow> streaming \<Rightarrow> bool" where
  "streaming_inv b s \<longleftrightarrow> recorder_inv b (sg_rec s) \<and>
     length (sg_given s) \<le> length (rc_events (sg_rec s)) \<and>
     sg_given s = take (length (sg_given s)) (rc_events (sg_rec s)) \<and>
     stream_inv (length (sg_given s)) b (sg_rec s) (sg_stream s)"

lemma follow_inv:
  assumes "recorder_inv b rc" "queue_inv a b rc" "a \<le> y" "y \<le> length (rc_events rc)" "set seen = ids_upto y rc"
    "follow seen (rc_queue rc) = (t, st, q)"
  shows "(t = Event (rc_events rc ! y) \<and> y < length (rc_events rc) \<and>
      stream_inv (Suc y) b (rc\<lparr>rc_queue := q\<rparr>) st) \<or>
    ((\<forall>e. t \<noteq> Event e) \<and> stream_inv y b (rc\<lparr>rc_queue := q\<rparr>) st)"
proof -
  let ?es = "drop a (take b (rc_events rc))"
  from assms(1,2) have b: "b \<le> length (rc_events rc)" "a \<le> b"
    and q: "rc_queue rc = map Some ?es @ (if rc_closed rc then [None] else [])"
    by (auto simp: recorder_inv_def queue_inv_def)
  have "id_of (?es ! k) \<in> set seen \<longleftrightarrow> k < y - a" if "k < length ?es" for k
    using that assms(1,3,5) b by (auto simp: recorder_inv_def ids_upto_def image_iff)
  from follow_queue [OF this] assms(6) q have f: "(t, st, q) =
    (if y - a < length ?es
     then (Event (?es ! (y - a)), Following (id_of (?es ! (y - a)) # seen),
           map Some (drop (Suc (y - a)) ?es) @ (if rc_closed rc then [None] else []))
     else follow seen (if rc_closed rc then [None] else []))" by simp
  show ?thesis
  proof (cases "y < b")
    case True
    then have lt: "y - a < length ?es" "y - a < b - a" using b assms(3) by auto
    with b assms(3) f have "t = Event (rc_events rc ! y)"
      "st = Following (id_of (rc_events rc ! y) # seen)"
      "q = map Some (drop (Suc y) (take b (rc_events rc))) @ (if rc_closed rc then [None] else [])"
      by (simp_all only: if_True prod.inject) simp_all
    moreover have "id_of (rc_events rc ! y) = event_id (rc_trace rc) (y + 1)"
      using assms(1) True b by (simp add: recorder_inv_def)
    ultimately show ?thesis
      using True b assms(5)
      by (auto simp: ids_upto_def lessThan_Suc queue_inv_def intro!: exI [of _ "Suc y"])
  next
    case False
    with b assms(3) f have "(t, st, q) = follow seen (if rc_closed rc then [None] else [])" by auto
    with False b assms(5) show ?thesis
      by (auto simp: ids_upto_def queue_inv_def split: if_splits intro!: exI [of _ b])
  qed
qed

lemma run_step_inv:
  assumes "streaming_inv b s"
  shows "\<exists>b' \<ge> b. streaming_inv b' (run_step x s) \<and> (rc_closed (sg_rec s) \<longrightarrow> b' = b)"
proof (cases x)
  case (Emitting now e)
  let ?rc = "snd (emit now e (sg_rec s))"
  let ?b = "if rc_closed (sg_rec s) then b else Suc b"
  from assms have r: "recorder_inv b (sg_rec s)" by (simp add: streaming_inv_def)
  have "ids_upto y ?rc = ids_upto y (sg_rec s)" "rc_closed ?rc = rc_closed (sg_rec s)" for y
    by (auto simp: ids_upto_def emit_def Let_def)
  with assms emit_inv [OF r] have "stream_inv (length (sg_given s)) ?b ?rc (sg_stream s)"
    by (cases "sg_stream s") (fastforce simp: streaming_inv_def)+
  moreover have "rc_events ?rc = rc_events (sg_rec s) @ [new_event now e (sg_rec s)]"
    by (simp add: emit_def Let_def)
  ultimately have "streaming_inv ?b (run_step x s)"
    using assms emit_inv(1) [OF r, of now e] by (auto simp: streaming_inv_def Emitting)
  then show ?thesis by (intro exI [of _ ?b]) auto
next
  case Closing
  from assms have r: "recorder_inv b (sg_rec s)" by (simp add: streaming_inv_def)
  have c: "rc_events (close (sg_rec s)) = rc_events (sg_rec s)" "rc_trace (close (sg_rec s)) = rc_trace (sg_rec s)"
    "rc_closed (close (sg_rec s))"
    by (simp_all add: close_def)
  with assms close_inv(2) [OF r] have "stream_inv (length (sg_given s)) b (close (sg_rec s)) (sg_stream s)"
    by (cases "sg_stream s") (auto simp: streaming_inv_def ids_upto_def)
  with assms close_inv(1) [OF r] c have "streaming_inv b (run_step x s)" by (simp add: streaming_inv_def Closing)
  then show ?thesis by blast
next
  case Taking
  let ?rc = "sg_rec s" and ?y = "length (sg_given s)"
  from assms have i: "recorder_inv b ?rc" "?y \<le> length (rc_events ?rc)"
    "sg_given s = take ?y (rc_events ?rc)" "stream_inv ?y b ?rc (sg_stream s)"
    by (simp_all add: streaming_inv_def)
  obtain t st rc' where n: "next_event (sg_stream s) ?rc = (t, st, rc')" by (cases "next_event (sg_stream s) ?rc")
  have queue: "(t = Event (rc_events ?rc ! ?y) \<and> ?y < length (rc_events ?rc) \<and> stream_inv (Suc ?y) b rc' st) \<or>
     ((\<forall>e. t \<noteq> Event e) \<and> stream_inv ?y b rc' st)" "\<exists>q. rc' = ?rc\<lparr>rc_queue := q\<rparr>"
    if "set seen = ids_upto ?y ?rc" "a \<le> ?y" "queue_inv a b ?rc"
      "(t, st, rc') = (case follow seen (rc_queue ?rc) of (t, st', q) \<Rightarrow> (t, st', ?rc\<lparr>rc_queue := q\<rparr>))" for seen a
    using follow_inv [OF i(1) that(3,2) i(2) that(1)] that(4) by (auto split: prod.splits)
  have "((t = Event (rc_events ?rc ! ?y) \<and> ?y < length (rc_events ?rc) \<and> stream_inv (Suc ?y) b rc' st) \<or>
     ((\<forall>e. t \<noteq> Event e) \<and> stream_inv ?y b rc' st)) \<and> (\<exists>q. rc' = ?rc\<lparr>rc_queue := q\<rparr>)"
  proof (cases "sg_stream s")
    case (Replaying seen j)
    show ?thesis
    proof (cases "j < length (rc_events ?rc)")
      case True
      have "id_of (rc_events ?rc ! ?y) = event_id (rc_trace ?rc) (?y + 1)"
        using i(1,4) True Replaying by (simp add: recorder_inv_def)
      with True n i(4) Replaying show ?thesis
        by (auto simp: next_event_def Let_def ids_upto_def lessThan_Suc intro!: exI [of _ "rc_queue ?rc"])
    next
      case False
      with n i(4) Replaying queue [of seen 0] show ?thesis by (simp add: next_event_def)
    qed
  next
    case (Following seen)
    with i(4) obtain a where "a \<le> ?y" "queue_inv a b ?rc" "set seen = ids_upto ?y ?rc" by auto
    with n Following queue [of seen a] show ?thesis by (simp add: next_event_def)
  next
    case Ended
    with n i(4) show ?thesis by (auto simp: next_event_def intro!: exI [of _ "rc_queue ?rc"])
  qed
  moreover from this have "recorder_inv b rc'" "rc_events rc' = rc_events ?rc"
    using i(1) by (auto simp: recorder_inv_def)
  ultimately have "streaming_inv b (run_step x s)"
    using n i(2,3) by (auto simp: streaming_inv_def Taking take_Suc_conv_app_nth split: taken.splits)
  then show ?thesis by blast
qed

lemma run_inv:
  "streaming_inv b s \<Longrightarrow> \<exists>b' \<ge> b. streaming_inv b' (fold run_step xs s)"
proof (induction xs arbitrary: b s)
  case (Cons x xs)
  from run_step_inv [OF Cons.prems] obtain c where "b \<le> c" "streaming_inv c (run_step x s)" by blast
  with Cons.IH [of c] obtain d where "c \<le> d" "streaming_inv d (fold run_step xs (run_step x s))" by blast
  with \<open>b \<le> c\<close> show ?case by (intro exI [of _ d]) simp
qed auto

lemma next_event_rec: "next_event st rc = (t, st', rc') \<Longrightarrow> \<exists>q. rc' = rc\<lparr>rc_queue := q\<rparr>"
  by (cases st) (auto simp: next_event_def Let_def split: prod.splits if_splits intro: exI [of _ "rc_queue rc"])

lemma run_step_events:
  "prefix (rc_events (sg_rec s)) (rc_events (sg_rec (run_step x s))) \<and>
   (rc_closed (sg_rec (run_step x s)) \<longleftrightarrow> x = Closing \<or> rc_closed (sg_rec s))"
proof (cases x)
  case Taking
  then show ?thesis using next_event_rec [of "sg_stream s" "sg_rec s"] by (fastforce split: prod.splits)
qed (auto simp: emit_def Let_def close_def)

lemma run_events:
  "prefix (rc_events (sg_rec s)) (rc_events (sg_rec (fold run_step xs s))) \<and>
   (rc_closed (sg_rec (fold run_step xs s)) \<longleftrightarrow> Closing \<in> set xs \<or> rc_closed (sg_rec s))"
proof (induction xs arbitrary: s)
  case (Cons x xs)
  from Cons [of "run_step x s"] run_step_events [of s x] show ?case by (auto intro: prefix_order.trans)
qed simp

section \<open>A closed recorder is drained\<close>

lemma follow_closed:
  "None \<in> set q \<Longrightarrow> follow seen q = (t, st, q') \<Longrightarrow> (\<exists>e. t = Event e) \<or> st = Ended"
  by (induction seen q rule: follow.induct) (auto split: if_splits)

lemma taking_closed:
  assumes "streaming_inv b s" "rc_closed (sg_rec s)"
  shows "sg_stream (run_step Taking s) = Ended \<or>
    length (sg_given (run_step Taking s)) = Suc (length (sg_given s))"
proof -
  obtain t st rc' where n: "next_event (sg_stream s) (sg_rec s) = (t, st, rc')"
    by (cases "next_event (sg_stream s) (sg_rec s)")
  have "None \<in> set (rc_queue (sg_rec s)) \<or> sg_stream s = Ended"
    using assms by (cases "sg_stream s") (auto simp: streaming_inv_def queue_inv_def)
  with n have "(\<exists>e. t = Event e) \<or> st = Ended"
    by (cases "sg_stream s") (auto simp: next_event_def Let_def dest: follow_closed split: if_splits prod.splits)
  with n show ?thesis by auto
qed

lemma taking_ended: "sg_stream s = Ended \<Longrightarrow> fold run_step (replicate n Taking) s = s"
proof (induction n)
  case (Suc n)
  have "run_step Taking s = s" using Suc.prems by (simp add: next_event_def)
  with Suc show ?case by (simp only: replicate_Suc fold_simps simp_thms)
qed simp

lemma drained:
  "streaming_inv b s \<Longrightarrow> rc_closed (sg_rec s) \<Longrightarrow> length (rc_events (sg_rec s)) < length (sg_given s) + n \<Longrightarrow>
   sg_stream (fold run_step (replicate n Taking) s) = Ended"
proof (induction n arbitrary: b s)
  case 0
  then show ?case by (simp add: streaming_inv_def)
next
  case (Suc n)
  from run_step_inv [OF Suc.prems(1)] obtain c where c: "streaming_inv c (run_step Taking s)" by blast
  have ev: "rc_events (sg_rec (run_step Taking s)) = rc_events (sg_rec s)"
    using next_event_rec [of "sg_stream s" "sg_rec s"] by (fastforce split: prod.splits)
  show ?case
  proof (cases "sg_stream (run_step Taking s) = Ended")
    case True
    then show ?thesis using taking_ended [OF True, of n] by (simp only: replicate_Suc fold_simps)
  next
    case False
    with taking_closed [OF Suc.prems(1,2)] Suc.prems(3) ev
    have "length (rc_events (sg_rec (run_step Taking s))) < length (sg_given (run_step Taking s)) + n" by simp
    with Suc.IH [OF c] run_step_events [of s Taking] Suc.prems(2) show ?thesis
      by (simp only: replicate_Suc fold_simps simp_thms)
  qed
qed

lemma run_steps_count: "length (rc_events (sg_rec (fold run_step xs s))) \<le> length (rc_events (sg_rec s)) + length xs"
proof (induction xs arbitrary: s)
  case (Cons x xs)
  have "length (rc_events (sg_rec (run_step x s))) \<le> Suc (length (rc_events (sg_rec s)))"
    using next_event_rec [of "sg_stream s" "sg_rec s"]
    by (cases x) (fastforce simp: emit_def Let_def close_def split: prod.splits)+
  with Cons [of "run_step x s"] show ?case by simp
qed simp

abbreviation started :: "string \<Rightarrow> string \<Rightarrow> string \<Rightarrow> streaming" where
  "started trace_id source scope \<equiv> new_streaming (new_recorder trace_id source scope)"

text \<open>Events of a tool run are recorded while a client streams them: however the recording, the
  closing and the client's requests interleave, the client receives events in the order they were
  recorded, none twice and none skipped, although each of them is both in the list and in the queue;
  and after the closing the stream ends, having given everything recorded before it.\<close>

theorem stream_in_order:
  "prefix (sg_given (fold run_step steps (started trace_id source scope)))
     (rc_events (sg_rec (fold run_step steps (started trace_id source scope)))) \<and>
   (let recorded = rc_events (sg_rec (fold run_step (takeWhile (\<lambda>x. x \<noteq> Closing) steps) (started trace_id source scope)));
        final = fold run_step (steps @ Closing # replicate (Suc (length steps)) Taking) (started trace_id source scope)
    in sg_stream final = Ended \<and> prefix recorded (sg_given final) \<and>
       prefix (sg_given final) (rc_events (sg_rec final)))"
proof -
  let ?s = "started trace_id source scope"
  let ?us = "takeWhile (\<lambda>x. x \<noteq> Closing) steps" and ?vs = "dropWhile (\<lambda>x. x \<noteq> Closing) steps"
  let ?m = "fold run_step (steps @ [Closing]) ?s"
  let ?f = "fold run_step (replicate (Suc (length steps)) Taking) ?m"
  have start: "streaming_inv 0 ?s"
    by (simp add: streaming_inv_def new_streaming_def new_recorder_def recorder_inv_def queue_inv_def ids_upto_def)
  have pre: "prefix (sg_given s) (rc_events (sg_rec s))" if "streaming_inv b s" for b s
    using that unfolding streaming_inv_def by (metis take_is_prefix)
  from run_inv [OF start] obtain b where u: "streaming_inv b (fold run_step ?us ?s)" by blast
  have "\<not> rc_closed (sg_rec (fold run_step ?us ?s))"
    using run_events [where s = ?s and xs = ?us] by (auto simp: new_streaming_def new_recorder_def dest: set_takeWhileD)
  with u have b: "b = length (rc_events (sg_rec (fold run_step ?us ?s)))"
    by (simp add: streaming_inv_def recorder_inv_def)
  have m: "?m = fold run_step (?vs @ [Closing]) (fold run_step ?us ?s)"
    by (metis append.assoc fold_append o_apply takeWhile_dropWhile_id)
  with run_inv [OF u] obtain c where c: "b \<le> c" "streaming_inv c ?m" by metis
  then obtain d where d: "b \<le> d" "streaming_inv d ?f" using run_inv [OF c(2)] order_trans by blast
  have "rc_closed (sg_rec ?m)" using run_events [where s = ?s and xs = "steps @ [Closing]"] by simp
  moreover have "length (rc_events (sg_rec ?m)) \<le> length steps"
    using run_steps_count [where s = ?s and xs = steps]
    by (simp add: new_streaming_def new_recorder_def close_def)
  ultimately have ended: "sg_stream ?f = Ended" by (intro drained [OF c(2)]) simp_all
  have "b \<le> length (sg_given ?f)" using d ended by (simp add: streaming_inv_def)
  moreover have "prefix (rc_events (sg_rec (fold run_step ?us ?s))) (rc_events (sg_rec ?f))"
    using run_events prefix_order.trans m by metis
  ultimately have "prefix (rc_events (sg_rec (fold run_step ?us ?s))) (sg_given ?f)"
    using pre [OF d(2)] b prefix_length_prefix by blast
  moreover have "fold run_step (steps @ Closing # replicate (Suc (length steps)) Taking) ?s = ?f" by simp
  ultimately show ?thesis
    using pre [OF d(2)] run_inv [OF start, of steps] pre ended by (simp only: Let_def) blast
qed

end
