(* ===== verification/Tool_Executor.thy ===== *)
theory Tool_Executor
  imports Tool_Commands Tool_Trace
begin

text \<open>
  The executor of tool calls (\<open>core/agent_tools/executor.py\<close>), its table of adapters
  (\<open>adapters/__init__.py\<close>), the tools on the code graph of a project (\<open>core/code_graph/tools.py\<close>),
  the log of calls (\<open>ToolTraceWriter\<close>) and the list of tools a model is told
  (\<open>registry.py\<close>). The store of the code graph is a record of functions.
\<close>

section \<open>The code graph\<close>

record 'w graph_store =
  gs_active :: "string \<Rightarrow> ('w, pyval option) eff"
  gs_symbols :: "string \<Rightarrow> string \<Rightarrow> string option \<Rightarrow> ('w, pyval list) eff"
  gs_context :: "string \<Rightarrow> string \<Rightarrow> ('w, pyval option) eff"
  gs_relations :: "string \<Rightarrow> string \<Rightarrow> string \<Rightarrow> string \<Rightarrow> nat \<Rightarrow> ('w, pyval list) eff"

definition graph_tool_names :: "string list" where
  "graph_tool_names =
     [''graph_overview'', ''graph_find_symbol'', ''graph_symbol_context'', ''graph_trace_callers'',
      ''graph_trace_callees'', ''graph_find_references'', ''graph_find_routes'', ''graph_find_components'']"

definition required_string :: "pydict \<Rightarrow> string \<Rightarrow> ('s, string) eff" where
  "required_string args k = (case dget args k of
       PStr s \<Rightarrow> if strip s = [] then raise_exn (Exn ''ValueError'' (k @ '' must be a non-empty string''))
                else ret (strip s)
     | _ \<Rightarrow> raise_exn (Exn ''ValueError'' (k @ '' must be a non-empty string'')))"

definition optional_string :: "pydict \<Rightarrow> string \<Rightarrow> ('s, string option) eff" where
  "optional_string args k = (case dget args k of
       PNone \<Rightarrow> ret None
     | PStr s \<Rightarrow> ret (if strip s = [] then None else Some (strip s))
     | _ \<Rightarrow> raise_exn (Exn ''ValueError'' (k @ '' must be a string'')))"

definition graph_symbols :: "pyval list \<Rightarrow> pydict" where
  "graph_symbols found = [(''ok'', PBool True), (''symbols'', PList found)]"

definition trace_relations ::
  "'w graph_store \<Rightarrow> string \<Rightarrow> string \<Rightarrow> pydict \<Rightarrow> ('w, pydict) eff" where
  "trace_relations gs project direction args =
     seqE (required_string args ''symbol_id'') (\<lambda>symbol.
     seqE (optional_string args ''relation_type'') (\<lambda>rel.
     seqE (gs_relations gs project symbol direction (case rel of None \<Rightarrow> ''calls_best_effort'' | Some r \<Rightarrow> r) 1)
       (\<lambda>found. ret [(''ok'', PBool True), (''relations'', PList found)])))"

definition execute_graph_tool ::
  "'w graph_store \<Rightarrow> string \<Rightarrow> string \<Rightarrow> pydict \<Rightarrow> ('w, pydict) eff" where
  "execute_graph_tool gs project name args =
     (if name = ''graph_overview''
      then seqE (gs_active gs project) (\<lambda>active. ret (case active of
             None \<Rightarrow> tool_error ''Project graph is not indexed''
           | Some snapshot \<Rightarrow> [(''ok'', PBool True), (''snapshot'', snapshot)]))
      else if name = ''graph_find_symbol''
      then seqE (required_string args ''query'') (\<lambda>query.
           seqE (optional_string args ''kind'') (\<lambda>kind.
           seqE (gs_symbols gs project query kind) (\<lambda>found. ret (graph_symbols found))))
      else if name = ''graph_symbol_context''
      then seqE (required_string args ''symbol_id'') (\<lambda>symbol.
           seqE (gs_context gs project symbol) (\<lambda>found. ret (case found of
             None \<Rightarrow> tool_error (''Symbol not found: '' @ symbol)
           | Some s \<Rightarrow> [(''ok'', PBool True), (''symbol'', s)])))
      else if name = ''graph_trace_callers'' then trace_relations gs project ''in'' args
      else if name = ''graph_trace_callees'' then trace_relations gs project ''out'' args
      else if name = ''graph_find_references''
      then seqE (required_string args ''symbol_id'') (\<lambda>symbol.
           seqE (gs_relations gs project symbol ''in'' ''component_uses'' 1) (\<lambda>found.
             ret [(''ok'', PBool True), (''relations'', PList found)]))
      else if name = ''graph_find_routes''
      then seqE (gs_symbols gs project [] (Some ''route'')) (\<lambda>found. ret (graph_symbols found))
      else if name = ''graph_find_components''
      then seqE (gs_symbols gs project [] (Some ''component'')) (\<lambda>found. ret (graph_symbols found))
      else ret (tool_error (''Unknown project graph tool '' @ str_repr name)))"

section \<open>Adapters\<close>

type_synonym 'w adapter = "tool_def \<Rightarrow> pydict \<Rightarrow> ('w host, pydict) eff"

definition default_adapters :: "'w system \<Rightarrow> tools_config \<Rightarrow> (string \<times> 'w adapter) list" where
  "default_adapters S cfg =
     [(''shell'', shell S cfg),
      (''file_read'', \<lambda>t a. on_files (file_read cfg t a)),
      (''file_read_dynamic'', \<lambda>t a. on_files (file_read_dynamic cfg t a)),
      (''file_write'', \<lambda>t a. on_files (file_write cfg t a)),
      (''http'', \<lambda>t a. on_world (http_tool (sy_http S) (sy_policy S) cfg t a)),
      (''directory_list'', \<lambda>t a. on_files (directory_list cfg t a)),
      (''file_search'', \<lambda>t a. on_files (file_search (sy_match S) cfg t a)),
      (''text_search'', \<lambda>t a. on_files (text_search (sy_match S) cfg t a)),
      (''git_status'', git_status S cfg),
      (''git_diff'', git_diff S cfg),
      (''git_log'', git_log S cfg),
      (''process_status'', process_status S cfg),
      (''http_json'', \<lambda>t a. on_world (http_json_tool (sy_http S) (sy_policy S) cfg t a)),
      (''log_tail'', \<lambda>t a. on_files (log_tail cfg t a)),
      (''sqlite_query'', sqlite_query S cfg),
      (''web_fetch'', \<lambda>t a. on_world (web_fetch (sy_http S) (sy_policy S) cfg t a))] @
     (case sy_memory S of None \<Rightarrow> []
      | Some search \<Rightarrow> [(''memory_write'', memory_write), (''memory_search'', memory_search search)])"

section \<open>The executor\<close>

text \<open>The state around a run of tools: the host, the recorder of events and the log of calls. The times
  are functions of how much has been written.\<close>

record 'w tool_run =
  tr_host :: "'w host"
  tr_recorder :: "recorder option"
  tr_traces :: "pydict list"

record 'w toolbox =
  tb_config :: tools_config
  tb_adapters :: "(string \<times> 'w adapter) list"
  tb_graph :: "('w graph_store \<times> string) option"
  tb_now :: "nat \<Rightarrow> string"
  tb_ms :: "nat \<Rightarrow> rat"

definition record_event :: "'w toolbox \<Rightarrow> emission \<Rightarrow> 'w tool_run \<Rightarrow> 'w tool_run" where
  "record_event T e r = (case tr_recorder r of
       None \<Rightarrow> r
     | Some rc \<Rightarrow> r\<lparr>tr_recorder := Some (snd (emit (tb_now T (rc_sequence rc)) e rc))\<rparr>)"

text \<open>\<open>event["locations"] = locations\<close>, on the event just emitted: one object, in the list and in the queue.\<close>

definition update_last :: "('a \<Rightarrow> 'a) \<Rightarrow> 'a list \<Rightarrow> 'a list" where
  "update_last f xs = (if xs = [] then [] else butlast xs @ [f (last xs)])"

definition attach_locations :: "pyval list \<Rightarrow> recorder \<Rightarrow> recorder" where
  "attach_locations locs rc =
     (let f = AList.update ''locations'' (PList locs) in
      rc\<lparr>rc_events := update_last f (rc_events rc),
         rc_queue := (if rc_closed rc then rc_queue rc else update_last (map_option f) (rc_queue rc))\<rparr>)"

definition trace_result_chars :: nat where
  "trace_result_chars = 2000"

definition or_else :: "pyval \<Rightarrow> pyval \<Rightarrow> pyval" where
  "or_else v w = (if truthy v then v else w)"

definition trace_of :: "string \<Rightarrow> string \<Rightarrow> string \<Rightarrow> string \<Rightarrow> rat \<Rightarrow> pydict \<Rightarrow> pydict" where
  "trace_of request_id model name adapter_type ms result =
     [(''request_id'', PStr request_id), (''model'', PStr model), (''tool_name'', PStr name),
      (''adapter_type'', PStr adapter_type), (''duration_ms'', PFloat ms),
      (''status'', PStr (if truthy (dget result ''ok'') then ''ok'' else ''error'')),
      (''exit_code'', dget result ''exit_code''), (''status_code'', dget result ''status_code''),
      (''error'', or_else (dget result ''error'') (PStr [])),
      (''locations'', or_else (dget result ''locations'') (PList [])),
      (''result_preview'', PStr (truncate_text (py_str (or_else (dget result ''content'') (PStr []))) trace_result_chars))]"

definition write_trace ::
  "'w toolbox \<Rightarrow> string \<Rightarrow> string \<Rightarrow> string \<Rightarrow> string \<Rightarrow> pydict \<Rightarrow> 'w tool_run \<Rightarrow> 'w tool_run" where
  "write_trace T request_id model name adapter_type result r =
     r\<lparr>tr_traces := tr_traces r @
        [trace_of request_id model name adapter_type (tb_ms T (length (tr_traces r))) result]\<rparr>"

definition emit_completed ::
  "'w toolbox \<Rightarrow> string \<Rightarrow> pydict \<Rightarrow> pydict \<Rightarrow> string \<Rightarrow> string option \<Rightarrow> string option \<Rightarrow> 'w tool_run \<Rightarrow> 'w tool_run" where
  "emit_completed T name args result model case_id call_id r =
     (let ok = truthy (dget result ''ok'');
          r' = record_event T
            ((emission_of (if ok then ''tool_call_completed'' else ''tool_call_failed''))
               \<lparr>em_status := (if ok then ''passed'' else ''failed''), em_case := case_id, em_call := call_id,
                em_model := Some model, em_title := name @ '' '' @ (if ok then ''completed'' else ''failed''),
                em_payload := [(''tool_name'', PStr name), (''arguments'', PDict args),
                  (''duration_ms'', PFloat (tb_ms T (length (tr_traces r)))), (''result'', PDict result)]\<rparr>) r
      in case dget result ''locations'' of
           PList locs \<Rightarrow> r'\<lparr>tr_recorder := map_option (attach_locations locs) (tr_recorder r')\<rparr>
         | _ \<Rightarrow> r')"

definition emit_started ::
  "'w toolbox \<Rightarrow> string \<Rightarrow> pydict \<Rightarrow> string \<Rightarrow> string option \<Rightarrow> string option \<Rightarrow> 'w tool_run \<Rightarrow> 'w tool_run" where
  "emit_started T name args model case_id call_id =
     record_event T ((emission_of ''tool_call_started'')
       \<lparr>em_case := case_id, em_call := call_id, em_model := Some model, em_title := name @ '' started'',
        em_payload := [(''tool_name'', PStr name), (''arguments'', PDict args)]\<rparr>)"

definition on_host :: "('w host, 'a) eff \<Rightarrow> ('w tool_run, 'a) eff" where
  "on_host m = (\<lambda>r. case m (tr_host r) of (x, h) \<Rightarrow> (x, r\<lparr>tr_host := h\<rparr>))"

text \<open>\<open>except Exception as exc: {"ok": False, "error": str(exc)}\<close>.\<close>

definition as_result :: "('s, pydict) eff \<Rightarrow> 's \<Rightarrow> pydict \<times> 's" where
  "as_result m = (\<lambda>s. case m s of (Inl e, s') \<Rightarrow> (tool_error (exn_text e), s') | (Inr d, s') \<Rightarrow> (d, s'))"

text \<open>Which adapter answers, and the type that is logged.\<close>

definition run_tool :: "'w toolbox \<Rightarrow> string \<Rightarrow> pydict \<Rightarrow> 'w host \<Rightarrow> (string \<times> pydict) \<times> 'w host" where
  "run_tool T name args h =
     (if name \<in> set graph_tool_names
      then (case tb_graph T of
              None \<Rightarrow> ((''project_graph'', tool_error ''Project graph tools require an active project_id''), h)
            | Some (gs, project) \<Rightarrow>
                (case as_result (on_world (execute_graph_tool gs project name args)) h of
                   (d, h') \<Rightarrow> ((''project_graph'', d), h')))
      else case map_of (tc_tools (tb_config T)) name of
        None \<Rightarrow> ((''unknown'', tool_error (''Unknown tool '' @ str_repr name)), h)
      | Some tool \<Rightarrow>
          (case map_of (tb_adapters T) (tl_type tool) of
             None \<Rightarrow> ((tl_type tool, tool_error (''Unsupported tool adapter '' @ str_repr (tl_type tool))), h)
           | Some adapter \<Rightarrow> (case as_result (adapter tool args) h of (d, h') \<Rightarrow> ((tl_type tool, d), h'))))"

definition execute ::
  "'w toolbox \<Rightarrow> string \<Rightarrow> pydict \<Rightarrow> string \<Rightarrow> string \<Rightarrow> string option \<Rightarrow> string option \<Rightarrow> 'w tool_run
     \<Rightarrow> pydict \<times> 'w tool_run" where
  "execute T name args request_id model case_id call_id r =
     (let r1 = emit_started T name args model case_id call_id r
      in case run_tool T name args (tr_host r1) of
           ((kind, result), h) \<Rightarrow>
             (result, emit_completed T name args result model case_id call_id
                (write_trace T request_id model name kind result (r1\<lparr>tr_host := h\<rparr>))))"

section \<open>What a model is told\<close>

definition default_parameters :: "string \<Rightarrow> pydict" where
  "default_parameters t =
     (if t = ''file_read_dynamic''
      then [(''type'', PStr ''object''),
            (''properties'', PDict
               [(''path'', PDict [(''type'', PStr ''string''),
                   (''description'', PStr ''Relative file path under the configured root.'')]),
                (''start_line'', PDict [(''type'', PStr ''integer''), (''minimum'', PInt 1),
                   (''description'', PStr ''Optional 1-based first line to read.'')]),
                (''end_line'', PDict [(''type'', PStr ''integer''), (''minimum'', PInt 1),
                   (''description'', PStr ''Optional 1-based last line to read.'')])]),
            (''required'', PList [PStr ''path'']), (''additionalProperties'', PBool False)]
      else [(''type'', PStr ''object''), (''properties'', PDict []), (''additionalProperties'', PBool False)])"

definition openai_tool :: "string \<Rightarrow> tool_def \<Rightarrow> pyval" where
  "openai_tool name tool =
     PDict [(''type'', PStr ''function''),
       (''function'', PDict [(''name'', PStr name), (''description'', PStr (tl_description tool)),
          (''parameters'', PDict (if tl_parameters tool = [] then default_parameters (tl_type tool)
                                  else tl_parameters tool))])]"

definition openai_tools :: "tools_config \<Rightarrow> pyval list \<Rightarrow> pyval list" where
  "openai_tools cfg runtime = runtime @ map (\<lambda>(name, tool). openai_tool name tool) (tc_tools cfg)"

section \<open>The tools of the code graph\<close>

definition graph_tool :: "string \<Rightarrow> string \<Rightarrow> pydict \<Rightarrow> pyval" where
  "graph_tool name description parameters =
     PDict [(''type'', PStr ''function''),
       (''function'', PDict [(''name'', PStr name), (''description'', PStr description),
          (''parameters'', PDict parameters)])]"

definition empty_schema :: pydict where
  "empty_schema = [(''type'', PStr ''object''), (''properties'', PDict []), (''additionalProperties'', PBool False)]"

definition object_schema :: "pydict \<Rightarrow> string list \<Rightarrow> pydict" where
  "object_schema props req = [(''type'', PStr ''object''), (''properties'', PDict props),
     (''required'', PList (map PStr req)), (''additionalProperties'', PBool False)]"

definition string_schema :: "string \<Rightarrow> pyval" where
  "string_schema description = PDict [(''type'', PStr ''string''), (''description'', PStr description)]"

definition graph_tool_definitions :: "pyval list" where
  "graph_tool_definitions =
     [graph_tool ''graph_overview'' ''Summarize the indexed project code graph.'' empty_schema,
      graph_tool ''graph_find_symbol'' ''Find code symbols by name or qualified name in the indexed project graph.''
        (object_schema [(''query'', string_schema ''Symbol name or qualified-name fragment.''),
           (''kind'', string_schema ''Optional symbol kind filter.'')] [''query'']),
      graph_tool ''graph_symbol_context''
        ''Load file, line, and signature context for a symbol id from the indexed project graph.''
        (object_schema [(''symbol_id'', string_schema ''Symbol id returned by another graph tool.'')] [''symbol_id'']),
      graph_tool ''graph_trace_callers'' ''Find symbols that call the supplied symbol id.''
        (object_schema [(''symbol_id'', string_schema ''Symbol id to trace.''),
           (''relation_type'', string_schema ''Optional relation type. Defaults to calls_best_effort.'')] [''symbol_id'']),
      graph_tool ''graph_trace_callees'' ''Find symbols called by the supplied symbol id.''
        (object_schema [(''symbol_id'', string_schema ''Symbol id to trace.''),
           (''relation_type'', string_schema ''Optional relation type. Defaults to calls_best_effort.'')] [''symbol_id'']),
      graph_tool ''graph_find_references'' ''Find graph references to a symbol id.''
        (object_schema [(''symbol_id'', string_schema ''Symbol id to find references for.'')] [''symbol_id'']),
      graph_tool ''graph_find_routes'' ''Find indexed API or UI route symbols.'' empty_schema,
      graph_tool ''graph_find_components'' ''Find indexed React component symbols.'' empty_schema]"

end
