(* ===== verification/Tool_Results.thy ===== *)
theory Tool_Results
  imports Tool_Executor
begin

text \<open>
  What every tool answers, and what the executor records of a call. \<open>tool_adapters\<close> states the
  contract of the adapters (\<open>ToolAdapter\<close> in \<open>adapters/__init__.py\<close>), by which the executor is proved;
  the table of the code is an instance.
\<close>

section \<open>The type of results\<close>

definition typed_result :: "pydict \<Rightarrow> bool" where
  "typed_result d =
     ((case map_of d ''ok'' of Some (PBool b) \<Rightarrow> True | _ \<Rightarrow> False) \<and>
      (case map_of d ''error'' of None \<Rightarrow> True | Some (PStr s) \<Rightarrow> True | _ \<Rightarrow> False) \<and>
      (case map_of d ''locations'' of None \<Rightarrow> True | Some (PList l) \<Rightarrow> True | _ \<Rightarrow> False))"

lemma typed_result_error [simp]: "typed_result (tool_error msg)"
  by (simp add: typed_result_def tool_error_def)

text \<open>A result that is not an exception satisfies \<open>P\<close>.\<close>

definition yields :: "('a \<Rightarrow> bool) \<Rightarrow> ('s, 'a) eff \<Rightarrow> bool" where
  "yields P m \<longleftrightarrow> (\<forall>s d s'. m s = (Inr d, s') \<longrightarrow> P d)"

named_theorems yields_rules

lemma yields_ret [yields_rules]: "P x \<Longrightarrow> yields P (ret x)"
  by (simp add: yields_def ret_def)

lemma yields_raise [yields_rules]: "yields P (raise_exn e)"
  by (simp add: yields_def raise_exn_def)

lemma yields_seq [yields_rules]: "(\<And>x. yields P (f x)) \<Longrightarrow> yields P (seqE m f)"
  by (auto simp: yields_def seqE_def split: prod.splits sum.splits)

lemma yields_try [yields_rules]: "yields P m \<Longrightarrow> (\<And>e. yields P (h e)) \<Longrightarrow> yields P (tryE m h)"
  by (fastforce simp: yields_def tryE_def split: prod.splits sum.splits)

lemma yields_files [yields_rules]: "yields P m \<Longrightarrow> yields P (on_files m)"
  by (fastforce simp: yields_def on_files_def split: prod.splits)

lemma yields_world [yields_rules]: "yields P m \<Longrightarrow> yields P (on_world m)"
  by (fastforce simp: yields_def on_world_def split: prod.splits)

lemma yields_answer [yields_rules]: "typed_result d \<Longrightarrow> yields typed_result (answer d)"
  by (simp add: answer_def yields_rules)

lemma yields_refuse [yields_rules]: "yields typed_result (refuse msg)"
  by (simp add: refuse_def yields_rules)

lemma yields_if [yields_rules]:
  "(b \<Longrightarrow> yields P m) \<Longrightarrow> (\<not> b \<Longrightarrow> yields P n) \<Longrightarrow> yields P (if b then m else n)"
  by simp

lemma yields_prod [yields_rules]: "(\<And>a b. yields P (f a b)) \<Longrightarrow> yields P (case p of (a, b) \<Rightarrow> f a b)"
  by (cases p) simp

lemma yields_option [yields_rules]:
  "yields P m \<Longrightarrow> (\<And>x. yields P (f x)) \<Longrightarrow> yields P (case v of None \<Rightarrow> m | Some x \<Rightarrow> f x)"
  by (cases v) auto

lemma yields_sum [yields_rules]:
  "(\<And>e. yields P (f e)) \<Longrightarrow> (\<And>x. yields P (g x)) \<Longrightarrow> yields P (case v of Inl e \<Rightarrow> f e | Inr x \<Rightarrow> g x)"
  by (cases v) auto

lemma yields_Let [yields_rules]: "(\<And>x. yields P (f x)) \<Longrightarrow> yields P (let x = v in f x)"
  by simp

lemma yields_pyval [yields_rules]:
  assumes "yields P a" "\<And>x. yields P (b x)" "\<And>x. yields P (c x)" "\<And>x. yields P (d x)" "\<And>x. yields P (e x)"
    "\<And>x. yields P (f x)" "\<And>x. yields P (g x)"
  shows "yields P (case v of PNone \<Rightarrow> a | PBool x \<Rightarrow> b x | PInt x \<Rightarrow> c x | PFloat x \<Rightarrow> d x | PStr x \<Rightarrow> e x
    | PList x \<Rightarrow> f x | PDict x \<Rightarrow> g x)"
  using assms by (cases v) simp_all

lemma yields_with_directory [yields_rules]:
  "(\<And>base. yields typed_result (body base)) \<Longrightarrow> yields typed_result (with_directory cfg t body)"
  unfolding with_directory_def by (intro yields_rules)

lemma yields_with_repo [yields_rules]:
  "(\<And>repo. yields typed_result (body repo)) \<Longrightarrow> yields typed_result (with_repo cfg tool kind body)"
  unfolding with_repo_def by (intro yields_rules typed_result_error)

lemmas typed_simps = typed_result_def tool_error_def git_failure_def

section \<open>The adapters\<close>

lemma file_read_typed: "yields typed_result (file_read cfg tool args)"
  unfolding file_read_def by (rule yields_rules | simp add: typed_simps)+

lemma file_read_dynamic_typed: "yields typed_result (file_read_dynamic cfg tool args)"
  unfolding file_read_dynamic_def by (rule yields_rules | simp add: typed_simps)+

lemma file_write_typed: "yields typed_result (file_write cfg tool args)"
  unfolding file_write_def by (rule yields_rules | simp add: typed_simps)+

lemma log_tail_typed: "yields typed_result (log_tail cfg tool args)"
  unfolding log_tail_def by (rule yields_rules | simp add: typed_simps)+

lemma directory_list_typed: "yields typed_result (directory_list cfg tool args)"
  unfolding directory_list_def by (rule yields_rules | simp add: typed_simps)+

lemma file_search_typed: "yields typed_result (file_search mt cfg tool args)"
  unfolding file_search_def by (rule yields_rules | simp add: typed_simps)+

lemma text_search_typed: "yields typed_result (text_search mt cfg tool args)"
  unfolding text_search_def by (rule yields_rules | simp add: typed_simps)+

lemma http_tool_typed: "yields typed_result (http_tool C np cfg tool args)"
  unfolding http_tool_def by (rule yields_rules | simp add: typed_simps)+

lemma http_json_tool_typed: "yields typed_result (http_json_tool C np cfg tool args)"
  unfolding http_json_tool_def by (rule yields_rules | simp add: typed_simps split: sum.splits)+

lemma web_fetch_typed: "yields typed_result (web_fetch C np cfg tool args)"
  unfolding web_fetch_def by (rule yields_rules | simp add: typed_simps fetched_def Let_def)+

lemma git_tools_typed:
  "yields typed_result (git_status S cfg tool args)" "yields typed_result (git_diff S cfg tool args)"
  "yields typed_result (git_log S cfg tool args)"
  unfolding git_status_def git_diff_def git_log_def by (rule yields_rules | simp add: typed_simps)+

lemma shell_typed: "yields typed_result (shell S cfg tool args)"
  unfolding shell_def by (rule yields_rules | simp add: typed_simps split: process_end.splits)+

lemma process_status_typed: "yields typed_result (process_status S cfg tool args)"
  unfolding process_status_def by (rule yields_rules | simp add: typed_simps)+

lemma yields_seq_keep:
  "yields Q m \<Longrightarrow> (\<And>x. Q x \<Longrightarrow> P (f x)) \<Longrightarrow> yields P (seqE m (\<lambda>x. ret (f x)))"
  by (fastforce simp: yields_def seqE_def ret_def split: prod.splits sum.splits)

lemma sqlite_query_typed: "yields typed_result (sqlite_query S cfg tool args)"
proof -
  have run: "yields typed_result (sqlite_execute S p q n)" for p q n
    unfolding sqlite_execute_def by (rule yields_rules | simp add: typed_simps)+
  have named: "yields typed_result (seqE (sqlite_execute S p q n) (\<lambda>r.
      ret (case db of None \<Rightarrow> r | Some name \<Rightarrow> AList.update ''db'' (PStr name) r)))" for p q n db
    by (rule yields_seq_keep [OF run]) (simp add: typed_result_def update_conv' split: option.splits)
  show ?thesis unfolding sqlite_query_def by (rule named yields_rules typed_result_error)+
qed

lemma memory_search_typed: "yields typed_result (memory_search search tool args)"
  unfolding memory_search_def by (rule yields_rules | simp add: typed_simps)+

lemma memory_write_typed: "yields typed_result (memory_write tool args)"
  by (auto simp: memory_write_def yields_def ret_def Let_def typed_simps split: if_splits)

lemma graph_tool_typed: "yields typed_result (execute_graph_tool gs project name args)"
  unfolding execute_graph_tool_def trace_relations_def
  by (rule yields_rules | simp add: typed_simps graph_symbols_def split: option.splits)+

lemmas adapters_typed =
  file_read_typed file_read_dynamic_typed file_write_typed log_tail_typed directory_list_typed file_search_typed
  text_search_typed http_tool_typed http_json_tool_typed web_fetch_typed git_tools_typed shell_typed
  process_status_typed sqlite_query_typed memory_search_typed memory_write_typed

section \<open>The contract of the adapters\<close>

locale tool_adapters =
  fixes table :: "(string \<times> 'w adapter) list"
  assumes typed: "(t, ad) \<in> set table \<Longrightarrow> yields typed_result (ad tool args)"
begin

lemma adapter_typed: "map_of table t = Some ad \<Longrightarrow> yields typed_result (ad tool args)"
  by (blast intro: typed dest: map_of_SomeD)

lemma as_result_typed: "yields typed_result m \<Longrightarrow> typed_result (fst (as_result m s))"
  by (fastforce simp: as_result_def yields_def split: prod.splits sum.splits)

lemma run_tool_typed:
  assumes "tb_adapters T = table"
  shows "typed_result (snd (fst (run_tool T name args h)))"
proof -
  have result: "typed_result (snd (fst (case as_result m h of (d, h') \<Rightarrow> ((kind, d), h'))))"
    if "yields typed_result m" for m :: "('w host, pydict) eff" and kind :: string
    using as_result_typed [OF that, of h] by (cases "as_result m h") simp
  show ?thesis
  proof (cases "name \<in> set graph_tool_names")
    case True
    then show ?thesis
      using result [OF yields_world [OF graph_tool_typed]] by (simp add: run_tool_def split: option.split prod.split)
  next
    case False
    then show ?thesis
      using result [OF adapter_typed] assms by (simp add: run_tool_def split: option.split)
  qed
qed

lemma execute_typed:
  assumes "tb_adapters T = table"
  shows "typed_result (fst (execute T name args request_id model case_id call_id r))"
  using run_tool_typed [OF assms, of name args "tr_host (emit_started T name args model case_id call_id r)"]
  by (cases "run_tool T name args (tr_host (emit_started T name args model case_id call_id r))")
    (auto simp: execute_def Let_def split: prod.splits)

end

interpretation code: tool_adapters "default_adapters S cfg"
proof
  fix t tool args and ad :: "'a adapter"
  assume "(t, ad) \<in> set (default_adapters S cfg)"
  then show "yields typed_result (ad tool args)"
    by (auto simp: default_adapters_def adapters_typed yields_rules split: option.splits)
qed


section \<open>What is recorded of a call\<close>

lemma record_event_simps [simp]:
  "tr_host (record_event T e r) = tr_host r" "tr_traces (record_event T e r) = tr_traces r"
  by (simp_all add: record_event_def split: option.split)

text \<open>The events that a call adds, for a recorder that is there.\<close>

lemma record_event_events:
  "tr_recorder r = Some rc \<Longrightarrow>
   \<exists>rc'. tr_recorder (record_event T e r) = Some rc' \<and> rc_sequence rc' = rc_sequence rc + 1 \<and>
     rc_trace rc' = rc_trace rc \<and>
     rc_events rc' = rc_events rc @ [new_event (tb_now T (rc_sequence rc)) e rc]"
  by (simp add: record_event_def emit_def Let_def)

lemma attach_locations_events:
  "rc_events rc = es @ [e] \<Longrightarrow>
   rc_events (attach_locations locs rc) = es @ [AList.update ''locations'' (PList locs) e]"
  by (simp add: attach_locations_def update_last_def Let_def)

lemma dget_update: "dget (AList.update k v d) k' = (if k' = k then v else dget d k')"
  by (simp add: dget_def update_conv')

lemma dget_new_event:
  "dget (new_event now e rc) ''event_type'' = PStr (em_type e)"
  "dget (new_event now e rc) ''payload'' = PDict (em_payload e)"
  "dget (new_event now e rc) ''status'' = PStr (em_status e)"
  by (simp_all add: new_event_def dget_def)

lemma emit_started_event:
  assumes "tr_recorder r = Some rc"
  obtains rc1 started where "tr_recorder (emit_started T name args model case_id call_id r) = Some rc1"
    "rc_events rc1 = rc_events rc @ [started]" "dget started ''event_type'' = PStr ''tool_call_started''"
  using record_event_events [OF assms]
  by (fastforce simp: emit_started_def emission_of_def dget_new_event)

lemma trace_of_status:
  "dget (trace_of request_id model name kind ms result) ''tool_name'' = PStr name"
  "dget (trace_of request_id model name kind ms result) ''status'' =
     PStr (if truthy (dget result ''ok'') then ''ok'' else ''error'')"
  by (simp_all add: trace_of_def dget_def)

lemma emit_completed_event:
  obtains e where
    "em_type e = (if truthy (dget result ''ok'') then ''tool_call_completed'' else ''tool_call_failed'')"
    "emit_completed T name args result model case_id call_id r = (case dget result ''locations'' of
        PList locs \<Rightarrow> (record_event T e r)\<lparr>tr_recorder := map_option (attach_locations locs) (tr_recorder (record_event T e r))\<rparr>
      | _ \<Rightarrow> record_event T e r)"
  by (rule that [OF _ emit_completed_def [unfolded Let_def]]) (simp add: emission_of_def)

text \<open>A call leaves exactly one line in the log of calls and exactly two events, of its start and of
  its end, in this order and after those that were there; the status of both the line and the last
  event is that of the result that the caller gets.\<close>

theorem execute_is_recorded:
  assumes "tr_recorder r = Some rc" "execute T name args request_id model case_id call_id r = (result, r')"
  shows "\<exists>line started ended rc'.
    tr_traces r' = tr_traces r @ [line] \<and> tr_recorder r' = Some rc' \<and>
    rc_events rc' = rc_events rc @ [started, ended] \<and>
    dget line ''tool_name'' = PStr name \<and>
    dget line ''status'' = PStr (if truthy (dget result ''ok'') then ''ok'' else ''error'') \<and>
    dget started ''event_type'' = PStr ''tool_call_started'' \<and>
    dget ended ''event_type'' =
      PStr (if truthy (dget result ''ok'') then ''tool_call_completed'' else ''tool_call_failed'')"
proof -
  let ?r1 = "emit_started T name args model case_id call_id r"
  obtain rc1 started where rc1: "tr_recorder ?r1 = Some rc1" "rc_events rc1 = rc_events rc @ [started]"
    "dget started ''event_type'' = PStr ''tool_call_started''" by (rule emit_started_event [OF assms(1)])
  obtain kind d h where t: "run_tool T name args (tr_host ?r1) = ((kind, d), h)"
    by (metis prod.collapse)
  let ?r2 = "write_trace T request_id model name kind d (?r1\<lparr>tr_host := h\<rparr>)"
  from t assms(2) have r': "d = result" "r' = emit_completed T name args d model case_id call_id ?r2"
    by (auto simp: execute_def Let_def)
  have r2: "tr_recorder ?r2 = Some rc1" using rc1(1) by (simp add: write_trace_def)
  obtain e where e: "em_type e = (if truthy (dget result ''ok'') then ''tool_call_completed'' else ''tool_call_failed'')"
    "r' = (case dget result ''locations'' of
        PList locs \<Rightarrow> (record_event T e ?r2)\<lparr>tr_recorder := map_option (attach_locations locs) (tr_recorder (record_event T e ?r2))\<rparr>
      | _ \<Rightarrow> record_event T e ?r2)"
    unfolding r'(2) r'(1) by (rule emit_completed_event)
  obtain rc2 where rc2: "tr_recorder (record_event T e ?r2) = Some rc2"
    "rc_events rc2 = rc_events rc1 @ [new_event (tb_now T (rc_sequence rc1)) e rc1]"
    using record_event_events [OF r2] by blast
  obtain rc' ended where last: "tr_recorder r' = Some rc'" "rc_events rc' = rc_events rc1 @ [ended]"
    "dget ended ''event_type'' = PStr (em_type e)"
  proof (cases "\<exists>locs. dget result ''locations'' = PList locs")
    case True
    then show ?thesis using that rc2 e(2) by (auto simp: attach_locations_events dget_update dget_new_event)
  next
    case False
    then have "r' = record_event T e ?r2" using e(2) by (auto split: pyval.splits)
    then show ?thesis using that rc2 by (simp add: dget_new_event)
  qed
  have line: "tr_traces r' = tr_traces r @ [trace_of request_id model name kind (tb_ms T (length (tr_traces r))) result]"
    using e(2) r'(1) by (auto simp: write_trace_def emit_started_def split: pyval.splits)
  show ?thesis
    by (rule exI, rule exI [of _ started], rule exI [of _ ended], rule exI [of _ rc'], intro conjI, rule line)
      (simp_all add: trace_of_status last rc1 e(1))
qed

definition demo_toolbox :: "unit toolbox" where
  "demo_toolbox = \<lparr>tb_config = \<lparr>tc_enabled = True, tc_max_iterations = 4, tc_timeout = 10, tc_verification = ''warn'',
       tc_max_retries = 1, tc_safe_roots = [], tc_tools = []\<rparr>,
     tb_adapters = [], tb_graph = None, tb_now = (\<lambda>n. ''now''), tb_ms = (\<lambda>n. 0)\<rparr>"

definition demo_run :: "unit tool_run" where
  "demo_run = \<lparr>tr_host = \<lparr>ho_files = \<lparr>fs_entries = [], fs_cwd = [], fs_links = 40, fs_log = []\<rparr>, ho_world = (), ho_writes = []\<rparr>,
     tr_recorder = Some (new_recorder ''t'' ''agent'' ''chat''), tr_traces = []\<rparr>"

theorem execute_is_recorded_witness:
  "\<exists>line started ended rc'.
    tr_traces (snd (execute demo_toolbox ''nope'' [] ''q'' ''m'' None (Some ''c'') demo_run)) = [line] \<and>
    tr_recorder (snd (execute demo_toolbox ''nope'' [] ''q'' ''m'' None (Some ''c'') demo_run)) = Some rc' \<and>
    rc_events rc' = [started, ended] \<and> dget line ''status'' = PStr ''error'' \<and>
    dget ended ''event_type'' = PStr ''tool_call_failed''"
proof -
  let ?x = "execute demo_toolbox ''nope'' [] ''q'' ''m'' None (Some ''c'') demo_run"
  have "fst ?x = tool_error (''Unknown tool '' @ str_repr ''nope'')" by code_simp
  then have "\<not> truthy (dget (fst ?x) ''ok'')" by (simp add: tool_error_def dget_def)
  moreover have "tr_recorder demo_run = Some (new_recorder ''t'' ''agent'' ''chat'')" "tr_traces demo_run = []"
    "rc_events (new_recorder ''t'' ''agent'' ''chat'') = []"
    by (simp_all add: demo_run_def new_recorder_def)
  ultimately show ?thesis
    using execute_is_recorded [of demo_run "new_recorder ''t'' ''agent'' ''chat''" demo_toolbox "''nope''" "[]" "''q''" "''m''"
        None "Some ''c''" "fst ?x" "snd ?x"]
    by (auto simp only: append_Nil prod.collapse if_False)
qed

end
