(* ===== verification/Net_Safety.thy ===== *)
theory Net_Safety
  imports Web_Fetch
begin

text \<open>
  Which addresses the check of fetched pages refuses: all of the private IPv4 ranges, for every
  32-bit address, by its text. And what a fetch requests, whatever the servers answer.
\<close>

section \<open>Texts of IPv4 addresses\<close>

definition dotted :: "nat \<Rightarrow> nat \<Rightarrow> nat \<Rightarrow> nat \<Rightarrow> string" where
  "dotted p q r t = join ''.'' (map nat_digits [p, q, r, t])"

lemma nat_digits_digits: "list_all is_digit (nat_digits n)"
proof (induction n rule: nat_digits.induct)
  case (1 n)
  have "is_digit (char_of (48 + n mod 10))" for n :: nat
    using mod_less_divisor [of 10 n] by (simp add: is_digit_def char_nat_def)
  from this [of n] 1 show ?case by (cases "n < 10") (simp_all add: nat_digits.simps [of n])
qed

lemma nat_digits_length: "n < 10 ^ Suc k \<Longrightarrow> length (nat_digits n) \<le> Suc k"
proof (induction k arbitrary: n)
  case 0
  then show ?case by (simp add: nat_digits.simps)
next
  case (Suc k)
  then have "n div 10 < 10 ^ Suc k" by (simp add: less_mult_imp_div_less)
  with Suc.IH [of "n div 10"] show ?case by (simp add: nat_digits.simps [of n])
qed

lemma nat_digits_ne: "nat_digits n \<noteq> []"
  by (simp add: nat_digits.simps [of n])

lemma nat_digits_lead: "0 < n \<Longrightarrow> hd (nat_digits n) \<noteq> CHR ''0''"
proof (induction n rule: nat_digits.induct)
  case (1 n)
  show ?case
  proof (cases "n < 10")
    case True
    have "char_of (48 + n) \<noteq> (CHR ''0'')"
    proof
      assume "char_of (48 + n) = CHR ''0''"
      then have "of_char (char_of (48 + n) :: char) = (48 :: nat)" by simp
      with True 1(2) show False by simp
    qed
    with True show ?thesis by (simp add: nat_digits.simps [of n])
  next
    case False
    with 1 nat_digits_ne [of "n div 10"] show ?thesis by (simp add: nat_digits.simps [of n] hd_append)
  qed
qed

lemma parse_octet_digits: "n < 256 \<Longrightarrow> parse_octet (nat_digits n) = Some n"
proof -
  assume n: "n < 256"
  have "nat_digits n = ''0'' \<or> hd (nat_digits n) \<noteq> CHR ''0''"
    using nat_digits_lead [of n] by (cases "n = 0") (simp_all add: nat_digits.simps [of 0] char_of_def)
  then show ?thesis
    using n nat_digits_digits nat_digits_length [of n 2] nat_digits_ne digits_value_nat_digits [of n]
    by (simp add: parse_octet_def del: digits_value.simps)
qed

lemma digits_no_dot: "CHR ''.'' \<notin> set (nat_digits n)" "CHR '':'' \<notin> set (nat_digits n)"
  using nat_digits_digits [of n] by (auto simp: list_all_iff is_digit_def char_nat_def)

text \<open>Every address is read back from its text.\<close>

lemma parse_dotted:
  "\<lbrakk>p < 256; q < 256; r < 256; t < 256\<rbrakk> \<Longrightarrow> parse_v4 (dotted p q r t) = Some (v4 p q r t)"
proof -
  assume less: "p < 256" "q < 256" "r < 256" "t < 256"
  have "split_on CHR ''.'' (dotted p q r t) = map nat_digits [p, q, r, t]"
    using digits_no_dot(1) by (simp add: dotted_def split_on_segment split_on_plain)
  with less show ?thesis by (simp add: parse_v4_def parse_octet_digits v4_def)
qed

lemma uint_v4:
  assumes "p < 256" "q < 256" "r < 256" "t < 256"
  shows "uint (v4 p q r t) = ((int p * 256 + int q) * 256 + int r) * 256 + int t"
proof -
  have "v4 p q r t = word_of_int (((int p * 256 + int q) * 256 + int r) * 256 + int t)"
    by (simp only: v4_def v4_of_octets_def foldl.simps mult_zero_left add_0)
  then show ?thesis using assms by (simp only: uint_word_of_int) simp
qed

section \<open>Ranges\<close>

text \<open>Addresses that agree in their leading bits.\<close>

lemma drop_bit_v4:
  fixes a b :: "32 word"
  shows "drop_bit k a = drop_bit k b \<longleftrightarrow> uint a div 2 ^ k = uint b div 2 ^ k"
proof -
  have "uint (drop_bit k w) = drop_bit k (uint w)" for w :: "32 word"
    by (simp only: unsigned_drop_bit_eq take_bit_int_eq_self [OF unsigned_greater_eq unsigned_less])
  then have "uint (drop_bit k w) = uint w div 2 ^ k" for w :: "32 word"
    by (simp only: drop_bit_eq_div [where 'a = int])
  then show ?thesis by (simp only: word_uint_eq_iff)
qed

text \<open>The ranges that the list of private networks names, by their octets.\<close>

definition private_octets :: "nat \<Rightarrow> nat \<Rightarrow> bool" where
  "private_octets p q = (p = 0 \<or> p = 10 \<or> p = 127 \<or> (p = 172 \<and> 16 \<le> q \<and> q \<le> 31) \<or>
     (p = 192 \<and> q = 168) \<or> (p = 169 \<and> q = 254))"

lemma in_private_networks:
  assumes "p < 256" "q < 256" "r < 256" "t < 256"
  shows "in_any (V4 (v4 p q r t)) private_networks \<longleftrightarrow> private_octets p q"
proof -
  let ?n = "\<lambda>b k. drop_bit k (v4 p q r t) = drop_bit k b"
  let ?u = "((int p * 256 + int q) * 256 + int r) * 256 + int t"
  have u: "?u div 2 ^ 24 = int p" "?u div 2 ^ 20 = int (p * 16 + q div 16)" "?u div 2 ^ 16 = int (p * 256 + q)"
    using assms by simp_all
  have "?n (v4 b 0 0 0) 24 \<longleftrightarrow> p = b" if "b < 256" for b
    using that by (simp only: drop_bit_v4 uint_v4 [OF assms] u) (simp add: uint_v4)
  moreover have "?n (v4 172 16 0 0) 20 \<longleftrightarrow> p = 172 \<and> 16 \<le> q \<and> q \<le> 31"
  proof -
    have "p * 16 + s = 2753 \<longleftrightarrow> p = 172 \<and> s = 1" if "s < 16" for s :: nat using that by presburger
    moreover have "?n (v4 172 16 0 0) 20 \<longleftrightarrow> p * 16 + q div 16 = 2753"
      by (simp only: drop_bit_v4 uint_v4 [OF assms] u) (simp add: uint_v4, linarith)
    ultimately have "?n (v4 172 16 0 0) 20 \<longleftrightarrow> p = 172 \<and> q div 16 = 1" using assms by simp
    then show ?thesis by auto
  qed
  moreover have "?n (v4 b c 0 0) 16 \<longleftrightarrow> p = b \<and> q = c" if "b < 256" "c < 256" for b c
  proof -
    have "?n (v4 b c 0 0) 16 \<longleftrightarrow> p * 256 + q = b * 256 + c"
      using that by (simp only: drop_bit_v4 uint_v4 [OF assms] u) (simp add: uint_v4, linarith)
    moreover have "m * 256 + q = b * 256 + c \<longleftrightarrow> m = b \<and> q = c" if "q < 256" "c < 256" for m b q c :: nat
    proof
      assume e: "m * 256 + q = b * 256 + c"
      from arg_cong [OF e, of "\<lambda>n. n div 256"] arg_cong [OF e, of "\<lambda>n. n mod 256"] that
      show "m = b \<and> q = c" by simp
    qed simp
    ultimately show ?thesis using assms that by simp
  qed
  ultimately show ?thesis by (simp add: in_any_def private_networks_def private_octets_def) blast
qed

section \<open>What the check refuses\<close>

lemma lower_dotted: "lower (dotted p q r t) = dotted p q r t"
proof -
  have "lower_char c = c" if "is_digit c \<or> c = CHR ''.''" for c
    using that by (auto simp: lower_char_def is_digit_def char_nat_def)
  then have "map lower_char s = s" if "list_all (\<lambda>c. is_digit c \<or> c = CHR ''.'') s" for s
    using that by (induction s) auto
  moreover have "list_all (\<lambda>c. is_digit c \<or> c = CHR ''.'') (dotted p q r t)"
    using nat_digits_digits by (auto simp: dotted_def list_all_iff)
  ultimately show ?thesis by (simp add: lower_def)
qed

text \<open>C29. The check that guards page fetches against requests to internal hosts is exact on IPv4: of
  all 2 to the 32 addresses, written as four numbers, it refuses precisely those of the six ranges
  0/8, 10/8, 127/8, 172.16/12, 192.168/16 and 169.254/16, and no other.\<close>

theorem ssrf_v4_exact:
  assumes "p < 256" "q < 256" "r < 256" "t < 256"
  shows "check_ssrf (dotted p q r t) \<noteq> None \<longleftrightarrow> private_octets p q"
proof (cases "dotted p q r t \<in> {''localhost'', ''127.0.0.1'', ''::1''}")
  case True
  have "parse_v4 ''localhost'' = None" "parse_v4 ''::1'' = None" "dotted 127 0 0 1 = ''127.0.0.1''" by code_simp+
  with True parse_dotted [of 127 0 0 1] have "parse_v4 (dotted p q r t) = Some (v4 127 0 0 1)"
    using parse_dotted [OF assms] by auto
  then have "uint (v4 p q r t) = uint (v4 127 0 0 1)" using parse_dotted [OF assms] by simp
  then have "p = 127" using assms by (simp add: uint_v4)
  with True show ?thesis by (auto simp: check_ssrf_def private_octets_def lower_dotted)
next
  case False
  with assms show ?thesis
    by (simp add: check_ssrf_def lower_dotted ip_address_def parse_dotted in_private_networks)
qed

theorem ssrf_v4_exact_witness:
  "check_ssrf (dotted 172 31 0 9) \<noteq> None \<and> check_ssrf (dotted 172 32 0 9) = None"
  using ssrf_v4_exact [of 172 31 0 9] ssrf_v4_exact [of 172 32 0 9] by (simp add: private_octets_def)

text \<open>Whatever the servers answer, a page fetch makes at most six requests, and only to URLs that
  the check of the scheme, of the offline policy, of private addresses and of the allowed domains
  has let through: every redirect is checked before it is followed.\<close>

lemma web_fetch_urls:
  "\<exists>urls. snd (web_fetch C np cfg tool args w) = requests C (effective_timeout cfg tool) urls w \<and>
     length urls \<le> 6 \<and>
     list_all (\<lambda>u. validate_url u (tl_allowed_domains tool) np = Inr None) urls"
proof -
  let ?url = "strip (if truthy (dget args ''url'') then py_str (dget args ''url'') else [])"
  have none: ?thesis if "snd (web_fetch C np cfg tool args w) = w"
    using that by (intro exI [of _ "[]"]) (simp add: requests_def)
  show ?thesis
  proof (cases "?url \<noteq> [] \<and> validate_url ?url (tl_allowed_domains tool) np = Inr None")
    case False
    then show ?thesis
      by (intro none)
        (auto simp: web_fetch_def Let_def ret_def raise_exn_def split: sum.splits option.splits)
  next
    case True
    obtain r w' where g: "get_validated_response C np (tl_allowed_domains tool) (effective_timeout cfg tool)
        (max_redirects + 1) ?url w = (r, w')" by (cases "get_validated_response C np (tl_allowed_domains tool)
        (effective_timeout cfg tool) (max_redirects + 1) ?url w")
    with True have "snd (web_fetch C np cfg tool args w) = w'"
      by (auto simp: web_fetch_def Let_def ret_def raise_exn_def tryE_def seqE_def split: sum.splits)
    with get_validated_requests [OF g] True show ?thesis
      by (auto simp: max_redirects_def list_all_iff)
  qed
qed

text \<open>Other writings of the same host pass: an IPv6 address that carries an IPv4 one, the short form and
  the single number that the C library's resolver accepts, and a name with a trailing dot.\<close>

definition open_policy :: network_policy where
  "open_policy = \<lparr>np_offline = False, np_hosts = [], np_networks = []\<rparr>"

lemma ssrf_other_writings:
  "validate_url ''http://[::ffff:127.0.0.1]:8000/'' [] open_policy = Inr None"
  "validate_url ''http://127.1:8000/'' [] open_policy = Inr None"
  "validate_url ''http://2130706433/'' [] open_policy = Inr None"
  "validate_url ''http://localhost.:8000/'' [] open_policy = Inr None"
  by code_simp+

end
