(* ===== verification/Tool_Confine.thy ===== *)
theory Tool_Confine
  imports Tool_Safety Tool_Results Net_Safety
begin

text \<open>
  What a call of a tool can touch, for all tools together: files inside the safe roots, commands and
  databases that the configuration allows, and URLs that were checked. The last section shows the
  ways out that the code leaves open.
\<close>

section \<open>Files\<close>

text \<open>Code that leaves the file system as it is, its log included.\<close>

definition quiet :: "('w host, 'a) eff \<Rightarrow> bool" where
  "quiet m \<longleftrightarrow> (\<forall>h. ho_files (snd (m h)) = ho_files h)"

named_theorems silent_rules

lemma silent_basic [silent_rules]:
  "quiet (ret x)" "quiet (raise_exn e)" "quiet (on_world m)"
  "quiet (on_files (resolved t))" "quiet (on_files (safe_roots cfg))" "quiet (on_files (ask f))"
  by (simp_all add: quiet_def ret_def raise_exn_def on_world_def on_files_def resolved_def safe_roots_def ask_def
      split: prod.split)

lemma silent_seq [silent_rules]:
  assumes "quiet m" "\<And>x. quiet (f x)"
  shows "quiet (seqE m f)"
  unfolding quiet_def
proof
  fix h
  obtain r h' where m: "m h = (r, h')" by (cases "m h")
  with assms(1) have "ho_files h' = ho_files h" by (metis quiet_def snd_conv)
  with m assms(2) show "ho_files (snd (seqE m f h)) = ho_files h" by (cases r) (simp_all add: seqE_def quiet_def)
qed

lemma silent_try [silent_rules]:
  assumes "quiet m" "\<And>e. quiet (f e)"
  shows "quiet (tryE m f)"
  unfolding quiet_def
proof
  fix h
  obtain r h' where m: "m h = (r, h')" by (cases "m h")
  with assms(1) have "ho_files h' = ho_files h" by (metis quiet_def snd_conv)
  with m assms(2) show "ho_files (snd (tryE m f h)) = ho_files h" by (cases r) (simp_all add: tryE_def quiet_def)
qed

lemma silent_case [silent_rules]:
  "(b \<Longrightarrow> quiet m) \<Longrightarrow> (\<not> b \<Longrightarrow> quiet n) \<Longrightarrow> quiet (if b then m else n)"
  "(\<And>a b. quiet (f a b)) \<Longrightarrow> quiet (case p of (a, b) \<Rightarrow> f a b)"
  "quiet m \<Longrightarrow> (\<And>x. quiet (g x)) \<Longrightarrow> quiet (case v of None \<Rightarrow> m | Some x \<Rightarrow> g x)"
  "(\<And>e. quiet (h e)) \<Longrightarrow> (\<And>x. quiet (g' x)) \<Longrightarrow> quiet (case u of Inl e \<Rightarrow> h e | Inr x \<Rightarrow> g' x)"
  "(\<And>x. quiet (g'' x)) \<Longrightarrow> quiet (let x = y in g'' x)"
  by (auto split: option.split sum.split prod.split)

lemma quiet_memory_write: "quiet (memory_write tool args)"
  by (simp add: memory_write_def quiet_def Let_def ret_def)

lemma quiet_tools:
  "quiet (git_status S cfg tool args)" "quiet (git_diff S cfg tool args)" "quiet (git_log S cfg tool args)"
  "quiet (shell S cfg tool args)" "quiet (process_status S cfg tool args)" "quiet (sqlite_query S cfg tool args)"
  "quiet (memory_search search tool args)"
  unfolding git_status_def git_diff_def git_log_def shell_def process_status_def sqlite_query_def memory_search_def
    with_repo_def run_git_def sqlite_execute_def
  by (rule silent_rules)+

text \<open>The accesses that code on a host adds are all \<open>ok\<close>.\<close>

definition touches :: "(string \<times> path \<Rightarrow> bool) \<Rightarrow> ('w host \<Rightarrow> 'a \<times> 'w host) \<Rightarrow> 'w host \<Rightarrow> bool" where
  "touches ok m h \<longleftrightarrow>
     (\<exists>l. fs_log (ho_files (snd (m h))) = fs_log (ho_files h) @ l \<and> (\<forall>a \<in> set l. ok a))"

lemma touches_quiet: "quiet m \<Longrightarrow> touches ok m h"
  by (simp add: quiet_def touches_def)

lemma touches_files: "grows ok (ho_files h) m \<Longrightarrow> touches ok (on_files m) h"
  by (auto simp: touches_def grows_def on_files_def split: prod.splits)

lemma touches_as_result: "touches ok m h \<Longrightarrow> touches ok (as_result m) h"
  by (auto simp: touches_def as_result_def split: prod.splits sum.splits)

text \<open>The tools that walk are given directories without links below them.\<close>

definition plain_roots :: "tools_config \<Rightarrow> files \<Rightarrow> bool" where
  "plain_roots cfg fs \<longleftrightarrow>
     (\<forall>(name, tool) \<in> set (tc_tools cfg).
        tl_type tool = ''text_search'' \<or> (tl_type tool = ''directory_list'' \<and> tl_recursive tool) \<longrightarrow>
        (\<forall>t base. tl_path tool = Some t \<longrightarrow> resolve fs t = Inr base \<longrightarrow> plain_below fs base))"

lemma adapter_touches:
  assumes "(kind, ad) \<in> set (default_adapters S cfg)" "globs_below (sy_match S)" "plain_roots cfg (ho_files h)"
    and tool: "(name, tool) \<in> set (tc_tools cfg)" "tl_type tool = kind"
  shows "touches (permitted (ho_files h) cfg) (ad tool args) h"
proof -
  have plain: "plain_below (ho_files h) base"
    if "kind = ''text_search'' \<or> (kind = ''directory_list'' \<and> tl_recursive tool)"
      "tl_path tool = Some t" "resolve (ho_files h) t = Inr base" for t base
    using assms(3) tool that unfolding plain_roots_def by blast
  have dirs: "touches (permitted (ho_files h) cfg) (on_files (directory_list cfg tool args)) h" if "kind = ''directory_list''"
    by (rule touches_files, rule directory_list_grows) (use plain that in blast)
  have texts: "touches (permitted (ho_files h) cfg) (on_files (text_search (sy_match S) cfg tool args)) h"
    if "kind = ''text_search''"
    by (rule touches_files, rule text_search_grows [OF assms(2)]) (use plain that in blast)
  note files = touches_files [OF file_read_grows] touches_files [OF file_read_dynamic_grows]
    touches_files [OF file_write_grows] touches_files [OF file_search_grows] touches_files [OF log_tail_grows]
  note others = quiet_tools [THEN touches_quiet] quiet_memory_write [THEN touches_quiet]
    silent_basic(3) [THEN touches_quiet]
  show ?thesis
    using assms(1) by (auto simp: default_adapters_def dirs texts files others split: option.splits)
qed

text \<open>What a call comes to: nothing, the code graph, or the adapter of a configured tool.\<close>

lemma run_tool_cases:
  obtains (idle) "snd (run_tool T name args h) = h"
  | (graph) gs project where "tb_graph T = Some (gs, project)"
      "snd (run_tool T name args h) = snd (as_result (on_world (execute_graph_tool gs project name args)) h)"
  | (tool) tool ad where "(name, tool) \<in> set (tc_tools (tb_config T))" "(tl_type tool, ad) \<in> set (tb_adapters T)"
      "snd (run_tool T name args h) = snd (as_result (ad tool args) h)"
proof (cases "name \<in> set graph_tool_names")
  case True
  then show ?thesis
    by (cases "tb_graph T") (auto simp: run_tool_def split: prod.splits intro: idle graph)
next
  case unnamed: False
  show ?thesis
  proof (cases "\<exists>tl ad. map_of (tc_tools (tb_config T)) name = Some tl \<and> map_of (tb_adapters T) (tl_type tl) = Some ad")
    case True
    then obtain tl ad where t: "map_of (tc_tools (tb_config T)) name = Some tl"
      "map_of (tb_adapters T) (tl_type tl) = Some ad" by blast
    show ?thesis
      by (rule tool [OF map_of_SomeD [OF t(1)] map_of_SomeD [OF t(2)]])
        (simp add: run_tool_def unnamed t split: prod.split)
  next
    case False
    with unnamed show ?thesis by (intro idle) (auto simp: run_tool_def split: option.split)
  qed
qed

lemma execute_host: "tr_host (snd (execute T name args request_id model case_id call_id r)) =
    snd (run_tool T name args (tr_host r))"
  by (auto simp: execute_def Let_def emit_completed_def emit_started_def write_trace_def
      split: prod.splits pyval.splits)


section \<open>Commands, databases and requests\<close>

definition git_arguments :: "tool_def \<Rightarrow> string list set" where
  "git_arguments tool = {[''rev-parse'', ''--abbrev-ref'', ''HEAD''], [''status'', ''--porcelain''], [''diff'', ''HEAD''],
     [''log'', ''--format=%h|%s|%an|%ar'', ''-'' @ nat_digits (tl_max_commits tool)]}"

text \<open>The commands of a configuration: those of its shell tools, and four of git on a repository inside
  the safe roots.\<close>

definition command_allowed :: "tools_config \<Rightarrow> files \<Rightarrow> string list \<Rightarrow> bool" where
  "command_allowed cfg fs cmd \<longleftrightarrow>
     (\<exists>(name, tool) \<in> set (tc_tools cfg).
        (tl_type tool = ''shell'' \<and> cmd = (case tl_command tool of None \<Rightarrow> [] | Some c \<Rightarrow> c)) \<or>
        (\<exists>repo args. inside fs cfg repo \<and> args \<in> git_arguments tool \<and> cmd = [''git'', ''-C'', path_str repo] @ args))"

definition request_allowed :: "tools_config \<Rightarrow> network_policy \<Rightarrow> string \<Rightarrow> string \<Rightarrow> bool" where
  "request_allowed cfg np m url \<longleftrightarrow>
     (\<exists>(name, tool) \<in> set (tc_tools cfg).
        (url = url_of tool \<and> m = method_of tool \<and> is_url_allowed np url) \<or>
        (m = ''GET'' \<and> validate_url url (tl_allowed_domains tool) np = Inr None))"

text \<open>What the outside world may be asked keeps \<open>P\<close>.\<close>

definition tolerates :: "('w \<Rightarrow> bool) \<Rightarrow> 'w system \<Rightarrow> ('w graph_store \<times> string) option \<Rightarrow> tools_config \<Rightarrow> files \<Rightarrow> bool" where
  "tolerates P S cg cfg fs \<longleftrightarrow>
     (\<forall>cmd t w. command_allowed cfg fs cmd \<longrightarrow> P w \<longrightarrow> P (snd (sy_spawn S cmd t w))) \<and>
     (\<forall>p q w. inside fs cfg p \<longrightarrow> sql_allowed q \<longrightarrow> P w \<longrightarrow> P (snd (sy_sqlite S (database_uri p) q w))) \<and>
     (\<forall>m u t w. request_allowed cfg (sy_policy S) m u \<longrightarrow> P w \<longrightarrow> P (snd (hc_request (sy_http S) m u t w))) \<and>
     (\<forall>f w. sy_statuses S = Some f \<longrightarrow> P w \<longrightarrow> P (snd (f w))) \<and>
     (\<forall>f q k w. sy_memory S = Some f \<longrightarrow> P w \<longrightarrow> P (snd (f q k w))) \<and>
     (case cg of None \<Rightarrow> True | Some g \<Rightarrow> (\<forall>n a w. P w \<longrightarrow> P (snd (execute_graph_tool (fst g) (snd g) n a w))))"

definition keeps :: "('w \<Rightarrow> bool) \<Rightarrow> files \<Rightarrow> ('w host, 'a) eff \<Rightarrow> bool" where
  "keeps P fs m \<longleftrightarrow> (\<forall>h. ho_files h = fs \<longrightarrow> P (ho_world h) \<longrightarrow> P (ho_world (snd (m h))))"

named_theorems kept_rules

lemma kept_basic [kept_rules]: "keeps P fs (ret x)" "keeps P fs (raise_exn e)"
  by (simp_all add: keeps_def ret_def raise_exn_def)

lemma kept_files: "keeps P fs (on_files m)"
  by (simp add: keeps_def on_files_def split: prod.split)

lemma kept_world: "(\<And>w. P w \<Longrightarrow> P (snd (m w))) \<Longrightarrow> keeps P fs (on_world m)"
  by (force simp: keeps_def on_world_def split: prod.split)

lemma kept_seq:
  fixes m :: "('w host, 'a) eff"
  assumes "quiet m" "keeps P fs m" "\<And>x. keeps P fs (f x)"
  shows "keeps P fs (seqE m f)"
  unfolding keeps_def
proof (intro allI impI)
  fix h :: "'w host" assume h: "ho_files h = fs" "P (ho_world h)"
  obtain r h' where m: "m h = (r, h')" by (cases "m h")
  with h assms(1,2) have "ho_files h' = fs" "P (ho_world h')" by (metis quiet_def keeps_def snd_conv)+
  with m assms(3) show "P (ho_world (snd (seqE m f h)))" by (cases r) (simp_all add: seqE_def keeps_def)
qed

lemma kept_try:
  fixes m :: "('w host, 'a) eff"
  assumes "quiet m" "keeps P fs m" "\<And>e. keeps P fs (f e)"
  shows "keeps P fs (tryE m f)"
  unfolding keeps_def
proof (intro allI impI)
  fix h :: "'w host" assume h: "ho_files h = fs" "P (ho_world h)"
  obtain r h' where m: "m h = (r, h')" by (cases "m h")
  with h assms(1,2) have "ho_files h' = fs" "P (ho_world h')" by (metis quiet_def keeps_def snd_conv)+
  with m assms(3) show "P (ho_world (snd (tryE m f h)))" by (cases r) (simp_all add: tryE_def keeps_def)
qed

lemma kept_query:
  "(\<And>p. resolve fs t = Inr p \<Longrightarrow> keeps P fs (f p)) \<Longrightarrow> keeps P fs (seqE (on_files (resolved t)) f)"
  "(\<And>bs. resolve_all fs (tc_safe_roots cfg) = Inr bs \<Longrightarrow> keeps P fs (f' bs)) \<Longrightarrow>
   keeps P fs (seqE (on_files (safe_roots cfg)) f')"
  "keeps P fs (g (q fs)) \<Longrightarrow> keeps P fs (seqE (on_files (ask q)) g)"
  by (auto simp: keeps_def seqE_def on_files_def resolved_def safe_roots_def ask_def split: sum.split)

lemma kept_case [kept_rules]:
  "(b \<Longrightarrow> keeps P fs m) \<Longrightarrow> (\<not> b \<Longrightarrow> keeps P fs n) \<Longrightarrow> keeps P fs (if b then m else n)"
  "(\<And>a b. keeps P fs (f a b)) \<Longrightarrow> keeps P fs (case p of (a, b) \<Rightarrow> f a b)"
  "(\<And>x. keeps P fs (g'' x)) \<Longrightarrow> keeps P fs (let x = y in g'' x)"
  by (auto split: prod.split)

lemma run_git_keeps:
  assumes "tolerates P S cg cfg fs" "(name, tool) \<in> set (tc_tools cfg)" "inside fs cfg repo" "args \<in> git_arguments tool"
  shows "keeps P fs (run_git S args repo timeout)" "quiet (run_git S args repo timeout)"
proof -
  have "command_allowed cfg fs ([''git'', ''-C'', path_str repo] @ args)"
    using assms(2-4) unfolding command_allowed_def by blast
  then have "keeps P fs (on_world (sy_spawn S ([''git'', ''-C'', path_str repo] @ args) timeout))"
    using assms(1) by (intro kept_world) (simp add: tolerates_def)
  then show "keeps P fs (run_git S args repo timeout)"
    unfolding run_git_def by (intro kept_try kept_seq kept_rules silent_rules)
  show "quiet (run_git S args repo timeout)" unfolding run_git_def by (rule silent_rules)+
qed

lemma with_repo_keeps:
  assumes "\<And>repo. inside fs cfg repo \<Longrightarrow> keeps P fs (body repo)"
  shows "keeps P fs (with_repo cfg tool kind body)"
proof (cases "tl_path tool")
  case None
  then show ?thesis by (simp add: with_repo_def kept_rules)
next
  case (Some t)
  show ?thesis
    unfolding with_repo_def Some option.case
    by (intro kept_query kept_rules assms) (auto dest: inside_roots)
qed

lemma git_tools_keep:
  assumes "tolerates P S cg cfg fs" "(name, tool) \<in> set (tc_tools cfg)"
  shows "keeps P fs (git_status S cfg tool args)" "keeps P fs (git_diff S cfg tool args)"
    "keeps P fs (git_log S cfg tool args)"
proof -
  note git = run_git_keeps [OF assms]
  show "keeps P fs (git_status S cfg tool args)"
    unfolding git_status_def Let_def
    by (rule with_repo_keeps) (intro kept_seq git kept_rules; simp add: git_arguments_def)
  show "keeps P fs (git_diff S cfg tool args)"
    unfolding git_diff_def
    by (rule with_repo_keeps) (intro kept_seq git kept_rules; simp add: git_arguments_def)
  show "keeps P fs (git_log S cfg tool args)"
    unfolding git_log_def
    by (rule with_repo_keeps) (intro kept_seq git kept_rules; simp add: git_arguments_def)
qed

lemma sqlite_query_keeps:
  assumes "tolerates P S cg cfg fs"
  shows "keeps P fs (sqlite_query S cfg tool args)"
proof -
  have run: "keeps P fs (sqlite_execute S p q n)" "quiet (sqlite_execute S p q n)" if "inside fs cfg p" "sql_allowed q" for p q n
  proof -
    have "keeps P fs (on_world (sy_sqlite S (database_uri p) q))"
      using assms that by (intro kept_world) (simp add: tolerates_def)
    then show "keeps P fs (sqlite_execute S p q n)"
      unfolding sqlite_execute_def by (intro kept_seq silent_rules kept_rules)
    show "quiet (sqlite_execute S p q n)" unfolding sqlite_execute_def by (rule silent_rules)+
  qed
  show ?thesis
  proof (cases "database_path tool args")
    case (Inl msg)
    then show ?thesis by (simp add: sqlite_query_def kept_rules)
  next
    case (Inr found)
    obtain t db where f: "found = (t, db)" by (cases found)
    show ?thesis
      unfolding sqlite_query_def Inr sum.case f prod.case
      by (intro kept_query kept_rules kept_try kept_seq silent_rules run) (auto dest: inside_roots)
  qed
qed

lemma other_tools_keep:
  assumes "tolerates P S cg cfg fs" "(name, tool) \<in> set (tc_tools cfg)"
  shows "tl_type tool = ''shell'' \<Longrightarrow> keeps P fs (shell S cfg tool args)"
    "keeps P fs (process_status S cfg tool args)"
    "sy_memory S = Some search \<Longrightarrow> keeps P fs (memory_search search tool args)"
    "keeps P fs (memory_write tool args)"
proof -
  assume "tl_type tool = ''shell''"
  with assms(2) have "command_allowed cfg fs (case tl_command tool of None \<Rightarrow> [] | Some c \<Rightarrow> c)"
    unfolding command_allowed_def by blast
  then show "keeps P fs (shell S cfg tool args)"
    unfolding shell_def using assms(1)
    by (intro kept_seq silent_rules kept_rules kept_world) (simp add: tolerates_def)
next
  show "keeps P fs (process_status S cfg tool args)"
  proof (cases "sy_statuses S")
    case (Some f)
    then have "keeps P fs (on_world f)" using assms(1) by (intro kept_world) (simp add: tolerates_def)
    then show ?thesis
      unfolding process_status_def Some option.case by (intro kept_seq silent_rules kept_rules)
  qed (simp add: process_status_def kept_rules)
next
  assume "sy_memory S = Some search"
  then have "keeps P fs (on_world (search q k))" for q k
    using assms(1) by (intro kept_world) (simp add: tolerates_def)
  then show "keeps P fs (memory_search search tool args)"
    unfolding memory_search_def Let_def
    by (auto intro!: kept_seq silent_rules kept_rules split: sum.split)
next
  show "keeps P fs (memory_write tool args)" by (simp add: keeps_def memory_write_def ret_def Let_def)
qed

lemma requests_keep:
  assumes "tolerates P S cg cfg fs" "(name, tool) \<in> set (tc_tools cfg)"
    "list_all (\<lambda>u. validate_url u (tl_allowed_domains tool) (sy_policy S) = Inr None) urls" "P w"
  shows "P (requests (sy_http S) t urls w)"
  using assms(3,4)
proof (induction urls arbitrary: w)
  case (Cons u urls)
  have "request_allowed cfg (sy_policy S) ''GET'' u"
    using assms(2) Cons.prems(1) by (auto simp: request_allowed_def)
  then have "P (snd (hc_request (sy_http S) ''GET'' u t w))" using assms(1) Cons.prems(2) by (simp add: tolerates_def)
  with Cons show ?case by (simp add: requests_def)
qed (simp add: requests_def)

lemma network_tools_keep:
  assumes "tolerates P S cg cfg fs" "(name, tool) \<in> set (tc_tools cfg)"
  shows "keeps P fs (on_world (http_tool (sy_http S) (sy_policy S) cfg tool args))"
    "keeps P fs (on_world (http_json_tool (sy_http S) (sy_policy S) cfg tool args))"
    "keeps P fs (on_world (web_fetch (sy_http S) (sy_policy S) cfg tool args))"
proof -
  have one: "P (snd (seqE (hc_request (sy_http S) (method_of tool) (url_of tool) t) (\<lambda>r. ret (f r)) w))"
    if "assert_url_allowed (sy_policy S) (url_of tool) what = Inr x" "P w" for t f w what x
  proof -
    have "is_url_allowed (sy_policy S) (url_of tool)"
      using that(1) by (simp add: assert_url_allowed_def split: if_splits)
    with assms(2) have "request_allowed cfg (sy_policy S) (method_of tool) (url_of tool)"
      unfolding request_allowed_def by blast
    with assms(1) that(2) have "P (snd (hc_request (sy_http S) (method_of tool) (url_of tool) t w))"
      by (simp add: tolerates_def)
    then show ?thesis by (auto simp: seqE_def ret_def split: prod.split sum.split)
  qed
  have same: "snd (ret x w) = w" for x :: pydict and w :: 'a by (simp add: ret_def)
  show "keeps P fs (on_world (http_tool (sy_http S) (sy_policy S) cfg tool args))"
    by (rule kept_world) (auto simp: http_tool_def same one split: sum.split)
  show "keeps P fs (on_world (http_json_tool (sy_http S) (sy_policy S) cfg tool args))"
    by (rule kept_world) (auto simp: http_json_tool_def same one split: sum.split)
  show "keeps P fs (on_world (web_fetch (sy_http S) (sy_policy S) cfg tool args))"
    using web_fetch_urls [of "sy_http S" "sy_policy S" cfg tool args] requests_keep [OF assms]
    by (intro kept_world) metis
qed

lemma adapter_keeps:
  assumes "(kind, ad) \<in> set (default_adapters S cfg)" "tolerates P S cg cfg fs"
    and tool: "(name, tool) \<in> set (tc_tools cfg)" "tl_type tool = kind"
  shows "keeps P fs (ad tool args)"
  using assms(1) tool(2) git_tools_keep [OF assms(2) tool(1)] other_tools_keep [OF assms(2) tool(1)]
    network_tools_keep [OF assms(2) tool(1)] sqlite_query_keeps [OF assms(2)]
  by (auto simp: default_adapters_def kept_files split: option.splits)

text \<open>C25. A call of any tool, with any arguments, asks of the outside world only what the configuration
  allows: a property of the world that is kept by the commands of the configured shell tools and by
  four reading commands of git on a repository inside the safe roots, by queries that begin with
  SELECT or WITH on a database inside the roots that is opened through a read-only address, by
  requests to URLs that were checked, and by the process list, the memory and the code graph, is
  kept by the call.\<close>

theorem tools_act_as_configured:
  assumes "tolerates P S graph cfg (ho_files (tr_host r))" "P (ho_world (tr_host r))"
  shows "P (ho_world (tr_host (snd (execute
    \<lparr>tb_config = cfg, tb_adapters = default_adapters S cfg, tb_graph = graph, tb_now = now, tb_ms = ms\<rparr>
    name args request_id model case_id call_id r))))"
proof -
  let ?T = "\<lparr>tb_config = cfg, tb_adapters = default_adapters S cfg, tb_graph = graph, tb_now = now, tb_ms = ms\<rparr>"
  have result: "P (ho_world (snd (as_result m (tr_host r))))" if "keeps P (ho_files (tr_host r)) m" for m
    using that assms(2) by (force simp: keeps_def as_result_def split: prod.split sum.split)
  show ?thesis
    unfolding execute_host
  proof (cases rule: run_tool_cases [of ?T name args "tr_host r"])
    case idle
    with assms(2) show "P (ho_world (snd (run_tool ?T name args (tr_host r))))" by simp
  next
    case (graph gs project)
    then have "keeps P (ho_files (tr_host r)) (on_world (execute_graph_tool gs project name args))"
      using assms(1) by (intro kept_world) (simp add: tolerates_def)
    then show "P (ho_world (snd (run_tool ?T name args (tr_host r))))" using graph(2) by (simp only: result)
  next
    case (tool tool ad)
    then have "keeps P (ho_files (tr_host r)) (ad tool args)"
      using adapter_keeps [OF _ assms(1) _ refl] by simp
    then show "P (ho_world (snd (run_tool ?T name args (tr_host r))))" using tool(3) by (simp only: result)
  qed
qed

end
