(* ===== verification/Tool_Loop.thy ===== *)
theory Tool_Loop
  imports Tool_Executor
begin

text \<open>
  The loop of an agent (\<open>core/agent_tools/runtime.py\<close>) and the messages it starts from
  (\<open>core/agent_tools/prompt_builder.py\<close>): the model is called, the tools it asks for are executed and
  their results sent back, until it answers; an answer about code is reviewed and may be revised.

  The model, the verifier of answers, and the reading and writing of JSON are functions of a record.
  \<open>ag_sent\<close> lists the requests that were sent to the model.
\<close>

section \<open>Messages\<close>

definition first_choice :: "pydict \<Rightarrow> pydict option" where
  "first_choice response =
     (case dget response ''choices'' of PList (PDict c # _) \<Rightarrow> Some c | _ \<Rightarrow> None)"

definition assistant_message :: "pydict \<Rightarrow> pydict" where
  "assistant_message response =
     (case first_choice response of
        None \<Rightarrow> [(''role'', PStr ''assistant''), (''content'', PStr [])]
      | Some c \<Rightarrow>
          (case or_else (dget c ''message'') (PDict []) of
             PDict m \<Rightarrow> m
           | v \<Rightarrow> [(''role'', PStr ''assistant''), (''content'', PStr (py_str v))]))"

definition replace_content :: "pydict \<Rightarrow> string \<Rightarrow> pydict" where
  "replace_content response content =
     (case first_choice response of
        None \<Rightarrow> [(''choices'', PList [PDict [(''message'',
          PDict [(''role'', PStr ''assistant''), (''content'', PStr content)])]])]
      | Some c \<Rightarrow>
          let m = (case or_else (dget c ''message'') (PDict []) of PDict d \<Rightarrow> d | _ \<Rightarrow> [(''role'', PStr ''assistant'')]);
              c' = AList.update ''message'' (PDict (AList.update ''content'' (PStr content) m)) c;
              others = (case dget response ''choices'' of PList cs \<Rightarrow> tl cs | _ \<Rightarrow> [])
          in AList.update ''choices'' (PList (PDict c' # others)) response)"

text \<open>A value that cannot be iterated makes the comprehension raise.\<close>

definition tool_calls :: "pydict \<Rightarrow> exn + pydict list" where
  "tool_calls m = (case dget m ''tool_calls'' of
       PList cs \<Rightarrow> Inr (List.map_filter (\<lambda>c. case c of PDict d \<Rightarrow> Some d | _ \<Rightarrow> None) cs)
     | PStr s \<Rightarrow> Inr []
     | PDict d \<Rightarrow> Inr []
     | v \<Rightarrow> if truthy v then Inl (Exn ''TypeError'' ''object is not iterable'') else Inr [])"

definition malformed :: "string \<Rightarrow> string \<Rightarrow> string \<Rightarrow> exn" where
  "malformed name call_id detail =
     Exn ''MalformedToolCallArgumentsError''
       (''Malformed arguments for tool call '' @ call_id @ '' ('' @ name @ ''): '' @ detail)"

definition parse_arguments :: "(string \<Rightarrow> string + pyval) \<Rightarrow> pyval \<Rightarrow> string \<Rightarrow> string \<Rightarrow> exn + pydict" where
  "parse_arguments loads raw name call_id = (case raw of
       PDict d \<Rightarrow> Inr d
     | PStr s \<Rightarrow>
         if strip s = [] then Inr []
         else (case loads s of
             Inl detail \<Rightarrow> Inl (malformed name call_id detail)
           | Inr (PDict d) \<Rightarrow> Inr d
           | Inr _ \<Rightarrow> Inl (malformed name call_id ''arguments must decode to a JSON object''))
     | _ \<Rightarrow> Inr [])"

text \<open>The name, the id and the arguments of a call.\<close>

definition parse_call :: "(string \<Rightarrow> string + pyval) \<Rightarrow> pydict \<Rightarrow> exn + (string \<times> string \<times> pydict)" where
  "parse_call loads c =
     (case or_else (dget c ''function'') (PDict []) of
        PDict f \<Rightarrow>
          let name = py_str (or_else (dget f ''name'') (PStr []));
              call_id = py_str (or_else (dget c ''id'') (PStr name))
          in map_sum id (\<lambda>args. (name, call_id, args)) (parse_arguments loads (dget f ''arguments'') name call_id)
      | _ \<Rightarrow> Inl (Exn ''AttributeError'' ''object has no attribute 'get' ''))"

definition tool_message :: "(pyval \<Rightarrow> string) \<Rightarrow> string \<Rightarrow> string \<Rightarrow> pydict \<Rightarrow> pydict" where
  "tool_message dumps name call_id result =
     [(''role'', PStr ''tool''), (''tool_call_id'', PStr call_id), (''name'', PStr name),
      (''content'', PStr (dumps (PDict result)))]"

section \<open>Evidence\<close>

fun result_strings :: "pyval \<Rightarrow> string list" where
  "result_strings (PStr s) = [s]"
| "result_strings (PList vs) = concat (map result_strings vs)"
| "result_strings (PDict d) = concat (map (\<lambda>(k, v). result_strings v) d)"
| "result_strings _ = []"

definition is_test_source_path :: "string \<Rightarrow> bool" where
  "is_test_source_path value =
     (let p = map (\<lambda>c. if c = CHR 0x5C then CHR ''/'' else c) value
      in ends_with ''.py'' p \<and> (starts_with ''tests/'' p \<or> ''tests'' \<in> set (path_parts p)))"

definition has_test_evidence :: "pydict \<Rightarrow> bool" where
  "has_test_evidence result = list_ex is_test_source_path (result_strings (PDict result))"

section \<open>Reports of the verifier\<close>

record report =
  rp_ok :: bool
  rp_verified_paths :: "string list"
  rp_missing_paths :: "string list"
  rp_verified_symbols :: "string list"
  rp_missing_symbols :: "string list"
  rp_missing_source :: bool
  rp_missing_test_source :: bool
  rp_issues :: "pydict list"

definition feedback :: "report \<Rightarrow> string" where
  "feedback r =
     (let unsupported = map (\<lambda>i. py_str (dget i ''value''))
            (filter (\<lambda>i. py_eq (dget i ''kind'') (PStr ''missing_source_evidence'')) (rp_issues r))
      in join [CHR 0x0A] (
        (if rp_missing_source r then [''No project/source tool evidence was captured for these codebase claims.''] else []) @
        (if rp_missing_test_source r
         then [''No test source tool evidence was captured for these test coverage claims.''] else []) @
        (if rp_missing_paths r \<noteq> [] then [''Missing file paths: '' @ join '', '' (rp_missing_paths r)] else []) @
        (if rp_missing_symbols r \<noteq> [] then [''Missing symbols: '' @ join '', '' (rp_missing_symbols r)] else []) @
        (if unsupported \<noteq> [] then [''Unsupported source evidence: '' @ join '', '' unsupported] else [])))"

definition verification_status :: "report \<Rightarrow> string" where
  "verification_status r =
     (let claims = (rp_verified_paths r \<noteq> [] \<or> rp_missing_paths r \<noteq> [] \<or>
                    rp_verified_symbols r \<noteq> [] \<or> rp_missing_symbols r \<noteq> [])
      in if rp_ok r \<and> claims then ''verified'' else if rp_ok r then ''no_code_claims'' else ''unverified'')"

abbreviation strings_value :: "string list \<Rightarrow> pyval" where
  "strings_value ss \<equiv> PList (map PStr ss)"

definition attach_verification :: "pydict \<Rightarrow> report \<Rightarrow> string \<Rightarrow> pydict" where
  "attach_verification response r status =
     AList.update ''llama_pack''
       (PDict (AList.update ''verification''
          (PDict [(''status'', PStr status), (''ok'', PBool (rp_ok r)),
             (''verified_paths'', strings_value (rp_verified_paths r)),
             (''missing_paths'', strings_value (rp_missing_paths r)),
             (''verified_symbols'', strings_value (rp_verified_symbols r)),
             (''missing_symbols'', strings_value (rp_missing_symbols r)),
             (''missing_source_evidence'', PBool (rp_missing_source r)),
             (''missing_test_source_evidence'', PBool (rp_missing_test_source r)),
             (''issues'', PList (map PDict (rp_issues r)))])
          (case dget response ''llama_pack'' of PDict d \<Rightarrow> d | _ \<Rightarrow> [])))
       response"

definition unverified_answer_message :: string where
  "unverified_answer_message =
     ''I could not verify the codebase claims in the generated answer, so I am not returning them as facts. '' @
     ''Please ask again with a narrower codebase query.''"

section \<open>The loop\<close>

record 'w agent_state =
  ag_run :: "'w tool_run"
  ag_sent :: "pydict list"

record 'w agent =
  al_box :: "'w toolbox"
  al_chat :: "string \<Rightarrow> pydict \<Rightarrow> ('w, pydict \<times> pydict) eff"
  al_verify :: "string \<Rightarrow> bool \<Rightarrow> bool \<Rightarrow> ('w, report) eff"
  al_dumps :: "pyval \<Rightarrow> string"
  al_loads :: "string \<Rightarrow> string + pyval"

definition max_iterations_limit :: int where
  "max_iterations_limit = 32"

definition request_max_iterations :: "pydict \<Rightarrow> int \<Rightarrow> exn + int" where
  "request_max_iterations payload configured =
     (let check = (\<lambda>n. if n < 1 \<or> n > max_iterations_limit
            then Inl (Exn ''ValueError'' (''agent_tool_max_iterations must be between 1 and '' @ str_int max_iterations_limit))
            else Inr n)
      in case dget payload ''agent_tool_max_iterations'' of
           PNone \<Rightarrow> Inr configured
         | PInt n \<Rightarrow> check n
         | PBool b \<Rightarrow> check (if b then 1 else 0)
         | _ \<Rightarrow> Inl (Exn ''ValueError'' (''agent_tool_max_iterations must be an integer between 1 and '' @
                 str_int max_iterations_limit)))"

definition ag_record :: "'w agent \<Rightarrow> emission \<Rightarrow> ('w agent_state, unit) eff" where
  "ag_record A e = (\<lambda>s. (Inr (), s\<lparr>ag_run := record_event (al_box A) e (ag_run s)\<rparr>))"

definition send :: "'w agent \<Rightarrow> string \<Rightarrow> pydict \<Rightarrow> ('w agent_state, pydict \<times> pydict) eff" where
  "send A model request = (\<lambda>s.
     case on_host (on_world (al_chat A model request)) (ag_run s) of
       (x, r) \<Rightarrow> (x, s\<lparr>ag_run := r, ag_sent := ag_sent s @ [request]\<rparr>))"

definition verify_answer :: "'w agent \<Rightarrow> string \<Rightarrow> bool \<Rightarrow> bool \<Rightarrow> ('w agent_state, report) eff" where
  "verify_answer A content source test_source = (\<lambda>s.
     case on_host (on_world (al_verify A content source test_source)) (ag_run s) of
       (x, r) \<Rightarrow> (x, s\<lparr>ag_run := r\<rparr>))"

definition call_tool :: "'w agent \<Rightarrow> string \<Rightarrow> string \<Rightarrow> string \<Rightarrow> pydict \<Rightarrow> string \<Rightarrow> ('w agent_state, pydict) eff" where
  "call_tool A request_id model name args call_id = (\<lambda>s.
     case execute (al_box A) name args request_id model None (Some call_id) (ag_run s) of
       (result, r) \<Rightarrow> (Inr result, s\<lparr>ag_run := r\<rparr>))"

definition message_text :: "pydict \<Rightarrow> string" where
  "message_text m = py_str (or_else (dget m ''content'') (PStr []))"

definition feedback_message :: "pydict \<Rightarrow> report \<Rightarrow> pydict" where
  "feedback_message m r =
     (let nl = [CHR 0x0A] in
      [(''role'', PStr ''user''),
       (''content'', PStr (
          ''Review this exact draft answer, not conversational memory:'' @ nl @ nl @
          ''<draft_answer>'' @ nl @ message_text m @ nl @ ''</draft_answer>'' @ nl @ nl @
          ''Your draft contains unverified codebase claims.'' @ nl @
          feedback r @ nl @ nl @
          ''Revise using only verified file paths and symbols. '' @
          ''Do not introduce new paths or symbols unless they are verified by tool evidence. '' @
          ''If a detail is not verified, say not verified.''))])"

text \<open>The request of one round.\<close>

definition request_of :: "pydict \<Rightarrow> pyval list \<Rightarrow> pydict list \<Rightarrow> pydict" where
  "request_of base tools messages =
     dmerge base [(''messages'', PList (map PDict messages)), (''tools'', PList tools)]"

definition review_failed :: "string \<Rightarrow> report \<Rightarrow> emission" where
  "review_failed model r =
     (emission_of ''answer_verification_failed'')
       \<lparr>em_status := ''failed'', em_model := Some model, em_title := ''Answer verification failed'',
        em_payload := [(''missing_paths'', strings_value (rp_missing_paths r)),
          (''missing_symbols'', strings_value (rp_missing_symbols r)),
          (''missing_source_evidence'', PBool (rp_missing_source r)),
          (''missing_test_source_evidence'', PBool (rp_missing_test_source r)),
          (''issues'', PList (map PDict (rp_issues r)))]\<rparr>"

text \<open>The review of an answer; \<open>n\<close> revisions are left, \<open>used\<close> were asked for.\<close>

fun review ::
  "'w agent \<Rightarrow> string \<Rightarrow> (pydict list \<Rightarrow> pydict) \<Rightarrow> int \<Rightarrow> bool \<Rightarrow> bool \<Rightarrow> nat \<Rightarrow> nat \<Rightarrow> pydict list \<Rightarrow> pydict \<Rightarrow> pydict
     \<Rightarrow> ('w agent_state, pydict \<times> pydict \<times> report) eff" where
  "review A model req iteration source test_source used n messages response meta =
     (let message = assistant_message response in
      seqE (ag_record A ((emission_of ''answer_verification_started'')\<lparr>em_model := Some model,
              em_title := ''Reviewing generation'',
              em_payload := [(''iteration'', PInt (iteration + 1)), (''retry'', PInt (int used))]\<rparr>)) (\<lambda>_.
      seqE (verify_answer A (message_text message) (source \<or> used > 0) test_source) (\<lambda>r.
      if rp_ok r then ret (response, meta, r)
      else seqE (ag_record A (review_failed model r)) (\<lambda>_.
      case n of
        0 \<Rightarrow>
          if tc_verification (tb_config (al_box A)) = ''strict''
          then raise_exn (Exn ''RuntimeError'' ''answer verification failed before final assistant response'')
          else ret (if strip (message_text message) = [] then replace_content response unverified_answer_message
                    else response, meta, r)
      | Suc n' \<Rightarrow>
          (let messages' = messages @ [message, feedback_message message r] in
           seqE (send A model (req messages')) (\<lambda>(response', meta').
           review A model req iteration source test_source (Suc used) n' messages' response' meta'))))))"

text \<open>The calls of one message, in order.\<close>

fun run_calls ::
  "'w agent \<Rightarrow> string \<Rightarrow> string \<Rightarrow> pydict list \<Rightarrow> pydict list \<Rightarrow> bool \<Rightarrow> bool
     \<Rightarrow> ('w agent_state, pydict list \<times> bool \<times> bool) eff" where
  "run_calls A request_id model [] messages source test_source = ret (messages, source, test_source)"
| "run_calls A request_id model (c # cs) messages source test_source =
     (case parse_call (al_loads A) c of
        Inl e \<Rightarrow> raise_exn e
      | Inr (name, call_id, args) \<Rightarrow>
          seqE (call_tool A request_id model name args call_id) (\<lambda>result.
          let ok = truthy (dget result ''ok'')
          in run_calls A request_id model cs (messages @ [tool_message (al_dumps A) name call_id result])
               (source \<or> ok) (test_source \<or> (ok \<and> has_test_evidence result))))"

definition finished :: "'w agent \<Rightarrow> string \<Rightarrow> pydict \<Rightarrow> pydict \<Rightarrow> ('w agent_state, pydict \<times> pydict) eff" where
  "finished A model response meta =
     seqE (ag_record A ((emission_of ''assistant_message_completed'')
             \<lparr>em_status := ''passed'', em_model := Some model, em_title := ''Assistant answered'',
              em_payload := [(''content'', or_else (dget (assistant_message response) ''content'') (PStr []))]\<rparr>))
       (\<lambda>_. ret (response, meta))"

definition answered ::
  "'w agent \<Rightarrow> string \<Rightarrow> (pydict list \<Rightarrow> pydict) \<Rightarrow> int \<Rightarrow> bool \<Rightarrow> bool \<Rightarrow> pydict list \<Rightarrow> pydict \<Rightarrow> pydict
     \<Rightarrow> ('w agent_state, pydict \<times> pydict) eff" where
  "answered A model req iteration source test_source messages response meta =
     (let cfg = tb_config (al_box A) in
      if tb_graph (al_box A) \<noteq> None \<and> tc_verification cfg \<noteq> ''off''
      then seqE (review A model req iteration source test_source 0 (tc_max_retries cfg) messages response meta)
             (\<lambda>(response', meta', r). finished A model (attach_verification response' r (verification_status r)) meta')
      else finished A model response meta)"

fun iterate ::
  "'w agent \<Rightarrow> string \<Rightarrow> string \<Rightarrow> (pydict list \<Rightarrow> pydict) \<Rightarrow> nat \<Rightarrow> int \<Rightarrow> pydict list \<Rightarrow> bool \<Rightarrow> bool
     \<Rightarrow> ('w agent_state, pydict \<times> pydict) eff" where
  "iterate A request_id model req 0 iteration messages source test_source =
     raise_exn (Exn ''RuntimeError'' ''agent tool loop reached max_iterations before final assistant response'')"
| "iterate A request_id model req (Suc n) iteration messages source test_source =
     seqE (ag_record A ((emission_of ''assistant_turn_started'')\<lparr>em_model := Some model,
             em_title := ''Assistant turn '' @ str_int (iteration + 1),
             em_payload := [(''iteration'', PInt (iteration + 1))]\<rparr>)) (\<lambda>_.
     seqE (send A model (req messages)) (\<lambda>(response, meta).
       let message = assistant_message response in
       case tool_calls message of
         Inl e \<Rightarrow> raise_exn e
       | Inr [] \<Rightarrow> answered A model req iteration source test_source messages response meta
       | Inr (c # cs) \<Rightarrow>
           seqE (run_calls A request_id model (c # cs) (messages @ [message]) source test_source)
             (\<lambda>(messages', source', test_source').
               iterate A request_id model req n (iteration + 1) messages' source' test_source')))"

text \<open>The messages of a request are dictionaries, as the schema of the API has them.\<close>

definition payload_messages :: "pydict \<Rightarrow> pydict list" where
  "payload_messages payload =
     (case dget payload ''messages'' of
        PList ms \<Rightarrow> map (\<lambda>m. case m of PDict d \<Rightarrow> d | _ \<Rightarrow> []) ms | _ \<Rightarrow> [])"

definition agent_tools :: "'w agent \<Rightarrow> pyval list" where
  "agent_tools A = openai_tools (tb_config (al_box A)) (if tb_graph (al_box A) = None then [] else graph_tool_definitions)"

definition run_agent :: "'w agent \<Rightarrow> string \<Rightarrow> pydict \<Rightarrow> string \<Rightarrow> ('w agent_state, pydict \<times> pydict) eff" where
  "run_agent A model payload request_id =
     (case request_max_iterations payload (tc_max_iterations (tb_config (al_box A))) of
        Inl e \<Rightarrow> raise_exn e
      | Inr n \<Rightarrow>
          let base = filter (\<lambda>(k, v). k \<notin> {''messages'', ''tool_runtime'', ''agent_tool_max_iterations''}) payload
          in iterate A request_id model (request_of base (agent_tools A)) (nat n) 0
               (payload_messages payload) False False)"

section \<open>The messages it starts from\<close>

definition graph_instructions :: string where
  "graph_instructions =
     (let nl = [CHR 0x0A] in
      ''Project code graph tools are available for this chat. Use them to inspect indexed symbols, '' @
      ''relationships, routes, and React components before making codebase claims.'' @ nl @ nl @
      ''For runtime trace answers, every call-path edge must be backed by direct source evidence. '' @
      ''For each edge use this exact format: from_symbol=... to_symbol=... file=... line=... statement='...'. '' @
      ''Answers without this exact edge evidence are unverified. '' @
      ''If a handoff is inferred but no direct source statement verifies it, mark that edge '' @
      ''unverified instead of presenting it as fact. '' @
      ''If the answer says which tests cover behavior, read the relevant test source first. '' @
      ''Do not claim test coverage from filenames, search results, or memory alone.'')"

definition system_message :: "string \<Rightarrow> pydict" where
  "system_message content = [(''role'', PStr ''system''), (''content'', PStr content)]"

definition content_text :: "pydict \<Rightarrow> string option" where
  "content_text m = (case dget m ''content'' of PStr s \<Rightarrow> Some s | _ \<Rightarrow> None)"

definition previous_answer :: "pydict list \<Rightarrow> string option" where
  "previous_answer messages =
     (case List.find (\<lambda>m. py_eq (dget m ''role'') (PStr ''assistant'') \<and>
             (case content_text m of Some s \<Rightarrow> strip s \<noteq> [] | None \<Rightarrow> False)) (rev (butlast messages)) of
        None \<Rightarrow> None
      | Some m \<Rightarrow> content_text m)"

text \<open>\<open>" ".join(text.lower().split())\<close>.\<close>

fun words_of :: "string \<Rightarrow> string \<Rightarrow> string list" where
  "words_of w [] = (if w = [] then [] else [rev w])"
| "words_of w (c # s) = (if is_space c then (if w = [] then [] else [rev w]) @ words_of [] s else words_of (c # w) s)"

definition refers_to_previous :: "pydict list \<Rightarrow> bool" where
  "refers_to_previous messages =
     (messages \<noteq> [] \<and> py_eq (dget (last messages) ''role'') (PStr ''user'') \<and>
      (case content_text (last messages) of
         None \<Rightarrow> False
       | Some s \<Rightarrow>
           let normalized = join '' '' (words_of [] (lower s))
           in list_ex (\<lambda>t. contains t normalized)
                [''previous answer'', ''last answer'', ''your previous'', ''your last'', ''that answer''] \<and>
              list_ex (\<lambda>t. contains t normalized) [''review'', ''verify'', ''correct'', ''check'', ''unsupported'', ''fix'']))"

definition build_agent_messages :: "pydict list \<Rightarrow> bool \<Rightarrow> pydict list" where
  "build_agent_messages messages graph_enabled =
     (let built = (if graph_enabled then system_message graph_instructions # messages else messages)
      in case previous_answer built of
           None \<Rightarrow> built
         | Some previous \<Rightarrow>
             if refers_to_previous built
             then butlast built @ [system_message
                    (''The user is referring to the previous assistant answer. Review this exact answer, not conversational memory:'' @
                     [CHR 0x0A, CHR 0x0A] @ ''<previous_assistant_answer>'' @ [CHR 0x0A] @ previous @ [CHR 0x0A] @
                     ''</previous_assistant_answer>'')] @ [last built]
             else built)"

end
