(* ===== verification/Tool_Agent.thy ===== *)
theory Tool_Agent
  imports Tool_Loop Tool_Results
begin

text \<open>
  What the loop of an agent does for every model: it ends after a bounded number of calls of the model,
  every call of a tool is answered before the model is asked again, and in strict mode no answer is
  given that the verifier did not pass. The last section shows what a review drops.
\<close>

declare review.simps [simp del]

section \<open>Requests sent\<close>

text \<open>The requests that code sends are at most \<open>k\<close>, and all satisfy \<open>P\<close>.\<close>

definition sends :: "nat \<Rightarrow> (pydict \<Rightarrow> bool) \<Rightarrow> ('w agent_state, 'a) eff \<Rightarrow> bool" where
  "sends k P m \<longleftrightarrow> (\<forall>s. \<exists>l. ag_sent (snd (m s)) = ag_sent s @ l \<and> length l \<le> k \<and> list_all P l)"

named_theorems sends_rules

lemma sends_quiet: "(\<And>s. ag_sent (snd (m s)) = ag_sent s) \<Longrightarrow> sends k P m"
  by (simp add: sends_def)

lemma sends_basic [sends_rules]:
  "sends k P (ret x)" "sends k P (raise_exn e)" "sends k P (ag_record A em)"
  "sends k P (verify_answer A c b b')" "sends k P (call_tool A rid model name args cid)"
  by (auto intro!: sends_quiet simp: ret_def raise_exn_def ag_record_def verify_answer_def call_tool_def split: prod.split)

lemma sends_send: "P r \<Longrightarrow> sends 1 P (send A model r)"
  by (auto simp: sends_def send_def split: prod.split)

lemma sends_seq:
  assumes "sends j P m" "\<And>x s s'. m s = (Inr x, s') \<Longrightarrow> sends k P (f x)" "j + k \<le> n"
  shows "sends n P (seqE m f)"
  unfolding sends_def
proof
  fix s
  obtain r s' where m: "m s = (r, s')" by (cases "m s")
  with assms(1) obtain l where l: "ag_sent s' = ag_sent s @ l" "length l \<le> j" "list_all P l"
    unfolding sends_def by (metis snd_conv)
  show "\<exists>l. ag_sent (snd (seqE m f s)) = ag_sent s @ l \<and> length l \<le> n \<and> list_all P l"
  proof (cases r)
    case (Inl e)
    with m l assms(3) show ?thesis by (auto simp: seqE_def)
  next
    case (Inr x)
    with assms(2) m obtain l' where "ag_sent (snd (f x s')) = ag_sent s' @ l'" "length l' \<le> k" "list_all P l'"
      unfolding sends_def by metis
    with m Inr l assms(3) show ?thesis by (auto simp: seqE_def intro!: exI [of _ "l @ l'"])
  qed
qed

text \<open>A step that sends nothing, then the rest.\<close>

lemma sends_then:
  "sends 0 P m \<Longrightarrow> (\<And>x s s'. m s = (Inr x, s') \<Longrightarrow> sends k P (f x)) \<Longrightarrow> sends k P (seqE m f)"
  by (rule sends_seq [of 0 P m k f k]) auto

lemma sends_one:
  "P r \<Longrightarrow> (\<And>x. sends k P (f x)) \<Longrightarrow> sends (Suc k) P (seqE (send A model r) f)"
  by (rule sends_seq [OF sends_send]) auto

lemma review_sends: "(\<And>ms. P (req ms)) \<Longrightarrow> sends n P (review A model req it src tst used n ms response meta)"
proof (induction n arbitrary: used ms response meta)
  case 0
  show ?case by (subst review.simps, unfold Let_def) (auto intro!: sends_then sends_rules)
next
  case (Suc n)
  show ?case
    by (subst review.simps, unfold Let_def)
      (auto intro!: sends_then sends_rules sends_one Suc)
qed

lemma finished_sends: "sends k P (finished A model response meta)"
  unfolding finished_def by (intro sends_then sends_rules)

lemma answered_sends:
  assumes "\<And>ms. P (req ms)"
  shows "sends (tc_max_retries (tb_config (al_box A))) P (answered A model req it src tst ms response meta)"
  unfolding answered_def Let_def
  by (auto intro!: sends_seq [OF review_sends [of P req, OF assms], where k = 0] finished_sends)

lemma run_calls_sends: "sends 0 P (run_calls A rid model cs ms src tst)"
  by (induction cs arbitrary: ms src tst)
    (auto simp: Let_def intro!: sends_rules sends_then split: sum.split prod.split)

lemma iterate_sends:
  "(\<And>ms. P (req ms)) \<Longrightarrow>
   sends (n + tc_max_retries (tb_config (al_box A))) P (iterate A rid model req n it ms src tst)"
proof (induction n arbitrary: it ms src tst)
  case 0
  then show ?case by (simp add: sends_rules)
next
  case (Suc n)
  have ans: "sends (n + tc_max_retries (tb_config (al_box A))) P (answered A model req it src tst ms response meta)"
    for response meta
    using answered_sends [of P req A model it src tst ms response meta] Suc.prems
    by (force simp: sends_def)
  show ?case
    unfolding iterate.simps Let_def add_Suc
    by (auto intro!: sends_then [OF sends_basic(3)] sends_rules sends_one sends_then [OF run_calls_sends] Suc ans
        simp del: run_calls.simps split: sum.split list.split)
qed

text \<open>C28. Whatever the model answers and whatever the tools do, the loop of an agent ends, and asks the
  model at most as often as its limit of iterations and of revisions together allow.\<close>

theorem agent_calls_bounded:
  "length (ag_sent (snd (run_agent A model payload request_id s))) \<le> length (ag_sent s) +
     nat (case request_max_iterations payload (tc_max_iterations (tb_config (al_box A))) of Inl e \<Rightarrow> 0 | Inr n \<Rightarrow> n) +
     tc_max_retries (tb_config (al_box A))"
proof (cases "request_max_iterations payload (tc_max_iterations (tb_config (al_box A)))")
  case (Inl e)
  then show ?thesis by (simp add: run_agent_def raise_exn_def)
next
  case (Inr n)
  let ?base = "filter (\<lambda>(k, v). k \<notin> {''messages'', ''tool_runtime'', ''agent_tool_max_iterations''}) payload"
  have "sends (nat n + tc_max_retries (tb_config (al_box A))) (\<lambda>_. True) (run_agent A model payload request_id)"
    using iterate_sends [of "\<lambda>_. True" "request_of ?base (agent_tools A)" "nat n" A request_id model]
    by (simp add: run_agent_def Inr Let_def)
  then obtain l where "ag_sent (snd (run_agent A model payload request_id s)) = ag_sent s @ l"
    "length l \<le> nat n + tc_max_retries (tb_config (al_box A))" unfolding sends_def by blast
  then show ?thesis by (simp add: Inr)
qed

section \<open>Strict mode\<close>

definition verification_ok :: "pydict \<Rightarrow> pyval" where
  "verification_ok response =
     (case dget response ''llama_pack'' of
        PDict d \<Rightarrow> (case dget d ''verification'' of PDict v \<Rightarrow> dget v ''ok'' | _ \<Rightarrow> PNone) | _ \<Rightarrow> PNone)"

lemma dget_Cons: "dget ((k, v) # d) k' = (if k' = k then v else dget d k')"
  by (simp add: dget_def)

lemma verification_ok_attach: "verification_ok (attach_verification response r status) = PBool (rp_ok r)"
  by (simp add: verification_ok_def attach_verification_def dget_update dget_Cons)

lemma review_strict:
  "tc_verification (tb_config (al_box A)) = ''strict'' \<Longrightarrow>
   yields (\<lambda>(response, meta, r). rp_ok r) (review A model req it src tst used n ms response meta)"
proof (induction n arbitrary: used ms response meta)
  case 0
  then show ?case by (subst review.simps, unfold Let_def) (auto intro!: yields_rules)
next
  case (Suc n)
  show ?case
    by (subst review.simps, unfold Let_def) (auto intro!: yields_rules Suc.IH Suc.prems)
qed

lemma yields_seq_with:
  "yields Q m \<Longrightarrow> (\<And>x. Q x \<Longrightarrow> yields P (f x)) \<Longrightarrow> yields P (seqE m f)"
  by (fastforce simp: yields_def seqE_def split: prod.splits sum.splits)

lemma finished_yields: "P (response, meta) \<Longrightarrow> yields P (finished A model response meta)"
  unfolding finished_def by (intro yields_rules)

lemma iterate_strict:
  assumes "tc_verification (tb_config (al_box A)) = ''strict''" "tb_graph (al_box A) \<noteq> None"
  shows "yields (\<lambda>(response, meta). verification_ok response = PBool True)
    (iterate A rid model req n it ms src tst)"
proof (induction n arbitrary: it ms src tst)
  case 0
  then show ?case by (simp add: yields_rules)
next
  case (Suc n)
  have "yields (\<lambda>(response, meta). verification_ok response = PBool True)
      (answered A model req it src tst ms response meta)" for response meta
    unfolding answered_def Let_def
    using assms by (auto intro!: yields_seq_with [OF review_strict] finished_yields simp: verification_ok_attach)
  with Suc show ?case
    by (auto simp: Let_def intro!: yields_rules split: sum.split list.split)
qed


section \<open>Every call is answered\<close>

definition call_id_of :: "pydict \<Rightarrow> string" where
  "call_id_of c = (case or_else (dget c ''function'') (PDict []) of
     PDict f \<Rightarrow> py_str (or_else (dget c ''id'') (PStr (py_str (or_else (dget f ''name'') (PStr []))))) | _ \<Rightarrow> [])"

definition answers :: "pydict \<Rightarrow> pydict \<Rightarrow> bool" where
  "answers m c = (dget m ''role'' = PStr ''tool'' \<and> dget m ''tool_call_id'' = PStr (call_id_of c))"

text \<open>Each message that calls tools is followed by the results of its calls, one each and in order.\<close>

function dialogue :: "pydict list \<Rightarrow> bool" where
  "dialogue [] = True"
| "dialogue (m # ms) =
     (case tool_calls m of
        Inl e \<Rightarrow> False
      | Inr cs \<Rightarrow> list_all2 answers (take (length cs) ms) cs \<and> dialogue (drop (length cs) ms))"
  by pat_completeness auto
termination by (relation "measure length") auto

lemma dialogue_append: "dialogue ms \<Longrightarrow> dialogue ns \<Longrightarrow> dialogue (ms @ ns)"
proof (induction ms rule: dialogue.induct)
  case (2 m ms)
  show ?case
  proof (cases "tool_calls m")
    case (Inl e)
    with 2(2) show ?thesis by simp
  next
    case (Inr cs)
    with 2(2) have "list_all2 answers (take (length cs) ms) cs" "dialogue (drop (length cs) ms)" by auto
    moreover from this(1) have "length cs \<le> length ms" using list_all2_lengthD by fastforce
    ultimately show ?thesis using 2(1) [OF Inr] 2(3) Inr by simp
  qed
qed simp

lemma tool_message_answers:
  assumes "parse_call loads c = Inr (name, call_id, args)"
  shows "answers (tool_message dumps name call_id result) c"
  using assms
  by (auto simp: parse_call_def answers_def call_id_of_def tool_message_def dget_Cons Let_def map_sum_def
      split: pyval.splits sum.splits)

lemma run_calls_answers:
  "yields (\<lambda>t. \<exists>rs. fst t = ms @ rs \<and> list_all2 answers rs cs)
     (run_calls A rid model cs ms src tst)"
proof (induction cs arbitrary: ms src tst)
  case Nil
  then show ?case by (simp add: yields_rules)
next
  case (Cons c cs)
  have "yields (\<lambda>t. \<exists>rs. fst t = ms @ rs \<and> list_all2 answers rs (c # cs))
      (run_calls A rid model cs (ms @ [tool_message (al_dumps A) name call_id result]) b b')"
    if "parse_call (al_loads A) c = Inr (name, call_id, args)" for name call_id args result b b'
    using Cons.IH [of "ms @ [tool_message (al_dumps A) name call_id result]" b b']
      tool_message_answers [OF that, of "al_dumps A" result]
    by (fastforce simp: yields_def)
  then show ?case
    unfolding run_calls.simps Let_def by (auto intro!: yields_rules split: sum.split)
qed

lemma iterate_dialogue:
  assumes "tb_graph (al_box A) = None \<or> tc_verification (tb_config (al_box A)) = ''off''"
  shows "dialogue ms \<Longrightarrow>
    sends n (\<lambda>r. \<exists>ms. dialogue ms \<and> r = req (init @ ms)) (iterate A rid model req n it (init @ ms) src tst)"
proof (induction n arbitrary: it ms src tst)
  case 0
  then show ?case by (simp add: sends_rules)
next
  case (Suc n)
  let ?P = "\<lambda>r. \<exists>ms. dialogue ms \<and> r = req (init @ ms)"
  have ans: "sends n ?P (answered A model req it src tst (init @ ms) response meta)" for response meta
    using assms by (auto simp: answered_def Let_def finished_sends)
  have calls: "sends n ?P (seqE (run_calls A rid model (c # cs) ((init @ ms) @ [m]) src tst)
      (\<lambda>(ms', src', tst'). iterate A rid model req n (it + 1) ms' src' tst'))"
    if "tool_calls m = Inr (c # cs)" for m c cs
  proof (rule sends_then [OF run_calls_sends])
    fix x s s' assume "run_calls A rid model (c # cs) ((init @ ms) @ [m]) src tst s = (Inr x, s')"
    with run_calls_answers [of "(init @ ms) @ [m]" "c # cs" A rid model src tst] obtain rs b b' where
      x: "x = (init @ ms @ m # rs, b, b')" "list_all2 answers rs (c # cs)"
      unfolding yields_def by (cases x) fastforce
    have "dialogue (m # rs)" using that x(2) list_all2_lengthD [OF x(2)] by simp
    then have "dialogue (ms @ m # rs)" using Suc.prems dialogue_append by blast
    then show "sends n ?P (case x of (ms', src', tst') \<Rightarrow> iterate A rid model req n (it + 1) ms' src' tst')"
      using Suc.IH x(1) by simp
  qed
  show ?case
    unfolding iterate.simps Let_def
    by (rule sends_then [OF sends_basic(3)], rule sends_one)
      (use Suc.prems ans calls in \<open>auto intro: sends_rules simp del: run_calls.simps split: sum.split list.split prod.split\<close>)
qed

text \<open>C26. Without the review of answers, every request that an agent sends to the model extends the
  messages it started with by a proper dialogue: after each message that calls tools come the results
  of exactly these calls, in their order and under their ids, before anything else.\<close>

theorem requests_are_dialogues:
  assumes "tb_graph (al_box A) = None \<or> tc_verification (tb_config (al_box A)) = ''off''"
  shows "\<exists>l base. ag_sent (snd (run_agent A model payload request_id s)) = ag_sent s @ l \<and>
    (\<forall>r \<in> set l. \<exists>ms. dialogue ms \<and> r = request_of base (agent_tools A) (payload_messages payload @ ms))"
proof -
  let ?base = "filter (\<lambda>(k, v). k \<notin> {''messages'', ''tool_runtime'', ''agent_tool_max_iterations''}) payload"
  let ?P = "\<lambda>r. \<exists>ms. dialogue ms \<and> r = request_of ?base (agent_tools A) (payload_messages payload @ ms)"
  have "\<exists>k. sends k ?P (run_agent A model payload request_id)"
  proof (cases "request_max_iterations payload (tc_max_iterations (tb_config (al_box A)))")
    case (Inl e)
    then show ?thesis by (auto simp: run_agent_def sends_rules)
  next
    case (Inr n)
    then show ?thesis
      using iterate_dialogue [OF assms, of "[]" "nat n" "request_of ?base (agent_tools A)" "payload_messages payload"
          request_id model 0 False False]
      by (auto simp: run_agent_def Let_def)
  qed
  then show ?thesis unfolding sends_def list_all_iff by meson
qed

end
