(* ===== verification/Tool_Demo.thy ===== *)
theory Tool_Demo
  imports Tool_Confine Tool_Agent
begin

text \<open>
  The executor on small configurations: concrete runs of the properties of \<^theory_text>\<open>Tool_Confine\<close>,
  and the ways out of the safe roots that the search of texts and the recursive listing leave open,
  because they follow the links they find. Then agents whose model answers from a list, and what the
  review of answers lets through.
\<close>

definition demo_tool :: "string \<Rightarrow> string \<Rightarrow> tool_def" where
  "demo_tool kind p = \<lparr>tl_type = kind, tl_description = [], tl_command = None, tl_path = Some p, tl_method = None,
     tl_url = None, tl_timeout = None, tl_glob = Some ''*'', tl_recursive = True, tl_max_depth = 3, tl_max_entries = 200,
     tl_include_hidden = False, tl_case_sensitive = False, tl_regex = False, tl_max_matches = 50,
     tl_max_file_bytes = 1000, tl_max_response_bytes = 1000, tl_max_lines = 100, tl_max_commits = 20,
     tl_allowed_domains = [], tl_strip_html = True, tl_paths = [], tl_write_mode = ''append'',
     tl_max_write_bytes = 1000, tl_parameters = []\<rparr>"

definition demo_config :: "(string \<times> tool_def) list \<Rightarrow> tools_config" where
  "demo_config tools = \<lparr>tc_enabled = True, tc_max_iterations = 4, tc_timeout = 10, tc_verification = ''warn'',
     tc_max_retries = 1, tc_safe_roots = [''/safe''], tc_tools = tools\<rparr>"

definition demo_files :: files where
  "demo_files = \<lparr>fs_entries = [([''safe''], Dir), ([''safe'', ''a.txt''], File ''hello''),
       ([''safe'', ''x''], Link ''/etc/key''), ([''safe'', ''d''], Link ''/etc''),
       ([''etc''], Dir), ([''etc'', ''key''], File ''secret'')],
     fs_cwd = [], fs_links = 40, fs_log = []\<rparr>"

text \<open>A world that lists the commands that were started; nothing is found but a link.\<close>

definition demo_system :: "string list list system" where
  "demo_system = \<lparr>sy_match = \<lparr>mt_glob = (\<lambda>fs base g. Inr [base @ [''x'']]), mt_regex = (\<lambda>r i. Inr (\<lambda>l. False))\<rparr>,
     sy_http = \<lparr>hc_request = (\<lambda>m u t w. (Inl (Exn ''ConnectError'' ''refused''), w)), hc_request_error = (\<lambda>e. True),
       hc_join = (\<lambda>b l. l), hc_decode = (\<lambda>s. s), hc_json = (\<lambda>s. Inr PNone), hc_extract = (\<lambda>s. s)\<rparr>,
     sy_policy = open_policy,
     sy_spawn = (\<lambda>cmd t w. (Inr (Exited 0 ''main'' []), w @ [cmd])),
     sy_sqlite = (\<lambda>uri q w. (Inr ([], []), w)),
     sy_statuses = None, sy_memory = None\<rparr>"

definition demo_box :: "(string \<times> tool_def) list \<Rightarrow> string list list toolbox" where
  "demo_box tools = \<lparr>tb_config = demo_config tools, tb_adapters = default_adapters demo_system (demo_config tools),
     tb_graph = None, tb_now = (\<lambda>n. ''now''), tb_ms = (\<lambda>n. 0)\<rparr>"

definition demo_start :: "string list list tool_run" where
  "demo_start = \<lparr>tr_host = \<lparr>ho_files = demo_files, ho_world = [], ho_writes = []\<rparr>, tr_recorder = None, tr_traces = []\<rparr>"

definition demo_call :: "(string \<times> tool_def) list \<Rightarrow> pydict \<Rightarrow> pydict \<times> string list list tool_run" where
  "demo_call tools args = execute (demo_box tools) ''t'' args ''q'' ''m'' None None demo_start"


theorem tools_act_as_configured_witness:
  "list_all (\<lambda>c. take 3 c = [''git'', ''-C'', ''/safe''] \<or> take 2 c = [''git'', ''-C''])
     (ho_world (tr_host (snd (demo_call [(''t'', demo_tool ''git_diff'' ''/safe'')] [])))) \<and>
   ho_world (tr_host (snd (demo_call [(''t'', demo_tool ''git_diff'' ''/safe'')] []))) = [[''git'', ''-C'', ''/safe'', ''diff'', ''HEAD'']]"
proof -
  let ?tools = "[(''t'', demo_tool ''git_diff'' ''/safe'')]"
  let ?P = "list_all (\<lambda>c. take 3 c = [''git'', ''-C'', ''/safe''] \<or> take 2 c = [''git'', ''-C''])"
  have "take 2 cmd = [''git'', ''-C'']" if "command_allowed (demo_config ?tools) fs cmd" for fs cmd
    using that by (auto simp: command_allowed_def demo_config_def demo_tool_def)
  then have t: "tolerates ?P demo_system None (demo_config ?tools) (ho_files (tr_host demo_start))"
    by (simp add: tolerates_def demo_system_def)
  have "ho_world (tr_host (snd (demo_call ?tools []))) = [[''git'', ''-C'', ''/safe'', ''diff'', ''HEAD'']]" by code_simp
  then show ?thesis
    using tools_act_as_configured [OF t, of "\<lambda>n. ''now''" "\<lambda>n. 0" "''t''" "[]" "''q''" "''m''" None None]
    by (simp add: demo_call_def demo_box_def demo_start_def)
qed

section \<open>Ways out\<close>

text \<open>A link inside a directory that is searched is followed: its target is read, and its lines are
  given to the model.\<close>

lemma text_search_follows_links:
  "(let (result, r') = demo_call [(''t'', demo_tool ''text_search'' ''/safe'')] [(''query'', PStr ''secret'')]
    in dget result ''matches'' = PList [PDict [(''file'', PStr ''x''), (''line'', PInt 1), (''text'', PStr ''secret'')]] \<and>
       fs_log (ho_files (tr_host r')) = [(''read'', [''etc'', ''key''])])"
  by code_simp

text \<open>A recursive listing enters a linked directory and names what is in it.\<close>

lemma directory_list_follows_links:
  "(let (result, r') = demo_call [(''t'', demo_tool ''directory_list'' ''/safe'')] []
    in PDict [(''path'', PStr ''d/key''), (''type'', PStr ''file'')] \<in> set (case dget result ''entries'' of PList es \<Rightarrow> es | _ \<Rightarrow> []) \<and>
       (''list'', [''etc'']) \<in> set (fs_log (ho_files (tr_host r'))))"
  by code_simp

lemma key_outside: "\<not> inside demo_files (demo_config tools) [''etc'', ''key'']"
proof -
  have "resolve demo_files ''/safe'' = Inr [''safe'']" by code_simp
  then show ?thesis by (simp add: inside_def demo_config_def is_relative_to_def)
qed

text \<open>A subject with a bar shifts the fields of a commit.\<close>

lemma git_log_bar:
  "commit_of ''abc1234|Support a|b syntax|Ann|2 days ago'' =
     Some (PDict [(''hash'', PStr ''abc1234''), (''subject'', PStr ''Support a''), (''author'', PStr ''b syntax''),
       (''age'', PStr ''Ann|2 days ago'')])"
  by code_simp

text \<open>The path of a database goes into the address as it is: after a question mark in a file name the
  parameter \<open>mode=ro\<close> is part of another one, and the database is not opened read-only.\<close>

lemma database_uri_question: "database_uri [''safe'', ''a?b''] = ''file:/safe/a?b?mode=ro''"
  by code_simp

text \<open>A statement that changes data passes the check when it begins with a common table expression, and
  then fails only because the database is opened for reading.\<close>

lemma with_delete_passes: "sql_allowed ''WITH t AS (SELECT 1) DELETE FROM users''"
  by code_simp

section \<open>Agents\<close>

text \<open>A model that answers from a list; the verifier passes every answer that has evidence.\<close>

definition reply :: "string \<Rightarrow> pydict list \<Rightarrow> pydict" where
  "reply content calls = [(''choices'', PList [PDict [(''message'', PDict (
     [(''role'', PStr ''assistant''), (''content'', PStr content)] @
     (if calls = [] then [] else [(''tool_calls'', PList (map PDict calls))])))]])]"

definition demo_report :: "bool \<Rightarrow> report" where
  "demo_report ok = \<lparr>rp_ok = ok, rp_verified_paths = [''src/app.py''], rp_missing_paths = [], rp_verified_symbols = [],
     rp_missing_symbols = [], rp_missing_source = \<not> ok, rp_missing_test_source = False, rp_issues = []\<rparr>"

definition demo_call_of :: "string \<Rightarrow> pydict" where
  "demo_call_of call_id = [(''id'', PStr call_id), (''function'', PDict [(''name'', PStr ''nope''), (''arguments'', PStr [])])]"

definition demo_graph :: "pydict list graph_store" where
  "demo_graph = \<lparr>gs_active = (\<lambda>p w. (Inr None, w)), gs_symbols = (\<lambda>p q k w. (Inr [], w)),
     gs_context = (\<lambda>p s w. (Inr None, w)), gs_relations = (\<lambda>p s d r n w. (Inr [], w))\<rparr>"

definition demo_agent :: "string \<Rightarrow> nat \<Rightarrow> bool \<Rightarrow> pydict list agent" where
  "demo_agent mode retries with_graph = \<lparr>al_box = \<lparr>tb_config = (demo_config [])\<lparr>tc_verification := mode, tc_max_retries := retries\<rparr>,
       tb_adapters = [], tb_graph = (if with_graph then Some (demo_graph, ''p'') else None),
       tb_now = (\<lambda>n. ''now''), tb_ms = (\<lambda>n. 0)\<rparr>,
     al_chat = (\<lambda>model request w. case w of [] \<Rightarrow> (Inl (Exn ''RuntimeError'' ''no answer''), w) | r # w' \<Rightarrow> (Inr (r, []), w')),
     al_verify = (\<lambda>content src tst w. (Inr (demo_report (content \<noteq> [] \<and> src)), w)),
     al_dumps = py_repr, al_loads = (\<lambda>s. Inr PNone)\<rparr>"

definition demo_agent_start :: "pydict list \<Rightarrow> pydict list agent_state" where
  "demo_agent_start replies = \<lparr>ag_run = \<lparr>tr_host = \<lparr>ho_files = demo_files, ho_world = replies, ho_writes = []\<rparr>,
     tr_recorder = None, tr_traces = []\<rparr>, ag_sent = []\<rparr>"

definition demo_payload :: pydict where
  "demo_payload = [(''messages'', PList [PDict [(''role'', PStr ''user''), (''content'', PStr ''hi'')]])]"

text \<open>The answer of the first review is refused for want of evidence; given again, word for word and
  without any tool, it passes, because a revision counts as evidence.\<close>

lemma revision_counts_as_evidence:
  "case run_agent (demo_agent ''strict'' 1 True) ''m'' demo_payload ''q''
      (demo_agent_start [reply ''see src/app.py'' [], reply ''see src/app.py'' []]) of
     (Inr (response, meta), s') \<Rightarrow>
       verification_ok response = PBool True \<and> tr_traces (ag_run s') = [] \<and> length (ag_sent s') = 2
   | _ \<Rightarrow> False"
  by code_simp


theorem requests_are_dialogues_witness:
  "\<exists>l base. ag_sent (snd (run_agent (demo_agent ''warn'' 1 False) ''m'' demo_payload ''q''
        (demo_agent_start [reply [] [demo_call_of ''c1''], reply ''done'' []]))) = l \<and> length l = 2 \<and>
    (\<forall>r \<in> set l. \<exists>ms. dialogue ms \<and>
       r = request_of base (agent_tools (demo_agent ''warn'' 1 False)) (payload_messages demo_payload @ ms))"
proof -
  let ?s = "demo_agent_start [reply [] [demo_call_of ''c1''], reply ''done'' []]"
  have "case run_agent (demo_agent ''warn'' 1 False) ''m'' demo_payload ''q'' ?s of (x, s') \<Rightarrow> length (ag_sent s') = 2"
    by code_simp
  moreover have "tb_graph (al_box (demo_agent ''warn'' 1 False)) = None" "ag_sent ?s = []"
    by (simp_all add: demo_agent_def demo_agent_start_def)
  ultimately show ?thesis
    using requests_are_dialogues [of "demo_agent ''warn'' 1 False" "''m''" demo_payload "''q''" ?s]
    by (auto split: prod.splits)
qed

text \<open>A revised answer that calls tools is reviewed as if it were an answer: its calls are not executed,
  and the next request holds them without their results.\<close>

lemma review_drops_calls:
  "case run_agent (demo_agent ''warn'' 2 True) ''m'' demo_payload ''q''
      (demo_agent_start [reply ''see src/app.py'' [], reply [] [demo_call_of ''c1''], reply ''see src/app.py'' []]) of
     (r, s') \<Rightarrow> tr_traces (ag_run s') = [] \<and> length (ag_sent s') = 3 \<and>
       (case dget (last (ag_sent s')) ''messages'' of
          PList ms \<Rightarrow> \<not> dialogue (map (\<lambda>m. case m of PDict d \<Rightarrow> d | _ \<Rightarrow> []) ms) | _ \<Rightarrow> False)"
  by code_simp

end
