(* ===== verification/Gguf_Reader.thy ===== *)
theory Gguf_Reader
  imports Tool_Commands
begin

text \<open>
  The reader of the header of a model file (\<open>core/model_assets/gguf_metadata.py\<close>): key-value pairs in
  little-endian binary, arrays nested to any depth. A file is the list of its bytes. Text beyond
  U+00FF has no characters here, so \<open>bytes.decode\<close> is an argument.

  The code recurses on nested arrays and loops over counts that the file names. Both take fuel here,
  the number of bytes and one more: every value that is read takes a byte, so this is enough for
  every file, which \<^theory_text>\<open>Gguf_Safety\<close> proves.
\<close>

section \<open>Values\<close>

type_synonym bytes = "8 word list"

datatype gfloat = Finite rat | Infinite bool | NotANumber

datatype gvalue = GInt int | GBool bool | GFloat gfloat | GText string | GList "gvalue list"

definition le_value :: "bytes \<Rightarrow> int" where
  "le_value bs = foldr (\<lambda>b n. uint b + 256 * n) bs 0"

definition signed :: "nat \<Rightarrow> int \<Rightarrow> int" where
  "signed bits n = (if n < 2 ^ (bits - 1) then n else n - 2 ^ bits)"

text \<open>IEEE 754 with \<open>m\<close> bits of fraction and \<open>e\<close> bits of exponent.\<close>

definition float_value :: "nat \<Rightarrow> nat \<Rightarrow> int \<Rightarrow> gfloat" where
  "float_value m e n =
     (let frac = n mod 2 ^ m; ex = n div 2 ^ m mod 2 ^ e; neg = (n div 2 ^ (m + e) mod 2 = 1);
          sign = (if neg then -1 else 1 :: rat); bias = 2 ^ (e - 1) - 1
      in if ex = 2 ^ e - 1 then (if frac = 0 then Infinite neg else NotANumber)
         else if ex = 0 then Finite (sign * of_int frac / 2 ^ (m + bias - 1))
         else let s = of_int (2 ^ m + frac) :: rat; k = nat ex
              in if k < m + bias then Finite (sign * s / 2 ^ (m + bias - k))
                 else Finite (sign * s * 2 ^ (k - (m + bias))))"

section \<open>Reading\<close>

text \<open>\<open>fh.read(n)\<close> gives what is there; \<open>struct.unpack\<close> wants exactly its size.\<close>

definition read_bytes :: "nat \<Rightarrow> bytes \<Rightarrow> bytes \<times> bytes" where
  "read_bytes n bs = (take n bs, drop n bs)"

definition unpack :: "nat \<Rightarrow> bytes \<Rightarrow> exn + (int \<times> bytes)" where
  "unpack n bs = (case read_bytes n bs of (got, rest) \<Rightarrow>
     if length got = n then Inr (le_value got, rest)
     else Inl (Exn ''struct.error'' (''unpack requires a buffer of '' @ nat_digits n @ '' bytes'')))"

text \<open>A count of 2 to the 63 or more does not fit the argument of \<open>read\<close>.\<close>

definition read_string :: "(bytes \<Rightarrow> string) \<Rightarrow> bytes \<Rightarrow> exn + (string \<times> bytes)" where
  "read_string decode bs = bindE (unpack 8 bs) (\<lambda>(n, rest).
     if n \<ge> 2 ^ 63 then Inl (Exn ''OverflowError'' ''cannot fit 'int' into an index-sized integer'')
     else case read_bytes (nat n) rest of (got, rest') \<Rightarrow> Inr (decode got, rest'))"

definition out_of_fuel :: exn where
  "out_of_fuel = Exn ''Fuel'' []"

definition read_scalar :: "(bytes \<Rightarrow> string) \<Rightarrow> int \<Rightarrow> bytes \<Rightarrow> exn + (gvalue \<times> bytes)" where
  "read_scalar decode t bs =
     (let number = (\<lambda>n f. map_sum id (apfst f) (unpack n bs)) in
      if t = 0 then number 1 GInt
      else if t = 1 then number 1 (\<lambda>n. GInt (signed 8 n))
      else if t = 2 then number 2 GInt
      else if t = 3 then number 2 (\<lambda>n. GInt (signed 16 n))
      else if t = 4 then number 4 GInt
      else if t = 5 then number 4 (\<lambda>n. GInt (signed 32 n))
      else if t = 6 then number 4 (\<lambda>n. GFloat (float_value 23 8 n))
      else if t = 7 then number 1 (\<lambda>n. GBool (n \<noteq> 0))
      else if t = 8 then map_sum id (apfst GText) (read_string decode bs)
      else if t = 10 then number 8 GInt
      else if t = 11 then number 8 (\<lambda>n. GInt (signed 64 n))
      else if t = 12 then number 8 (\<lambda>n. GFloat (float_value 52 11 n))
      else Inl (Exn ''ValueError'' (''Unknown GGUF value type: '' @ str_int t)))"

fun read_value :: "nat \<Rightarrow> (bytes \<Rightarrow> string) \<Rightarrow> int \<Rightarrow> bytes \<Rightarrow> exn + (gvalue \<times> bytes)"
  and read_values :: "nat \<Rightarrow> (bytes \<Rightarrow> string) \<Rightarrow> int \<Rightarrow> int \<Rightarrow> bytes \<Rightarrow> exn + (gvalue list \<times> bytes)" where
  "read_value fuel decode t bs =
     (if t \<noteq> 9 then read_scalar decode t bs
      else case fuel of
        0 \<Rightarrow> Inl out_of_fuel
      | Suc f \<Rightarrow> bindE (unpack 4 bs) (\<lambda>(elem, bs1). bindE (unpack 8 bs1) (\<lambda>(n, bs2).
          map_sum id (apfst GList) (read_values f decode elem n bs2))))"
| "read_values fuel decode t n bs =
     (if n \<le> 0 then Inr ([], bs)
      else case fuel of
        0 \<Rightarrow> Inl out_of_fuel
      | Suc f \<Rightarrow> bindE (read_value f decode t bs) (\<lambda>(v, bs1).
          bindE (read_values f decode t (n - 1) bs1) (\<lambda>(vs, bs2). Inr (v # vs, bs2))))"

text \<open>The loop over the pairs; with \<open>keys\<close> it stops when all of them were seen.\<close>

fun read_pairs ::
  "nat \<Rightarrow> (bytes \<Rightarrow> string) \<Rightarrow> string list option \<Rightarrow> int \<Rightarrow> bytes \<Rightarrow> (string \<times> gvalue) list
     \<Rightarrow> exn + (string \<times> gvalue) list" where
  "read_pairs fuel decode keys n bs result =
     (if n \<le> 0 then Inr result
      else case fuel of
        0 \<Rightarrow> Inl out_of_fuel
      | Suc f \<Rightarrow> bindE (read_string decode bs) (\<lambda>(key, bs1).
          bindE (unpack 4 bs1) (\<lambda>(t, bs2).
          bindE (read_value f decode t bs2) (\<lambda>(v, bs3).
            case keys of
              None \<Rightarrow> read_pairs f decode keys (n - 1) bs3 (AList.update key v result)
            | Some ks \<Rightarrow>
                if key \<in> set ks
                then (let result' = AList.update key v result
                      in if length result' = length ks then Inr result'
                         else read_pairs f decode keys (n - 1) bs3 result')
                else read_pairs f decode keys (n - 1) bs3 result))))"

definition magic :: bytes where
  "magic = [71, 71, 85, 70]"

definition read_gguf_metadata ::
  "(bytes \<Rightarrow> string) \<Rightarrow> string \<Rightarrow> string list option \<Rightarrow> bytes \<Rightarrow> exn + (string \<times> gvalue) list" where
  "read_gguf_metadata decode path keys bs =
     (case read_bytes 4 bs of (got, bs1) \<Rightarrow>
        if got \<noteq> magic then Inl (Exn ''ValueError'' (''Not a GGUF file: '' @ path))
        else bindE (unpack 4 bs1) (\<lambda>(version, bs2).
             bindE (unpack 8 bs2) (\<lambda>(tensor_count, bs3).
             bindE (unpack 8 bs3) (\<lambda>(n_kv, bs4).
             read_pairs (Suc (length bs4)) decode keys n_kv bs4 []))))"

section \<open>The length of the context\<close>

definition context_key_priority :: "string list" where
  "context_key_priority =
     [''tokenizer.ggml.context_length'', ''general.context_length'', ''llama.context_length'',
      ''mistral.context_length'', ''qwen2.context_length'', ''qwen3.context_length'', ''phi2.context_length'',
      ''phi3.context_length'', ''gemma.context_length'', ''gptneox.context_length'', ''mpt.context_length'',
      ''falcon.context_length'', ''stablelm.context_length'', ''starcoder.context_length'',
      ''rwkv.context_length'', ''context_length'']"

definition gvalue_int :: "gvalue \<Rightarrow> exn + int" where
  "gvalue_int v = (case v of
       GInt n \<Rightarrow> Inr n
     | GBool b \<Rightarrow> Inr (if b then 1 else 0)
     | GFloat (Finite r) \<Rightarrow> Inr (if r < 0 then \<lceil>r\<rceil> else \<lfloor>r\<rfloor>)
     | GFloat (Infinite neg) \<Rightarrow> Inl (Exn ''OverflowError'' ''cannot convert float infinity to integer'')
     | GFloat NotANumber \<Rightarrow> Inl (Exn ''ValueError'' ''cannot convert float NaN to integer'')
     | GText s \<Rightarrow> int_of_text s
     | GList vs \<Rightarrow> Inl (Exn ''TypeError'' ''int() argument must be a string, a bytes-like object or a real number''))"

text \<open>The first value that is a number; other exceptions than the two that are caught get out.\<close>

fun first_int :: "gvalue list \<Rightarrow> exn + int option" where
  "first_int [] = Inr None"
| "first_int (v # vs) = (case gvalue_int v of
       Inr n \<Rightarrow> Inr (Some n)
     | Inl e \<Rightarrow> if exn_type e \<in> {''TypeError'', ''ValueError''} then first_int vs else Inl e)"

text \<open>\<open>file\<close> is what opening and reading the file gives.\<close>

definition read_gguf_context_length ::
  "(bytes \<Rightarrow> string) \<Rightarrow> string \<Rightarrow> exn + bytes \<Rightarrow> exn + int option" where
  "read_gguf_context_length decode path file =
     (case bindE file (read_gguf_metadata decode path (Some context_key_priority)) of
        Inl e \<Rightarrow> Inr None
      | Inr known \<Rightarrow>
          bindE (first_int (List.map_filter (map_of known) context_key_priority)) (\<lambda>r.
          case r of
            Some n \<Rightarrow> Inr (Some n)
          | None \<Rightarrow>
              (case bindE file (read_gguf_metadata decode path None) of
                 Inl e \<Rightarrow> Inr None
               | Inr all_pairs \<Rightarrow>
                   first_int (map snd (filter (\<lambda>(k, v). ends_with ''.context_length'' k) all_pairs)))))"

end
