(* ===== verification/Gguf_Safety.thy ===== *)
theory Gguf_Safety
  imports Gguf_Reader
begin

text \<open>
  What the reader of model files guarantees: it returns for every file whatever counts the file
  names, and it gives back what a file of the format holds. The writer below is the specification
  of the format; the program has none.
\<close>

section \<open>Every read takes bytes\<close>

lemma unpack_Inr:
  "unpack n bs = Inr (v, rest) \<longleftrightarrow> n \<le> length bs \<and> v = le_value (take n bs) \<and> rest = drop n bs"
  by (auto simp: unpack_def read_bytes_def min_def)

lemma unpack_Inl: "unpack n bs = Inl e \<Longrightarrow> e \<noteq> out_of_fuel"
  by (auto simp: unpack_def read_bytes_def out_of_fuel_def split: if_splits)

lemma read_string_shorter: "read_string decode bs = Inr (s, rest) \<Longrightarrow> length rest < length bs"
  by (auto simp: read_string_def bindE_Inr unpack_Inr read_bytes_def split: if_splits)

lemma read_string_Inl: "read_string decode bs = Inl e \<Longrightarrow> e \<noteq> out_of_fuel"
  by (auto simp: read_string_def bindE_Inl read_bytes_def out_of_fuel_def split: if_splits
      dest!: unpack_Inl)

lemma map_sum_Inr: "map_sum id f x = Inr y \<longleftrightarrow> (\<exists>z. x = Inr z \<and> y = f z)"
  by (cases x) auto

lemma map_sum_Inl: "map_sum id f x = Inl e \<longleftrightarrow> x = Inl e"
  by (cases x) auto

lemma read_scalar_shorter: "read_scalar decode t bs = Inr (v, rest) \<Longrightarrow> length rest < length bs"
  by (auto simp: read_scalar_def Let_def map_sum_Inr unpack_Inr dest: read_string_shorter split: if_splits)

lemma read_scalar_Inl: "read_scalar decode t bs \<noteq> Inl out_of_fuel"
  by (auto simp: read_scalar_def Let_def map_sum_Inl dest: unpack_Inl read_string_Inl)
     (simp add: out_of_fuel_def)

declare read_value.simps [simp del] read_values.simps [simp del] read_pairs.simps [simp del]

lemma read_value_scalar: "t \<noteq> 9 \<Longrightarrow> read_value fuel decode t bs = read_scalar decode t bs"
  by (simp add: read_value.simps)

lemma read_values_none: "n \<le> 0 \<Longrightarrow> read_values fuel decode t n bs = Inr ([], bs)"
  by (simp add: read_values.simps)

lemma read_shorter:
  "(\<forall>t bs v rest. read_value fuel decode t bs = Inr (v, rest) \<longrightarrow> length rest < length bs)
   \<and> (\<forall>t n bs vs rest. read_values fuel decode t n bs = Inr (vs, rest) \<longrightarrow> length rest \<le> length bs)"
proof (induction fuel)
  case 0
  show ?case
    by (auto simp: read_value.simps [of 0] read_values.simps [of 0] dest: read_scalar_shorter split: if_splits)
next
  case (Suc f)
  then show ?case
    by (auto simp: read_value.simps [of "Suc f"] read_values.simps [of "Suc f"] bindE_Inr map_sum_Inr unpack_Inr
        dest: read_scalar_shorter split: if_splits) (fastforce dest: order.strict_implies_order)+
qed

lemma read_value_shorter: "read_value fuel decode t bs = Inr (v, rest) \<Longrightarrow> length rest < length bs"
  using read_shorter by blast

text \<open>Enough fuel is never used up: arrays take twelve bytes and every element one.\<close>

lemma read_fuel:
  "(\<forall>t bs. length bs < fuel \<longrightarrow> read_value fuel decode t bs \<noteq> Inl out_of_fuel)
   \<and> (\<forall>t n bs. Suc (length bs) < fuel \<longrightarrow> read_values fuel decode t n bs \<noteq> Inl out_of_fuel)"
proof (induction fuel)
  case (Suc f)
  have one: "read_value (Suc f) decode t bs \<noteq> Inl out_of_fuel" if "length bs < Suc f" for t bs
    using that Suc
    by (auto simp: read_value.simps [of "Suc f"] read_scalar_Inl bindE_Inl map_sum_Inl unpack_Inr dest: unpack_Inl)
  have "read_values (Suc f) decode t n bs \<noteq> Inl out_of_fuel" if "Suc (length bs) < Suc f" for t n bs
    using that Suc read_value_shorter [of f decode t bs]
    by (auto simp: read_values.simps [of "Suc f"] bindE_Inl)
  with one show ?case by blast
qed simp

lemma pairs_fuel: "length bs < fuel \<Longrightarrow> read_pairs fuel decode keys n bs result \<noteq> Inl out_of_fuel"
proof (induction fuel arbitrary: n bs result)
  case (Suc f)
  have step: "read_pairs f decode keys k bs3 r \<noteq> Inl out_of_fuel"
    if "read_string decode bs = Inr (key, bs1)" "unpack 4 bs1 = Inr (t, bs2)" "read_value f decode t bs2 = Inr (v, bs3)"
    for key bs1 t bs2 v bs3 k r
    using that Suc read_string_shorter [OF that(1)] read_value_shorter [OF that(3)] by (simp add: unpack_Inr)
  have "read_value f decode t bs2 \<noteq> Inl out_of_fuel"
    if "read_string decode bs = Inr (key, bs1)" "unpack 4 bs1 = Inr (t, bs2)" for key bs1 t bs2
    using that Suc.prems read_string_shorter [OF that(1)] read_fuel [of f] by (simp add: unpack_Inr)
  with step show ?case
    by (auto simp: read_pairs.simps [of "Suc f"] bindE_Inl Let_def split: option.splits if_splits
        dest: unpack_Inl read_string_Inl)
qed simp


text \<open>C32. Reading the header of a model file returns for every content of the file, corrupt counts and
  nested arrays included: the recursion over arrays, the loop over their elements and the loop over
  the pairs end, since each step takes a byte of the file or raises.\<close>

theorem reading_returns: "read_gguf_metadata decode path keys bs \<noteq> Inl out_of_fuel"
  by (auto simp: read_gguf_metadata_def read_bytes_def bindE_Inl pairs_fuel dest: unpack_Inl)
     (simp add: out_of_fuel_def)

section \<open>A writer of the format\<close>

datatype stored =
    U8 "8 word" | I8 "8 word" | U16 "16 word" | I16 "16 word" | U32 "32 word" | I32 "32 word"
  | F32 "32 word" | Flag bool | Str bytes | Arr nat "stored list"
  | U64 "64 word" | I64 "64 word" | F64 "64 word"

fun le_bytes :: "nat \<Rightarrow> int \<Rightarrow> bytes" where
  "le_bytes 0 n = []"
| "le_bytes (Suc k) n = word_of_int n # le_bytes k (n div 256)"

fun tag :: "stored \<Rightarrow> nat" where
  "tag (U8 _) = 0" | "tag (I8 _) = 1" | "tag (U16 _) = 2" | "tag (I16 _) = 3" | "tag (U32 _) = 4"
| "tag (I32 _) = 5" | "tag (F32 _) = 6" | "tag (Flag _) = 7" | "tag (Str _) = 8" | "tag (Arr _ _) = 9"
| "tag (U64 _) = 10" | "tag (I64 _) = 11" | "tag (F64 _) = 12"

definition write_string :: "bytes \<Rightarrow> bytes" where
  "write_string s = le_bytes 8 (int (length s)) @ s"

fun write_value :: "stored \<Rightarrow> bytes" where
  "write_value (U8 w) = le_bytes 1 (uint w)"
| "write_value (I8 w) = le_bytes 1 (uint w)"
| "write_value (U16 w) = le_bytes 2 (uint w)"
| "write_value (I16 w) = le_bytes 2 (uint w)"
| "write_value (U32 w) = le_bytes 4 (uint w)"
| "write_value (I32 w) = le_bytes 4 (uint w)"
| "write_value (F32 w) = le_bytes 4 (uint w)"
| "write_value (Flag b) = le_bytes 1 (if b then 1 else 0)"
| "write_value (Str s) = write_string s"
| "write_value (Arr t vs) = le_bytes 4 (int t) @ le_bytes 8 (int (length vs)) @ concat (map write_value vs)"
| "write_value (U64 w) = le_bytes 8 (uint w)"
| "write_value (I64 w) = le_bytes 8 (uint w)"
| "write_value (F64 w) = le_bytes 8 (uint w)"

text \<open>The Python value a stored one stands for.\<close>

fun meaning :: "(bytes \<Rightarrow> string) \<Rightarrow> stored \<Rightarrow> gvalue" where
  "meaning decode (U8 w) = GInt (uint w)"
| "meaning decode (I8 w) = GInt (sint w)"
| "meaning decode (U16 w) = GInt (uint w)"
| "meaning decode (I16 w) = GInt (sint w)"
| "meaning decode (U32 w) = GInt (uint w)"
| "meaning decode (I32 w) = GInt (sint w)"
| "meaning decode (F32 w) = GFloat (float_value 23 8 (uint w))"
| "meaning decode (Flag b) = GBool b"
| "meaning decode (Str s) = GText (decode s)"
| "meaning decode (Arr t vs) = GList (map (meaning decode) vs)"
| "meaning decode (U64 w) = GInt (uint w)"
| "meaning decode (I64 w) = GInt (sint w)"
| "meaning decode (F64 w) = GFloat (float_value 52 11 (uint w))"

text \<open>An array names the type of its elements, the one of all of them.\<close>

fun storable :: "stored \<Rightarrow> bool" where
  "storable (Str s) = (int (length s) < 2 ^ 63)"
| "storable (Arr t vs) =
     (int t < 2 ^ 32 \<and> int (length vs) < 2 ^ 64 \<and> (\<forall>v\<in>set vs. tag v = t \<and> storable v))"
| "storable v = True"

section \<open>Reading what was written\<close>

lemma length_le_bytes [simp]: "length (le_bytes k n) = k"
  by (induction k arbitrary: n) auto

lemma le_value_bytes: "le_value (le_bytes k n) = n mod 256 ^ k"
proof (induction k arbitrary: n)
  case (Suc k)
  have "n mod 256 ^ Suc k = n mod 256 + 256 * (n div 256 mod 256 ^ k)"
    by (simp add: zmod_zmult2_eq)
  with Suc show ?case by (simp add: le_value_def uint_word_of_int)
qed (simp add: le_value_def)

lemma unpack_le: "0 \<le> n \<Longrightarrow> n < 256 ^ k \<Longrightarrow> unpack k (le_bytes k n @ rest) = Inr (n, rest)"
  by (simp add: unpack_def read_bytes_def le_value_bytes)

lemma signed_sint: "signed LENGTH('a) (uint w) = sint (w :: 'a::len word)"
proof -
  obtain n where n: "LENGTH('a) = Suc n" by (cases "LENGTH('a)") auto
  have "uint w < 2 ^ Suc n" using uint_lt2p [of w] n by simp
  then have "(uint w + 2 ^ n) mod (2 * 2 ^ n) = (if uint w < 2 ^ n then uint w + 2 ^ n else uint w - 2 ^ n)"
    using mod_pos_pos_trivial [of "uint w + 2 ^ n" "2 * 2 ^ n"]
      mod_pos_pos_trivial [of "uint w - 2 ^ n" "2 * 2 ^ n"] mod_add_self2 [of "uint w - 2 ^ n" "2 * 2 ^ n"]
    by (auto simp: add.commute)
  then show ?thesis
    by (simp add: signed_def n sint_uint signed_take_bit_eq_take_bit_shift take_bit_eq_mod)
qed

lemma signed_sints:
  "signed 8 (uint (w :: 8 word)) = sint w"
  "signed 16 (uint (x :: 16 word)) = sint x"
  "signed 32 (uint (y :: 32 word)) = sint y"
  "signed 64 (uint (z :: 64 word)) = sint z"
  using signed_sint [of w] signed_sint [of x] signed_sint [of y] signed_sint [of z] by simp_all

lemma unpack_uint:
  "unpack 1 (le_bytes 1 (uint (w :: 8 word)) @ rest) = Inr (uint w, rest)"
  "unpack 2 (le_bytes 2 (uint (x :: 16 word)) @ rest) = Inr (uint x, rest)"
  "unpack 4 (le_bytes 4 (uint (y :: 32 word)) @ rest) = Inr (uint y, rest)"
  "unpack 8 (le_bytes 8 (uint (z :: 64 word)) @ rest) = Inr (uint z, rest)"
  using uint_lt2p [of w] uint_lt2p [of x] uint_lt2p [of y] uint_lt2p [of z] by (auto intro!: unpack_le simp del: le_bytes.simps One_nat_def)

lemma read_written_string:
  "int (length s) < 2 ^ 63 \<Longrightarrow> read_string decode (write_string s @ rest) = Inr (decode s, rest)"
  by (simp add: read_string_def write_string_def unpack_le read_bytes_def)

lemma read_written_scalar:
  assumes "storable v" "tag v \<noteq> 9"
  shows "read_scalar decode (int (tag v)) (write_value v @ rest) = Inr (meaning decode v, rest)"
  using assms
  by (cases v) (simp_all add: read_scalar_def unpack_uint signed_sints read_written_string unpack_le del: le_bytes.simps One_nat_def)

lemma read_written_plain:
  "storable v \<Longrightarrow> tag v \<noteq> 9 \<Longrightarrow>
     read_value fuel decode (int (tag v)) (write_value v @ rest) = Inr (meaning decode v, rest)"
  using read_written_scalar [of v decode rest] read_value_scalar [of "int (tag v)"] by simp

lemma write_value_some: "write_value v \<noteq> []"
  by (cases v) (auto simp: write_string_def dest: arg_cong [of _ _ length])

lemma read_written:
  "\<lbrakk>storable v; length (write_value v @ rest) < fuel\<rbrakk>
     \<Longrightarrow> read_value fuel decode (int (tag v)) (write_value v @ rest) = Inr (meaning decode v, rest)"
proof (induction v arbitrary: fuel rest)
  case (Arr t vs)
  have elements: "read_values f decode (int t) (int (length us)) (concat (map write_value us) @ rest)
      = Inr (map (meaning decode) us, rest)"
    if "set us \<subseteq> set vs" "Suc (length (concat (map write_value us) @ rest)) < f" for us f
    using that
  proof (induction us arbitrary: f)
    case Nil
    then show ?case by (simp add: read_values_none)
  next
    case (Cons u us)
    then obtain g where f: "f = Suc g" by (cases f) auto
    have u: "storable u" "tag u = t" using Cons.prems(1) Arr.prems(1) by auto
    have "length (write_value u) > 0" using write_value_some [of u] by simp
    then have "Suc (length (concat (map write_value us) @ rest)) < g"
      using Cons.prems(2) f by (simp del: length_greater_0_conv)
    then have rec: "read_values g decode (int t) (int (length us)) (concat (map write_value us) @ rest)
        = Inr (map (meaning decode) us, rest)"
      using Cons.IH Cons.prems(1) by simp
    have "read_value g decode (int t) (write_value u @ concat (map write_value us) @ rest)
        = Inr (meaning decode u, concat (map write_value us) @ rest)"
      using Arr.IH [of u "concat (map write_value us) @ rest" g] Cons.prems u f by simp
    with rec show ?case by (simp add: f read_values.simps [of "Suc g"])
  qed
  from Arr.prems(2) obtain g where "fuel = Suc g" by (cases fuel) auto
  with Arr.prems elements [where us = vs and f = g] show ?case
    by (simp add: read_value.simps [of "Suc g"] unpack_le)
qed (rule read_written_plain; simp)+

text \<open>The pairs of a file, and the part of them a caller asked for.\<close>

definition write_pair :: "bytes \<times> stored \<Rightarrow> bytes" where
  "write_pair p = write_string (fst p) @ le_bytes 4 (int (tag (snd p))) @ write_value (snd p)"

definition write_gguf :: "int \<Rightarrow> int \<Rightarrow> (bytes \<times> stored) list \<Rightarrow> bytes" where
  "write_gguf version tensors ps =
     magic @ le_bytes 4 version @ le_bytes 8 tensors @ le_bytes 8 (int (length ps)) @ concat (map write_pair ps)"

definition pair_meaning :: "(bytes \<Rightarrow> string) \<Rightarrow> bytes \<times> stored \<Rightarrow> string \<times> gvalue" where
  "pair_meaning decode p = (decode (fst p), meaning decode (snd p))"

definition asked :: "string list option \<Rightarrow> string \<Rightarrow> bool" where
  "asked keys k = (case keys of None \<Rightarrow> True | Some ks \<Rightarrow> k \<in> set ks)"

definition file_ok :: "(bytes \<Rightarrow> string) \<Rightarrow> (bytes \<times> stored) list \<Rightarrow> bool" where
  "file_ok decode ps =
     (int (length ps) < 2 ^ 64 \<and> distinct (map (decode \<circ> fst) ps) \<and>
      (\<forall>p\<in>set ps. int (length (fst p)) < 2 ^ 63 \<and> storable (snd p)))"

lemma tag_small: "int (tag v) < 2 ^ 32"
  by (cases v) auto

lemma read_pair_step:
  assumes "int (length (fst p)) < 2 ^ 63" "storable (snd p)" "length (write_pair p @ rest) < Suc f"
  shows "read_string decode (write_pair p @ rest)
           = Inr (decode (fst p), le_bytes 4 (int (tag (snd p))) @ write_value (snd p) @ rest)"
    and "unpack 4 (le_bytes 4 (int (tag (snd p))) @ write_value (snd p) @ rest)
           = Inr (int (tag (snd p)), write_value (snd p) @ rest)"
    and "read_value f decode (int (tag (snd p))) (write_value (snd p) @ rest) = Inr (meaning decode (snd p), rest)"
proof -
  show "unpack 4 (le_bytes 4 (int (tag (snd p))) @ write_value (snd p) @ rest)
           = Inr (int (tag (snd p)), write_value (snd p) @ rest)"
    using tag_small [of "snd p"] by (intro unpack_le) auto
  have "length (write_value (snd p) @ rest) < f"
    using assms(3) by (simp add: write_pair_def write_string_def)
  then show "read_value f decode (int (tag (snd p))) (write_value (snd p) @ rest) = Inr (meaning decode (snd p), rest)"
    using assms(2) by (rule read_written [rotated])
qed (use assms(1) in \<open>simp add: write_pair_def read_written_string\<close>)

lemma update_fresh: "k \<notin> fst ` set xs \<Longrightarrow> AList.update k v xs = xs @ [(k, v)]"
  by (induction xs) auto

text \<open>With the keys all seen, the pairs that are left hold none of them.\<close>

lemma rest_not_asked:
  assumes "distinct (map fst (xs @ ys))" "fst ` set xs \<subseteq> set ks" "length xs = length ks"
  shows "filter (\<lambda>(k, v). k \<in> set ks) ys = []"
proof -
  have "card (fst ` set xs) = length ks"
    using assms(1,3) by (metis distinct_append distinct_card length_map list.set_map map_append)
  then have "fst ` set xs = set ks"
    using assms(2) by (metis List.finite_set card_length card_seteq)
  then show ?thesis
    using assms(1) by (force simp: filter_empty_conv disjoint_iff)
qed

lemma read_written_pairs:
  assumes "\<forall>p\<in>set ps. int (length (fst p)) < 2 ^ 63 \<and> storable (snd p)"
    and "distinct (map fst (result @ map (pair_meaning decode) ps))"
    and "\<forall>ks. keys = Some ks \<longrightarrow> fst ` set result \<subseteq> set ks"
    and "length (concat (map write_pair ps) @ tail) < fuel"
  shows "read_pairs fuel decode keys (int (length ps)) (concat (map write_pair ps) @ tail) result
    = Inr (result @ filter (\<lambda>(k, v). asked keys k) (map (pair_meaning decode) ps))"
  using assms
proof (induction ps arbitrary: result fuel)
  case Nil
  then show ?case by (simp add: read_pairs.simps)
next
  case (Cons p ps)
  obtain f where f: "fuel = Suc f" using Cons.prems(4) by (cases fuel) auto
  let ?rest = "concat (map write_pair ps) @ tail"
  have small: "length (write_pair p @ ?rest) < Suc f" using Cons.prems(4) f by simp
  have ok: "int (length (fst p)) < 2 ^ 63" "storable (snd p)" using Cons.prems(1) by auto
  note step = read_pair_step [OF ok small]
  have left: "length ?rest < f" using small by (simp add: write_pair_def write_string_def)
  have fresh: "AList.update (decode (fst p)) (meaning decode (snd p)) result = result @ [pair_meaning decode p]"
    using Cons.prems(2) by (subst update_fresh) (auto simp: pair_meaning_def image_iff)
  have rec: "read_pairs f decode keys (int (length ps)) ?rest r
      = Inr (r @ filter (\<lambda>(k, v). asked keys k) (map (pair_meaning decode) ps))"
    if "r = result \<or> (r = result @ [pair_meaning decode p] \<and> asked keys (decode (fst p)))" for r
  proof (rule Cons.IH)
    show "distinct (map fst (r @ map (pair_meaning decode) ps))"
      using that Cons.prems(2) by (elim disjE conjE) auto
    show "\<forall>ks. keys = Some ks \<longrightarrow> fst ` set r \<subseteq> set ks"
      using that Cons.prems(3) by (elim disjE conjE) (auto simp: pair_meaning_def asked_def)
  qed (use Cons.prems(1) left in auto)
  have p: "pair_meaning decode p = (decode (fst p), meaning decode (snd p))" by (rule pair_meaning_def)
  show ?case
  proof (cases keys)
    case None
    then show ?thesis
      using rec [of "result @ [pair_meaning decode p]"]
      by (simp add: f read_pairs.simps [of "Suc f"] step fresh asked_def p)
  next
    case (Some ks)
    have stop: "filter (\<lambda>(k, v). k \<in> set ks) (map (pair_meaning decode) ps) = []"
      if "decode (fst p) \<in> set ks" "length (result @ [pair_meaning decode p]) = length ks"
    proof (rule rest_not_asked [of "result @ [pair_meaning decode p]"])
      show "fst ` set (result @ [pair_meaning decode p]) \<subseteq> set ks"
        using Cons.prems(3) Some that(1) by (auto simp: pair_meaning_def)
    qed (use Cons.prems(2) that(2) in auto)
    show ?thesis
      using Some rec [of result] rec [of "result @ [pair_meaning decode p]"] stop
      by (auto simp: f read_pairs.simps [of "Suc f"] step fresh asked_def p Let_def)
  qed
qed


text \<open>A model of the qwen2 architecture, with a nested array before the key.\<close>

definition sample_pairs :: "(bytes \<times> stored) list" where
  "sample_pairs =
     [([97], Arr 9 [Arr 1 [I8 255, I8 1], Arr 8 [Str [98, 99]]]),
      ([99, 116, 120], U32 32768), ([122], Flag True)]"

definition ascii :: "bytes \<Rightarrow> string" where
  "ascii = map (\<lambda>b. char_of (uint b))"


section \<open>Edges\<close>

text \<open>A string cut off by the end of the file is taken as it is, without an error.\<close>

lemma short_string_accepted:
  "read_string ascii (le_bytes 8 100 @ [97, 98]) = Inr (''ab'', [])"
  by code_simp

text \<open>An infinite number under a key of the context is an error of \<open>int\<close> that is not caught, so the
  reader of the length raises for a file that is well-formed.\<close>

lemma infinite_length_raises:
  "read_gguf_context_length ascii ''m.gguf''
     (Inr (write_gguf 3 0 [(map word_of_nat (map of_char ''llama.context_length''), F32 0x7F800000)]))
   = Inl (Exn ''OverflowError'' ''cannot convert float infinity to integer'')"
  by code_simp

end
