(* ===== verification/Asset_Store.thy ===== *)
theory Asset_Store
  imports Py_Text "HOL-Library.Product_Lexorder"
begin

text \<open>
  The store of model files (assets), models, their profiles and deployments, and the provenance of
  files (\<open>core/persistence/model_asset_store_orm.py\<close>, \<open>core/persistence/models/model_asset.py\<close>).

  A table is the list of its rows in insertion order. Ids are texts drawn from a counter instead
  of \<open>uuid4\<close> texts, instants are microseconds; columns of 0 and 1 are truth values, and columns of
  JSON keep the value they encode. An absent list in a call is the empty list, as \<open>_json_list\<close> has
  it. The keyword arguments of an upsert are a record of their own, which the row extends.
\<close>

section \<open>Rows\<close>

record asset_fields =
  as_path :: string
  as_filename :: string
  as_display :: string
  as_size :: int
  as_kind :: string
  as_source_type :: string
  as_sha :: "string option"
  as_repo :: "string option"
  as_revision :: "string option"
  as_source_file :: "string option"
  as_download :: "string option"
  as_line :: "string option"

record asset = asset_fields +
  as_id :: string
  as_first :: int
  as_seen :: int
  as_scanned :: int
  as_missing :: bool

record model_fields =
  mo_name :: string
  mo_asset :: "string option"
  mo_config_source :: string
  mo_line :: "string option"
  mo_ctx :: "int option"
  mo_capacity_ctx :: "int option"
  mo_gpu_layers :: "int option"
  mo_vision :: bool
  mo_mmproj :: "string option"
  mo_mmproj_asset :: "string option"
  mo_draft_asset :: "string option"
  mo_draft_model :: "string option"
  mo_json_schema :: "bool option"
  mo_grammar :: "bool option"
  mo_mtp :: "bool option"
  mo_reasoning :: "string option"
  mo_budget :: "int option"
  mo_template :: "string option"
  mo_favorite :: bool
  mo_strengths :: "string list"
  mo_cost_tier :: "string option"
  mo_extra_args :: "string list"

record model = model_fields +
  mo_id :: string
  mo_created :: int
  mo_updated :: int

record profile_fields =
  pr_model :: string
  pr_key :: string
  pr_label :: "string option"
  pr_order :: int
  pr_kind :: "string option"
  pr_ctx :: "int option"
  pr_gpu_layers :: "int option"
  pr_host :: "string option"
  pr_extra_args :: "string list"
  pr_intended_ctx :: "int option"
  pr_kv_policy :: "string option"
  pr_tier :: "string option"
  pr_strengths :: "string list"
  pr_cost_tier :: "string option"

record profile = profile_fields +
  pr_id :: string
  pr_created :: int
  pr_updated :: int

record deployment_fields =
  de_model :: string
  de_name :: string
  de_node :: "string option"
  de_host :: string
  de_port :: int
  de_ctx :: "int option"
  de_gpu_layers :: "int option"
  de_mmproj :: "string option"
  de_extra_args :: "string list"
  de_profile :: "string option"
  de_enabled :: bool

record deployment = deployment_fields +
  de_id :: string
  de_created :: int
  de_updated :: int

record provenance =
  pv_id :: string
  pv_output :: string
  pv_source :: "string option"
  pv_model :: "string option"
  pv_job_kind :: string
  pv_job_ref :: string
  pv_detail :: pydict
  pv_created :: int

record asset_db =
  ad_assets :: "asset list"
  ad_models :: "model list"
  ad_profiles :: "profile list"
  ad_deployments :: "deployment list"
  ad_provenance :: "provenance list"
  ad_next :: nat

definition empty_assets :: asset_db where
  "empty_assets = \<lparr>ad_assets = [], ad_models = [], ad_profiles = [], ad_deployments = [],
     ad_provenance = [], ad_next = 0\<rparr>"

definition key_error :: "string \<Rightarrow> string \<Rightarrow> exn" where
  "key_error what i = Exn ''KeyError'' (''Unknown '' @ what @ '': '' @ i)"

definition found :: "exn \<Rightarrow> 'r option \<Rightarrow> exn + 'r" where
  "found e r = (case r of None \<Rightarrow> Inl e | Some x \<Rightarrow> Inr x)"

text \<open>The upserts: the row with the key is written over, or a new row is added.\<close>

definition put_row :: "('r \<Rightarrow> bool) \<Rightarrow> ('r \<Rightarrow> 'r) \<Rightarrow> 'r \<Rightarrow> 'r list \<Rightarrow> 'r list" where
  "put_row same overwrite fresh rows =
     (case List.find same rows of
        None \<Rightarrow> rows @ [fresh]
      | Some _ \<Rightarrow> map_if same overwrite rows)"

section \<open>Assets\<close>

definition get_asset :: "asset_db \<Rightarrow> string \<Rightarrow> exn + asset" where
  "get_asset db i = found (key_error ''asset id'' i) (List.find (\<lambda>a. as_id a = i) (ad_assets db))"

definition get_asset_by_path :: "asset_db \<Rightarrow> string \<Rightarrow> asset option" where
  "get_asset_by_path db p = List.find (\<lambda>a. as_path a = p) (ad_assets db)"

definition list_assets :: "asset_db \<Rightarrow> asset list" where
  "list_assets db = sort_key as_path (ad_assets db)"

definition new_asset :: "asset_fields \<Rightarrow> string \<Rightarrow> int \<Rightarrow> asset" where
  "new_asset x i now = asset_fields.extend x (asset.fields i now now now False)"

definition asset_over :: "asset_fields \<Rightarrow> int \<Rightarrow> asset \<Rightarrow> asset" where
  "asset_over x now a = asset_fields.extend
     (x\<lparr>as_line := if as_line x \<noteq> None then as_line x else as_line a\<rparr>)
     (asset.fields (as_id a) (as_first a) now now False)"

definition upsert_asset :: "int \<Rightarrow> asset_fields \<Rightarrow> (asset_db, asset) eff" where
  "upsert_asset now x db =
     (let new_id = nat_digits (ad_next db);
          db' = db\<lparr>ad_assets := put_row (\<lambda>a. as_path a = as_path x) (asset_over x now) (new_asset x new_id now)
                     (ad_assets db),
                   ad_next := Suc (ad_next db)\<rparr>;
          asset_id = (case get_asset_by_path db (as_path x) of None \<Rightarrow> new_id | Some a \<Rightarrow> as_id a)
      in (get_asset db' asset_id, db'))"

definition update_asset_metadata :: "string \<Rightarrow> string option \<Rightarrow> (asset_db, asset) eff" where
  "update_asset_metadata i line db =
     (case List.find (\<lambda>a. as_id a = i) (ad_assets db) of
        None \<Rightarrow> (Inl (key_error ''asset id'' i), db)
      | Some _ \<Rightarrow>
          (let db' = db\<lparr>ad_assets := map_if (\<lambda>a. as_id a = i) (\<lambda>a. a\<lparr>as_line := line\<rparr>) (ad_assets db)\<rparr>
           in (get_asset db' i, db')))"

definition mark_missing_assets :: "string list \<Rightarrow> asset_db \<Rightarrow> nat \<times> asset_db" where
  "mark_missing_assets ids db =
     (if ids = [] then (0, db)
      else (length (filter (\<lambda>a. as_id a \<in> set ids) (ad_assets db)),
            db\<lparr>ad_assets := map_if (\<lambda>a. as_id a \<in> set ids) (\<lambda>a. a\<lparr>as_missing := True\<rparr>) (ad_assets db)\<rparr>))"

definition refers_to :: "model \<Rightarrow> string \<Rightarrow> bool" where
  "refers_to m i \<longleftrightarrow> mo_asset m = Some i \<or> mo_mmproj_asset m = Some i \<or> mo_draft_asset m = Some i"

text \<open>The loop over the missing rows; \<open>deleted\<close> and \<open>skipped\<close> are what it has gathered. The code
  compares floats of seconds, the model exact instants.\<close>

fun delete_stale_loop ::
  "int \<Rightarrow> asset list \<Rightarrow> string list \<times> string list \<Rightarrow> asset_db \<Rightarrow> (string list \<times> string list) \<times> asset_db" where
  "delete_stale_loop cutoff [] got db = (got, db)"
| "delete_stale_loop cutoff (a # rows) (deleted, skipped) db =
     (if max (as_seen a) (as_scanned a) > cutoff
      then delete_stale_loop cutoff rows (deleted, skipped) db
      else if \<exists>m \<in> set (ad_models db). refers_to m (as_id a)
      then delete_stale_loop cutoff rows (deleted, skipped @ [as_id a]) db
      else delete_stale_loop cutoff rows (deleted @ [as_id a], skipped)
        (db\<lparr>ad_provenance := filter (\<lambda>v. \<not> (pv_output v = as_id a \<or> pv_source v = Some (as_id a))) (ad_provenance db),
            ad_assets := filter (\<lambda>b. as_id b \<noteq> as_id a) (ad_assets db)\<rparr>))"

definition delete_stale_missing_assets ::
  "int \<Rightarrow> int \<Rightarrow> asset_db \<Rightarrow> (string list \<times> string list) \<times> asset_db" where
  "delete_stale_missing_assets now older_than_seconds db =
     (case delete_stale_loop (now - older_than_seconds * 1000000) (filter as_missing (ad_assets db)) ([], []) db of
        ((deleted, skipped), db') \<Rightarrow> ((sort deleted, sort skipped), db'))"

section \<open>Models\<close>

definition get_model :: "asset_db \<Rightarrow> string \<Rightarrow> exn + model" where
  "get_model db i = found (key_error ''model id'' i) (List.find (\<lambda>m. mo_id m = i) (ad_models db))"

definition get_model_by_name :: "asset_db \<Rightarrow> string \<Rightarrow> model option" where
  "get_model_by_name db n = List.find (\<lambda>m. mo_name m = n) (ad_models db)"

definition list_models :: "asset_db \<Rightarrow> model list" where
  "list_models db = sort_key mo_name (ad_models db)"

definition new_model :: "model_fields \<Rightarrow> string \<Rightarrow> int \<Rightarrow> model" where
  "new_model x i now = model_fields.extend x (model.fields i now now)"

definition model_over :: "model_fields \<Rightarrow> int \<Rightarrow> model \<Rightarrow> model" where
  "model_over x now m = model_fields.extend x (model.fields (mo_id m) (mo_created m) now)"

definition upsert_model :: "int \<Rightarrow> model_fields \<Rightarrow> (asset_db, model) eff" where
  "upsert_model now x db =
     (let new_id = nat_digits (ad_next db);
          db' = db\<lparr>ad_models := put_row (\<lambda>m. mo_name m = mo_name x) (model_over x now) (new_model x new_id now)
                     (ad_models db),
                   ad_next := Suc (ad_next db)\<rparr>;
          model_id = (case get_model_by_name db (mo_name x) of None \<Rightarrow> new_id | Some m \<Rightarrow> mo_id m)
      in (get_model db' model_id, db'))"

definition require_asset_id :: "asset_db \<Rightarrow> string \<Rightarrow> string option \<Rightarrow> exn + unit" where
  "require_asset_id db label i =
     (case i of
        None \<Rightarrow> Inr ()
      | Some a \<Rightarrow> if \<exists>r \<in> set (ad_assets db). as_id r = a then Inr ()
                  else Inl (key_error (''asset id for '' @ label) a))"

definition require_model_id :: "asset_db \<Rightarrow> string \<Rightarrow> string option \<Rightarrow> exn + unit" where
  "require_model_id db label i =
     (case i of
        None \<Rightarrow> Inr ()
      | Some m \<Rightarrow> if \<exists>r \<in> set (ad_models db). mo_id r = m then Inr ()
                  else Inl (key_error (''model id for '' @ label) m))"

definition get_model_companion_links ::
  "asset_db \<Rightarrow> string \<Rightarrow> exn + (string \<times> string option \<times> string option \<times> string option)" where
  "get_model_companion_links db i =
     bindE (get_model db i) (\<lambda>m. Inr (mo_id m, mo_mmproj_asset m, mo_draft_asset m, mo_draft_model m))"

definition link_arg :: "'a option \<Rightarrow> bool \<Rightarrow> 'a option \<Rightarrow> 'a option" where
  "link_arg new clear old = (if new \<noteq> None \<or> clear then new else old)"

definition update_model_companion_links ::
  "int \<Rightarrow> string \<Rightarrow> string option \<Rightarrow> string option \<Rightarrow> string option \<Rightarrow> bool \<Rightarrow> bool \<Rightarrow> bool
     \<Rightarrow> (asset_db, model) eff" where
  "update_model_companion_links now i mmproj draft draft_model clear_mmproj clear_draft clear_draft_model db =
     (case bindE (require_asset_id db ''mmproj_asset_id'' mmproj) (\<lambda>_.
           bindE (require_asset_id db ''mtp_draft_asset_id'' draft) (\<lambda>_.
           bindE (require_model_id db ''mtp_draft_model_id'' draft_model) (\<lambda>_. get_model db i))) of
        Inl e \<Rightarrow> (Inl e, db)
      | Inr _ \<Rightarrow>
          (let db' = db\<lparr>ad_models := map_if (\<lambda>m. mo_id m = i) (\<lambda>m. m\<lparr>
                 mo_mmproj_asset := link_arg mmproj clear_mmproj (mo_mmproj_asset m),
                 mo_draft_asset := link_arg draft clear_draft (mo_draft_asset m),
                 mo_draft_model := link_arg draft_model clear_draft_model (mo_draft_model m),
                 mo_updated := now\<rparr>) (ad_models db)\<rparr>
           in (get_model db' i, db')))"

definition delete_model_by_name :: "string \<Rightarrow> (asset_db, unit) eff" where
  "delete_model_by_name n db =
     (case get_model_by_name db n of
        None \<Rightarrow> (Inl (key_error ''model name'' n), db)
      | Some m \<Rightarrow> (Inr (), db\<lparr>ad_models := filter (\<lambda>r. mo_id r \<noteq> mo_id m) (ad_models db)\<rparr>))"

section \<open>Profiles and deployments\<close>

definition get_model_profile :: "asset_db \<Rightarrow> string \<Rightarrow> exn + profile" where
  "get_model_profile db i =
     found (key_error ''model profile id'' i) (List.find (\<lambda>p. pr_id p = i) (ad_profiles db))"

definition list_model_profiles :: "asset_db \<Rightarrow> string \<Rightarrow> profile list" where
  "list_model_profiles db m =
     sort_key (\<lambda>p. (pr_order p, pr_key p)) (filter (\<lambda>p. pr_model p = m) (ad_profiles db))"

definition same_profile :: "profile_fields \<Rightarrow> profile \<Rightarrow> bool" where
  "same_profile x p \<longleftrightarrow> pr_model p = pr_model x \<and> pr_key p = pr_key x"

definition new_profile :: "profile_fields \<Rightarrow> string \<Rightarrow> int \<Rightarrow> profile" where
  "new_profile x i now = profile_fields.extend x (profile.fields i now now)"

definition profile_over :: "profile_fields \<Rightarrow> int \<Rightarrow> profile \<Rightarrow> profile" where
  "profile_over x now p = profile_fields.extend x (profile.fields (pr_id p) (pr_created p) now)"

definition upsert_model_profile :: "int \<Rightarrow> profile_fields \<Rightarrow> (asset_db, profile) eff" where
  "upsert_model_profile now x db =
     (let new_id = nat_digits (ad_next db);
          db' = db\<lparr>ad_profiles := put_row (same_profile x) (profile_over x now) (new_profile x new_id now)
                     (ad_profiles db),
                   ad_next := Suc (ad_next db)\<rparr>;
          profile_id = (case List.find (same_profile x) (ad_profiles db) of None \<Rightarrow> new_id | Some p \<Rightarrow> pr_id p)
      in (get_model_profile db' profile_id, db'))"

definition get_model_deployment :: "asset_db \<Rightarrow> string \<Rightarrow> exn + deployment" where
  "get_model_deployment db i =
     found (key_error ''model deployment id'' i) (List.find (\<lambda>d. de_id d = i) (ad_deployments db))"

definition list_model_deployments :: "asset_db \<Rightarrow> string \<Rightarrow> deployment list" where
  "list_model_deployments db m = sort_key de_name (filter (\<lambda>d. de_model d = m) (ad_deployments db))"

definition same_deployment :: "deployment_fields \<Rightarrow> deployment \<Rightarrow> bool" where
  "same_deployment x d \<longleftrightarrow> de_model d = de_model x \<and> de_name d = de_name x"

definition new_deployment :: "deployment_fields \<Rightarrow> string \<Rightarrow> int \<Rightarrow> deployment" where
  "new_deployment x i now = deployment_fields.extend x (deployment.fields i now now)"

definition deployment_over :: "deployment_fields \<Rightarrow> int \<Rightarrow> deployment \<Rightarrow> deployment" where
  "deployment_over x now d = deployment_fields.extend x (deployment.fields (de_id d) (de_created d) now)"

definition upsert_model_deployment :: "int \<Rightarrow> deployment_fields \<Rightarrow> (asset_db, deployment) eff" where
  "upsert_model_deployment now x db =
     (let new_id = nat_digits (ad_next db);
          db' = db\<lparr>ad_deployments := put_row (same_deployment x) (deployment_over x now) (new_deployment x new_id now)
                     (ad_deployments db),
                   ad_next := Suc (ad_next db)\<rparr>;
          deployment_id = (case List.find (same_deployment x) (ad_deployments db) of
                             None \<Rightarrow> new_id | Some d \<Rightarrow> de_id d)
      in (get_model_deployment db' deployment_id, db'))"

section \<open>Provenance\<close>

definition get_asset_provenance :: "asset_db \<Rightarrow> string \<Rightarrow> exn + provenance" where
  "get_asset_provenance db i =
     found (key_error ''model asset provenance id'' i) (List.find (\<lambda>v. pv_id v = i) (ad_provenance db))"

definition list_asset_provenance :: "asset_db \<Rightarrow> string \<Rightarrow> provenance list" where
  "list_asset_provenance db i =
     sort_key (\<lambda>v. (pv_created v, pv_id v)) (filter (\<lambda>v. pv_output v = i) (ad_provenance db))"

definition record_asset_provenance ::
  "int \<Rightarrow> string \<Rightarrow> string option \<Rightarrow> string option \<Rightarrow> string \<Rightarrow> string \<Rightarrow> pydict \<Rightarrow> (asset_db, provenance) eff" where
  "record_asset_provenance now out src src_model job_kind job_ref detail db =
     (case bindE (require_asset_id db ''output_asset_id'' (Some out)) (\<lambda>_.
           bindE (require_asset_id db ''source_asset_id'' src) (\<lambda>_.
           require_model_id db ''source_model_id'' src_model)) of
        Inl e \<Rightarrow> (Inl e, db)
      | Inr _ \<Rightarrow>
          (let new_id = nat_digits (ad_next db);
               db' = db\<lparr>ad_provenance := ad_provenance db @
                     [\<lparr>pv_id = new_id, pv_output = out, pv_source = src, pv_model = src_model,
                       pv_job_kind = job_kind, pv_job_ref = job_ref, pv_detail = detail, pv_created = now\<rparr>],
                     ad_next := Suc (ad_next db)\<rparr>
           in (get_asset_provenance db' new_id, db')))"

end
