(* ===== verification/Model_Catalog.thy ===== *)
theory Model_Catalog
  imports Asset_Store
begin

text \<open>
  The catalog of models (\<open>core/model_assets/catalog_service.py\<close>) over the store of \<^theory_text>\<open>Asset_Store\<close>, the
  configuration it makes of the rows (\<open>ModelConfig\<close> of \<open>core/config/models.py\<close>), and the command line
  of a model server (\<open>providers/llama_cpp.py\<close>).
\<close>

section \<open>Configurations\<close>

record profile_config =
  pc_ctx :: "int option"
  pc_port :: "int option"
  pc_gpu_layers :: "int option"
  pc_host :: "string option"
  pc_extra_args :: "string list option"
  pc_label :: "string option"
  pc_order :: int
  pc_kind :: "string option"
  pc_intended_ctx :: "int option"
  pc_kv_policy :: "string option"
  pc_tier :: "string option"
  pc_strengths :: "string list"
  pc_cost_tier :: "string option"

record speculative =
  sp_mode :: string
  sp_draft_model :: "string option"
  sp_draft_max :: "int option"
  sp_draft_min :: "int option"

record model_config =
  mc_path :: string
  mc_port :: int
  mc_ctx :: int
  mc_gpu_layers :: int
  mc_host :: string
  mc_reasoning :: "string option"
  mc_budget :: "int option"
  mc_vision :: bool
  mc_mmproj :: "string option"
  mc_extra_args :: "string list"
  mc_json_schema :: "bool option"
  mc_grammar :: "bool option"
  mc_mtp :: "bool option"
  mc_speculative :: "speculative option"
  mc_line :: "string option"
  mc_favorite :: bool
  mc_template :: "string option"
  mc_strengths :: "string list"
  mc_cost_tier :: "string option"
  mc_profiles :: "(string \<times> profile_config) list"

text \<open>What pydantic checks of the fields that are literals, and the validators of the two models.\<close>

definition one_of :: "string list \<Rightarrow> string option \<Rightarrow> bool" where
  "one_of options v = (case v of None \<Rightarrow> True | Some s \<Rightarrow> s \<in> set options)"

definition invalid :: "string \<Rightarrow> exn" where
  "invalid field = Exn ''ValidationError'' field"

definition check_profile :: "profile_config \<Rightarrow> exn + profile_config" where
  "check_profile p =
     (if one_of [''low'', ''medium'', ''high''] (pc_cost_tier p) then Inr p else Inl (invalid ''cost_tier''))"

definition check_config :: "model_config \<Rightarrow> exn + model_config" where
  "check_config c =
     (if \<not> one_of [''on'', ''off'', ''auto''] (mc_reasoning c) then Inl (invalid ''reasoning'')
      else if \<not> one_of [''low'', ''medium'', ''high''] (mc_cost_tier c) then Inl (invalid ''cost_tier'')
      else case mc_speculative c of
        None \<Rightarrow> Inr c
      | Some s \<Rightarrow> if sp_mode s = ''mtp'' \<and> mc_mtp c \<noteq> Some True
                  then Inl (Exn ''ValidationError''
                    ''supports_mtp must be true before speculative.mode 'mtp' can be configured'')
                  else Inr c)"

definition upper_char :: "char \<Rightarrow> char" where
  "upper_char c = (if 97 \<le> char_nat c \<and> char_nat c \<le> 122 then char_of (char_nat c - 32) else c)"

definition label_or_default :: "profile_config \<Rightarrow> string \<Rightarrow> string" where
  "label_or_default p key =
     (case pc_label p of
        Some (c # l) \<Rightarrow> c # l
      | _ \<Rightarrow> map upper_char (take 1 key) @ drop 1 key)"

section \<open>The catalog\<close>

text \<open>\<open>x or default\<close> of a number or a text that may be absent.\<close>

definition or_int :: "int option \<Rightarrow> int \<Rightarrow> int" where
  "or_int x d = (case x of Some n \<Rightarrow> if n = 0 then d else n | None \<Rightarrow> d)"

definition get_catalog_model :: "asset_db \<Rightarrow> string \<Rightarrow> exn + model" where
  "get_catalog_model db name = found (key_error ''model'' name) (get_model_by_name db name)"

definition deployment_port_for_profile :: "deployment list \<Rightarrow> string \<Rightarrow> int option" where
  "deployment_port_for_profile ds key = map_option de_port (List.find (\<lambda>d. de_profile d = Some key) ds)"

definition deployment_for_identity :: "deployment list \<Rightarrow> string \<Rightarrow> deployment option" where
  "deployment_for_identity ds key =
     (case (if key \<noteq> [] then List.find (\<lambda>d. de_profile d = Some key) ds else None) of
        Some d \<Rightarrow> Some d
      | None \<Rightarrow>
          (case List.find (\<lambda>d. de_name d = ''default'') ds of
             Some d \<Rightarrow> Some d
           | None \<Rightarrow> (case ds of [] \<Rightarrow> None | d # _ \<Rightarrow> Some d)))"

definition asset_path_of :: "asset_db \<Rightarrow> string option \<Rightarrow> exn + string option" where
  "asset_path_of db i =
     (case i of
        Some (c # cs) \<Rightarrow> map_sum id (\<lambda>a. Some (as_path a)) (get_asset db (c # cs))
      | _ \<Rightarrow> Inr None)"

definition profile_entry :: "deployment list \<Rightarrow> profile \<Rightarrow> exn + (string \<times> profile_config)" where
  "profile_entry ds p = map_sum id (Pair (pr_key p)) (check_profile
     \<lparr>pc_ctx = pr_ctx p, pc_port = deployment_port_for_profile ds (pr_key p), pc_gpu_layers = pr_gpu_layers p,
      pc_host = pr_host p, pc_extra_args = Some (pr_extra_args p), pc_label = pr_label p,
      pc_order = pr_order p, pc_kind = pr_kind p, pc_intended_ctx = pr_intended_ctx p,
      pc_kv_policy = pr_kv_policy p, pc_tier = pr_tier p, pc_strengths = pr_strengths p,
      pc_cost_tier = pr_cost_tier p\<rparr>)"

fun profile_map :: "deployment list \<Rightarrow> profile list \<Rightarrow> (string \<times> profile_config) list
    \<Rightarrow> exn + (string \<times> profile_config) list" where
  "profile_map ds [] done = Inr done"
| "profile_map ds (p # ps) done =
     bindE (profile_entry ds p) (\<lambda>(k, c). profile_map ds ps (AList.update k c done))"

text \<open>The configuration of a profile: its fields over the ones of the model.\<close>

definition with_profile :: "model_config \<Rightarrow> profile_config \<Rightarrow> model_config" where
  "with_profile c p = c\<lparr>mc_profiles := [],
     mc_ctx := (case pc_ctx p of Some n \<Rightarrow> n | None \<Rightarrow> mc_ctx c),
     mc_gpu_layers := (case pc_gpu_layers p of Some n \<Rightarrow> n | None \<Rightarrow> mc_gpu_layers c),
     mc_host := (case pc_host p of Some h \<Rightarrow> h | None \<Rightarrow> mc_host c),
     mc_extra_args := (case pc_extra_args p of Some a \<Rightarrow> a | None \<Rightarrow> mc_extra_args c),
     mc_cost_tier := (case pc_cost_tier p of Some t \<Rightarrow> Some t | None \<Rightarrow> mc_cost_tier c),
     mc_strengths := (if pc_strengths p \<noteq> [] then pc_strengths p else mc_strengths c),
     mc_port := (case pc_port p of Some n \<Rightarrow> n | None \<Rightarrow> mc_port c + pc_order p)\<rparr>"

text \<open>The configuration of the rows, before the profile.\<close>

definition base_config ::
  "asset_db \<Rightarrow> model \<Rightarrow> asset \<Rightarrow> string \<Rightarrow> exn + model_config" where
  "base_config db row asset key =
     (let ds = list_model_deployments db (mo_id row) in
      bindE (profile_map ds (list_model_profiles db (mo_id row)) []) (\<lambda>profiles.
      bindE (asset_path_of db (mo_mmproj_asset row)) (\<lambda>mmproj_path.
      bindE (asset_path_of db (mo_draft_asset row)) (\<lambda>draft_path.
      let mmproj = (case mmproj_path of Some p \<Rightarrow> Some p | None \<Rightarrow> mo_mmproj row);
          spec = (case draft_path of
              Some (c # p) \<Rightarrow> if mo_mtp row = Some True
                then Some \<lparr>sp_mode = ''mtp'', sp_draft_model = Some (c # p), sp_draft_max = None, sp_draft_min = None\<rparr>
                else None
            | _ \<Rightarrow> None);
          d = deployment_for_identity ds key
      in check_config
        \<lparr>mc_path = as_path asset,
         mc_port = (case d of Some d \<Rightarrow> or_int (Some (de_port d)) 8080 | None \<Rightarrow> 8080),
         mc_ctx = or_int (mo_ctx row) 4096,
         mc_gpu_layers = or_int (mo_gpu_layers row) 0,
         mc_host = (case d of Some d \<Rightarrow> if de_host d = [] then ''127.0.0.1'' else de_host d | None \<Rightarrow> ''127.0.0.1''),
         mc_reasoning = mo_reasoning row,
         mc_budget = mo_budget row,
         mc_vision = mo_vision row,
         mc_mmproj = (case mmproj of Some (c # p) \<Rightarrow> Some (c # p) | _ \<Rightarrow> None),
         mc_extra_args = mo_extra_args row,
         mc_json_schema = mo_json_schema row,
         mc_grammar = mo_grammar row,
         mc_mtp = mo_mtp row,
         mc_speculative = spec,
         mc_line = mo_line row,
         mc_favorite = mo_favorite row,
         mc_template = mo_template row,
         mc_strengths = mo_strengths row,
         mc_cost_tier = mo_cost_tier row,
         mc_profiles = profiles\<rparr>))))"

definition runtime_model :: "asset_db \<Rightarrow> string \<Rightarrow> exn + model_config" where
  "runtime_model db name =
     (case partition_on (CHR '':'') name of (base_name, _, key) \<Rightarrow>
        bindE (get_catalog_model db base_name) (\<lambda>row.
        let asset_id = (case mo_asset row of None \<Rightarrow> [] | Some i \<Rightarrow> i) in
        if asset_id = [] then Inl (Exn ''KeyError'' (''Model has no registered asset: '' @ base_name))
        else bindE (get_asset db asset_id) (\<lambda>asset.
        bindE (base_config db row asset key) (\<lambda>config.
          if key = [] then Inr config
          else case map_of (mc_profiles config) key of
            None \<Rightarrow> Inl (key_error ''model'' name)
          | Some p \<Rightarrow> check_config (with_profile config p)))))"

text \<open>A model with profiles is known by its profiles, another one by its name.\<close>

definition identities_of :: "asset_db \<Rightarrow> model \<Rightarrow> string list" where
  "identities_of db m =
     (let profiles = list_model_profiles db (mo_id m) in
      if profiles = [] then [mo_name m]
      else map (\<lambda>p. mo_name m @ '':'' @ pr_key p)
        (sort_key (\<lambda>p. (if pr_order p = 0 then 100 else pr_order p, lower (pr_key p))) profiles))"

definition list_model_identities :: "asset_db \<Rightarrow> string list" where
  "list_model_identities db =
     concat (map (identities_of db)
       (sort_key (\<lambda>m. (\<not> mo_favorite m, lower (mo_name m))) (list_models db)))"

text \<open>\<open>set_favorite\<close> writes the row again field by field; it does not pass \<open>capacity_ctx\<close>.\<close>

definition set_favorite :: "int \<Rightarrow> string \<Rightarrow> bool \<Rightarrow> (asset_db, model) eff" where
  "set_favorite now name favorite db =
     (case partition_on (CHR '':'') name of (base_name, _, key) \<Rightarrow>
        (case get_catalog_model db base_name of
           Inl e \<Rightarrow> (Inl e, db)
         | Inr row \<Rightarrow>
             if key \<noteq> [] \<and> key \<notin> pr_key ` set (list_model_profiles db (mo_id row))
             then (Inl (key_error ''model'' name), db)
             else upsert_model now
               ((model_fields.truncate row)\<lparr>mo_name := base_name,
                  mo_config_source := (if mo_config_source row = [] then ''db'' else mo_config_source row),
                  mo_capacity_ctx := None, mo_favorite := favorite\<rparr>) db))"

section \<open>The command of a model server\<close>

definition opt_arg :: "string \<Rightarrow> string option \<Rightarrow> string list" where
  "opt_arg flag v = (case v of None \<Rightarrow> [] | Some s \<Rightarrow> [flag, s])"

definition build_llama_server_command :: "string \<Rightarrow> model_config \<Rightarrow> string list" where
  "build_llama_server_command binary m =
     [binary, ''--model'', mc_path m, ''--host'', mc_host m, ''--port'', str_int (mc_port m),
      ''--ctx-size'', str_int (mc_ctx m), ''--n-gpu-layers'', str_int (mc_gpu_layers m)]
     @ opt_arg ''--reasoning'' (mc_reasoning m)
     @ opt_arg ''--reasoning-budget'' (map_option str_int (mc_budget m))
     @ (case mc_mmproj m of Some (c # p) \<Rightarrow> [''--mmproj'', c # p] | _ \<Rightarrow> [])
     @ (case mc_speculative m of
          Some s \<Rightarrow>
            if sp_mode s = ''mtp''
            then [''--spec-type'', ''draft-mtp'']
              @ (case sp_draft_model s of Some (c # p) \<Rightarrow> [''--model-draft'', c # p] | _ \<Rightarrow> [])
              @ opt_arg ''--spec-draft-n-max'' (map_option str_int (sp_draft_max s))
              @ opt_arg ''--spec-draft-n-min'' (map_option str_int (sp_draft_min s))
            else []
        | None \<Rightarrow> [])
     @ mc_extra_args m"

end
