(* ===== verification/Process_Manager.thy ===== *)
theory Process_Manager
  imports Workflows Tool_Commands Doc_Chunking Model_Catalog
begin

text \<open>
  The servers of the models on one machine (\<open>core/runtime/process_manager.py\<close>): which processes the
  manager started or adopted, their logs, whether they are ready, and the requests in flight.

  The operating system is outside the repository: a world of any type \<open>'w\<close> and the calls the code
  makes, a record of functions. A log file is the text of its bytes; decoding is a function too.
  A handle of a log is known by the name of its model. The loop that waits for a process that is
  not a child takes fuel, \<^theory_text>\<open>Process_Safety\<close> says how much is enough.
\<close>

section \<open>State\<close>

datatype handle = Child int | Adopted int

datatype kill_result = Delivered | NoSuchProcess | NotPermitted

record manager =
  pm_processes :: "(string \<times> handle) list"
  pm_adopted :: "string list"
  pm_logs :: "string list"
  pm_offsets :: "(string \<times> nat) list"
  pm_active :: "(string \<times> int) list"

definition new_manager :: manager where
  "new_manager = \<lparr>pm_processes = [], pm_adopted = [], pm_logs = [], pm_offsets = [], pm_active = []\<rparr>"

record 'w os =
  os_popen :: "string list \<Rightarrow> string \<Rightarrow> 'w \<Rightarrow> (exn + int) \<times> 'w"
  os_poll :: "int \<Rightarrow> 'w \<Rightarrow> int option \<times> 'w"
  os_wait :: "int \<Rightarrow> rat \<Rightarrow> 'w \<Rightarrow> int option \<times> 'w"
  os_kill :: "int \<Rightarrow> int \<Rightarrow> 'w \<Rightarrow> kill_result \<times> 'w"
  os_run :: "string list \<Rightarrow> 'w \<Rightarrow> (int \<times> string) option \<times> 'w"
  os_now :: "'w \<Rightarrow> rat \<times> 'w"
  os_sleep :: "rat \<Rightarrow> 'w \<Rightarrow> unit \<times> 'w"
  os_log :: "string \<Rightarrow> 'w \<Rightarrow> string option \<times> 'w"
  os_open_log :: "string \<Rightarrow> 'w \<Rightarrow> (exn + unit) \<times> 'w"
  os_decode :: "string \<Rightarrow> string"
  os_binary :: string
  os_log_dir :: string

record 'w runtime =
  rt_manager :: manager
  rt_world :: 'w
  rt_db :: asset_db

definition os_call :: "('w \<Rightarrow> 'a \<times> 'w) \<Rightarrow> ('w runtime, 'a) eff" where
  "os_call f s = (case f (rt_world s) of (x, w) \<Rightarrow> (Inr x, s\<lparr>rt_world := w\<rparr>))"

definition os_try :: "('w \<Rightarrow> (exn + 'a) \<times> 'w) \<Rightarrow> ('w runtime, 'a) eff" where
  "os_try f s = (case f (rt_world s) of (x, w) \<Rightarrow> (x, s\<lparr>rt_world := w\<rparr>))"

definition ask_rt :: "('w runtime \<Rightarrow> 'a) \<Rightarrow> ('w runtime, 'a) eff" where
  "ask_rt f s = (Inr (f s), s)"

definition check_rt :: "('w runtime \<Rightarrow> exn + 'a) \<Rightarrow> ('w runtime, 'a) eff" where
  "check_rt f s = (f s, s)"

definition change :: "(manager \<Rightarrow> manager) \<Rightarrow> ('w runtime, unit) eff" where
  "change f s = (Inr (), s\<lparr>rt_manager := f (rt_manager s)\<rparr>)"

section \<open>Processes\<close>

fun handle_pid :: "handle \<Rightarrow> int" where
  "handle_pid (Child pid) = pid"
| "handle_pid (Adopted pid) = pid"

text \<open>Signals: 0 only asks whether the process is there.\<close>

definition sigterm :: int where "sigterm = 15"
definition sigkill :: int where "sigkill = 9"

definition pid_is_zombie :: "'w os \<Rightarrow> int \<Rightarrow> ('w runtime, bool) eff" where
  "pid_is_zombie env pid =
     seqE (os_call (os_run env [''ps'', ''-o'', ''stat='', ''-p'', str_int pid])) (\<lambda>r.
     ret (case r of
       None \<Rightarrow> False
     | Some (code, out) \<Rightarrow> code = 0 \<and> starts_with ''Z'' (strip out)))"

fun poll :: "'w os \<Rightarrow> handle \<Rightarrow> ('w runtime, int option) eff" where
  "poll env (Child pid) = os_call (os_poll env pid)"
| "poll env (Adopted pid) =
     seqE (os_call (os_kill env pid 0)) (\<lambda>r.
     case r of
       Delivered \<Rightarrow> seqE (pid_is_zombie env pid) (\<lambda>z. ret (if z then Some (-1) else None))
     | NoSuchProcess \<Rightarrow> ret (Some (-1))
     | NotPermitted \<Rightarrow> ret None)"

text \<open>\<open>terminate\<close> and \<open>kill\<close>; a child is asked first whether it has ended.\<close>

definition send :: "'w os \<Rightarrow> int \<Rightarrow> int \<Rightarrow> ('w runtime, unit) eff" where
  "send env pid sig =
     seqE (os_call (os_kill env pid sig)) (\<lambda>r.
     case r of
       NotPermitted \<Rightarrow> raise_exn (Exn ''PermissionError'' ''Operation not permitted'')
     | _ \<Rightarrow> ret ())"

fun signal_process :: "'w os \<Rightarrow> handle \<Rightarrow> int \<Rightarrow> ('w runtime, unit) eff" where
  "signal_process env (Child pid) sig =
     seqE (os_call (os_poll env pid)) (\<lambda>r. if r = None then send env pid sig else ret ())"
| "signal_process env (Adopted pid) sig = send env pid sig"

fun wait_adopted :: "'w os \<Rightarrow> nat \<Rightarrow> int \<Rightarrow> rat \<Rightarrow> ('w runtime, int option) eff" where
  "wait_adopted env 0 pid deadline = raise_exn (Exn ''OutOfFuel'' [])"
| "wait_adopted env (Suc fuel) pid deadline =
     seqE (poll env (Adopted pid)) (\<lambda>r.
     case r of
       Some code \<Rightarrow> ret (Some code)
     | None \<Rightarrow>
         seqE (os_call (os_now env)) (\<lambda>now.
         if now \<ge> deadline then ret None
         else seqE (os_call (os_sleep env (1 / 20))) (\<lambda>_. wait_adopted env fuel pid deadline)))"

text \<open>\<open>wait(timeout)\<close>: \<open>None\<close> stands for \<open>TimeoutExpired\<close>.\<close>

fun wait :: "'w os \<Rightarrow> nat \<Rightarrow> handle \<Rightarrow> rat \<Rightarrow> ('w runtime, int option) eff" where
  "wait env fuel (Child pid) timeout = os_call (os_wait env pid timeout)"
| "wait env fuel (Adopted pid) timeout =
     seqE (os_call (os_now env)) (\<lambda>now. wait_adopted env fuel pid (now + timeout))"

section \<open>Models\<close>

definition get_runtime_model :: "asset_db \<Rightarrow> string \<Rightarrow> exn + model_config" where
  "get_runtime_model db name =
     (case runtime_model db name of
        Inl e \<Rightarrow> if exn_type e = ''KeyError'' then Inl (key_error ''model'' name) else Inl e
      | Inr m \<Rightarrow> Inr m)"

record profile_metadata =
  pmd_family :: string
  pmd_profile :: "string option"
  pmd_label :: "string option"
  pmd_order :: "int option"
  pmd_kind :: "string option"
  pmd_kv_policy :: "string option"
  pmd_tier :: "string option"

definition profile_metadata_of :: "asset_db \<Rightarrow> string \<Rightarrow> exn + profile_metadata" where
  "profile_metadata_of db name =
     (case partition_on (CHR '':'') name of (family, colon, key) \<Rightarrow>
        if colon = []
        then bindE (get_runtime_model db name) (\<lambda>_. Inr
          \<lparr>pmd_family = name, pmd_profile = None, pmd_label = None, pmd_order = None, pmd_kind = None,
           pmd_kv_policy = None, pmd_tier = None\<rparr>)
        else case runtime_model db family of
          Inl e \<Rightarrow> if exn_type e = ''KeyError'' then Inl (key_error ''model'' name) else Inl e
        | Inr m \<Rightarrow>
            (case map_of (mc_profiles m) key of
               None \<Rightarrow> Inl (key_error ''model'' name)
             | Some p \<Rightarrow> Inr
                 \<lparr>pmd_family = family, pmd_profile = Some key, pmd_label = Some (label_or_default p key),
                  pmd_order = Some (pc_order p), pmd_kind = pc_kind p, pmd_kv_policy = pc_kv_policy p,
                  pmd_tier = pc_tier p\<rparr>))"

definition catalog_payload :: "asset_db \<Rightarrow> string \<Rightarrow> exn + (model \<times> profile list \<times> deployment list)" where
  "catalog_payload db name =
     (case partition_on (CHR '':'') name of (family, _) \<Rightarrow>
        bindE (get_catalog_model db family) (\<lambda>row.
          Inr (row, list_model_profiles db (mo_id row), list_model_deployments db (mo_id row))))"

text \<open>The fields that a status copies from the configuration are the configuration itself.\<close>

record model_status =
  st_name :: string
  st_running :: bool
  st_ready :: bool
  st_pid :: "int option"
  st_state :: string
  st_config :: model_config
  st_log :: string
  st_meta :: profile_metadata
  st_row :: model
  st_profiles :: "profile list"
  st_deployments :: "deployment list"

section \<open>Ports\<close>

definition is_digit_text :: "string \<Rightarrow> bool" where
  "is_digit_text s \<longleftrightarrow> s \<noteq> [] \<and>
     (\<forall>c \<in> set s. (48 \<le> char_nat c \<and> char_nat c \<le> 57) \<or> char_nat c \<in> {178, 179, 185})"

definition find_pid_on_port :: "'w os \<Rightarrow> int \<Rightarrow> ('w runtime, int option) eff" where
  "find_pid_on_port env port =
     seqE (os_call (os_run env [''lsof'', ''-ti'', '':'' @ str_int port])) (\<lambda>r.
     case r of
       None \<Rightarrow> ret None
     | Some (code, out) \<Rightarrow>
         if code \<noteq> 0 then ret None
         else (case filter is_digit_text (split_ws out) of
                 [] \<Rightarrow> ret None
               | t # _ \<Rightarrow> check_rt (\<lambda>_. map_sum id Some (int_of_text t))))"

text \<open>Whether more than one identity is configured for the port; it stops at the second.\<close>

fun port_matches :: "asset_db \<Rightarrow> int \<Rightarrow> string list \<Rightarrow> nat \<Rightarrow> exn + bool" where
  "port_matches db port [] n = Inr False"
| "port_matches db port (i # is) n =
     bindE (get_runtime_model db i) (\<lambda>m.
       if mc_port m \<noteq> port then port_matches db port is n
       else if n \<ge> 1 then Inr True
       else port_matches db port is (Suc n))"

definition port_has_multiple_identities :: "asset_db \<Rightarrow> int \<Rightarrow> exn + bool" where
  "port_has_multiple_identities db port = port_matches db port (list_model_identities db) 0"

definition pid_matches_model :: "'w os \<Rightarrow> int \<Rightarrow> string \<Rightarrow> ('w runtime, bool) eff" where
  "pid_matches_model env pid path =
     seqE (os_call (os_run env [''ps'', ''-p'', str_int pid, ''-o'', ''command=''])) (\<lambda>r.
     ret (case r of None \<Rightarrow> False | Some (code, out) \<Rightarrow> code = 0 \<and> contains path out))"

definition adopt_existing_process ::
  "'w os \<Rightarrow> string \<Rightarrow> model_config \<Rightarrow> ('w runtime, handle option) eff" where
  "adopt_existing_process env name model =
     seqE (find_pid_on_port env (mc_port model)) (\<lambda>found.
     case found of
       None \<Rightarrow> ret None
     | Some pid \<Rightarrow>
         seqE (check_rt (\<lambda>s. port_has_multiple_identities (rt_db s) (mc_port model))) (\<lambda>shared.
         seqE (if shared then pid_matches_model env pid (mc_path model) else ret True) (\<lambda>ours.
         if \<not> ours then ret None
         else seqE (change (\<lambda>m. m\<lparr>pm_processes := AList.update name (Adopted pid) (pm_processes m),
                pm_adopted := List.insert name (pm_adopted m),
                pm_offsets := AList.update name 0 (pm_offsets m)\<rparr>))
              (\<lambda>_. ret (Some (Adopted pid))))))"

section \<open>Status\<close>

definition safe_identity :: "string \<Rightarrow> string" where
  "safe_identity name = (if CHR '':'' \<notin> set name then name else ''__profile__'' @ url_quote name)"

definition log_path_of :: "'w os \<Rightarrow> string \<Rightarrow> string" where
  "log_path_of env name = os_log_dir env @ ''/'' @ safe_identity name @ ''.log''"

definition ready_marker :: string where
  "ready_marker = ''update_slots: all slots are idle''"

definition ready_log_marker_seen :: "'w os \<Rightarrow> string \<Rightarrow> ('w runtime, bool) eff" where
  "ready_log_marker_seen env name =
     seqE (os_call (os_log env (log_path_of env name))) (\<lambda>content.
     ask_rt (\<lambda>s. case content of
       None \<Rightarrow> False
     | Some bytes \<Rightarrow>
         contains ready_marker (os_decode env
           (drop (case map_of (pm_offsets (rt_manager s)) name of None \<Rightarrow> 0 | Some n \<Rightarrow> n) bytes))))"

definition process_state :: "manager \<Rightarrow> string \<Rightarrow> bool \<Rightarrow> int option \<Rightarrow> string" where
  "process_state m name running stale_pid =
     (if stale_pid \<noteq> None then ''stale''
      else if \<not> running then ''stopped''
      else if name \<in> set (pm_adopted m) then ''adopted''
      else ''managed'')"

definition process_for_status :: "'w os \<Rightarrow> string \<Rightarrow> model_config \<Rightarrow> ('w runtime, handle option) eff" where
  "process_for_status env name model =
     seqE (ask_rt (\<lambda>s. map_of (pm_processes (rt_manager s)) name)) (\<lambda>p.
     case p of
       Some h \<Rightarrow> ret (Some h)
     | None \<Rightarrow> adopt_existing_process env name model)"

text \<open>Forgetting a process: its entry, its mark as adopted, its log.\<close>

definition forget :: "string \<Rightarrow> manager \<Rightarrow> manager" where
  "forget name m = m\<lparr>pm_processes := AList.delete name (pm_processes m),
     pm_adopted := removeAll name (pm_adopted m), pm_logs := removeAll name (pm_logs m)\<rparr>"

text \<open>The second half of a status, once the process is known.\<close>

definition finish_status ::
  "'w os \<Rightarrow> string \<Rightarrow> model_config \<Rightarrow> profile_metadata \<Rightarrow> model \<times> profile list \<times> deployment list
     \<Rightarrow> handle option \<Rightarrow> ('w runtime, model_status) eff" where
  "finish_status env name model meta payload p =
     seqE (case p of None \<Rightarrow> ret False | Some h \<Rightarrow> seqE (poll env h) (\<lambda>r. ret (r = None))) (\<lambda>running.
     let stale = (case p of Some h \<Rightarrow> if running then None else Some (handle_pid h) | None \<Rightarrow> None) in
     seqE (if stale \<noteq> None then change (forget name) else ret ()) (\<lambda>_.
     seqE (ask_rt (\<lambda>s. process_state (rt_manager s) name running stale)) (\<lambda>state.
     seqE (if running then ready_log_marker_seen env name else ret False) (\<lambda>ready.
     ret \<lparr>st_name = name, st_running = running, st_ready = ready,
          st_pid = (case p of Some h \<Rightarrow> if running then Some (handle_pid h) else stale | None \<Rightarrow> None),
          st_state = state, st_config = model, st_log = log_path_of env name, st_meta = meta,
          st_row = fst payload, st_profiles = fst (snd payload), st_deployments = snd (snd payload)\<rparr>))))"

definition status :: "'w os \<Rightarrow> string \<Rightarrow> ('w runtime, model_status) eff" where
  "status env name =
     seqE (check_rt (\<lambda>s. get_runtime_model (rt_db s) name)) (\<lambda>model.
     seqE (check_rt (\<lambda>s. profile_metadata_of (rt_db s) name)) (\<lambda>meta.
     seqE (check_rt (\<lambda>s. catalog_payload (rt_db s) name)) (\<lambda>payload.
     seqE (process_for_status env name model) (finish_status env name model meta payload))))"

fun statuses :: "'w os \<Rightarrow> string list \<Rightarrow> ('w runtime, model_status list) eff" where
  "statuses env [] = ret []"
| "statuses env (i # is) = seqE (status env i) (\<lambda>st. seqE (statuses env is) (\<lambda>sts. ret (st # sts)))"

definition list_statuses :: "'w os \<Rightarrow> ('w runtime, model_status list) eff" where
  "list_statuses env = seqE (ask_rt (\<lambda>s. list_model_identities (rt_db s))) (statuses env)"

definition set_model_favorite ::
  "'w os \<Rightarrow> int \<Rightarrow> string \<Rightarrow> bool \<Rightarrow> ('w runtime, model_status) eff" where
  "set_model_favorite env now name favorite =
     seqE (check_rt (\<lambda>s. get_runtime_model (rt_db s) name)) (\<lambda>_.
     seqE (\<lambda>s. case set_favorite now name favorite (rt_db s) of (r, db) \<Rightarrow> (r, s\<lparr>rt_db := db\<rparr>)) (\<lambda>_.
     status env name))"

section \<open>Starting and stopping\<close>

definition spawn :: "'w os \<Rightarrow> string \<Rightarrow> model_config \<Rightarrow> ('w runtime, model_status) eff" where
  "spawn env name model =
     (let log = log_path_of env name in
      seqE (os_call (os_log env log)) (\<lambda>content.
      seqE (change (\<lambda>m. m\<lparr>pm_offsets := AList.update name
             (case content of None \<Rightarrow> 0 | Some bytes \<Rightarrow> length bytes) (pm_offsets m)\<rparr>)) (\<lambda>_.
      seqE (os_try (os_open_log env log)) (\<lambda>_.
      seqE (os_try (os_popen env (build_llama_server_command (os_binary env) model) log)) (\<lambda>pid.
      seqE (change (\<lambda>m. m\<lparr>pm_processes := AList.update name (Child pid) (pm_processes m),
             pm_adopted := removeAll name (pm_adopted m),
             pm_logs := List.insert name (pm_logs m)\<rparr>)) (\<lambda>_.
      status env name))))))"

definition start :: "'w os \<Rightarrow> string \<Rightarrow> ('w runtime, model_status) eff" where
  "start env name =
     seqE (status env name) (\<lambda>current.
     if st_running current then ret current
     else
       seqE (check_rt (\<lambda>s. get_runtime_model (rt_db s) name)) (\<lambda>model.
       seqE (adopt_existing_process env name model) (\<lambda>adopted.
       if adopted \<noteq> None then status env name
       else spawn env name model)))"

definition end_process :: "'w os \<Rightarrow> nat \<Rightarrow> handle \<Rightarrow> ('w runtime, unit) eff" where
  "end_process env fuel h =
     seqE (poll env h) (\<lambda>r.
     if r \<noteq> None then ret ()
     else
       seqE (signal_process env h sigterm) (\<lambda>_.
       seqE (wait env fuel h 10) (\<lambda>code.
       if code \<noteq> None then ret ()
       else
         seqE (signal_process env h sigkill) (\<lambda>_.
         seqE (wait env fuel h 5) (\<lambda>code.
         if code \<noteq> None then ret ()
         else raise_exn (Exn ''TimeoutExpired'' (str_int (handle_pid h))))))))"

definition stop :: "'w os \<Rightarrow> nat \<Rightarrow> string \<Rightarrow> ('w runtime, model_status) eff" where
  "stop env fuel name =
     seqE (check_rt (\<lambda>s. get_runtime_model (rt_db s) name)) (\<lambda>_.
     seqE (ask_rt (\<lambda>s. map_of (pm_processes (rt_manager s)) name)) (\<lambda>p.
     seqE (case p of None \<Rightarrow> ret () | Some h \<Rightarrow> end_process env fuel h) (\<lambda>_.
     seqE (change (\<lambda>m. (forget name m)\<lparr>pm_offsets := AList.delete name (pm_offsets m)\<rparr>)) (\<lambda>_.
     status env name))))"

definition restart :: "'w os \<Rightarrow> nat \<Rightarrow> string \<Rightarrow> ('w runtime, model_status) eff" where
  "restart env fuel name = seqE (stop env fuel name) (\<lambda>_. start env name)"

section \<open>Requests in flight\<close>

definition active_count :: "manager \<Rightarrow> string \<Rightarrow> int" where
  "active_count m name = (case map_of (pm_active m) name of None \<Rightarrow> 0 | Some n \<Rightarrow> n)"

text \<open>Entering and leaving the context manager \<open>track_active\<close>.\<close>

definition enter_active :: "string \<Rightarrow> manager \<Rightarrow> manager" where
  "enter_active name m = m\<lparr>pm_active := AList.update name (active_count m name + 1) (pm_active m)\<rparr>"

definition leave_active :: "string \<Rightarrow> manager \<Rightarrow> manager" where
  "leave_active name m =
     (let next_count = active_count m name - 1
      in if next_count \<le> 0 then m\<lparr>pm_active := AList.delete name (pm_active m)\<rparr>
         else m\<lparr>pm_active := AList.update name next_count (pm_active m)\<rparr>)"

section \<open>Logs\<close>

text \<open>Reading in text mode: \<open>\r\n\<close> and \<open>\r\<close> are line ends; \<open>readlines\<close> keeps a \<open>\n\<close>.\<close>

fun text_newlines :: "string \<Rightarrow> string" where
  "text_newlines [] = []"
| "text_newlines (c # s) =
     (if c = CHR 0x0D
      then CHR 0x0A # (case s of d # s' \<Rightarrow> if d = CHR 0x0A then text_newlines s' else text_newlines s
                               | [] \<Rightarrow> [])
      else c # text_newlines s)"

fun read_lines :: "string \<Rightarrow> string \<Rightarrow> string list" where
  "read_lines line [] = (if line = [] then [] else [rev line])"
| "read_lines line (c # s) =
     (if c = CHR 0x0A then rev (c # line) # read_lines [] s else read_lines (c # line) s)"

definition last_lines :: "nat \<Rightarrow> string list \<Rightarrow> string list" where
  "last_lines n ls = drop (length ls - n) ls"

definition tail_logs :: "'w os \<Rightarrow> string \<Rightarrow> int \<Rightarrow> ('w runtime, string) eff" where
  "tail_logs env name lines =
     seqE (check_rt (\<lambda>s. get_runtime_model (rt_db s) name)) (\<lambda>_.
     seqE (os_call (os_log env (log_path_of env name))) (\<lambda>content.
     ret (case content of
       None \<Rightarrow> []
     | Some bytes \<Rightarrow>
         concat (last_lines (nat (max 1 (min lines 2000)))
           (read_lines [] (text_newlines (os_decode env bytes)))))))"

definition log_path :: "'w os \<Rightarrow> string \<Rightarrow> ('w runtime, string) eff" where
  "log_path env name =
     seqE (check_rt (\<lambda>s. get_runtime_model (rt_db s) name)) (\<lambda>_. ret (log_path_of env name))"

end
