(* ===== verification/Process_Safety.thy ===== *)
theory Process_Safety
  imports Process_Manager
begin

text \<open>
  The books of the process manager: every process is either its child, with an open log, or
  adopted, and a status says what the books say. A weakest precondition \<open>wp\<close> computes what a call
  leaves, on success and on an exception; calls that only touch the operating system are \<open>quiet\<close>.
\<close>

section \<open>What a call leaves\<close>

definition wp :: "('s, 'a) eff \<Rightarrow> ('a \<Rightarrow> 's \<Rightarrow> bool) \<Rightarrow> (exn \<Rightarrow> 's \<Rightarrow> bool) \<Rightarrow> 's \<Rightarrow> bool" where
  "wp f Q E s = (case f s of (Inr x, s') \<Rightarrow> Q x s' | (Inl e, s') \<Rightarrow> E e s')"

named_theorems wp_simps

lemma wp_seqE [wp_simps]: "wp (seqE f g) Q E = wp f (\<lambda>x. wp (g x) Q E) E"
  by (auto simp: wp_def seqE_def fun_eq_iff split: prod.splits sum.splits)

lemma wp_ret [wp_simps]: "wp (ret x) Q E = Q x"
  by (simp add: wp_def ret_def fun_eq_iff)

lemma wp_raise [wp_simps]: "wp (raise_exn e) Q E = E e"
  by (simp add: wp_def raise_exn_def fun_eq_iff)

lemma wp_ask [wp_simps]: "wp (ask_rt f) Q E s = Q (f s) s"
  by (simp add: wp_def ask_rt_def)

lemma wp_check [wp_simps]: "wp (check_rt h) Q E s = (case h s of Inr x \<Rightarrow> Q x s | Inl e \<Rightarrow> E e s)"
  by (auto simp: wp_def check_rt_def split: sum.splits)

lemma wp_change [wp_simps]: "wp (change k) Q E s = Q () (s\<lparr>rt_manager := k (rt_manager s)\<rparr>)"
  by (simp add: wp_def change_def)

lemma wp_mono: "wp f Q E s \<Longrightarrow> (\<And>x s'. Q x s' \<Longrightarrow> Q' x s') \<Longrightarrow> (\<And>e s'. E e s' \<Longrightarrow> E' e s') \<Longrightarrow> wp f Q' E' s"
  by (auto simp: wp_def split: prod.splits sum.splits)

lemma wp_if: "wp (if b then f else g) Q E s = (if b then wp f Q E s else wp g Q E s)"
  by simp

definition books :: "'w runtime \<Rightarrow> manager \<times> asset_db" where
  "books s = (rt_manager s, rt_db s)"

definition quiet :: "('w runtime, 'a) eff \<Rightarrow> bool" where
  "quiet f \<longleftrightarrow> (\<forall>s. books (snd (f s)) = books s)"

named_theorems quiets

lemma quiet_ret [quiets]: "quiet (ret x)"
  by (simp add: quiet_def ret_def)

lemma quiet_raise [quiets]: "quiet (raise_exn e)"
  by (simp add: quiet_def raise_exn_def)

lemma quiet_ask [quiets]: "quiet (ask_rt f)"
  by (simp add: quiet_def ask_rt_def)

lemma quiet_check [quiets]: "quiet (check_rt h)"
  by (simp add: quiet_def check_rt_def)

lemma quiet_os_call [quiets]: "quiet (os_call c)"
  by (simp add: quiet_def os_call_def books_def split: prod.splits)

lemma quiet_os_try [quiets]: "quiet (os_try t)"
  by (simp add: quiet_def os_try_def books_def split: prod.splits)

lemma quiet_seqE [quiets]: "quiet f \<Longrightarrow> (\<And>x. quiet (g x)) \<Longrightarrow> quiet (seqE f g)"
  by (auto simp: quiet_def seqE_def split: prod.splits sum.splits) (metis snd_conv)+

lemma wp_quiet:
  "quiet f \<Longrightarrow> (\<And>x s'. books s' = books s \<Longrightarrow> Q x s') \<Longrightarrow> (\<And>e s'. books s' = books s \<Longrightarrow> E e s') \<Longrightarrow> wp f Q E s"
  by (auto simp: quiet_def wp_def split: prod.splits sum.splits) (metis snd_conv)+

lemma quiet_poll [quiets]: "quiet (poll env h)"
  by (cases h) (auto simp: pid_is_zombie_def intro!: quiets split: kill_result.split)

lemma quiet_signal [quiets]: "quiet (signal_process env h sig)"
  by (cases h) (auto simp: send_def intro!: quiets split: kill_result.split)

lemma quiet_wait_adopted [quiets]: "quiet (wait_adopted env fuel pid deadline)"
proof (induction fuel)
  case (Suc fuel)
  then show ?case
    by (auto intro!: quiets split: option.split simp del: poll.simps)
qed (simp add: quiets)

lemma quiet_wait [quiets]: "quiet (wait env fuel h timeout)"
  by (cases h) (auto intro!: quiets)

lemma quiet_end [quiets]: "quiet (end_process env fuel h)"
  unfolding end_process_def by (auto intro!: quiets)

lemma quiet_find [quiets]: "quiet (find_pid_on_port env port)"
  unfolding find_pid_on_port_def by (auto intro!: quiets split: option.split list.split)

lemma quiet_matches [quiets]: "quiet (pid_matches_model env pid path)"
  unfolding pid_matches_model_def by (intro quiets)

lemma quiet_marker [quiets]: "quiet (ready_log_marker_seen env name)"
  unfolding ready_log_marker_seen_def by (intro quiets)

section \<open>The books\<close>

definition manager_ok :: "manager \<Rightarrow> bool" where
  "manager_ok m \<longleftrightarrow> distinct (map fst (pm_processes m)) \<and>
     (\<forall>n. n \<in> set (pm_adopted m) \<longleftrightarrow> (\<exists>pid. map_of (pm_processes m) n = Some (Adopted pid))) \<and>
     (\<forall>n. n \<in> set (pm_logs m) \<longleftrightarrow> (\<exists>pid. map_of (pm_processes m) n = Some (Child pid)))"

lemma new_manager_ok: "manager_ok new_manager"
  by (simp add: manager_ok_def new_manager_def)

lemma forget_ok: "manager_ok m \<Longrightarrow> manager_ok (forget name m)"
  by (auto simp: manager_ok_def forget_def delete_conv' distinct_delete)

lemma adopt_ok:
  "manager_ok m \<Longrightarrow> map_of (pm_processes m) name = None \<Longrightarrow>
     manager_ok (m\<lparr>pm_processes := AList.update name (Adopted pid) (pm_processes m),
       pm_adopted := List.insert name (pm_adopted m), pm_offsets := offs\<rparr>)"
  by (auto simp: manager_ok_def update_conv' distinct_update)

lemma child_ok:
  "manager_ok m \<Longrightarrow> map_of (pm_processes m) name = None \<Longrightarrow>
     manager_ok (m\<lparr>pm_processes := AList.update name (Child pid) (pm_processes m),
       pm_adopted := removeAll name (pm_adopted m), pm_logs := List.insert name (pm_logs m)\<rparr>)"
  by (auto simp: manager_ok_def update_conv' distinct_update)

lemma offsets_ok: "manager_ok (m\<lparr>pm_offsets := offs\<rparr>) = manager_ok m"
  "manager_ok (m\<lparr>pm_active := act\<rparr>) = manager_ok m"
  by (simp_all add: manager_ok_def)

definition adopted_books :: "string \<Rightarrow> int \<Rightarrow> manager \<Rightarrow> manager" where
  "adopted_books name pid m = m\<lparr>pm_processes := AList.update name (Adopted pid) (pm_processes m),
     pm_adopted := List.insert name (pm_adopted m), pm_offsets := AList.update name 0 (pm_offsets m)\<rparr>"

lemma adopt_wp:
  assumes "\<And>s'. books s' = books s \<Longrightarrow> Q None s'"
    and "\<And>pid s'. books s' = (adopted_books name pid (rt_manager s), rt_db s) \<Longrightarrow> Q (Some (Adopted pid)) s'"
    and "\<And>e s'. books s' = books s \<Longrightarrow> E e s'"
  shows "wp (adopt_existing_process env name model) Q E s"
  unfolding adopt_existing_process_def
proof (simp only: wp_simps, intro wp_quiet [OF quiet_find], goal_cases)
  case (1 p s1)
  show ?case
  proof (cases p)
    case None
    then show ?thesis using assms(1) 1 by (simp add: wp_simps)
  next
    case (Some pid)
    have "wp (seqE (if shared then pid_matches_model env pid (mc_path model) else ret True)
        (\<lambda>ours. if \<not> ours then ret None
          else seqE (change (\<lambda>m. m\<lparr>pm_processes := AList.update name (Adopted pid) (pm_processes m),
             pm_adopted := List.insert name (pm_adopted m), pm_offsets := AList.update name 0 (pm_offsets m)\<rparr>))
            (\<lambda>_. ret (Some (Adopted pid))))) Q E s1" for shared
      unfolding wp_simps
      by (rule wp_quiet) (use 1 assms in \<open>auto intro!: quiets simp: wp_simps books_def adopted_books_def\<close>)
    note tail = this [unfolded wp_seqE]
    show ?thesis
      unfolding Some option.case wp_seqE wp_check
    proof (split sum.split, intro conjI allI impI)
      show "E e s1" for e using assms(3) 1 by simp
    qed (rule tail)
  qed
qed (rule assms(3))

text \<open>What a status says of a model, and what the books have.\<close>

definition told :: "model_status \<Rightarrow> manager \<Rightarrow> bool" where
  "told st m = (case map_of (pm_processes m) (st_name st) of
      Some h \<Rightarrow> st_running st \<and> st_pid st = Some (handle_pid h) \<and>
        st_state st = (case h of Child _ \<Rightarrow> ''managed'' | Adopted _ \<Rightarrow> ''adopted'')
    | None \<Rightarrow> \<not> st_running st \<and> \<not> st_ready st \<and>
        (st_state st = ''stopped'' \<and> st_pid st = None \<or> st_state st = ''stale'' \<and> st_pid st \<noteq> None))"

definition others_same :: "string \<Rightarrow> manager \<Rightarrow> manager \<Rightarrow> bool" where
  "others_same name m m' \<longleftrightarrow> pm_active m' = pm_active m \<and>
     (\<forall>n. n \<noteq> name \<longrightarrow> map_of (pm_processes m') n = map_of (pm_processes m) n)"

lemma others_same_trans: "others_same n m1 m2 \<Longrightarrow> others_same n m2 m3 \<Longrightarrow> others_same n m1 m3"
  by (simp add: others_same_def)

lemma others_same_intros:
  "others_same n m m"
  "others_same n m (forget n m)"
  "others_same n m (adopted_books n pid m)"
  by (auto simp: others_same_def forget_def adopted_books_def delete_conv' update_conv')

lemma adopted_books_ok:
  "manager_ok m \<Longrightarrow> map_of (pm_processes m) name = None \<Longrightarrow> manager_ok (adopted_books name pid m)"
  unfolding adopted_books_def by (rule adopt_ok)

lemma process_for_status_wp:
  assumes "manager_ok (rt_manager s)"
    and "\<And>h s'. \<lbrakk>manager_ok (rt_manager s'); others_same name (rt_manager s) (rt_manager s'); rt_db s' = rt_db s;
      map_of (pm_processes (rt_manager s')) name = h\<rbrakk> \<Longrightarrow> Q h s'"
    and "\<And>e s'. books s' = books s \<Longrightarrow> E e s'"
  shows "wp (process_for_status env name model) Q E s"
proof (cases "map_of (pm_processes (rt_manager s)) name")
  case (Some h)
  then show ?thesis
    using assms(1) assms(2) [of s "Some h"] by (simp add: process_for_status_def wp_simps others_same_intros)
next
  case None
  have adopted: "map_of (pm_processes (adopted_books name pid (rt_manager s))) name = Some (Adopted pid)" for pid
    by (simp add: adopted_books_def update_conv')
  from None show ?thesis
    unfolding process_for_status_def wp_simps
    by (simp add: None)
       (rule adopt_wp, auto intro!: assms simp: books_def adopted None others_same_intros adopted_books_ok assms(1))
qed

lemma finish_status_wp:
  assumes s1: "manager_ok (rt_manager s1)" "map_of (pm_processes (rt_manager s1)) name = p"
    and Q: "\<And>st s'. \<lbrakk>manager_ok (rt_manager s'); others_same name (rt_manager s1) (rt_manager s'); rt_db s' = rt_db s1;
      st_name st = name; told st (rt_manager s')\<rbrakk> \<Longrightarrow> Q st s'"
    and E: "\<And>e s'. books s' = books s1 \<Longrightarrow> E e s'"
  shows "wp (finish_status env name model meta payload p) Q E s1"
proof (cases p)
  case None
  then show ?thesis
    using s1 by (auto simp: finish_status_def wp_simps process_state_def told_def others_same_intros intro!: Q)
next
  case (Some h)
  have gone: "map_of (pm_processes (forget name m)) name = None" for m
    by (simp add: forget_def delete_conv')
  have adopted: "(name \<in> set (pm_adopted (rt_manager s1))) = (\<exists>pid. h = Adopted pid)"
    using s1 Some by (auto simp: manager_ok_def)
  show ?thesis
    unfolding finish_status_def Some wp_simps option.case
  proof (intro wp_quiet [OF quiet_poll], goal_cases)
    case (1 r s2)
    then have s2: "rt_manager s2 = rt_manager s1" "rt_db s2 = rt_db s1" by (simp_all add: books_def)
    show ?case
    proof (cases r)
      case None
      have "wp (ready_log_marker_seen env name) (\<lambda>ready. Q \<lparr>st_name = name, st_running = True, st_ready = ready,
        st_pid = Some (handle_pid h), st_state = process_state (rt_manager s2) name True None, st_config = model,
        st_log = log_path_of env name, st_meta = meta, st_row = fst payload, st_profiles = fst (snd payload),
        st_deployments = snd (snd payload)\<rparr>) E s2"
      proof (intro wp_quiet [OF quiet_marker], goal_cases)
        case (1 ready s3)
        then show ?case
          using s1 s2 Some adopted
          by (intro Q) (auto simp: books_def told_def process_state_def others_same_intros split: handle.split)
      qed (use s2 E in \<open>simp add: books_def\<close>)
      with None show ?thesis by (simp add: wp_simps)
    next
      case r: (Some code)
      then show ?thesis
        using s1 s2 by (auto simp: wp_simps told_def process_state_def gone intro!: Q forget_ok others_same_intros)
    qed
  qed (use E in simp)
qed

lemma status_wp:
  assumes ok: "manager_ok (rt_manager s)"
    and Q: "\<And>st s'. \<lbrakk>manager_ok (rt_manager s'); others_same name (rt_manager s) (rt_manager s'); rt_db s' = rt_db s;
      st_name st = name; told st (rt_manager s')\<rbrakk> \<Longrightarrow> Q st s'"
    and E: "\<And>e s'. \<lbrakk>manager_ok (rt_manager s'); others_same name (rt_manager s) (rt_manager s'); rt_db s' = rt_db s\<rbrakk>
      \<Longrightarrow> E e s'"
  shows "wp (status env name) Q E s"
proof -
  have same: "E e s'" if "books s' = books s" for e s'
    using that E ok by (simp add: books_def others_same_intros)
  have "wp (finish_status env name model meta payload p) Q E s1"
    if s1: "manager_ok (rt_manager s1)" "others_same name (rt_manager s) (rt_manager s1)" "rt_db s1 = rt_db s"
      "map_of (pm_processes (rt_manager s1)) name = p" for p s1 model meta payload
    using s1 by (intro finish_status_wp) (auto intro!: Q E simp: books_def intro: others_same_trans)
  then show ?thesis
    unfolding status_def by (auto simp: wp_simps split: sum.split intro!: same process_for_status_wp ok)
qed

text \<open>After a status the books have the process of the model, if it has one.\<close>

lemma told_none: "told st m \<Longrightarrow> \<not> st_running st \<Longrightarrow> map_of (pm_processes m) (st_name st) = None"
  by (auto simp: told_def split: option.splits)

definition kept :: "string \<Rightarrow> 'w runtime \<Rightarrow> 'w runtime \<Rightarrow> bool" where
  "kept name s s' \<longleftrightarrow> manager_ok (rt_manager s') \<and> others_same name (rt_manager s) (rt_manager s') \<and> rt_db s' = rt_db s"

lemma kept_start: "manager_ok (rt_manager s) \<Longrightarrow> kept name s s"
  by (simp add: kept_def others_same_intros)

lemma kept_books: "books s' = books s \<Longrightarrow> kept name s0 s \<Longrightarrow> kept name s0 s'"
  by (simp add: books_def kept_def)

lemma status_kept:
  assumes "kept name s0 s"
    and "\<And>st s'. \<lbrakk>kept name s0 s'; st_name st = name; told st (rt_manager s')\<rbrakk> \<Longrightarrow> Q st s'"
    and "\<And>e s'. kept name s0 s' \<Longrightarrow> E e s'"
  shows "wp (status env name) Q E s"
  using assms(1) by (intro status_wp) (auto intro!: assms(2,3) simp: kept_def intro: others_same_trans)

lemma spawn_kept:
  assumes s2: "kept name s0 s2" and none: "map_of (pm_processes (rt_manager s2)) name = None"
    and Q: "\<And>st s'. \<lbrakk>kept name s0 s'; st_name st = name; told st (rt_manager s')\<rbrakk> \<Longrightarrow> Q st s'"
    and E: "\<And>e s'. kept name s0 s' \<Longrightarrow> E e s'"
  shows "wp (spawn env name model) Q E s2"
  unfolding spawn_def Let_def wp_seqE
proof (intro wp_quiet [OF quiet_os_call], goal_cases)
  case (1 content s3)
  let ?offs = "AList.update name (case content of None \<Rightarrow> 0 | Some bytes \<Rightarrow> length bytes) (pm_offsets (rt_manager s3))"
  let ?s = "s3\<lparr>rt_manager := (rt_manager s3)\<lparr>pm_offsets := ?offs\<rparr>\<rparr>"
  have k: "kept name s0 ?s" "map_of (pm_processes (rt_manager ?s)) name = None"
    using 1 s2 none by (auto simp: books_def offsets_ok others_same_def kept_def)
  have child: "kept name s0 (s4\<lparr>rt_manager := (rt_manager s4)\<lparr>pm_processes := AList.update name (Child pid)
      (pm_processes (rt_manager s4)), pm_adopted := removeAll name (pm_adopted (rt_manager s4)),
      pm_logs := List.insert name (pm_logs (rt_manager s4))\<rparr>\<rparr>)" if "books s4 = books ?s" for s4 pid
  proof -
    have "rt_manager s4 = rt_manager ?s" "rt_db s4 = rt_db ?s" using that by (simp_all add: books_def)
    then show ?thesis
      using k child_ok [of "rt_manager ?s" name pid] by (auto simp: others_same_def update_conv' kept_def)
  qed
  note same = kept_books [OF _ k(1)]
  show ?case
    unfolding wp_change
  proof (rule wp_quiet [OF quiet_os_try], goal_cases)
    case (1 u s4)
    then show ?case
      by (intro wp_quiet [OF quiet_os_try]) (auto intro!: status_kept Q E intro: child same)
  qed (auto intro!: E intro: same)
qed (use s2 E kept_books in blast)

lemma start_kept:
  assumes "manager_ok (rt_manager s)"
    and Q: "\<And>st s'. \<lbrakk>kept name s s'; st_name st = name; told st (rt_manager s')\<rbrakk> \<Longrightarrow> Q st s'"
    and E: "\<And>e s'. kept name s s' \<Longrightarrow> E e s'"
  shows "wp (start env name) Q E s"
  unfolding start_def wp_seqE
proof (rule status_kept [OF kept_start [OF assms(1)]], goal_cases)
  case (1 st s1)
  show ?case
  proof (cases "st_running st")
    case True
    with 1 show ?thesis by (auto simp: wp_simps intro: Q)
  next
    case False
    with 1 have none: "map_of (pm_processes (rt_manager s1)) name = None" using told_none by metis
    have adopted: "kept name s s'" if "books s' = (adopted_books name pid (rt_manager s1), rt_db s1)" for s' pid
      using that 1(1) none by (auto simp: books_def kept_def adopted_books_ok
        intro: others_same_trans others_same_intros)
    have "wp (adopt_existing_process env name model)
        (\<lambda>adopted. wp (if adopted \<noteq> None then status env name else spawn env name model) Q E) E s1" for model
    proof (rule adopt_wp, goal_cases)
      case (1 s')
      then show ?case
        using kept_books [OF 1 \<open>kept name s s1\<close>] none by (auto simp: books_def intro!: spawn_kept Q E)
    next
      case (2 pid s')
      then show ?case by (auto intro!: status_kept Q E intro: adopted)
    next
      case (3 e s')
      then show ?case using kept_books [OF _ 1(1)] E by blast
    qed
    with False 1(1) E show ?thesis by (auto simp: wp_simps split: sum.split)
  qed
qed (rule E)

lemma stop_kept:
  assumes "manager_ok (rt_manager s)"
    and Q: "\<And>st s'. \<lbrakk>kept name s s'; st_name st = name; told st (rt_manager s')\<rbrakk> \<Longrightarrow> Q st s'"
    and E: "\<And>e s'. kept name s s' \<Longrightarrow> E e s'"
  shows "wp (stop env fuel name) Q E s"
proof -
  note same = kept_books [OF _ kept_start [OF assms(1)]]
  have forgot: "kept name s (s1\<lparr>rt_manager := (forget name (rt_manager s1))\<lparr>pm_offsets := offs\<rparr>\<rparr>)"
    if "books s1 = books s" for s1 offs
    using that assms(1) forget_ok [of "rt_manager s"] others_same_intros(2) [of name "rt_manager s"]
    by (auto simp: books_def kept_def offsets_ok others_same_def)
  have ended: "wp (case p of None \<Rightarrow> ret () | Some h \<Rightarrow> end_process env fuel h) Q' E' s"
    if "\<And>s1. books s1 = books s \<Longrightarrow> Q' () s1" "\<And>e s1. books s1 = books s \<Longrightarrow> E' e s1" for p Q' E'
    using that by (auto simp: wp_simps split: option.split intro!: wp_quiet [OF quiet_end])
  then show ?thesis
    unfolding stop_def
    by (auto simp: wp_simps split: sum.split intro!: ended status_kept Q E wp_change [THEN iffD2] intro: forgot same)
qed

lemma restart_kept:
  assumes "manager_ok (rt_manager s)"
    and Q: "\<And>st s'. \<lbrakk>kept name s s'; st_name st = name; told st (rt_manager s')\<rbrakk> \<Longrightarrow> Q st s'"
    and E: "\<And>e s'. kept name s s' \<Longrightarrow> E e s'"
  shows "wp (restart env fuel name) Q E s"
proof -
  have "wp (start env name) Q E s1" if "kept name s s1" for s1
    using that by (intro start_kept) (auto intro!: Q E simp: kept_def intro: others_same_trans)
  then show ?thesis
    unfolding restart_def wp_seqE using assms(1) by (intro stop_kept) (auto intro!: E)
qed

section \<open>Runs of the manager\<close>

text \<open>The world and the catalog change at any time; the requests come and go.\<close>

inductive manager_step :: "'w os \<Rightarrow> 'w runtime \<Rightarrow> 'w runtime \<Rightarrow> bool" for env :: "'w os" where
  status_asked: "manager_step env s (snd (status env name s))"
| model_started: "manager_step env s (snd (start env name s))"
| model_stopped: "manager_step env s (snd (stop env fuel name s))"
| model_restarted: "manager_step env s (snd (restart env fuel name s))"
| request_entered: "manager_step env s (s\<lparr>rt_manager := enter_active name (rt_manager s)\<rparr>)"
| request_left: "manager_step env s (s\<lparr>rt_manager := leave_active name (rt_manager s)\<rparr>)"
| world_moved: "manager_step env s (s\<lparr>rt_world := w\<rparr>)"
| catalog_changed: "manager_step env s (s\<lparr>rt_db := db\<rparr>)"

lemma wp_state: "wp f (\<lambda>_ s'. P s') (\<lambda>_ s'. P s') s \<longleftrightarrow> P (snd (f s))"
  by (auto simp: wp_def split: prod.splits sum.splits)

lemma manager_step_ok: "manager_step env s s' \<Longrightarrow> manager_ok (rt_manager s) \<Longrightarrow> manager_ok (rt_manager s')"
proof (induction rule: manager_step.induct)
  case (status_asked s name)
  then show ?case by - (rule wp_state [THEN iffD1], rule status_wp, simp_all add: kept_def)
next
  case (model_started s name)
  then show ?case by - (rule wp_state [THEN iffD1], rule start_kept, simp_all add: kept_def)
next
  case (model_stopped s fuel name)
  then show ?case by - (rule wp_state [THEN iffD1], rule stop_kept, simp_all add: kept_def)
next
  case (model_restarted s fuel name)
  then show ?case by - (rule wp_state [THEN iffD1], rule restart_kept, simp_all add: kept_def)
qed (simp_all add: enter_active_def leave_active_def Let_def offsets_ok)

interpretation manager: inductive_invariant "\<lambda>s. rt_manager s = new_manager" "manager_step env" "\<lambda>s. manager_ok (rt_manager s)"
  for env :: "'w os"
  by unfold_locales (auto simp: new_manager_ok intro: manager_step_ok)

text \<open>C34. At any time in the life of the manager, whatever processes end, whatever listens on the
  ports, and also after calls that raised: a status, a start, a stop or a restart that returns
  reports exactly what the books of the manager hold (running under this pid as its child or
  adopted, or not at all), the open logs are those of its children and the marks of adoption those
  of adopted processes, and the books of the other models are as they were.\<close>

theorem statuses_tell_the_books:
  assumes "rt_manager s0 = new_manager" "(manager_step env)\<^sup>*\<^sup>* s0 s"
    and "\<exists>op \<in> {status env, start env, stop env fuel, restart env fuel}. op name s = (Inr st, s')"
  shows "st_name st = name \<and> told st (rt_manager s') \<and>
    (n \<in> set (pm_logs (rt_manager s')) \<longleftrightarrow> (\<exists>pid. map_of (pm_processes (rt_manager s')) n = Some (Child pid))) \<and>
    (n \<in> set (pm_adopted (rt_manager s')) \<longleftrightarrow> (\<exists>pid. map_of (pm_processes (rt_manager s')) n = Some (Adopted pid))) \<and>
    (n \<noteq> name \<longrightarrow> map_of (pm_processes (rt_manager s')) n = map_of (pm_processes (rt_manager s)) n)"
proof -
  have ok: "manager_ok (rt_manager s)" using manager.inv_reachable [OF assms(1,2)] .
  let ?Q = "\<lambda>st s'. kept name s s' \<and> st_name st = name \<and> told st (rt_manager s')"
  have "wp op ?Q (\<lambda>_ _. True) s" if "op \<in> {status env name, start env name, stop env fuel name, restart env fuel name}" for op
    using that ok
    by (auto intro!: status_kept start_kept stop_kept restart_kept kept_start)
  then have "?Q st s'" using assms(3) by (fastforce simp: wp_def)
  then show ?thesis
    by (auto simp: kept_def manager_ok_def others_same_def)
qed

section \<open>What stopping achieves\<close>

text \<open>The behaviour of the operating system the code relies on: what reports the end of a process
  (the result of \<open>poll\<close> and \<open>wait\<close>, a signal that finds no process, the state of a zombie) is true,
  and a process that is gone stays gone, unless a new one is started.\<close>

definition os_truthful :: "'w os \<Rightarrow> ('w \<Rightarrow> int \<Rightarrow> bool) \<Rightarrow> bool" where
  "os_truthful env gone \<longleftrightarrow>
     (\<forall>pid w c. fst (os_poll env pid w) = Some c \<longrightarrow> gone (snd (os_poll env pid w)) pid) \<and>
     (\<forall>pid t w c. fst (os_wait env pid t w) = Some c \<longrightarrow> gone (snd (os_wait env pid t w)) pid) \<and>
     (\<forall>pid w. fst (os_kill env pid 0 w) = NoSuchProcess \<longrightarrow> gone (snd (os_kill env pid 0 w)) pid) \<and>
     (\<forall>pid w out. fst (os_run env [''ps'', ''-o'', ''stat='', ''-p'', str_int pid] w) = Some (0, out) \<longrightarrow>
        starts_with ''Z'' (strip out) \<longrightarrow> gone (snd (os_run env [''ps'', ''-o'', ''stat='', ''-p'', str_int pid] w)) pid) \<and>
     (\<forall>pid w. gone w pid \<longrightarrow>
        (\<forall>p. gone (snd (os_poll env p w)) pid) \<and> (\<forall>p t. gone (snd (os_wait env p t w)) pid) \<and>
        (\<forall>p sig. gone (snd (os_kill env p sig w)) pid) \<and> (\<forall>cmd. gone (snd (os_run env cmd w)) pid) \<and>
        gone (snd (os_now env w)) pid \<and> (\<forall>t. gone (snd (os_sleep env t w)) pid) \<and>
        (\<forall>l. gone (snd (os_log env l w)) pid))"

definition keeps :: "('s \<Rightarrow> bool) \<Rightarrow> ('s, 'a) eff \<Rightarrow> bool" where
  "keeps P f \<longleftrightarrow> (\<forall>s. P s \<longrightarrow> P (snd (f s)))"

named_theorems keep_rules

lemma keeps_basic [keep_rules]: "keeps P (ret x)" "keeps P (raise_exn e)"
  by (simp_all add: keeps_def ret_def raise_exn_def)

lemma keeps_ask [keep_rules]: "keeps P (ask_rt f)"
  by (simp add: keeps_def ask_rt_def)

lemma keeps_check [keep_rules]: "keeps P (check_rt h)"
  by (simp add: keeps_def check_rt_def)

lemma keeps_seqE [keep_rules]: "keeps P f \<Longrightarrow> (\<And>x. keeps P (g x)) \<Longrightarrow> keeps P (seqE f g)"
  by (auto simp: keeps_def seqE_def split: prod.splits sum.splits)

lemma keeps_wp: "keeps P f \<Longrightarrow> P s \<Longrightarrow> (\<And>x s'. P s' \<Longrightarrow> Q x s') \<Longrightarrow> (\<And>e s'. P s' \<Longrightarrow> E e s') \<Longrightarrow> wp f Q E s"
  by (auto simp: keeps_def wp_def split: prod.splits sum.splits)

abbreviation gone_at :: "('w \<Rightarrow> int \<Rightarrow> bool) \<Rightarrow> int \<Rightarrow> 'w runtime \<Rightarrow> bool" where
  "gone_at gone pid \<equiv> \<lambda>s. gone (rt_world s) pid"

lemma keeps_change [keep_rules]: "keeps (gone_at gone pid) (change f)"
  by (simp add: keeps_def change_def)

lemma keeps_calls:
  assumes "os_truthful env gone"
  shows "keeps (gone_at gone pid) (os_call (os_poll env p))" "keeps (gone_at gone pid) (os_call (os_wait env p t))"
    "keeps (gone_at gone pid) (os_call (os_kill env p sig))" "keeps (gone_at gone pid) (os_call (os_run env cmd))"
    "keeps (gone_at gone pid) (os_call (os_now env))" "keeps (gone_at gone pid) (os_call (os_sleep env t))"
    "keeps (gone_at gone pid) (os_call (os_log env l))"
  using assms by (auto simp: keeps_def os_call_def os_truthful_def split: prod.splits) (metis snd_conv)+

lemma keeps_poll [keep_rules]: "os_truthful env gone \<Longrightarrow> keeps (gone_at gone pid) (poll env h)"
  by (cases h) (auto simp: pid_is_zombie_def intro!: keep_rules keeps_calls split: kill_result.split)

lemma keeps_status [keep_rules]:
  assumes "os_truthful env gone"
  shows "keeps (gone_at gone pid) (status env name)"
proof -
  have "keeps (gone_at gone pid) (adopt_existing_process env name model)" for model
    unfolding adopt_existing_process_def find_pid_on_port_def pid_matches_model_def using assms
    by (auto intro!: keep_rules keeps_calls split: option.split list.split)
  then show ?thesis
    unfolding status_def process_for_status_def finish_status_def ready_log_marker_seen_def Let_def using assms
    by (auto intro!: keep_rules keeps_calls split: option.split)
qed

lemma wp_call: "wp (os_call f) Q E s = Q (fst (f (rt_world s))) (s\<lparr>rt_world := snd (f (rt_world s))\<rparr>)"
  by (simp add: wp_def os_call_def split: prod.splits)

lemma poll_gone:
  assumes "os_truthful env gone"
  shows "wp (poll env h) (\<lambda>r s'. r \<noteq> None \<longrightarrow> gone (rt_world s') (handle_pid h)) (\<lambda>_ _. True) s"
  using assms
  by (cases h)
     (auto simp: wp_simps wp_call pid_is_zombie_def os_truthful_def split: kill_result.split option.split)

lemma wait_adopted_gone:
  assumes "os_truthful env gone"
  shows "wp (wait_adopted env fuel pid deadline) (\<lambda>r s'. r \<noteq> None \<longrightarrow> gone (rt_world s') pid) (\<lambda>_ _. True) s"
proof (induction fuel arbitrary: s)
  case (Suc fuel)
  have "wp (case r of Some code \<Rightarrow> ret (Some code) | None \<Rightarrow>
         seqE (os_call (os_now env)) (\<lambda>now. if now \<ge> deadline then ret None
         else seqE (os_call (os_sleep env (1 / 20))) (\<lambda>_. wait_adopted env fuel pid deadline)))
      (\<lambda>r s'. r \<noteq> None \<longrightarrow> gone (rt_world s') pid) (\<lambda>_ _. True) s1"
    if "r \<noteq> None \<longrightarrow> gone (rt_world s1) pid" for r s1
    using that Suc.IH by (auto simp: wp_simps wp_call split: option.split)
  then show ?case
    using poll_gone [OF assms, of "Adopted pid" s]
    by (simp add: wp_seqE del: poll.simps) (erule wp_mono, auto)
qed (simp add: wp_simps)

lemma wait_gone:
  assumes "os_truthful env gone"
  shows "wp (wait env fuel h timeout) (\<lambda>r s'. r \<noteq> None \<longrightarrow> gone (rt_world s') (handle_pid h)) (\<lambda>_ _. True) s"
  using assms wait_adopted_gone [OF assms]
  by (cases h) (auto simp: wp_simps wp_call os_truthful_def)

lemma end_process_gone:
  assumes "os_truthful env gone"
  shows "wp (end_process env fuel h) (\<lambda>_ s'. gone (rt_world s') (handle_pid h)) (\<lambda>_ _. True) s"
proof -
  have any: "wp (signal_process env h sig) (\<lambda>_. wp f Q (\<lambda>_ _. True)) (\<lambda>_ _. True) s"
    if "\<And>s. wp f Q (\<lambda>_ _. True) s" for sig s and f :: "('a runtime, 'b) eff" and Q
    using that by (auto simp: wp_def split: prod.splits sum.splits)
  have waited: "wp (wait env fuel h t) (\<lambda>code. wp (if code \<noteq> None then ret () else m)
      (\<lambda>_ s'. gone (rt_world s') (handle_pid h)) (\<lambda>_ _. True)) (\<lambda>_ _. True) s"
    if "\<And>s. wp m (\<lambda>_ s'. gone (rt_world s') (handle_pid h)) (\<lambda>_ _. True) s" for t m s
    by (rule wp_mono [OF wait_gone [OF assms]]) (use that in \<open>auto simp: wp_simps\<close>)
  show ?thesis
    unfolding end_process_def wp_seqE
    by (rule wp_mono [OF poll_gone [OF assms, of h s]])
       (auto simp: wp_simps simp del: not_None_eq intro!: any waited)
qed

text \<open>C33. Stopping works: when \<open>stop\<close> returns, the process that the books had for the model, a child or an
  adopted one, is gone, asked to end or killed if it did not end in time; if it survives the kill
  or may not be signalled, \<open>stop\<close> raises instead of returning.\<close>

theorem stop_ends_the_process:
  assumes "os_truthful env gone" "map_of (pm_processes (rt_manager s)) name = Some h"
    and "stop env fuel name s = (Inr st, s')"
  shows "gone (rt_world s') (handle_pid h)"
proof -
  have "wp (status env name) (\<lambda>_ s'. gone (rt_world s') (handle_pid h)) (\<lambda>_ _. True) s1"
    if "gone (rt_world s1) (handle_pid h)" for s1
    by (rule keeps_wp [OF keeps_status [OF assms(1)]]) (use that in auto)
  then have "wp (stop env fuel name) (\<lambda>_ s'. gone (rt_world s') (handle_pid h)) (\<lambda>_ _. True) s"
    unfolding stop_def
    by (auto simp: wp_simps assms(2) split: sum.split intro!: wp_mono [OF end_process_gone [OF assms(1)]])
  then show ?thesis using assms(3) by (simp add: wp_def)
qed

section \<open>Waiting ends\<close>

text \<open>A clock that does not turn back and that sleeping moves on.\<close>

definition os_steady :: "'w os \<Rightarrow> ('w \<Rightarrow> rat) \<Rightarrow> bool" where
  "os_steady env ticks \<longleftrightarrow>
     (\<forall>w. fst (os_now env w) = ticks w \<and> ticks w \<le> ticks (snd (os_now env w))) \<and>
     (\<forall>t w. ticks w + t \<le> ticks (snd (os_sleep env t w))) \<and>
     (\<forall>pid sig w. ticks w \<le> ticks (snd (os_kill env pid sig w))) \<and>
     (\<forall>cmd w. ticks w \<le> ticks (snd (os_run env cmd w)))"

lemma poll_adopted_clock:
  assumes "os_steady env ticks"
  shows "wp (poll env (Adopted pid)) (\<lambda>_ s'. ticks (rt_world s) \<le> ticks (rt_world s')) (\<lambda>_ _. False) s"
proof -
  have run: "ticks w \<le> ticks (snd (os_run env cmd w1))" if "ticks w \<le> ticks w1" for w w1 cmd
    using assms that unfolding os_steady_def by (meson order_trans)
  have kill: "ticks w \<le> ticks (snd (os_kill env pid 0 w))" for w
    using assms by (simp add: os_steady_def)
  show ?thesis
    by (auto simp: wp_simps wp_call pid_is_zombie_def run kill split: kill_result.split)
qed

lemma wait_adopted_ends:
  assumes "os_steady env ticks"
  shows "deadline \<le> ticks (rt_world s) + of_nat n / 20 \<Longrightarrow>
    wp (wait_adopted env (Suc n) pid deadline) (\<lambda>_ _. True) (\<lambda>_ _. False) s"
proof (induction n arbitrary: s)
  case 0
  have "wp (poll env (Adopted pid)) (\<lambda>_ s'. deadline \<le> ticks (rt_world s')) (\<lambda>_ _. False) s"
    using poll_adopted_clock [OF assms, of pid s] by (rule wp_mono) (use 0 in auto)
  then show ?case
    unfolding wait_adopted.simps wp_seqE
    by (rule wp_mono) (use assms in \<open>auto simp: wp_simps wp_call os_steady_def split: option.split\<close>)
next
  case (Suc n)
  have "wp (poll env (Adopted pid)) (\<lambda>_ s'. deadline \<le> ticks (rt_world s') + of_nat (Suc n) / 20) (\<lambda>_ _. False) s"
    using poll_adopted_clock [OF assms, of pid s] by (rule wp_mono) (use Suc.prems in auto)
  then show ?case
    unfolding wait_adopted.simps(2) [of env "Suc n"] wp_seqE
  proof (rule wp_mono)
    fix r and s1 :: "'a runtime"
    assume s1: "deadline \<le> ticks (rt_world s1) + of_nat (Suc n) / 20"
    let ?w = "snd (os_now env (rt_world s1))"
    have "ticks (rt_world s1) \<le> ticks ?w" "ticks ?w + 1 / 20 \<le> ticks (snd (os_sleep env (1 / 20) ?w))"
      using assms by (auto simp: os_steady_def)
    then have "deadline \<le> ticks (snd (os_sleep env (1 / 20) ?w)) + of_nat n / 20"
      using s1 by (simp add: field_simps)
    then show "wp (case r of None \<Rightarrow> seqE (os_call (os_now env)) (\<lambda>now. if deadline \<le> now then ret None
        else seqE (os_call (os_sleep env (1 / 20))) (\<lambda>_. wait_adopted env (Suc n) pid deadline))
      | Some code \<Rightarrow> ret (Some code)) (\<lambda>_ _. True) (\<lambda>_ _. False) s1"
      using Suc.IH [of "s1\<lparr>rt_world := snd (os_sleep env (1 / 20) ?w)\<rparr>"]
      by (auto simp: wp_simps wp_call simp del: wait_adopted.simps split: option.split)
  qed
qed

text \<open>With the clock steady, twenty rounds for each second and one more are enough: \<open>wait\<close> returns.
  The code waits ten seconds after the request to end and five after the kill.\<close>

lemma wait_returns_in_time:
  assumes "os_steady env ticks" "timeout \<le> of_nat n / 20"
  shows "\<exists>r s'. wait env (Suc n) h timeout s = (Inr r, s')"
proof (cases h)
  case (Child pid)
  then show ?thesis by (cases "os_wait env pid timeout (rt_world s)") (simp add: os_call_def)
next
  case (Adopted pid)
  let ?w = "snd (os_now env (rt_world s))"
  have "ticks (rt_world s) + timeout \<le> ticks ?w + of_nat n / 20"
    using assms unfolding os_steady_def by (meson add_mono)
  then have "wp (wait env (Suc n) h timeout) (\<lambda>_ _. True) (\<lambda>_ _. False) s"
    using wait_adopted_ends [OF assms(1), of _ "s\<lparr>rt_world := ?w\<rparr>" n pid] assms(1)
    by (simp add: Adopted wp_simps wp_call os_steady_def del: wait_adopted.simps)
  then show ?thesis
    by (cases "wait env (Suc n) h timeout s") (auto simp: wp_def split: sum.splits)
qed

section \<open>Requests in flight\<close>

datatype tracked = Entered string | Left string

fun track :: "tracked \<Rightarrow> manager \<Rightarrow> manager" where
  "track (Entered n) m = enter_active n m"
| "track (Left n) m = leave_active n m"

definition open_requests :: "tracked list \<Rightarrow> string \<Rightarrow> int" where
  "open_requests es n = int (count_list es (Entered n)) - int (count_list es (Left n))"

text \<open>A context manager is left once for every time it was entered, and after it.\<close>

definition bracketed :: "tracked list \<Rightarrow> bool" where
  "bracketed es \<longleftrightarrow> (\<forall>k n. 0 \<le> open_requests (take k es) n)"

lemma active_exact:
  "bracketed es \<Longrightarrow> active_count (fold track es new_manager) n = open_requests es n \<and>
     (\<forall>c. map_of (pm_active (fold track es new_manager)) n = Some c \<longrightarrow> 0 < c)"
proof (induction es arbitrary: n rule: rev_induct)
  case Nil
  then show ?case by (simp add: active_count_def new_manager_def open_requests_def)
next
  case (snoc e es)
  have "bracketed es"
    unfolding bracketed_def
  proof (intro allI)
    fix k n
    have "take (min k (length es)) (es @ [e]) = take k es" by (simp add: min_def)
    then show "0 \<le> open_requests (take k es) n" using snoc.prems unfolding bracketed_def by metis
  qed
  note IH = snoc.IH [OF this]
  have now: "0 \<le> open_requests (es @ [e]) m" for m
    using snoc.prems unfolding bracketed_def by (metis append_Nil2 take_all_iff order_refl)
  have before: "0 \<le> open_requests es m" for m
    using \<open>bracketed es\<close> unfolding bracketed_def by (metis take_all_iff order_refl)
  show ?case
  proof (cases e)
    case (Entered m)
    then show ?thesis
      using IH [of n] IH [of m] before [of m]
      by (auto simp: enter_active_def active_count_def update_conv' open_requests_def)
  next
    case (Left m)
    then show ?thesis
      using IH [of n] IH [of m] now [of m]
      by (auto simp: leave_active_def active_count_def Let_def update_conv' delete_conv' open_requests_def
          split: if_splits)
  qed
qed

end
