(* ===== verification/Asset_Safety.thy ===== *)
theory Asset_Safety
  imports Asset_Store
begin

text \<open>
  The tables of model files keep their keys: an upsert changes the row of its key and no other,
  ids and keys stay unique over every sequence of operations, and files a model needs are not
  forgotten. The four upserts have one contract, the locale \<open>upsert_table\<close>.
\<close>

section \<open>The contract of an upsert\<close>

locale upsert_table =
  fixes key :: "'r \<Rightarrow> 'k"
    and ident :: "'r \<Rightarrow> string"
    and arg_key :: "'x \<Rightarrow> 'k"
    and new :: "'x \<Rightarrow> string \<Rightarrow> int \<Rightarrow> 'r"
    and over :: "'x \<Rightarrow> int \<Rightarrow> 'r \<Rightarrow> 'r"
  assumes new_key: "key (new x i now) = arg_key x"
    and new_ident: "ident (new x i now) = i"
    and over_key: "key (over x now r) = arg_key x"
    and over_ident: "ident (over x now r) = ident r"
begin

abbreviation put :: "'x \<Rightarrow> string \<Rightarrow> int \<Rightarrow> 'r list \<Rightarrow> 'r list" where
  "put x i now rows \<equiv> put_row (\<lambda>r. key r = arg_key x) (over x now) (new x i now) rows"

lemma put_cases:
  "put x i now rows = (if arg_key x \<in> key ` set rows
     then map_if (\<lambda>r. key r = arg_key x) (over x now) rows else rows @ [new x i now])"
  by (auto simp: put_row_def find_None_iff find_Some_iff split: option.splits) (metis nth_mem image_eqI)

lemma over_keys: "map key (map_if (\<lambda>r. key r = arg_key x) (over x now) rows) = map key rows"
  by (induction rows) (auto simp: over_key)

lemma put_keys:
  "map key (put x i now rows) = map key rows @ (if arg_key x \<in> key ` set rows then [] else [arg_key x])"
  by (simp add: put_cases over_keys new_key)

lemma put_idents:
  "map ident (put x i now rows) = map ident rows @ (if arg_key x \<in> key ` set rows then [] else [i])"
  by (simp add: put_cases map_map_if over_ident new_ident)

lemma put_distinct:
  assumes "distinct (map key rows)" "distinct (map ident rows)" "i \<notin> set (map ident rows)"
  shows "distinct (map key (put x i now rows))" "distinct (map ident (put x i now rows))"
  using assms by (auto simp: put_keys put_idents)

lemma put_found:
  "List.find (\<lambda>r. key r = arg_key x) (put x i now rows)
   = Some (case List.find (\<lambda>r. key r = arg_key x) rows of None \<Rightarrow> new x i now | Some r \<Rightarrow> over x now r)"
  by (induction rows) (auto simp: put_row_def new_key over_key split: option.splits)

lemma put_other:
  assumes "k \<noteq> arg_key x"
  shows "List.find (\<lambda>r. key r = k) (put x i now rows) = List.find (\<lambda>r. key r = k) rows"
proof -
  have "List.find (\<lambda>r. key r = k) (map_if (\<lambda>r. key r = arg_key x) (over x now) rows) = List.find (\<lambda>r. key r = k) rows"
    using assms by (induction rows) (auto simp: over_key)
  moreover have "List.find (\<lambda>r. key r = k) (rows @ [new x i now]) = List.find (\<lambda>r. key r = k) rows"
    using assms by (induction rows) (auto simp: new_key)
  ultimately show ?thesis by (simp add: put_cases)
qed

text \<open>What an upsert returns: the row of its key, read back by its id.\<close>

lemma put_read_back:
  assumes "distinct (map ident rows)" "distinct (map key rows)" "i \<notin> ident ` set rows"
  shows "List.find (\<lambda>r. ident r = (case List.find (\<lambda>r. key r = arg_key x) rows of None \<Rightarrow> i | Some r \<Rightarrow> ident r))
      (put x i now rows)
    = Some (case List.find (\<lambda>r. key r = arg_key x) rows of None \<Rightarrow> new x i now | Some r \<Rightarrow> over x now r)"
proof (cases "List.find (\<lambda>r. key r = arg_key x) rows")
  case None
  then have "arg_key x \<notin> key ` set rows" by (auto simp: find_None_iff)
  with None assms(3) show ?thesis by (induction rows) (auto simp: put_cases new_ident)
next
  case (Some r)
  then have r: "r \<in> set rows" "key r = arg_key x" by (auto dest: find_Some_iff')
  then have "over x now r \<in> set (put x i now rows)"
    by (auto simp: put_cases set_map_if image_iff)
  moreover have "distinct (map ident (put x i now rows))" using assms by (intro put_distinct) auto
  ultimately have "List.find (\<lambda>q. ident q = ident r) (put x i now rows) = Some (over x now r)"
    using find_unique by (metis over_ident)
  with Some show ?thesis by simp
qed

end

interpretation asset_table: upsert_table as_path as_id as_path new_asset asset_over
  by unfold_locales (simp_all add: new_asset_def asset_over_def asset_fields.defs asset.defs)

interpretation model_table: upsert_table mo_name mo_id mo_name new_model model_over
  by unfold_locales (simp_all add: new_model_def model_over_def model_fields.defs model.defs)

interpretation profile_table: upsert_table "\<lambda>p. (pr_model p, pr_key p)" pr_id
    "\<lambda>x. (pr_model x, pr_key x)" new_profile profile_over
  by unfold_locales (simp_all add: new_profile_def profile_over_def profile_fields.defs profile.defs)

interpretation deployment_table: upsert_table "\<lambda>d. (de_model d, de_name d)" de_id
    "\<lambda>x. (de_model x, de_name x)" new_deployment deployment_over
  by unfold_locales (simp_all add: new_deployment_def deployment_over_def deployment_fields.defs deployment.defs)

section \<open>The tables\<close>

definition asset_ids :: "asset_db \<Rightarrow> string set" where
  "asset_ids db = as_id ` set (ad_assets db) \<union> mo_id ` set (ad_models db) \<union> pr_id ` set (ad_profiles db)
     \<union> de_id ` set (ad_deployments db) \<union> pv_id ` set (ad_provenance db)"

definition mentions :: "provenance \<Rightarrow> string set" where
  "mentions v = insert (pv_output v) (set_option (pv_source v))"

text \<open>Ids and keys are unique and were drawn, and provenance speaks of files that are on record.\<close>

definition assets_ok :: "asset_db \<Rightarrow> bool" where
  "assets_ok db \<longleftrightarrow>
     distinct (map as_id (ad_assets db)) \<and> distinct (map as_path (ad_assets db)) \<and>
     distinct (map mo_id (ad_models db)) \<and> distinct (map mo_name (ad_models db)) \<and>
     distinct (map pr_id (ad_profiles db)) \<and> distinct (map (\<lambda>p. (pr_model p, pr_key p)) (ad_profiles db)) \<and>
     distinct (map de_id (ad_deployments db)) \<and> distinct (map (\<lambda>d. (de_model d, de_name d)) (ad_deployments db)) \<and>
     distinct (map pv_id (ad_provenance db)) \<and>
     (\<forall>i \<in> asset_ids db. \<exists>k < ad_next db. i = nat_digits k) \<and>
     (\<forall>v \<in> set (ad_provenance db). mentions v \<subseteq> as_id ` set (ad_assets db))"

lemma assets_okD:
  assumes "assets_ok db"
  shows "distinct (map as_id (ad_assets db))" "distinct (map as_path (ad_assets db))"
    "distinct (map mo_id (ad_models db))" "distinct (map mo_name (ad_models db))"
    "distinct (map pr_id (ad_profiles db))" "distinct (map (\<lambda>p. (pr_model p, pr_key p)) (ad_profiles db))"
    "distinct (map de_id (ad_deployments db))" "distinct (map (\<lambda>d. (de_model d, de_name d)) (ad_deployments db))"
    "distinct (map pv_id (ad_provenance db))"
    "\<And>i. i \<in> asset_ids db \<Longrightarrow> \<exists>k < ad_next db. i = nat_digits k"
    "\<And>v. v \<in> set (ad_provenance db) \<Longrightarrow> mentions v \<subseteq> as_id ` set (ad_assets db)"
  using assms unfolding assets_ok_def by auto

lemma next_unused: "assets_ok db \<Longrightarrow> nat_digits (ad_next db) \<notin> asset_ids db"
  by (fastforce dest: assets_okD(10))

lemmas next_fresh = next_unused [unfolded asset_ids_def, simplified]

lemma ids_grow:
  assumes "assets_ok db" "asset_ids db' \<subseteq> insert (nat_digits (ad_next db)) (asset_ids db)"
    "ad_next db' = Suc (ad_next db)"
  shows "\<forall>i \<in> asset_ids db'. \<exists>k < ad_next db'. i = nat_digits k"
  using assms assets_okD(10) [OF assms(1)] by (fastforce simp: less_Suc_eq)

lemma same_profile_key: "same_profile x = (\<lambda>p. (pr_model p, pr_key p) = (pr_model x, pr_key x))"
  by (auto simp: same_profile_def)

lemma same_deployment_key: "same_deployment x = (\<lambda>d. (de_model d, de_name d) = (de_model x, de_name x))"
  by (auto simp: same_deployment_def)

lemma put_ident_set:
  assumes "map ident rows' = map ident rows @ (if c then [] else [i])"
  shows "ident ` set rows' \<subseteq> insert i (ident ` set rows)" "ident ` set rows \<subseteq> ident ` set rows'"
  using arg_cong [OF assms, of set] by (auto split: if_splits)

lemma upsert_asset_ok:
  assumes "assets_ok db" shows "assets_ok (snd (upsert_asset now x db))"
proof -
  let ?rows = "put_row (\<lambda>a. as_path a = as_path x) (asset_over x now) (new_asset x (nat_digits (ad_next db)) now) (ad_assets db)"
  note set = put_ident_set [OF asset_table.put_idents [of x now "nat_digits (ad_next db)" "ad_assets db"]]
  have "distinct (map as_path ?rows)" "distinct (map as_id ?rows)"
    using assms next_fresh [OF assms] by (auto intro!: asset_table.put_distinct dest: assets_okD)
  moreover have "\<forall>i \<in> asset_ids (snd (upsert_asset now x db)). \<exists>k < ad_next (snd (upsert_asset now x db)). i = nat_digits k"
    using set(1) by (intro ids_grow [OF assms]) (auto simp: upsert_asset_def Let_def asset_ids_def)
  moreover have "\<forall>v \<in> set (ad_provenance db). mentions v \<subseteq> as_id ` set ?rows"
    using assets_okD(11) [OF assms] set(2) by blast
  ultimately show ?thesis
    using assets_okD(1-9) [OF assms] unfolding assets_ok_def by (simp add: upsert_asset_def Let_def)
qed

lemma upsert_model_ok:
  assumes "assets_ok db" shows "assets_ok (snd (upsert_model now x db))"
proof -
  let ?rows = "put_row (\<lambda>a. mo_name a = mo_name x) (model_over x now) (new_model x (nat_digits (ad_next db)) now) (ad_models db)"
  note set = put_ident_set [OF model_table.put_idents [of x now "nat_digits (ad_next db)" "ad_models db"]]
  have "distinct (map mo_name ?rows)" "distinct (map mo_id ?rows)"
    using assms next_fresh [OF assms] by (auto intro!: model_table.put_distinct dest: assets_okD)
  moreover have "\<forall>i \<in> asset_ids (snd (upsert_model now x db)). \<exists>k < ad_next (snd (upsert_model now x db)). i = nat_digits k"
    using set(1) by (intro ids_grow [OF assms]) (auto simp: upsert_model_def Let_def asset_ids_def)
  ultimately show ?thesis
    using assms unfolding assets_ok_def by (simp add: upsert_model_def Let_def)
qed

lemma upsert_profile_ok:
  assumes "assets_ok db" shows "assets_ok (snd (upsert_model_profile now x db))"
proof -
  let ?rows = "put_row (\<lambda>p. (pr_model p, pr_key p) = (pr_model x, pr_key x)) (profile_over x now)
    (new_profile x (nat_digits (ad_next db)) now) (ad_profiles db)"
  note set = put_ident_set [OF profile_table.put_idents [of x now "nat_digits (ad_next db)" "ad_profiles db"]]
  have "distinct (map (\<lambda>p. (pr_model p, pr_key p)) ?rows)" "distinct (map pr_id ?rows)"
    using assms next_fresh [OF assms] by (auto intro!: profile_table.put_distinct dest: assets_okD simp del: prod.inject)
  moreover have "\<forall>i \<in> asset_ids (snd (upsert_model_profile now x db)).
      \<exists>k < ad_next (snd (upsert_model_profile now x db)). i = nat_digits k"
    using set(1)
    by (intro ids_grow [OF assms]) (auto simp: upsert_model_profile_def Let_def asset_ids_def same_profile_key)
  ultimately show ?thesis
    using assms unfolding assets_ok_def by (simp add: upsert_model_profile_def Let_def same_profile_key)
qed

lemma upsert_deployment_ok:
  assumes "assets_ok db" shows "assets_ok (snd (upsert_model_deployment now x db))"
proof -
  let ?rows = "put_row (\<lambda>d. (de_model d, de_name d) = (de_model x, de_name x)) (deployment_over x now)
    (new_deployment x (nat_digits (ad_next db)) now) (ad_deployments db)"
  note set = put_ident_set [OF deployment_table.put_idents [of x now "nat_digits (ad_next db)" "ad_deployments db"]]
  have "distinct (map (\<lambda>d. (de_model d, de_name d)) ?rows)" "distinct (map de_id ?rows)"
    using assms next_fresh [OF assms] by (auto intro!: deployment_table.put_distinct dest: assets_okD simp del: prod.inject)
  moreover have "\<forall>i \<in> asset_ids (snd (upsert_model_deployment now x db)).
      \<exists>k < ad_next (snd (upsert_model_deployment now x db)). i = nat_digits k"
    using set(1)
    by (intro ids_grow [OF assms]) (auto simp: upsert_model_deployment_def Let_def asset_ids_def same_deployment_key)
  ultimately show ?thesis
    using assms unfolding assets_ok_def by (simp add: upsert_model_deployment_def Let_def same_deployment_key)
qed

lemma record_provenance_ok:
  assumes "assets_ok db"
  shows "assets_ok (snd (record_asset_provenance now out src src_model kind ref detail db))"
proof (cases "bindE (require_asset_id db ''output_asset_id'' (Some out)) (\<lambda>_.
    bindE (require_asset_id db ''source_asset_id'' src) (\<lambda>_. require_model_id db ''source_model_id'' src_model))")
  case (Inl e)
  then show ?thesis using assms by (simp add: record_asset_provenance_def)
next
  case (Inr u)
  let ?db = "snd (record_asset_provenance now out src src_model kind ref detail db)"
  have known: "out \<in> as_id ` set (ad_assets db)" "\<And>i. src = Some i \<Longrightarrow> i \<in> as_id ` set (ad_assets db)"
    using Inr by (auto simp: bindE_Inr require_asset_id_def split: if_splits option.splits)
  have "\<forall>i \<in> asset_ids ?db. \<exists>k < ad_next ?db. i = nat_digits k"
    using Inr by (intro ids_grow [OF assms]) (auto simp: record_asset_provenance_def Let_def asset_ids_def)
  then show ?thesis
    using assms known next_fresh [OF assms] Inr
    unfolding assets_ok_def by (auto simp: record_asset_provenance_def Let_def mentions_def)
qed

text \<open>Changing other columns keeps the tables in order, and so does deleting rows together with
  what speaks of them.\<close>

lemma change_columns_ok:
  assumes "assets_ok db" "\<And>a. as_id (f a) = as_id a \<and> as_path (f a) = as_path a"
    and "\<And>m. mo_id (g m) = mo_id m \<and> mo_name (g m) = mo_name m"
  shows "assets_ok (db\<lparr>ad_assets := map_if p f (ad_assets db), ad_models := map_if q g (ad_models db)\<rparr>)"
proof -
  have "map as_id (map_if p f (ad_assets db)) = map as_id (ad_assets db)"
    "map mo_id (map_if q g (ad_models db)) = map mo_id (ad_models db)"
    using assms(2,3) by (auto intro!: map_map_if)
  then have "as_id ` set (map_if p f (ad_assets db)) = as_id ` set (ad_assets db)"
    "mo_id ` set (map_if q g (ad_models db)) = mo_id ` set (ad_models db)"
    by (metis list.set_map)+
  then show ?thesis
    using assms unfolding assets_ok_def by (simp add: map_map_if asset_ids_def)
qed

lemma delete_rows_ok:
  assumes "assets_ok db"
  shows "assets_ok (db\<lparr>ad_assets := filter (\<lambda>a. as_id a \<notin> D) (ad_assets db),
    ad_provenance := filter (\<lambda>v. mentions v \<inter> D = {}) (ad_provenance db),
    ad_models := filter q (ad_models db)\<rparr>)"
proof -
  have "asset_ids (db\<lparr>ad_assets := filter (\<lambda>a. as_id a \<notin> D) (ad_assets db),
    ad_provenance := filter (\<lambda>v. mentions v \<inter> D = {}) (ad_provenance db),
    ad_models := filter q (ad_models db)\<rparr>) \<subseteq> asset_ids db"
    by (auto simp: asset_ids_def)
  moreover have "mentions v \<subseteq> as_id ` set (filter (\<lambda>a. as_id a \<notin> D) (ad_assets db))"
    if "v \<in> set (ad_provenance db)" "mentions v \<inter> D = {}" for v
    using assets_okD(11) [OF assms that(1)] that(2) by (auto simp: image_iff)
  ultimately show ?thesis
    using assms unfolding assets_ok_def by (auto simp: distinct_map_filter)
qed

section \<open>Deleting stale rows\<close>

definition long_unseen :: "int \<Rightarrow> asset \<Rightarrow> bool" where
  "long_unseen cutoff a \<longleftrightarrow> max (as_seen a) (as_scanned a) \<le> cutoff"

definition needed :: "asset_db \<Rightarrow> asset \<Rightarrow> bool" where
  "needed db a \<longleftrightarrow>
     (\<exists>m \<in> set (ad_models db). Some (as_id a) \<in> {mo_asset m, mo_mmproj_asset m, mo_draft_asset m})"

lemma needed_refers: "needed db a \<longleftrightarrow> (\<exists>m \<in> set (ad_models db). refers_to m (as_id a))"
  by (auto simp: needed_def refers_to_def eq_commute [of "Some (as_id a)"])

definition without :: "string set \<Rightarrow> asset_db \<Rightarrow> asset_db" where
  "without D db = db\<lparr>ad_assets := filter (\<lambda>a. as_id a \<notin> D) (ad_assets db),
     ad_provenance := filter (\<lambda>v. mentions v \<inter> D = {}) (ad_provenance db)\<rparr>"

lemma without_without: "without E (without D db) = without (D \<union> E) db"
  by (simp add: without_def Int_Un_distrib conj_commute)

lemma needed_without [simp]: "needed (without D db) = needed db"
  by (simp add: needed_def without_def fun_eq_iff)

lemma delete_stale_loop_eq:
  "delete_stale_loop cutoff rows (deleted, skipped) db =
     ((deleted @ map as_id (filter (\<lambda>a. long_unseen cutoff a \<and> \<not> needed db a) rows),
       skipped @ map as_id (filter (\<lambda>a. long_unseen cutoff a \<and> needed db a) rows)),
      without (as_id ` set (filter (\<lambda>a. long_unseen cutoff a \<and> \<not> needed db a) rows)) db)"
proof (induction rows arbitrary: deleted skipped db)
  case Nil
  show ?case by (simp add: without_def)
next
  case (Cons a rows)
  have one: "db\<lparr>ad_provenance := filter (\<lambda>v. pv_output v \<noteq> as_id a \<and> pv_source v \<noteq> Some (as_id a)) (ad_provenance db),
      ad_assets := filter (\<lambda>b. as_id b \<noteq> as_id a) (ad_assets db)\<rparr> = without {as_id a} db"
    by (simp add: without_def mentions_def eq_commute [of "as_id a"])
  show ?case
    by (cases "max (as_seen a) (as_scanned a) > cutoff"; cases "needed db a")
       (auto simp: Cons.IH one without_without long_unseen_def needed_refers [symmetric])
qed

lemma delete_stale_ok:
  assumes "assets_ok db" shows "assets_ok (snd (delete_stale_missing_assets now n db))"
  using delete_rows_ok [OF assms, where q = "\<lambda>_. True"]
  by (simp add: delete_stale_missing_assets_def delete_stale_loop_eq without_def)

definition stale :: "int \<Rightarrow> int \<Rightarrow> asset \<Rightarrow> bool" where
  "stale now n a \<longleftrightarrow> as_missing a \<and> long_unseen (now - n * 1000000) a"

text \<open>C37. The cleaning of rows whose file is gone deletes exactly the rows that are marked missing, were
  last seen before the cutoff and are used by no model, neither as its file nor as its projector or
  draft; it reports what it deleted and what it kept for a model, and it deletes the provenance that
  speaks of a deleted row and nothing else.\<close>

theorem stale_deletion_exact:
  assumes "assets_ok db"
  shows "delete_stale_missing_assets now n db =
    ((sort (map as_id (filter (\<lambda>a. stale now n a \<and> \<not> needed db a) (ad_assets db))),
      sort (map as_id (filter (\<lambda>a. stale now n a \<and> needed db a) (ad_assets db)))),
     db\<lparr>ad_assets := filter (\<lambda>a. \<not> stale now n a \<or> needed db a) (ad_assets db),
        ad_provenance := filter (\<lambda>v. \<forall>a \<in> set (ad_assets db). as_id a \<in> mentions v \<longrightarrow> \<not> stale now n a \<or> needed db a)
          (ad_provenance db)\<rparr>)"
proof -
  let ?gone = "filter (\<lambda>a. stale now n a \<and> \<not> needed db a) (ad_assets db)"
  have "as_id a \<in> as_id ` set ?gone \<longleftrightarrow> stale now n a \<and> \<not> needed db a" if "a \<in> set (ad_assets db)" for a
    using distinct_map_unique [OF assets_okD(1) [OF assms] that] that by auto
  then have "without (as_id ` set ?gone) db
    = db\<lparr>ad_assets := filter (\<lambda>a. \<not> stale now n a \<or> needed db a) (ad_assets db),
        ad_provenance := filter (\<lambda>v. \<forall>a \<in> set (ad_assets db). as_id a \<in> mentions v \<longrightarrow> \<not> stale now n a \<or> needed db a)
          (ad_provenance db)\<rparr>"
    unfolding without_def by (auto intro!: arg_cong2 [where f = "\<lambda>x y. db\<lparr>ad_assets := x, ad_provenance := y\<rparr>"] filter_cong)
  then show ?thesis
    by (simp add: delete_stale_missing_assets_def delete_stale_loop_eq stale_def conj_commute conj_left_commute)
qed

section \<open>Every sequence of operations\<close>

inductive asset_step :: "asset_db \<Rightarrow> asset_db \<Rightarrow> bool" where
  asset_upserted: "asset_step db (snd (upsert_asset now x db))"
| metadata_updated: "asset_step db (snd (update_asset_metadata i line db))"
| marked_missing: "asset_step db (snd (mark_missing_assets ids db))"
| stale_deleted: "asset_step db (snd (delete_stale_missing_assets now n db))"
| model_upserted: "asset_step db (snd (upsert_model now m db))"
| links_updated: "asset_step db (snd (update_model_companion_links now i a b c ca cb cc db))"
| model_deleted: "asset_step db (snd (delete_model_by_name name db))"
| profile_upserted: "asset_step db (snd (upsert_model_profile now pr db))"
| deployment_upserted: "asset_step db (snd (upsert_model_deployment now de db))"
| provenance_recorded: "asset_step db (snd (record_asset_provenance now out src sm kind ref detail db))"

lemma asset_columns_ok:
  "\<lbrakk>assets_ok db; \<And>a. as_id (f a) = as_id a \<and> as_path (f a) = as_path a\<rbrakk>
     \<Longrightarrow> assets_ok (db\<lparr>ad_assets := map_if p f (ad_assets db)\<rparr>)"
  using change_columns_ok [of db f id "\<lambda>_. False" p] by (simp add: map_if_def)

lemma model_columns_ok:
  "\<lbrakk>assets_ok db; \<And>m. mo_id (g m) = mo_id m \<and> mo_name (g m) = mo_name m\<rbrakk>
     \<Longrightarrow> assets_ok (db\<lparr>ad_models := map_if q g (ad_models db)\<rparr>)"
  using change_columns_ok [of db id g q "\<lambda>_. False"] by (simp add: map_if_def)

lemma asset_step_ok: "asset_step db db' \<Longrightarrow> assets_ok db \<Longrightarrow> assets_ok db'"
proof (induction rule: asset_step.induct)
  case (metadata_updated db i line)
  then show ?case by (auto simp: update_asset_metadata_def Let_def intro!: asset_columns_ok split: option.split)
next
  case (marked_missing db ids)
  then show ?case by (auto simp: mark_missing_assets_def intro!: asset_columns_ok)
next
  case (links_updated db now i a b c ca cb cc)
  then show ?case
    by (auto simp: update_model_companion_links_def Let_def intro!: model_columns_ok split: sum.split)
next
  case (model_deleted db name)
  then show ?case
    using delete_rows_ok [where D = "{}"] by (auto simp: delete_model_by_name_def split: option.split)
qed (simp_all add: upsert_asset_ok upsert_model_ok upsert_profile_ok upsert_deployment_ok record_provenance_ok
    delete_stale_ok)

lemma empty_assets_ok: "assets_ok empty_assets"
  by (simp add: empty_assets_def assets_ok_def asset_ids_def)

interpretation asset_db: inductive_invariant "\<lambda>db. db = empty_assets" asset_step assets_ok
  by unfold_locales (auto intro: asset_step_ok simp: empty_assets_ok)


section \<open>What an upsert does\<close>

lemma new_fields:
  "as_size (new_asset x i now) = as_size x" "as_sha (new_asset x i now) = as_sha x"
  "\<not> as_missing (new_asset x i now)" "as_seen (new_asset x i now) = now"
  "as_size (asset_over x now a) = as_size x" "as_sha (asset_over x now a) = as_sha x"
  "\<not> as_missing (asset_over x now a)" "as_seen (asset_over x now a) = now"
  "model_fields.truncate (new_model y i now) = y" "model_fields.truncate (model_over y now m) = y"
  by (simp_all add: new_asset_def asset_over_def asset_fields.defs asset.defs new_model_def model_over_def
      model_fields.defs model.defs)

lemma asset_upsert_row:
  fixes now :: int and x :: asset_fields
  assumes "assets_ok db"
  defines "a \<equiv> case get_asset_by_path db (as_path x) of
      None \<Rightarrow> new_asset x (nat_digits (ad_next db)) now | Some r \<Rightarrow> asset_over x now r"
  shows "fst (upsert_asset now x db) = Inr a"
    and "get_asset_by_path (snd (upsert_asset now x db)) (as_path x) = Some a"
    and "p \<noteq> as_path x \<Longrightarrow> get_asset_by_path (snd (upsert_asset now x db)) p = get_asset_by_path db p"
  using asset_table.put_read_back [of "ad_assets db" "nat_digits (ad_next db)" x now]
    asset_table.put_other [of p x] next_fresh [OF assms(1)] assets_okD(1,2) [OF assms(1)]
  by (simp_all add: upsert_asset_def Let_def get_asset_by_path_def asset_table.put_found get_asset_def found_def a_def)

lemma model_upsert_row:
  fixes now :: int and x :: model_fields
  assumes "assets_ok db"
  defines "m \<equiv> case get_model_by_name db (mo_name x) of
      None \<Rightarrow> new_model x (nat_digits (ad_next db)) now | Some r \<Rightarrow> model_over x now r"
  shows "fst (upsert_model now x db) = Inr m"
    and "get_model_by_name (snd (upsert_model now x db)) (mo_name x) = Some m"
    and "n \<noteq> mo_name x \<Longrightarrow> get_model_by_name (snd (upsert_model now x db)) n = get_model_by_name db n"
  using model_table.put_read_back [of "ad_models db" "nat_digits (ad_next db)" x now]
    model_table.put_other [of n x] next_fresh [OF assms(1)] assets_okD(3,4) [OF assms(1)]
  by (simp_all add: upsert_model_def Let_def get_model_by_name_def model_table.put_found get_model_def found_def m_def)

text \<open>An upsert of a model leaves under its name exactly the fields it was given, and every other
  model as it was.\<close>

lemma model_upsert_exact:
  assumes "assets_ok db"
  shows "\<exists>m. fst (upsert_model now x db) = Inr m \<and> model_fields.truncate m = x \<and>
      get_model_by_name (snd (upsert_model now x db)) (mo_name x) = Some m"
    and "n \<noteq> mo_name x \<Longrightarrow> get_model_by_name (snd (upsert_model now x db)) n = get_model_by_name db n"
  using model_upsert_row [OF assms] by (simp_all add: new_fields split: option.split)

end
