(* ===== verification/Catalog_Safety.thy ===== *)
theory Catalog_Safety
  imports Model_Catalog Asset_Safety
begin

text \<open>
  Every identity that the catalog lists has a configuration, if the rows of its model are complete,
  and marking a favourite changes nothing else, except that it forgets the capacity.
\<close>

section \<open>Identities\<close>

definition tiers :: "string list" where
  "tiers = [''low'', ''medium'', ''high'']"

text \<open>A model with what a configuration needs: a name without a colon, files on record, and values that
  pydantic accepts.\<close>

definition registered :: "asset_db \<Rightarrow> string \<Rightarrow> bool" where
  "registered db i \<longleftrightarrow> i \<noteq> [] \<and> (\<exists>a. get_asset db i = Inr a)"

definition model_complete :: "asset_db \<Rightarrow> model \<Rightarrow> bool" where
  "model_complete db m \<longleftrightarrow>
     CHR '':'' \<notin> set (mo_name m) \<and>
     (\<exists>i. mo_asset m = Some i \<and> registered db i) \<and>
     (\<forall>i. mo_mmproj_asset m = Some i \<longrightarrow> registered db i) \<and>
     (\<forall>i. mo_draft_asset m = Some i \<longrightarrow> registered db i) \<and>
     one_of [''on'', ''off'', ''auto''] (mo_reasoning m) \<and> one_of tiers (mo_cost_tier m) \<and>
     (\<forall>p \<in> set (list_model_profiles db (mo_id m)). pr_key p \<noteq> [] \<and> one_of tiers (pr_cost_tier p))"

lemma partition_on_none: "c \<notin> set s \<Longrightarrow> partition_on c s = (s, [], [])"
proof -
  assume "c \<notin> set s"
  then have "dropWhile (\<lambda>x. x \<noteq> c) s = []" by (auto simp: dropWhile_eq_Nil_conv)
  then show ?thesis by (simp only: partition_on_def list.case)
qed

lemma partition_on_first:
  assumes "c \<notin> set a"
  shows "partition_on c (a @ c # b) = (a, [c], b)"
proof -
  have "\<forall>x \<in> set a. x \<noteq> c" using assms by auto
  then have "dropWhile (\<lambda>x. x \<noteq> c) (a @ c # b) = c # b" "takeWhile (\<lambda>x. x \<noteq> c) (a @ c # b) = a"
    by (simp_all add: dropWhile_append2 takeWhile_append2)
  then show ?thesis by (simp add: partition_on_def)
qed

lemma asset_path_of_registered: "(\<forall>i. v = Some i \<longrightarrow> registered db i) \<Longrightarrow> \<exists>p. asset_path_of db v = Inr p"
  by (auto simp: asset_path_of_def registered_def split: option.split list.split) fastforce?

lemma update_values: "snd ` set (AList.update k v al) \<subseteq> insert v (snd ` set al)"
  by (induction al) auto

lemma profile_map_complete:
  assumes "\<forall>p \<in> set ps. one_of tiers (pr_cost_tier p)" "\<forall>c \<in> snd ` set done. one_of tiers (pc_cost_tier c)"
  shows "\<exists>r. profile_map ds ps done = Inr r \<and> fst ` set r = fst ` set done \<union> pr_key ` set ps \<and>
    (\<forall>c \<in> snd ` set r. one_of tiers (pc_cost_tier c))"
  using assms
proof (induction ps arbitrary: "done")
  case (Cons p ps)
  obtain c where c: "profile_entry ds p = Inr (pr_key p, c)" "one_of tiers (pc_cost_tier c)"
    using Cons.prems(1) by (simp add: profile_entry_def check_profile_def tiers_def)
  have "\<forall>x \<in> snd ` set (AList.update (pr_key p) c done). one_of tiers (pc_cost_tier x)"
    using Cons.prems(2) c(2) update_values [of "pr_key p" c "done"] by blast
  then show ?case
    using Cons.IH [of "AList.update (pr_key p) c done"] Cons.prems(1) c(1)
    by (auto simp: dom_update)
qed auto

lemma base_config_complete:
  assumes "model_complete db m"
  shows "\<exists>c. base_config db m a key = Inr c \<and>
    fst ` set (mc_profiles c) = pr_key ` set (list_model_profiles db (mo_id m)) \<and>
    (\<forall>p \<in> snd ` set (mc_profiles c). one_of tiers (pc_cost_tier p)) \<and>
    one_of tiers (mc_cost_tier c) \<and> one_of [''on'', ''off'', ''auto''] (mc_reasoning c) \<and>
    (\<forall>s. mc_speculative c = Some s \<longrightarrow> mc_mtp c = Some True)"
proof -
  let ?ds = "list_model_deployments db (mo_id m)"
  obtain r where r: "profile_map ?ds (list_model_profiles db (mo_id m)) [] = Inr r"
      "fst ` set r = pr_key ` set (list_model_profiles db (mo_id m))" "\<forall>c \<in> snd ` set r. one_of tiers (pc_cost_tier c)"
    using profile_map_complete [of "list_model_profiles db (mo_id m)" "[]" ?ds] assms
    by (auto simp: model_complete_def)
  obtain p q where "asset_path_of db (mo_mmproj_asset m) = Inr p" "asset_path_of db (mo_draft_asset m) = Inr q"
    using assms asset_path_of_registered unfolding model_complete_def by meson
  with r assms show ?thesis
    by (auto simp: base_config_def check_config_def model_complete_def tiers_def Let_def
        split: option.split list.split)
qed

lemma check_with_profile:
  assumes "one_of tiers (mc_cost_tier c)" "one_of [''on'', ''off'', ''auto''] (mc_reasoning c)"
    "\<forall>s. mc_speculative c = Some s \<longrightarrow> mc_mtp c = Some True" "one_of tiers (pc_cost_tier p)"
  shows "check_config (with_profile c p) = Inr (with_profile c p)"
  using assms by (auto simp: check_config_def with_profile_def tiers_def one_of_def split: option.splits)

lemma get_by_name:
  "assets_ok db \<Longrightarrow> m \<in> set (ad_models db) \<Longrightarrow> get_catalog_model db (mo_name m) = Inr m"
  using find_unique [of mo_name "ad_models db" m]
  by (simp add: get_catalog_model_def get_model_by_name_def found_def assets_okD)


section \<open>Favourites\<close>

text \<open>Marking a favourite writes the row again and forgets the context capacity of the model.\<close>

lemma favourite_forgets_capacity:
  assumes "assets_ok db" "get_model_by_name db name = Some m" "CHR '':'' \<notin> set name" "mo_config_source m \<noteq> []"
  shows "\<exists>m'. get_model_by_name (snd (set_favorite now name f db)) name = Some m' \<and>
    model_fields.truncate m' = (model_fields.truncate m)\<lparr>mo_capacity_ctx := None, mo_favorite := f\<rparr>"
proof -
  have name: "mo_name m = name" using assms(2) by (auto simp: get_model_by_name_def dest: find_Some_iff')
  let ?x = "(model_fields.truncate m)\<lparr>mo_name := name, mo_config_source := mo_config_source m,
    mo_capacity_ctx := None, mo_favorite := f\<rparr>"
  have "set_favorite now name f db = upsert_model now ?x db"
    using assms(2-4) by (simp add: set_favorite_def partition_on_none get_catalog_model_def found_def)
  moreover have "mo_name ?x = name" by simp
  moreover have "?x = (model_fields.truncate m)\<lparr>mo_capacity_ctx := None, mo_favorite := f\<rparr>"
    using name by (simp add: model_fields.defs)
  ultimately show ?thesis
    using model_upsert_exact(1) [OF assms(1), of now ?x] by metis
qed

text \<open>A profile without arguments of its own drops the arguments of its model, although the other
  fields it leaves open come from the model: the catalog makes an empty list of them.\<close>

lemma profile_drops_arguments:
  "profile_entry ds p = Inr (k, c) \<Longrightarrow> pr_extra_args p = [] \<Longrightarrow> mc_extra_args (with_profile m c) = []"
  by (auto simp: profile_entry_def check_profile_def with_profile_def split: if_splits)

end
