(* ===== verification/Asset_Demo.thy ===== *)
theory Asset_Demo
  imports Catalog_Safety
begin

text \<open>
  A catalog of one model, on which the properties of the store and of the catalog are applied.
\<close>

section \<open>A catalog\<close>

definition demo_asset :: asset_fields where
  "demo_asset = \<lparr>as_path = ''/models/a.gguf'', as_filename = ''a.gguf'', as_display = ''a'', as_size = 7,
     as_kind = ''gguf'', as_source_type = ''scanned'', as_sha = None, as_repo = None, as_revision = None,
     as_source_file = None, as_download = None, as_line = None\<rparr>"

definition demo_fields :: "string \<Rightarrow> string option \<Rightarrow> model_fields" where
  "demo_fields name asset = \<lparr>mo_name = name, mo_asset = asset, mo_config_source = ''db'', mo_line = None,
     mo_ctx = Some 8192, mo_capacity_ctx = Some 32768, mo_gpu_layers = None, mo_vision = False, mo_mmproj = None,
     mo_mmproj_asset = None, mo_draft_asset = None, mo_draft_model = None, mo_json_schema = None,
     mo_grammar = None, mo_mtp = None, mo_reasoning = None, mo_budget = None, mo_template = None,
     mo_favorite = False, mo_strengths = [], mo_cost_tier = None, mo_extra_args = [''--flash-attn'']\<rparr>"

definition demo_db :: asset_db where
  "demo_db = snd (upsert_model 2 (demo_fields ''a'' (Some ''0'')) (snd (upsert_asset 1 demo_asset empty_assets)))"

definition demo_row :: model where
  "demo_row = new_model (demo_fields ''a'' (Some ''0'')) ''1'' 2"

definition demo_config :: model_config where
  "demo_config = \<lparr>mc_path = ''/models/a.gguf'', mc_port = 8080, mc_ctx = 8192, mc_gpu_layers = 0,
     mc_host = ''127.0.0.1'', mc_reasoning = None, mc_budget = None, mc_vision = False, mc_mmproj = None,
     mc_extra_args = [''--flash-attn''], mc_json_schema = None, mc_grammar = None, mc_mtp = None,
     mc_speculative = None, mc_line = None, mc_favorite = False, mc_template = None, mc_strengths = [],
     mc_cost_tier = None, mc_profiles = []\<rparr>"

lemma demo_lookups:
  "partition_on (CHR '':'') ''a'' = (''a'', [], [])"
  "get_catalog_model demo_db ''a'' = Inr demo_row"
  "get_asset demo_db ''0'' = Inr (new_asset demo_asset ''0'' 1)"
  "base_config demo_db demo_row (new_asset demo_asset ''0'' 1) [] = Inr demo_config"
  "mo_asset demo_row = Some ''0''" "mo_id demo_row = ''1''"
  "list_model_profiles demo_db ''1'' = []" "list_model_deployments demo_db ''1'' = []"
  "list_model_identities demo_db = [''a'']"
  by code_simp+

lemma demo_runtime_model: "runtime_model demo_db ''a'' = Inr demo_config"
  by (simp add: runtime_model_def demo_lookups)

section \<open>The properties on it\<close>

lemma demo_db_ok: "assets_ok demo_db"
  by (simp add: demo_db_def upsert_model_ok upsert_asset_ok empty_assets_ok)



text \<open>Two files are gone; the model still names the first.\<close>

definition demo_stale :: asset_db where
  "demo_stale = snd (mark_missing_assets [''0'', ''2'']
     (snd (upsert_asset 3 (demo_asset\<lparr>as_path := ''/models/b.gguf''\<rparr>) demo_db)))"

theorem stale_deletion_exact_witness:
  "fst (delete_stale_missing_assets 10000000 5 demo_stale) = ([''2''], [''0''])"
proof -
  have "assets_ok demo_stale"
    unfolding demo_stale_def using asset_step_ok [OF marked_missing] upsert_asset_ok [OF demo_db_ok] by blast
  moreover have "sort (map as_id (filter (\<lambda>a. stale 10000000 5 a \<and> \<not> needed demo_stale a) (ad_assets demo_stale))) = [''2'']"
    "sort (map as_id (filter (\<lambda>a. stale 10000000 5 a \<and> needed demo_stale a) (ad_assets demo_stale))) = [''0'']"
    by code_simp+
  ultimately show ?thesis using stale_deletion_exact [of demo_stale 10000000 5] by simp
qed

end
