(* ===== verification/Process_Demo.thy ===== *)
theory Process_Demo
  imports Process_Safety Asset_Demo
begin

text \<open>
  A small operating system on which the manager runs: witnesses for its properties, and the cases
  in which it ends a process of somebody else or cannot list its models.
\<close>

section \<open>A machine\<close>

record box_process =
  bp_pid :: int
  bp_command :: string
  bp_port :: int
  bp_alive :: bool
  bp_stubborn :: bool

record box =
  bx_processes :: "box_process list"
  bx_logs :: "(string \<times> string) list"
  bx_time :: rat
  bx_next :: int

definition find_process :: "box \<Rightarrow> int \<Rightarrow> box_process option" where
  "find_process w pid = List.find (\<lambda>p. bp_pid p = pid \<and> bp_alive p) (bx_processes w)"

definition box_gone :: "box \<Rightarrow> int \<Rightarrow> bool" where
  "box_gone w pid \<longleftrightarrow> find_process w pid = None"

text \<open>The port a server is told to listen on.\<close>

fun port_of :: "string list \<Rightarrow> int" where
  "port_of (a # b # xs) = (if a = ''--port'' then int (digits_value b) else port_of (b # xs))"
| "port_of xs = 0"

definition box_run :: "string list \<Rightarrow> box \<Rightarrow> (int \<times> string) option \<times> box" where
  "box_run cmd w =
     (if take 2 cmd = [''lsof'', ''-ti'']
      then (let pids = map bp_pid (filter (\<lambda>p. bp_alive p \<and> '':'' @ str_int (bp_port p) = cmd ! 2) (bx_processes w))
            in (Some (if pids = [] then 1 else 0, concat (map (\<lambda>p. str_int p @ [CHR 0x0A]) pids)), w))
      else if take 2 cmd = [''ps'', ''-o''] then (Some (0, ''S''), w)
      else (Some (0, concat (map bp_command (filter (\<lambda>p. bp_alive p \<and> str_int (bp_pid p) = cmd ! 2) (bx_processes w)))), w))"

definition box_kill :: "int \<Rightarrow> int \<Rightarrow> box \<Rightarrow> kill_result \<times> box" where
  "box_kill pid sig w =
     (case find_process w pid of
        None \<Rightarrow> (NoSuchProcess, w)
      | Some p \<Rightarrow>
          if sig = 0 \<or> (sig = sigterm \<and> bp_stubborn p) then (Delivered, w)
          else (Delivered, w\<lparr>bx_processes := map_if (\<lambda>q. bp_pid q = pid) (\<lambda>q. q\<lparr>bp_alive := False\<rparr>) (bx_processes w)\<rparr>))"

definition box_popen :: "string list \<Rightarrow> string \<Rightarrow> box \<Rightarrow> (exn + int) \<times> box" where
  "box_popen cmd logfile w =
     (Inr (bx_next w), w\<lparr>bx_next := bx_next w + 1,
        bx_processes := bx_processes w @ [\<lparr>bp_pid = bx_next w, bp_command = join '' '' cmd, bp_port = port_of cmd,
          bp_alive = True, bp_stubborn = False\<rparr>]\<rparr>)"

definition box_os :: "box os" where
  "box_os = \<lparr>
     os_popen = box_popen,
     os_poll = (\<lambda>pid w. (if find_process w pid = None then Some 0 else None, w)),
     os_wait = (\<lambda>pid t w. (if find_process w pid = None then Some 0 else None, w\<lparr>bx_time := bx_time w + t\<rparr>)),
     os_kill = box_kill,
     os_run = box_run,
     os_now = (\<lambda>w. (bx_time w, w)),
     os_sleep = (\<lambda>t w. ((), w\<lparr>bx_time := bx_time w + t\<rparr>)),
     os_log = (\<lambda>l w. (map_of (bx_logs w) l, w)),
     os_open_log = (\<lambda>l w. (Inr (), w)),
     os_decode = id,
     os_binary = ''llama-server'',
     os_log_dir = ''logs''\<rparr>"

lemma find_process_time [simp]: "find_process (w\<lparr>bx_time := t\<rparr>) = find_process w"
  by (simp add: find_process_def fun_eq_iff)

lemma kill_keeps_gone: "box_gone w pid \<Longrightarrow> box_gone (snd (box_kill p sig w)) pid"
proof -
  have "List.find (\<lambda>p. bp_pid p = pid \<and> bp_alive p) (map_if (\<lambda>q. bp_pid q = p) (\<lambda>q. q\<lparr>bp_alive := False\<rparr>) qs) = None"
    if "List.find (\<lambda>p. bp_pid p = pid \<and> bp_alive p) qs = None" for qs
    using that by (auto simp: find_None_iff set_map_if)
  then show "box_gone w pid \<Longrightarrow> box_gone (snd (box_kill p sig w)) pid"
    by (auto simp: box_gone_def box_kill_def find_process_def split: option.split)
qed

lemma box_truthful: "os_truthful box_os box_gone"
proof -
  have run: "snd (box_run cmd w) = w" for cmd w by (simp add: box_run_def Let_def)
  have stat: "fst (box_run [''ps'', ''-o'', ''stat='', ''-p'', i] w) = Some (0, ''S'')" for i w
    by (simp add: box_run_def)
  have kill: "fst (box_kill pid 0 w) = NoSuchProcess \<Longrightarrow> box_gone (snd (box_kill pid 0 w)) pid" for pid w
    by (auto simp: box_kill_def box_gone_def split: option.splits)
  show ?thesis
    unfolding os_truthful_def
    by (auto simp: box_os_def run stat kill kill_keeps_gone box_gone_def [symmetric] strip_def lstrip_def
        starts_with_def is_space_def char_nat_def)
       (auto simp: box_gone_def)
qed

section \<open>The catalog of the machine\<close>

lemma demo_port: "mc_port demo_config = 8080"
  by (simp add: demo_config_def)

lemma demo_catalog:
  "get_runtime_model demo_db ''a'' = Inr demo_config"
  "\<exists>m. profile_metadata_of demo_db ''a'' = Inr m"
  "\<exists>x. catalog_payload demo_db ''a'' = Inr x"
  "port_has_multiple_identities demo_db 8080 = Inr False"
  by (simp_all add: get_runtime_model_def profile_metadata_of_def catalog_payload_def demo_lookups
      demo_runtime_model port_has_multiple_identities_def demo_port)

section \<open>A model is started and stopped\<close>

definition demo_box :: box where
  "demo_box = \<lparr>bx_processes = [], bx_logs = [], bx_time = 0, bx_next = 100\<rparr>"

definition demo_runtime :: "box runtime" where
  "demo_runtime = \<lparr>rt_manager = new_manager, rt_world = demo_box, rt_db = demo_db\<rparr>"

lemma box_calls:
  "os_poll box_os pid w = (if find_process w pid = None then Some 0 else None, w)"
  "os_wait box_os pid t w = (if find_process w pid = None then Some 0 else None, w\<lparr>bx_time := bx_time w + t\<rparr>)"
  "os_kill box_os = box_kill" "os_run box_os = box_run" "os_popen box_os = box_popen"
  "os_log box_os l w = (map_of (bx_logs w) l, w)" "os_open_log box_os l w = (Inr (), w)"
  "os_decode box_os = id" "os_binary box_os = ''llama-server''" "os_log_dir box_os = ''logs''"
  by (simp_all add: box_os_def)

lemma wp_try: "wp (os_try f) Q E s = (case fst (f (rt_world s)) of
    Inr x \<Rightarrow> Q x (s\<lparr>rt_world := snd (f (rt_world s))\<rparr>) | Inl e \<Rightarrow> E e (s\<lparr>rt_world := snd (f (rt_world s))\<rparr>))"
  by (auto simp: wp_def os_try_def split: prod.splits sum.splits)

definition demo_started :: "box runtime" where
  "demo_started = snd (start box_os ''a'' demo_runtime)"

definition demo_server :: box_process where
  "demo_server = \<lparr>bp_pid = 100, bp_command = join '' '' (build_llama_server_command ''llama-server'' demo_config),
     bp_port = port_of (build_llama_server_command ''llama-server'' demo_config), bp_alive = True, bp_stubborn = False\<rparr>"

lemma port_idle:
  "\<forall>p \<in> set (bx_processes (rt_world s)). \<not> bp_alive p \<Longrightarrow> wp (find_pid_on_port box_os 8080) Q E s = Q None s"
  by (simp add: find_pid_on_port_def wp_simps wp_call box_calls box_run_def)

lemma demo_start:
  "wp (start box_os ''a'') (\<lambda>st s. st_running st \<and> st_pid st = Some 100 \<and>
      map_of (pm_processes (rt_manager s)) ''a'' = Some (Child 100) \<and> rt_db s = demo_db \<and>
      rt_world s = demo_box\<lparr>bx_next := 101, bx_processes := [demo_server]\<rparr>) (\<lambda>_ _. False) demo_runtime"
proof -
  obtain m x where mx: "profile_metadata_of demo_db ''a'' = Inr m" "catalog_payload demo_db ''a'' = Inr x"
    using demo_catalog by blast
  show ?thesis
    by (simp add: start_def status_def wp_simps wp_call wp_try mx demo_catalog process_for_status_def
      adopt_existing_process_def demo_port port_idle demo_runtime_def demo_box_def new_manager_def finish_status_def
      spawn_def Let_def box_calls box_popen_def find_process_def ready_log_marker_seen_def process_state_def
      demo_server_def)
qed

lemma demo_stop:
  "rt_db s = demo_db \<Longrightarrow> map_of (pm_processes (rt_manager s)) ''a'' = Some (Child 100) \<Longrightarrow>
   rt_world s = demo_box\<lparr>bx_next := 101, bx_processes := [demo_server]\<rparr> \<Longrightarrow>
   wp (stop box_os 1 ''a'') (\<lambda>st s. st_state st = ''stopped'') (\<lambda>_ _. False) s"
proof -
  obtain m x where mx: "profile_metadata_of demo_db ''a'' = Inr m" "catalog_payload demo_db ''a'' = Inr x"
    using demo_catalog by blast
  assume "rt_db s = demo_db" "map_of (pm_processes (rt_manager s)) ''a'' = Some (Child 100)"
    "rt_world s = demo_box\<lparr>bx_next := 101, bx_processes := [demo_server]\<rparr>"
  then show ?thesis
    by (simp add: stop_def status_def wp_simps wp_call wp_try mx demo_catalog process_for_status_def
      adopt_existing_process_def demo_port port_idle demo_box_def finish_status_def end_process_def send_def
      Let_def box_calls find_process_def process_state_def box_kill_def sigterm_def
      demo_server_def forget_def delete_conv')
qed

lemma demo_started_run:
  "\<exists>st. start box_os ''a'' demo_runtime = (Inr st, demo_started)"
  "rt_db demo_started = demo_db" "map_of (pm_processes (rt_manager demo_started)) ''a'' = Some (Child 100)"
  "rt_world demo_started = demo_box\<lparr>bx_next := 101, bx_processes := [demo_server]\<rparr>"
proof -
  obtain r where r: "start box_os ''a'' demo_runtime = (r, demo_started)"
    by (cases "start box_os ''a'' demo_runtime") (simp add: demo_started_def)
  then obtain st where "r = Inr st" using demo_start by (cases r) (auto simp: wp_def)
  with r demo_start show "\<exists>st. start box_os ''a'' demo_runtime = (Inr st, demo_started)"
    "rt_db demo_started = demo_db" "map_of (pm_processes (rt_manager demo_started)) ''a'' = Some (Child 100)"
    "rt_world demo_started = demo_box\<lparr>bx_next := 101, bx_processes := [demo_server]\<rparr>"
    by (auto simp: wp_def)
qed

theorem statuses_tell_the_books_witness:
  "\<exists>st. start box_os ''a'' demo_runtime = (Inr st, demo_started) \<and> told st (rt_manager demo_started) \<and>
     ''a'' \<in> set (pm_logs (rt_manager demo_started))"
proof -
  obtain st where st: "start box_os ''a'' demo_runtime = (Inr st, demo_started)" using demo_started_run(1) by blast
  have new: "rt_manager demo_runtime = new_manager" by (simp add: demo_runtime_def)
  have "\<exists>op \<in> {status box_os, start box_os, stop box_os 0, restart box_os 0}.
      op ''a'' demo_runtime = (Inr st, demo_started)"
    using st by simp
  from statuses_tell_the_books [OF new rtranclp.rtrancl_refl this, of "''a''"]
  have "told st (rt_manager demo_started)" "''a'' \<in> set (pm_logs (rt_manager demo_started))"
    using demo_started_run(3) by auto
  with st show ?thesis by blast
qed

theorem stop_ends_the_process_witness:
  "\<exists>st s. stop box_os 1 ''a'' demo_started = (Inr st, s) \<and> box_gone (rt_world s) 100 \<and>
     \<not> box_gone (rt_world demo_started) 100"
proof -
  note started = demo_started_run(2-4)
  obtain st s where s: "stop box_os 1 ''a'' demo_started = (Inr st, s)"
    using demo_stop [OF started] by (cases "stop box_os 1 ''a'' demo_started") (auto simp: wp_def split: sum.splits)
  have "box_gone (rt_world s) (handle_pid (Child 100))"
    by (rule stop_ends_the_process [OF box_truthful started(2) s])
  moreover have "\<not> box_gone (rt_world demo_started) 100"
    by (simp add: started box_gone_def find_process_def demo_server_def)
  ultimately show ?thesis using s by auto
qed

section \<open>Two ways it goes wrong\<close>

text \<open>Whoever uses the port is taken for the server of the model, and \<open>stop\<close> ends it: here a web server
  that listened on the port before.\<close>

definition stranger :: box_process where
  "stranger = \<lparr>bp_pid = 7, bp_command = ''nginx'', bp_port = 8080, bp_alive = True, bp_stubborn = False\<rparr>"

lemma stranger_is_adopted:
  "wp (status box_os ''a'') (\<lambda>st s. st_running st \<and> st_pid st = Some 7 \<and> st_state st = ''adopted'') (\<lambda>_ _. False)
     (demo_runtime\<lparr>rt_world := demo_box\<lparr>bx_processes := [stranger]\<rparr>\<rparr>)"
proof -
  obtain m x where mx: "profile_metadata_of demo_db ''a'' = Inr m" "catalog_payload demo_db ''a'' = Inr x"
    using demo_catalog by blast
  have "wp (find_pid_on_port box_os 8080) Q E s = Q (Some 7) s"
    if "rt_world s = demo_box\<lparr>bx_processes := [stranger]\<rparr>" for Q E s
  proof -
    have seven: "nat_digits 7 = ''7''" by code_simp
    have "fst (box_run [''lsof'', ''-ti'', '':'' @ str_int 8080] (rt_world s)) = Some (0, ''7'' @ [CHR 0x0A])"
      "snd (box_run [''lsof'', ''-ti'', '':'' @ str_int 8080] (rt_world s)) = rt_world s"
      by (simp_all add: that box_run_def stranger_def demo_box_def str_int_def seven)
    moreover have "filter is_digit_text (split_ws (''7'' @ [CHR 0x0A])) = [''7'']" "int_of_text ''7'' = Inr 7"
      by code_simp+
    ultimately show ?thesis by (simp add: find_pid_on_port_def wp_simps wp_call box_calls)
  qed
  then show ?thesis
    by (simp add: status_def wp_simps wp_call mx demo_catalog process_for_status_def
      adopt_existing_process_def demo_port demo_runtime_def new_manager_def finish_status_def
      Let_def box_calls find_process_def ready_log_marker_seen_def process_state_def demo_box_def
      pid_is_zombie_def box_kill_def box_run_def stranger_def strip_def lstrip_def starts_with_def is_space_def char_nat_def)
qed

text \<open>A model whose file is not on record makes the listing of all models raise.\<close>

definition demo_db_b :: asset_db where
  "demo_db_b = snd (upsert_model 3 (demo_fields ''b'' None) demo_db)"

lemma unregistered_model:
  "list_model_identities demo_db_b = [''a'', ''b'']"
  "get_runtime_model demo_db_b ''b'' = Inl (key_error ''model'' ''b'')"
proof -
  have "partition_on (CHR '':'') ''b'' = (''b'', [], [])"
    "get_catalog_model demo_db_b ''b'' = Inr (new_model (demo_fields ''b'' None) ''2'' 3)"
    "mo_asset (new_model (demo_fields ''b'' None) ''2'' 3) = None"
    by code_simp+
  then show "get_runtime_model demo_db_b ''b'' = Inl (key_error ''model'' ''b'')"
    by (simp add: get_runtime_model_def runtime_model_def)
  show "list_model_identities demo_db_b = [''a'', ''b'']" by code_simp
qed

lemma status_keeps_db: "rt_db (snd (status env name s)) = rt_db s"
proof -
  have call: "keeps (\<lambda>t. rt_db t = rt_db s) (os_call c)" for c
    by (simp add: keeps_def os_call_def split: prod.splits)
  have change: "keeps (\<lambda>t. rt_db t = rt_db s) (change c)" for c
    by (simp add: keeps_def change_def)
  have poll: "keeps (\<lambda>t. rt_db t = rt_db s) (poll env h)" for h
    by (cases h) (auto simp: pid_is_zombie_def intro!: keep_rules call split: kill_result.split)
  have "keeps (\<lambda>t. rt_db t = rt_db s) (status env name)"
    unfolding status_def process_for_status_def finish_status_def ready_log_marker_seen_def Let_def
      adopt_existing_process_def find_pid_on_port_def pid_matches_model_def
    by (auto intro!: keep_rules call change poll split: option.split list.split)
  then show ?thesis by (simp add: keeps_def)
qed

lemma broken_model_breaks_listing:
  "get_runtime_model (rt_db s) i = Inl e \<Longrightarrow> i \<in> set is \<Longrightarrow> \<exists>e'. fst (statuses env is s) = Inl e'"
proof (induction "is" arbitrary: s)
  case (Cons j js)
  obtain r s1 where j: "status env j s = (r, s1)" by (cases "status env j s")
  have db: "rt_db s1 = rt_db s" using status_keeps_db [of env j s] j by simp
  show ?case
  proof (cases "i = j")
    case True
    then show ?thesis using Cons.prems(1) by (simp add: seqE_def status_def check_rt_def)
  next
    case False
    then obtain e' where "fst (statuses env js s1) = Inl e'" using Cons.IH [of s1] Cons.prems db by auto
    then show ?thesis using j by (cases r; cases "statuses env js s1") (simp_all add: seqE_def)
  qed
qed simp

text \<open>So one model without a file hides all.\<close>

lemma unregistered_model_hides_all:
  "rt_db s = demo_db_b \<Longrightarrow> \<exists>e. fst (list_statuses env s) = Inl e"
  using broken_model_breaks_listing [of s "''b''" _ "[''a'', ''b'']" env] unregistered_model
  by (simp add: list_statuses_def seqE_def ask_rt_def)

end
