(* ===== verification/Model_Inventory.thy ===== *)
theory Model_Inventory
  imports Asset_Store Tool_Commands
begin

text \<open>
  The records of downloads (\<open>core/persistence/model_download_store_orm.py\<close>) and the reconciliation of
  the model files on disk with the store of assets (\<open>core/model_assets/models_db.py\<close>), which finds
  the download a file came from by the command line of the download, split as \<open>shlex\<close> does.

  Ids are texts drawn from a counter; \<open>clk i\<close> is the \<open>i\<close>-th reading of the clock in an operation.
\<close>

section \<open>Records of downloads\<close>

record download =
  dw_id :: string
  dw_repo :: string
  dw_revision :: "string option"
  dw_path :: string
  dw_status :: string
  dw_started :: "int option"
  dw_finished :: "int option"
  dw_bytes_total :: "int option"
  dw_pid :: "int option"
  dw_returncode :: "int option"
  dw_command :: string
  dw_log :: string
  dw_error :: "string option"
  dw_by :: string
  dw_created :: int
  dw_updated :: int

record download_db =
  dd_rows :: "download list"
  dd_counter :: nat

definition terminal_statuses :: "string list" where
  "terminal_statuses = [''succeeded'', ''failed'', ''cancelled'']"

definition valid_statuses :: "string list" where
  "valid_statuses = [''queued'', ''running'', ''succeeded'', ''failed'', ''cancelled'']"

definition find_download :: "download_db \<Rightarrow> string \<Rightarrow> download option" where
  "find_download db i = List.find (\<lambda>d. dw_id d = i) (dd_rows db)"

definition get_download :: "download_db \<Rightarrow> string \<Rightarrow> exn + download" where
  "get_download db i = found (key_error ''download id'' i) (find_download db i)"

definition create_download ::
  "int \<Rightarrow> string \<Rightarrow> string option \<Rightarrow> string \<Rightarrow> string \<Rightarrow> string \<Rightarrow> string \<Rightarrow> int option
     \<Rightarrow> (download_db, download) eff" where
  "create_download now repo revision local_path command log_file triggered_by bytes_total db =
     (let new_id = nat_digits (dd_counter db);
          db' = db\<lparr>dd_rows := dd_rows db @
            [\<lparr>dw_id = new_id, dw_repo = repo, dw_revision = revision, dw_path = local_path,
              dw_status = ''queued'', dw_started = None, dw_finished = None, dw_bytes_total = bytes_total,
              dw_pid = None, dw_returncode = None, dw_command = command, dw_log = log_file, dw_error = None,
              dw_by = (if triggered_by = [] then ''unknown'' else triggered_by), dw_created = now, dw_updated = now\<rparr>],
            dd_counter := Suc (dd_counter db)\<rparr>
      in (get_download db' new_id, db'))"

definition or_old :: "'a option \<Rightarrow> 'a option \<Rightarrow> 'a option" where
  "or_old new old = (if new \<noteq> None then new else old)"

definition status_row ::
  "int \<Rightarrow> string \<Rightarrow> int option \<Rightarrow> int option \<Rightarrow> string option \<Rightarrow> download \<Rightarrow> download" where
  "status_row now st pid returncode error d = d\<lparr>
     dw_status := st, dw_updated := now,
     dw_started := (if st = ''running'' \<and> dw_started d = None then Some now else dw_started d),
     dw_finished := (if st \<in> set terminal_statuses then Some now else dw_finished d),
     dw_pid := or_old pid (dw_pid d), dw_returncode := or_old returncode (dw_returncode d),
     dw_error := or_old error (dw_error d)\<rparr>"

definition update_status ::
  "int \<Rightarrow> string \<Rightarrow> string \<Rightarrow> int option \<Rightarrow> int option \<Rightarrow> string option \<Rightarrow> (download_db, download) eff" where
  "update_status now i st pid returncode error db =
     (if st \<notin> set valid_statuses then (Inl (Exn ''ValueError'' (''Invalid status: '' @ st)), db)
      else case find_download db i of
        None \<Rightarrow> (Inl (key_error ''download id'' i), db)
      | Some row \<Rightarrow>
          if dw_status row \<in> set terminal_statuses \<and> dw_status row \<noteq> st
          then (Inl (Exn ''ValueError''
            (''Cannot transition terminal status '' @ dw_status row @ '' -> '' @ st)), db)
          else let db' = db\<lparr>dd_rows := map_if (\<lambda>d. dw_id d = i) (status_row now st pid returncode error) (dd_rows db)\<rparr>
               in (get_download db' i, db'))"

definition list_downloads :: "download_db \<Rightarrow> string option \<Rightarrow> int \<Rightarrow> download list" where
  "list_downloads db st limit =
     take (nat (max 1 (min limit 500))) (sort_key (\<lambda>d. - dw_created d)
       (case st of Some (c # s) \<Rightarrow> filter (\<lambda>d. dw_status d = c # s) (dd_rows db) | _ \<Rightarrow> dd_rows db))"

definition delete_download :: "string \<Rightarrow> (download_db, unit) eff" where
  "delete_download i db =
     (case find_download db i of
        None \<Rightarrow> (Inl (key_error ''download id'' i), db)
      | Some _ \<Rightarrow> (Inr (), db\<lparr>dd_rows := filter (\<lambda>d. dw_id d \<noteq> i) (dd_rows db)\<rparr>))"

section \<open>Command lines\<close>

text \<open>\<open>shlex.split\<close>: the state of the lexer, whether the word has a quote, and the word backwards.\<close>

datatype lexer = Blank | Bare | Quoted char | Escaped lexer

definition quote_chars :: "char set" where
  "quote_chars = {CHR 0x27, CHR 0x22}"

definition shell_space :: "char \<Rightarrow> bool" where
  "shell_space c \<longleftrightarrow> c \<in> {CHR 0x20, CHR 0x09, CHR 0x0D, CHR 0x0A}"

definition emit_word :: "bool \<Rightarrow> string \<Rightarrow> string list" where
  "emit_word quoted w = (if w = [] \<and> \<not> quoted then [] else [rev w])"

fun lex :: "lexer \<Rightarrow> bool \<Rightarrow> string \<Rightarrow> string \<Rightarrow> exn + string list" where
  "lex st quoted w [] =
     (case st of
        Quoted _ \<Rightarrow> Inl (Exn ''ValueError'' ''No closing quotation'')
      | Escaped _ \<Rightarrow> Inl (Exn ''ValueError'' ''No escaped character'')
      | _ \<Rightarrow> Inr (emit_word quoted w))"
| "lex st quoted w (c # s) =
     (case st of
        Quoted q \<Rightarrow>
          if c = q then lex Bare True w s
          else if c = CHR 0x5C \<and> q = CHR 0x22 then lex (Escaped (Quoted q)) True w s
          else lex (Quoted q) True (c # w) s
      | Escaped outer \<Rightarrow>
          lex outer quoted
            (case outer of
               Quoted q \<Rightarrow> if c \<noteq> CHR 0x5C \<and> c \<noteq> q then c # CHR 0x5C # w else c # w
             | _ \<Rightarrow> c # w) s
      | _ \<Rightarrow>
          if shell_space c
          then map_sum id (\<lambda>ws. emit_word quoted w @ ws) (lex Blank False [] s)
          else if c = CHR 0x5C then lex (Escaped Bare) quoted w s
          else if c \<in> quote_chars then lex (Quoted c) quoted w s
          else lex Bare quoted (c # w) s)"

definition shlex_split :: "string \<Rightarrow> exn + string list" where
  "shlex_split s = lex Blank False [] s"

fun include_args :: "string list \<Rightarrow> string list" where
  "include_args (a # b # ws) = (if a = ''--include'' then b # include_args ws else include_args (b # ws))"
| "include_args _ = []"

definition included_files :: "string \<Rightarrow> string list" where
  "included_files command = (case shlex_split command of Inl e \<Rightarrow> [] | Inr ws \<Rightarrow> include_args ws)"

section \<open>Reconciliation\<close>

record source =
  so_download :: "string option"
  so_repo :: "string option"
  so_revision :: "string option"
  so_file :: "string option"

definition no_source :: source where
  "no_source = \<lparr>so_download = None, so_repo = None, so_revision = None, so_file = None\<rparr>"

definition non_empty :: "string \<Rightarrow> string option" where
  "non_empty s = (if s = [] then None else Some s)"

text \<open>The first download into whose directory the file falls, and whose command names it, if the command
  names any.\<close>

fun match_download :: "files \<Rightarrow> path \<Rightarrow> download list \<Rightarrow> exn + source" where
  "match_download fs p [] = Inr no_source"
| "match_download fs p (d # ds) =
     (if dw_path d = [] then match_download fs p ds
      else bindE (resolve fs (dw_path d)) (\<lambda>root.
        if \<not> is_relative_to p root then match_download fs p ds
        else let include_files = included_files (dw_command d);
                 relative = (if p = root then ''.'' else join ''/'' (relative_to p root))
             in if include_files \<noteq> [] \<and> relative \<notin> set include_files then match_download fs p ds
                else Inr \<lparr>so_download = Some (dw_id d), so_repo = non_empty (dw_repo d),
                  so_revision = (case dw_revision d of None \<Rightarrow> None | Some r \<Rightarrow> non_empty r),
                  so_file = Some relative\<rparr>))"

definition scanned_asset :: "files \<Rightarrow> path \<Rightarrow> source \<Rightarrow> asset_fields" where
  "scanned_asset fs p s =
     \<lparr>as_path = path_str p, as_filename = (if p = [] then [] else last p), as_display = stem (path_str p),
      as_size = int (file_size fs p), as_kind = ''gguf'', as_source_type = ''scanned'', as_sha = None,
      as_repo = so_repo s, as_revision = so_revision s, as_source_file = so_file s,
      as_download = so_download s, as_line = None\<rparr>"

text \<open>The loop over the paths; a directory has size 0 here.\<close>

fun scan_paths ::
  "files \<Rightarrow> download list \<Rightarrow> (nat \<Rightarrow> int) \<Rightarrow> path list \<Rightarrow> nat \<Rightarrow> (asset_db, asset list \<times> string list) eff" where
  "scan_paths fs ds clk [] n = ret ([], [])"
| "scan_paths fs ds clk (p # ps) n =
     (\<lambda>db. case resolve_path fs p of
        Inl e \<Rightarrow> (Inl e, db)
      | Inr q \<Rightarrow>
          if lookup_entry fs q = None then (Inl (os_error ''FileNotFoundError'' q), db)
          else (case match_download fs q ds of
            Inl e \<Rightarrow> (Inl e, db)
          | Inr s \<Rightarrow>
              seqE (upsert_asset (clk n) (scanned_asset fs q s)) (\<lambda>a.
              seqE (scan_paths fs ds clk ps (Suc n)) (\<lambda>(assets, seen). ret (a # assets, path_str q # seen))) db))"

definition reconcile_scan ::
  "files \<Rightarrow> download list \<Rightarrow> (nat \<Rightarrow> int) \<Rightarrow> path list \<Rightarrow> (asset_db, asset list) eff" where
  "reconcile_scan fs ds clk ps =
     seqE (scan_paths fs ds clk ps 0) (\<lambda>(assets, seen) db.
       (Inr assets, snd (mark_missing_assets
          (map as_id (filter (\<lambda>a. as_path a \<notin> set seen) (list_assets db))) db)))"

end
