(* ===== verification/Download_Manager.thy ===== *)
theory Download_Manager
  imports Model_Inventory Process_Manager Net_Policy
begin

text \<open>
  Downloads of model files (\<open>core/model_assets/downloads.py\<close>): each is a process with a record. The
  operating system is the one of \<^theory_text>\<open>Process_Manager\<close>; the files are those of \<^theory_text>\<open>Tool_Paths\<close>, and change
  as the downloader writes them. The API of Hugging Face, the free space of a directory, the name of
  a quantisation in a path and the recommendations are parameters. The roots are texts as \<open>str(path)\<close>
  writes them.
\<close>

section \<open>State\<close>

record hf_file =
  hf_path :: string
  hf_size :: "int option"

text \<open>An error of the API, with the status of its response if it has one.\<close>

record 'w dl_env =
  en_os :: "'w os"
  en_tree :: "string \<Rightarrow> string option \<Rightarrow> 'w \<Rightarrow> ((exn \<times> int option) + hf_file list) \<times> 'w"
  en_free :: "path \<Rightarrow> 'w \<Rightarrow> (exn + int) \<times> 'w"
  en_clock :: "'w \<Rightarrow> int \<times> 'w"
  en_recommend :: "pyval \<Rightarrow> 'w \<Rightarrow> pyval \<times> 'w"
  en_quant :: "string \<Rightarrow> string option"
  en_policy :: network_policy
  en_roots :: "string list"
  en_python :: string
  en_logs :: string
  en_inventory :: bool

record 'w dl_state =
  dl_db :: download_db
  dl_processes :: "(string \<times> int) list"
  dl_open_logs :: "string list"
  dl_cache :: "(rat \<times> pyval) option"
  dl_files :: files
  dl_assets :: asset_db
  dl_world :: 'w

definition dl_call :: "('w \<Rightarrow> 'a \<times> 'w) \<Rightarrow> ('w dl_state, 'a) eff" where
  "dl_call f s = (case f (dl_world s) of (x, w) \<Rightarrow> (Inr x, s\<lparr>dl_world := w\<rparr>))"

definition dl_try :: "('w \<Rightarrow> (exn + 'a) \<times> 'w) \<Rightarrow> ('w dl_state, 'a) eff" where
  "dl_try f s = (case f (dl_world s) of (x, w) \<Rightarrow> (x, s\<lparr>dl_world := w\<rparr>))"

definition on_store :: "(download_db, 'a) eff \<Rightarrow> ('w dl_state, 'a) eff" where
  "on_store f s = (case f (dl_db s) of (r, db) \<Rightarrow> (r, s\<lparr>dl_db := db\<rparr>))"

definition dl_ask :: "('w dl_state \<Rightarrow> 'a) \<Rightarrow> ('w dl_state, 'a) eff" where
  "dl_ask f s = (Inr (f s), s)"

definition dl_check :: "('w dl_state \<Rightarrow> exn + 'a) \<Rightarrow> ('w dl_state, 'a) eff" where
  "dl_check f s = (f s, s)"

definition dl_change :: "('w dl_state \<Rightarrow> 'w dl_state) \<Rightarrow> ('w dl_state, unit) eff" where
  "dl_change f s = (Inr (), f s)"

section \<open>Arguments\<close>

definition repo_char :: "char \<Rightarrow> bool" where
  "repo_char c = (let n = char_nat c in
     (48 \<le> n \<and> n \<le> 57) \<or> (65 \<le> n \<and> n \<le> 90) \<or> (97 \<le> n \<and> n \<le> 122) \<or> c \<in> {CHR ''.'', CHR ''_'', CHR ''-''})"

definition repo_pattern :: "string \<Rightarrow> bool" where
  "repo_pattern s = (case split_on (CHR ''/'') s of
     [a, b] \<Rightarrow> a \<noteq> [] \<and> b \<noteq> [] \<and> list_all repo_char (a @ b) | _ \<Rightarrow> False)"

definition normalize_repo_id :: "string \<Rightarrow> exn + string" where
  "normalize_repo_id s = (let r = strip s in
     if repo_pattern r then Inr r else Inl (Exn ''ValueError'' ''repo_id must be in owner/name format''))"

definition normalize_include_file :: "string option \<Rightarrow> exn + string option" where
  "normalize_include_file f =
     (case f of
        Some (c # cs) \<Rightarrow>
          (let n = strip (c # cs) in
           if n = [] \<or> starts_with ''/'' n \<or> CHR 0x5C \<in> set n \<or> ''..'' \<in> set (path_parts n) \<or>
              \<not> ends_with ''.gguf'' (lower n)
           then Inl (Exn ''ValueError'' ''include_file must be a relative .gguf path'')
           else Inr (Some n))
      | _ \<Rightarrow> Inr None)"

definition is_hf_auth_or_gated_error :: "exn \<Rightarrow> int option \<Rightarrow> bool" where
  "is_hf_auth_or_gated_error e code \<longleftrightarrow>
     code = Some 401 \<or> code = Some 403 \<or>
     (let m = lower (exn_text e) in
      contains ''gated'' m \<or> (contains ''accept'' m \<and> contains ''license'' m))"

definition hf_auth_message :: string where
  "hf_auth_message = ''This repo requires a Hugging Face login or accepted license before download. Sign in with `hf auth login` and accept the repo terms on Hugging Face, then try again.''"

definition list_repo_tree :: "'w dl_env \<Rightarrow> string \<Rightarrow> string option \<Rightarrow> ('w dl_state, hf_file list) eff" where
  "list_repo_tree env repo revision =
     seqE (dl_call (en_tree env repo (case revision of Some (c # r) \<Rightarrow> Some (c # r) | _ \<Rightarrow> None))) (\<lambda>r.
     case r of
       Inr fs \<Rightarrow> ret fs
     | Inl (e, code) \<Rightarrow>
         raise_exn (if is_hf_auth_or_gated_error e code then Exn ''ValueError'' hf_auth_message else e))"

definition assert_huggingface_allowed :: "'w dl_env \<Rightarrow> string \<Rightarrow> ('w dl_state, unit) eff" where
  "assert_huggingface_allowed env purpose =
     dl_check (\<lambda>_. assert_url_allowed (en_policy env) ''https://huggingface.co'' purpose)"

definition bytes_total_for_include ::
  "'w dl_env \<Rightarrow> string \<Rightarrow> string option \<Rightarrow> string option \<Rightarrow> ('w dl_state, int option) eff" where
  "bytes_total_for_include env repo revision include_file =
     (case include_file of
        None \<Rightarrow> ret None
      | Some f \<Rightarrow>
          seqE (list_repo_tree env repo revision) (\<lambda>fs.
          ret (case List.find (\<lambda>x. hf_path x = f) fs of
                 Some x \<Rightarrow> (case hf_size x of Some n \<Rightarrow> if n \<ge> 0 then Some n else None | None \<Rightarrow> None)
               | None \<Rightarrow> None)))"

section \<open>Space\<close>

definition headroom :: int where
  "headroom = 10 * 1024 ^ 3"

text \<open>The nearest directory above that exists; the root always does.\<close>

function existing_above :: "files \<Rightarrow> path \<Rightarrow> path" where
  "existing_above fs p = (if p = [] \<or> path_exists fs p then p else existing_above fs (butlast p))"
  by pat_completeness auto
termination by (relation "measure (\<lambda>(fs, p). length p)") auto

declare existing_above.simps [simp del]

fun model_roots :: "string list \<Rightarrow> string list \<Rightarrow> string list" where
  "model_roots seen [] = []"
| "model_roots seen (r # rs) = (if r \<in> set seen then model_roots seen rs else r # model_roots (r # seen) rs)"

fun first_with_space :: "'w dl_env \<Rightarrow> int \<Rightarrow> string list \<Rightarrow> ('w dl_state, string) eff" where
  "first_with_space env required [] = raise_exn (Exn ''ValueError'' ''no space'')"
| "first_with_space env required (r # rs) =
     seqE (dl_ask (\<lambda>s. existing_above (dl_files s) (absolute (dl_files s) r))) (\<lambda>probe.
     seqE (dl_try (en_free env probe)) (\<lambda>free.
     if free \<ge> required then ret r else first_with_space env required rs))"

definition select_download_root :: "'w dl_env \<Rightarrow> int option \<Rightarrow> ('w dl_state, string) eff" where
  "select_download_root env required_bytes =
     first_with_space env (max (case required_bytes of None \<Rightarrow> 0 | Some n \<Rightarrow> n) 0 + headroom) (model_roots [] (en_roots env))"

definition flat_name :: "string \<Rightarrow> string" where
  "flat_name repo = join ''__'' (split_on (CHR ''/'') repo)"

definition download_command :: "'w dl_env \<Rightarrow> string \<Rightarrow> string \<Rightarrow> string option \<Rightarrow> string list \<Rightarrow> string list" where
  "download_command env target repo revision include_files =
     [en_python env, ''-m'', ''huggingface_hub.cli.hf'', ''download'', repo, ''--local-dir'', target]
     @ (case revision of Some (c # r) \<Rightarrow> [''--revision'', c # r] | _ \<Rightarrow> [])
     @ concat (map (\<lambda>f. [''--include'', f]) include_files)"

section \<open>Progress\<close>

text \<open>\<open>_included_files_from_command\<close>: the names are checked again, and left out if they are not valid.\<close>

definition valid_include :: "string \<Rightarrow> string option" where
  "valid_include f = (case normalize_include_file (Some f) of Inl e \<Rightarrow> None | Inr r \<Rightarrow> r)"

definition included_files_from_command :: "string \<Rightarrow> string list" where
  "included_files_from_command command = List.map_filter valid_include (included_files command)"

definition below :: "files \<Rightarrow> path \<Rightarrow> path list" where
  "below fs q = map fst (filter (\<lambda>e. fst e \<noteq> q \<and> is_relative_to (fst e) q) (fs_entries fs))"

definition downloaded_size :: "files \<Rightarrow> path \<Rightarrow> int" where
  "downloaded_size fs p =
     (case reached fs p of
        Some (q, File s) \<Rightarrow> int (utf8_length s)
      | Some (q, Dir) \<Rightarrow> int (sum_list (map (file_size fs) (filter (is_file fs) (below fs q))))
      | _ \<Rightarrow> 0)"

definition progress_path :: "files \<Rightarrow> download \<Rightarrow> path" where
  "progress_path fs d =
     (case included_files_from_command (dw_command d) of
        f # _ \<Rightarrow> absolute fs (dw_path d) @ path_parts f
      | [] \<Rightarrow> absolute fs (dw_path d))"

record progress =
  pg_record :: download
  pg_bytes :: int
  pg_percent :: "int option"

text \<open>\<open>int(downloaded * 100 / total)\<close>, a quotient of non-negative numbers.\<close>

definition with_progress :: "files \<Rightarrow> download \<Rightarrow> progress" where
  "with_progress fs d =
     (let n = downloaded_size fs (progress_path fs d)
      in \<lparr>pg_record = d, pg_bytes = n,
          pg_percent = (case dw_bytes_total d of
             Some t \<Rightarrow> if t > 0 then Some (min 100 (n * 100 div t)) else None | None \<Rightarrow> None)\<rparr>)"

section \<open>Life of a download\<close>

definition close_log :: "string \<Rightarrow> 'w dl_state \<Rightarrow> 'w dl_state" where
  "close_log i s = s\<lparr>dl_open_logs := removeAll i (dl_open_logs s)\<rparr>"

definition drop_process :: "string \<Rightarrow> 'w dl_state \<Rightarrow> 'w dl_state" where
  "drop_process i s = (close_log i s)\<lparr>dl_processes := AList.delete i (dl_processes s)\<rparr>"

definition ends_gguf :: "path \<Rightarrow> bool" where
  "ends_gguf p = (p \<noteq> [] \<and> ends_with ''.gguf'' (last p))"

text \<open>The files of a finished download go to the inventory: those its command named, else all below.\<close>

definition downloaded_paths :: "files \<Rightarrow> download \<Rightarrow> path list" where
  "downloaded_paths fs d =
     (let base = absolute fs (dw_path d); names = included_files_from_command (dw_command d)
      in if names \<noteq> [] then filter (is_file fs) (map (\<lambda>f. base @ path_parts f) names)
         else case reached fs base of
           Some (q, File s) \<Rightarrow> [base]
         | Some (q, Dir) \<Rightarrow> filter (\<lambda>p. is_file fs p \<and> ends_gguf p) (map (\<lambda>p. base @ relative_to p q) (below fs q))
         | _ \<Rightarrow> [])"

definition register_downloaded_assets :: "'w dl_env \<Rightarrow> download \<Rightarrow> ('w dl_state, unit) eff" where
  "register_downloaded_assets env d =
     (if \<not> en_inventory env then ret ()
      else seqE (dl_ask (\<lambda>s. downloaded_paths (dl_files s) d)) (\<lambda>paths.
        if paths = [] then ret ()
        else seqE (dl_call (en_clock env)) (\<lambda>now s.
          case reconcile_scan (dl_files s) (list_downloads (dl_db s) None 500) (\<lambda>n. now + int n) paths (dl_assets s) of
            (Inl e, a) \<Rightarrow> (Inl e, s\<lparr>dl_assets := a\<rparr>)
          | (Inr _, a) \<Rightarrow> (Inr (), s\<lparr>dl_assets := a\<rparr>))))"

definition download_status :: "'w dl_env \<Rightarrow> string \<Rightarrow> ('w dl_state, progress) eff" where
  "download_status env i =
     seqE (dl_check (\<lambda>s. get_download (dl_db s) i)) (\<lambda>row.
     seqE (dl_ask (\<lambda>s. (map_of (dl_processes s) i, with_progress (dl_files s) row))) (\<lambda>(p, pg).
     case p of
       None \<Rightarrow> ret pg
     | Some pid \<Rightarrow>
         seqE (dl_call (os_poll (en_os env) pid)) (\<lambda>code.
         case code of
           None \<Rightarrow> ret pg
         | Some c \<Rightarrow>
             seqE (dl_change (drop_process i)) (\<lambda>_.
             seqE (dl_call (en_clock env)) (\<lambda>now.
             seqE (on_store (update_status now i (if c = 0 then ''succeeded'' else ''failed'') None (Some c)
                (if c = 0 then None else Some (''Downloader exited with code '' @ str_int c)))) (\<lambda>updated.
             seqE (if c = 0 then register_downloaded_assets env updated else ret ()) (\<lambda>_.
             dl_ask (\<lambda>s. with_progress (dl_files s) updated))))))))"

text \<open>The two loops at the start: processes that have ended are dropped, and a process that runs for the
  same repository refuses the new download.\<close>

fun reap :: "'w dl_env \<Rightarrow> (string \<times> int) list \<Rightarrow> ('w dl_state, unit) eff" where
  "reap env [] = ret ()"
| "reap env ((i, pid) # ps) =
     seqE (dl_call (os_poll (en_os env) pid)) (\<lambda>code.
     seqE (if code \<noteq> None then dl_change (drop_process i) else ret ()) (\<lambda>_. reap env ps))"

fun refuse_busy :: "'w dl_env \<Rightarrow> string \<Rightarrow> (string \<times> int) list \<Rightarrow> ('w dl_state, unit) eff" where
  "refuse_busy env repo [] = ret ()"
| "refuse_busy env repo ((i, pid) # ps) =
     seqE (dl_call (os_poll (en_os env) pid)) (\<lambda>code.
     if code \<noteq> None then refuse_busy env repo ps
     else seqE (dl_check (\<lambda>s. get_download (dl_db s) i)) (\<lambda>row.
       if dw_repo row = repo then raise_exn (Exn ''ValueError'' (''Download already running for '' @ repo))
       else refuse_busy env repo ps))"

definition start_download ::
  "'w dl_env \<Rightarrow> string \<Rightarrow> string \<Rightarrow> string option \<Rightarrow> string option \<Rightarrow> string option \<Rightarrow> ('w dl_state, progress) eff" where
  "start_download env repo_id triggered_by revision include_file mmproj_file =
     seqE (dl_check (\<lambda>_. normalize_repo_id repo_id)) (\<lambda>repo.
     seqE (assert_huggingface_allowed env (''start Hugging Face download for '' @ repo)) (\<lambda>_.
     seqE (dl_check (\<lambda>_. normalize_include_file include_file)) (\<lambda>inc.
     seqE (dl_check (\<lambda>_. normalize_include_file mmproj_file)) (\<lambda>mm.
     let rev = (case revision of Some (c # r) \<Rightarrow> Some (strip (c # r)) | _ \<Rightarrow> None) in
     seqE (list_repo_tree env repo rev) (\<lambda>_.
     seqE (dl_ask dl_processes) (\<lambda>ps.
     seqE (reap env ps) (\<lambda>_.
     seqE (dl_ask dl_processes) (\<lambda>active.
     seqE (refuse_busy env repo active) (\<lambda>_.
     seqE (bytes_total_for_include env repo rev inc) (\<lambda>bytes_total.
     seqE (select_download_root env bytes_total) (\<lambda>root.
     let destination = root @ ''/'' @ flat_name repo;
         command = download_command env destination repo rev (List.map_filter id [inc, mm]);
         log_file = en_logs env @ ''/downloads/'' @ flat_name repo @ ''.log'' in
     seqE (dl_call (en_clock env)) (\<lambda>now.
     seqE (on_store (create_download now repo rev destination (join '' '' command) log_file triggered_by bytes_total)) (\<lambda>row.
     seqE (dl_try (os_open_log (en_os env) log_file)) (\<lambda>_.
     seqE (dl_try (os_popen (en_os env) command log_file)) (\<lambda>pid.
     seqE (dl_change (\<lambda>s. s\<lparr>dl_processes := AList.update (dw_id row) pid (dl_processes s),
        dl_open_logs := List.insert (dw_id row) (dl_open_logs s)\<rparr>)) (\<lambda>_.
     seqE (dl_call (en_clock env)) (\<lambda>now2.
     seqE (on_store (update_status now2 (dw_id row) ''running'' (Some pid) None None)) (\<lambda>_.
     download_status env (dw_id row)))))))))))))))))))"

definition delete_one :: "'w dl_env \<Rightarrow> string \<Rightarrow> ('w dl_state, unit) eff" where
  "delete_one env i =
     seqE (download_status env i) (\<lambda>pg.
     if dw_status (pg_record pg) = ''running''
     then raise_exn (Exn ''ValueError'' ''Cannot delete a running download'')
     else seqE (dl_change (drop_process i)) (\<lambda>_. on_store (delete_download i)))"

definition dl_signal :: "'w dl_env \<Rightarrow> int \<Rightarrow> int \<Rightarrow> ('w dl_state, unit) eff" where
  "dl_signal env pid sig =
     seqE (dl_call (os_poll (en_os env) pid)) (\<lambda>code.
     if code \<noteq> None then ret ()
     else seqE (dl_call (os_kill (en_os env) pid sig)) (\<lambda>r.
       case r of NotPermitted \<Rightarrow> raise_exn (Exn ''PermissionError'' ''Operation not permitted'') | _ \<Rightarrow> ret ()))"

definition terminate_process :: "'w dl_env \<Rightarrow> int \<Rightarrow> ('w dl_state, unit) eff" where
  "terminate_process env pid =
     seqE (dl_signal env pid sigterm) (\<lambda>_.
     seqE (dl_call (os_wait (en_os env) pid 5)) (\<lambda>code.
     if code \<noteq> None then ret ()
     else seqE (dl_signal env pid sigkill) (\<lambda>_.
       seqE (dl_call (os_wait (en_os env) pid 5)) (\<lambda>code.
       if code \<noteq> None then ret () else raise_exn (Exn ''TimeoutExpired'' (str_int pid))))))"

definition cancel_returncode :: "int \<Rightarrow> int option \<Rightarrow> int" where
  "cancel_returncode pid code = (case code of Some c \<Rightarrow> c | None \<Rightarrow> if pid \<noteq> 0 then - sigterm else -1)"

definition cancel_download :: "'w dl_env \<Rightarrow> string \<Rightarrow> ('w dl_state, download) eff" where
  "cancel_download env i =
     seqE (download_status env i) (\<lambda>pg.
     if dw_status (pg_record pg) \<noteq> ''running''
     then raise_exn (Exn ''ValueError'' ''Only running downloads can be cancelled'')
     else seqE (dl_ask (\<lambda>s. map_of (dl_processes s) i)) (\<lambda>p.
     case p of
       None \<Rightarrow> raise_exn (Exn ''ValueError'' ''Download is no longer running'')
     | Some pid \<Rightarrow>
         seqE (terminate_process env pid) (\<lambda>_.
         seqE (dl_change (drop_process i)) (\<lambda>_.
         seqE (dl_call (os_poll (en_os env) pid)) (\<lambda>code.
         seqE (dl_call (en_clock env)) (\<lambda>now.
         on_store (update_status now i ''cancelled'' None (Some (cancel_returncode pid code))
           (Some ''Download cancelled by user''))))))))"

section \<open>Listings\<close>

definition history :: "'w dl_env \<Rightarrow> string option \<Rightarrow> int \<Rightarrow> ('w dl_state, progress list) eff" where
  "history env st limit =
     seqE (dl_ask (\<lambda>s. list_downloads (dl_db s) st limit)) (\<lambda>rows.
     foldr (\<lambda>d k. seqE (download_status env (dw_id d)) (\<lambda>pg. seqE k (\<lambda>pgs. ret (pg # pgs)))) rows (ret []))"

definition download_log_path :: "'w dl_env \<Rightarrow> string \<Rightarrow> ('w dl_state, string) eff" where
  "download_log_path env i = seqE (download_status env i) (\<lambda>pg. ret (dw_log (pg_record pg)))"

definition download_tail_logs :: "'w dl_env \<Rightarrow> string \<Rightarrow> int \<Rightarrow> ('w dl_state, string) eff" where
  "download_tail_logs env i lines =
     seqE (download_status env i) (\<lambda>pg.
     seqE (dl_call (os_log (en_os env) (dw_log (pg_record pg)))) (\<lambda>content.
     ret (case content of
       None \<Rightarrow> []
     | Some bytes \<Rightarrow>
         concat (last_lines (nat (max 1 (min lines 2000)))
           (read_lines [] (text_newlines (os_decode (en_os env) bytes)))))))"

record model_entry =
  me_repo :: string
  me_path :: string
  me_download :: string
  me_status :: string
  me_updated :: int

fun latest_per_repo :: "string list \<Rightarrow> download list \<Rightarrow> model_entry list" where
  "latest_per_repo seen [] = []"
| "latest_per_repo seen (d # ds) =
     (let repo = strip (dw_repo d) in
      if repo = [] \<or> repo \<in> set seen then latest_per_repo seen ds
      else \<lparr>me_repo = repo, me_path = dw_path d, me_download = dw_id d, me_status = dw_status d,
            me_updated = dw_updated d\<rparr> # latest_per_repo (repo # seen) ds)"

definition list_downloaded_models :: "'w dl_state \<Rightarrow> model_entry list" where
  "list_downloaded_models s =
     sort_key (\<lambda>e. lower (me_repo e)) (latest_per_repo [] (list_downloads (dl_db s) None 50))"

text \<open>Recommendations are kept for an hour.\<close>

definition recommendations :: "'w dl_env \<Rightarrow> pyval \<Rightarrow> ('w dl_state, pyval) eff" where
  "recommendations env machine =
     (if np_offline (en_policy env)
      then ret (PDict [(''recommendations'', PList []), (''offline_mode'', PBool True),
        (''message'', PStr ''Download recommendations that require public Hugging Face access are blocked because offline_mode is enabled.'')])
      else seqE (dl_call (os_now (en_os env))) (\<lambda>now.
        seqE (dl_ask dl_cache) (\<lambda>cache.
        case (case cache of Some (kept_at, payload) \<Rightarrow> if now - kept_at < 3600 then Some payload else None | None \<Rightarrow> None) of
          Some payload \<Rightarrow> ret payload
        | None \<Rightarrow>
            seqE (dl_call (en_recommend env machine)) (\<lambda>payload.
            seqE (dl_change (\<lambda>s. s\<lparr>dl_cache := Some (now, payload)\<rparr>)) (\<lambda>_. ret payload)))))"

record quant_entry =
  qe_filename :: string
  qe_path :: string
  qe_size :: "int option"
  qe_quant :: "string option"
  qe_mmproj :: "(string \<times> string \<times> int option \<times> string option) option"

definition quant_entry_of :: "'w dl_env \<Rightarrow> hf_file \<Rightarrow> quant_entry" where
  "quant_entry_of env f =
     \<lparr>qe_filename = (let ps = path_parts (hf_path f) in if ps = [] then [] else last ps), qe_path = hf_path f,
      qe_size = hf_size f, qe_quant = en_quant env (hf_path f), qe_mmproj = None\<rparr>"

definition is_mmproj_path :: "string \<Rightarrow> bool" where
  "is_mmproj_path p = contains ''mmproj'' (lower (let ps = path_parts p in if ps = [] then [] else last ps))"

definition quant_key :: "quant_entry \<Rightarrow> string" where
  "quant_key e = map upper_char (case qe_quant e of None \<Rightarrow> [] | Some q \<Rightarrow> q)"

text \<open>The projector with the same quantisation (F16 also for BF16), else the largest; of two with one
  quantisation the last.\<close>

definition attach_mmprojs :: "quant_entry list \<Rightarrow> quant_entry list \<Rightarrow> quant_entry list" where
  "attach_mmprojs quants mmprojs =
     (case sort_key (\<lambda>e. - or_int (qe_size e) 0) mmprojs of
        [] \<Rightarrow> quants
      | fallback # _ \<Rightarrow>
          map (\<lambda>e.
            let by = (\<lambda>k. List.find (\<lambda>m. quant_key m = k) (rev mmprojs));
                m = (case by (quant_key e) of
                       Some m \<Rightarrow> m
                     | None \<Rightarrow>
                         (case (if quant_key e = ''BF16'' then by ''F16'' else None) of
                            Some m \<Rightarrow> m | None \<Rightarrow> fallback))
            in e\<lparr>qe_mmproj := Some (qe_filename m, qe_path m, qe_size m, qe_quant m)\<rparr>) quants)"

definition list_remote_quants :: "'w dl_env \<Rightarrow> string \<Rightarrow> string option \<Rightarrow> ('w dl_state, quant_entry list) eff" where
  "list_remote_quants env repo_id revision =
     seqE (dl_check (\<lambda>_. normalize_repo_id repo_id)) (\<lambda>repo.
     seqE (assert_huggingface_allowed env (''list Hugging Face quants for '' @ repo)) (\<lambda>_.
     seqE (list_repo_tree env repo revision) (\<lambda>fs.
     let ggufs = filter (\<lambda>f. ends_with ''.gguf'' (lower (hf_path f))) fs;
         entries = map (quant_entry_of env) ggufs;
         mmprojs = filter (\<lambda>e. is_mmproj_path (qe_path e)) entries;
         quants = filter (\<lambda>e. \<not> is_mmproj_path (qe_path e)) entries
     in ret (sort_key (\<lambda>e. lower (qe_path e)) (attach_mmprojs quants mmprojs)))))"

end
