(* ===== verification/Download_Safety.thy ===== *)
theory Download_Safety
  imports Download_Manager Asset_Safety Process_Safety
begin

text \<open>
  Downloads and the inventory: what a reconciliation leaves in the store of files, what the words of
  a command line are, that a download that has ended stays so, and how one is lost for ever.
\<close>

section \<open>Command lines\<close>

definition plain_word :: "string \<Rightarrow> bool" where
  "plain_word w \<longleftrightarrow> w \<noteq> [] \<and> (\<forall>c \<in> set w. \<not> shell_space c \<and> c \<noteq> CHR 0x5C \<and> c \<notin> quote_chars)"

lemma lex_word:
  "\<forall>c \<in> set v. \<not> shell_space c \<and> c \<noteq> CHR 0x5C \<and> c \<notin> quote_chars \<Longrightarrow> v \<noteq> [] \<or> st = Bare \<Longrightarrow> st \<in> {Blank, Bare} \<Longrightarrow>
     lex st quoted w (v @ s) = lex Bare quoted (rev v @ w) s"
  by (induction v arbitrary: w st) auto

lemma lex_first_word:
  assumes "plain_word w"
  shows "lex Blank False [] (w @ s) = lex Bare False (rev w) s"
  using lex_word [of w Blank False "[]" s] assms by (simp add: plain_word_def)

declare lex.simps [simp del]

lemma lex_words:
  "\<forall>w \<in> set ws. plain_word w \<Longrightarrow> lex Blank False [] (join '' '' ws) = Inr ws"
proof (induction ws rule: induct_list012)
  case 1
  show ?case by (simp add: lex.simps emit_word_def)
next
  case (2 w)
  then show ?case
    using lex_first_word [of w "[]"] by (simp add: lex.simps emit_word_def plain_word_def)
next
  case (3 w v ws)
  have "lex Bare False (rev w) (CHR '' '' # join '' '' (v # ws))
      = map_sum id (\<lambda>us. emit_word False (rev w) @ us) (lex Blank False [] (join '' '' (v # ws)))"
    by (simp only: lex.simps lexer.case) (simp add: shell_space_def)
  with 3 show ?case
    using lex_first_word [of w "CHR '' '' # join '' '' (v # ws)"] by (simp add: emit_word_def plain_word_def)
qed

lemma include_args_flags: "include_args (concat (map (\<lambda>f. [''--include'', f]) fs)) = fs"
  by (induction fs) auto

lemma include_args_skip:
  "a \<noteq> ''--include'' \<Longrightarrow> include_args (a # ws) = include_args ws"
  by (cases ws) auto

text \<open>C38. The record of a download stores its command as one line, and progress, registration and
  provenance read the names of the files from that line: for words without blanks, quotes and
  backslashes they get back exactly the files the download was started with.\<close>

theorem command_gives_back_files:
  assumes "\<forall>w \<in> set (download_command env target repo revision fs). plain_word w"
    and "''--include'' \<notin> {en_python env, repo, target}" "revision \<noteq> Some ''--include''"
    and "\<forall>f \<in> set fs. valid_include f = Some f"
  shows "included_files (join '' '' (download_command env target repo revision fs)) = fs \<and>
    included_files_from_command (join '' '' (download_command env target repo revision fs)) = fs"
proof -
  have "include_args (download_command env target repo revision fs) = fs"
    using assms(2,3)
    by (auto simp: download_command_def include_args_skip include_args_flags split: option.split list.split)
  then have files: "included_files (join '' '' (download_command env target repo revision fs)) = fs"
    using lex_words [OF assms(1)] by (simp add: included_files_def shlex_split_def)
  have "List.map_filter valid_include fs = fs"
    using assms(4) by (induction fs) (auto simp: map_filter_simps)
  then show ?thesis
    by (simp add: files included_files_from_command_def)
qed

text \<open>A blank in the name of a file, which \<open>normalize_include_file\<close> allows, splits it.\<close>

lemma blank_splits_name:
  "valid_include ''my model.gguf'' = Some ''my model.gguf''"
  "included_files_from_command (join '' '' [''hf'', ''--include'', ''my model.gguf'']) = []"
  by code_simp+

section \<open>Reconciliation\<close>

definition present :: "asset_db \<Rightarrow> string \<Rightarrow> bool" where
  "present db q \<longleftrightarrow> (\<exists>a \<in> set (ad_assets db). as_path a = q \<and> \<not> as_missing a)"

lemma upsert_present:
  assumes "assets_ok db"
  shows "present (snd (upsert_asset now x db)) q \<longleftrightarrow> q = as_path x \<or> present db q"
proof -
  have row: "get_asset_by_path db' p = Some a \<longleftrightarrow> a \<in> set (ad_assets db') \<and> as_path a = p" if "assets_ok db'" for db' p a
    using find_unique [OF assets_okD(2) [OF that]] find_Some_iff'
    by (fastforce simp: get_asset_by_path_def)
  have ok: "assets_ok (snd (upsert_asset now x db))" by (rule upsert_asset_ok [OF assms])
  have look: "present db' p \<longleftrightarrow> (\<exists>a. get_asset_by_path db' p = Some a \<and> \<not> as_missing a)" if "assets_ok db'" for db' p
    unfolding present_def row [OF that] by blast
  show ?thesis
  proof (cases "q = as_path x")
    case True
    then show ?thesis
      unfolding look [OF ok] using asset_upsert_row(2) [OF assms, of now x]
      by (auto simp: new_fields split: option.split)
  next
    case False
    then show ?thesis unfolding look [OF ok] look [OF assms] using asset_upsert_row(3) [OF assms] by simp
  qed
qed

definition scanned :: "files \<Rightarrow> path list \<Rightarrow> string list \<Rightarrow> bool" where
  "scanned fs ps seen = list_all2 (\<lambda>p t. \<exists>q. resolve_path fs p = Inr q \<and> t = path_str q) ps seen"

lemma scan_paths_spec:
  assumes "assets_ok db" "scan_paths fs ds clk ps n db = (r, db')"
  shows "assets_ok db' \<and> (\<forall>rows seen. r = Inr (rows, seen) \<longrightarrow>
    scanned fs ps seen \<and> (\<forall>q. present db' q \<longleftrightarrow> q \<in> set seen \<or> present db q))"
  using assms
proof (induction ps arbitrary: db n r)
  case Nil
  then show ?case by (auto simp: ret_def scanned_def)
next
  case (Cons p ps)
  show ?case
  proof (cases "\<exists>q s. resolve_path fs p = Inr q \<and> lookup_entry fs q \<noteq> None \<and> match_download fs q ds = Inr s")
    case False
    then have "db' = db \<and> (\<exists>e. r = Inl e)" using Cons.prems(2) by (auto split: sum.splits if_splits)
    then show ?thesis using Cons.prems(1) by auto
  next
    case True
    then obtain q s where q: "resolve_path fs p = Inr q" "lookup_entry fs q \<noteq> None" "match_download fs q ds = Inr s"
      by blast
    let ?x = "scanned_asset fs q s" and ?db = "snd (upsert_asset (clk n) (scanned_asset fs q s) db)"
    obtain a where a: "upsert_asset (clk n) ?x db = (Inr a, ?db)"
      using asset_upsert_row(1) [OF Cons.prems(1), of "clk n" ?x] by (cases "upsert_asset (clk n) ?x db") auto
    obtain r1 where r1: "scan_paths fs ds clk ps (Suc n) ?db = (r1, db')"
      and r: "r = map_sum id (\<lambda>(rows, seen). (a # rows, path_str q # seen)) r1"
      using Cons.prems(2) q a by (auto simp: seqE_def ret_def split: prod.splits sum.splits)
    have path: "as_path ?x = path_str q" by (simp add: scanned_asset_def)
    from Cons.IH [OF upsert_asset_ok [OF Cons.prems(1)] r1] show ?thesis
      using q(1) r upsert_present [OF Cons.prems(1), of "clk n" ?x] path
      by (cases r1) (auto simp: scanned_def)
  qed
qed

lemma reconcile_missing:
  assumes "assets_ok db" "reconcile_scan fs ds clk ps db = (Inr rows, db')"
  shows "\<exists>seen. scanned fs ps seen \<and> (\<forall>a \<in> set (ad_assets db'). as_missing a \<longleftrightarrow> as_path a \<notin> set seen) \<and>
    (\<forall>q \<in> set seen. present db' q) \<and> assets_ok db'"
proof -
  obtain seen db1 where scan: "scan_paths fs ds clk ps 0 db = (Inr (rows, seen), db1)"
    and db': "db' = snd (mark_missing_assets (map as_id (filter (\<lambda>a. as_path a \<notin> set seen) (list_assets db1))) db1)"
    using assms(2) by (auto simp: reconcile_scan_def seqE_def split: prod.splits sum.splits)
  note spec = scan_paths_spec [OF assms(1) scan]
  then have ok: "assets_ok db1" and sc: "scanned fs ps seen" and pr: "\<forall>q \<in> set seen. present db1 q" by auto
  let ?ids = "map as_id (filter (\<lambda>a. as_path a \<notin> set seen) (list_assets db1))"
  have ids: "as_id a \<in> set ?ids \<longleftrightarrow> as_path a \<notin> set seen" if "a \<in> set (ad_assets db1)" for a
    using distinct_map_unique [OF assets_okD(1) [OF ok]] that by (auto simp: list_assets_def)
  have rows': "ad_assets db' = map (\<lambda>a. if as_path a \<notin> set seen then a\<lparr>as_missing := True\<rparr> else a) (ad_assets db1)"
    using ids unfolding db' mark_missing_assets_def map_if_def
    by (auto simp: filter_empty_conv list_assets_def intro!: map_idI [symmetric])
  have seen_present: "\<not> as_missing a" if "a \<in> set (ad_assets db1)" "as_path a \<in> set seen" for a
    using pr that distinct_map_unique [OF assets_okD(2) [OF ok] that(1)] unfolding present_def by metis
  have "assets_ok db'" unfolding db' using asset_step_ok [OF marked_missing ok] .
  moreover have "\<forall>q \<in> set seen. present db' q"
    using pr unfolding present_def rows' by force
  moreover have "\<forall>a \<in> set (ad_assets db'). as_missing a \<longleftrightarrow> as_path a \<notin> set seen"
    using seen_present unfolding rows' by auto
  ultimately show ?thesis using sc by blast
qed

text \<open>C39. A reconciliation that succeeds makes the marks of the store agree with the paths it was given,
  and with nothing else: a file is marked missing if and only if it is none of the paths, after
  following links, and every path is on record and present.\<close>

theorem reconcile_exact:
  assumes "assets_ok db" "reconcile_scan fs ds clk ps db = (Inr rows, db')"
  shows "\<exists>seen. scanned fs ps seen \<and> (\<forall>a \<in> set (ad_assets db'). as_missing a \<longleftrightarrow> as_path a \<notin> set seen) \<and>
    (\<forall>q \<in> set seen. present db' q) \<and> assets_ok db'"
  using reconcile_missing [OF assms] .

text \<open>The manager of downloads gives the inventory only the files of the download that ended: all other
  files are then marked missing although they are there, and the next cleaning deletes the old ones
  that no model uses.\<close>

lemma partial_scan_hides_others:
  assumes "assets_ok db" "reconcile_scan fs ds clk ps db = (Inr rows, db')" "b \<in> set (ad_assets db')"
    and "\<forall>p \<in> set ps. \<forall>q. resolve_path fs p = Inr q \<longrightarrow> path_str q \<noteq> as_path b"
  shows "as_missing b"
proof -
  obtain seen where seen: "scanned fs ps seen" "as_missing b \<longleftrightarrow> as_path b \<notin> set seen"
    using reconcile_missing [OF assms(1,2)] assms(3) by blast
  have "as_path b \<notin> set seen"
    using seen(1) assms(4) unfolding scanned_def by (induction ps seen rule: list_all2_induct) auto
  with seen(2) show ?thesis by simp
qed

section \<open>A download that has ended\<close>

text \<open>\<open>settled i st\<close>: the record of \<open>i\<close>, as long as there is one, has the status \<open>st\<close>.\<close>

definition settled :: "string \<Rightarrow> string \<Rightarrow> 'w dl_state \<Rightarrow> bool" where
  "settled i st s \<longleftrightarrow> (\<forall>d \<in> set (dd_rows (dl_db s)). dw_id d = i \<longrightarrow> dw_status d = st) \<and>
     (\<exists>k < dd_counter (dl_db s). i = nat_digits k)"

lemma keeps_dl [keep_rules]:
  "keeps (settled i st) (dl_call c)" "keeps (settled i st) (dl_try t)"
  "keeps (settled i st) (dl_ask f)" "keeps (settled i st) (dl_check h)"
  by (auto simp: keeps_def dl_call_def dl_try_def dl_ask_def dl_check_def settled_def split: prod.splits)

lemma keeps_dl_change [keep_rules]:
  "(\<And>s. dl_db (k s) = dl_db s) \<Longrightarrow> keeps (settled i st) (dl_change k)"
  by (simp add: keeps_def dl_change_def settled_def)

lemma drop_process_db [simp]: "dl_db (drop_process i s) = dl_db s"
  by (simp add: drop_process_def close_log_def)

lemma keeps_update [keep_rules]:
  assumes "st \<in> set terminal_statuses"
  shows "keeps (settled i st) (on_store (update_status now j st' pid code err))"
proof -
  have "settled i st (s\<lparr>dl_db := snd (update_status now j st' pid code err (dl_db s))\<rparr>)" if "settled i st s" for s :: "'a dl_state"
  proof (cases "find_download (dl_db s) j")
    case None
    with that show ?thesis by (simp add: update_status_def settled_def)
  next
    case (Some row)
    then have row: "row \<in> set (dd_rows (dl_db s))" "dw_id row = j"
      by (auto simp: find_download_def dest: find_Some_iff')
    show ?thesis
    proof (cases "j = i \<and> st' \<noteq> st")
      case True
      then have "dw_status row = st" using that row by (simp add: settled_def)
      with True Some assms that show ?thesis by (auto simp: update_status_def settled_def)
    next
      case False
      then show ?thesis
        using that Some by (auto simp: update_status_def settled_def set_map_if status_row_def Let_def)
    qed
  qed
  then show ?thesis by (auto simp: keeps_def on_store_def split: prod.splits) (metis snd_conv)
qed

lemma keeps_create [keep_rules]: "keeps (settled i st) (on_store (create_download now r v p c l t b))"
  by (auto simp: keeps_def on_store_def create_download_def settled_def Let_def less_Suc_eq split: prod.splits)

lemma keeps_delete [keep_rules]: "keeps (settled i st) (on_store (delete_download j))"
  by (auto simp: keeps_def on_store_def delete_download_def settled_def split: prod.splits option.splits)

lemma keeps_tree [keep_rules]: "keeps (settled i st) (list_repo_tree env repo v)"
  unfolding list_repo_tree_def by (auto intro!: keep_rules split: sum.split)

lemma keeps_register [keep_rules]: "keeps (settled i st) (register_downloaded_assets env d)"
proof -
  have "keeps (settled i st) (\<lambda>s. case reconcile_scan (dl_files s) (list_downloads (dl_db s) None 500)
      (\<lambda>n. now + int n) paths (dl_assets s) of
      (Inl e, a) \<Rightarrow> (Inl e, s\<lparr>dl_assets := a\<rparr>) | (Inr _, a) \<Rightarrow> (Inr (), s\<lparr>dl_assets := a\<rparr>))" for now paths
    by (auto simp: keeps_def settled_def split: prod.split sum.split)
  then show ?thesis
    unfolding register_downloaded_assets_def by (auto intro!: keep_rules)
qed

lemma keeps_download_status [keep_rules]:
  "st \<in> set terminal_statuses \<Longrightarrow> keeps (settled i st) (download_status env j)"
  unfolding download_status_def by (auto intro!: keep_rules split: option.split)

lemma keeps_reap [keep_rules]: "keeps (settled i st) (reap env ps)"
  by (induction env ps rule: reap.induct) (auto intro!: keep_rules)

lemma keeps_busy [keep_rules]: "keeps (settled i st) (refuse_busy env repo ps)"
  by (induction env repo ps rule: refuse_busy.induct) (auto intro!: keep_rules)

lemma keeps_space [keep_rules]: "keeps (settled i st) (first_with_space env n rs)"
  by (induction env n rs rule: first_with_space.induct) (auto intro!: keep_rules)

lemma keeps_start_download [keep_rules]:
  assumes "st \<in> set terminal_statuses"
  shows "keeps (settled i st) (start_download env repo by_whom v inc mm)"
  unfolding start_download_def Let_def assert_huggingface_allowed_def bytes_total_for_include_def
    select_download_root_def using assms
  by (auto intro!: keep_rules split: option.split)

lemma keeps_delete_one [keep_rules]:
  "st \<in> set terminal_statuses \<Longrightarrow> keeps (settled i st) (delete_one env j)"
  unfolding delete_one_def by (auto intro!: keep_rules)

lemma keeps_cancel [keep_rules]:
  "st \<in> set terminal_statuses \<Longrightarrow> keeps (settled i st) (cancel_download env j)"
  unfolding cancel_download_def terminate_process_def dl_signal_def
  by (auto intro!: keep_rules split: option.split kill_result.split)

text \<open>The operations of the manager; the world and the files change between them.\<close>

inductive download_step :: "'w dl_env \<Rightarrow> 'w dl_state \<Rightarrow> 'w dl_state \<Rightarrow> bool" for env :: "'w dl_env" where
  download_started: "download_step env s (snd (start_download env repo whom v inc mm s))"
| download_asked: "download_step env s (snd (download_status env j s))"
| download_cancelled: "download_step env s (snd (cancel_download env j s))"
| download_deleted: "download_step env s (snd (delete_one env j s))"
| world_changed: "download_step env s (s\<lparr>dl_world := w, dl_files := fs, dl_assets := db\<rparr>)"

lemma step_settled:
  assumes "st \<in> set terminal_statuses"
  shows "download_step env s t \<Longrightarrow> settled i st s \<Longrightarrow> settled i st t"
proof (induction rule: download_step.induct)
  case (download_started s repo whom v inc mm)
  then show ?case using keeps_start_download [OF assms] unfolding keeps_def by blast
next
  case (download_asked s j)
  then show ?case using keeps_download_status [OF assms] unfolding keeps_def by blast
next
  case (download_cancelled s j)
  then show ?case using keeps_cancel [OF assms] unfolding keeps_def by blast
next
  case (download_deleted s j)
  then show ?case using keeps_delete_one [OF assms] unfolding keeps_def by blast
next
  case (world_changed s w fs db)
  then show ?case by (simp add: settled_def)
qed

text \<open>C40. A download that has ended has ended: whatever is started, asked, cancelled or deleted after that,
  and whatever the processes do, its record keeps the status \<open>succeeded\<close>, \<open>failed\<close> or \<open>cancelled\<close> it
  got, until it is deleted; its id is never used again.\<close>

theorem ended_downloads_stay_ended:
  assumes "settled i st s" "st \<in> set terminal_statuses" "(download_step env)\<^sup>*\<^sup>* s t"
    and "d \<in> set (dd_rows (dl_db t))" "dw_id d = i"
  shows "dw_status d = st"
proof -
  have "settled i st t" using assms(3,1) by (induction rule: rtranclp_induct) (auto intro: step_settled [OF assms(2)])
  then show ?thesis using assms(4,5) by (simp add: settled_def)
qed

section \<open>A download that is lost\<close>

text \<open>\<open>start\<close> drops the processes that have ended without writing their end into the record.\<close>

lemma reap_forgets:
  assumes "os_poll (en_os env) pid (dl_world s) = (Some c, w)" "map_of (dl_processes s) i = Some pid"
  shows "\<exists>s'. reap env [(i, pid)] s = (Inr (), s') \<and> dl_db s' = dl_db s \<and> map_of (dl_processes s') i = None"
  using assms
  by (simp add: seqE_def dl_call_def dl_change_def ret_def drop_process_def close_log_def delete_conv')

text \<open>Such a record, and one of a process that the last life of the manager started, says running for
  ever: a status does not change it, it can neither be cancelled nor deleted.\<close>

lemma lost_download_is_stuck:
  assumes "find_download (dl_db s) i = Some d" "dw_status d = ''running''" "map_of (dl_processes s) i = None"
  shows "download_status env i s = (Inr (with_progress (dl_files s) d), s)"
    "cancel_download env i s = (Inl (Exn ''ValueError'' ''Download is no longer running''), s)"
    "delete_one env i s = (Inl (Exn ''ValueError'' ''Cannot delete a running download''), s)"
proof -
  show st: "download_status env i s = (Inr (with_progress (dl_files s) d), s)"
    using assms by (simp add: download_status_def seqE_def dl_check_def dl_ask_def get_download_def found_def ret_def)
  show "cancel_download env i s = (Inl (Exn ''ValueError'' ''Download is no longer running''), s)"
    "delete_one env i s = (Inl (Exn ''ValueError'' ''Cannot delete a running download''), s)"
    using st assms
    by (simp_all add: cancel_download_def delete_one_def seqE_def dl_ask_def raise_exn_def with_progress_def Let_def)
qed

lemma cancel_ended:
  assumes "find_download (dl_db s) i = Some d" "dw_status d \<noteq> ''running''" "map_of (dl_processes s) i = None"
  shows "cancel_download env i s = (Inl (Exn ''ValueError'' ''Only running downloads can be cancelled''), s)"
proof -
  have "download_status env i s = (Inr (with_progress (dl_files s) d), s)"
    using assms by (simp add: download_status_def seqE_def dl_check_def dl_ask_def get_download_def found_def ret_def)
  then show ?thesis
    using assms by (simp add: cancel_download_def seqE_def raise_exn_def with_progress_def Let_def)
qed

section \<open>Space and progress\<close>

text \<open>A download goes to a root with room for the file and ten gigabytes more.\<close>

lemma selected_root_has_room:
  "first_with_space env n rs s = (Inr r, s') \<Longrightarrow>
     r \<in> set rs \<and> (\<exists>p w w' free. en_free env p w = (Inr free, w') \<and> n \<le> free)"
  by (induction rs arbitrary: s)
     (auto simp: raise_exn_def seqE_def dl_ask_def dl_try_def ret_def split: prod.splits sum.splits if_splits)

lemma progress_in_range:
  "pg_percent (with_progress fs d) = Some n \<Longrightarrow> 0 \<le> n \<and> n \<le> 100"
  by (auto simp: with_progress_def Let_def downloaded_size_def pos_imp_zdiv_nonneg_iff
      split: option.splits if_splits prod.splits entry.splits)

end
