(* ===== verification/Download_Demo.thy ===== *)
theory Download_Demo
  imports Download_Safety Process_Demo
begin

text \<open>
  Downloads on the small machine of \<^theory_text>\<open>Process_Demo\<close>: the properties of \<^theory_text>\<open>Download_Safety\<close> applied,
  and a file that is on the disk and marked missing.
\<close>

definition demo_dl_env :: "box dl_env" where
  "demo_dl_env = \<lparr>en_os = box_os, en_tree = (\<lambda>r v w. (Inr [], w)), en_free = (\<lambda>p w. (Inr (10 ^ 12), w)),
     en_clock = (\<lambda>w. (0, w)), en_recommend = (\<lambda>m w. (m, w)), en_quant = (\<lambda>p. None),
     en_policy = \<lparr>np_offline = False, np_hosts = [], np_networks = []\<rparr>, en_roots = [''/models''],
     en_python = ''python3'', en_logs = ''logs'', en_inventory = True\<rparr>"

theorem command_gives_back_files_witness:
  "included_files_from_command (join '' '' (download_command demo_dl_env ''/models/o__r'' ''o/r'' None [''a.gguf''])) = [''a.gguf'']"
proof -
  have "list_all plain_word (download_command demo_dl_env ''/models/o__r'' ''o/r'' None [''a.gguf''])" by code_simp
  moreover have "valid_include ''a.gguf'' = Some ''a.gguf''" by code_simp
  ultimately show ?thesis
    by (intro command_gives_back_files [THEN conjunct2]) (auto simp: list_all_iff demo_dl_env_def)
qed

section \<open>Two files on the disk\<close>

definition demo_files :: files where
  "demo_files = \<lparr>fs_entries = [([''models''], Dir), ([''models'', ''a.gguf''], File ''1234567''),
     ([''models'', ''b.gguf''], File ''123'')], fs_cwd = [], fs_links = 8, fs_log = []\<rparr>"

definition demo_rescan :: "(exn + asset list) \<times> asset_db" where
  "demo_rescan = reconcile_scan demo_files [] (\<lambda>n. 5) [[''models'', ''b.gguf'']] demo_db"

lemma demo_rescan_result:
  "map (\<lambda>a. (as_path a, as_missing a)) (ad_assets (snd demo_rescan))
     = [(''/models/a.gguf'', True), (''/models/b.gguf'', False)]"
  "is_file demo_files [''models'', ''a.gguf'']" "isl (fst demo_rescan) = False"
  by code_simp+

theorem reconcile_exact_witness:
  "\<exists>seen. scanned demo_files [[''models'', ''b.gguf'']] seen \<and>
     (\<forall>a \<in> set (ad_assets (snd demo_rescan)). as_missing a \<longleftrightarrow> as_path a \<notin> set seen) \<and>
     (\<forall>q \<in> set seen. present (snd demo_rescan) q) \<and> assets_ok (snd demo_rescan)"
proof -
  obtain rows where "reconcile_scan demo_files [] (\<lambda>n. 5) [[''models'', ''b.gguf'']] demo_db = (Inr rows, snd demo_rescan)"
    using demo_rescan_result(3) unfolding demo_rescan_def
    by (cases "reconcile_scan demo_files [] (\<lambda>n. 5) [[''models'', ''b.gguf'']] demo_db";
        cases "fst (reconcile_scan demo_files [] (\<lambda>n. 5) [[''models'', ''b.gguf'']] demo_db)") auto
  from reconcile_exact [OF demo_db_ok this] show ?thesis .
qed

section \<open>A failed download\<close>

definition demo_failed :: "box dl_state" where
  "demo_failed = \<lparr>dl_db = \<lparr>dd_rows = [\<lparr>dw_id = ''0'', dw_repo = ''o/r'', dw_revision = None, dw_path = ''/models/o__r'',
       dw_status = ''failed'', dw_started = Some 1, dw_finished = Some 2, dw_bytes_total = None, dw_pid = Some 5,
       dw_returncode = Some 1, dw_command = ''hf'', dw_log = ''logs/downloads/o__r.log'',
       dw_error = Some ''Downloader exited with code 1'', dw_by = ''ui'', dw_created = 1, dw_updated = 2\<rparr>], dd_counter = 1\<rparr>,
     dl_processes = [], dl_open_logs = [], dl_cache = None, dl_files = demo_files, dl_assets = demo_db, dl_world = demo_box\<rparr>"

theorem ended_downloads_stay_ended_witness:
  "fst (cancel_download demo_dl_env ''0'' demo_failed) = Inl (Exn ''ValueError'' ''Only running downloads can be cancelled'') \<and>
   map dw_status (dd_rows (dl_db (snd (cancel_download demo_dl_env ''0'' demo_failed)))) = [''failed'']"
proof -
  let ?t = "snd (cancel_download demo_dl_env ''0'' demo_failed)"
  have id: "nat_digits 0 = ''0''" by code_simp
  have "settled ''0'' ''failed'' demo_failed"
    using id by (auto simp: settled_def demo_failed_def intro!: exI [of _ 0])
  moreover have "(download_step demo_dl_env)\<^sup>*\<^sup>* demo_failed ?t" using download_cancelled by blast
  ultimately have ended: "dw_status d = ''failed''" if "d \<in> set (dd_rows (dl_db ?t))" "dw_id d = ''0''" for d
    using ended_downloads_stay_ended that by (metis list.set_intros(1,2) terminal_statuses_def)
  have run: "cancel_download demo_dl_env ''0'' demo_failed
      = (Inl (Exn ''ValueError'' ''Only running downloads can be cancelled''), demo_failed)"
    by (rule cancel_ended [where d = "hd (dd_rows (dl_db demo_failed))"]) (simp_all add: demo_failed_def find_download_def)
  obtain d where d: "dd_rows (dl_db ?t) = [d]" "dw_id d = ''0''"
    by (simp add: run) (simp add: demo_failed_def)
  then have "dw_status d = ''failed''" using ended by simp
  then have "map dw_status (dd_rows (dl_db ?t)) = [''failed'']" using d by simp
  with run show ?thesis by simp
qed

end
