(* ===== verification/Spec2Isabelle.thy ===== *)
theory Spec2Isabelle
  imports Clock Job_Outcomes Job_Properties Job_Runs Routing Thread_Log Workflow_Restore Model_Wait
    Access_Safety Registry_Safety Admission_Safety Chat_Slots Worker_Safety Doc_Safety
    Tool_Demo Gguf_Safety Process_Demo Download_Demo
begin

text \<open>
  Llama Pack runs language models on a few machines of a house or an office. A controller keeps
  the users, the threads of messages and a queue of jobs; nodes run the model servers and, as
  workers, take jobs from the controller. This development models the control plane, that is
  what decides who may do what, where a message goes, which worker has a job and which model
  runs where; it is a translation of the Python code under \<open>src/llama_pack/\<close>.

  \<^bold>\<open>Conventions.\<close> A Python class with state is a record and its methods are functions from the
  state to the new state; a database is a record of tables, a table is the list of its rows in
  insertion order, a transaction is a function that returns the database, and an exception gives
  \<open>Inl\<close> of the error and leaves the database as it was. Values of JSON columns and request bodies
  are \<open>pval\<close> (theory \<open>Prelude\<close>), with Python's truth test, equality, \<open>str\<close> and \<open>repr\<close>
  (\<open>Py_Text\<close>); strings are lists of characters up to U+00FF. Integers are unbounded, as in
  Python. Concurrency is modelled by the order of atomic steps: a step relation per component,
  where a step is what runs between two points at which other code may interleave (a
  transaction, or the code between two awaits). What lies outside the repository (a model
  server, an HTTP client, a random token, a digest, pydantic's conversion of one value, the
  handler of a plugin) is an argument of the definitions, and a theorem that needs something of
  it says so in a hypothesis.

  \<^bold>\<open>Prelude, Py_Text, Clock.\<close> Values, texts, lists, results; the locale \<open>inductive_invariant\<close>
  that every state machine interprets. \<open>Clock\<close> justifies the one abstraction that everything
  else rests on: the code compares instants as texts of \<open>isoformat()\<close>, the model compares
  numbers. The order of the texts is the order of the instants, whether or not the fraction of
  a second is written.

  \<^bold>\<open>Jobs\<close> (\<open>core/orchestration/\<close>, \<open>core/persistence/models/orchestration.py\<close>).
  \<open>Job_Store\<close> is the database and the repository (\<open>repo.py\<close>), \<open>Job_Lifecycle\<close> the operations
  of \<open>lifecycle.py\<close>: claim, progress, complete, fail, sweep; \<open>Job_Orchestrator\<close> the retention,
  the leader lease, the turn of the sweeper loop in \<open>main.py\<close> and the event stream.
  \<open>Job_Invariants\<close> and \<open>Job_Safety\<close> prove that every sequence of transactions keeps the
  referential integrity of the tables and the numbering of attempts. \<open>Job_Discipline\<close> adds what
  holds when nodes report only on attempts that are still active (a \<open>live_step\<close>): at most one
  worker per job. \<open>Job_Properties\<close> and \<open>Job_Outcomes\<close> state, for every branch, what each
  operation does to a reachable database; \<open>Job_Runs\<close> what holds of runs (finished jobs, leaders,
  the stream) and the runs on which the code does not do what it means to. \<open>Job_Demo\<close> is a
  concrete run on which these properties are applied.

  \<open>Job_Contracts\<close> is the check of job payloads (\<open>job_contracts.py\<close>); \<open>Contract_Safety\<close> proves
  that a stored payload passes it again unchanged, given that the conversion of one value is
  stable (\<open>settles\<close>, which the strict conversion \<open>strict_conv\<close> satisfies).

  \<^bold>\<open>Workers\<close> (\<open>core/nodes/worker.py\<close>, \<open>api/routes/node_work.py\<close>). \<open>Node_Worker\<close> is one round of a
  worker: claims, dispatch on the type, chats, embeddings, batches, transfers, reports. It runs
  in a world of any type, through the functions of a record \<open>worker_env\<close>, which stand for the
  HTTP client. \<open>Work_Api\<close> is the other end, the routes of the controller, over the job database
  of \<open>Job_Lifecycle\<close> and the node registry; a \<open>fate\<close> for each call says whether the network
  loses the request or the reply. \<open>Worker_Safety\<close> composes the two: the locale \<open>moving_env\<close> says
  that each function moves the world along a relation, and its interpretation on the routes
  gives the refinement of the orchestrator by the whole system of worker, network and routes.

  \<^bold>\<open>Nodes\<close> (\<open>core/nodes/registry.py\<close>). \<open>Node_Registry\<close> has the three tables (configured nodes,
  dynamic nodes, overrides), heartbeats, saving and loading; \<open>Registry_Safety\<close> shows that the
  two ways in which the code looks a node up agree in every state reached under one
  configuration, that a restart loses nothing, and what a changed configuration breaks.

  \<^bold>\<open>Threads\<close> (\<open>core/threads/\<close>, \<open>core/chat/context_*.py\<close>). \<open>Thread_Store\<close> is the log of events,
  whose instants increase whatever the clock does; \<open>Routing\<close> is the policy that chooses node and
  model for a message, all branches, and the fan-out; \<open>Thread_Context\<close> estimates tokens and
  builds and compacts the prompt; \<open>Thread_Turns\<close> is a turn: user message, route, prompt, reply or
  error, and the fan-out to several models. \<open>Thread_Log\<close> proves what a turn leaves in the log on
  every branch, by a weakest precondition \<open>wpl\<close> over the kinds of the events appended, and that
  compaction neither loses nor repeats a message. \<open>Workflows\<close> runs several steps on models that
  are loaded alone on their node (\<open>workflows.py\<close>, \<open>core/model_lifecycle.py\<close>); \<open>Workflow_Restore\<close>
  shows that on nodes that obey (\<open>faithful_nodes\<close>) the nodes afterwards run what they ran before.
  \<open>Model_Wait\<close> bounds the loop that waits for a model, \<open>Model_Paths\<close> the paths of requests.

  \<^bold>\<open>Access\<close> (\<open>core/app/auth_policy.py\<close>, \<open>core/persistence/auth_store_orm.py\<close>, \<open>main.py\<close>).
  \<open>Access_Keys\<close> has keys, roles and sessions, \<open>Access_Policy\<close> the middleware; \<open>Access_Safety\<close>
  shows who is served and what revocation means, and two ways around it.

  \<^bold>\<open>Chats on a node\<close> (\<open>core/chat/\<close>). \<open>Chat_Admission\<close> is the scheduler as a state machine of its
  requests: semaphores with first-in first-out waiters, time-outs, cancellation, streams;
  \<open>Admission_Safety\<close> accounts for every permit in every reachable state and shows that, unless a
  permit is lost, whoever waits can be served. \<open>Chat_Slots\<close> is the allocator of cache slots.

  \<^bold>\<open>Plugins\<close> (\<open>core/plugins/hooks.py\<close>, \<open>events.py\<close>). \<open>Plugin_Bus\<close>: hooks, vetoes, the event bus.

  \<^bold>\<open>Document collections\<close> (\<open>core/document_collections/\<close>). \<open>Doc_Chunking\<close> cuts a text into chunks,
  \<open>Doc_Store\<close> has the tables, the vector index, uploads, deletion and search. \<open>Doc_Chunks\<close> shows
  that the chunks are the text, when cutting ends and when it does not; \<open>Doc_Safety\<close> that a search
  finds only what is stored, and what an upload leaves behind on every branch.

  \<^bold>\<open>Agent tools\<close> (\<open>core/agent_tools/\<close>). A model may call tools; the code runs them and sends their
  results back. \<open>Tool_Paths\<close> is a file system with symbolic links and a log of accesses,
  \<open>Tool_Files\<close> the seven tools on files, \<open>Net_Policy\<close> addresses, URLs and the offline policy,
  \<open>Web_Fetch\<close> the tools on the network, \<open>Tool_Commands\<close> git, shell, SQLite, processes and memory,
  \<open>Tool_Trace\<close> the recorder of events and its live stream, \<open>Tool_Executor\<close> the table of adapters,
  the dispatch of a call and its log, \<open>Tool_Loop\<close> the loop of an agent with the review of answers.
  The outside world is of any type. \<open>Tool_Safety\<close> follows the accesses to files (\<open>grows\<close>),
  \<open>Net_Safety\<close> shows that the check of private addresses is exact on IPv4, \<open>Tool_Results\<close> states the
  contract of the adapters as the locale \<open>tool_adapters\<close> and interprets it on the table of the
  code, \<open>Tool_Confine\<close> composes all tools: they stay inside the safe roots, and any property of the
  world that the allowed actions keep is kept (\<open>tolerates\<close>). \<open>Tool_Agent\<close> bounds the calls of the
  model, and shows that every call of a tool is answered and that strict mode gives verified
  answers only. \<open>Tool_Demo\<close> has concrete runs and the ways out that the code leaves open.

  \<^bold>\<open>Model files\<close> (\<open>core/model_assets/gguf_metadata.py\<close>). \<open>Gguf_Reader\<close> reads the header of a model
  file from its bytes; \<open>Gguf_Safety\<close> shows that it returns for every file and that it is the
  inverse of a writer of the format. \<open>Asset_Store\<close> is the database of files, models, profiles,
  deployments and provenance (\<open>model_asset_store_orm.py\<close>); \<open>Asset_Safety\<close> proves the law of an upsert
  once, in the locale \<open>upsert_table\<close>, interprets it for the four tables, and shows what every
  sequence of operations keeps and what the cleaning deletes. \<open>Model_Catalog\<close> turns the rows into
  the configuration of a server and its command line (\<open>catalog_service.py\<close>, \<open>providers/llama_cpp.py\<close>).
  \<open>Model_Inventory\<close> compares the database with the files on disk (\<open>models_db.py\<close>) and holds the store
  of downloads; \<open>Download_Manager\<close> starts, watches and cancels downloads (\<open>downloads.py\<close>);
  \<open>Download_Safety\<close> and \<open>Download_Demo\<close> state what the records tell, and where they do not.

  \<^bold>\<open>Model servers\<close> (\<open>core/runtime/process_manager.py\<close>). \<open>Process_Manager\<close> starts, adopts, watches and
  stops the processes of the servers. The operating system is a record \<open>os\<close> of functions on a world
  of any type. \<open>Process_Safety\<close> shows, with a weakest precondition over this state, that the books of
  the manager and what it reports agree at any time, and that stopping ends the process;
  \<open>Process_Demo\<close> runs it on a small operating system.

  \<^bold>\<open>How the parts meet.\<close> A worker's calls pass the routes of \<open>Work_Api\<close>, which authenticate it
  with the registry and call the lifecycle; the leader of \<open>Job_Orchestrator\<close> sweeps the same
  database. A turn of a thread asks the policy of \<open>Routing\<close> (with the hooks of the plugins) for a
  node and sends to it through paths of \<open>Model_Paths\<close>; a workflow is a sequence of such turns
  between loading and restoring models. The middleware of \<open>Access_Policy\<close> stands before all of
  it, except the worker's routes.

  \<^bold>\<open>Bounds and fuel.\<close> Loops over lists are structural recursion and slices recurse on a
  measure. The waiting loop of \<open>Workflows\<close> takes fuel, since a clock may stand still;
  \<open>Model_Wait\<close> proves how much fuel gives a result on a steady clock (one poll for each second of
  the timeout that has begun, and one more), so the loop ends. The wait for an adopted process is
  such a loop too, with a poll every 50 milliseconds (\<open>wait_returns_in_time\<close> of \<open>Process_Safety\<close>). The reader of model files takes the number
  of bytes and one as fuel, which is never used up. Nothing else needs fuel.

  \<^bold>\<open>Hypotheses.\<close> \<open>live_step\<close> (reports on active attempts only), \<open>orderly_step\<close> (no cancellation
  that loses a permit), \<open>faithful_nodes\<close> (a node runs what it was told to start and not what it
  was told to stop), a steady clock for the loop and for the leader lease, \<open>settles\<close> for
  pydantic's conversions; for the tools, \<open>globs_below\<close> (matches of a pattern lie below the
  directory) and \<open>plain_roots\<close> (no links below a directory that is searched); for the
  catalog, \<open>model_complete\<close> (the row of a model names a registered file and its values pass the checks);
  for the processes, \<open>os_truthful\<close> (a process that is reported as ended has ended) and \<open>os_steady\<close>
  (a clock that runs); for the downloads, \<open>settled\<close> (the record has ended). Each theorem that has one comes with a witness, and where the code
  itself does not ensure it, with a theorem that shows what goes wrong without it.

  \<^bold>\<open>Not modelled.\<close> What only reads and writes files, starts processes, speaks HTTP or maps rows
  of tables without deciding anything: conversions, quantisations and transfers of model
  files, the recommendation of models, the other stores of \<open>core/persistence\<close>, most API routes,
  configuration files. Replies that are streamed token by token, the locks of turns and the
  cancellation of tasks (except in \<open>Chat_Admission\<close>) are left out of the thread service; the jobs
  that download, install and index are a parameter of the worker. Of the agent tools, the verifier
  of answers, the text of HTML pages, the store of the code graph and the evaluation bench are
  parameters or left out.
\<close>

end
